(* ===== verification/Sek8s_Prelude.thy ===== *)
theory Sek8s_Prelude
  imports Complex_Main "HOL-Library.Sublist" "HOL-Library.Char_ord" "HOL-Library.List_Lexorder"
    "HOL-Library.AList"
begin

text \<open>
  The prelude of the development: what the components share.
  \<^item> Python exceptions as values: \<open>exn\<close> and the result type \<open>'a res\<close>, with \<open>bindR\<close> for
    "run this, then that, unless it raised", \<open>mapM\<close> for a comprehension whose body may raise.
  \<^item> Python strings as \<open>string\<close>: a character is a code point below 256. \<open>split_on\<close>,
    \<open>split_once\<close>, \<open>rsplit_once\<close>, \<open>join_with\<close>, \<open>lower\<close>, \<open>strip\<close> model the \<open>str\<close> methods
    the sources call; \<open>startswith\<close>, \<open>endswith\<close> and \<open>contains\<close> abbreviate the library's
    \<open>prefix\<close>, \<open>suffix\<close> and \<open>sublist\<close>.
  \<^item> Parsed JSON as the datatype \<open>json\<close>, with \<open>py_get\<close> (\<open>dict.get\<close>), \<open>py_in\<close>
    (\<open>key in value\<close>), \<open>py_iter\<close> (\<open>for x in value\<close>) and \<open>truthy\<close>, each raising where
    Python raises.
  \<^item> Dictionaries as association lists in insertion order, stored and deleted with the
    library's \<open>AList.update\<close> and \<open>AList.delete\<close>; instants of the clock as \<open>rat\<close>.
\<close>

named_theorems res_simps \<open>how the result monad computes\<close>
named_theorems str_simps \<open>equations of the Python string operations\<close>

section \<open>Exceptions as values\<close>

text \<open>
  The exception classes the modelled code raises or catches by name. The string is the
  text \<open>str(e)\<close> where a caller shows it.
\<close>

datatype exn =
    ValueError string
  | TypeError string
  | AttributeError string
  | KeyError string
  | IndexError
  | ZeroDivisionError
  | RuntimeError string
  | PermissionError string
  | OSError int string
  | TimeoutError
  | JSONDecodeError
  | HTTPException int string
  | CosignRateLimitError string
  | CosignVerificationUnavailableError string
  | ConnectError string
  | CalledProcessError string
  | AttestationException string
  | NVMLError string
  | OtherException string

text \<open>\<open>str(e)\<close>.\<close>

fun exn_str :: "exn \<Rightarrow> string" where
  "exn_str (ValueError m) = m"
| "exn_str (TypeError m) = m"
| "exn_str (AttributeError m) = m"
| "exn_str (KeyError m) = m"
| "exn_str IndexError = ''list index out of range''"
| "exn_str ZeroDivisionError = ''integer division or modulo by zero''"
| "exn_str (RuntimeError m) = m"
| "exn_str (PermissionError m) = m"
| "exn_str (OSError n m) = m"
| "exn_str TimeoutError = []"
| "exn_str JSONDecodeError = ''Expecting value''"
| "exn_str (HTTPException n m) = m"
| "exn_str (CosignRateLimitError m) = m"
| "exn_str (CosignVerificationUnavailableError m) = m"
| "exn_str (ConnectError m) = m"
| "exn_str (CalledProcessError m) = m"
| "exn_str (AttestationException m) = m"
| "exn_str (NVMLError m) = m"
| "exn_str (OtherException m) = m"

type_synonym 'a res = "exn + 'a"
type_synonym time = rat

definition bindR :: "'a res \<Rightarrow> ('a \<Rightarrow> 'b res) \<Rightarrow> 'b res" where
  "bindR m f = (case m of Inl e \<Rightarrow> Inl e | Inr x \<Rightarrow> f x)"

lemma bindR_simps [simp, res_simps]:
  "bindR (Inl e) f = Inl e"
  "bindR (Inr x) f = f x"
  by (simp_all add: bindR_def)

lemma bindR_right [simp, res_simps]: "bindR m Inr = m"
  by (cases m) simp_all

lemma bindR_Inr_iff: "bindR m f = Inr y \<longleftrightarrow> (\<exists>x. m = Inr x \<and> f x = Inr y)"
  by (cases m) auto

lemma bindR_InrE:
  assumes "bindR m f = Inr y"
  obtains x where "m = Inr x" "f x = Inr y"
  using assms by (auto simp: bindR_Inr_iff)

text \<open>
  A postcondition of a computation that may raise: it holds for the result if there is one.
  The rules walk through a chain of \<open>bindR\<close> without unfolding it.
\<close>

definition okR :: "('a \<Rightarrow> bool) \<Rightarrow> 'a res \<Rightarrow> bool" where
  "okR Q m \<longleftrightarrow> (\<forall>x. m = Inr x \<longrightarrow> Q x)"

lemma okR_simps [simp]: "okR Q (Inl e)" "okR Q (Inr x) \<longleftrightarrow> Q x"
  by (simp_all add: okR_def)

lemma okR_bindI: "(\<And>x. m = Inr x \<Longrightarrow> okR Q (f x)) \<Longrightarrow> okR Q (bindR m f)"
  by (auto simp: okR_def bindR_Inr_iff)

lemma okR_ifI: "(b \<Longrightarrow> okR Q m) \<Longrightarrow> (\<not> b \<Longrightarrow> okR Q n) \<Longrightarrow> okR Q (if b then m else n)"
  by simp

lemma okRD: "okR Q m \<Longrightarrow> m = Inr x \<Longrightarrow> Q x"
  by (simp add: okR_def)

lemmas okR_intros = okR_bindI okR_ifI

lemma bindR_cong [fundef_cong]:
  "m = m' \<Longrightarrow> (\<And>x. m' = Inr x \<Longrightarrow> f x = g x) \<Longrightarrow> bindR m f = bindR m' g"
  by (cases m') auto

fun mapM :: "('a \<Rightarrow> 'b res) \<Rightarrow> 'a list \<Rightarrow> 'b list res" where
  "mapM f [] = Inr []"
| "mapM f (x # xs) = bindR (f x) (\<lambda>y. bindR (mapM f xs) (\<lambda>ys. Inr (y # ys)))"

text \<open>\<open>xs.extend(ys)\<close> where computing either side may raise.\<close>

definition appendR :: "'a list res \<Rightarrow> 'a list res \<Rightarrow> 'a list res" where
  "appendR a b = bindR a (\<lambda>xs. bindR b (\<lambda>ys. Inr (xs @ ys)))"

lemma appendR_Inr_iff:
  "appendR a b = Inr zs \<longleftrightarrow> (\<exists>xs ys. a = Inr xs \<and> b = Inr ys \<and> zs = xs @ ys)"
  by (auto simp: appendR_def bindR_Inr_iff)

lemma appendR_Inr [simp, res_simps]: "appendR (Inr xs) (Inr ys) = Inr (xs @ ys)"
  by (simp add: appendR_def)

lemma mapM_Inr [res_simps]: "mapM (\<lambda>x. Inr (f x)) xs = Inr (map f xs)"
  by (induction xs) auto

lemma mapM_Inr_length: "mapM f xs = Inr ys \<Longrightarrow> length ys = length xs"
  by (induction xs arbitrary: ys) (auto simp: bindR_Inr_iff)

lemma mapM_Inr_list_all2: "mapM f xs = Inr ys \<longleftrightarrow> list_all2 (\<lambda>x y. f x = Inr y) xs ys"
  by (induction xs arbitrary: ys) (auto simp: bindR_Inr_iff list_all2_Cons1)

lemma mapM_Inr_set: "mapM f xs = Inr ys \<Longrightarrow> y \<in> set ys \<Longrightarrow> \<exists>x \<in> set xs. f x = Inr y"
  by (induction xs arbitrary: ys) (auto simp: bindR_Inr_iff)

section \<open>Strings\<close>

abbreviation startswith :: "'a list \<Rightarrow> 'a list \<Rightarrow> bool" where
  "startswith s p \<equiv> prefix p s"

abbreviation endswith :: "'a list \<Rightarrow> 'a list \<Rightarrow> bool" where
  "endswith s p \<equiv> suffix p s"

abbreviation contains :: "'a list \<Rightarrow> 'a list \<Rightarrow> bool" where
  "contains s p \<equiv> sublist p s"

text \<open>\<open>s.split(c)\<close> for a one-character separator: never empty.\<close>

fun split_on :: "'a \<Rightarrow> 'a list \<Rightarrow> 'a list list" where
  "split_on c [] = [[]]"
| "split_on c (x # xs) =
     (if x = c then [] # split_on c xs
      else (case split_on c xs of [] \<Rightarrow> [[x]] | w # ws \<Rightarrow> (x # w) # ws))"

text \<open>\<open>sep.join(parts)\<close>.\<close>

fun join_with :: "'a list \<Rightarrow> 'a list list \<Rightarrow> 'a list" where
  "join_with sep [] = []"
| "join_with sep [x] = x"
| "join_with sep (x # y # zs) = x @ sep @ join_with sep (y # zs)"

text \<open>\<open>s.split(c, 1)\<close> and \<open>s.rsplit(c, 1)\<close>, on a string that holds the separator.\<close>

definition split_once :: "'a \<Rightarrow> 'a list \<Rightarrow> 'a list \<times> 'a list" where
  "split_once c s = (takeWhile (\<lambda>x. x \<noteq> c) s, tl (dropWhile (\<lambda>x. x \<noteq> c) s))"

definition rsplit_once :: "'a \<Rightarrow> 'a list \<Rightarrow> 'a list \<times> 'a list" where
  "rsplit_once c s =
     (rev (tl (dropWhile (\<lambda>x. x \<noteq> c) (rev s))), rev (takeWhile (\<lambda>x. x \<noteq> c) (rev s)))"

definition lower_char :: "char \<Rightarrow> char" where
  "lower_char c =
     (let n = (of_char c :: nat) in
      if (65 \<le> n \<and> n \<le> 90) \<or> (192 \<le> n \<and> n \<le> 222 \<and> n \<noteq> 215) then char_of (n + 32) else c)"

definition lower :: "string \<Rightarrow> string" where
  "lower s = map lower_char s"

definition is_space :: "char \<Rightarrow> bool" where
  "is_space c =
     (let n = (of_char c :: nat) in
      (9 \<le> n \<and> n \<le> 13) \<or> (28 \<le> n \<and> n \<le> 32) \<or> n = 133 \<or> n = 160)"

definition strip :: "string \<Rightarrow> string" where
  "strip s = rev (dropWhile is_space (rev (dropWhile is_space s)))"

definition is_digit :: "char \<Rightarrow> bool" where
  "is_digit c = (48 \<le> (of_char c :: nat) \<and> (of_char c :: nat) \<le> 57)"

text \<open>
  The same tests on binary integers, for evaluation: natural numbers are evaluated in unary.
\<close>

lemma of_char_int: "(of_char c :: int) = int (of_char c)"
  by (simp add: of_nat_of_char)

lemma lower_char_code [code]:
  "lower_char c =
     (let n = (of_char c :: int) in
      if (65 \<le> n \<and> n \<le> 90) \<or> (192 \<le> n \<and> n \<le> 222 \<and> n \<noteq> 215) then char_of (n + 32) else c)"
proof -
  have "char_of (int (of_char c) + 32) = char_of (of_char c + 32 :: nat)"
    by (metis char_of_nat of_nat_add of_nat_numeral)
  then show ?thesis by (simp add: lower_char_def Let_def of_char_int)
qed

lemma is_space_code [code]:
  "is_space c =
     (let n = (of_char c :: int) in
      (9 \<le> n \<and> n \<le> 13) \<or> (28 \<le> n \<and> n \<le> 32) \<or> n = 133 \<or> n = 160)"
  by (auto simp: is_space_def Let_def of_char_int)

lemma is_digit_code [code]: "is_digit c = (let n = (of_char c :: int) in 48 \<le> n \<and> n \<le> 57)"
  by (auto simp: is_digit_def Let_def of_char_int)

text \<open>\<open>str.isalnum\<close> on the characters of the model.\<close>

definition alnum_char :: "char \<Rightarrow> bool" where
  "alnum_char c =
     (let n = (of_char c :: int) in
      (48 \<le> n \<and> n \<le> 57) \<or> (65 \<le> n \<and> n \<le> 90) \<or> (97 \<le> n \<and> n \<le> 122) \<or>
      n \<in> {170, 178, 179, 181, 185, 186, 188, 189, 190} \<or> (192 \<le> n \<and> n \<noteq> 215 \<and> n \<noteq> 247))"

definition newline :: char where
  "newline = char_of (10::nat)"

text \<open>\<open>str(n)\<close> for integers, and the decimal value of a digit string.\<close>

fun digits_of :: "nat \<Rightarrow> string" where
  "digits_of n =
     (if n < 10 then [char_of (48 + n)] else digits_of (n div 10) @ [char_of (48 + n mod 10)])"

declare digits_of.simps [simp del]

definition str_int :: "int \<Rightarrow> string" where
  "str_int i = (if i < 0 then ''-'' @ digits_of (nat (- i)) else digits_of (nat i))"

definition digits_value :: "string \<Rightarrow> nat" where
  "digits_value s = fold (\<lambda>c n. 10 * n + (of_char c - 48)) s 0"

text \<open>
  \<open>int(s)\<close>: white space around, one sign, then decimal digits (single underscores
  between digits are accepted by Python and are part of the model).
\<close>

fun digit_groups :: "string \<Rightarrow> bool" where
  "digit_groups [] = False"
| "digit_groups [c] = is_digit c"
| "digit_groups (c # d # cs) =
     (is_digit c \<and> (if d = CHR ''_'' then digit_groups cs else digit_groups (d # cs)))"

definition py_int :: "string \<Rightarrow> int option" where
  "py_int s =
     (let t = strip s;
          (neg, u) = (case t of
              [] \<Rightarrow> (False, [])
            | c # cs \<Rightarrow> if c = CHR ''-'' then (True, cs) else if c = CHR ''+'' then (False, cs)
                        else (False, t))
      in if digit_groups u
         then Some ((if neg then -1 else 1) * int (digits_value (filter (\<lambda>c. c \<noteq> CHR ''_'') u)))
         else None)"

text \<open>\<open>Path(p).parts\<close> without the root, and \<open>Path(p).name\<close>: empty components and single dots do not count.\<close>

definition path_parts :: "string \<Rightarrow> string list" where
  "path_parts p = filter (\<lambda>part. part \<noteq> [] \<and> part \<noteq> ''.'') (split_on (CHR ''/'') p)"

definition path_name :: "string \<Rightarrow> string" where
  "path_name p = (case rev (path_parts p) of [] \<Rightarrow> [] | part # parts \<Rightarrow> part)"

subsection \<open>Printing and reading numbers\<close>

lemma digits_value_snoc: "digits_value (s @ [c]) = 10 * digits_value s + (of_char c - 48)"
  by (simp add: digits_value_def)

lemma digits_value_digits_of [simp]: "digits_value (digits_of n) = n"
proof (induction n rule: digits_of.induct)
  case (1 n)
  show ?case
  proof (cases "n < 10")
    case True
    then show ?thesis by (subst digits_of.simps) (simp add: digits_value_def)
  next
    case False
    with 1 show ?thesis by (subst digits_of.simps) (simp add: digits_value_snoc)
  qed
qed

lemma digits_of_digits: "list_all is_digit (digits_of n)"
proof (induction n rule: digits_of.induct)
  case (1 n)
  have "is_digit (char_of (48 + k))" if "k < 10" for k :: nat
    using that by (simp add: is_digit_def)
  with 1 show ?case by (subst digits_of.simps) simp
qed

lemma digits_of_not_Nil [simp]: "digits_of n \<noteq> []"
  by (subst digits_of.simps) simp

lemma digits_of_inject [simp]: "digits_of m = digits_of n \<longleftrightarrow> m = n"
  by (metis digits_value_digits_of)

lemma str_int_inject [simp]: "str_int i = str_int j \<longleftrightarrow> i = j"
proof -
  have "\<not> is_digit (CHR ''-'')" by (simp add: is_digit_def)
  then have minus: "CHR ''-'' \<notin> set (digits_of n)" for n
    using digits_of_digits[of n] by (auto simp: list_all_iff)
  then have "CHR ''-'' # s \<noteq> digits_of n" "digits_of n \<noteq> CHR ''-'' # s" for s n
    by (metis list.set_intros(1))+
  then show ?thesis by (auto simp: str_int_def)
qed

subsection \<open>Splitting and joining\<close>

lemma split_on_not_Nil [simp]: "split_on c s \<noteq> []"
  by (induction s) (auto split: list.splits)

lemma split_on_absent [simp]: "c \<notin> set s \<Longrightarrow> split_on c s = [s]"
  by (induction s) auto

lemma split_on_parts: "w \<in> set (split_on c s) \<Longrightarrow> c \<notin> set w"
  by (induction s arbitrary: w) (auto split: if_splits list.splits)

lemma join_split [simp]: "join_with [c] (split_on c s) = s"
proof (induction s)
  case Nil
  then show ?case by simp
next
  case (Cons x s)
  obtain w ws where ws: "split_on c s = w # ws"
    by (cases "split_on c s") auto
  with Cons show ?case by (cases ws) auto
qed

lemma split_on_append_sep: "split_on c (xs @ c # ys) = split_on c xs @ split_on c ys"
proof (induction xs)
  case Nil
  then show ?case by simp
next
  case (Cons x xs)
  obtain w ws where "split_on c xs = w # ws"
    by (cases "split_on c xs") auto
  with Cons show ?case by simp
qed

lemma hd_split_on: "hd (split_on c s) = takeWhile (\<lambda>x. x \<noteq> c) s"
  by (induction s) (auto split: list.splits)

lemma length_split_on: "length (split_on c s) = Suc (count_list s c)"
  by (induction s) (auto split: list.splits)

lemma last_split_on: "last (split_on c s) = rev (takeWhile (\<lambda>x. x \<noteq> c) (rev s))"
proof (induction s rule: rev_induct)
  case Nil
  then show ?case by simp
next
  case (snoc x s)
  show ?case
  proof (cases "x = c")
    case True
    then show ?thesis by (simp add: split_on_append_sep)
  next
    case False
    have "split_on c (s @ [x]) = butlast (split_on c s) @ [last (split_on c s) @ [x]]"
    proof (induction s)
      case Nil
      then show ?case using False by simp
    next
      case (Cons y s)
      obtain w ws where "split_on c s = w # ws"
        by (cases "split_on c s") auto
      with Cons show ?case by (cases ws) (auto split: if_splits)
    qed
    with snoc False show ?thesis by simp
  qed
qed

lemma join_with_Cons: "xs \<noteq> [] \<Longrightarrow> join_with sep (x # xs) = x @ sep @ join_with sep xs"
  by (cases xs) auto

lemma join_with_eq_Nil: "join_with sep xs = [] \<Longrightarrow> x \<in> set xs \<Longrightarrow> x = []"
  by (induction sep xs rule: join_with.induct) auto

lemma set_join_with: "c \<in> set (join_with sep xs) \<Longrightarrow> c \<in> set sep \<or> (\<exists>x \<in> set xs. c \<in> set x)"
  by (induction sep xs rule: join_with.induct) auto

lemma contains_join: "x \<in> set xs \<Longrightarrow> contains (join_with sep xs) x"
  by (induction sep xs rule: join_with.induct)
     (auto intro: sublist_appendI simp: sublist_append)

lemma split_once_join [str_simps]:
  "c \<in> set s \<Longrightarrow> fst (split_once c s) @ c # snd (split_once c s) = s"
proof -
  assume c: "c \<in> set s"
  then have ne: "dropWhile (\<lambda>x. x \<noteq> c) s \<noteq> []" by auto
  then have "hd (dropWhile (\<lambda>x. x \<noteq> c) s) = c" using hd_dropWhile by blast
  with ne have "c # tl (dropWhile (\<lambda>x. x \<noteq> c) s) = dropWhile (\<lambda>x. x \<noteq> c) s"
    by (metis list.collapse)
  then show ?thesis by (simp add: split_once_def)
qed

lemma fst_split_once_absent: "c \<notin> set (fst (split_once c s))"
  by (auto simp: split_once_def dest: set_takeWhileD)

lemma split_once_append: "c \<notin> set a \<Longrightarrow> split_once c (a @ c # b) = (a, b)"
  by (induction a) (auto simp: split_once_def)

lemma rsplit_once_append: "c \<notin> set b \<Longrightarrow> rsplit_once c (a @ c # b) = (a, b)"
proof -
  assume "c \<notin> set b"
  then have "c \<notin> set (rev b)" by simp
  then have "split_once c (rev b @ c # rev a) = (rev b, rev a)" by (rule split_once_append)
  then show ?thesis by (simp add: rsplit_once_def split_once_def)
qed

lemma rsplit_once_join [str_simps]:
  "c \<in> set s \<Longrightarrow> fst (rsplit_once c s) @ c # snd (rsplit_once c s) = s"
proof -
  assume "c \<in> set s"
  then have "c \<in> set (rev s)" by simp
  then have "fst (split_once c (rev s)) @ c # snd (split_once c (rev s)) = rev s"
    by (rule split_once_join)
  then have "rev (fst (split_once c (rev s)) @ c # snd (split_once c (rev s))) = s"
    by simp
  then show ?thesis by (simp add: rsplit_once_def split_once_def)
qed

lemma snd_rsplit_once_absent: "c \<notin> set (snd (rsplit_once c s))"
  by (auto simp: rsplit_once_def dest: set_takeWhileD)

section \<open>Parsed JSON\<close>

text \<open>
  What \<open>json.loads\<close> returns. A number is a rational: the code only asks for its truth
  value. An object keeps the order of its keys.
\<close>

datatype json =
    JNull
  | JBool bool
  | JNum rat
  | JStr string
  | JList "json list"
  | JObj "(string \<times> json) list"

fun truthy :: "json \<Rightarrow> bool" where
  "truthy JNull = False"
| "truthy (JBool b) = b"
| "truthy (JNum n) = (n \<noteq> 0)"
| "truthy (JStr s) = (s \<noteq> [])"
| "truthy (JList xs) = (xs \<noteq> [])"
| "truthy (JObj kvs) = (kvs \<noteq> [])"

text \<open>\<open>v.get(k, d)\<close>: anything but an object has no \<open>get\<close>.\<close>

definition py_get :: "json \<Rightarrow> string \<Rightarrow> json \<Rightarrow> json res" where
  "py_get v k d =
     (case v of
        JObj kvs \<Rightarrow> Inr (case map_of kvs k of None \<Rightarrow> d | Some x \<Rightarrow> x)
      | _ \<Rightarrow> Inl (AttributeError ''get''))"

text \<open>\<open>v.get(k1, {}).get(k2, {}) \<dots>\<close>, the nested look-up of the Kubernetes objects.\<close>

fun py_gets :: "json \<Rightarrow> string list \<Rightarrow> json res" where
  "py_gets v [] = Inr v"
| "py_gets v (k # ks) = bindR (py_get v k (JObj [])) (\<lambda>w. py_gets w ks)"

text \<open>\<open>k in v\<close> for a string \<open>k\<close>: a key, an element or a substring, by the type of \<open>v\<close>.\<close>

definition py_in :: "string \<Rightarrow> json \<Rightarrow> bool res" where
  "py_in k v =
     (case v of
        JObj kvs \<Rightarrow> Inr (map_of kvs k \<noteq> None)
      | JList xs \<Rightarrow> Inr (JStr k \<in> set xs)
      | JStr s \<Rightarrow> Inr (contains s k)
      | _ \<Rightarrow> Inl (TypeError ''argument is not iterable''))"

text \<open>\<open>for x in v\<close>: the elements, the keys or the characters, by the type of \<open>v\<close>.\<close>

definition py_iter :: "json \<Rightarrow> json list res" where
  "py_iter v =
     (case v of
        JObj kvs \<Rightarrow> Inr (map (\<lambda>kv. JStr (fst kv)) kvs)
      | JList xs \<Rightarrow> Inr xs
      | JStr s \<Rightarrow> Inr (map (\<lambda>c. JStr [c]) s)
      | _ \<Rightarrow> Inl (TypeError ''object is not iterable''))"

lemma py_get_JObj [simp]:
  "py_get (JObj kvs) k d = Inr (case map_of kvs k of None \<Rightarrow> d | Some x \<Rightarrow> x)"
  by (simp add: py_get_def)

lemma py_get_Inr_iff:
  "py_get v k d = Inr x \<longleftrightarrow>
     (\<exists>kvs. v = JObj kvs \<and> x = (case map_of kvs k of None \<Rightarrow> d | Some y \<Rightarrow> y))"
  by (cases v) (auto simp: py_get_def)

lemma py_get_Inl: "(\<And>kvs. v \<noteq> JObj kvs) \<Longrightarrow> py_get v k d = Inl (AttributeError ''get'')"
  by (cases v) (auto simp: py_get_def)

lemma py_iter_JList [simp]: "py_iter (JList xs) = Inr xs"
  by (simp add: py_iter_def)

lemma py_iter_JObj [simp]: "py_iter (JObj kvs) = Inr (map (\<lambda>kv. JStr (fst kv)) kvs)"
  by (simp add: py_iter_def)

lemma py_in_JObj [simp]: "py_in k (JObj kvs) = Inr (map_of kvs k \<noteq> None)"
  by (simp add: py_in_def)

section \<open>Association lists as dictionaries\<close>

lemma map_of_filter_snd:
  "distinct (map fst kvs) \<Longrightarrow>
   map_of (filter (\<lambda>(k, v). P v) kvs) k =
     (case map_of kvs k of None \<Rightarrow> None | Some v \<Rightarrow> if P v then Some v else None)"
proof (induction kvs)
  case Nil
  then show ?case by simp
next
  case (Cons kv kvs)
  show ?case
  proof (cases "k = fst kv")
    case True
    with Cons.prems have "map_of kvs k = None"
      by (cases kv) (auto simp: map_of_eq_None_iff)
    with Cons True show ?thesis by (cases kv) auto
  next
    case False
    with Cons show ?thesis by (cases kv) auto
  qed
qed

lemma map_of_Some_in_set: "map_of kvs k = Some v \<Longrightarrow> (k, v) \<in> set kvs"
  by (rule map_of_SomeD)

lemma distinct_filter_fst: "distinct (map fst kvs) \<Longrightarrow> distinct (map fst (filter P kvs))"
  by (induction kvs) auto

lemma length_update: "length (AList.update k v kvs) =
    (if k \<in> fst ` set kvs then length kvs else Suc (length kvs))"
  by (induction kvs) (auto split: if_splits)

lemma set_update_subset: "set (AList.update k v kvs) \<subseteq> insert (k, v) (set kvs)"
  by (induction kvs) auto

end
