(* ===== verification/Image_Refs.thy ===== *)
theory Image_Refs
  imports Sek8s_Prelude
begin

text \<open>
  Image references: \<open>src/src/sek8s/sek8s/image_utils.py\<close>, one definition per function.
  A reference is parsed into registry, organization, repository and tag or digest; the
  admission webhooks print it back as \<open>registry/organization/repository\<close> (\<open>strip_tag\<close>)
  and pin it by appending a verified digest. The lemmas show that parsing never raises,
  that the two ways the code finds the registry agree, that a printed reference parses
  back to what was printed, and that pinning keeps the identity of the image.
\<close>

section \<open>The functions of image_utils.py\<close>

definition is_digest_pinned_reference :: "string \<Rightarrow> bool" where
  "is_digest_pinned_reference image_ref =
     (if CHR ''@'' \<notin> set image_ref then False
      else let digest_part = snd (rsplit_once (CHR ''@'') image_ref)
           in startswith digest_part ''sha256:'' \<or> startswith digest_part ''sha512:'')"

text \<open>The test that decides whether the part before the first slash is a registry host.\<close>

definition is_registry_part :: "string \<Rightarrow> bool" where
  "is_registry_part first \<longleftrightarrow>
     CHR ''.'' \<in> set first \<or> CHR '':'' \<in> set first \<or> first = ''localhost''"

definition extract_registry :: "string \<Rightarrow> string" where
  "extract_registry image_ref =
     (if CHR ''/'' \<notin> set image_ref then ''docker.io''
      else let first = hd (split_on (CHR ''/'') image_ref)
           in if is_registry_part first then first else ''docker.io'')"

text \<open>The first step of the parser: cut the digest or the tag off.\<close>

definition cut_tag :: "string \<Rightarrow> string \<times> string" where
  "cut_tag img =
     (if CHR ''@'' \<in> set img then
        (let (name, digest) = split_once (CHR ''@'') img in (name, ''@'' @ digest))
      else if CHR '':'' \<in> set (last (split_on (CHR ''/'') img)) then
        rsplit_once (CHR '':'') img
      else (img, ''latest''))"

type_synonym image_parts = "string \<times> string \<times> string \<times> string"

definition parse_image_reference :: "string \<Rightarrow> image_parts res" where
  "parse_image_reference original =
     (let (img, tag_or_digest) = cut_tag original in
      if CHR ''/'' \<notin> set img then Inr (''docker.io'', ''library'', img, tag_or_digest)
      else
        let parts = split_on (CHR ''/'') img; first = hd parts in
        if is_registry_part first then
          (let registry = first; remaining = tl parts in
           if length remaining = 0 then
             Inl (ValueError (''Invalid image reference: '' @ original))
           else if length remaining = 1 then
             Inr (registry, ''library'', hd remaining, tag_or_digest)
           else Inr (registry, hd remaining, join_with ''/'' (tl remaining), tag_or_digest))
        else if length parts = 1 then Inr (''docker.io'', ''library'', hd parts, tag_or_digest)
        else Inr (''docker.io'', hd parts, join_with ''/'' (tl parts), tag_or_digest))"

definition strip_tag :: "string \<Rightarrow> string res" where
  "strip_tag image_ref =
     bindR (parse_image_reference image_ref)
       (\<lambda>(registry, org, repo, _). Inr (registry @ ''/'' @ org @ ''/'' @ repo))"

definition normalize_registry_hostname :: "string \<Rightarrow> string" where
  "normalize_registry_hostname image_ref =
     (if CHR ''/'' \<notin> set image_ref then image_ref
      else let (registry, rest) = split_once (CHR ''/'') image_ref
           in lower registry @ ''/'' @ rest)"

section \<open>Parsing\<close>

lemma split_slash_cases:
  assumes "CHR ''/'' \<in> set img"
  obtains first p ps where "split_on (CHR ''/'') img = first # p # ps"
proof -
  have "0 < count_list img (CHR ''/'')"
    using assms count_list_0_iff[of img "CHR ''/''"] by simp
  then have "2 \<le> length (split_on (CHR ''/'') img)"
    by (simp add: length_split_on)
  then obtain a b c where "split_on (CHR ''/'') img = a # b # c"
    by (metis One_nat_def Suc_1 Suc_le_length_iff)
  then show ?thesis by (rule that)
qed

lemma parse_image_reference_total: "\<exists>parts. parse_image_reference img = Inr parts"
proof (cases "CHR ''/'' \<in> set (fst (cut_tag img))")
  case True
  then obtain first p ps where "split_on (CHR ''/'') (fst (cut_tag img)) = first # p # ps"
    by (rule split_slash_cases)
  then show ?thesis
    by (cases "cut_tag img") (simp add: parse_image_reference_def Let_def)
next
  case False
  then show ?thesis
    by (cases "cut_tag img") (simp add: parse_image_reference_def Let_def)
qed

lemma strip_tag_total: "\<exists>name. strip_tag img = Inr name"
  using parse_image_reference_total[of img] by (auto simp: strip_tag_def)

lemma cut_tag_prefix: "\<exists>rest. img = fst (cut_tag img) @ rest"
proof (cases "CHR ''@'' \<in> set img")
  case True
  then have "img = fst (split_once (CHR ''@'') img)
      @ CHR ''@'' # snd (split_once (CHR ''@'') img)"
    by (simp add: split_once_join)
  with True show ?thesis
    by (auto simp: cut_tag_def split: prod.splits)
next
  case False
  show ?thesis
  proof (cases "CHR '':'' \<in> set (last (split_on (CHR ''/'') img))")
    case True
    then have "CHR '':'' \<in> set img"
      by (auto simp: last_split_on dest: set_takeWhileD)
    then have "img = fst (rsplit_once (CHR '':'') img)
        @ CHR '':'' # snd (rsplit_once (CHR '':'') img)"
      by (simp add: rsplit_once_join)
    with False True show ?thesis by (auto simp: cut_tag_def)
  next
    case noTag: False
    with False show ?thesis by (simp add: cut_tag_def)
  qed
qed

lemma parse_no_slash:
  "CHR ''/'' \<notin> set (fst (cut_tag img)) \<Longrightarrow>
   parse_image_reference img =
     Inr (''docker.io'', ''library'', fst (cut_tag img), snd (cut_tag img))"
  by (cases "cut_tag img") (simp add: parse_image_reference_def)

lemma parse_slash:
  assumes "cut_tag img = (name, tg)" "CHR ''/'' \<in> set name"
    and "split_on (CHR ''/'') name = first # p # ps"
  shows "parse_image_reference img =
     Inr (if is_registry_part first
          then (if ps = [] then (first, ''library'', p, tg) else (first, p, join_with ''/'' ps, tg))
          else (''docker.io'', first, join_with ''/'' (p # ps), tg))"
  using assms by (simp add: parse_image_reference_def Let_def)

lemma fst_parse_slash:
  assumes "CHR ''/'' \<in> set (fst (cut_tag img))"
    and "parse_image_reference img = Inr (registry, org, repo, t)"
  shows "registry = (let first = takeWhile (\<lambda>c. c \<noteq> CHR ''/'') (fst (cut_tag img))
                     in if is_registry_part first then first else ''docker.io'')"
proof -
  obtain first p ps where parts: "split_on (CHR ''/'') (fst (cut_tag img)) = first # p # ps"
    using assms(1) by (rule split_slash_cases)
  moreover from parts have "takeWhile (\<lambda>c. c \<noteq> CHR ''/'') (fst (cut_tag img)) = first"
    by (metis hd_split_on list.sel(1))
  ultimately show ?thesis using assms
    by (cases "cut_tag img")
       (auto simp: parse_image_reference_def Let_def split: if_splits)
qed

text \<open>The tag the parser cuts off never holds a slash, so it does not hide one.\<close>

lemma cut_tag_no_at_slash:
  assumes "CHR ''@'' \<notin> set img"
  shows "CHR ''/'' \<in> set (fst (cut_tag img)) \<longleftrightarrow> CHR ''/'' \<in> set img"
proof (cases "CHR '':'' \<in> set (last (split_on (CHR ''/'') img))")
  case False
  with assms show ?thesis by (simp add: cut_tag_def)
next
  case True
  define name tag where nt: "name = fst (rsplit_once (CHR '':'') img)"
    "tag = snd (rsplit_once (CHR '':'') img)"
  from True have colon: "CHR '':'' \<in> set img"
    by (auto simp: last_split_on dest: set_takeWhileD)
  then have eq: "img = name @ CHR '':'' # tag"
    unfolding nt by (simp add: rsplit_once_join)
  have "CHR ''/'' \<notin> set tag"
  proof
    assume slash: "CHR ''/'' \<in> set tag"
    obtain ys zs where "rev tag = ys @ CHR ''/'' # zs" "CHR ''/'' \<notin> set ys"
      using slash split_list_first[of "CHR ''/''" "rev tag"] by auto
    then have "takeWhile (\<lambda>x. x \<noteq> CHR ''/'') (rev img) = ys"
      by (simp add: eq takeWhile_append takeWhile_eq_all_conv)
    then have "set (last (split_on (CHR ''/'') img)) = set ys"
      by (simp add: last_split_on)
    moreover have "set ys \<subseteq> set tag"
      using \<open>rev tag = ys @ CHR ''/'' # zs\<close> by (metis Un_upper1 set_append set_rev)
    ultimately show False
      using True snd_rsplit_once_absent[of "CHR '':''" img] nt by auto
  qed
  moreover have "fst (cut_tag img) = name"
    using assms True by (simp add: cut_tag_def nt)
  moreover have "set img = set name \<union> insert (CHR '':'') (set tag)"
    using arg_cong[OF eq, of set] by simp
  ultimately show ?thesis by auto
qed

lemma takeWhile_append_not:
  "c \<in> set a \<Longrightarrow> takeWhile (\<lambda>x. x \<noteq> c) (a @ b) = takeWhile (\<lambda>x. x \<noteq> c) a"
  by (induction a) auto

text \<open>
  The digest of a reference is what follows its first \<open>@\<close>. A well-formed digest holds
  no slash.
\<close>

definition digest_has_slash :: "string \<Rightarrow> bool" where
  "digest_has_slash img \<longleftrightarrow>
     CHR ''@'' \<in> set img \<and> CHR ''/'' \<in> set (snd (split_once (CHR ''@'') img))"

lemma cut_tag_slash:
  assumes "\<not> digest_has_slash img"
  shows "CHR ''/'' \<in> set (fst (cut_tag img)) \<longleftrightarrow> CHR ''/'' \<in> set img"
proof (cases "CHR ''@'' \<in> set img")
  case True
  then have "set img = set (fst (split_once (CHR ''@'') img))
      \<union> {CHR ''@''} \<union> set (snd (split_once (CHR ''@'') img))"
    using arg_cong[OF split_once_join, of "CHR ''@''" img set] by auto
  with True assms show ?thesis
    by (auto simp: cut_tag_def digest_has_slash_def split: prod.splits)
qed (rule cut_tag_no_at_slash)

lemma registry_agreement:
  assumes "\<not> digest_has_slash img"
    and "parse_image_reference img = Inr (registry, org, repo, t)"
  shows "extract_registry img = registry"
proof (cases "CHR ''/'' \<in> set (fst (cut_tag img))")
  case True
  obtain rest where img: "img = fst (cut_tag img) @ rest"
    using cut_tag_prefix by blast
  with True have tw: "takeWhile (\<lambda>c. c \<noteq> CHR ''/'') img
      = takeWhile (\<lambda>c. c \<noteq> CHR ''/'') (fst (cut_tag img))"
    by (metis takeWhile_append_not)
  from True cut_tag_slash[OF assms(1)] have "CHR ''/'' \<in> set img" by simp
  with fst_parse_slash[OF True assms(2)] tw show ?thesis
    by (simp add: extract_registry_def hd_split_on)
next
  case False
  with cut_tag_slash[OF assms(1)] have "CHR ''/'' \<notin> set img" by simp
  with parse_no_slash[OF False] assms(2) show ?thesis
    by (simp add: extract_registry_def)
qed

section \<open>Printing and parsing back\<close>

text \<open>
  The parts a printed reference is made of: a registry host, an organization without a
  slash, no \<open>@\<close> anywhere.
\<close>

definition printable_parts :: "string \<Rightarrow> string \<Rightarrow> string \<Rightarrow> bool" where
  "printable_parts registry org repo \<longleftrightarrow>
     is_registry_part registry \<and> CHR ''/'' \<notin> set registry \<and> CHR ''/'' \<notin> set org \<and>
     CHR ''@'' \<notin> set registry \<and> CHR ''@'' \<notin> set org \<and> CHR ''@'' \<notin> set repo"

lemma parse_printed:
  assumes "printable_parts registry org repo"
    and "cut_tag img = (registry @ ''/'' @ org @ ''/'' @ repo, t)"
  shows "parse_image_reference img = Inr (registry, org, repo, t)"
proof -
  have s1: "split_on (CHR ''/'') (registry @ ''/'' @ org @ ''/'' @ repo)
      = registry # org # split_on (CHR ''/'') repo"
    using assms(1) by (simp add: split_on_append_sep printable_parts_def)
  have "length (split_on (CHR ''/'') repo) = Suc (count_list repo (CHR ''/''))"
    by (rule length_split_on)
  with s1 assms show ?thesis
    by (simp add: parse_image_reference_def printable_parts_def Let_def)
qed

lemma cut_tag_digest:
  "CHR ''@'' \<notin> set name \<Longrightarrow> cut_tag (name @ ''@'' @ digest) = (name, ''@'' @ digest)"
  by (simp add: cut_tag_def split_once_append)

lemma parse_digest_reference:
  assumes "printable_parts registry org repo"
  shows "parse_image_reference (registry @ ''/'' @ org @ ''/'' @ repo @ ''@'' @ digest)
       = Inr (registry, org, repo, ''@'' @ digest)"
proof (rule parse_printed[OF assms])
  have "CHR ''@'' \<notin> set (registry @ ''/'' @ org @ ''/'' @ repo)"
    using assms by (simp add: printable_parts_def)
  from cut_tag_digest[OF this, of digest]
  show "cut_tag (registry @ ''/'' @ org @ ''/'' @ repo @ ''@'' @ digest)
      = (registry @ ''/'' @ org @ ''/'' @ repo, ''@'' @ digest)"
    by simp
qed

lemma parse_tag_reference:
  assumes "printable_parts registry org repo"
    and "CHR ''/'' \<notin> set tag" "CHR ''@'' \<notin> set tag" "CHR '':'' \<notin> set tag"
  shows "parse_image_reference (registry @ ''/'' @ org @ ''/'' @ repo @ '':'' @ tag)
       = Inr (registry, org, repo, tag)"
proof (rule parse_printed[OF assms(1)])
  let ?name = "registry @ ''/'' @ org @ ''/'' @ repo"
  have "takeWhile (\<lambda>x. x \<noteq> CHR ''/'') (rev (?name @ '':'' @ tag))
      = rev tag @ takeWhile (\<lambda>x. x \<noteq> CHR ''/'') ('':'' @ rev ?name)"
    using assms(2) by (simp add: takeWhile_append)
  then have "CHR '':'' \<in> set (last (split_on (CHR ''/'') (?name @ '':'' @ tag)))"
    by (simp add: last_split_on)
  moreover have "CHR ''@'' \<notin> set (?name @ '':'' @ tag)"
    using assms by (simp add: printable_parts_def)
  moreover have "rsplit_once (CHR '':'') (?name @ CHR '':'' # tag) = (?name, tag)"
    using assms(4) by (rule rsplit_once_append)
  ultimately show "cut_tag (registry @ ''/'' @ org @ ''/'' @ repo @ '':'' @ tag) = (?name, tag)"
    by (simp add: cut_tag_def)
qed

lemma set_takeWhile_subset: "set (takeWhile P xs) \<subseteq> set xs"
  by (auto dest: set_takeWhileD)

lemma parsed_parts_printable:
  assumes at: "CHR ''@'' \<notin> set img"
    and parse: "parse_image_reference img = Inr (registry, org, repo, t)"
  shows "printable_parts registry org repo"
proof -
  obtain rest where pre: "img = fst (cut_tag img) @ rest"
    using cut_tag_prefix by blast
  then have "set (fst (cut_tag img)) \<subseteq> set img" by (metis Un_upper1 set_append)
  with at have at': "CHR ''@'' \<notin> set (fst (cut_tag img))" by blast
  show ?thesis
  proof (cases "CHR ''/'' \<in> set (fst (cut_tag img))")
    case False
    with parse_no_slash[OF False] parse at' show ?thesis
      by (cases "cut_tag img") (auto simp: printable_parts_def is_registry_part_def)
  next
    case True
    then obtain first p ps where
      parts: "split_on (CHR ''/'') (fst (cut_tag img)) = first # p # ps"
      by (rule split_slash_cases)
    have in_img: "w \<in> set (first # p # ps) \<Longrightarrow> CHR ''/'' \<notin> set w \<and> CHR ''@'' \<notin> set w" for w
    proof -
      assume w: "w \<in> set (first # p # ps)"
      then have "CHR ''/'' \<notin> set w" using parts by (metis split_on_parts)
      moreover have "contains (fst (cut_tag img)) w"
        using w parts contains_join[of w "first # p # ps" "''/''"] join_split by metis
      then have "set w \<subseteq> set (fst (cut_tag img))" by (rule set_mono_sublist)
      ultimately show ?thesis using at' by blast
    qed
    have join_at: "set ws \<subseteq> set (first # p # ps) \<Longrightarrow> CHR ''@'' \<notin> set (join_with ''/'' ws)" for ws
      using in_img set_join_with[of "CHR ''@''" "''/''" ws] by auto
    have w: "CHR ''/'' \<notin> set first" "CHR ''@'' \<notin> set first" "CHR ''/'' \<notin> set p" "CHR ''@'' \<notin> set p"
      using in_img by auto
    have j: "CHR ''@'' \<notin> set (join_with ''/'' ps)" "CHR ''@'' \<notin> set (join_with ''/'' (p # ps))"
      by (rule join_at; auto)+
    have hub: "is_registry_part ''docker.io''" by (simp add: is_registry_part_def)
    obtain tg where ct: "cut_tag img = (fst (cut_tag img), tg)" by (metis prod.collapse)
    show ?thesis
      using parse w j hub unfolding parse_slash[OF ct True parts]
      by (auto simp: printable_parts_def split: if_splits)
  qed
qed

text \<open>Pinning a tag reference to a digest keeps registry, organization and repository.\<close>

lemma pinned_reference_parses:
  assumes "CHR ''@'' \<notin> set img"
    and "parse_image_reference img = Inr (registry, org, repo, t)"
    and "strip_tag img = Inr name"
  shows "parse_image_reference (name @ ''@'' @ digest) = Inr (registry, org, repo, ''@'' @ digest)"
proof -
  from assms(2,3) have "name = registry @ ''/'' @ org @ ''/'' @ repo"
    by (simp add: strip_tag_def)
  with parse_digest_reference[OF parsed_parts_printable[OF assms(1,2)], of digest]
  show ?thesis by simp
qed

lemma strip_tag_no_at:
  "CHR ''@'' \<notin> set img \<Longrightarrow> strip_tag img = Inr name \<Longrightarrow> CHR ''@'' \<notin> set name"
  using parsed_parts_printable[of img] parse_image_reference_total[of img]
  by (auto simp: strip_tag_def printable_parts_def)

lemma pinned_is_digest_pinned:
  assumes "startswith digest ''sha256:'' \<or> startswith digest ''sha512:''"
    and "CHR ''@'' \<notin> set digest"
  shows "is_digest_pinned_reference (name @ ''@'' @ digest)"
proof -
  have "rsplit_once (CHR ''@'') (name @ CHR ''@'' # digest) = (name, digest)"
    using assms(2) by (rule rsplit_once_append)
  with assms show ?thesis by (simp add: is_digest_pinned_reference_def)
qed

section \<open>Registry host names\<close>

lemma lower_char_idem [simp]: "lower_char (lower_char c) = lower_char c"
  by (simp add: lower_char_def Let_def)

lemma lower_idem [simp]: "lower (lower s) = lower s"
  by (simp add: lower_def)

lemma lower_char_slash: "lower_char c = CHR ''/'' \<longleftrightarrow> c = CHR ''/''"
proof
  assume h: "lower_char c = CHR ''/''"
  have "of_char (lower_char c) = (47::nat)" by (simp add: h)
  then have "(of_char c :: nat) = of_char (CHR ''/'')"
    by (auto simp: lower_char_def Let_def split: if_splits)
  then show "c = CHR ''/''" by (simp only: of_char_eq_iff)
qed (simp add: lower_char_def)

lemma slash_in_lower: "CHR ''/'' \<in> set (lower s) \<longleftrightarrow> CHR ''/'' \<in> set s"
proof -
  have "CHR ''/'' \<in> set (lower s) \<longleftrightarrow> (\<exists>c \<in> set s. lower_char c = CHR ''/'')"
    unfolding lower_def by force
  then show ?thesis by (simp add: lower_char_slash)
qed

lemma normalize_idem:
  "normalize_registry_hostname (normalize_registry_hostname img) = normalize_registry_hostname img"
proof (cases "CHR ''/'' \<in> set img")
  case True
  obtain a b where ab: "split_once (CHR ''/'') img = (a, b)" by fastforce
  then have "CHR ''/'' \<notin> set a" using fst_split_once_absent[of "CHR ''/''" img] by simp
  then have "CHR ''/'' \<notin> set (lower a)" by (simp add: slash_in_lower)
  then have "split_once (CHR ''/'') (lower a @ ''/'' @ b) = (lower a, b)"
    by (simp add: split_once_append)
  with True ab show ?thesis by (simp add: normalize_registry_hostname_def)
qed (simp add: normalize_registry_hostname_def)

section \<open>What the webhooks rely on\<close>

text \<open>
  The registry validator and the cosign validator look at the same registry. The allow list is
  checked against \<open>extract_registry\<close>, the signature settings are found by \<open>parse_image_reference\<close>,
  two separate pieces of code; they agree on every reference whose digest has no slash.
\<close>

theorem registry_of_both_parsers_agrees:
  assumes "\<not> digest_has_slash img"
  shows "\<exists>org repo tag. parse_image_reference img = Inr (extract_registry img, org, repo, tag)"
proof -
  obtain reg org repo t where p: "parse_image_reference img = Inr (reg, org, repo, t)"
    using parse_image_reference_total[of img] by (metis prod_cases4)
  then show ?thesis using registry_agreement[OF assms p] by simp
qed

theorem registry_of_both_parsers_agrees_witness:
  "\<exists>org repo tag. parse_image_reference ''r.io/o/p:v1''
     = Inr (extract_registry ''r.io/o/p:v1'', org, repo, tag)"
  by (rule registry_of_both_parsers_agrees) code_simp

text \<open>
  Printing and parsing references are inverse. A reference without a digest, stripped to its
  name and printed again with any tag or pinned to any digest, parses to the same registry,
  organization and repository, and to that tag or digest; stripping is idempotent up to the tag.
\<close>

theorem stripped_reference_round_trip:
  assumes "CHR ''@'' \<notin> set img" and "strip_tag img = Inr name"
    and "CHR ''/'' \<notin> set tag" "CHR ''@'' \<notin> set tag" "CHR '':'' \<notin> set tag"
  shows "\<exists>registry org repo old. parse_image_reference img = Inr (registry, org, repo, old) \<and>
     parse_image_reference (name @ '':'' @ tag) = Inr (registry, org, repo, tag) \<and>
     parse_image_reference (name @ ''@'' @ digest) = Inr (registry, org, repo, ''@'' @ digest) \<and>
     strip_tag (name @ '':'' @ tag) = Inr name \<and> strip_tag (name @ ''@'' @ digest) = Inr name"
proof -
  obtain registry org repo t where p: "parse_image_reference img = Inr (registry, org, repo, t)"
    using parse_image_reference_total[of img] by (metis prod_cases4)
  have name: "name = registry @ ''/'' @ org @ ''/'' @ repo"
    using assms(2) p by (simp add: strip_tag_def)
  have t: "parse_image_reference (name @ '':'' @ tag) = Inr (registry, org, repo, tag)"
    using parse_tag_reference[OF parsed_parts_printable[OF assms(1) p] assms(3-5)] by (simp add: name)
  have d: "parse_image_reference (name @ ''@'' @ digest) = Inr (registry, org, repo, ''@'' @ digest)"
    using pinned_reference_parses[OF assms(1) p assms(2)] .
  show ?thesis using p t d name by (simp add: strip_tag_def)
qed

theorem stripped_reference_round_trip_witness:
  "strip_tag ''r.io/o/p:v2'' = Inr ''r.io/o/p''"
proof -
  have "strip_tag ''p:v1'' = Inr ''docker.io/library/p''" "strip_tag ''r.io/o/p:v1'' = Inr ''r.io/o/p''"
    by code_simp+
  then show ?thesis
    using stripped_reference_round_trip[of "''r.io/o/p:v1''" "''r.io/o/p''" "''v2''" "[]"] by auto
qed

end
