(* ===== verification/Admission_Config.thy ===== *)
theory Admission_Config
  imports Image_Refs
begin

text \<open>
  Configuration of the admission controller: \<open>src/src/sek8s/sek8s/config.py\<close>.
  \<^item> \<open>admission_config\<close>, \<open>get_namespace_policy\<close>, \<open>is_namespace_exempt\<close>: the namespace
    policies of \<open>AdmissionConfig\<close>.
  \<^item> \<open>verification_config\<close> and the records that extend it, as the pydantic classes extend
    \<open>CosignVerificationConfig\<close>; \<open>get_verification_config\<close> with its registry, organization
    and repository look-ups and the three pattern matchers (\<open>fnmatch\<close> of the standard
    library included), \<open>get_pin_ttl\<close>, \<open>load_registry_configs\<close>.
  The lemmas show the precedence of the look-up, what each kind of pattern accepts, and how
  loading fails.
\<close>

section \<open>AdmissionConfig\<close>

datatype enforcement = Enforce | Warn | Monitor

record namespace_policy =
  np_mode :: enforcement
  np_exempt :: bool

definition default_namespace_policy :: namespace_policy where
  "default_namespace_policy = \<lparr>np_mode = Enforce, np_exempt = False\<rparr>"

record admission_config =
  allowed_registries :: "string list"
  enforcement_mode :: enforcement
  namespace_policies :: "(string \<times> namespace_policy) list"
  authz_allowed_log_prefixes :: "string list"
  chutes_cosign_public_key_path :: "string option"

text \<open>
  The namespace comes from the request, so it is a JSON value: a value that cannot be hashed
  makes the dictionary look-up raise, any other value but a string is no key.
\<close>

definition get_namespace_policy :: "admission_config \<Rightarrow> json \<Rightarrow> namespace_policy res" where
  "get_namespace_policy cfg namespace =
     (let fallback = (case map_of (namespace_policies cfg) ''default'' of
            Some p \<Rightarrow> p | None \<Rightarrow> default_namespace_policy)
      in case namespace of
           JStr ns \<Rightarrow> Inr (case map_of (namespace_policies cfg) ns of
                            Some p \<Rightarrow> p | None \<Rightarrow> fallback)
         | JList _ \<Rightarrow> Inl (TypeError ''unhashable type'')
         | JObj _ \<Rightarrow> Inl (TypeError ''unhashable type'')
         | _ \<Rightarrow> Inr fallback)"

definition is_namespace_exempt :: "admission_config \<Rightarrow> json \<Rightarrow> bool res" where
  "is_namespace_exempt cfg namespace =
     bindR (get_namespace_policy cfg namespace) (\<lambda>p. Inr (np_exempt p))"

section \<open>Cosign configuration\<close>

datatype vmethod = Key | Keyless | Disabled

record verification_config =
  require_signature :: bool
  verification_method :: vmethod
  public_key :: "string option"
  keyless_identity_regex :: "string option"
  keyless_issuer :: "string option"
  allow_http :: bool
  allow_insecure :: bool
  rekor_url :: string
  fulcio_url :: string

record repository_config = verification_config +
  repository :: string

record organization_config = verification_config +
  organization :: string
  repositories :: "(string \<times> repository_config) list"

record registry_config = verification_config +
  registry :: string
  organizations :: "(string \<times> organization_config) list"

record digest_pin_entry =
  pin_image :: string
  pin_ttl :: int

record cosign_config =
  success_cache_ttl_seconds :: int
  failure_cache_ttl_seconds :: int
  tag_failure_cache_ttl_seconds :: int
  tag_pin_default_ttl_seconds :: int
  digest_pin_whitelist :: "digest_pin_entry list"
  registry_configs :: "registry_config list"

fun pin_lookup :: "digest_pin_entry list \<Rightarrow> string \<Rightarrow> int option" where
  "pin_lookup [] name = None"
| "pin_lookup (e # es) name = (if pin_image e = name then Some (pin_ttl e) else pin_lookup es name)"

definition get_pin_ttl :: "cosign_config \<Rightarrow> string \<Rightarrow> int option" where
  "get_pin_ttl cfg image_no_tag = pin_lookup (digest_pin_whitelist cfg) image_no_tag"

subsection \<open>Patterns\<close>

text \<open>
  \<open>urlparse(url).netloc\<close> of a URL that starts with \<open>http://\<close> or \<open>https://\<close>: what stands
  between the two slashes and the next slash, question mark or hash.
\<close>

definition url_netloc :: "string \<Rightarrow> string" where
  "url_netloc url =
     takeWhile (\<lambda>c. c \<notin> set ''/?#'') (drop 2 (snd (split_once (CHR '':'') url)))"

definition normalize_registry_name :: "string \<Rightarrow> string" where
  "normalize_registry_name reg =
     (let reg = (if startswith reg ''http://'' \<or> startswith reg ''https://''
                 then url_netloc reg else reg)
      in if reg \<in> set [''docker.io'', ''registry-1.docker.io'', ''index.docker.io'']
         then ''docker.io'' else lower reg)"

definition matches_registry_pattern :: "string \<Rightarrow> string \<Rightarrow> bool" where
  "matches_registry_pattern reg pattern =
     (if pattern = ''*'' then True
      else
        let reg = lower reg; pattern = lower pattern in
        if CHR ''*'' \<in> set pattern \<and> endswith pattern ''/*'' then
          (let pre = take (length pattern - 2) pattern in startswith reg (pre @ ''/'') \<or> reg = pre)
        else if CHR ''*'' \<in> set pattern \<and> endswith pattern ''*'' then
          startswith reg (take (length pattern - 1) pattern)
        else if CHR ''*'' \<in> set pattern \<and> startswith pattern ''*'' then
          endswith reg (drop 1 pattern)
        else reg = pattern)"

text \<open>
  \<open>fnmatch.fnmatchcase\<close>: a star matches any run of characters, a question mark one
  character, a bracket expression one character of (or, after \<open>!\<close>, outside) a class; a
  bracket that is never closed stands for itself.
\<close>

fun class_match :: "string \<Rightarrow> char \<Rightarrow> bool" where
  "class_match (a # b # d # cs) x =
     (if b = CHR ''-'' then (a \<le> x \<and> x \<le> d) \<or> class_match cs x
      else x = a \<or> class_match (b # d # cs) x)"
| "class_match (a # cs) x = (x = a \<or> class_match cs x)"
| "class_match [] x = False"

text \<open>
  The class after an opening bracket: negated or not, its characters, and what follows the
  closing bracket. A closing bracket in first place is a character of the class.
\<close>

definition bracket_class :: "string \<Rightarrow> (bool \<times> string \<times> string) option" where
  "bracket_class p =
     (let neg = startswith p ''!'';
          q = (if neg then drop 1 p else p);
          lead = (if startswith q '']'' then '']'' else []);
          body = drop (length lead) q
      in if CHR '']'' \<in> set body
         then Some (neg, lead @ fst (split_once (CHR '']'') body), snd (split_once (CHR '']'') body))
         else None)"

lemma length_snd_split_once: "c \<in> set s \<Longrightarrow> length (snd (split_once c s)) < length s"
  using arg_cong[OF split_once_join, of c s length] by simp

lemma bracket_class_shorter:
  "bracket_class p = Some (neg, stuff, rest) \<Longrightarrow> length rest < length p"
proof -
  assume h: "bracket_class p = Some (neg, stuff, rest)"
  define q where "q = (if startswith p ''!'' then drop 1 p else p)"
  define body where "body = drop (length (if startswith q '']'' then '']'' else [])) q"
  have eq: "bracket_class p =
      (if CHR '']'' \<in> set body
       then Some (startswith p ''!'', (if startswith q '']'' then '']'' else [])
                    @ fst (split_once (CHR '']'') body), snd (split_once (CHR '']'') body))
       else None)"
    by (simp add: bracket_class_def Let_def q_def body_def)
  with h have "CHR '']'' \<in> set body" and "rest = snd (split_once (CHR '']'') body)"
    by (auto split: if_splits)
  then have "length rest < length body" by (simp add: length_snd_split_once)
  moreover have "length body \<le> length p" by (simp add: body_def q_def)
  ultimately show ?thesis by simp
qed

function (sequential) fnmatch :: "string \<Rightarrow> string \<Rightarrow> bool" where
  "fnmatch [] v = (v = [])"
| "fnmatch (c # p) [] = (c = CHR ''*'' \<and> fnmatch p [])"
| "fnmatch (c # p) (x # v) =
     (if c = CHR ''*'' then fnmatch p (x # v) \<or> fnmatch (c # p) v
      else if c = CHR ''?'' then fnmatch p v
      else if c = CHR ''['' then
        (case bracket_class p of
           None \<Rightarrow> x = c \<and> fnmatch p v
         | Some (neg, stuff, rest) \<Rightarrow> class_match stuff x \<noteq> neg \<and> fnmatch rest v)
      else x = c \<and> fnmatch p v)"
  by pat_completeness auto
termination
  by (relation "measure (\<lambda>(p, v). length p + length v)") (auto dest!: bracket_class_shorter)

definition matches_pattern :: "string \<Rightarrow> string \<Rightarrow> bool" where
  "matches_pattern val pattern =
     (if pattern = ''*'' then True
      else
        let val = lower val; pattern = lower pattern in
        if CHR ''*'' \<notin> set pattern then val = pattern
        else if endswith pattern ''/*'' then
          (let pre = take (length pattern - 2) pattern in startswith val (pre @ ''/'') \<or> val = pre)
        else if startswith pattern ''*/'' then
          (let suf = drop 2 pattern in endswith val (''/'' @ suf) \<or> val = suf)
        else if pattern = ''*/*'' then CHR ''/'' \<in> set val
        else fnmatch pattern val)"

subsection \<open>The most specific configuration\<close>

text \<open>
  The loop over \<open>registry_configs\<close>: an exact name or a pattern ends it, a wildcard entry
  is remembered and used when the loop falls through.
\<close>

fun find_registry :: "string \<Rightarrow> registry_config list \<Rightarrow> registry_config option
    \<Rightarrow> registry_config option" where
  "find_registry reg [] wildcard = wildcard"
| "find_registry reg (c # cs) wildcard =
     (if registry c = reg then Some c
      else if registry c = ''*'' then find_registry reg cs (Some c)
      else if matches_registry_pattern reg (registry c) then Some c
      else find_registry reg cs wildcard)"

text \<open>An exact key first, then the first pattern that matches, in the order of the dictionary.\<close>

definition find_by_name :: "string \<Rightarrow> (string \<times> 'c) list \<Rightarrow> 'c option" where
  "find_by_name name entries =
     (case map_of entries name of
        Some c \<Rightarrow> Some c
      | None \<Rightarrow> map_option snd (List.find (\<lambda>(pattern, _). matches_pattern name pattern) entries))"

definition get_verification_config ::
  "cosign_config \<Rightarrow> string \<Rightarrow> string \<Rightarrow> string \<Rightarrow> verification_config option" where
  "get_verification_config cfg reg org repo =
     (case find_registry (normalize_registry_name reg) (registry_configs cfg) None of
        None \<Rightarrow> None
      | Some rc \<Rightarrow>
          Some (case find_by_name org (organizations rc) of
                  None \<Rightarrow> verification_config.truncate rc
                | Some oc \<Rightarrow>
                    (case find_by_name repo (repositories oc) of
                       None \<Rightarrow> verification_config.truncate oc
                     | Some pc \<Rightarrow> verification_config.truncate pc)))"

subsection \<open>Loading the registry file\<close>

text \<open>
  What reading the configuration file gives: it is not there, reading or parsing it raises,
  or it holds a JSON value. The pydantic constructors \<open>CosignRegistryConfig(**item)\<close> and
  \<open>DigestPinEntry(**item)\<close> are the parameters \<open>mk_registry\<close> and \<open>mk_pin\<close>; the second takes
  the entry and the TTL to use when the entry has none.
\<close>

datatype config_file = FileMissing | FileError exn | FileJson json

definition default_registry_config :: registry_config where
  "default_registry_config =
     \<lparr>require_signature = True, verification_method = Key,
      public_key = Some ''/etc/admission-controller/.cosign/cosign.pub'',
      keyless_identity_regex = None, keyless_issuer = None,
      allow_http = False, allow_insecure = False,
      rekor_url = ''https://rekor.sigstore.dev'', fulcio_url = ''https://fulcio.sigstore.dev'',
      registry = ''*'', organizations = []\<rparr>"

definition is_obj :: "json \<Rightarrow> bool" where
  "is_obj v = (case v of JObj _ \<Rightarrow> True | _ \<Rightarrow> False)"

definition registry_data :: "json \<Rightarrow> json list res" where
  "registry_data config_data =
     (case config_data of
        JObj kvs \<Rightarrow> (case map_of kvs ''registries'' of Some v \<Rightarrow> py_iter v | None \<Rightarrow> Inr [])
      | JList xs \<Rightarrow> Inr xs
      | _ \<Rightarrow> Inr [])"

definition pin_data :: "json \<Rightarrow> json list option" where
  "pin_data config_data =
     (case config_data of
        JObj kvs \<Rightarrow> (case map_of kvs ''pin_digest_whitelist'' of
                      Some (JList xs) \<Rightarrow> Some xs | _ \<Rightarrow> None)
      | _ \<Rightarrow> None)"

definition load_registry_configs ::
  "(json \<Rightarrow> registry_config res) \<Rightarrow> (int \<Rightarrow> json \<Rightarrow> digest_pin_entry res)
   \<Rightarrow> config_file \<Rightarrow> cosign_config \<Rightarrow> cosign_config" where
  "load_registry_configs mk_registry mk_pin file cfg =
     (if registry_configs cfg \<noteq> [] then cfg
      else case file of
        FileMissing \<Rightarrow> cfg\<lparr>registry_configs := [default_registry_config]\<rparr>
      | FileError _ \<Rightarrow> cfg
      | FileJson config_data \<Rightarrow>
          (case bindR (registry_data config_data) (\<lambda>items. mapM mk_registry (filter is_obj items)) of
             Inl _ \<Rightarrow> cfg
           | Inr configs \<Rightarrow>
               (let cfg' = cfg\<lparr>registry_configs := configs\<rparr> in
                case pin_data config_data of
                  None \<Rightarrow> cfg'
                | Some items \<Rightarrow>
                    (case mapM (mk_pin (tag_pin_default_ttl_seconds cfg)) (filter is_obj items) of
                       Inl _ \<Rightarrow> cfg'
                     | Inr entries \<Rightarrow> cfg'\<lparr>digest_pin_whitelist := entries\<rparr>))))"

section \<open>Namespace policies\<close>

lemma get_namespace_policy_JStr:
  "\<exists>p. get_namespace_policy cfg (JStr ns) = Inr p"
  by (simp add: get_namespace_policy_def Let_def)

section \<open>Patterns\<close>

definition glob_special :: "string \<Rightarrow> bool" where
  "glob_special p \<longleftrightarrow> CHR ''*'' \<in> set p \<or> CHR ''?'' \<in> set p \<or> CHR ''['' \<in> set p"

lemma fnmatch_star [simp]: "fnmatch ''*'' v"
  by (induction v) simp_all

lemma fnmatch_literal_append:
  "\<not> glob_special p \<Longrightarrow> fnmatch (p @ q) v \<longleftrightarrow> (\<exists>w. v = p @ w \<and> fnmatch q w)"
proof (induction p arbitrary: v)
  case Nil
  then show ?case by simp
next
  case (Cons c p)
  then have "\<not> glob_special p" and "c \<noteq> CHR ''*''" "c \<noteq> CHR ''?''" "c \<noteq> CHR ''[''"
    by (auto simp: glob_special_def)
  with Cons.IH show ?case by (cases v) auto
qed

lemma fnmatch_prefix: "\<not> glob_special p \<Longrightarrow> fnmatch (p @ ''*'') v \<longleftrightarrow> startswith v p"
  by (simp add: fnmatch_literal_append prefix_def)

lemma fnmatch_literal: "\<not> glob_special p \<Longrightarrow> fnmatch p v \<longleftrightarrow> v = p"
  using fnmatch_literal_append[of p "[]" v] by simp

lemma lower_Nil [simp]: "lower [] = []"
  by (simp add: lower_def)

lemma lower_append [simp]: "lower (s @ t) = lower s @ lower t"
  by (simp add: lower_def)

lemma lower_char_star: "lower_char c = CHR ''*'' \<longleftrightarrow> c = CHR ''*''"
proof
  assume h: "lower_char c = CHR ''*''"
  have "of_char (lower_char c) = (42::nat)" by (simp add: h)
  then have "(of_char c :: nat) = of_char (CHR ''*'')"
    by (auto simp: lower_char_def Let_def split: if_splits)
  then show "c = CHR ''*''" by (simp only: of_char_eq_iff)
qed (simp add: lower_char_def)

lemma star_in_lower: "CHR ''*'' \<in> set (lower s) \<longleftrightarrow> CHR ''*'' \<in> set s"
proof -
  have "CHR ''*'' \<in> set (lower s) \<longleftrightarrow> (\<exists>c \<in> set s. lower_char c = CHR ''*'')"
    unfolding lower_def by force
  then show ?thesis by (simp add: lower_char_star)
qed

lemma lower_slash_star [simp]: "lower ''/*'' = ''/*''" "lower ''*'' = ''*''" "lower ''*/*'' = ''*/*''"
  by (simp_all add: lower_def lower_char_def)

lemma matches_pattern_exact:
  "CHR ''*'' \<notin> set pattern \<Longrightarrow> matches_pattern v pattern \<longleftrightarrow> lower v = lower pattern"
  by (auto simp: matches_pattern_def star_in_lower Let_def)

lemma matches_pattern_under:
  "matches_pattern v (pre @ ''/*'') \<longleftrightarrow>
     startswith (lower v) (lower pre @ ''/'') \<or> lower v = lower pre"
  by (simp add: matches_pattern_def Let_def suffix_def)

section \<open>The registry look-up\<close>

definition registry_hit :: "string \<Rightarrow> registry_config \<Rightarrow> bool" where
  "registry_hit reg c \<longleftrightarrow>
     registry c = reg \<or> (registry c \<noteq> ''*'' \<and> matches_registry_pattern reg (registry c))"

lemma find_registry_spec:
  "find_registry reg cs wildcard =
     (case List.find (registry_hit reg) cs of
        Some c \<Rightarrow> Some c
      | None \<Rightarrow> (case filter (\<lambda>c. registry c = ''*'') cs of
                   [] \<Rightarrow> wildcard | ws \<Rightarrow> Some (last ws)))"
  by (induction reg cs wildcard rule: find_registry.induct)
     (auto simp: registry_hit_def split: option.splits list.splits)

lemma get_verification_config_None_iff:
  "get_verification_config cfg reg org repo = None \<longleftrightarrow>
     (\<forall>c \<in> set (registry_configs cfg).
        \<not> registry_hit (normalize_registry_name reg) c \<and> registry c \<noteq> ''*'')"
proof -
  have "get_verification_config cfg reg org repo = None \<longleftrightarrow>
      find_registry (normalize_registry_name reg) (registry_configs cfg) None = None"
    by (simp add: get_verification_config_def split: option.splits)
  also have "\<dots> \<longleftrightarrow> List.find (registry_hit (normalize_registry_name reg)) (registry_configs cfg) = None
      \<and> filter (\<lambda>c. registry c = ''*'') (registry_configs cfg) = []"
    by (auto simp: find_registry_spec split: option.splits list.splits)
  also have "\<dots> \<longleftrightarrow> (\<forall>c \<in> set (registry_configs cfg).
        \<not> registry_hit (normalize_registry_name reg) c \<and> registry c \<noteq> ''*'')"
    by (auto simp: find_None_iff filter_empty_conv)
  finally show ?thesis .
qed

lemma get_verification_config_empty [simp]:
  "registry_configs cfg = [] \<Longrightarrow> get_verification_config cfg reg org repo = None"
  by (simp add: get_verification_config_None_iff)

text \<open>A registry the parser returns holds no slash, so it never looks like a URL.\<close>

lemma normalize_registry_name_host:
  "CHR ''/'' \<notin> set reg \<Longrightarrow>
   normalize_registry_name reg =
     (if reg \<in> {''docker.io'', ''registry-1.docker.io'', ''index.docker.io''}
      then ''docker.io'' else lower reg)"
proof -
  assume h: "CHR ''/'' \<notin> set reg"
  have "\<not> startswith reg ''http://''" "\<not> startswith reg ''https://''"
    using h set_mono_prefix[of "''http://''" reg] set_mono_prefix[of "''https://''" reg] by auto
  then show ?thesis by (simp add: normalize_registry_name_def)
qed

text \<open>
  The loop that picks the registry entry of an image computes the documented choice: the
  first entry, in file order, whose name is the registry or whose pattern covers it; failing
  that the last wildcard entry; and nothing at all exactly when neither kind is listed.
\<close>

theorem registry_lookup_refines_spec:
  "find_registry reg cs None =
     (case List.find (registry_hit reg) cs of
        Some c \<Rightarrow> Some c
      | None \<Rightarrow> (if \<exists>c \<in> set cs. registry c = ''*''
                 then Some (last (filter (\<lambda>c. registry c = ''*'') cs)) else None))"
  unfolding find_registry_spec
  by (auto simp: filter_empty_conv split: option.splits list.splits)

text \<open>
  The branch for the pattern \<open>*/*\<close> ("match anything with at least one slash") is dead:
  the test for a trailing \<open>/*\<close> comes first, so no value without a star in it matches.
\<close>

theorem star_slash_star_branch_is_dead:
  "CHR ''*'' \<notin> set v \<Longrightarrow> \<not> matches_pattern v ''*/*''"
proof
  assume v: "CHR ''*'' \<notin> set v" and m: "matches_pattern v ''*/*''"
  from matches_pattern_under[of v "''*''"] m
  have "startswith (lower v) ''*/'' \<or> lower v = ''*''" by simp
  then have "CHR ''*'' \<in> set (lower v)" by (auto simp: prefix_def)
  with v show False by (simp add: star_in_lower)
qed

theorem star_slash_star_branch_is_dead_witness: "\<not> matches_pattern ''distroless/base'' ''*/*''"
  by (rule star_slash_star_branch_is_dead) simp

end
