(* ===== verification/Validators.thy ===== *)
theory Validators
  imports Admission_Config
begin

text \<open>
  The validators' common ground and the two stateless validators:
  \<open>validators/base.py\<close> (\<open>validation_result\<close>, \<open>extract_images\<close>), \<open>validators/registry.py\<close>
  (\<open>registry_validate\<close>) and \<open>validators/opa.py\<close> (\<open>opa_validate\<close>), under
  \<open>src/src/sek8s/sek8s/\<close>. An admission review is the JSON value the API server posts; every
  \<open>.get\<close> on something that is not an object raises, as in Python.
  The OPA server is a parameter: \<open>post\<close> takes the query input and returns the HTTP status and
  the parsed body, or the exception the HTTP client raised.
  The locale \<open>admission_validator\<close> is the contract the controller relies on.
\<close>

section \<open>ValidationResult\<close>

record validation_result =
  allowed :: bool
  messages :: "string list"
  warnings :: "string list"

definition opt_list :: "string option \<Rightarrow> string list" where
  "opt_list m = (case m of Some (c # cs) \<Rightarrow> [c # cs] | _ \<Rightarrow> [])"

definition vr_allow :: "string option \<Rightarrow> string option \<Rightarrow> validation_result" where
  "vr_allow message warning =
     \<lparr>allowed = True, messages = opt_list message, warnings = opt_list warning\<rparr>"

definition vr_deny :: "string \<Rightarrow> validation_result" where
  "vr_deny message = \<lparr>allowed = False, messages = [message], warnings = []\<rparr>"

fun vr_combine_from :: "validation_result \<Rightarrow> validation_result list \<Rightarrow> validation_result" where
  "vr_combine_from combined [] = combined"
| "vr_combine_from combined (r # rs) =
     vr_combine_from
       (let c = (if \<not> allowed r then combined\<lparr>allowed := False\<rparr> else combined)
        in c\<lparr>messages := messages c @ messages r, warnings := warnings c @ warnings r\<rparr>) rs"

definition vr_combine :: "validation_result list \<Rightarrow> validation_result" where
  "vr_combine results = vr_combine_from \<lparr>allowed = True, messages = [], warnings = []\<rparr> results"

lemma vr_simps [simp]:
  "allowed (vr_allow m w)" "\<not> allowed (vr_deny d)"
  "messages (vr_deny d) = [d]" "warnings (vr_deny d) = []"
  "warnings (vr_allow m w) = opt_list w" "messages (vr_allow m w) = opt_list m"
  by (simp_all add: vr_allow_def vr_deny_def)

lemma vr_combine_from_spec:
  "vr_combine_from c rs =
     \<lparr>allowed = (allowed c \<and> (\<forall>r \<in> set rs. allowed r)),
      messages = messages c @ concat (map messages rs),
      warnings = warnings c @ concat (map warnings rs)\<rparr>"
  by (induction rs arbitrary: c) (auto simp: Let_def)

section \<open>Images of a Kubernetes object\<close>

definition container_images :: "json \<Rightarrow> string \<Rightarrow> json list res" where
  "container_images spec key =
     bindR (py_get spec key (JList [])) (\<lambda>cs.
     bindR (py_iter cs) (mapM (\<lambda>c. py_get c ''image'' (JStr []))))"

definition extract_images :: "json \<Rightarrow> json list res" where
  "extract_images obj =
     bindR (py_get obj ''spec'' (JObj [])) (\<lambda>spec.
     bindR (appendR
       (bindR (py_in ''containers'' spec) (\<lambda>b.
          if b then appendR (container_images spec ''containers'')
                      (appendR (container_images spec ''initContainers'')
                               (container_images spec ''ephemeralContainers''))
          else Inr []))
       (appendR
         (bindR (py_get spec ''template'' (JObj [])) (\<lambda>template.
            if truthy template then
              bindR (py_get template ''spec'' (JObj [])) (\<lambda>template_spec.
                appendR (container_images template_spec ''containers'')
                  (appendR (container_images template_spec ''initContainers'')
                           (container_images template_spec ''ephemeralContainers'')))
            else Inr []))
         (bindR (py_get spec ''jobTemplate'' (JObj [])) (\<lambda>job_template.
            if truthy job_template then
              bindR (py_get job_template ''spec'' (JObj [])) (\<lambda>job_spec.
              bindR (py_gets job_spec [''template'', ''spec'']) (\<lambda>job_template_spec.
                appendR (container_images job_template_spec ''containers'')
                        (container_images job_template_spec ''initContainers'')))
            else Inr []))))
     (\<lambda>images. Inr (filter truthy images)))"

text \<open>
  The image of a container is a string: the API server validates the type before it calls the
  webhook. On any other value the string operations of the validators raise.
\<close>

definition image_str :: "json \<Rightarrow> string res" where
  "image_str v = (case v of JStr s \<Rightarrow> Inr s | _ \<Rightarrow> Inl (TypeError ''image is not a string''))"

definition object_images :: "json \<Rightarrow> string list res" where
  "object_images obj = bindR (extract_images obj) (mapM image_str)"

definition pod_kinds :: "string list" where
  "pod_kinds = [''Pod'', ''Deployment'', ''StatefulSet'', ''DaemonSet'', ''Job'', ''CronJob'',
     ''ReplicaSet'']"

text \<open>The text of a namespace in a message; it is a string in every request of the API server.\<close>

definition py_str :: "json \<Rightarrow> string" where
  "py_str v = (case v of JStr s \<Rightarrow> s | JNull \<Rightarrow> ''None'' | JBool True \<Rightarrow> ''True''
     | JBool False \<Rightarrow> ''False'' | _ \<Rightarrow> ''?'')"

text \<open>\<open>ns_policy.mode if ns_policy else self.config.enforcement_mode\<close>.\<close>

definition effective_mode :: "admission_config \<Rightarrow> namespace_policy option \<Rightarrow> enforcement" where
  "effective_mode cfg ns_policy =
     (case ns_policy of Some p \<Rightarrow> np_mode p | None \<Rightarrow> enforcement_mode cfg)"

section \<open>RegistryValidator\<close>

fun registry_in_allowlist :: "string list \<Rightarrow> string \<Rightarrow> bool" where
  "registry_in_allowlist [] reg = False"
| "registry_in_allowlist (a # as) reg =
     (if endswith a ''*'' then
        (if startswith reg (take (length a - 1) a) then True else registry_in_allowlist as reg)
      else if lower a = lower reg then True
      else registry_in_allowlist as reg)"

definition is_registry_allowed :: "admission_config \<Rightarrow> string \<Rightarrow> bool" where
  "is_registry_allowed cfg reg = registry_in_allowlist (allowed_registries cfg) reg"

definition registry_violations :: "admission_config \<Rightarrow> string list \<Rightarrow> string list" where
  "registry_violations cfg images =
     map (\<lambda>img. ''Image '' @ img @ '' uses disallowed registry '' @ extract_registry img)
       (filter (\<lambda>img. \<not> is_registry_allowed cfg (extract_registry img)) images)"

definition registry_validate :: "admission_config \<Rightarrow> json \<Rightarrow> validation_result res" where
  "registry_validate cfg admission_review =
     bindR (py_get admission_review ''request'' (JObj [])) (\<lambda>request.
     bindR (bindR (py_get request ''kind'' (JObj [])) (\<lambda>k. py_get k ''kind'' (JStr []))) (\<lambda>kind.
     if kind \<notin> JStr ` set pod_kinds then Inr (vr_allow None None)
     else
       bindR (py_get request ''namespace'' (JStr ''default'')) (\<lambda>namespace.
       bindR (is_namespace_exempt cfg namespace) (\<lambda>exempt.
       if exempt then Inr (vr_allow (Some (''Namespace '' @ py_str namespace @ '' is exempt'')) None)
       else
         bindR (py_get request ''operation'' JNull) (\<lambda>operation.
         if operation = JStr ''DELETE'' then Inr (vr_allow None None)
         else
           bindR (py_get request ''object'' (JObj [])) (\<lambda>obj.
           bindR (object_images obj) (\<lambda>images.
           if images = [] then Inr (vr_allow None None)
           else
             let violations = registry_violations cfg images in
             if violations \<noteq> [] then
               bindR (get_namespace_policy cfg namespace) (\<lambda>ns_policy.
                 case effective_mode cfg (Some ns_policy) of
                   Monitor \<Rightarrow> Inr (vr_allow None
                     (Some (''Registry violations (monitor mode): '' @ join_with ''; '' violations)))
                 | Warn \<Rightarrow> Inr (vr_allow None
                     (Some (''Registry violations: '' @ join_with ''; '' violations)))
                 | Enforce \<Rightarrow> Inr (vr_deny (join_with ''; '' violations)))
             else Inr (vr_allow None None))))))))"

section \<open>OPAValidator\<close>

definition mode_str :: "enforcement \<Rightarrow> string" where
  "mode_str m = (case m of Enforce \<Rightarrow> ''enforce'' | Warn \<Rightarrow> ''warn'' | Monitor \<Rightarrow> ''monitor'')"

definition opa_item :: "json \<Rightarrow> json list" where
  "opa_item item =
     (case item of
        JObj kvs \<Rightarrow> (case map_of kvs ''msg'' of Some m \<Rightarrow> [m] | None \<Rightarrow> [])
      | JStr s \<Rightarrow> [JStr s]
      | _ \<Rightarrow> [])"

definition query_opa :: "(json \<Rightarrow> (int \<times> json) res) \<Rightarrow> json \<Rightarrow> json list res" where
  "query_opa post opa_input =
     bindR (post (JObj [(''input'', opa_input)])) (\<lambda>(status, body).
     if status \<noteq> 200 then Inl (OtherException (''OPA returned status '' @ str_int status))
     else
       bindR (py_get body ''result'' JNull) (\<lambda>result.
       if truthy result then bindR (py_iter result) (\<lambda>items. Inr (concat (map opa_item items)))
       else Inr []))"

text \<open>\<open>'; '.join(violations)\<close>: joining a violation that is not a string raises.\<close>

definition join_violations :: "json list \<Rightarrow> string res" where
  "join_violations violations =
     bindR (mapM (\<lambda>v. case v of JStr s \<Rightarrow> Inr s
                    | _ \<Rightarrow> Inl (TypeError ''sequence item: expected str instance'')) violations)
       (\<lambda>vs. Inr (join_with ''; '' vs))"

definition opa_decide :: "enforcement \<Rightarrow> json list \<Rightarrow> validation_result res" where
  "opa_decide mode violations =
     (if violations = [] then Inr (vr_allow None None)
      else
        bindR (join_violations violations) (\<lambda>text.
        case mode of
          Monitor \<Rightarrow> Inr (vr_allow None
            (Some (''Policy violations detected (monitor mode): '' @ text)))
        | Warn \<Rightarrow> Inr (vr_allow None (Some (''Policy violations detected: '' @ text)))
        | Enforce \<Rightarrow> Inr (vr_deny (''Policy violations: '' @ text))))"

text \<open>The two \<open>except\<close> clauses around the query: both fail closed.\<close>

definition opa_recover :: "validation_result res \<Rightarrow> validation_result" where
  "opa_recover outcome =
     (case outcome of
        Inr r \<Rightarrow> r
      | Inl e \<Rightarrow> if e = TimeoutError then vr_deny ''Policy validation timeout''
                 else vr_deny (''Policy validation error: '' @ exn_str e))"

definition opa_validate ::
  "(json \<Rightarrow> (int \<times> json) res) \<Rightarrow> admission_config \<Rightarrow> json \<Rightarrow> validation_result res" where
  "opa_validate post cfg admission_review =
     bindR (py_get admission_review ''request'' (JObj [])) (\<lambda>request.
     bindR (py_get request ''namespace'' (JStr ''default'')) (\<lambda>namespace.
     bindR (is_namespace_exempt cfg namespace) (\<lambda>exempt.
     if exempt then Inr (vr_allow (Some (''Namespace '' @ py_str namespace @ '' is exempt'')) None)
     else
       bindR (get_namespace_policy cfg namespace) (\<lambda>ns_policy.
       let mode = effective_mode cfg (Some ns_policy);
           opa_input = JObj [(''request'', request),
             (''allowed_registries'', JList (map JStr (allowed_registries cfg))),
             (''namespace_policy'', JStr (mode_str mode))]
       in Inr (opa_recover (bindR (query_opa post opa_input) (opa_decide mode)))))))"

definition opa_health_check :: "int res \<Rightarrow> bool" where
  "opa_health_check get_status = (case get_status of Inr status \<Rightarrow> status = 200 | Inl _ \<Rightarrow> False)"

section \<open>The contract of a validator\<close>

text \<open>
  What the controller relies on: a validator that denies a request says why. The controller
  turns the messages into the status of the response, so a denial without a message would
  reach the user with no reason at all.
\<close>

locale admission_validator =
  fixes validate :: "json \<Rightarrow> validation_result res"
  assumes denial_explained: "validate review = Inr r \<Longrightarrow> \<not> allowed r \<Longrightarrow> messages r \<noteq> []"
begin

lemma silent_result_allows: "validate review = Inr r \<Longrightarrow> messages r = [] \<Longrightarrow> allowed r"
  using denial_explained by blast

end

text \<open>Every result the validators build comes from \<open>allow\<close> or \<open>deny\<close>.\<close>

definition decided :: "validation_result \<Rightarrow> bool" where
  "decided r \<longleftrightarrow> (\<exists>m w. r = vr_allow m w) \<or> (\<exists>d. r = vr_deny d)"

lemma decided_intros [simp]: "decided (vr_allow m w)" "decided (vr_deny d)"
  by (auto simp: decided_def)

lemma decided_denial: "decided r \<Longrightarrow> \<not> allowed r \<Longrightarrow> messages r \<noteq> []"
  by (auto simp: decided_def)

lemma registry_validate_decided: "okR decided (registry_validate cfg review)"
  unfolding registry_validate_def Let_def
  by (intro okR_intros; simp split: enforcement.split)

lemma opa_decide_decided: "okR decided (opa_decide mode vs)"
  unfolding opa_decide_def by (cases mode; intro okR_intros; simp)

lemma opa_recover_decided: "okR decided m \<Longrightarrow> decided (opa_recover m)"
  by (cases m) (auto simp: opa_recover_def)

lemma opa_validate_decided: "okR decided (opa_validate post cfg review)"
  unfolding opa_validate_def Let_def
  by (intro okR_intros; simp add: opa_recover_decided okR_bindI opa_decide_decided)

interpretation registry_validator: admission_validator "registry_validate cfg" for cfg
  by unfold_locales (blast dest: okRD[OF registry_validate_decided] decided_denial)

interpretation opa_validator: admission_validator "opa_validate post cfg" for post cfg
  by unfold_locales (blast dest: okRD[OF opa_validate_decided] decided_denial)

section \<open>Requests that carry images\<close>

text \<open>
  The shape of a review that a validator has to check: a pod or a resource that creates pods,
  not a deletion, in a namespace, with these images.
\<close>

definition pod_request :: "json \<Rightarrow> json \<Rightarrow> string list \<Rightarrow> bool" where
  "pod_request review namespace images \<longleftrightarrow>
     (\<exists>request kind obj operation.
        py_get review ''request'' (JObj []) = Inr request \<and>
        bindR (py_get request ''kind'' (JObj [])) (\<lambda>k. py_get k ''kind'' (JStr [])) = Inr (JStr kind) \<and>
        kind \<in> set pod_kinds \<and>
        py_get request ''namespace'' (JStr ''default'') = Inr namespace \<and>
        py_get request ''operation'' JNull = Inr operation \<and> operation \<noteq> JStr ''DELETE'' \<and>
        py_get request ''object'' (JObj []) = Inr obj \<and>
        object_images obj = Inr images)"

lemma registry_in_allowlist_iff:
  "registry_in_allowlist as reg \<longleftrightarrow>
     (\<exists>a \<in> set as. if endswith a ''*'' then startswith reg (take (length a - 1) a)
                  else lower a = lower reg)"
  by (induction as) auto

lemma registry_violations_Nil_iff:
  "registry_violations cfg images = [] \<longleftrightarrow>
     (\<forall>img \<in> set images. is_registry_allowed cfg (extract_registry img))"
  by (auto simp: registry_violations_def filter_empty_conv)

lemma registry_validate_pod_request:
  assumes "pod_request review namespace images"
    and "get_namespace_policy cfg namespace = Inr p" and "\<not> np_exempt p"
  shows "registry_validate cfg review =
     Inr (let violations = registry_violations cfg images in
          if violations = [] then vr_allow None None
          else case np_mode p of
                 Monitor \<Rightarrow> vr_allow None
                   (Some (''Registry violations (monitor mode): '' @ join_with ''; '' violations))
               | Warn \<Rightarrow> vr_allow None
                   (Some (''Registry violations: '' @ join_with ''; '' violations))
               | Enforce \<Rightarrow> vr_deny (join_with ''; '' violations))"
proof -
  have "images = [] \<Longrightarrow> registry_violations cfg images = []"
    by (simp add: registry_violations_def)
  with assms show ?thesis
    by (auto simp: pod_request_def registry_validate_def is_namespace_exempt_def effective_mode_def
        Let_def split: enforcement.splits)
qed

text \<open>
  In a namespace that is enforced and not exempt, the registry validator admits a pod, or
  a resource that creates pods, exactly when the registry of each of its images is covered by
  an entry of the allow list (a prefix before a star, or the same host up to letter case).
\<close>

theorem registry_allowlist_enforced:
  assumes "pod_request review namespace images"
    and "get_namespace_policy cfg namespace = Inr p"
    and "\<not> np_exempt p" and "np_mode p = Enforce"
  shows "\<exists>r. registry_validate cfg review = Inr r \<and>
    (allowed r \<longleftrightarrow>
       (\<forall>img \<in> set images. \<exists>a \<in> set (allowed_registries cfg).
          if endswith a ''*'' then startswith (extract_registry img) (take (length a - 1) a)
          else lower a = lower (extract_registry img)))"
  using registry_validate_pod_request[OF assms(1-3)] assms(4) registry_violations_Nil_iff[of cfg images]
  by (auto simp: Let_def is_registry_allowed_def registry_in_allowlist_iff)

definition opa_query_input :: "admission_config \<Rightarrow> json \<Rightarrow> namespace_policy \<Rightarrow> json" where
  "opa_query_input cfg request p =
     JObj [(''request'', request),
       (''allowed_registries'', JList (map JStr (allowed_registries cfg))),
       (''namespace_policy'', JStr (mode_str (np_mode p)))]"

lemma opa_validate_run:
  assumes "py_get review ''request'' (JObj []) = Inr request"
    and "py_get request ''namespace'' (JStr ''default'') = Inr namespace"
    and "get_namespace_policy cfg namespace = Inr p" and "\<not> np_exempt p"
  shows "opa_validate post cfg review =
     Inr (opa_recover (bindR (query_opa post (opa_query_input cfg request p)) (opa_decide (np_mode p))))"
  using assms
  by (simp add: opa_validate_def is_namespace_exempt_def effective_mode_def Let_def opa_query_input_def)

lemma opa_recover_allowed:
  assumes "allowed (opa_recover (bindR q (opa_decide m)))"
  shows "\<exists>violations. q = Inr violations \<and> (violations = [] \<or> m \<noteq> Enforce)"
proof (cases q)
  case (Inl e)
  with assms show ?thesis by (auto simp: opa_recover_def split: if_splits)
next
  case (Inr vs)
  have "opa_decide m vs = Inr r \<Longrightarrow> allowed r \<Longrightarrow> vs = [] \<or> m \<noteq> Enforce" for r
    by (auto simp: opa_decide_def bindR_Inr_iff split: if_splits enforcement.splits)
  with Inr assms show ?thesis
    by (cases "opa_decide m vs") (auto simp: opa_recover_def split: if_splits)
qed

lemma query_opa_Inr:
  "query_opa post opa_input = Inr violations \<longleftrightarrow>
     (\<exists>kvs. post (JObj [(''input'', opa_input)]) = Inr (200, JObj kvs) \<and>
        (let result = (case map_of kvs ''result'' of None \<Rightarrow> JNull | Some x \<Rightarrow> x) in
         if truthy result then \<exists>items. py_iter result = Inr items \<and> violations = concat (map opa_item items) else violations = []))"
proof (cases "post (JObj [(''input'', opa_input)])")
  case (Inr answer)
  obtain status body where a: "answer = (status, body)" by fastforce
  show ?thesis
    by (cases body) (auto simp: query_opa_def Inr a py_get_def bindR_Inr_iff Let_def)
qed (simp add: query_opa_def)

text \<open>An item of the answer that counts as a violation: a text, or an object with a message.\<close>

definition reports_violation :: "json \<Rightarrow> bool" where
  "reports_violation item = (case item of JStr s \<Rightarrow> True | JObj kvs \<Rightarrow> map_of kvs ''msg'' \<noteq> None | _ \<Rightarrow> False)"

lemma opa_item_violation: "opa_item item = [] \<longleftrightarrow> \<not> reports_violation item"
  by (simp add: opa_item_def reports_violation_def split: json.splits option.splits)

lemma no_violations:
  "query_opa post opa_input = Inr [] \<longleftrightarrow>
     (\<exists>kvs. post (JObj [(''input'', opa_input)]) = Inr (200, JObj kvs) \<and>
        (let result = (case map_of kvs ''result'' of None \<Rightarrow> JNull | Some x \<Rightarrow> x) in
         \<not> truthy result \<or> (\<exists>items. result = JList items \<and> list_all (\<lambda>item. \<not> reports_violation item) items)))"
proof -
  have "(\<exists>items. py_iter result = Inr items \<and> concat (map opa_item items) = []) \<longleftrightarrow>
      (\<exists>items. result = JList items \<and> list_all (\<lambda>item. \<not> reports_violation item) items)" if "truthy result" for result
  proof -
    have "xs \<noteq> [] \<Longrightarrow> \<exists>a b. (a, b) \<in> set xs" for xs :: "(string \<times> json) list" by (cases xs) auto
    then show ?thesis
      using that by (cases result) (auto simp: py_iter_def opa_item_violation list_all_iff reports_violation_def)
  qed
  then show ?thesis unfolding query_opa_Inr Let_def by (metis (no_types, lifting))
qed

lemma opa_recover_enforced:
  "allowed (opa_recover (bindR q (opa_decide Enforce))) \<longleftrightarrow> q = Inr []"
proof (cases q)
  case (Inr vs)
  then show ?thesis
    by (cases "join_violations vs") (auto simp: opa_recover_def opa_decide_def)
qed (simp add: opa_recover_def)

text \<open>
  C31: The OPA validator fails closed. For a well-formed review of a namespace whose policy is not exempt it always
  answers. Where the policy enforces, the request passes exactly if OPA, asked with the request, the
  allowed registries and the mode, answered with status 200 and an object whose result is missing, empty or a list without any
  violation (a text, or an object with a message): a timeout, an error, another status or a body of
  another shape is a denial. Where it does not enforce, a request that passes was at least answered so far that the
  violations could be read.
\<close>

theorem opa_fails_closed:
  assumes "py_get review ''request'' (JObj []) = Inr request"
    and "py_get request ''namespace'' (JStr ''default'') = Inr namespace"
    and "get_namespace_policy cfg namespace = Inr p" and "\<not> np_exempt p"
  shows "\<exists>r. opa_validate post cfg review = Inr r \<and>
    (np_mode p = Enforce \<longrightarrow> (allowed r \<longleftrightarrow>
       (\<exists>kvs. post (JObj [(''input'', JObj [(''request'', request),
              (''allowed_registries'', JList (map JStr (allowed_registries cfg))),
              (''namespace_policy'', JStr ''enforce'')])]) = Inr (200, JObj kvs) \<and>
          (let result = (case map_of kvs ''result'' of None \<Rightarrow> JNull | Some x \<Rightarrow> x) in
           \<not> truthy result \<or> (\<exists>items. result = JList items \<and> list_all (\<lambda>item. \<not> reports_violation item) items))))) \<and>
    (allowed r \<longrightarrow> (\<exists>violations. query_opa post (opa_query_input cfg request p) = Inr violations))"
proof -
  let ?q = "query_opa post (opa_query_input cfg request p)"
  let ?r = "opa_recover (bindR ?q (opa_decide (np_mode p)))"
  have "allowed ?r \<longleftrightarrow>
       (\<exists>kvs. post (JObj [(''input'', JObj [(''request'', request),
              (''allowed_registries'', JList (map JStr (allowed_registries cfg))),
              (''namespace_policy'', JStr ''enforce'')])]) = Inr (200, JObj kvs) \<and>
          (let result = (case map_of kvs ''result'' of None \<Rightarrow> JNull | Some x \<Rightarrow> x) in
           \<not> truthy result \<or> (\<exists>items. result = JList items \<and> list_all (\<lambda>item. \<not> reports_violation item) items)))"
    if m: "np_mode p = Enforce"
    unfolding m opa_recover_enforced no_violations by (simp add: opa_query_input_def m mode_str_def)
  moreover have "\<exists>violations. ?q = Inr violations" if "allowed ?r"
    using opa_recover_allowed[OF that] by blast
  ultimately show ?thesis using opa_validate_run[OF assms, of post] by blast
qed

text \<open>
  The global setting \<open>ENFORCEMENT_MODE\<close> has no effect on either validator: a namespace
  always has a policy (its own, the \<open>default\<close> entry or a built-in one that enforces), so the
  fallback to the setting is never taken.
\<close>

theorem enforcement_mode_setting_ignored:
  "registry_validate (cfg\<lparr>enforcement_mode := m\<rparr>) review = registry_validate cfg review \<and>
   opa_validate post (cfg\<lparr>enforcement_mode := m\<rparr>) review = opa_validate post cfg review"
proof
  have policy: "get_namespace_policy (cfg\<lparr>enforcement_mode := m\<rparr>) = get_namespace_policy cfg"
    by (rule ext) (simp add: get_namespace_policy_def Let_def split: json.split)
  then have exempt: "is_namespace_exempt (cfg\<lparr>enforcement_mode := m\<rparr>) = is_namespace_exempt cfg"
    by (simp add: is_namespace_exempt_def fun_eq_iff)
  have viol: "registry_violations (cfg\<lparr>enforcement_mode := m\<rparr>) = registry_violations cfg"
    by (simp add: registry_violations_def is_registry_allowed_def fun_eq_iff)
  have mode: "effective_mode (cfg\<lparr>enforcement_mode := m\<rparr>) (Some p) = effective_mode cfg (Some p)" for p
    by (simp add: effective_mode_def)
  have regs: "allowed_registries (cfg\<lparr>enforcement_mode := m\<rparr>) = allowed_registries cfg"
    by simp
  show "registry_validate (cfg\<lparr>enforcement_mode := m\<rparr>) review = registry_validate cfg review"
    unfolding registry_validate_def policy exempt viol mode ..
  show "opa_validate post (cfg\<lparr>enforcement_mode := m\<rparr>) review = opa_validate post cfg review"
    unfolding opa_validate_def policy exempt mode regs ..
qed

section \<open>An example request\<close>

definition sample_admission_config :: admission_config where
  "sample_admission_config = \<lparr>allowed_registries = [''r.io''], enforcement_mode = Monitor,
     namespace_policies = [], authz_allowed_log_prefixes = [],
     chutes_cosign_public_key_path = Some ''/k.pub''\<rparr>"

definition sample_review :: "string \<Rightarrow> json" where
  "sample_review img = JObj [(''request'', JObj [
     (''kind'', JObj [(''kind'', JStr ''Pod'')]),
     (''namespace'', JStr ''chutes''),
     (''object'', JObj [(''spec'', JObj [(''containers'',
        JList [JObj [(''image'', JStr img)]])])])])]"

definition sample_tag :: string where "sample_tag = ''r.io/o/p:v1''"

lemma sample_pod_request: "pod_request (sample_review sample_tag) (JStr ''chutes'') [sample_tag]"
  by (simp add: pod_request_def sample_review_def object_images_def extract_images_def
      container_images_def appendR_def image_str_def pod_kinds_def py_in_def sample_tag_def)

theorem registry_allowlist_enforced_witness:
  "\<exists>r. registry_validate sample_admission_config (sample_review sample_tag) = Inr r \<and> allowed r"
proof -
  have "get_namespace_policy sample_admission_config (JStr ''chutes'') = Inr default_namespace_policy"
    by (simp add: get_namespace_policy_def sample_admission_config_def)
  moreover have "lower ''r.io'' = lower (extract_registry sample_tag)" "\<not> endswith ''r.io'' ''*''"
    by code_simp+
  ultimately show ?thesis
    using registry_allowlist_enforced[OF sample_pod_request, of sample_admission_config
        default_namespace_policy]
    by (auto simp: default_namespace_policy_def sample_admission_config_def)
qed

theorem opa_fails_closed_witness:
  "(\<exists>r. opa_validate (\<lambda>_. Inl TimeoutError) sample_admission_config (sample_review sample_tag) = Inr r \<and> \<not> allowed r) \<and>
   (\<exists>r. opa_validate (\<lambda>_. Inr (200, JObj [])) sample_admission_config (sample_review sample_tag) = Inr r \<and> allowed r)"
proof -
  have p: "get_namespace_policy sample_admission_config (JStr ''chutes'') = Inr default_namespace_policy"
    by (simp add: get_namespace_policy_def sample_admission_config_def)
  have m: "np_mode default_namespace_policy = Enforce" "\<not> np_exempt default_namespace_policy"
    by (simp_all add: default_namespace_policy_def)
  note use = opa_fails_closed[of "sample_review sample_tag" _ "JStr ''chutes''" sample_admission_config default_namespace_policy]
  show ?thesis
    using use[of _ "\<lambda>_. Inl TimeoutError"] use[of _ "\<lambda>_. Inr (200, JObj [])"] p m
    by (auto simp: sample_review_def Let_def)
qed

end
