(* ===== verification/Cosign_Client.thy ===== *)
theory Cosign_Client
  imports Admission_Config
begin

text \<open>
  The cosign client: \<open>src/src/sek8s/sek8s/clients/cosign.py\<close>. The world outside the process is
  the record \<open>cosign_env\<close>: what running a command gives, whether a path exists, and what
  \<open>json.loads\<close> makes of a text. The definitions follow \<open>verify\<close>, \<open>_verify_with_key\<close>,
  \<open>_verify_keyless\<close>, \<open>_run_cosign\<close> and \<open>_extract_verified_digest\<close>, the regular expressions for
  rate limits included. The lemmas say when an image counts as verified and how each failure
  of the subprocess is classified.
\<close>

section \<open>The subprocess\<close>

datatype proc_outcome =
    Exited int string string  \<comment> \<open>return code, stdout, stderr\<close>
  | TimedOut
  | BinaryNotFound
  | SpawnFailed exn

record cosign_env =
  run_proc :: "string list \<Rightarrow> proc_outcome"
  path_exists :: "string \<Rightarrow> bool"
  json_loads :: "string \<Rightarrow> json res"

text \<open>The word characters of Python's regular expressions, on code points below 256.\<close>

definition is_word :: "char \<Rightarrow> bool" where
  "is_word c =
     (let n = (of_char c :: nat) in
      (48 \<le> n \<and> n \<le> 57) \<or> (65 \<le> n \<and> n \<le> 90) \<or> n = 95 \<or> (97 \<le> n \<and> n \<le> 122) \<or>
      n \<in> {170, 178, 179, 181, 185, 186, 188, 189, 190} \<or>
      (192 \<le> n \<and> n \<le> 214) \<or> (216 \<le> n \<and> n \<le> 246) \<or> 248 \<le> n)"

text \<open>
  \<open>re.search\<close>: a matcher is tried at every position; it sees the character before it and the
  text from there on.
\<close>

fun search_from :: "(char option \<Rightarrow> string \<Rightarrow> bool) \<Rightarrow> char option \<Rightarrow> string \<Rightarrow> bool" where
  "search_from m prev [] = m prev []"
| "search_from m prev (c # cs) = (m prev (c # cs) \<or> search_from m (Some c) cs)"

definition at_word_start :: "char option \<Rightarrow> bool" where
  "at_word_start prev = (case prev of None \<Rightarrow> True | Some c \<Rightarrow> \<not> is_word c)"

definition match_rate_limit :: "char option \<Rightarrow> string \<Rightarrow> bool" where
  "match_rate_limit prev s =
     (at_word_start prev \<and> startswith (lower s) ''rate'' \<and>
      startswith (dropWhile is_space (drop 4 (lower s))) ''limit'')"

definition match_429 :: "char option \<Rightarrow> string \<Rightarrow> bool" where
  "match_429 prev s =
     (at_word_start prev \<and> startswith s ''429'' \<and>
      (case drop 3 s of [] \<Rightarrow> True | c # _ \<Rightarrow> \<not> is_word c))"

definition rate_limit_detected :: "string \<Rightarrow> bool" where
  "rate_limit_detected combined =
     (search_from match_rate_limit None combined \<or> search_from match_429 None combined \<or>
      contains (lower combined) ''too many requests'' \<or>
      contains (lower combined) ''pull rate limit'')"

definition connection_failure_indicators :: "string list" where
  "connection_failure_indicators =
     [''connection refused'', ''connection reset'', ''dial tcp'', ''i/o timeout'',
      ''temporary failure'', ''no such host'', ''connection timed out'']"

definition run_cosign :: "cosign_env \<Rightarrow> string list \<Rightarrow> (bool \<times> string \<times> string) res" where
  "run_cosign env cmd =
     (case run_proc env cmd of
        Exited rc stdout stderr \<Rightarrow>
          (let combined = stdout @ [newline] @ stderr in
           if rate_limit_detected combined then
             Inl (CosignRateLimitError ''Cosign verification rate limited by upstream registry'')
           else if rc \<noteq> 0 \<and>
             (\<exists>ind \<in> set connection_failure_indicators. contains (lower combined) ind) then
             Inl (CosignVerificationUnavailableError
               (if stderr \<noteq> [] then stderr else if stdout \<noteq> [] then stdout
                else ''Registry/network unavailable''))
           else Inr (rc = 0, stdout, stderr))
      | TimedOut \<Rightarrow> Inr (False, [], ''timeout'')
      | BinaryNotFound \<Rightarrow> Inr (False, [], ''cosign not found'')
      | SpawnFailed e \<Rightarrow> Inr (False, [], exn_str e))"

section \<open>Verification\<close>

definition digest_of_result :: "json \<Rightarrow> json res" where
  "digest_of_result entry =
     bindR (py_get entry ''critical'' (JObj [])) (\<lambda>critical.
     bindR (py_get critical ''image'' (JObj [])) (\<lambda>img.
     py_get img ''docker-manifest-digest'' JNull))"

definition extract_verified_digest :: "cosign_env \<Rightarrow> string \<Rightarrow> string option" where
  "extract_verified_digest env stdout =
     (case json_loads env stdout of
        Inr (JList (entry # _)) \<Rightarrow>
          (case digest_of_result entry of
             Inr (JStr digest) \<Rightarrow> if digest \<noteq> [] then Some digest else None
           | _ \<Rightarrow> None)
      | _ \<Rightarrow> None)"

definition key_cmd :: "verification_config \<Rightarrow> string \<Rightarrow> string \<Rightarrow> string list" where
  "key_cmd config key img =
     [''cosign'', ''verify'', ''--key'', key]
     @ (if allow_http config then [''--allow-http-registry''] else [])
     @ (if allow_insecure config then [''--allow-insecure-registry''] else [])
     @ (if rekor_url config \<noteq> [] then [''--rekor-url'', rekor_url config] else [])
     @ [img]"

definition verify_with_key ::
  "cosign_env \<Rightarrow> string \<Rightarrow> verification_config \<Rightarrow> (bool \<times> string option) res" where
  "verify_with_key env img config =
     (case public_key config of
        None \<Rightarrow> Inr (False, None)
      | Some key \<Rightarrow>
          if \<not> path_exists env key then Inr (False, None)
          else
            bindR (run_cosign env (key_cmd config key img)) (\<lambda>(success, stdout, stderr).
            if \<not> success then Inr (False, None)
            else Inr (True, extract_verified_digest env stdout)))"

definition keyless_cmd :: "verification_config \<Rightarrow> string \<Rightarrow> string \<Rightarrow> string \<Rightarrow> string list" where
  "keyless_cmd config identity issuer img =
     [''cosign'', ''verify'', ''--certificate-identity-regexp'', identity,
      ''--certificate-oidc-issuer'', issuer, img]
     @ (if rekor_url config \<noteq> [] then [''--rekor-url'', rekor_url config] else [])
     @ (if fulcio_url config \<noteq> [] then [''--fulcio-url'', fulcio_url config] else [])"

definition verify_keyless ::
  "cosign_env \<Rightarrow> string \<Rightarrow> verification_config \<Rightarrow> (bool \<times> string option) res" where
  "verify_keyless env img config =
     (case (keyless_identity_regex config, keyless_issuer config) of
        (Some identity, Some issuer) \<Rightarrow>
          if identity = [] \<or> issuer = [] then Inr (False, None)
          else
            bindR (run_cosign env (keyless_cmd config identity issuer img))
              (\<lambda>(success, stdout, stderr).
               if success then
                 (case json_loads env stdout of
                    Inr (JList (entry # rest)) \<Rightarrow> Inr (True, extract_verified_digest env stdout)
                  | _ \<Rightarrow> Inr (False, None))
               else Inr (False, None))
      | _ \<Rightarrow> Inr (False, None))"

definition cosign_verify ::
  "cosign_env \<Rightarrow> string \<Rightarrow> verification_config \<Rightarrow> (bool \<times> string option) res" where
  "cosign_verify env img config =
     (case verification_method config of
        Key \<Rightarrow> verify_with_key env img config
      | Keyless \<Rightarrow> verify_keyless env img config
      | Disabled \<Rightarrow> Inr (False, None))"

section \<open>When an image counts as verified\<close>

lemma run_cosign_success:
  "run_cosign env cmd = Inr (True, out, err) \<longleftrightarrow>
     run_proc env cmd = Exited 0 out err \<and> \<not> rate_limit_detected (out @ [newline] @ err)"
  by (auto simp: run_cosign_def Let_def split: proc_outcome.splits if_splits)

lemma run_cosign_raises:
  "run_cosign env cmd = Inl e \<Longrightarrow>
     (\<exists>m. e = CosignRateLimitError m) \<or> (\<exists>m. e = CosignVerificationUnavailableError m)"
  by (auto simp: run_cosign_def Let_def split: proc_outcome.splits if_splits)

lemma cosign_verify_raises:
  "cosign_verify env img config = Inl e \<Longrightarrow>
     (\<exists>m. e = CosignRateLimitError m) \<or> (\<exists>m. e = CosignVerificationUnavailableError m)"
proof -
  have bind: "bindR m f = Inl e \<Longrightarrow> (\<And>x. f x \<noteq> Inl e) \<Longrightarrow> m = Inl e"
    for m :: "(bool \<times> string \<times> string) res" and f :: "_ \<Rightarrow> (bool \<times> string option) res"
    by (cases m) auto
  assume h: "cosign_verify env img config = Inl e"
  have "\<exists>cmd. run_cosign env cmd = Inl e"
  proof (cases "verification_method config")
    case Key
    with h obtain key where
      "bindR (run_cosign env (key_cmd config key img)) (\<lambda>(success, stdout, stderr).
         if \<not> success then Inr (False, None)
         else Inr (True, extract_verified_digest env stdout)) = Inl e"
      by (auto simp: cosign_verify_def verify_with_key_def split: option.splits if_splits)
    then have "run_cosign env (key_cmd config key img) = Inl e"
      by (rule bind) (auto split: prod.splits)
    then show ?thesis ..
  next
    case Keyless
    with h obtain identity issuer where
      "bindR (run_cosign env (keyless_cmd config identity issuer img)) (\<lambda>(success, stdout, stderr).
         if success then
           (case json_loads env stdout of
              Inr (JList (entry # rest)) \<Rightarrow> Inr (True, extract_verified_digest env stdout)
            | _ \<Rightarrow> Inr (False, None))
         else Inr (False, None)) = Inl e"
      by (auto simp: cosign_verify_def verify_keyless_def split: option.splits if_splits)
    then have "run_cosign env (keyless_cmd config identity issuer img) = Inl e"
      by (rule bind) (auto split: prod.splits sum.splits json.splits list.splits)
    then show ?thesis ..
  qed (use h in \<open>auto simp: cosign_verify_def\<close>)
  then show ?thesis using run_cosign_raises by blast
qed

lemma extract_verified_digest_nonempty: "extract_verified_digest env out = Some d \<Longrightarrow> d \<noteq> []"
  by (auto simp: extract_verified_digest_def split: sum.splits json.splits list.splits if_splits)

text \<open>
  The client reports an image as signed only if it ran \<open>cosign verify\<close> on exactly that
  reference and the process exited with status zero: under key verification with the
  configured key, which exists on disk; under keyless verification with the configured
  identity and issuer and a non-empty JSON list on its output. With verification disabled
  nothing is ever reported as signed.
\<close>

theorem verified_means_cosign_succeeded:
  assumes "cosign_verify env img config = Inr (True, digest)"
  shows "\<exists>cmd out err.
     run_proc env cmd = Exited 0 out err \<and> img \<in> set cmd \<and> take 2 cmd = [''cosign'', ''verify''] \<and>
     digest = extract_verified_digest env out \<and>
     (case verification_method config of
        Key \<Rightarrow> \<exists>key. public_key config = Some key \<and> path_exists env key \<and>
                 cmd = key_cmd config key img
      | Keyless \<Rightarrow> \<exists>identity issuer entry rest.
                 keyless_identity_regex config = Some identity \<and> keyless_issuer config = Some issuer \<and>
                 cmd = keyless_cmd config identity issuer img \<and>
                 json_loads env out = Inr (JList (entry # rest))
      | Disabled \<Rightarrow> False)"
proof (cases "verification_method config")
  case Key
  with assms obtain key out err where
    "public_key config = Some key" "path_exists env key"
    "run_cosign env (key_cmd config key img) = Inr (True, out, err)"
    "digest = extract_verified_digest env out"
    by (auto simp: cosign_verify_def verify_with_key_def bindR_Inr_iff split: option.splits if_splits)
  with Key show ?thesis
    by (intro exI[of _ "key_cmd config key img"] exI[of _ out] exI[of _ err])
       (simp add: run_cosign_success key_cmd_def)
next
  case Keyless
  with assms obtain identity issuer out err entry rest where
    "keyless_identity_regex config = Some identity" "keyless_issuer config = Some issuer"
    "run_cosign env (keyless_cmd config identity issuer img) = Inr (True, out, err)"
    "json_loads env out = Inr (JList (entry # rest))"
    "digest = extract_verified_digest env out"
    by (auto simp: cosign_verify_def verify_keyless_def bindR_Inr_iff
        split: option.splits if_splits sum.splits json.splits list.splits)
  with Keyless show ?thesis
    by (intro exI[of _ "keyless_cmd config identity issuer img"] exI[of _ out] exI[of _ err])
       (simp add: run_cosign_success keyless_cmd_def)
next
  case Disabled
  with assms show ?thesis by (simp add: cosign_verify_def)
qed

section \<open>An example environment\<close>

definition sample_registry :: registry_config where
  "sample_registry = \<lparr>require_signature = True, verification_method = Key,
     public_key = Some ''/k.pub'', keyless_identity_regex = None, keyless_issuer = None,
     allow_http = False, allow_insecure = False, rekor_url = [], fulcio_url = [],
     registry = ''r.io'', organizations = []\<rparr>"

definition sample_env :: cosign_env where
  "sample_env = \<lparr>run_proc = (\<lambda>_. Exited 0 ''[]'' []), path_exists = (\<lambda>_. True),
     json_loads = (\<lambda>_. Inr (JList []))\<rparr>"

theorem verified_means_cosign_succeeded_witness:
  "\<exists>cmd out err. run_proc sample_env cmd = Exited 0 out err \<and> ''r.io/o/p'' \<in> set cmd"
proof -
  have "cosign_verify sample_env ''r.io/o/p'' (verification_config.truncate sample_registry) = Inr (True, None)"
    by code_simp
  from verified_means_cosign_succeeded[OF this] show ?thesis by blast
qed

end
