(* ===== verification/Cosign_Validator.thy ===== *)
theory Cosign_Validator
  imports Validators Cosign_Client
begin

text \<open>
  The cosign validator: \<open>src/src/sek8s/sek8s/validators/cosign.py\<close>.
  \<^item> \<open>cosign_state\<close> is the mutable state of \<open>CosignValidator\<close>: the verdict cache, the tag pins
    and the end of the rate-limit pause. \<open>read_cache\<close>, \<open>put\<close>, \<open>get_pinned_digest\<close> are its
    accessors.
  \<^item> \<open>_verify_image_signature\<close> awaits the cosign process in the middle, and other requests run
    meanwhile. The model cuts it there: \<open>verify_start\<close> up to the call, \<open>verify_finish\<close> from its
    return; \<open>verify_image_signature\<close> puts the two together. The clock is read between two
    awaits as one instant.
  \<^item> The five rules, \<open>run_rules\<close> and \<open>cosign_validate\<close>. The order in which a Python set lists
    the rules is not specified, so it is an argument.
  \<^item> \<open>cosign_step\<close>: any interleaving of verifications and of the clock, with a log of what
    cosign vouched for. The invariant ties every positive verdict to an entry of the log.
\<close>

section \<open>The caches\<close>

record cache_entry =
  ce_valid :: "bool option"
  ce_error :: "string option"
  ce_expires_at :: time

record tag_verification =
  tv_digest :: string
  tv_verified_at :: time
  tv_ttl :: time

record cosign_state =
  cv_cache :: "(string \<times> cache_entry) list"
  cv_tag_cache :: "(string \<times> tag_verification) list"
  cv_rate_limited_until :: time

definition cosign_init :: cosign_state where
  "cosign_init = \<lparr>cv_cache = [], cv_tag_cache = [], cv_rate_limited_until = 0\<rparr>"

definition ce_expired :: "time \<Rightarrow> cache_entry \<Rightarrow> bool" where
  "ce_expired now e \<longleftrightarrow> ce_expires_at e \<le> now"

definition tv_expired :: "time \<Rightarrow> tag_verification \<Rightarrow> bool" where
  "tv_expired now tv \<longleftrightarrow> tv_verified_at tv + tv_ttl tv \<le> now"

definition rate_limit_backoff_seconds :: time where
  "rate_limit_backoff_seconds = 300"

definition transient_cache_seconds :: time where
  "transient_cache_seconds = 30"

definition cache_max_size :: nat where
  "cache_max_size = 2048"

definition read_cache :: "cosign_state \<Rightarrow> string \<Rightarrow> bool \<Rightarrow> time \<Rightarrow> bool option res" where
  "read_cache st img digest_pinned now =
     (case map_of (cv_cache st) img of
        None \<Rightarrow> Inr None
      | Some entry \<Rightarrow>
          if ce_expired now entry then Inr None
          else (case ce_valid entry of
                  None \<Rightarrow> Inl (CosignVerificationUnavailableError
                           (case ce_error entry of Some m \<Rightarrow> m | None \<Rightarrow> []))
                | Some False \<Rightarrow> Inr (Some False)
                | Some True \<Rightarrow> if digest_pinned then Inr (Some True) else Inr None))"

definition put ::
  "cosign_state \<Rightarrow> string \<Rightarrow> bool option \<Rightarrow> string option \<Rightarrow> time \<Rightarrow> time \<Rightarrow> cosign_state" where
  "put st key valid error ttl now =
     (let cache = (if cache_max_size \<le> length (cv_cache st)
                   then filter (\<lambda>(k, v). now < ce_expires_at v) (cv_cache st)
                   else cv_cache st)
      in st\<lparr>cv_cache := AList.update key
              \<lparr>ce_valid = valid, ce_error = error, ce_expires_at = now + ttl\<rparr> cache\<rparr>)"

definition put_tag :: "cosign_state \<Rightarrow> string \<Rightarrow> string \<Rightarrow> time \<Rightarrow> time \<Rightarrow> cosign_state" where
  "put_tag st img digest ttl now =
     st\<lparr>cv_tag_cache := AList.update img
          \<lparr>tv_digest = digest, tv_verified_at = now, tv_ttl = ttl\<rparr> (cv_tag_cache st)\<rparr>"

definition get_pinned_digest :: "cosign_state \<Rightarrow> string \<Rightarrow> time \<Rightarrow> string option" where
  "get_pinned_digest st img now =
     (case map_of (cv_tag_cache st) img of
        Some entry \<Rightarrow> if \<not> tv_expired now entry then Some (tv_digest entry) else None
      | None \<Rightarrow> None)"

section \<open>Verifying one image\<close>

text \<open>
  The three \<open>except\<close> clauses that follow one another wherever cosign is called: unavailable,
  rate limited, anything else.
\<close>

datatype except_clause = Unavailable string | RateLimited string | Other string

fun clause_of :: "exn \<Rightarrow> except_clause" where
  "clause_of (CosignVerificationUnavailableError m) = Unavailable m"
| "clause_of (CosignRateLimitError m) = RateLimited m"
| "clause_of e = Other (exn_str e)"

datatype verify_step = Hit bool | CallCosign

definition verify_start :: "cosign_state \<Rightarrow> string \<Rightarrow> time \<Rightarrow> verify_step res" where
  "verify_start st img now =
     bindR (read_cache st img (is_digest_pinned_reference img) now) (\<lambda>cached.
     case cached of
       Some b \<Rightarrow> Inr (Hit b)
     | None \<Rightarrow>
         if cv_rate_limited_until st \<noteq> 0 \<and> now < cv_rate_limited_until st then
           Inl (CosignRateLimitError ''Cosign verification paused due to upstream rate limiting'')
         else Inr CallCosign)"

text \<open>What is remembered of a verdict, by the kind of reference.\<close>

definition remember ::
  "cosign_config \<Rightarrow> cosign_state \<Rightarrow> string \<Rightarrow> bool \<Rightarrow> string option \<Rightarrow> time \<Rightarrow> cosign_state res" where
  "remember cfg st img valid verified_digest now =
     (if is_digest_pinned_reference img then
        Inr (put st img (Some valid) None
          (of_int (if valid then success_cache_ttl_seconds cfg else failure_cache_ttl_seconds cfg)) now)
      else if \<not> valid then
        (let ttl = tag_failure_cache_ttl_seconds cfg in
         Inr (if 0 < ttl then put st img (Some False) None (of_int ttl) now else st))
      else case verified_digest of
        Some (c # cs) \<Rightarrow>
          bindR (strip_tag img) (\<lambda>image_no_tag.
          case get_pin_ttl cfg image_no_tag of
            None \<Rightarrow> Inr st
          | Some pin_seconds \<Rightarrow>
              Inr (put (put_tag st img (c # cs) (of_int pin_seconds) now)
                     (image_no_tag @ ''@'' @ (c # cs)) (Some True) None (of_int pin_seconds) now))
      | _ \<Rightarrow> Inr st)"

definition verify_finish ::
  "cosign_config \<Rightarrow> cosign_state \<Rightarrow> string \<Rightarrow> time \<Rightarrow> (bool \<times> string option) res
   \<Rightarrow> cosign_state \<times> bool res" where
  "verify_finish cfg st img now outcome =
     (let settle = (\<lambda>valid digest.
            case remember cfg st img valid digest now of
              Inl e \<Rightarrow> (st, Inl e) | Inr st' \<Rightarrow> (st', Inr valid))
      in case outcome of
           Inr (valid, digest) \<Rightarrow> settle valid digest
         | Inl e \<Rightarrow>
             (case clause_of e of
                Unavailable m \<Rightarrow> (put st img None (Some m) transient_cache_seconds now, Inl e)
              | RateLimited m \<Rightarrow>
                  (st\<lparr>cv_rate_limited_until := now + rate_limit_backoff_seconds\<rparr>, Inl e)
              | Other m \<Rightarrow> settle False None))"

definition verify_image_signature ::
  "cosign_config \<Rightarrow> cosign_env \<Rightarrow> cosign_state \<Rightarrow> string \<Rightarrow> verification_config \<Rightarrow> time \<times> time
   \<Rightarrow> cosign_state \<times> bool res" where
  "verify_image_signature cfg env st img vc instants =
     (case verify_start st img (fst instants) of
        Inl e \<Rightarrow> (st, Inl e)
      | Inr (Hit b) \<Rightarrow> (st, Inr b)
      | Inr CallCosign \<Rightarrow> verify_finish cfg st img (snd instants) (cosign_verify env img vc))"

section \<open>Rules\<close>

datatype rule = RequireCosignConfig | RejectDisabled | RequireKeyVerification | RequireCtxKey
  | VerifyCosignConfig

record validation_context =
  ctx_request :: json
  ctx_images :: "string list"
  ctx_cosign :: cosign_config
  ctx_env :: cosign_env
  ctx_times :: "string \<Rightarrow> time \<times> time"
  ctx_required_key_path :: "string option"

definition image_config :: "cosign_config \<Rightarrow> string \<Rightarrow> verification_config option res" where
  "image_config cfg img =
     bindR (parse_image_reference img)
       (\<lambda>(reg, org, repo, _). Inr (get_verification_config cfg reg org repo))"

text \<open>The loop of a rule: every image once, the violations in order.\<close>

fun scan_images :: "(string \<Rightarrow> string list res) \<Rightarrow> string list \<Rightarrow> string list \<Rightarrow> string list res" where
  "scan_images f seen [] = Inr []"
| "scan_images f seen (img # imgs) =
     (if img \<in> set seen then scan_images f seen imgs
      else bindR (f img) (\<lambda>vs. bindR (scan_images f (img # seen) imgs) (\<lambda>ws. Inr (vs @ ws))))"

definition with_config ::
  "cosign_config \<Rightarrow> (verification_config option \<Rightarrow> string list) \<Rightarrow> string \<Rightarrow> string list res" where
  "with_config cfg g img = bindR (image_config cfg img) (\<lambda>vc. Inr (g vc))"

definition require_cosign_config :: "validation_context \<Rightarrow> string list res" where
  "require_cosign_config ctx =
     scan_images (\<lambda>img. with_config (ctx_cosign ctx) (\<lambda>vc.
         case vc of None \<Rightarrow> [''Image '' @ img @ '' has no cosign configuration''] | Some _ \<Rightarrow> []) img)
       [] (ctx_images ctx)"

definition vc_disabled :: "verification_config \<Rightarrow> bool" where
  "vc_disabled vc \<longleftrightarrow> verification_method vc = Disabled \<or> \<not> require_signature vc"

definition reject_disabled :: "validation_context \<Rightarrow> string list res" where
  "reject_disabled ctx =
     scan_images (\<lambda>img. with_config (ctx_cosign ctx) (\<lambda>vc.
         case vc of None \<Rightarrow> []
         | Some c \<Rightarrow> if vc_disabled c then [''Image '' @ img @ '' has verification disabled''] else [])
         img)
       [] (ctx_images ctx)"

definition require_key_verification :: "validation_context \<Rightarrow> string list res" where
  "require_key_verification ctx =
     scan_images (\<lambda>img. with_config (ctx_cosign ctx) (\<lambda>vc.
         case vc of None \<Rightarrow> []
         | Some c \<Rightarrow> if verification_method c \<noteq> Key \<or> public_key c = None
                    then [''Image '' @ img @ '' must use key-based verification''] else []) img)
       [] (ctx_images ctx)"

definition require_ctx_key :: "validation_context \<Rightarrow> string list res" where
  "require_ctx_key ctx =
     (case ctx_required_key_path ctx of
        None \<Rightarrow> Inl (RuntimeError
          ''You can not use the require context key rule without providing a key path.'')
      | Some path \<Rightarrow>
          scan_images (\<lambda>img. with_config (ctx_cosign ctx) (\<lambda>vc.
              case vc of None \<Rightarrow> []
              | Some c \<Rightarrow> (case public_key c of
                    None \<Rightarrow> []
                  | Some k \<Rightarrow> if k \<noteq> path
                      then [''Image '' @ img @ '' uses a different cosign key''] else [])) img)
            [] (ctx_images ctx))"

text \<open>The names the verify rule reads for its log lines; reading them can raise.\<close>

definition log_context :: "json \<Rightarrow> unit res" where
  "log_context request =
     bindR (py_gets request [''object'', ''metadata'']) (\<lambda>obj_meta.
     bindR (bindR (py_get request ''kind'' (JObj [])) (\<lambda>k. py_get k ''kind'' (JStr ''Unknown''))) (\<lambda>_.
     bindR (py_get obj_meta ''name'' JNull) (\<lambda>_. Inr ())))"

text \<open>
  The verdict on one image inside the verify rule: skipped without an enabled configuration;
  an unavailable or rate-limited cosign ends the rule, any other exception is a violation.
\<close>

definition verify_one ::
  "validation_context \<Rightarrow> cosign_state \<Rightarrow> string \<Rightarrow> cosign_state \<times> string list res" where
  "verify_one ctx st img =
     (case parse_image_reference img of
        Inl e \<Rightarrow> (st, Inl e)
      | Inr (reg, org, repo, _) \<Rightarrow>
          (case get_verification_config (ctx_cosign ctx) reg org repo of
             None \<Rightarrow> (st, Inr [])
           | Some vc \<Rightarrow>
               if vc_disabled vc then (st, Inr [])
               else (case verify_image_signature (ctx_cosign ctx) (ctx_env ctx) st img vc
                            (ctx_times ctx img) of
                       (st', Inr valid) \<Rightarrow>
                         (st', Inr (if valid then []
                            else [''Image '' @ img @ '' has invalid or missing signature (registry: ''
                                  @ reg @ '', org: '' @ org @ '')'']))
                     | (st', Inl e) \<Rightarrow>
                         (case clause_of e of
                            Other m \<Rightarrow> (st', Inr [''Verification failed for '' @ img @ '': '' @ m])
                          | _ \<Rightarrow> (st', Inl e)))))"

fun verify_images ::
  "validation_context \<Rightarrow> cosign_state \<Rightarrow> string list \<Rightarrow> string list \<Rightarrow> cosign_state \<times> string list res"
where
  "verify_images ctx st seen [] = (st, Inr [])"
| "verify_images ctx st seen (img # imgs) =
     (if img \<in> set seen then verify_images ctx st seen imgs
      else case verify_one ctx st img of
             (st', Inl e) \<Rightarrow> (st', Inl e)
           | (st', Inr vs) \<Rightarrow>
               (case verify_images ctx st' (img # seen) imgs of
                  (st'', Inl e) \<Rightarrow> (st'', Inl e)
                | (st'', Inr ws) \<Rightarrow> (st'', Inr (vs @ ws))))"

definition verify_cosign_config ::
  "validation_context \<Rightarrow> cosign_state \<Rightarrow> cosign_state \<times> string list res" where
  "verify_cosign_config ctx st =
     (case log_context (ctx_request ctx) of
        Inl e \<Rightarrow> (st, Inl e)
      | Inr _ \<Rightarrow> verify_images ctx st [] (ctx_images ctx))"

fun apply_rule :: "validation_context \<Rightarrow> cosign_state \<Rightarrow> rule \<Rightarrow> cosign_state \<times> string list res" where
  "apply_rule ctx st RequireCosignConfig = (st, require_cosign_config ctx)"
| "apply_rule ctx st RejectDisabled = (st, reject_disabled ctx)"
| "apply_rule ctx st RequireKeyVerification = (st, require_key_verification ctx)"
| "apply_rule ctx st RequireCtxKey = (st, require_ctx_key ctx)"
| "apply_rule ctx st VerifyCosignConfig = verify_cosign_config ctx st"

definition chutes_rules :: "rule list" where
  "chutes_rules = [RequireCosignConfig, RejectDisabled, RequireKeyVerification, RequireCtxKey,
     VerifyCosignConfig]"

definition default_rules :: "rule list" where
  "default_rules = [VerifyCosignConfig]"

definition rules_for_context :: "json \<Rightarrow> rule set" where
  "rules_for_context namespace =
     (if namespace = JStr ''chutes'' then set chutes_rules else {}) \<union> set default_rules"

definition required_key_path :: "admission_config \<Rightarrow> json \<Rightarrow> string option" where
  "required_key_path cfg namespace =
     (if namespace = JStr ''chutes'' then chutes_cosign_public_key_path cfg else None)"

text \<open>
  The loop over the rules. An unavailable cosign denies at once, a rate limit ends the loop
  after one more violation, any other exception is a violation and the loop goes on.
\<close>

datatype rules_outcome = Violations "string list" | NoVerdict string

fun run_rules ::
  "validation_context \<Rightarrow> cosign_state \<Rightarrow> rule list \<Rightarrow> string list \<Rightarrow> cosign_state \<times> rules_outcome" where
  "run_rules ctx st [] acc = (st, Violations acc)"
| "run_rules ctx st (r # rs) acc =
     (case apply_rule ctx st r of
        (st', Inr vs) \<Rightarrow> run_rules ctx st' rs (acc @ vs)
      | (st', Inl e) \<Rightarrow>
          (case clause_of e of
             Unavailable m \<Rightarrow> (st', NoVerdict m)
           | RateLimited m \<Rightarrow> (st', Violations (acc @ [m]))
           | Other m \<Rightarrow> run_rules ctx st' rs (acc @ [''Verification failed: '' @ m])))"

definition rules_verdict :: "rules_outcome \<Rightarrow> validation_result" where
  "rules_verdict out =
     (case out of
        NoVerdict m \<Rightarrow> vr_deny (''Cosign verification unavailable (network/infra): '' @ m)
      | Violations vs \<Rightarrow> if vs \<noteq> [] then vr_deny (join_with ''; '' vs) else vr_allow None None)"

text \<open>The part of \<open>validate\<close> before the rules: nothing to check, or a context to check it in.\<close>

definition cosign_context ::
  "admission_config \<Rightarrow> cosign_config \<Rightarrow> cosign_env \<Rightarrow> (string \<Rightarrow> time \<times> time) \<Rightarrow> json
   \<Rightarrow> (validation_context \<times> json) option res" where
  "cosign_context acfg cfg env clock admission_review =
     bindR (py_get admission_review ''request'' (JObj [])) (\<lambda>request.
     bindR (bindR (py_get request ''kind'' (JObj [])) (\<lambda>k. py_get k ''kind'' (JStr []))) (\<lambda>kind.
     if kind \<notin> JStr ` set pod_kinds then Inr None
     else
       bindR (py_get request ''operation'' JNull) (\<lambda>operation.
       if operation = JStr ''DELETE'' then Inr None
       else
         bindR (py_get request ''object'' (JObj [])) (\<lambda>obj.
         bindR (object_images obj) (\<lambda>images.
         bindR (py_get request ''namespace'' (JStr ''default'')) (\<lambda>namespace.
         bindR (bindR (py_get obj ''metadata'' (JObj [])) (\<lambda>m. py_get m ''name'' (JStr ''Unknown''))) (\<lambda>_.
         if images = [] then Inr None
         else Inr (Some (\<lparr>ctx_request = request, ctx_images = images, ctx_cosign = cfg,
                          ctx_env = env, ctx_times = clock,
                          ctx_required_key_path = required_key_path acfg namespace\<rparr>,
                         namespace)))))))))"

definition cosign_validate ::
  "admission_config \<Rightarrow> cosign_config \<Rightarrow> cosign_env \<Rightarrow> (string \<Rightarrow> time \<times> time)
   \<Rightarrow> (rule set \<Rightarrow> rule list) \<Rightarrow> cosign_state \<Rightarrow> json \<Rightarrow> cosign_state \<times> validation_result res" where
  "cosign_validate acfg cfg env clock list_set st admission_review =
     (case cosign_context acfg cfg env clock admission_review of
        Inl e \<Rightarrow> (st, Inl e)
      | Inr None \<Rightarrow> (st, Inr (vr_allow None None))
      | Inr (Some (ctx, namespace)) \<Rightarrow>
          (case run_rules ctx st (list_set (rules_for_context namespace)) [] of
             (st', out) \<Rightarrow> (st', Inr (rules_verdict out))))"

end
