(* ===== verification/Cosign_Safety.thy ===== *)
theory Cosign_Safety
  imports Cosign_Validator
begin

text \<open>
  What the cosign validator guarantees.
  \<^item> \<open>ttl_store\<close>: the contract of an in-memory store whose entries expire, with what a history of
    stores leaves behind; interpreted on the verdict cache and on the tag pins.
  \<^item> \<open>cosign_step\<close>: the verifications of concurrent requests, interleaved at the one point where
    \<open>_verify_image_signature\<close> gives up control, with a log of the signatures cosign confirmed;
    by rule induction every positive cache entry goes back to a line of the log that is younger
    than its time to live.
  \<^item> Which requests \<open>cosign_validate\<close> admits, whatever the order in which the rule set is listed.
\<close>

section \<open>Stores whose entries expire\<close>

text \<open>
  \<open>live s k t\<close> is what the store answers for a key at an instant, \<open>store s k v ttl now\<close> the
  store after an insertion. Instants do not go backwards.
\<close>

locale ttl_store =
  fixes live :: "'s \<Rightarrow> string \<Rightarrow> time \<Rightarrow> 'v option"
    and store :: "'s \<Rightarrow> string \<Rightarrow> 'v \<Rightarrow> time \<Rightarrow> time \<Rightarrow> 's"
    and wf :: "'s \<Rightarrow> bool"
  assumes wf_store: "wf s \<Longrightarrow> wf (store s k v ttl now)"
    and live_store_same: "wf s \<Longrightarrow> live (store s k v ttl now) k t = (if t < now + ttl then Some v else None)"
    and live_store_other: "wf s \<Longrightarrow> now \<le> t \<Longrightarrow> k' \<noteq> k \<Longrightarrow> live (store s k v ttl now) k' t = live s k' t"
begin

primrec replay :: "'s \<Rightarrow> (string \<times> 'v \<times> time \<times> time) list \<Rightarrow> 's" where
  "replay s [] = s"
| "replay s (e # es) = (case e of (k, v, ttl, now) \<Rightarrow> store (replay s es) k v ttl now)"

text \<open>The youngest insertion comes first in a history.\<close>

lemma wf_replay: "wf s \<Longrightarrow> wf (replay s es)"
  by (induction es) (auto simp: wf_store split: prod.split)

lemma live_replay_absent:
  assumes "wf s" and "\<forall>(k', v, ttl, now) \<in> set es. k' \<noteq> k \<and> now \<le> t"
  shows "live (replay s es) k t = live s k t"
  using assms(2)
  by (induction es) (auto simp: live_store_other wf_replay[OF assms(1)] split: prod.splits)

lemma live_replay_latest:
  assumes "wf s" and "\<forall>(k', v', ttl', now') \<in> set newer. k' \<noteq> k \<and> now' \<le> t"
  shows "live (replay s (newer @ (k, v, ttl, now) # older)) k t = (if t < now + ttl then Some v else None)"
proof -
  have "replay s (newer @ es) = replay (replay s es) newer" for es
    by (induction newer) (auto split: prod.split)
  then show ?thesis
    using live_replay_absent[OF wf_store[OF wf_replay[OF assms(1)]] assms(2)] live_store_same[OF wf_replay[OF assms(1)]]
    by simp
qed

end

definition cache_wf :: "cosign_state \<Rightarrow> bool" where
  "cache_wf st \<longleftrightarrow> distinct (map fst (cv_cache st)) \<and> distinct (map fst (cv_tag_cache st))"

text \<open>The unexpired verdict for a reference: valid or not or unavailable, with the error text.\<close>

definition live_verdict :: "cosign_state \<Rightarrow> string \<Rightarrow> time \<Rightarrow> (bool option \<times> string option) option" where
  "live_verdict st k t =
     (case map_of (cv_cache st) k of
        Some e \<Rightarrow> if ce_expired t e then None else Some (ce_valid e, ce_error e)
      | None \<Rightarrow> None)"

lemma read_cache_live:
  "read_cache st img pinned t =
     (case live_verdict st img t of
        None \<Rightarrow> Inr None
      | Some (None, err) \<Rightarrow> Inl (CosignVerificationUnavailableError (case err of Some m \<Rightarrow> m | None \<Rightarrow> []))
      | Some (Some False, _) \<Rightarrow> Inr (Some False)
      | Some (Some True, _) \<Rightarrow> if pinned then Inr (Some True) else Inr None)"
  by (auto simp: read_cache_def live_verdict_def split: option.splits bool.splits)

lemma cache_wf_put: "cache_wf st \<Longrightarrow> cache_wf (put st k v e ttl now)"
  by (simp add: cache_wf_def put_def Let_def distinct_update distinct_filter_fst)

lemma cache_wf_put_tag: "cache_wf st \<Longrightarrow> cache_wf (put_tag st k d ttl now)"
  by (simp add: cache_wf_def put_tag_def distinct_update)

lemma live_put_same:
  "live_verdict (put st k v e ttl now) k t = (if t < now + ttl then Some (v, e) else None)"
  by (simp add: live_verdict_def put_def Let_def update_conv' ce_expired_def not_le)

lemma live_put_other:
  assumes "cache_wf st" "now \<le> t" "k' \<noteq> k"
  shows "live_verdict (put st k v e ttl now) k' t = live_verdict st k' t"
  using assms
  by (auto simp: live_verdict_def put_def Let_def update_conv' ce_expired_def cache_wf_def
      map_of_filter_snd split: option.split)

interpretation verdicts: ttl_store live_verdict
  "\<lambda>st k (v, e) ttl now. put st k v e ttl now" cache_wf
  by unfold_locales (auto simp: cache_wf_put live_put_same live_put_other split: prod.split)

lemma pinned_put_tag_same:
  "get_pinned_digest (put_tag st k d ttl now) k t = (if t < now + ttl then Some d else None)"
  by (simp add: get_pinned_digest_def put_tag_def update_conv' tv_expired_def not_le)

lemma pinned_put_tag_other:
  "k' \<noteq> k \<Longrightarrow> get_pinned_digest (put_tag st k d ttl now) k' t = get_pinned_digest st k' t"
  by (simp add: get_pinned_digest_def put_tag_def update_conv')

interpretation tag_pins: ttl_store get_pinned_digest put_tag cache_wf
  by unfold_locales (auto simp: cache_wf_put_tag pinned_put_tag_same pinned_put_tag_other)

lemma pinned_put [simp]: "get_pinned_digest (put st k v e ttl now) = get_pinned_digest st"
  by (simp add: get_pinned_digest_def put_def Let_def fun_eq_iff)

lemma live_put_tag [simp]: "live_verdict (put_tag st k d ttl now) = live_verdict st"
  by (simp add: live_verdict_def put_tag_def fun_eq_iff)

section \<open>Interleaved verifications\<close>

text \<open>
  A world is the validator's state, the clock, the verifications that wait for their cosign
  process, and the log of the confirmed signatures: the reference cosign was run on, the digest
  it reported, the instant. The log is not part of the program.
\<close>

record world =
  w_st :: cosign_state
  w_now :: time
  w_pending :: "string list"
  w_log :: "(string \<times> string option \<times> time) list"

definition world_init :: "time \<Rightarrow> world" where
  "world_init t = \<lparr>w_st = cosign_init, w_now = t, w_pending = [], w_log = []\<rparr>"

inductive cosign_step :: "cosign_config \<Rightarrow> world \<Rightarrow> world \<Rightarrow> bool" for cfg where
  Tick: "0 \<le> d \<Longrightarrow> cosign_step cfg w (w\<lparr>w_now := w_now w + d\<rparr>)"
| Start: "verify_start (w_st w) img (w_now w) = Inr CallCosign \<Longrightarrow>
    cosign_step cfg w (w\<lparr>w_pending := img # w_pending w\<rparr>)"
| Finish: "img \<in> set (w_pending w) \<Longrightarrow>
    cosign_step cfg w
      (w\<lparr>w_pending := remove1 img (w_pending w),
         w_log := (case outcome of
                     Inr (True, d) \<Rightarrow> (img, d, w_now w) # w_log w | _ \<Rightarrow> w_log w),
         w_st := fst (verify_finish cfg (w_st w) img (w_now w) outcome)\<rparr>)"

inductive_cases cosign_stepE: "cosign_step cfg w w'"

inductive cosign_reachable :: "cosign_config \<Rightarrow> world \<Rightarrow> bool" for cfg where
  Init: "cosign_reachable cfg (world_init t)"
| Step: "cosign_reachable cfg w \<Longrightarrow> cosign_step cfg w w' \<Longrightarrow> cosign_reachable cfg w'"

text \<open>
  The line of the log that a tag pin, or a positive verdict, goes back to; the last argument is
  the instant at which it expires.
\<close>

definition pin_source ::
  "cosign_config \<Rightarrow> (string \<times> string option \<times> time) list \<Rightarrow> time \<Rightarrow> string \<Rightarrow> string \<Rightarrow> time \<Rightarrow> bool" where
  "pin_source cfg lg now img d until \<longleftrightarrow>
     (\<exists>t name ttl. (img, Some d, t) \<in> set lg \<and> t \<le> now \<and> \<not> is_digest_pinned_reference img \<and>
        strip_tag img = Inr name \<and> get_pin_ttl cfg name = Some ttl \<and> until = t + of_int ttl)"

definition verdict_source ::
  "cosign_config \<Rightarrow> (string \<times> string option \<times> time) list \<Rightarrow> time \<Rightarrow> string \<Rightarrow> time \<Rightarrow> bool" where
  "verdict_source cfg lg now ref until \<longleftrightarrow>
     (\<exists>d t. (ref, d, t) \<in> set lg \<and> t \<le> now \<and> is_digest_pinned_reference ref \<and>
        until = t + of_int (success_cache_ttl_seconds cfg)) \<or>
     (\<exists>img d name. pin_source cfg lg now img d until \<and> strip_tag img = Inr name \<and>
        ref = name @ ''@'' @ d)"

definition caches_justified :: "cosign_config \<Rightarrow> world \<Rightarrow> bool" where
  "caches_justified cfg w \<longleftrightarrow>
     cache_wf (w_st w) \<and>
     (\<forall>(k, e) \<in> set (cv_cache (w_st w)). ce_valid e = Some True \<longrightarrow>
        verdict_source cfg (w_log w) (w_now w) k (ce_expires_at e)) \<and>
     (\<forall>(k, tv) \<in> set (cv_tag_cache (w_st w)).
        pin_source cfg (w_log w) (w_now w) k (tv_digest tv) (tv_verified_at tv + tv_ttl tv))"

lemma pin_source_mono:
  "pin_source cfg lg now img d until \<Longrightarrow> set lg \<subseteq> set lg' \<Longrightarrow> now \<le> now' \<Longrightarrow>
   pin_source cfg lg' now' img d until"
  unfolding pin_source_def by (blast intro: order_trans)

lemma verdict_source_mono:
  "verdict_source cfg lg now r until \<Longrightarrow> set lg \<subseteq> set lg' \<Longrightarrow> now \<le> now' \<Longrightarrow>
   verdict_source cfg lg' now' r until"
  unfolding verdict_source_def by (blast intro: order_trans pin_source_mono)

lemma caches_justified_mono:
  assumes "caches_justified cfg w" "set (w_log w) \<subseteq> set (w_log w')" "w_now w \<le> w_now w'"
    and "w_st w' = w_st w"
  shows "caches_justified cfg w'"
  using assms verdict_source_mono[OF _ assms(2,3)] pin_source_mono[OF _ assms(2,3)]
  unfolding caches_justified_def by fastforce

lemma cv_cache_put:
  "set (cv_cache (put st k v e ttl now)) \<subseteq>
     insert (k, \<lparr>ce_valid = v, ce_error = e, ce_expires_at = now + ttl\<rparr>) (set (cv_cache st))"
proof -
  have "set (AList.update k e' (if b then filter P kvs else kvs)) \<subseteq> insert (k, e') (set kvs)"
    for b P and e' :: cache_entry and kvs
    using set_update_subset[of k e' "if b then filter P kvs else kvs"] by (auto split: if_splits)
  then show ?thesis by (simp add: put_def Let_def)
qed

lemma cv_tag_cache_put [simp]: "cv_tag_cache (put st k v e ttl now) = cv_tag_cache st"
  by (simp add: put_def Let_def)

lemma caches_justified_put:
  assumes "caches_justified cfg w"
    and "v = Some True \<Longrightarrow> verdict_source cfg (w_log w) (w_now w) k (now + ttl)"
  shows "caches_justified cfg (w\<lparr>w_st := put (w_st w) k v e ttl now\<rparr>)"
  using assms cv_cache_put[of "w_st w" k v e ttl now]
  by (fastforce simp: caches_justified_def cache_wf_put)

lemma caches_justified_put_tag:
  assumes "caches_justified cfg w" and "pin_source cfg (w_log w) (w_now w) k d (now + ttl)"
  shows "caches_justified cfg (w\<lparr>w_st := put_tag (w_st w) k d ttl now\<rparr>)"
proof -
  let ?tv = "\<lparr>tv_digest = d, tv_verified_at = now, tv_ttl = ttl\<rparr>"
  have "set (cv_tag_cache (put_tag (w_st w) k d ttl now)) \<subseteq> insert (k, ?tv) (set (cv_tag_cache (w_st w)))"
    using set_update_subset[of k ?tv] by (simp add: put_tag_def)
  moreover have "cv_cache (put_tag (w_st w) k d ttl now) = cv_cache (w_st w)"
    by (simp add: put_tag_def)
  ultimately show ?thesis
    using assms by (fastforce simp: caches_justified_def cache_wf_put_tag)
qed

lemma caches_justified_remember:
  assumes inv: "caches_justified cfg w"
    and logged: "valid \<Longrightarrow> (img, d, w_now w) \<in> set (w_log w)"
    and run: "remember cfg (w_st w) img valid d (w_now w) = Inr st'"
  shows "caches_justified cfg (w\<lparr>w_st := st'\<rparr>)"
proof (cases "is_digest_pinned_reference img")
  case True
  with logged have "valid \<Longrightarrow> verdict_source cfg (w_log w) (w_now w) img
      (w_now w + of_int (success_cache_ttl_seconds cfg))"
    by (auto simp: verdict_source_def)
  with run True inv show ?thesis
    by (auto simp: remember_def intro!: caches_justified_put)
next
  case tag: False
  show ?thesis
  proof (cases "st' = w_st w \<or> \<not> valid")
    case True
    with run tag inv show ?thesis
      by (auto simp: remember_def Let_def intro!: caches_justified_put split: if_splits)
  next
    case False
    with run tag obtain dg name ttl where d: "d = Some dg" "strip_tag img = Inr name"
        "get_pin_ttl cfg name = Some ttl"
        "st' = put (put_tag (w_st w) img dg (of_int ttl) (w_now w)) (name @ ''@'' @ dg) (Some True)
                 None (of_int ttl) (w_now w)"
      by (auto simp: remember_def bindR_Inr_iff split: option.splits list.splits)
    then have src: "pin_source cfg (w_log w) (w_now w) img dg (w_now w + of_int ttl)"
      using logged False tag by (auto simp: pin_source_def)
    then have vs: "verdict_source cfg (w_log w) (w_now w) (name @ ''@'' @ dg) (w_now w + of_int ttl)"
      using d(2) unfolding verdict_source_def by blast
    let ?w = "w\<lparr>w_st := put_tag (w_st w) img dg (of_int ttl) (w_now w)\<rparr>"
    have "caches_justified cfg ?w" using inv src by (rule caches_justified_put_tag)
    then have "caches_justified cfg (?w\<lparr>w_st := put (w_st ?w) (name @ ''@'' @ dg) (Some True)
                 None (of_int ttl) (w_now w)\<rparr>)"
      by (rule caches_justified_put) (use vs in simp)
    with d(4) show ?thesis by simp
  qed
qed


lemma caches_justified_finish:
  assumes inv: "caches_justified cfg w"
    and logged: "\<And>d. outcome = Inr (True, d) \<Longrightarrow> (img, d, w_now w) \<in> set (w_log w)"
  shows "caches_justified cfg (w\<lparr>w_st := fst (verify_finish cfg (w_st w) img (w_now w) outcome)\<rparr>)"
proof -
  have settle: "caches_justified cfg (w\<lparr>w_st := fst (case remember cfg (w_st w) img valid d (w_now w) of
        Inl e \<Rightarrow> (w_st w, Inl e) | Inr st' \<Rightarrow> (st', Inr valid :: bool res))\<rparr>)"
    if "valid \<Longrightarrow> (img, d, w_now w) \<in> set (w_log w)" for valid d
    using caches_justified_remember[OF inv that] inv
    by (cases "remember cfg (w_st w) img valid d (w_now w)") auto
  show ?thesis
  proof (cases outcome)
    case (Inl e)
    have "caches_justified cfg (w\<lparr>w_st := (w_st w)\<lparr>cv_rate_limited_until := t\<rparr>\<rparr>)" for t
      using inv by (simp add: caches_justified_def cache_wf_def)
    moreover have "caches_justified cfg (w\<lparr>w_st := put (w_st w) img None err ttl now\<rparr>)" for err ttl now
      using inv by (rule caches_justified_put) simp
    ultimately show ?thesis
      using Inl settle[of False None] by (auto simp: verify_finish_def Let_def split: except_clause.split)
  next
    case (Inr r)
    then obtain valid d where "outcome = Inr (valid, d)" by (cases r) auto
    with settle[of valid d] logged[of d] show ?thesis
      by (simp add: verify_finish_def Let_def)
  qed
qed

lemma caches_justified_step:
  assumes "cosign_step cfg w w'" "caches_justified cfg w"
  shows "caches_justified cfg w'"
  using assms(1)
proof cases
  case (Finish img outcome)
  let ?lg = "case outcome of Inr (True, d) \<Rightarrow> (img, d, w_now w) # w_log w | _ \<Rightarrow> w_log w"
  let ?w = "w\<lparr>w_pending := remove1 img (w_pending w), w_log := ?lg\<rparr>"
  have "caches_justified cfg ?w"
    using assms(2) by (rule caches_justified_mono) (auto split: sum.split bool.split)
  then have "caches_justified cfg (?w\<lparr>w_st := fst (verify_finish cfg (w_st ?w) img (w_now ?w) outcome)\<rparr>)"
    by (rule caches_justified_finish) simp
  with Finish show ?thesis by simp
qed (auto intro: caches_justified_mono[OF assms(2)])

lemma caches_justified_reachable: "cosign_reachable cfg w \<Longrightarrow> caches_justified cfg w"
proof (induction rule: cosign_reachable.induct)
  case (Init t)
  show ?case by (simp add: caches_justified_def world_init_def cosign_init_def cache_wf_def)
next
  case (Step w w')
  then show ?case using caches_justified_step by blast
qed

lemma verify_start_hit:
  "verify_start st img t = Inr (Hit True) \<longleftrightarrow>
     is_digest_pinned_reference img \<and>
     (\<exists>e. map_of (cv_cache st) img = Some e \<and> ce_valid e = Some True \<and> t < ce_expires_at e)"
  by (auto simp: verify_start_def read_cache_def ce_expired_def not_le bindR_Inr_iff
      split: option.splits bool.splits if_splits)

text \<open>
  C2: whatever verifications run concurrently and however they interleave, an image is admitted
  from the cache only if it is pinned by digest and cosign confirmed, less than the configured
  time to live ago, either this very reference or a whitelisted tag of the same repository with
  this digest. A tag is never admitted from the cache.
\<close>

theorem cache_hits_are_justified:
  assumes "cosign_reachable cfg w"
    and "verify_start (w_st w) img (w_now w) = Inr (Hit True)"
  shows "is_digest_pinned_reference img \<and>
    ((\<exists>d t. (img, d, t) \<in> set (w_log w) \<and> t \<le> w_now w \<and>
        w_now w < t + of_int (success_cache_ttl_seconds cfg)) \<or>
     (\<exists>tagged d t name ttl. (tagged, Some d, t) \<in> set (w_log w) \<and> t \<le> w_now w \<and>
        \<not> is_digest_pinned_reference tagged \<and> strip_tag tagged = Inr name \<and>
        img = name @ ''@'' @ d \<and> get_pin_ttl cfg name = Some ttl \<and> w_now w < t + of_int ttl))"
proof -
  obtain e where e: "map_of (cv_cache (w_st w)) img = Some e" "ce_valid e = Some True"
      "w_now w < ce_expires_at e" and pinned: "is_digest_pinned_reference img"
    using assms(2) by (auto simp: verify_start_hit)
  have "verdict_source cfg (w_log w) (w_now w) img (ce_expires_at e)"
    using caches_justified_reachable[OF assms(1)] map_of_SomeD[OF e(1)] e(2)
    by (fastforce simp: caches_justified_def)
  with e(3) pinned show ?thesis
    unfolding verdict_source_def pin_source_def by fastforce
qed

text \<open>
  C3: the digest the mutating webhook writes into a pod is one that cosign reported for exactly
  that reference, which is a tag of a whitelisted image, less than the whitelist entry's time to
  live ago, under every interleaving.
\<close>

theorem pinned_digests_were_verified:
  assumes "cosign_reachable cfg w" and "get_pinned_digest (w_st w) img (w_now w) = Some d"
  shows "\<exists>t name ttl. (img, Some d, t) \<in> set (w_log w) \<and> t \<le> w_now w \<and>
     \<not> is_digest_pinned_reference img \<and> strip_tag img = Inr name \<and>
     get_pin_ttl cfg name = Some ttl \<and> w_now w < t + of_int ttl"
proof -
  obtain tv where tv: "map_of (cv_tag_cache (w_st w)) img = Some tv" "tv_digest tv = d"
      "w_now w < tv_verified_at tv + tv_ttl tv"
    using assms(2) by (auto simp: get_pinned_digest_def tv_expired_def split: option.splits if_splits)
  have "pin_source cfg (w_log w) (w_now w) img d (tv_verified_at tv + tv_ttl tv)"
    using caches_justified_reachable[OF assms(1)] map_of_SomeD[OF tv(1)] tv(2)
    by (fastforce simp: caches_justified_def)
  with tv(3) show ?thesis unfolding pin_source_def by fastforce
qed

section \<open>Which requests are admitted\<close>

lemma apply_rule_state: "r \<noteq> VerifyCosignConfig \<Longrightarrow> apply_rule ctx st r = (st, snd (apply_rule ctx st' r))"
  by (cases r) auto

lemma run_rules_allowed:
  "distinct rs \<Longrightarrow>
   allowed (rules_verdict (snd (run_rules ctx st rs acc))) \<longleftrightarrow>
     acc = [] \<and> (\<forall>r \<in> set rs. snd (apply_rule ctx st r) = Inr [])"
proof (induction rs arbitrary: st acc)
  case Nil
  then show ?case by (simp add: rules_verdict_def)
next
  case (Cons r rs)
  obtain st' out where run: "apply_rule ctx st r = (st', out)" by fastforce
  have same: "snd (apply_rule ctx st' q) = snd (apply_rule ctx st q)" if "q \<in> set rs" for q
  proof (cases "q = VerifyCosignConfig")
    case True
    with that Cons.prems have "r \<noteq> VerifyCosignConfig" by auto
    with run show ?thesis using apply_rule_state[of r ctx st st] by simp
  next
    case False
    then show ?thesis using apply_rule_state[of q ctx] by (metis snd_conv)
  qed
  have no: "\<not> allowed (rules_verdict (NoVerdict m))" "\<not> allowed (rules_verdict (Violations (vs @ [m])))"
    for m vs by (simp_all add: rules_verdict_def)
  show ?case
    using Cons run same no by (auto split: sum.split except_clause.split)
qed

text \<open>
  A listing of a set of rules: every rule once, in some order.
\<close>

definition lists_set :: "('a set \<Rightarrow> 'a list) \<Rightarrow> bool" where
  "lists_set f \<longleftrightarrow> (\<forall>A. finite A \<longrightarrow> set (f A) = A \<and> distinct (f A))"

lemma finite_rules: "finite (rules_for_context namespace)"
  by (simp add: rules_for_context_def)

lemma cosign_validate_allowed:
  assumes "lists_set list_set"
    and "cosign_context acfg cfg env clock review = Inr (Some (ctx, namespace))"
  shows "\<exists>r. snd (cosign_validate acfg cfg env clock list_set st review) = Inr r \<and>
    (allowed r \<longleftrightarrow> (\<forall>q \<in> rules_for_context namespace. snd (apply_rule ctx st q) = Inr []))"
proof -
  have "set (list_set (rules_for_context namespace)) = rules_for_context namespace"
       "distinct (list_set (rules_for_context namespace))"
    using assms(1) finite_rules by (auto simp: lists_set_def)
  with run_rules_allowed[of "list_set (rules_for_context namespace)" ctx st "[]"] assms(2)
  show ?thesis by (auto simp: cosign_validate_def split: prod.split)
qed

text \<open>
  The order in which the rules run does not change whether a request is admitted. Python
  lists a set in an unspecified order, so this is what makes the verdict well defined.
\<close>

theorem rule_order_irrelevant_for_verdict:
  assumes "lists_set order1" "lists_set order2"
  shows "map_sum id allowed (snd (cosign_validate acfg cfg env clock order1 st review)) =
         map_sum id allowed (snd (cosign_validate acfg cfg env clock order2 st review))"
proof (cases "cosign_context acfg cfg env clock review")
  case (Inl e)
  then show ?thesis by (simp add: cosign_validate_def)
next
  case (Inr r)
  show ?thesis
  proof (cases r)
    case None
    with Inr show ?thesis by (simp add: cosign_validate_def)
  next
    case (Some p)
    obtain ctx namespace where "p = (ctx, namespace)" by fastforce
    with Inr Some have "cosign_context acfg cfg env clock review = Inr (Some (ctx, namespace))"
      by simp
    from cosign_validate_allowed[OF assms(1) this, of st] cosign_validate_allowed[OF assms(2) this, of st]
    show ?thesis by auto
  qed
qed

subsection \<open>One image of an admitted request\<close>

lemma scan_images_Nil:
  "scan_images f seen imgs = Inr [] \<Longrightarrow> img \<in> set imgs \<Longrightarrow> img \<notin> set seen \<Longrightarrow> f img = Inr []"
  by (induction f seen imgs rule: scan_images.induct) (auto simp: bindR_Inr_iff split: if_splits)

text \<open>
  The references the cache answers positively, and what one verification can add to them: the
  reference itself, or the digest of a whitelisted tag.
\<close>

definition positive :: "cosign_state \<Rightarrow> string set" where
  "positive st = {k. \<exists>e. (k, e) \<in> set (cv_cache st) \<and> ce_valid e = Some True}"

definition confirms :: "cosign_env \<Rightarrow> cosign_config \<Rightarrow> string \<Rightarrow> string option \<Rightarrow> bool" where
  "confirms env cfg img d \<longleftrightarrow>
     (\<exists>vc. image_config cfg img = Inr (Some vc) \<and> cosign_verify env img vc = Inr (True, d))"

definition trusted_refs :: "cosign_env \<Rightarrow> cosign_config \<Rightarrow> string set \<Rightarrow> string set" where
  "trusted_refs env cfg imgs =
     {img \<in> imgs. \<exists>d. confirms env cfg img d} \<union>
     {ref. \<exists>img \<in> imgs. \<exists>d name ttl. confirms env cfg img (Some d) \<and> strip_tag img = Inr name \<and>
        get_pin_ttl cfg name = Some ttl \<and> ref = name @ ''@'' @ d}"

lemma trusted_refs_mono: "A \<subseteq> B \<Longrightarrow> trusted_refs env cfg A \<subseteq> trusted_refs env cfg B"
  unfolding trusted_refs_def by blast

lemma positive_put: "positive (put st k v e ttl now) \<subseteq> positive st \<union> (if v = Some True then {k} else {})"
proof
  fix x assume "x \<in> positive (put st k v e ttl now)"
  then obtain en where "(x, en) \<in> set (cv_cache (put st k v e ttl now))" "ce_valid en = Some True"
    by (auto simp: positive_def)
  with cv_cache_put[of st k v e ttl now]
  have "(x, en) \<in> set (cv_cache st) \<or> x = k \<and> v = Some True" by auto
  with \<open>ce_valid en = Some True\<close> show "x \<in> positive st \<union> (if v = Some True then {k} else {})"
    by (auto simp: positive_def)
qed

lemma positive_put_tag [simp]: "positive (put_tag st k d ttl now) = positive st"
  by (simp add: positive_def put_tag_def)

lemma positive_remember:
  assumes "remember cfg st img valid d now = Inr st'"
  shows "positive st' \<subseteq> positive st \<union>
     (if valid then {img} \<union> {ref. \<exists>dg name ttl. d = Some dg \<and> strip_tag img = Inr name \<and>
        get_pin_ttl cfg name = Some ttl \<and> ref = name @ ''@'' @ dg} else {})"
proof (cases "is_digest_pinned_reference img \<or> \<not> valid")
  case True
  with assms consider "st' = st" | t where "st' = put st img (Some valid) None t now"
    by (auto simp: remember_def Let_def split: if_splits)
  then show ?thesis
  proof cases
    case (2 t)
    with positive_put[of st img "Some valid" None t now] show ?thesis by (cases valid) auto
  qed simp
next
  case False
  then consider "st' = st" | dg name ttl where "d = Some dg" "strip_tag img = Inr name"
      "get_pin_ttl cfg name = Some ttl"
      "st' = put (put_tag st img dg (of_int ttl) now) (name @ ''@'' @ dg) (Some True) None (of_int ttl) now"
    using assms by (auto simp: remember_def bindR_Inr_iff split: option.splits list.splits)
  then show ?thesis
  proof cases
    case 2
    with positive_put[of "put_tag st img dg (of_int ttl) now" "name @ ''@'' @ dg" "Some True" None
        "of_int ttl" now] False
    show ?thesis by auto
  qed simp
qed


lemma verify_image_signature_positive:
  assumes "image_config cfg img = Inr (Some vc)"
    and "verify_image_signature cfg env st img vc ts = (st', out)"
  shows "positive st' \<subseteq> positive st \<union> trusted_refs env cfg {img}"
proof -
  have trusted: "positive st1 \<subseteq> positive st \<union> trusted_refs env cfg {img}"
    if "remember cfg st img valid d now = Inr st1"
      and "valid \<Longrightarrow> cosign_verify env img vc = Inr (True, d)" for valid d now st1
    using positive_remember[OF that(1)] that(2) assms(1)
    by (cases valid) (auto simp: trusted_refs_def confirms_def)
  have put: "positive (put st img None e ttl now) \<subseteq> positive st" for e ttl now
    using positive_put[of st img None e ttl now] by simp
  have limit: "positive (st\<lparr>cv_rate_limited_until := t\<rparr>) = positive st" for t
    by (simp add: positive_def)
  have "positive (fst (verify_finish cfg st img now (cosign_verify env img vc)))
      \<subseteq> positive st \<union> trusted_refs env cfg {img}" for now
    unfolding verify_finish_def Let_def
    using trusted put limit
    by (auto split: sum.split prod.split except_clause.split; blast)
  with assms(2) show ?thesis
    by (auto simp: verify_image_signature_def split: sum.splits verify_step.splits) (metis UnE fst_conv subsetD)+
qed

lemma verify_image_signature_true:
  assumes "verify_image_signature cfg env st img vc ts = (st', Inr True)"
  shows "(\<exists>d. cosign_verify env img vc = Inr (True, d)) \<or>
     is_digest_pinned_reference img \<and> img \<in> positive st"
proof (cases "verify_start st img (fst ts)")
  case (Inl e)
  with assms show ?thesis by (simp add: verify_image_signature_def)
next
  case (Inr step)
  show ?thesis
  proof (cases step)
    case (Hit b)
    with Inr assms have "verify_start st img (fst ts) = Inr (Hit True)"
      by (simp add: verify_image_signature_def)
    then show ?thesis by (auto simp: verify_start_hit positive_def dest: map_of_SomeD)
  next
    case CallCosign
    with Inr assms have "verify_finish cfg st img (snd ts) (cosign_verify env img vc) = (st', Inr True)"
      by (simp add: verify_image_signature_def)
    then show ?thesis
      by (auto simp: verify_finish_def Let_def split: sum.splits prod.splits except_clause.splits)
  qed
qed


text \<open>What it takes for the verify rule to pass an image with an enabled configuration.\<close>

definition signature_trusted ::
  "validation_context \<Rightarrow> string set \<Rightarrow> verification_config \<Rightarrow> string \<Rightarrow> bool" where
  "signature_trusted ctx refs vc img \<longleftrightarrow>
     (\<exists>d. cosign_verify (ctx_env ctx) img vc = Inr (True, d)) \<or>
     is_digest_pinned_reference img \<and> img \<in> refs"

lemma image_config_Inr_iff:
  "image_config cfg img = Inr vc \<longleftrightarrow>
     (\<exists>reg org repo t. parse_image_reference img = Inr (reg, org, repo, t) \<and>
        vc = get_verification_config cfg reg org repo)"
  by (auto simp: image_config_def bindR_Inr_iff)

lemma verify_one_positive:
  assumes "verify_one ctx st img = (st', Inr vs)"
  shows "positive st' \<subseteq> positive st \<union> trusted_refs (ctx_env ctx) (ctx_cosign ctx) {img}"
proof -
  from assms consider "st' = st" | vc out where "image_config (ctx_cosign ctx) img = Inr (Some vc)"
      "verify_image_signature (ctx_cosign ctx) (ctx_env ctx) st img vc (ctx_times ctx img) = (st', out)"
    by (auto simp: verify_one_def image_config_Inr_iff
        split: sum.splits option.splits prod.splits if_splits except_clause.splits)
  then show ?thesis
  proof cases
    case 2
    then show ?thesis by (rule verify_image_signature_positive)
  qed simp
qed

lemma verify_one_passes:
  assumes "verify_one ctx st img = (st', Inr [])"
    and "image_config (ctx_cosign ctx) img = Inr (Some vc)" "\<not> vc_disabled vc"
  shows "signature_trusted ctx (positive st) vc img"
proof -
  have "verify_image_signature (ctx_cosign ctx) (ctx_env ctx) st img vc (ctx_times ctx img) = (st', Inr True)"
    using assms
    by (auto simp: verify_one_def image_config_Inr_iff
        split: sum.splits option.splits prod.splits if_splits except_clause.splits)
  then show ?thesis
    using verify_image_signature_true by (simp add: signature_trusted_def)
qed

lemma verify_images_pass:
  assumes "verify_images ctx st seen imgs = (st', Inr [])"
    and "img \<in> set imgs" "img \<notin> set seen"
    and "image_config (ctx_cosign ctx) img = Inr (Some vc)" "\<not> vc_disabled vc"
  shows "signature_trusted ctx
     (positive st \<union> trusted_refs (ctx_env ctx) (ctx_cosign ctx) (set imgs)) vc img"
  using assms(1-3)
proof (induction imgs arbitrary: st seen st')
  case (Cons i imgs)
  have mono: "trusted_refs (ctx_env ctx) (ctx_cosign ctx) A
      \<subseteq> trusted_refs (ctx_env ctx) (ctx_cosign ctx) (set (i # imgs))" if "A \<subseteq> set (i # imgs)" for A
    using that by (rule trusted_refs_mono)
  have weaken: "signature_trusted ctx R vc img \<Longrightarrow> R \<subseteq> S \<Longrightarrow> signature_trusted ctx S vc img" for R S
    by (auto simp: signature_trusted_def)
  show ?case
  proof (cases "i \<in> set seen")
    case True
    with Cons have "signature_trusted ctx
      (positive st \<union> trusted_refs (ctx_env ctx) (ctx_cosign ctx) (set imgs)) vc img" by fastforce
    then show ?thesis by (rule weaken) (use mono[of "set imgs"] in auto)
  next
    case False
    with Cons.prems obtain st1 where one: "verify_one ctx st i = (st1, Inr [])"
        "verify_images ctx st1 (i # seen) imgs = (st', Inr [])"
      by (auto split: prod.splits sum.splits)
    show ?thesis
    proof (cases "img = i")
      case True
      with verify_one_passes[OF one(1)] assms(4,5) have "signature_trusted ctx (positive st) vc img"
        by simp
      then show ?thesis by (rule weaken) simp
    next
      case False
      with Cons.IH[OF one(2)] Cons.prems have "signature_trusted ctx
        (positive st1 \<union> trusted_refs (ctx_env ctx) (ctx_cosign ctx) (set imgs)) vc img" by simp
      then show ?thesis
        by (rule weaken) (use mono[of "set imgs"] mono[of "{i}"] verify_one_positive[OF one(1)] in auto)
    qed
  qed
qed simp

lemma cosign_context_pod_request:
  assumes "pod_request review namespace images" and "images \<noteq> []"
    and "cosign_context acfg cfg env clock review = Inr c"
  obtains request where "c = Some (\<lparr>ctx_request = request, ctx_images = images, ctx_cosign = cfg,
     ctx_env = env, ctx_times = clock, ctx_required_key_path = required_key_path acfg namespace\<rparr>, namespace)"
proof -
  obtain request kind obj operation where
    "py_get review ''request'' (JObj []) = Inr request"
    "bindR (py_get request ''kind'' (JObj [])) (\<lambda>k. py_get k ''kind'' (JStr [])) = Inr (JStr kind)"
    "kind \<in> set pod_kinds" "py_get request ''namespace'' (JStr ''default'') = Inr namespace"
    "py_get request ''operation'' JNull = Inr operation" "operation \<noteq> JStr ''DELETE''"
    "py_get request ''object'' (JObj []) = Inr obj" "object_images obj = Inr images"
    using assms(1) unfolding pod_request_def by blast
  with assms(2,3) show ?thesis
    by (intro that[of request]) (auto simp: cosign_context_def bindR_Inr_iff)
qed

lemma chutes_images_are_signed:
  assumes "lists_set list_set"
    and "cosign_validate acfg cfg env clock list_set st review = (st', Inr r)" and "allowed r"
    and "pod_request review (JStr ''chutes'') images" and "img \<in> set images"
  shows "\<exists>vc key. image_config cfg img = Inr (Some vc) \<and> require_signature vc \<and>
     verification_method vc = Key \<and> public_key vc = Some key \<and>
     chutes_cosign_public_key_path acfg = Some key \<and>
     ((\<exists>d. cosign_verify env img vc = Inr (True, d)) \<or>
      is_digest_pinned_reference img \<and> img \<in> positive st \<union> trusted_refs env cfg (set images))"
proof -
  have ne: "images \<noteq> []" using assms(5) by auto
  obtain c where c: "cosign_context acfg cfg env clock review = Inr c"
    using assms(2) by (cases "cosign_context acfg cfg env clock review") (auto simp: cosign_validate_def)
  obtain request where req: "c = Some (\<lparr>ctx_request = request, ctx_images = images, ctx_cosign = cfg,
     ctx_env = env, ctx_times = clock,
     ctx_required_key_path = required_key_path acfg (JStr ''chutes'')\<rparr>, JStr ''chutes'')"
    using cosign_context_pod_request[OF assms(4) ne c] .
  define ctx where "ctx = \<lparr>ctx_request = request, ctx_images = images, ctx_cosign = cfg,
     ctx_env = env, ctx_times = clock, ctx_required_key_path = chutes_cosign_public_key_path acfg\<rparr>"
  with c req have "cosign_context acfg cfg env clock review = Inr (Some (ctx, JStr ''chutes''))"
    by (simp add: required_key_path_def)
  from cosign_validate_allowed[OF assms(1) this, of st] assms(2,3)
  have pass: "snd (apply_rule ctx st q) = Inr []" if "q \<in> set chutes_rules" for q
    using that by (auto simp: rules_for_context_def)
  have scan: "f img = Inr []" if "scan_images f [] images = Inr []" for f
    using scan_images_Nil[OF that assms(5)] by simp
  have imgs: "ctx_images ctx = images" "ctx_cosign ctx = cfg" "ctx_env ctx = env"
      "ctx_required_key_path ctx = chutes_cosign_public_key_path acfg"
    by (simp_all add: ctx_def)
  obtain vc where vc: "image_config cfg img = Inr (Some vc)"
    using scan pass[of RequireCosignConfig] imgs
    by (fastforce simp: chutes_rules_def require_cosign_config_def with_config_def bindR_Inr_iff
        split: option.splits)
  have enabled: "\<not> vc_disabled vc"
    using scan pass[of RejectDisabled] imgs vc
    by (fastforce simp: chutes_rules_def reject_disabled_def with_config_def split: if_splits)
  obtain key where key: "verification_method vc = Key" "public_key vc = Some key"
    using scan pass[of RequireKeyVerification] imgs vc
    by (fastforce simp: chutes_rules_def require_key_verification_def with_config_def split: if_splits)
  have path: "chutes_cosign_public_key_path acfg = Some key"
    using scan pass[of RequireCtxKey] imgs vc key
    by (fastforce simp: chutes_rules_def require_ctx_key_def with_config_def split: option.splits if_splits)
  have "\<exists>s. verify_images ctx st [] images = (s, Inr [])"
    using pass[of VerifyCosignConfig] imgs
    by (auto simp: chutes_rules_def verify_cosign_config_def split: sum.splits)
       (metis prod.collapse)
  then have "signature_trusted ctx (positive st \<union> trusted_refs env cfg (set images)) vc img"
    using verify_images_pass[of ctx st "[]" images _ img vc] assms(5) vc enabled imgs by auto
  with vc enabled key path imgs show ?thesis
    by (auto simp: signature_trusted_def vc_disabled_def)
qed

section \<open>Pins, bounds and messages\<close>

text \<open>
  A whitelisted tag that cosign just confirmed is pinned, and its pinned form is admitted from
  the cache without calling cosign again, for exactly the time to live of the whitelist entry; the
  pinned form falls under the same verification settings as the tag.
\<close>

theorem confirmed_tag_is_pinned_and_cached:
  assumes "CHR ''@'' \<notin> set img" "strip_tag img = Inr name" "get_pin_ttl cfg name = Some ttl"
    and "startswith d ''sha256:''" "CHR ''@'' \<notin> set d"
  shows "\<exists>st'. verify_finish cfg st img now (Inr (True, Some d)) = (st', Inr True) \<and>
     (\<forall>t. get_pinned_digest st' img t = (if t < now + of_int ttl then Some d else None)) \<and>
     (\<forall>t. verify_start st' (name @ ''@'' @ d) t = Inr (Hit True) \<longleftrightarrow> t < now + of_int ttl) \<and>
     image_config cfg (name @ ''@'' @ d) = image_config cfg img"
proof -
  let ?st = "put (put_tag st img d (of_int ttl) now) (name @ ''@'' @ d) (Some True) None (of_int ttl) now"
  have "\<not> is_digest_pinned_reference img"
    using assms(1) by (simp add: is_digest_pinned_reference_def)
  moreover obtain c cs where "d = c # cs"
    using assms(4) by (cases d) auto
  ultimately have "verify_finish cfg st img now (Inr (True, Some d)) = (?st, Inr True)"
    using assms(2,3) by (simp add: verify_finish_def remember_def Let_def)
  moreover have "get_pinned_digest ?st img t = (if t < now + of_int ttl then Some d else None)" for t
    by (simp add: pinned_put_tag_same)
  moreover have "verify_start ?st (name @ ''@'' @ d) t = Inr (Hit True) \<longleftrightarrow> t < now + of_int ttl" for t
    using pinned_is_digest_pinned[of d name] assms(4,5)
    by (auto simp: verify_start_def read_cache_live live_put_same)
  moreover have "image_config cfg (name @ ''@'' @ d) = image_config cfg img"
    using pinned_reference_parses[OF assms(1) _ assms(2)] parse_image_reference_total[of img]
    by (auto simp: image_config_def)
  ultimately show ?thesis by blast
qed

text \<open>
  An insertion into the verdict cache leaves at most \<open>_CACHE_MAX_SIZE\<close> entries or, when more
  than that are unexpired, the unexpired ones and the new one. The cap is not a hard one: a full
  cache of unexpired entries grows by every insertion of a new key.
\<close>

theorem cache_growth_bounded_by_live_entries:
  "length (cv_cache (put st k v e ttl now)) \<le>
     max cache_max_size (Suc (length (filter (\<lambda>(key, en). now < ce_expires_at en) (cv_cache st)))) \<and>
   (filter (\<lambda>(key, en). now < ce_expires_at en) (cv_cache st) = cv_cache st \<longrightarrow>
    k \<notin> fst ` set (cv_cache st) \<longrightarrow>
      length (cv_cache (put st k v e ttl now)) = Suc (length (cv_cache st)))"
proof -
  have upd: "length (AList.update k x kvs) \<le> Suc (length kvs)" for x :: cache_entry and kvs
    by (simp add: length_update)
  have "length (cv_cache (put st k v e ttl now)) \<le>
     max cache_max_size (Suc (length (filter (\<lambda>(key, en). now < ce_expires_at en) (cv_cache st))))"
  proof (cases "cache_max_size \<le> length (cv_cache st)")
    case True
    then show ?thesis by (simp add: put_def Let_def upd le_max_iff_disj)
  next
    case False
    then show ?thesis
      using upd[of _ "cv_cache st"] by (fastforce simp: put_def Let_def le_max_iff_disj not_le intro: order_trans)
  qed
  then show ?thesis by (auto simp: put_def Let_def length_update)
qed

lemma rules_verdict_decided: "decided (rules_verdict out)"
  by (auto simp: rules_verdict_def split: rules_outcome.split)

interpretation cosign_validator: admission_validator
  "\<lambda>review. snd (cosign_validate acfg cfg env clock list_set st review)"
  for acfg cfg env clock list_set st
proof
  fix review r
  assume "snd (cosign_validate acfg cfg env clock list_set st review) = Inr r" and "\<not> allowed r"
  then have "decided r"
    by (auto simp: cosign_validate_def rules_verdict_decided split: sum.splits option.splits prod.splits)
  with \<open>\<not> allowed r\<close> show "messages r \<noteq> []" by (rule decided_denial[rotated])
qed

section \<open>An example deployment\<close>

text \<open>
  One registry under key verification and one whitelisted image, with the review, the environment
  and the registry of the example of the other theories.
\<close>

definition sample_cosign_config :: cosign_config where
  "sample_cosign_config = \<lparr>success_cache_ttl_seconds = 60, failure_cache_ttl_seconds = 30,
     tag_failure_cache_ttl_seconds = 10, tag_pin_default_ttl_seconds = 5,
     digest_pin_whitelist = [\<lparr>pin_image = ''r.io/o/p'', pin_ttl = 100\<rparr>],
     registry_configs = [sample_registry]\<rparr>"

definition sample_world :: world where
  "sample_world = \<lparr>w_st = fst (verify_finish sample_cosign_config cosign_init sample_tag 0
       (Inr (True, Some ''sha256:ab''))), w_now = 0, w_pending = [],
     w_log = [(sample_tag, Some ''sha256:ab'', 0)]\<rparr>"

lemma sample_world_reachable: "cosign_reachable sample_cosign_config sample_world"
proof -
  let ?w = "(world_init 0)\<lparr>w_pending := [sample_tag]\<rparr>"
  have start: "verify_start (w_st (world_init 0)) sample_tag (w_now (world_init 0)) = Inr CallCosign"
    by (simp add: world_init_def cosign_init_def verify_start_def read_cache_def)
  have "cosign_step sample_cosign_config (world_init 0) ?w"
    using cosign_step.Start[OF start] by (simp add: world_init_def)
  then have "cosign_reachable sample_cosign_config ?w"
    using cosign_reachable.Init cosign_reachable.Step by blast
  moreover have "cosign_step sample_cosign_config ?w sample_world"
    using cosign_step.Finish[of sample_tag ?w sample_cosign_config "Inr (True, Some ''sha256:ab'')"]
    by (simp add: world_init_def sample_world_def)
  ultimately show ?thesis by (rule cosign_reachable.Step)
qed

lemma sample_tag_pinned:
  "get_pinned_digest (w_st sample_world) sample_tag 0 = Some ''sha256:ab''"
  "verify_start (w_st sample_world) ''r.io/o/p@sha256:ab'' 0 = Inr (Hit True)"
  by code_simp+

theorem cache_hits_are_justified_witness:
  "is_digest_pinned_reference ''r.io/o/p@sha256:ab''"
  using cache_hits_are_justified[OF sample_world_reachable, of "''r.io/o/p@sha256:ab''"] sample_tag_pinned
  by (simp add: sample_world_def)

theorem pinned_digests_were_verified_witness:
  "\<exists>t name ttl. (sample_tag, Some ''sha256:ab'', t) \<in> set (w_log sample_world) \<and>
     strip_tag sample_tag = Inr name \<and> get_pin_ttl sample_cosign_config name = Some ttl"
  using pinned_digests_were_verified[OF sample_world_reachable, of sample_tag "''sha256:ab''"]
    sample_tag_pinned by (auto simp: sample_world_def)

text \<open>Listing the rules as \<open>chutes_rules\<close> has them, or in any fixed order.\<close>

definition list_in_order :: "rule list \<Rightarrow> rule set \<Rightarrow> rule list" where
  "list_in_order order A = filter (\<lambda>r. r \<in> A) order"

lemma list_in_order_lists:
  assumes "distinct order" "set order = UNIV"
  shows "lists_set (list_in_order order)"
  using assms by (auto simp: lists_set_def list_in_order_def)

lemma chutes_rules_all: "distinct chutes_rules" "set chutes_rules = UNIV"
proof -
  show "distinct chutes_rules" by (simp add: chutes_rules_def)
  have "r \<in> set chutes_rules" for r by (cases r) (simp_all add: chutes_rules_def)
  then show "set chutes_rules = UNIV" by blast
qed

lemma chutes_order: "lists_set (list_in_order chutes_rules)" "lists_set (list_in_order (rev chutes_rules))"
  using chutes_rules_all by (auto intro!: list_in_order_lists)

theorem rule_order_irrelevant_for_verdict_witness:
  "map_sum id allowed (snd (cosign_validate sample_admission_config sample_cosign_config sample_env
      (\<lambda>_. (0, 1)) (list_in_order chutes_rules) cosign_init (sample_review sample_tag))) =
   map_sum id allowed (snd (cosign_validate sample_admission_config sample_cosign_config sample_env
      (\<lambda>_. (0, 1)) (list_in_order (rev chutes_rules)) cosign_init (sample_review sample_tag)))"
  by (rule rule_order_irrelevant_for_verdict[OF chutes_order])

definition admits :: "'s \<times> validation_result res \<Rightarrow> bool" where
  "admits out = (case snd out of Inr r \<Rightarrow> allowed r | Inl _ \<Rightarrow> False)"

lemma admitsE:
  assumes "admits out" obtains st' r where "out = (st', Inr r)" "allowed r"
  using assms by (cases out) (auto simp: admits_def split: sum.splits)

lemma sample_admits:
  "admits (cosign_validate sample_admission_config sample_cosign_config sample_env (\<lambda>_. (0, 1))
     (list_in_order chutes_rules) cosign_init (sample_review sample_tag))"
  by code_simp

theorem confirmed_tag_is_pinned_and_cached_witness:
  "\<exists>st'. verify_finish sample_cosign_config cosign_init sample_tag 0 (Inr (True, Some ''sha256:ab''))
     = (st', Inr True)"
proof -
  have "CHR ''@'' \<notin> set sample_tag" "strip_tag sample_tag = Inr ''r.io/o/p''"
    "get_pin_ttl sample_cosign_config ''r.io/o/p'' = Some 100"
    by code_simp+
  then show ?thesis
    using confirmed_tag_is_pinned_and_cached[of sample_tag "''r.io/o/p''" sample_cosign_config 100
        "''sha256:ab''" cosign_init 0]
    by auto
qed

theorem cache_growth_bounded_by_live_entries_witness:
  "length (cv_cache (put cosign_init sample_tag (Some True) None 60 0)) = Suc 0"
  using cache_growth_bounded_by_live_entries[of cosign_init sample_tag "Some True" None 60 0]
  by (simp add: cosign_init_def)

text \<open>
  The order of the rules does change which violations are reported: a rate limit in the verify
  rule ends the loop, so a missing configuration is reported or not by the position of its rule.
\<close>

theorem rule_order_changes_violations:
  "\<exists>ctx st rs1 rs2 vs1 vs2. distinct rs1 \<and> distinct rs2 \<and>
     set rs1 = rules_for_context (JStr ''chutes'') \<and> set rs2 = rules_for_context (JStr ''chutes'') \<and>
     snd (run_rules ctx st rs1 []) = Violations vs1 \<and> snd (run_rules ctx st rs2 []) = Violations vs2 \<and>
     set vs1 \<noteq> set vs2"
proof -
  let ?ctx = "\<lparr>ctx_request = JObj [], ctx_images = [''x'', sample_tag], ctx_cosign = sample_cosign_config,
     ctx_env = sample_env, ctx_times = (\<lambda>_. (0, 1)), ctx_required_key_path = Some ''/k.pub''\<rparr>"
  let ?st = "cosign_init\<lparr>cv_rate_limited_until := 9\<rparr>"
  let ?limit = "''Cosign verification paused due to upstream rate limiting''"
  have r1: "snd (run_rules ?ctx ?st chutes_rules []) =
      Violations [''Image x has no cosign configuration'', ?limit]"
    by code_simp
  have r2: "snd (run_rules ?ctx ?st (rev chutes_rules) []) = Violations [?limit]"
    by code_simp
  have rules: "set chutes_rules = rules_for_context (JStr ''chutes'')"
    by (auto simp: rules_for_context_def default_rules_def chutes_rules_def)
  have ne: "set [''Image x has no cosign configuration'', ?limit] \<noteq> set [?limit]" by simp
  have d: "distinct (rev chutes_rules)" "set (rev chutes_rules) = rules_for_context (JStr ''chutes'')"
    using chutes_rules_all(1) rules by auto
  show ?thesis
    by (rule exI[of _ ?ctx], rule exI[of _ ?st], rule exI[of _ chutes_rules],
        rule exI[of _ "rev chutes_rules"],
        rule exI[of _ "[''Image x has no cosign configuration'', ?limit]"], rule exI[of _ "[?limit]"])
       (intro conjI r1 r2 rules ne d chutes_rules_all(1))
qed

end
