(* ===== verification/Admission_Controller.thy ===== *)
theory Admission_Controller
  imports Cosign_Safety
begin

text \<open>
  The admission controller and its webhooks:
  \<open>src/src/sek8s/sek8s/services/admission_controller.py\<close> and \<open>admission_models.py\<close>.
  \<^item> \<open>validate_admission\<close> runs the OPA, registry and cosign validators on one review (only the last
    has state), and \<open>handle_validate\<close> wraps it for HTTP.
  \<^item> \<open>build_image_pin_patches\<close>, \<open>build_sa_token_patches\<close> and \<open>handle_mutate\<close>: the mutating webhook.
    The patches are kept as data; their JSON and base64 encoding is left out.
  \<^item> \<open>evaluate_authorization_raw\<close> and \<open>handle_authorize\<close>: who may read pod logs.
  \<^item> \<open>health_check\<close> and its two endpoints; \<open>batch_filter\<close>, the batched access log.
  A handler takes what parsing the request body gave and returns the reply, or the exception that
  leaves the handler (the server answers 500 then, which the API server treats as a failed call).
\<close>

section \<open>Replies\<close>

record json_patch =
  jp_op :: string
  jp_path :: string
  jp_value :: json

record admission_body =
  ab_uid :: string
  ab_allowed :: bool
  ab_status :: "string option"
  ab_warnings :: "string list option"
  ab_patch_type :: "string option"
  ab_patch :: "json_patch list option"

datatype http_reply =
    Review admission_body
  | ErrorReply int string
  | Health int bool "(string \<times> bool) list"
  | Ready int bool

text \<open>\<open>uid\<close> is declared as a string: the model rejects any other value.\<close>

definition uid_str :: "json \<Rightarrow> string res" where
  "uid_str uid = (case uid of JStr s \<Rightarrow> Inr s | _ \<Rightarrow> Inl (ValueError ''Input should be a valid string''))"

definition build_response ::
  "json \<Rightarrow> bool \<Rightarrow> string list \<Rightarrow> string list \<Rightarrow> admission_body res" where
  "build_response uid ok msgs warns =
     bindR (uid_str uid) (\<lambda>u. Inr
       \<lparr>ab_uid = u, ab_allowed = ok,
        ab_status = (if msgs \<noteq> [] then Some (join_with ''; '' msgs) else None),
        ab_warnings = (if warns \<noteq> [] then Some warns else None),
        ab_patch_type = None, ab_patch = None\<rparr>)"

section \<open>The validating webhook\<close>

text \<open>The loop over the gathered results, from the validator's name and its result or exception.\<close>

fun collect ::
  "(string \<times> validation_result res) list \<Rightarrow> bool \<Rightarrow> string list \<Rightarrow> string list
   \<Rightarrow> bool \<times> string list \<times> string list" where
  "collect [] ok msgs warns = (ok, msgs, warns)"
| "collect ((name, Inl e) # rs) ok msgs warns =
     collect rs False (msgs @ [name @ '': Internal error'']) warns"
| "collect ((name, Inr r) # rs) ok msgs warns =
     (if \<not> allowed r then collect rs False (msgs @ messages r) (warns @ warnings r)
      else collect rs ok msgs (warns @ warnings r))"

record controller_env =
  ce_post :: "json \<Rightarrow> (int \<times> json) res"  \<comment> \<open>the OPA server\<close>
  ce_cosign :: cosign_env
  ce_clock :: "string \<Rightarrow> time \<times> time"
  ce_order :: "rule set \<Rightarrow> rule list"

definition gather_results ::
  "admission_config \<Rightarrow> cosign_config \<Rightarrow> controller_env \<Rightarrow> cosign_state \<Rightarrow> json
   \<Rightarrow> cosign_state \<times> (string \<times> validation_result res) list" where
  "gather_results acfg cfg env st admission_review =
     (case cosign_validate acfg cfg (ce_cosign env) (ce_clock env) (ce_order env) st admission_review of
        (st', cosign_result) \<Rightarrow>
          (st', [(''OPAValidator'', opa_validate (ce_post env) acfg admission_review),
                 (''RegistryValidator'', registry_validate acfg admission_review),
                 (''CosignValidator'', cosign_result)]))"

text \<open>The fields read before the \<open>try\<close>, and the response with its \<open>except\<close> clause.\<close>

definition review_uid :: "json \<Rightarrow> json res" where
  "review_uid admission_review =
     bindR (py_get admission_review ''request'' (JObj [])) (\<lambda>request.
     bindR (py_get request ''uid'' (JStr ''unknown'')) (\<lambda>uid.
     bindR (bindR (py_get request ''kind'' (JObj [])) (\<lambda>k. py_get k ''kind'' (JStr ''unknown''))) (\<lambda>_.
     bindR (py_get request ''operation'' (JStr ''unknown'')) (\<lambda>_.
     bindR (py_get request ''namespace'' (JStr ''default'')) (\<lambda>_. Inr uid)))))"

definition respond :: "json \<Rightarrow> bool \<times> string list \<times> string list \<Rightarrow> admission_body res" where
  "respond uid decision =
     (case decision of (ok, msgs, warns) \<Rightarrow>
        case build_response uid ok msgs warns of
          Inr body \<Rightarrow> Inr body
        | Inl e \<Rightarrow> build_response uid False [''Internal error: '' @ exn_str e] [])"

definition validate_admission ::
  "admission_config \<Rightarrow> cosign_config \<Rightarrow> controller_env \<Rightarrow> cosign_state \<Rightarrow> json
   \<Rightarrow> cosign_state \<times> admission_body res" where
  "validate_admission acfg cfg env st admission_review =
     (case review_uid admission_review of
        Inl e \<Rightarrow> (st, Inl e)
      | Inr uid \<Rightarrow>
          (case gather_results acfg cfg env st admission_review of
             (st', results) \<Rightarrow> (st', respond uid (collect results True [] []))))"

text \<open>The \<open>except Exception\<close> clause, which reads the uid of the review again.\<close>

definition validate_error :: "json \<Rightarrow> exn \<Rightarrow> http_reply res" where
  "validate_error admission_review e =
     bindR (bindR (py_get admission_review ''request'' (JObj [])) (\<lambda>r. py_get r ''uid'' (JStr ''unknown'')))
       (\<lambda>uid. bindR (uid_str uid) (\<lambda>u. Inr (Review
          \<lparr>ab_uid = u, ab_allowed = False, ab_status = Some (''Internal server error: '' @ exn_str e),
           ab_warnings = None, ab_patch_type = None, ab_patch = None\<rparr>)))"

definition handle_validate ::
  "admission_config \<Rightarrow> cosign_config \<Rightarrow> controller_env \<Rightarrow> cosign_state \<Rightarrow> json res
   \<Rightarrow> cosign_state \<times> http_reply res" where
  "handle_validate acfg cfg env st body =
     (case body of
        Inl e \<Rightarrow> if e = JSONDecodeError then (st, Inr (ErrorReply 400 ''Invalid JSON''))
                 else (st, Inl (OtherException ''UnboundLocalError''))
      | Inr admission_review \<Rightarrow>
          (case py_get admission_review ''request'' JNull of
             Inl e \<Rightarrow> (st, validate_error admission_review e)
           | Inr request \<Rightarrow>
               if \<not> truthy request
               then (st, Inr (ErrorReply 400 ''Invalid admission review: missing request''))
               else (case validate_admission acfg cfg env st admission_review of
                       (st', Inr b) \<Rightarrow> (st', Inr (Review b))
                     | (st', Inl e) \<Rightarrow> (st', validate_error admission_review e))))"

section \<open>The mutating webhook\<close>

text \<open>\<open>v[k]\<close> for a string \<open>k\<close>.\<close>

definition py_item :: "json \<Rightarrow> string \<Rightarrow> json res" where
  "py_item v k =
     (case v of
        JObj kvs \<Rightarrow> (case map_of kvs k of Some x \<Rightarrow> Inr x | None \<Rightarrow> Inl (KeyError k))
      | _ \<Rightarrow> Inl (TypeError ''indices must be integers''))"

definition pin_patch :: "cosign_state \<Rightarrow> time \<Rightarrow> string \<Rightarrow> nat \<Rightarrow> json \<Rightarrow> json_patch list res" where
  "pin_patch st now json_prefix idx container =
     bindR (py_get container ''image'' (JStr [])) (\<lambda>v.
     if \<not> truthy v then Inr []
     else
       bindR (image_str v) (\<lambda>img.
       if is_digest_pinned_reference img then Inr []
       else case get_pinned_digest st img now of
              Some (c # cs) \<Rightarrow>
                bindR (strip_tag img) (\<lambda>image_no_tag. Inr
                  [\<lparr>jp_op = ''replace'',
                    jp_path = json_prefix @ ''/'' @ str_int (int idx) @ ''/image'',
                    jp_value = JStr (image_no_tag @ ''@'' @ c # cs)\<rparr>])
            | _ \<Rightarrow> Inr []))"

fun pin_patches :: "cosign_state \<Rightarrow> time \<Rightarrow> string \<Rightarrow> nat \<Rightarrow> json list \<Rightarrow> json_patch list res" where
  "pin_patches st now json_prefix idx [] = Inr []"
| "pin_patches st now json_prefix idx (c # cs) =
     appendR (pin_patch st now json_prefix idx c) (pin_patches st now json_prefix (Suc idx) cs)"

definition maybe_pin :: "cosign_state \<Rightarrow> time \<Rightarrow> json \<Rightarrow> string \<Rightarrow> json_patch list res" where
  "maybe_pin st now containers json_prefix =
     bindR (py_iter containers) (pin_patches st now json_prefix 0)"

text \<open>The two container lists of a pod spec found under a path.\<close>

definition pin_field ::
  "cosign_state \<Rightarrow> time \<Rightarrow> (json \<Rightarrow> string \<Rightarrow> json res) \<Rightarrow> json \<Rightarrow> string \<Rightarrow> string \<Rightarrow> json_patch list res" where
  "pin_field st now fetch spec key json_prefix =
     bindR (py_in key spec) (\<lambda>b.
     if b then bindR (fetch spec key) (\<lambda>cs. maybe_pin st now cs (json_prefix @ key)) else Inr [])"

definition pin_spec ::
  "cosign_state \<Rightarrow> time \<Rightarrow> (json \<Rightarrow> string \<Rightarrow> json res) \<Rightarrow> json \<Rightarrow> string \<Rightarrow> json_patch list res" where
  "pin_spec st now fetch spec json_prefix =
     appendR (pin_field st now fetch spec ''containers'' json_prefix)
             (pin_field st now fetch spec ''initContainers'' json_prefix)"

definition build_image_pin_patches :: "cosign_state \<Rightarrow> time \<Rightarrow> json \<Rightarrow> json_patch list res" where
  "build_image_pin_patches st now request =
     bindR (py_get request ''object'' (JObj [])) (\<lambda>obj.
     bindR (py_get obj ''spec'' (JObj [])) (\<lambda>spec.
     appendR (pin_spec st now (\<lambda>v k. py_get v k (JList [])) spec ''/spec/'')
       (appendR
          (bindR (py_gets spec [''template'', ''spec'']) (\<lambda>tpl_spec.
             if truthy tpl_spec then pin_spec st now py_item tpl_spec ''/spec/template/spec/'' else Inr []))
          (bindR (py_gets spec [''jobTemplate'', ''spec'', ''template'', ''spec'']) (\<lambda>jt_spec.
             if truthy jt_spec
             then pin_spec st now py_item jt_spec ''/spec/jobTemplate/spec/template/spec/'' else Inr [])))))"

fun any_agent_image :: "json list \<Rightarrow> bool res" where
  "any_agent_image [] = Inr False"
| "any_agent_image (c # cs) =
     bindR (py_get c ''image'' (JStr [])) (\<lambda>v.
     case v of
       JStr s \<Rightarrow> if startswith s ''parachutes/chutes-agent'' then Inr True else any_agent_image cs
     | _ \<Rightarrow> Inl (AttributeError ''startswith''))"

definition is_agent_workload :: "json \<Rightarrow> json \<Rightarrow> bool res" where
  "is_agent_workload labels containers =
     bindR (py_get labels ''app.kubernetes.io/name'' JNull) (\<lambda>name.
     bindR (bindR (py_iter containers) any_agent_image) (\<lambda>has_agent_image.
     Inr (name = JStr ''agent'' \<and> has_agent_image)))"

definition sa_token_patch :: "string \<Rightarrow> json \<Rightarrow> json_patch list res" where
  "sa_token_patch path spec =
     bindR (py_get spec ''automountServiceAccountToken'' JNull) (\<lambda>v.
     Inr (if v \<noteq> JBool False
          then [\<lparr>jp_op = ''add'', jp_path = path, jp_value = JBool False\<rparr>] else []))"

definition agent_or_patch :: "bool \<Rightarrow> string \<Rightarrow> json \<Rightarrow> json \<Rightarrow> json_patch list res" where
  "agent_or_patch may_be_agent path labels spec =
     bindR (if may_be_agent
            then bindR (py_get spec ''containers'' (JList [])) (is_agent_workload labels)
            else Inr False) (\<lambda>agent.
     if agent then Inr [] else sa_token_patch path spec)"

definition template_kinds :: "string list" where
  "template_kinds = [''Deployment'', ''StatefulSet'', ''DaemonSet'', ''ReplicaSet'', ''Job'']"

definition build_sa_token_patches :: "json \<Rightarrow> json_patch list res" where
  "build_sa_token_patches req =
     bindR (bindR (py_get req ''kind'' (JObj [])) (\<lambda>k. py_get k ''kind'' (JStr []))) (\<lambda>kind.
     bindR (py_get req ''object'' (JObj [])) (\<lambda>obj.
     if kind = JStr ''Pod'' then
       bindR (py_gets obj [''metadata'', ''labels'']) (\<lambda>labels.
       bindR (py_get obj ''spec'' (JObj [])) (\<lambda>spec.
       agent_or_patch True ''/spec/automountServiceAccountToken'' labels spec))
     else if kind \<in> JStr ` set template_kinds then
       bindR (py_gets obj [''spec'', ''template'']) (\<lambda>template.
       bindR (py_gets template [''metadata'', ''labels'']) (\<lambda>labels.
       bindR (py_get template ''spec'' (JObj [])) (\<lambda>spec.
       agent_or_patch (kind \<noteq> JStr ''Job'') ''/spec/template/spec/automountServiceAccountToken''
         labels spec)))
     else if kind = JStr ''CronJob'' then
       bindR (py_gets obj [''spec'', ''jobTemplate'', ''template'', ''spec'']) (\<lambda>spec.
       sa_token_patch ''/spec/jobTemplate/spec/template/spec/automountServiceAccountToken'' spec)
     else Inr []))"

definition mutate_body :: "cosign_state \<Rightarrow> time \<Rightarrow> json \<Rightarrow> admission_body res" where
  "mutate_body st now request_data =
     bindR (py_get request_data ''request'' (JObj [])) (\<lambda>req.
     bindR (py_get req ''uid'' (JStr ''unknown'')) (\<lambda>uid.
     bindR (py_get req ''namespace'' (JStr [])) (\<lambda>namespace.
     bindR (py_get req ''operation'' (JStr [])) (\<lambda>operation.
     bindR (bindR (py_get req ''kind'' (JObj [])) (\<lambda>k. py_get k ''kind'' (JStr []))) (\<lambda>kind.
     bindR (build_image_pin_patches st now req) (\<lambda>pins.
     bindR (if namespace = JStr ''chutes'' \<and> \<not> (kind = JStr ''Pod'' \<and> operation \<noteq> JStr ''CREATE'')
            then build_sa_token_patches req else Inr []) (\<lambda>tokens.
     let patches = pins @ tokens in
     bindR (if patches \<noteq> []
            then bindR (py_gets req [''object'', ''metadata'']) (\<lambda>m.
                 bindR (py_get m ''generateName'' (JStr ''?'')) (\<lambda>_. Inr ()))
            else Inr ()) (\<lambda>_.
     bindR (uid_str uid) (\<lambda>u. Inr
       \<lparr>ab_uid = u, ab_allowed = True, ab_status = None, ab_warnings = None,
        ab_patch_type = (if patches \<noteq> [] then Some ''JSONPatch'' else None),
        ab_patch = (if patches \<noteq> [] then Some patches else None)\<rparr>)))))))))"

definition handle_mutate :: "cosign_state \<Rightarrow> time \<Rightarrow> json res \<Rightarrow> http_reply" where
  "handle_mutate st now body =
     (case bindR body (mutate_body st now) of
        Inr b \<Rightarrow> Review b
      | Inl e \<Rightarrow> if e = JSONDecodeError then ErrorReply 400 ''Invalid JSON''
                 else Review \<lparr>ab_uid = ''unknown'', ab_allowed = True, ab_status = None,
                        ab_warnings = None, ab_patch_type = None, ab_patch = None\<rparr>)"

section \<open>The authorization webhook\<close>

text \<open>A SubjectAccessReview status: \<open>allowed\<close> stays false in all of them.\<close>

datatype sar_status = NoOpinion | SarDenied string

fun any_prefix :: "json \<Rightarrow> string list \<Rightarrow> bool res" where
  "any_prefix name [] = Inr False"
| "any_prefix name (p # ps) =
     (case name of
        JStr s \<Rightarrow> if startswith s p then Inr True else any_prefix name ps
      | _ \<Rightarrow> Inl (AttributeError ''startswith''))"

text \<open>\<open>d.get(k) == v\<close> conjoined with \<open>and\<close>: the rest is evaluated only after a match.\<close>

definition and_eq :: "json \<Rightarrow> string \<Rightarrow> string \<Rightarrow> bool res \<Rightarrow> bool res" where
  "and_eq d k v rest = bindR (py_get d k JNull) (\<lambda>x. if x = JStr v then rest else Inr False)"

definition evaluate_authorization_raw :: "admission_config \<Rightarrow> json \<Rightarrow> json \<Rightarrow> sar_status res" where
  "evaluate_authorization_raw acfg spec resource_attrs =
     (if \<not> truthy resource_attrs then Inr NoOpinion
      else
        bindR (and_eq spec ''user'' ''miner''
               (and_eq resource_attrs ''resource'' ''pods''
               (and_eq resource_attrs ''subresource'' ''log''
               (and_eq resource_attrs ''namespace'' ''chutes'' (Inr True))))) (\<lambda>is_miner_chutes_log.
        if \<not> is_miner_chutes_log then Inr NoOpinion
        else
          bindR (py_get resource_attrs ''name'' (JStr [])) (\<lambda>name.
          bindR (any_prefix name (authz_allowed_log_prefixes acfg)) (\<lambda>is_allowed_pod.
          Inr (if is_allowed_pod then NoOpinion
               else SarDenied (''Log access denied for pod '' @ [CHR 0x27] @ py_str name @ [CHR 0x27]
                      @ '' in namespace '' @ [CHR 0x27] @ ''chutes'' @ [CHR 0x27]))))))"

definition handle_authorize :: "admission_config \<Rightarrow> json res \<Rightarrow> sar_status" where
  "handle_authorize acfg body =
     (case bindR body (\<lambda>data.
           bindR (py_get data ''spec'' JNull) (\<lambda>s.
           let spec = (if truthy s then s else JObj []) in
           bindR (py_get spec ''resourceAttributes'' JNull)
             (evaluate_authorization_raw acfg spec))) of
        Inr status \<Rightarrow> status
      | Inl _ \<Rightarrow> SarDenied ''Authorization webhook internal error'')"

section \<open>Health\<close>

definition health_check :: "(string \<times> bool res) list \<Rightarrow> bool \<times> (string \<times> bool) list" where
  "health_check checks =
     (let entry = (\<lambda>(name, r). (name, case r of Inr b \<Rightarrow> b | Inl _ \<Rightarrow> False))
      in (\<forall>(name, h) \<in> set (map entry checks). h, map entry checks))"

definition handle_health :: "(string \<times> bool res) list \<Rightarrow> http_reply" where
  "handle_health checks =
     (case health_check checks of (ok, vs) \<Rightarrow> Health (if ok then 200 else 503) ok vs)"

definition handle_ready :: "(string \<times> bool res) list \<Rightarrow> http_reply" where
  "handle_ready checks =
     (if fst (health_check checks) then Ready 200 True else Ready 503 False)"

section \<open>The batched access log\<close>

record batch_log =
  bl_validate_ok :: nat
  bl_mutate_ok :: nat
  bl_authorize_ok :: nat
  bl_last_flush :: time

text \<open>\<open>_maybe_flush\<close>, with the counts of the line it logs, if it logs one.\<close>

definition maybe_flush :: "batch_log \<Rightarrow> time \<Rightarrow> batch_log \<times> (nat \<times> nat \<times> nat) option" where
  "maybe_flush bl now =
     (if now - bl_last_flush bl < 60 then (bl, None)
      else
        (\<lparr>bl_validate_ok = 0, bl_mutate_ok = 0, bl_authorize_ok = 0, bl_last_flush = now\<rparr>,
         if 0 < bl_validate_ok bl + bl_mutate_ok bl + bl_authorize_ok bl
         then Some (bl_validate_ok bl, bl_mutate_ok bl, bl_authorize_ok bl) else None))"

definition batch_filter ::
  "batch_log \<Rightarrow> string \<Rightarrow> time \<Rightarrow> batch_log \<times> (nat \<times> nat \<times> nat) option \<times> bool" where
  "batch_filter bl msg now =
     (let is_ok = contains msg ''200'';
          (bl1, suppress) =
            (if is_ok \<and> contains msg ''/validate'' then (bl\<lparr>bl_validate_ok := bl_validate_ok bl + 1\<rparr>, True)
             else if is_ok \<and> contains msg ''/mutate'' then (bl\<lparr>bl_mutate_ok := bl_mutate_ok bl + 1\<rparr>, True)
             else if is_ok \<and> contains msg ''/authorize''
             then (bl\<lparr>bl_authorize_ok := bl_authorize_ok bl + 1\<rparr>, True)
             else (bl, False));
          (bl2, line) = maybe_flush bl1 now
      in (bl2, line, \<not> suppress))"

section \<open>What the validating webhook admits\<close>

lemma collect_allowed:
  "fst (collect rs ok msgs warns) \<longleftrightarrow> ok \<and> (\<forall>(name, r) \<in> set rs. \<exists>v. r = Inr v \<and> allowed v)"
  by (induction rs ok msgs warns rule: collect.induct) auto

lemma collect_explained:
  assumes "\<And>name v. (name, Inr v) \<in> set rs \<Longrightarrow> \<not> allowed v \<Longrightarrow> messages v \<noteq> []"
    and "ok \<or> msgs \<noteq> []" and "collect rs ok msgs warns = (False, msgs', warns')"
  shows "msgs' \<noteq> []"
  using assms
proof (induction rs ok msgs warns rule: collect.induct)
  case (3 name r rs ok msgs warns)
  then show ?case by (auto split: if_splits)
qed auto

lemma respond_Inr:
  "respond uid (ok, msgs, warns) = Inr b \<Longrightarrow> ab_allowed b = ok \<and> (ab_status b \<noteq> None \<longleftrightarrow> msgs \<noteq> [])"
  by (auto simp: respond_def build_response_def bindR_Inr_iff uid_str_def split: json.splits)

lemma validate_error_denies: "validate_error review e = Inr (Review b) \<Longrightarrow> \<not> ab_allowed b \<and> ab_status b \<noteq> None"
  by (auto simp: validate_error_def bindR_Inr_iff)

lemma validate_admission_Inr:
  assumes "validate_admission acfg cfg env st review = (st', Inr b)"
  obtains results msgs warns where
    "gather_results acfg cfg env st review = (st', results)"
    "collect results True [] [] = (ab_allowed b, msgs, warns)" "ab_status b \<noteq> None \<longleftrightarrow> msgs \<noteq> []"
proof -
  obtain results uid where r: "gather_results acfg cfg env st review = (st', results)"
    "respond uid (collect results True [] []) = Inr b"
    using assms by (auto simp: validate_admission_def split: sum.splits prod.splits)
  obtain ok msgs warns where c: "collect results True [] [] = (ok, msgs, warns)"
    by (metis prod_cases3)
  with r(2) respond_Inr[of uid ok msgs warns b] show ?thesis by (intro that[OF r(1)]) auto
qed

lemma gather_results_explained:
  assumes "gather_results acfg cfg env st review = (st', results)"
    and "(name, Inr v) \<in> set results" "\<not> allowed v"
  shows "messages v \<noteq> []"
  using assms cosign_validator.denial_explained registry_validator.denial_explained
    opa_validator.denial_explained
  by (auto simp: gather_results_def split: prod.splits) (metis snd_conv)+


lemma handle_validate_Review:
  assumes "handle_validate acfg cfg env st (Inr review) = (st', Inr (Review b))"
  obtains "validate_admission acfg cfg env st review = (st', Inr b)"
    | "\<not> ab_allowed b" "ab_status b \<noteq> None"
  using assms validate_error_denies
  by (auto simp: handle_validate_def split: sum.splits prod.splits if_splits)

lemma handle_validate_allowed:
  assumes "handle_validate acfg cfg env st (Inr review) = (st', Inr (Review b))" and "ab_allowed b"
  obtains r1 r2 r3 where
    "opa_validate (ce_post env) acfg review = Inr r1" "allowed r1"
    "registry_validate acfg review = Inr r2" "allowed r2"
    "cosign_validate acfg cfg (ce_cosign env) (ce_clock env) (ce_order env) st review = (st', Inr r3)"
    "allowed r3"
proof -
  from assms have "validate_admission acfg cfg env st review = (st', Inr b)"
    by (auto elim: handle_validate_Review)
  then obtain results msgs warns where g: "gather_results acfg cfg env st review = (st', results)"
    and "collect results True [] [] = (ab_allowed b, msgs, warns)"
    by (rule validate_admission_Inr)
  then have "\<forall>(name, r) \<in> set results. \<exists>v. r = Inr v \<and> allowed v"
    using collect_allowed[of results True "[]" "[]"] assms(2) by simp
  with g that show ?thesis
    by (auto simp: gather_results_def split: prod.splits)
qed

text \<open>
  C1: the validating webhook, end to end. When it answers "allowed" to the creation or update of a
  pod, or of a resource that creates pods, in the namespace \<open>chutes\<close> under an enforcing policy,
  then OPA answered and found no violation, and every image comes from an allow-listed registry and
  is signed: configured for verification with the deployment's public key and confirmed by cosign
  with that key in this request, or pinned to a digest that was confirmed before.
\<close>

theorem chutes_admission_is_safe:
  assumes "lists_set (ce_order env)"
    and "handle_validate acfg cfg env st (Inr review) = (st', Inr (Review b))" and "ab_allowed b"
    and "pod_request review (JStr ''chutes'') images" and "img \<in> set images"
    and "get_namespace_policy acfg (JStr ''chutes'') = Inr p" "\<not> np_exempt p" "np_mode p = Enforce"
  shows "is_registry_allowed acfg (extract_registry img) \<and>
    (\<exists>request. py_get review ''request'' (JObj []) = Inr request \<and>
       query_opa (ce_post env) (opa_query_input acfg request p) = Inr []) \<and>
    (\<exists>vc key. image_config cfg img = Inr (Some vc) \<and> require_signature vc \<and>
       verification_method vc = Key \<and> public_key vc = Some key \<and>
       chutes_cosign_public_key_path acfg = Some key \<and>
       ((\<exists>d. cosign_verify (ce_cosign env) img vc = Inr (True, d)) \<or>
        is_digest_pinned_reference img \<and>
          img \<in> positive st \<union> trusted_refs (ce_cosign env) cfg (set images)))"
proof -
  obtain r1 r2 r3 where r:
    "opa_validate (ce_post env) acfg review = Inr r1" "allowed r1"
    "registry_validate acfg review = Inr r2" "allowed r2"
    "cosign_validate acfg cfg (ce_cosign env) (ce_clock env) (ce_order env) st review = (st', Inr r3)"
    "allowed r3"
    using assms(2,3) by (rule handle_validate_allowed)
  obtain request where req: "py_get review ''request'' (JObj []) = Inr request"
      "py_get request ''namespace'' (JStr ''default'') = Inr (JStr ''chutes'')"
    using assms(4) unfolding pod_request_def by blast
  have "is_registry_allowed acfg (extract_registry img)"
    using registry_validate_pod_request[OF assms(4,6,7)] r(3,4) assms(5,8)
      registry_violations_Nil_iff[of acfg images] by (auto simp: Let_def split: if_splits)
  moreover have "query_opa (ce_post env) (opa_query_input acfg request p) = Inr []"
    using opa_validate_run[OF req assms(6,7), of "ce_post env"] r(1,2) assms(8)
      opa_recover_allowed[of "query_opa (ce_post env) (opa_query_input acfg request p)" "np_mode p"]
    by auto
  ultimately show ?thesis
    using chutes_images_are_signed[OF assms(1) r(5,6) assms(4,5)] req(1) by blast
qed

text \<open>
  Every denial of the validating webhook carries a message, whichever of the validators denied
  or raised; the controller relies for it on the contract of the validators.
\<close>

theorem denials_carry_a_message:
  assumes "handle_validate acfg cfg env st (Inr review) = (st', Inr (Review b))" and "\<not> ab_allowed b"
  shows "\<exists>m. ab_status b = Some m"
  using assms(1)
proof (cases rule: handle_validate_Review)
  case 1
  then obtain results msgs warns where g: "gather_results acfg cfg env st review = (st', results)"
    "collect results True [] [] = (ab_allowed b, msgs, warns)" "ab_status b \<noteq> None \<longleftrightarrow> msgs \<noteq> []"
    by (rule validate_admission_Inr)
  from g(2) assms(2) have g2: "collect results True [] [] = (False, msgs, warns)" by simp
  have "msgs \<noteq> []"
    by (rule collect_explained[OF _ _ g2]) (use gather_results_explained[OF g(1)] in auto)
  with g(3) show ?thesis by auto
qed auto

section \<open>What the other webhooks guarantee\<close>

lemma any_prefix_str: "any_prefix (JStr s) ps = Inr (\<exists>p \<in> set ps. startswith s p)"
  by (induction ps) auto

lemma any_prefix_Inr_True: "any_prefix v ps = Inr True \<Longrightarrow> \<exists>s. v = JStr s"
  by (induction ps) (auto split: json.splits)

text \<open>
  The authorization webhook denies the user \<open>miner\<close> the logs of a pod in the namespace
  \<open>chutes\<close> unless the pod's name starts with an allowed prefix; a name that is no string is denied
  as well.
\<close>

theorem miner_log_access_guarded:
  assumes "map_of data ''spec'' = Some (JObj spec)"
    and "map_of spec ''user'' = Some (JStr ''miner'')"
    and "map_of spec ''resourceAttributes'' = Some (JObj attrs)"
    and "map_of attrs ''resource'' = Some (JStr ''pods'')"
    and "map_of attrs ''subresource'' = Some (JStr ''log'')"
    and "map_of attrs ''namespace'' = Some (JStr ''chutes'')"
  shows "handle_authorize acfg (Inr (JObj data)) = NoOpinion \<longleftrightarrow>
     (\<exists>name p. (case map_of attrs ''name'' of Some v \<Rightarrow> v | None \<Rightarrow> JStr []) = JStr name \<and>
        p \<in> set (authz_allowed_log_prefixes acfg) \<and> startswith name p)"
proof -
  let ?name = "case map_of attrs ''name'' of Some v \<Rightarrow> v | None \<Rightarrow> JStr []"
  have ne: "spec \<noteq> []" "attrs \<noteq> []" using assms by auto
  have "handle_authorize acfg (Inr (JObj data)) = NoOpinion \<longleftrightarrow>
      any_prefix ?name (authz_allowed_log_prefixes acfg) = Inr True"
    using assms ne
    by (cases "any_prefix ?name (authz_allowed_log_prefixes acfg)")
       (simp_all add: handle_authorize_def evaluate_authorization_raw_def and_eq_def)
  also have "\<dots> \<longleftrightarrow> (\<exists>name p. ?name = JStr name \<and> p \<in> set (authz_allowed_log_prefixes acfg) \<and>
      startswith name p)"
    using any_prefix_Inr_True[of ?name] any_prefix_str by fastforce
  finally show ?thesis .
qed

text \<open>
  The authorization webhook fails closed. It expresses no opinion only on a body that parses to
  an object, and any exception on the way is a denial.
\<close>

theorem authorization_fails_closed:
  "handle_authorize acfg body = NoOpinion \<longrightarrow>
     (\<exists>data spec attrs. body = Inr (JObj data) \<and>
        (case map_of data ''spec'' of Some s \<Rightarrow> if truthy s then s else JObj [] | None \<Rightarrow> JObj []) = JObj spec \<and>
        (case map_of spec ''resourceAttributes'' of Some a \<Rightarrow> a | None \<Rightarrow> JNull) = attrs \<and>
        evaluate_authorization_raw acfg (JObj spec) attrs = Inr NoOpinion)"
proof
  assume "handle_authorize acfg body = NoOpinion"
  then obtain data s attrs where d: "body = Inr data" "py_get data ''spec'' JNull = Inr s"
      "py_get (if truthy s then s else JObj []) ''resourceAttributes'' JNull = Inr attrs"
      "evaluate_authorization_raw acfg (if truthy s then s else JObj []) attrs = Inr NoOpinion"
    by (auto simp: handle_authorize_def Let_def bindR_Inr_iff split: sum.splits)
  from d(2) obtain kvs where kvs: "data = JObj kvs"
      "s = (case map_of kvs ''spec'' of None \<Rightarrow> JNull | Some y \<Rightarrow> y)"
    by (auto simp: py_get_Inr_iff)
  from d(3) obtain spec where spec: "(if truthy s then s else JObj []) = JObj spec"
      "attrs = (case map_of spec ''resourceAttributes'' of None \<Rightarrow> JNull | Some y \<Rightarrow> y)"
    by (auto simp: py_get_Inr_iff)
  have "(case map_of kvs ''spec'' of Some s \<Rightarrow> if truthy s then s else JObj [] | None \<Rightarrow> JObj []) = JObj spec"
    using spec(1) kvs(2) by (cases "map_of kvs ''spec''") auto
  moreover have "evaluate_authorization_raw acfg (JObj spec) attrs = Inr NoOpinion"
    using d(4) spec(1) by simp
  ultimately show "\<exists>data spec attrs. body = Inr (JObj data) \<and>
        (case map_of data ''spec'' of Some s \<Rightarrow> if truthy s then s else JObj [] | None \<Rightarrow> JObj []) = JObj spec \<and>
        (case map_of spec ''resourceAttributes'' of Some a \<Rightarrow> a | None \<Rightarrow> JNull) = attrs \<and>
        evaluate_authorization_raw acfg (JObj spec) attrs = Inr NoOpinion"
    using d(1) kvs(1) spec(2) by blast
qed

subsection \<open>Image pins\<close>

text \<open>The pod spec a path prefix of the patches stands for.\<close>

definition pod_spec_at :: "json \<Rightarrow> string \<Rightarrow> json \<Rightarrow> bool" where
  "pod_spec_at request json_prefix spec \<longleftrightarrow>
     (\<exists>path. (json_prefix, path) \<in> set
        [(''/spec/'', [''object'', ''spec'']),
         (''/spec/template/spec/'', [''object'', ''spec'', ''template'', ''spec'']),
         (''/spec/jobTemplate/spec/template/spec/'',
          [''object'', ''spec'', ''jobTemplate'', ''spec'', ''template'', ''spec''])] \<and>
        py_gets request path = Inr spec)"

definition pins_container :: "cosign_state \<Rightarrow> time \<Rightarrow> string \<Rightarrow> nat \<Rightarrow> json \<Rightarrow> json_patch \<Rightarrow> bool" where
  "pins_container st now json_prefix idx container patch \<longleftrightarrow>
     (\<exists>img name d. py_get container ''image'' (JStr []) = Inr (JStr img) \<and>
        \<not> is_digest_pinned_reference img \<and> get_pinned_digest st img now = Some d \<and>
        strip_tag img = Inr name \<and>
        patch = \<lparr>jp_op = ''replace'', jp_path = json_prefix @ ''/'' @ str_int (int idx) @ ''/image'',
                 jp_value = JStr (name @ ''@'' @ d)\<rparr>)"

lemma image_str_Inr: "image_str v = Inr img \<longleftrightarrow> v = JStr img"
  by (cases v) (auto simp: image_str_def)

lemma pin_patch_sound:
  "okR (\<lambda>ps. \<forall>patch \<in> set ps. pins_container st now json_prefix idx c patch)
     (pin_patch st now json_prefix idx c)"
  unfolding pin_patch_def
  by (intro okR_intros)
     (auto simp: image_str_Inr pins_container_def intro!: okR_bindI split: option.split list.split)

lemma pin_patches_sound:
  "pin_patches st now json_prefix idx cs = Inr ps \<Longrightarrow> patch \<in> set ps \<Longrightarrow>
   \<exists>i < length cs. pins_container st now json_prefix (idx + i) (cs ! i) patch"
proof (induction st now json_prefix idx cs arbitrary: ps rule: pin_patches.induct)
  case (2 st now json_prefix idx c cs)
  then obtain p1 p2 where p: "pin_patch st now json_prefix idx c = Inr p1"
      "pin_patches st now json_prefix (Suc idx) cs = Inr p2" "patch \<in> set p1 \<or> patch \<in> set p2"
    by (auto simp: appendR_Inr_iff)
  from p(3) show ?case
  proof
    assume "patch \<in> set p1"
    with okRD[OF pin_patch_sound p(1)] show ?thesis by (intro exI[of _ 0]) simp
  next
    assume "patch \<in> set p2"
    with 2(1)[OF p(2)] obtain i where "i < length cs"
      "pins_container st now json_prefix (Suc idx + i) (cs ! i) patch" by auto
    then show ?thesis by (intro exI[of _ "Suc i"]) simp
  qed
qed simp

text \<open>The place a patch of a pod spec names.\<close>

definition pins_in_spec :: "cosign_state \<Rightarrow> time \<Rightarrow> string \<Rightarrow> json \<Rightarrow> json_patch \<Rightarrow> bool" where
  "pins_in_spec st now json_prefix spec patch \<longleftrightarrow>
     (\<exists>key v cs i. key \<in> {''containers'', ''initContainers''} \<and> py_get spec key (JList []) = Inr v \<and>
        py_iter v = Inr cs \<and> i < length cs \<and>
        pins_container st now (json_prefix @ key) i (cs ! i) patch)"

lemma py_item_get: "py_item v k = Inr x \<Longrightarrow> py_get v k d = Inr x"
  by (auto simp: py_item_def split: json.splits option.splits)

lemma pin_spec_sound:
  assumes "\<And>v k x. fetch v k = Inr x \<Longrightarrow> py_get v k (JList []) = Inr x"
    and "pin_spec st now fetch spec json_prefix = Inr ps" "patch \<in> set ps"
  shows "pins_in_spec st now json_prefix spec patch"
proof -
  from assms(2,3) have "\<exists>key \<in> {''containers'', ''initContainers''}. \<exists>ps'.
      pin_field st now fetch spec key json_prefix = Inr ps' \<and> patch \<in> set ps'"
    unfolding pin_spec_def appendR_Inr_iff by auto
  then obtain key ps' where key: "key \<in> {''containers'', ''initContainers''}"
      "pin_field st now fetch spec key json_prefix = Inr ps'" "patch \<in> set ps'"
    by blast
  then obtain v cs where v: "fetch spec key = Inr v" "py_iter v = Inr cs"
      "pin_patches st now (json_prefix @ key) 0 cs = Inr ps'"
    by (auto simp: pin_field_def maybe_pin_def bindR_Inr_iff split: if_splits)
  obtain i where "i < length cs" "pins_container st now (json_prefix @ key) i (cs ! i) patch"
    using pin_patches_sound[OF v(3) key(3)] by auto
  with assms(1)[OF v(1)] v(2) key(1) show ?thesis unfolding pins_in_spec_def by blast
qed

text \<open>
  C9: every image patch of the mutating webhook replaces the image of an existing container, at the
  path of that very container, by the same name with the digest cosign verified for the image the
  container asks for; an image that is pinned already is left alone.
\<close>

theorem image_patches_are_sound:
  assumes "build_image_pin_patches st now request = Inr ps" and "patch \<in> set ps"
  shows "\<exists>json_prefix spec. pod_spec_at request json_prefix spec \<and>
     pins_in_spec st now json_prefix spec patch"
proof -
  from assms obtain obj spec p1 p2 p3 where obj: "py_get request ''object'' (JObj []) = Inr obj"
      "py_get obj ''spec'' (JObj []) = Inr spec"
    and p1: "pin_spec st now (\<lambda>v k. py_get v k (JList [])) spec ''/spec/'' = Inr p1"
    and p2: "bindR (py_gets spec [''template'', ''spec'']) (\<lambda>tpl_spec.
        if truthy tpl_spec then pin_spec st now py_item tpl_spec ''/spec/template/spec/'' else Inr []) = Inr p2"
    and p3: "bindR (py_gets spec [''jobTemplate'', ''spec'', ''template'', ''spec'']) (\<lambda>jt_spec.
        if truthy jt_spec then pin_spec st now py_item jt_spec ''/spec/jobTemplate/spec/template/spec/''
        else Inr []) = Inr p3"
    and "patch \<in> set p1 \<or> patch \<in> set p2 \<or> patch \<in> set p3"
    unfolding build_image_pin_patches_def bindR_Inr_iff appendR_Inr_iff by force
  from this(6) consider "patch \<in> set p1" | "patch \<in> set p2" | "patch \<in> set p3" by blast
  then show ?thesis
  proof cases
    case 1
    with p1 obj pin_spec_sound[OF _ p1, of patch] show ?thesis
      by (intro exI[of _ "''/spec/''"] exI[of _ spec]) (simp add: pod_spec_at_def)
  next
    case 2
    with p2 obtain tpl where "py_gets spec [''template'', ''spec''] = Inr tpl"
        "pin_spec st now py_item tpl ''/spec/template/spec/'' = Inr p2"
      unfolding bindR_Inr_iff by (auto split: if_splits)
    with 2 obj pin_spec_sound[of py_item st now tpl "''/spec/template/spec/''" p2 patch, OF py_item_get]
    show ?thesis
      by (intro exI[of _ "''/spec/template/spec/''"] exI[of _ tpl]) (simp add: pod_spec_at_def)
  next
    case 3
    with p3 obtain tpl where "py_gets spec [''jobTemplate'', ''spec'', ''template'', ''spec''] = Inr tpl"
        "pin_spec st now py_item tpl ''/spec/jobTemplate/spec/template/spec/'' = Inr p3"
      unfolding bindR_Inr_iff by (auto split: if_splits)
    with 3 obj pin_spec_sound[of py_item st now tpl
        "''/spec/jobTemplate/spec/template/spec/''" p3 patch, OF py_item_get]
    show ?thesis
      by (intro exI[of _ "''/spec/jobTemplate/spec/template/spec/''"] exI[of _ tpl])
         (simp add: pod_spec_at_def)
  qed
qed

subsection \<open>Service account tokens\<close>

text \<open>
  In the namespace \<open>chutes\<close> the mutating webhook takes the service account token away from
  every workload but the agent: for a pod that is created, or for a resource with a pod template,
  it adds \<open>automountServiceAccountToken: false\<close> to the pod spec unless it is there already, or the
  workload carries the agent's label and image (which does not exempt a \<open>Job\<close>).
\<close>

theorem sa_token_removed_unless_agent:
  assumes "bindR (py_get req ''kind'' (JObj [])) (\<lambda>k. py_get k ''kind'' (JStr [])) = Inr (JStr kind)"
    and "kind \<in> set (''Pod'' # template_kinds)"
    and "py_get req ''object'' (JObj []) = Inr obj"
    and "py_gets obj (if kind = ''Pod'' then [] else [''spec'', ''template'']) = Inr template"
    and "py_gets template [''metadata'', ''labels''] = Inr labels"
    and "py_gets template [''spec''] = Inr spec"
    and "bindR (py_get spec ''containers'' (JList [])) (is_agent_workload labels) = Inr agent"
    and "py_get spec ''automountServiceAccountToken'' JNull = Inr automount"
  shows "build_sa_token_patches req = Inr
     (if agent \<and> kind \<noteq> ''Job'' \<or> automount = JBool False then []
      else [\<lparr>jp_op = ''add'',
             jp_path = (if kind = ''Pod'' then ''/spec/automountServiceAccountToken''
                        else ''/spec/template/spec/automountServiceAccountToken''),
             jp_value = JBool False\<rparr>])"
proof (cases "kind = ''Pod''")
  case True
  with assms show ?thesis
    by (simp add: build_sa_token_patches_def agent_or_patch_def sa_token_patch_def)
next
  case False
  with assms(2) have "JStr kind \<in> JStr ` set template_kinds" by simp
  with False assms show ?thesis
    by (simp add: build_sa_token_patches_def agent_or_patch_def sa_token_patch_def)
qed

text \<open>
  For a \<open>CronJob\<close> as Kubernetes has it, with its pod spec under
  \<open>spec.jobTemplate.spec.template.spec\<close> and nothing at \<open>spec.jobTemplate.template\<close>, the webhook adds
  the patch whatever the pod spec says: it looks for the current value in the wrong place.
\<close>

theorem cronjob_token_setting_never_seen:
  assumes "bindR (py_get req ''kind'' (JObj [])) (\<lambda>k. py_get k ''kind'' (JStr [])) = Inr (JStr ''CronJob'')"
    and "py_gets req [''object'', ''spec'', ''jobTemplate''] = Inr (JObj jt)"
    and "map_of jt ''template'' = None"
  shows "build_sa_token_patches req = Inr
     [\<lparr>jp_op = ''add'', jp_path = ''/spec/jobTemplate/spec/template/spec/automountServiceAccountToken'',
       jp_value = JBool False\<rparr>]"
proof -
  obtain obj spec where "py_get req ''object'' (JObj []) = Inr obj" "py_get obj ''spec'' (JObj []) = Inr spec"
    "py_get spec ''jobTemplate'' (JObj []) = Inr (JObj jt)"
    using assms(2) by (auto simp: bindR_Inr_iff)
  moreover have "JStr ''CronJob'' \<notin> JStr ` set template_kinds" by (simp add: template_kinds_def)
  ultimately show ?thesis
    using assms(1,3) by (simp add: build_sa_token_patches_def sa_token_patch_def bindR_def split: sum.splits)
qed

subsection \<open>The access log\<close>

text \<open>A run of the filter over messages and instants: the lines it logs and the records it keeps.\<close>

fun batch_run :: "batch_log \<Rightarrow> (string \<times> time) list \<Rightarrow> batch_log \<times> (nat \<times> nat \<times> nat) list \<times> nat" where
  "batch_run bl [] = (bl, [], 0)"
| "batch_run bl ((msg, now) # ms) =
     (case batch_filter bl msg now of
        (bl1, line, keep) \<Rightarrow>
          (case batch_run bl1 ms of
             (bl2, lines, kept) \<Rightarrow>
               (bl2, (case line of Some l \<Rightarrow> l # lines | None \<Rightarrow> lines),
                (if keep then Suc kept else kept))))"

definition pending_count :: "batch_log \<Rightarrow> nat" where
  "pending_count bl = bl_validate_ok bl + bl_mutate_ok bl + bl_authorize_ok bl"

definition line_count :: "nat \<times> nat \<times> nat \<Rightarrow> nat" where
  "line_count l = (case l of (a, b, c) \<Rightarrow> a + b + c)"

lemma batch_filter_counts:
  assumes "batch_filter bl msg now = (bl', line, keep)"
  shows "pending_count bl' + (case line of Some l \<Rightarrow> line_count l | None \<Rightarrow> 0)
     = pending_count bl + (if keep then 0 else 1)"
  using assms
  by (auto simp: batch_filter_def maybe_flush_def pending_count_def line_count_def Let_def split: if_splits)

text \<open>
  The batched access log loses nothing: over any run, the requests counted in the lines it
  logged, those still pending and the records it let through add up to all the records, plus what
  was pending at the start.
\<close>

theorem batch_log_conserves_requests:
  "batch_run bl ms = (bl', lines, kept) \<longrightarrow>
     sum_list (map line_count lines) + pending_count bl' + kept = pending_count bl + length ms"
proof (induction ms arbitrary: bl bl' lines kept)
  case Nil
  then show ?case by simp
next
  case (Cons m ms)
  obtain msg now where m: "m = (msg, now)" by fastforce
  obtain bl1 line keep where f: "batch_filter bl msg now = (bl1, line, keep)" by (metis prod_cases3)
  obtain bl2 lines2 kept2 where r: "batch_run bl1 ms = (bl2, lines2, kept2)" by (metis prod_cases3)
  from Cons.IH r have "sum_list (map line_count lines2) + pending_count bl2 + kept2
      = pending_count bl1 + length ms" by blast
  with batch_filter_counts[OF f] show ?case
    by (auto simp: m f r split: option.split)
qed

section \<open>The example deployment\<close>

definition sample_controller_env :: controller_env where
  "sample_controller_env = \<lparr>ce_post = (\<lambda>_. Inr (200, JObj [])), ce_cosign = sample_env,
     ce_clock = (\<lambda>_. (0, 1)), ce_order = list_in_order chutes_rules\<rparr>"

definition review_allowed :: "'s \<times> http_reply res \<Rightarrow> bool option" where
  "review_allowed out = (case snd out of Inr (Review b) \<Rightarrow> Some (ab_allowed b) | _ \<Rightarrow> None)"

lemma review_allowedE:
  assumes "review_allowed out = Some v" obtains st' b where "out = (st', Inr (Review b))" "ab_allowed b = v"
  using assms by (cases out) (auto simp: review_allowed_def split: sum.splits http_reply.splits)

theorem chutes_admission_is_safe_witness:
  "\<exists>vc. image_config sample_cosign_config sample_tag = Inr (Some vc) \<and> verification_method vc = Key"
proof -
  have "review_allowed (handle_validate sample_admission_config sample_cosign_config sample_controller_env
      cosign_init (Inr (sample_review sample_tag))) = Some True"
    by code_simp
  then obtain st' b where b: "handle_validate sample_admission_config sample_cosign_config
      sample_controller_env cosign_init (Inr (sample_review sample_tag)) = (st', Inr (Review b))"
      "ab_allowed b" by (auto elim: review_allowedE)
  have order: "lists_set (ce_order sample_controller_env)"
    by (simp add: sample_controller_env_def chutes_order)
  have policy: "get_namespace_policy sample_admission_config (JStr ''chutes'') = Inr default_namespace_policy"
    by (simp add: get_namespace_policy_def sample_admission_config_def)
  show ?thesis
    using chutes_admission_is_safe[OF order b sample_pod_request _ policy, of sample_tag]
    by (auto simp: default_namespace_policy_def)
qed

theorem denials_carry_a_message_witness:
  "\<exists>st' b m. handle_validate sample_admission_config sample_cosign_config sample_controller_env cosign_init
      (Inr (sample_review ''x'')) = (st', Inr (Review b)) \<and> ab_status b = Some m"
proof -
  have "review_allowed (handle_validate sample_admission_config sample_cosign_config sample_controller_env
      cosign_init (Inr (sample_review ''x''))) = Some False"
    by code_simp
  then obtain st' b where b: "handle_validate sample_admission_config sample_cosign_config
      sample_controller_env cosign_init (Inr (sample_review ''x'')) = (st', Inr (Review b))"
      "\<not> ab_allowed b" by (auto elim: review_allowedE)
  from denials_carry_a_message[OF b] b(1) show ?thesis by blast
qed

theorem miner_log_access_guarded_witness:
  "handle_authorize sample_admission_config (Inr (JObj [(''spec'', JObj [(''user'', JStr ''miner''),
     (''resourceAttributes'', JObj [(''resource'', JStr ''pods''), (''subresource'', JStr ''log''),
       (''namespace'', JStr ''chutes''), (''name'', JStr ''p'')])])])) \<noteq> NoOpinion"
proof -
  let ?a = "[(''resource'', JStr ''pods''), (''subresource'', JStr ''log''),
       (''namespace'', JStr ''chutes''), (''name'', JStr ''p'')]"
  let ?s = "[(''user'', JStr ''miner''), (''resourceAttributes'', JObj ?a)]"
  show ?thesis
    using miner_log_access_guarded[of "[(''spec'', JObj ?s)]" ?s ?a sample_admission_config]
    by (simp add: sample_admission_config_def)
qed

theorem authorization_fails_closed_witness:
  "handle_authorize sample_admission_config (Inl JSONDecodeError) \<noteq> NoOpinion"
  using authorization_fails_closed[of sample_admission_config "Inl JSONDecodeError"] by auto

definition sample_request :: json where
  "sample_request = JObj [(''kind'', JObj [(''kind'', JStr ''Pod'')]),
     (''object'', JObj [(''spec'', JObj [(''containers'',
        JList [JObj [(''image'', JStr sample_tag)]])])])]"

theorem image_patches_are_sound_witness:
  "\<exists>json_prefix spec patch. pod_spec_at sample_request json_prefix spec \<and>
     pins_in_spec (w_st sample_world) 0 json_prefix spec patch"
proof -
  let ?p = "\<lparr>jp_op = ''replace'', jp_path = ''/spec/containers/0/image'',
     jp_value = JStr ''r.io/o/p@sha256:ab''\<rparr>"
  have "build_image_pin_patches (w_st sample_world) 0 sample_request = Inr [?p]" by code_simp
  from image_patches_are_sound[OF this, of ?p] show ?thesis by auto
qed

theorem sa_token_removed_unless_agent_witness:
  "build_sa_token_patches sample_request = Inr [\<lparr>jp_op = ''add'',
     jp_path = ''/spec/automountServiceAccountToken'', jp_value = JBool False\<rparr>]"
proof -
  let ?spec = "JObj [(''containers'', JList [JObj [(''image'', JStr sample_tag)]])]"
  show ?thesis
    using sa_token_removed_unless_agent[of sample_request "''Pod''" "JObj [(''spec'', ?spec)]"
        "JObj [(''spec'', ?spec)]" "JObj []" ?spec False JNull]
    by (simp add: sample_request_def is_agent_workload_def sample_tag_def)
qed

theorem cronjob_token_setting_never_seen_witness:
  "build_sa_token_patches (JObj [(''kind'', JObj [(''kind'', JStr ''CronJob'')]),
     (''object'', JObj [(''spec'', JObj [(''jobTemplate'', JObj [(''spec'', JObj [(''template'',
        JObj [(''spec'', JObj [(''automountServiceAccountToken'', JBool False)])])])])])])]) \<noteq> Inr []"
  (is "build_sa_token_patches ?req \<noteq> _")
  using cronjob_token_setting_never_seen[of ?req "[(''spec'', JObj [(''template'',
        JObj [(''spec'', JObj [(''automountServiceAccountToken'', JBool False)])])])]"] by simp

theorem batch_log_conserves_requests_witness:
  "\<exists>bl' lines kept. batch_run \<lparr>bl_validate_ok = 0, bl_mutate_ok = 0, bl_authorize_ok = 0, bl_last_flush = 0\<rparr>
      [(''POST /validate 200'', 1), (''GET /health 200'', 70)] = (bl', lines, kept) \<and>
     sum_list (map line_count lines) + pending_count bl' + kept = 2"
proof -
  let ?bl = "\<lparr>bl_validate_ok = 0, bl_mutate_ok = 0, bl_authorize_ok = 0, bl_last_flush = 0\<rparr>"
  let ?ms = "[(''POST /validate 200'', 1), (''GET /health 200'', 70)]"
  obtain bl' lines kept where "batch_run ?bl ?ms = (bl', lines, kept)" by (metis prod_cases3)
  with batch_log_conserves_requests[of ?bl ?ms bl' lines kept] show ?thesis
    by (auto simp: pending_count_def)
qed

end
