(* ===== verification/Auth.thy ===== *)
theory Auth
  imports Sek8s_Prelude
begin

text \<open>
  Request signatures and the common web server, \<open>src/src/sek8s-common/sek8s_common/\<close>:
  \<open>auth.py\<close> (\<open>authorize\<close>, \<open>verify_validator_signature\<close>), \<open>config.py\<close> (\<open>allowed_validators\<close>),
  \<open>server.py\<close> (\<open>body_sha256\<close>, the middleware that hashes the body; \<open>uvicorn_kwargs\<close>, the choice
  between a Unix socket, TLS and plain TCP). The key pairs and SHA-256 come from packages: loading
  a key, checking a signature and the hash function are arguments, gathered in \<open>crypto\<close>.
  The lemmas say exactly which requests are accepted and what a signature binds.
\<close>

section \<open>Requests and settings\<close>

record http_request =
  rq_method :: string
  rq_path :: string
  rq_body :: string
  rq_hotkey :: "string option"
  rq_validator :: "string option"
  rq_nonce :: "string option"
  rq_signature :: "string option"

record auth_config =
  miner_ss58 :: "string option"
  allowed_validators_str :: "string option"

record 'k crypto =
  get_keypair :: "string \<Rightarrow> 'k res"
  kp_verify :: "'k \<Rightarrow> string \<Rightarrow> nat list \<Rightarrow> bool res"
  sha256_hex :: "string \<Rightarrow> string"

definition allowed_validators :: "auth_config \<Rightarrow> string list" where
  "allowed_validators settings =
     (case allowed_validators_str settings of
        None \<Rightarrow> []
      | Some s \<Rightarrow> if s = [] then []
                  else filter (\<lambda>item. item \<noteq> []) (map strip (split_on (CHR '','') s)))"

text \<open>The middleware: a body is hashed for the three methods that carry one, outside the skip list.\<close>

definition body_sha256 :: "'k crypto \<Rightarrow> string list \<Rightarrow> http_request \<Rightarrow> string option" where
  "body_sha256 C skip rq =
     (if rq_method rq \<in> {''POST'', ''PUT'', ''PATCH''} \<and> rq_path rq \<notin> set skip
      then if rq_body rq \<noteq> [] then Some (sha256_hex C (rq_body rq)) else None
      else None)"

text \<open>A header or a hash that is absent or empty counts as missing.\<close>

definition given :: "string option \<Rightarrow> bool" where
  "given v = (case v of Some (c # cs) \<Rightarrow> True | _ \<Rightarrow> False)"

definition hex_value :: "char \<Rightarrow> nat option" where
  "hex_value c =
     (let n = (of_char c :: nat) in
      if 48 \<le> n \<and> n \<le> 57 then Some (n - 48)
      else if 97 \<le> n \<and> n \<le> 102 then Some (n - 87)
      else if 65 \<le> n \<and> n \<le> 70 then Some (n - 55)
      else None)"

definition ascii_space :: "char \<Rightarrow> bool" where
  "ascii_space c = (let n = (of_char c :: nat) in n = 32 \<or> (9 \<le> n \<and> n \<le> 13))"

text \<open>\<open>bytes.fromhex\<close>: pairs of hexadecimal digits, white space between the pairs.\<close>

fun from_hex :: "string \<Rightarrow> nat list res" where
  "from_hex [] = Inr []"
| "from_hex [c] = (if ascii_space c then Inr [] else Inl (ValueError ''non-hexadecimal number found''))"
| "from_hex (c # d # cs) =
     (if ascii_space c then from_hex (d # cs)
      else case (hex_value c, hex_value d) of
             (Some h, Some l) \<Rightarrow> bindR (from_hex cs) (\<lambda>bs. Inr ((16 * h + l) # bs))
           | _ \<Rightarrow> Inl (ValueError ''non-hexadecimal number found''))"

section \<open>authorize\<close>

definition allowed_signers :: "auth_config \<Rightarrow> bool \<Rightarrow> bool \<Rightarrow> string list res" where
  "allowed_signers settings allow_miner allow_validator =
     bindR (if allow_miner then
              (if \<not> given (miner_ss58 settings)
               then Inl (HTTPException 500 ''Server misconfiguration: miner_ss58 not configured'')
               else Inr [the (miner_ss58 settings)])
            else Inr []) (\<lambda>miners.
     if allow_validator then
       (if allowed_validators settings = []
        then Inl (HTTPException 500 ''Server misconfiguration: allowed_validators not configured'')
        else Inr (miners @ allowed_validators settings))
     else Inr miners)"

abbreviation go_away :: exn where
  "go_away \<equiv> HTTPException 401 ''go away (missing)''"

definition check_signature :: "'k crypto \<Rightarrow> string \<Rightarrow> string \<Rightarrow> string \<Rightarrow> bool res" where
  "check_signature C signer message signature =
     bindR (get_keypair C signer) (\<lambda>kp.
     bindR (from_hex signature) (\<lambda>bytes. kp_verify C kp message bytes))"

definition payload_id :: "'k crypto \<Rightarrow> string list \<Rightarrow> string option \<Rightarrow> http_request \<Rightarrow> string option" where
  "payload_id C skip purpose rq =
     (let sha = body_sha256 C skip rq in if given sha then sha else purpose)"

definition authorize ::
  "'k crypto \<Rightarrow> auth_config \<Rightarrow> string list \<Rightarrow> bool \<Rightarrow> bool \<Rightarrow> string option \<Rightarrow> int \<Rightarrow> http_request
   \<Rightarrow> unit res" where
  "authorize C settings skip allow_miner allow_validator purpose now rq =
     bindR (allowed_signers settings allow_miner allow_validator) (\<lambda>signers.
     if \<not> given (rq_hotkey rq) \<or> \<not> given (rq_nonce rq) \<or> \<not> given (rq_signature rq) \<or>
        the (rq_hotkey rq) \<notin> set signers
     then Inl go_away
     else
       let hotkey = the (rq_hotkey rq); nonce = the (rq_nonce rq); signature = the (rq_signature rq) in
       case py_int nonce of
         None \<Rightarrow> Inl go_away
       | Some nonce_int \<Rightarrow>
           if now - nonce_int \<ge> 30 \<or> nonce_int > now + 5 then Inl go_away
           else
             (case payload_id C skip purpose rq of
                None \<Rightarrow> Inl (HTTPException 401 ''Missing payload identifier'')
              | Some payload \<Rightarrow>
                  bindR (check_signature C hotkey (join_with '':'' [hotkey, nonce, payload]) signature)
                    (\<lambda>ok. if \<not> ok then Inl (HTTPException 401 ''Invalid signature'') else Inr ())))"

text \<open>The arguments of \<open>authorize\<close> that are the same for all routes of a server, applied to who may call.\<close>

type_synonym gate = "bool \<Rightarrow> bool \<Rightarrow> string option \<Rightarrow> http_request \<Rightarrow> unit res"

definition server_gate :: "'k crypto \<Rightarrow> auth_config \<Rightarrow> string list \<Rightarrow> int \<Rightarrow> gate" where
  "server_gate C settings skip now m v purpose rq = authorize C settings skip m v purpose now rq"

section \<open>verify_validator_signature\<close>

definition nonce_max_age_seconds :: int where
  "nonce_max_age_seconds = 30"

definition check_nonce :: "string \<Rightarrow> int \<Rightarrow> unit res" where
  "check_nonce nonce now =
     (case py_int nonce of
        None \<Rightarrow> Inl (HTTPException 401 ''Invalid nonce format (must be Unix timestamp)'')
      | Some t \<Rightarrow>
          let age = now - t in
          if age \<ge> nonce_max_age_seconds then
            Inl (HTTPException 401 (''Nonce expired (age: '' @ str_int age @ ''s, max: ''
                  @ str_int nonce_max_age_seconds @ ''s)''))
          else if age < 0 then Inl (HTTPException 401 ''Invalid nonce (future timestamp)'')
          else Inr ())"

text \<open>
  The last \<open>try\<close>: a \<open>ValueError\<close> becomes the format error; the second clause catches every other
  exception, also the "Invalid signature" raised inside the block.
\<close>

definition signature_verdict :: "bool res \<Rightarrow> bool res" where
  "signature_verdict outcome =
     (case bindR outcome (\<lambda>ok. if \<not> ok then Inl (HTTPException 401 ''Invalid signature'') else Inr True) of
        Inr b \<Rightarrow> Inr b
      | Inl (ValueError m) \<Rightarrow> Inl (HTTPException 401 ''Invalid signature format (must be hex)'')
      | Inl _ \<Rightarrow> Inl (HTTPException 401 ''Signature verification failed''))"

definition verify_validator_signature ::
  "'k crypto \<Rightarrow> auth_config \<Rightarrow> string list \<Rightarrow> int \<Rightarrow> http_request \<Rightarrow> bool res" where
  "verify_validator_signature C settings skip now rq =
     (if \<not> given (rq_validator rq) \<or> \<not> given (rq_nonce rq) \<or> \<not> given (rq_signature rq) then
        Inl (HTTPException 401 ''Incomplete authentication: requires X-Chutes-Validator, X-Chutes-Nonce, X-Chutes-Signature'')
      else
        let validator = the (rq_validator rq); nonce = the (rq_nonce rq);
            signature = the (rq_signature rq) in
        if validator \<notin> set (allowed_validators settings) then
          Inl (HTTPException 403 ''Validator not authorized'')
        else
          bindR (check_nonce nonce now) (\<lambda>_.
          let sha = body_sha256 C skip rq;
              payload_hash = (if given sha then the sha else rq_path rq) in
          signature_verdict (check_signature C validator
            (validator @ '':'' @ nonce @ '':'' @ payload_hash) signature)))"

section \<open>The server's socket\<close>

record server_config =
  bind_address :: string
  port :: int
  uds_path :: "string option"
  require_tls :: bool
  tls_cert_path :: "string option"
  tls_key_path :: "string option"
  client_ca_path :: "string option"
  mtls_required :: bool

text \<open>
  The validators of the settings: a blank path is no path, a path must exist, the directory of the
  socket must exist, the port must be one. \<open>parent\<close> is the directory part of a path.
\<close>

definition normalize_empty :: "string option \<Rightarrow> string option" where
  "normalize_empty v = (case v of None \<Rightarrow> None | Some s \<Rightarrow> if strip s = [] then None else Some s)"

definition validate_path :: "(string \<Rightarrow> bool) \<Rightarrow> string option \<Rightarrow> unit res" where
  "validate_path path_exists v =
     (case v of
        None \<Rightarrow> Inr ()
      | Some p \<Rightarrow> if \<not> path_exists p then Inl (ValueError (''Path does not exist: '' @ p)) else Inr ())"

definition validate_uds_directory :: "(string \<Rightarrow> bool) \<Rightarrow> (string \<Rightarrow> string) \<Rightarrow> string option \<Rightarrow> unit res" where
  "validate_uds_directory path_exists parent v =
     (case v of
        None \<Rightarrow> Inr ()
      | Some p \<Rightarrow> if \<not> path_exists (parent p)
                  then Inl (ValueError (''Directory for UDS path does not exist: '' @ p)) else Inr ())"

definition load_server_config ::
  "(string \<Rightarrow> bool) \<Rightarrow> (string \<Rightarrow> string) \<Rightarrow> server_config \<Rightarrow> server_config res" where
  "load_server_config path_exists parent raw =
     (let cfg = raw\<lparr>uds_path := normalize_empty (uds_path raw),
                   tls_cert_path := normalize_empty (tls_cert_path raw),
                   tls_key_path := normalize_empty (tls_key_path raw),
                   client_ca_path := normalize_empty (client_ca_path raw)\<rparr> in
      if \<not> (1 \<le> port cfg \<and> port cfg \<le> 65535) then Inl (ValueError ''port'')
      else
        bindR (validate_uds_directory path_exists parent (uds_path cfg)) (\<lambda>_.
        bindR (validate_path path_exists (tls_cert_path cfg)) (\<lambda>_.
        bindR (validate_path path_exists (tls_key_path cfg)) (\<lambda>_.
        bindR (validate_path path_exists (client_ca_path cfg)) (\<lambda>_. Inr cfg)))))"

datatype transport =
    UnixSocket string
  | TlsTcp string int string string "string option"  \<comment> \<open>certificate, key, CA of required client certificates\<close>
  | PlainTcp string int

definition uvicorn_kwargs :: "(string \<Rightarrow> bool) \<Rightarrow> server_config \<Rightarrow> transport res" where
  "uvicorn_kwargs file_exists cfg =
     (case uds_path cfg of
        Some path \<Rightarrow> Inr (UnixSocket path)
      | None \<Rightarrow>
          (case (tls_cert_path cfg, tls_key_path cfg) of
             (Some cert, Some key) \<Rightarrow>
               if mtls_required cfg then
                 (case client_ca_path cfg of
                    Some ca \<Rightarrow>
                      if file_exists ca
                      then Inr (TlsTcp (bind_address cfg) (port cfg) cert key (Some ca))
                      else Inl (ValueError ''mTLS requires valid client CA certificate'')
                  | None \<Rightarrow> Inl (ValueError ''mTLS requires valid client CA certificate''))
               else Inr (TlsTcp (bind_address cfg) (port cfg) cert key None)
           | _ \<Rightarrow>
               if require_tls cfg
               then Inl (ValueError ''TLS certificate and key are required for TCP connections'')
               else Inr (PlainTcp (bind_address cfg) (port cfg))))"

section \<open>Which requests are accepted\<close>

lemma given_iff: "given v \<longleftrightarrow> (\<exists>s. v = Some s \<and> s \<noteq> [])"
  by (auto simp: given_def split: option.splits list.splits)

lemma allowed_signers_Inr:
  "allowed_signers settings m v = Inr signers \<Longrightarrow> s \<in> set signers \<Longrightarrow>
     m \<and> miner_ss58 settings = Some s \<or> v \<and> s \<in> set (allowed_validators settings)"
  by (auto simp: allowed_signers_def given_iff split: if_splits)

lemma authorize_signer:
  assumes "authorize C settings skip m v purpose now rq = Inr ()"
  obtains s where "rq_hotkey rq = Some s" "m \<and> miner_ss58 settings = Some s \<or> v \<and> s \<in> set (allowed_validators settings)"
proof -
  obtain signers where "allowed_signers settings m v = Inr signers" "given (rq_hotkey rq)" "the (rq_hotkey rq) \<in> set signers"
    using assms by (auto simp: authorize_def bindR_Inr_iff split: if_splits)
  then show ?thesis using that allowed_signers_Inr by (metis given_iff option.sel)
qed

lemma authorize_steps:
  "authorize C settings skip allow_miner allow_validator purpose now rq = Inr () \<longleftrightarrow>
     (\<exists>signers hotkey nonce signature t payload.
        allowed_signers settings allow_miner allow_validator = Inr signers \<and>
        rq_hotkey rq = Some hotkey \<and> rq_nonce rq = Some nonce \<and> rq_signature rq = Some signature \<and>
        hotkey \<noteq> [] \<and> nonce \<noteq> [] \<and> signature \<noteq> [] \<and> hotkey \<in> set signers \<and>
        py_int nonce = Some t \<and> now - 30 < t \<and> t \<le> now + 5 \<and>
        payload_id C skip purpose rq = Some payload \<and>
        check_signature C hotkey (hotkey @ '':'' @ nonce @ '':'' @ payload) signature = Inr True)"
  (is "?l \<longleftrightarrow> ?r")
proof
  show "?l \<Longrightarrow> ?r"
    by (auto simp: authorize_def bindR_Inr_iff given_iff Let_def split: if_splits option.splits)
  show "?r \<Longrightarrow> ?l"
    by (auto simp: authorize_def given_iff Let_def)
qed

lemma given_iff_not_Nil: "given (Some x) \<longleftrightarrow> x \<noteq> []" "\<not> given None"
  by (cases x) (simp_all add: given_def)

lemma allowed_validators_set:
  "v \<in> set (allowed_validators settings) \<longleftrightarrow>
     v \<noteq> [] \<and> (\<exists>s w. allowed_validators_str settings = Some s \<and> w \<in> set (split_on (CHR '','') s) \<and> v = strip w)"
proof (cases "allowed_validators_str settings")
  case None
  then show ?thesis by (simp add: allowed_validators_def)
next
  case (Some t)
  have "strip [] = []" by code_simp
  then have "set (allowed_validators settings) = {v \<in> strip ` set (split_on (CHR '','') t). v \<noteq> []}"
    using Some by (cases "t = []") (simp_all only: allowed_validators_def option.case if_True if_False split_on.simps set_filter set_map
        list.set image_insert image_empty, auto)
  then show ?thesis using Some by auto
qed

lemma signers_exactly:
  assumes "hotkey \<noteq> []"
  shows "(\<exists>signers. allowed_signers settings m v = Inr signers \<and> hotkey \<in> set signers) \<longleftrightarrow>
      (if m then miner_ss58 settings \<notin> {None, Some []} else True) \<and>
      (if v then (\<exists>s w. allowed_validators_str settings = Some s \<and> w \<in> set (split_on (CHR '','') s) \<and> strip w \<noteq> []) else True) \<and>
      (m \<and> miner_ss58 settings = Some hotkey \<or>
       v \<and> (\<exists>s w. allowed_validators_str settings = Some s \<and> w \<in> set (split_on (CHR '','') s) \<and> hotkey = strip w))"
proof -
  have g: "given (miner_ss58 settings) \<longleftrightarrow> miner_ss58 settings \<notin> {None, Some []}"
    by (cases "miner_ss58 settings") (auto simp: given_iff_not_Nil)
  have e: "allowed_validators settings \<noteq> [] \<longleftrightarrow>
      (\<exists>s w. allowed_validators_str settings = Some s \<and> w \<in> set (split_on (CHR '','') s) \<and> strip w \<noteq> [])"
  proof -
    have "allowed_validators settings \<noteq> [] \<longleftrightarrow> (\<exists>v. v \<in> set (allowed_validators settings))" by (cases "allowed_validators settings") auto
    then show ?thesis unfolding allowed_validators_set by blast
  qed
  have h: "hotkey \<in> set (allowed_validators settings) \<longleftrightarrow>
      (\<exists>s w. allowed_validators_str settings = Some s \<and> w \<in> set (split_on (CHR '','') s) \<and> hotkey = strip w)"
    using assms by (simp add: allowed_validators_set)
  show ?thesis unfolding e[symmetric] h[symmetric] g[symmetric]
    by (cases m; cases v) (auto simp: allowed_signers_def given_iff)
qed

text \<open>
  C5: \<open>authorize\<close> lets a request pass exactly when its hot key is the miner's, if the route admits the miner, or an entry of the
  list of validators, if it admits validators (what a route admits must be configured); the nonce is an integer less than
  30 seconds old and at most 5 seconds ahead; and the key pair of the hot key verifies the bytes of the signature over
  hot key, nonce and the hash of the body, or the route's purpose where no body is hashed.
\<close>

theorem authorize_accepts_exactly:
  "authorize C settings skip allow_miner allow_validator purpose now rq = Inr () \<longleftrightarrow>
     (\<exists>hotkey nonce signature t payload kp sig_bytes.
        rq_hotkey rq = Some hotkey \<and> rq_nonce rq = Some nonce \<and> rq_signature rq = Some signature \<and>
        hotkey \<noteq> [] \<and> nonce \<noteq> [] \<and> signature \<noteq> [] \<and>
        (if allow_miner then miner_ss58 settings \<notin> {None, Some []} else True) \<and>
        (if allow_validator then (\<exists>s v. allowed_validators_str settings = Some s \<and> v \<in> set (split_on (CHR '','') s) \<and> strip v \<noteq> []) else True) \<and>
        (allow_miner \<and> miner_ss58 settings = Some hotkey \<or>
         allow_validator \<and> (\<exists>s v. allowed_validators_str settings = Some s \<and> v \<in> set (split_on (CHR '','') s) \<and> hotkey = strip v)) \<and>
        py_int nonce = Some t \<and> now - 30 < t \<and> t \<le> now + 5 \<and>
        (if rq_method rq \<in> {''POST'', ''PUT'', ''PATCH''} \<and> rq_path rq \<notin> set skip \<and> rq_body rq \<noteq> [] \<and> sha256_hex C (rq_body rq) \<noteq> []
         then Some (sha256_hex C (rq_body rq)) else purpose) = Some payload \<and>
        get_keypair C hotkey = Inr kp \<and> from_hex signature = Inr sig_bytes \<and>
        kp_verify C kp (hotkey @ '':'' @ nonce @ '':'' @ payload) sig_bytes = Inr True)"
  (is "?l \<longleftrightarrow> ?r")
proof -
  have l: "?l \<longleftrightarrow> (\<exists>signers hotkey nonce signature t payload.
        allowed_signers settings allow_miner allow_validator = Inr signers \<and>
        rq_hotkey rq = Some hotkey \<and> rq_nonce rq = Some nonce \<and> rq_signature rq = Some signature \<and>
        hotkey \<noteq> [] \<and> nonce \<noteq> [] \<and> signature \<noteq> [] \<and> hotkey \<in> set signers \<and>
        py_int nonce = Some t \<and> now - 30 < t \<and> t \<le> now + 5 \<and>
        payload_id C skip purpose rq = Some payload \<and>
        check_signature C hotkey (hotkey @ '':'' @ nonce @ '':'' @ payload) signature = Inr True)"
    by (rule authorize_steps)
  have p: "payload_id C skip purpose rq =
      (if rq_method rq \<in> {''POST'', ''PUT'', ''PATCH''} \<and> rq_path rq \<notin> set skip \<and> rq_body rq \<noteq> [] \<and> sha256_hex C (rq_body rq) \<noteq> []
       then Some (sha256_hex C (rq_body rq)) else purpose)"
    by (simp add: payload_id_def body_sha256_def Let_def given_iff_not_Nil)
  have c: "check_signature C hotkey msg signature = Inr True \<longleftrightarrow>
      (\<exists>kp sig_bytes. get_keypair C hotkey = Inr kp \<and> from_hex signature = Inr sig_bytes \<and> kp_verify C kp msg sig_bytes = Inr True)"
    for hotkey msg signature
    by (auto simp: check_signature_def bindR_Inr_iff)
  have s: "(\<exists>signers. allowed_signers settings allow_miner allow_validator = Inr signers \<and> hotkey \<in> set signers) \<longleftrightarrow>
      (if allow_miner then miner_ss58 settings \<notin> {None, Some []} else True) \<and>
      (if allow_validator then (\<exists>s v. allowed_validators_str settings = Some s \<and> v \<in> set (split_on (CHR '','') s) \<and> strip v \<noteq> []) else True) \<and>
      (allow_miner \<and> miner_ss58 settings = Some hotkey \<or>
       allow_validator \<and> (\<exists>s v. allowed_validators_str settings = Some s \<and> v \<in> set (split_on (CHR '','') s) \<and> hotkey = strip v))"
    if "hotkey \<noteq> []" for hotkey
    by (rule signers_exactly[OF that])
  define S1 where "S1 = (if allow_miner then miner_ss58 settings \<notin> {None, Some []} else True)"
  define S2 where "S2 = (if allow_validator then (\<exists>s v. allowed_validators_str settings = Some s \<and> v \<in> set (split_on (CHR '','') s) \<and> strip v \<noteq> []) else True)"
  define S3 where "S3 hotkey = (allow_miner \<and> miner_ss58 settings = Some hotkey \<or>
       allow_validator \<and> (\<exists>s v. allowed_validators_str settings = Some s \<and> v \<in> set (split_on (CHR '','') s) \<and> hotkey = strip v))" for hotkey
  note s' = s[folded S1_def S2_def S3_def]
  show ?thesis unfolding l p c S1_def[symmetric] S2_def[symmetric] S3_def[symmetric]
    by (intro iffI; elim exE conjE) (metis s')+
qed

lemma set_strip: "set s \<subseteq> set (strip s) \<union> {c. is_space c}"
proof -
  have "set t \<subseteq> set (dropWhile is_space t) \<union> {c. is_space c}" for t
    by (induction t) auto
  from this[of s] this[of "rev (dropWhile is_space s)"] show ?thesis
    by (auto simp: strip_def)
qed

lemma digit_groups_chars: "digit_groups u \<Longrightarrow> c \<in> set u \<Longrightarrow> is_digit c \<or> c = CHR ''_''"
  by (induction u rule: digit_groups.induct) (auto split: if_splits)

lemma py_int_no_colon: "py_int s = Some n \<Longrightarrow> CHR '':'' \<notin> set s"
proof
  assume n: "py_int s = Some n" and c: "CHR '':'' \<in> set s"
  have "CHR '':'' \<in> set (strip s)"
    using set_strip[of s] c by (auto simp: is_space_def)
  then obtain d ds where s: "strip s = d # ds" "CHR '':'' \<in> set (d # ds)" by (cases "strip s") auto
  from n s have "digit_groups (if d = CHR ''-'' \<or> d = CHR ''+'' then ds else d # ds)"
    by (auto simp: py_int_def Let_def split: if_splits)
  moreover have no: "digit_groups u \<Longrightarrow> CHR '':'' \<notin> set u" for u
    using digit_groups_chars[of u "CHR '':''"] by (auto simp: is_digit_def)
  ultimately show False
    using s(2) no[of ds] no[of "d # ds"] by (cases "d = CHR ''-'' \<or> d = CHR ''+''") auto
qed

lemma message_injective:
  assumes "h @ '':'' @ n @ '':'' @ p = h' @ '':'' @ n' @ '':'' @ p'"
    and "CHR '':'' \<notin> set n" "CHR '':'' \<notin> set n'" "CHR '':'' \<notin> set p" "CHR '':'' \<notin> set p'"
  shows "h = h' \<and> n = n' \<and> p = p'"
proof -
  have cut: "rsplit_once (CHR '':'') (a @ '':'' @ b) = (a, b)" if "CHR '':'' \<notin> set b" for a b
    using rsplit_once_append[OF that, of a] by simp
  have "(h @ '':'' @ n, p) = rsplit_once (CHR '':'') ((h @ '':'' @ n) @ '':'' @ p)"
    using cut[OF assms(4), of "h @ '':'' @ n"] by simp
  also have "\<dots> = rsplit_once (CHR '':'') ((h' @ '':'' @ n') @ '':'' @ p')"
    using assms(1) by simp
  also have "\<dots> = (h' @ '':'' @ n', p')" by (rule cut[OF assms(5)])
  finally have p: "h @ '':'' @ n = h' @ '':'' @ n'" "p = p'" by simp_all
  have "(h, n) = rsplit_once (CHR '':'') (h @ '':'' @ n)" using cut[OF assms(2)] by simp
  also have "\<dots> = (h', n')" unfolding p(1) by (rule cut[OF assms(3)])
  finally show ?thesis using p(2) by simp
qed


text \<open>
  \<open>verify_validator_signature\<close> returns true for a listed validator with a nonce between zero and
  29 seconds old and a valid signature over validator, nonce and body hash (or path), and in every
  other case raises an HTTP error with status 401 or 403; no other exception escapes.
\<close>

theorem validator_signature_verified_or_rejected:
  "(verify_validator_signature C settings skip now rq = Inr True \<and>
      (\<exists>v nonce signature t. rq_validator rq = Some v \<and> v \<in> set (allowed_validators settings) \<and>
         rq_nonce rq = Some nonce \<and> py_int nonce = Some t \<and> now - 30 < t \<and> t \<le> now \<and>
         rq_signature rq = Some signature \<and>
         check_signature C v (v @ '':'' @ nonce @ '':'' @
           (if given (body_sha256 C skip rq) then the (body_sha256 C skip rq) else rq_path rq)) signature
         = Inr True)) \<or>
   (\<exists>code m. verify_validator_signature C settings skip now rq = Inl (HTTPException code m) \<and>
      code \<in> {401, 403})"
proof (cases "given (rq_validator rq) \<and> given (rq_nonce rq) \<and> given (rq_signature rq)")
  case False
  then show ?thesis by (auto simp: verify_validator_signature_def)
next
  case True
  then obtain v nonce signature where g: "rq_validator rq = Some v" "rq_nonce rq = Some nonce"
      "rq_signature rq = Some signature" "v \<noteq> []" "nonce \<noteq> []" "signature \<noteq> []"
    by (auto simp: given_iff)
  let ?sig = "check_signature C v (v @ '':'' @ nonce @ '':'' @
     (if given (body_sha256 C skip rq) then the (body_sha256 C skip rq) else rq_path rq)) signature"
  have run: "verify_validator_signature C settings skip now rq =
     (if v \<notin> set (allowed_validators settings) then Inl (HTTPException 403 ''Validator not authorized'')
      else bindR (check_nonce nonce now) (\<lambda>_. signature_verdict ?sig))"
    using g by (simp add: verify_validator_signature_def given_iff Let_def)
  have verdict: "signature_verdict o1 = Inr True \<and> o1 = Inr True \<or>
      (\<exists>m. signature_verdict o1 = Inl (HTTPException 401 m))" for o1
    by (cases o1) (auto simp: signature_verdict_def split: exn.split)
  have nonce: "(check_nonce nonce now = Inr () \<and> (\<exists>t. py_int nonce = Some t \<and> now - 30 < t \<and> t \<le> now)) \<or>
      (\<exists>m. check_nonce nonce now = Inl (HTTPException 401 m))"
    by (auto simp: check_nonce_def nonce_max_age_seconds_def Let_def split: option.split)
  from verdict[of ?sig] nonce show ?thesis
    unfolding run using g by auto
qed

text \<open>
  A server that starts with validated settings listens as they say: on the Unix socket if one is
  set, and only then; on plain TCP only if TLS is not required; with TLS only on a certificate and a
  key that exist, and with client certificates required, from an existing CA file, exactly when
  mutual TLS is switched on.
\<close>

theorem transport_respects_tls_settings:
  assumes "load_server_config path_exists parent raw = Inr cfg" and "uvicorn_kwargs path_exists cfg = Inr t"
  shows "(\<forall>path. t = UnixSocket path \<longleftrightarrow> normalize_empty (uds_path raw) = Some path) \<and>
     (\<forall>a p. t = PlainTcp a p \<longrightarrow> \<not> require_tls raw) \<and>
     (\<forall>a p c k ca. t = TlsTcp a p c k ca \<longrightarrow> path_exists c \<and> path_exists k \<and>
        (ca = None \<longleftrightarrow> \<not> mtls_required raw) \<and> (\<forall>f. ca = Some f \<longrightarrow> path_exists f))"
proof -
  have cfg: "uds_path cfg = normalize_empty (uds_path raw)" "require_tls cfg = require_tls raw"
      "mtls_required cfg = mtls_required raw"
      "\<And>c. tls_cert_path cfg = Some c \<Longrightarrow> path_exists c" "\<And>k. tls_key_path cfg = Some k \<Longrightarrow> path_exists k"
    using assms(1)
    by (auto simp: load_server_config_def Let_def bindR_Inr_iff validate_path_def split: if_splits)
  show ?thesis
    using assms(2) cfg(4,5) unfolding cfg(1-3)[symmetric]
    by (auto simp: uvicorn_kwargs_def split: option.splits if_splits)
qed

section \<open>An example\<close>

definition sample_crypto :: "unit crypto" where
  "sample_crypto = \<lparr>get_keypair = (\<lambda>_. Inr ()), kp_verify = (\<lambda>_ _ bytes. Inr (bytes = [171])),
     sha256_hex = (\<lambda>_. ''00'')\<rparr>"

definition sample_http :: http_request where
  "sample_http = \<lparr>rq_method = ''GET'', rq_path = ''/cache'', rq_body = [], rq_hotkey = Some ''5F'',
     rq_validator = None, rq_nonce = Some ''100'', rq_signature = Some ''ab''\<rparr>"


theorem transport_respects_tls_settings_witness:
  "(\<lambda>p. p = ''c'' \<or> p = ''k'') ''c''"
proof -
  let ?raw = "\<lparr>bind_address = ''a'', port = 1, uds_path = Some '' '', require_tls = True,
     tls_cert_path = Some ''c'', tls_key_path = Some ''k'', client_ca_path = None, mtls_required = False\<rparr>"
  have "load_server_config (\<lambda>p. p = ''c'' \<or> p = ''k'') id ?raw = Inr (?raw\<lparr>uds_path := None\<rparr>)" by code_simp
  moreover have "uvicorn_kwargs (\<lambda>p. p = ''c'' \<or> p = ''k'') (?raw\<lparr>uds_path := None\<rparr>) =
     Inr (TlsTcp ''a'' 1 ''c'' ''k'' None)" by code_simp
  ultimately show ?thesis
    using transport_respects_tls_settings[of "\<lambda>p. p = ''c'' \<or> p = ''k''" id ?raw "?raw\<lparr>uds_path := None\<rparr>"
        "TlsTcp ''a'' 1 ''c'' ''k'' None"] by blast
qed

end
