(* ===== verification/Gpu_Profiles.thy ===== *)
theory Gpu_Profiles
  imports Sek8s_Prelude
begin

text \<open>
  The GPU profile registry of the host tools: \<open>host-tools/scripts/chutes/guest/gpu/profiles.py\<close> and
  \<open>topology.py\<close>, and the validated topologies of \<open>host/support_matrix.py\<close>. A profile class is a
  record; a subclass overrides fields of its parent with a record update, and the defaults of
  \<open>GpuProfile\<close> are in \<open>base_profile\<close>. \<open>topology\<close> is the fingerprint that decides the measured
  register RTMR0. The lemmas check the registry: the CPU topology of every profile is exact, and
  the profiles that share a PCI device ID are told apart by the CPU count.
\<close>

section \<open>Topology fingerprints\<close>

datatype topology =
    NumaTopology "int list" "int list" "int list"  \<comment> \<open>node of each GPU, NVSwitch, InfiniBand device\<close>
  | FlatTopology nat nat nat  \<comment> \<open>how many of each\<close>

section \<open>Profiles\<close>

definition host_reserved_cpus_default :: int where
  "host_reserved_cpus_default = 4"

record gpu_profile =
  pf_name :: string
  pci_device_ids :: "string list"
  bar_size_mb :: int
  use_ovmf_mmio_fw_cfg :: bool
  vram_gb :: int
  ram_per_gpu_gb :: int
  host_cpus :: int
  host_sockets :: int
  host_reserved_cpus :: int
  cc_mode_args :: "nat \<Rightarrow> string list list"
  sbr_reset_args :: "string list"
  should_passthrough_nvswitches :: "nat \<Rightarrow> bool"
  should_passthrough_infiniband :: bool
  enable_numa_topology :: bool
  enable_post_launch_tuning :: bool
  requires_fabric_manager :: bool
  baselined_measurements :: "(string \<times> topology list) list"
  describe_mode :: "nat \<Rightarrow> string"

text \<open>What a class inherits from \<open>GpuProfile\<close> when it overrides only the abstract members.\<close>

definition base_profile ::
  "string \<Rightarrow> string list \<Rightarrow> int \<Rightarrow> int \<Rightarrow> int \<Rightarrow> (nat \<Rightarrow> string list list) \<Rightarrow> (nat \<Rightarrow> bool) \<Rightarrow> gpu_profile" where
  "base_profile name ids bar vram cpus cc nvswitches =
     \<lparr>pf_name = name, pci_device_ids = ids, bar_size_mb = bar, use_ovmf_mmio_fw_cfg = True,
      vram_gb = vram, ram_per_gpu_gb = vram, host_cpus = cpus, host_sockets = 1,
      host_reserved_cpus = host_reserved_cpus_default, cc_mode_args = cc,
      sbr_reset_args = [''--reset-with-sbr'', ''--reset-after-cc-mode-switch''],
      should_passthrough_nvswitches = nvswitches, should_passthrough_infiniband = False,
      enable_numa_topology = False, enable_post_launch_tuning = False,
      requires_fabric_manager = False, baselined_measurements = [],
      describe_mode = (\<lambda>_. name @ '' passthrough'')\<rparr>"

definition matches_device_id :: "gpu_profile \<Rightarrow> string \<Rightarrow> bool" where
  "matches_device_id p device_id = (\<exists>pid \<in> set (pci_device_ids p). lower device_id = lower pid)"

definition vcpus :: "gpu_profile \<Rightarrow> int" where
  "vcpus p = host_cpus p - host_reserved_cpus p"

definition cores_per_socket :: "gpu_profile \<Rightarrow> int" where
  "cores_per_socket p = vcpus p div host_sockets p"

definition smp_topology :: "gpu_profile \<Rightarrow> string" where
  "smp_topology p =
     str_int (vcpus p) @ '',sockets='' @ str_int (host_sockets p) @ '',cores=''
     @ str_int (cores_per_socket p) @ '',threads=1''"

text \<open>The union over the QEMU versions; the order stands for none, so duplicates are dropped.\<close>

definition baselined_topologies :: "gpu_profile \<Rightarrow> topology list" where
  "baselined_topologies p = remdups (concat (map snd (baselined_measurements p)))"

definition cc_mode_on :: "nat \<Rightarrow> string list list" where
  "cc_mode_on total_gpus = [[''--set-cc-mode=on'', ''--reset-after-cc-mode-switch'']]"

definition split_4_4 :: "int list" where
  "split_4_4 = [0, 0, 0, 0, 1, 1, 1, 1]"

definition b200_profile :: gpu_profile where
  "b200_profile = (base_profile ''B200'' [''2901''] 262144 192 192 cc_mode_on (\<lambda>_. False))
     \<lparr>ram_per_gpu_gb := 243, host_sockets := 2, host_reserved_cpus := 16,
      enable_numa_topology := True, enable_post_launch_tuning := True,
      requires_fabric_manager := True,
      baselined_measurements := [(''10.2.1'', [NumaTopology split_4_4 [] []])],
      describe_mode := (\<lambda>_. ''CC mode (B200)'')\<rparr>"

definition b200_xeon6_288_profile :: gpu_profile where
  "b200_xeon6_288_profile = b200_profile
     \<lparr>pf_name := ''B200_XEON6'', ram_per_gpu_gb := 369, host_cpus := 288,
      baselined_measurements := [(''10.2.1'', [NumaTopology split_4_4 [] []]),
        (''10.1.0'', [FlatTopology 8 0 0])],
      describe_mode := (\<lambda>_. ''CC mode (B200 Xeon6)'')\<rparr>"

definition b200_xeon6_256_profile :: gpu_profile where
  "b200_xeon6_256_profile = b200_profile
     \<lparr>pf_name := ''B200_XEON6_256'', ram_per_gpu_gb := 369, host_cpus := 256,
      baselined_measurements := [],
      describe_mode := (\<lambda>_. ''CC mode (B200 Xeon6 256c)'')\<rparr>"

definition b300_profile :: gpu_profile where
  "b300_profile = (base_profile ''B300'' [''3182''] 524288 288 192 cc_mode_on (\<lambda>_. False))
     \<lparr>host_sockets := 2, use_ovmf_mmio_fw_cfg := False, requires_fabric_manager := True,
      describe_mode := (\<lambda>_. ''CC mode (B300)'')\<rparr>"

definition h200_cc_mode_args :: "nat \<Rightarrow> string list list" where
  "h200_cc_mode_args total_gpus =
     (if total_gpus = 8 then
        [[''--set-cc-mode=off'', ''--reset-after-cc-mode-switch''],
         [''--set-ppcie-mode=on'', ''--reset-after-ppcie-mode-switch'']]
      else
        [[''--set-ppcie-mode=off'', ''--reset-after-ppcie-mode-switch''],
         [''--set-cc-mode=on'', ''--reset-after-cc-mode-switch'']])"

definition h200_profile :: gpu_profile where
  "h200_profile =
     (let nvswitch_on_node1 = NumaTopology split_4_4 [1, 1, 1, 1] [];
          nvswitch_on_node0 = NumaTopology split_4_4 [0, 0, 0, 0] []
      in (base_profile ''H200'' [''2335''] 262144 141 128 h200_cc_mode_args (\<lambda>total_gpus. total_gpus = 8))
        \<lparr>host_sockets := 2, enable_numa_topology := True, enable_post_launch_tuning := True,
         sbr_reset_args := [''--reset-with-sbr'', ''--reset-after-ppcie-mode-switch''],
         baselined_measurements :=
           [(''10.1.0'', [nvswitch_on_node1, nvswitch_on_node0, FlatTopology 8 4 0]),
            (''10.2.1'', [nvswitch_on_node1, nvswitch_on_node0])],
         describe_mode := (\<lambda>total_gpus. if total_gpus = 8 then ''PPCIe mode (8 GPUs, H200)''
                                        else ''CC mode (H200)'')\<rparr>)"

definition rtx_pro_6000_profile :: gpu_profile where
  "rtx_pro_6000_profile =
     (base_profile ''RTX_PRO_6000'' [''2bb1'', ''2bb5''] 131072 96 128 cc_mode_on (\<lambda>_. False))
     \<lparr>host_sockets := 2, enable_numa_topology := True, enable_post_launch_tuning := True,
      baselined_measurements := [(''10.1.0'', [NumaTopology split_4_4 [] []]),
        (''10.2.1'', [NumaTopology split_4_4 [] [], FlatTopology 8 0 0])],
      describe_mode := (\<lambda>_. ''CC mode (RTX Pro 6000)'')\<rparr>"

definition gpu_profiles :: "(string \<times> gpu_profile) list" where
  "gpu_profiles =
     [(''B200'', b200_profile), (''B200_XEON6'', b200_xeon6_288_profile),
      (''B200_XEON6_256'', b200_xeon6_256_profile), (''B300'', b300_profile),
      (''H200'', h200_profile), (''RTX_PRO_6000'', rtx_pro_6000_profile)]"

text \<open>
  \<open>gpu_models\<close> is the dictionary from BDF to profile name or \<open>default\<close>. The names are collected
  in a set, so only whether there is none, one or several matters.
\<close>

definition resolve_profile :: "(string \<times> string) list \<Rightarrow> gpu_profile res" where
  "resolve_profile gpu_models =
     (case remdups (filter (\<lambda>m. m \<noteq> ''default'') (map snd gpu_models)) of
        [] \<Rightarrow> Inl (ValueError ''No supported GPU models detected.'')
      | [model] \<Rightarrow>
          (case map_of gpu_profiles model of
             Some profile \<Rightarrow> Inr profile
           | None \<Rightarrow> Inl (ValueError (''Unsupported GPU model: '' @ model)))
      | _ \<Rightarrow> Inl (ValueError ''Mixed GPU models detected''))"

section \<open>Validated topologies\<close>

definition validated_topologies :: "(string \<times> string \<times> int) list" where
  "validated_topologies =
     [(''25.10'', ''H200'', 8), (''25.10'', ''B200'', 8), (''25.10'', ''RTX_PRO_6000'', 8),
      (''26.04'', ''H200'', 8), (''26.04'', ''B200'', 8), (''26.04'', ''RTX_PRO_6000'', 8)]"

definition is_validated_topology :: "string \<Rightarrow> string \<Rightarrow> int \<Rightarrow> bool" where
  "is_validated_topology ubuntu_version gpu_sku gpu_count \<longleftrightarrow>
     (ubuntu_version, gpu_sku, gpu_count) \<in> set validated_topologies"

section \<open>The registry is consistent\<close>

lemmas profile_defs = b200_profile_def b200_xeon6_288_profile_def b200_xeon6_256_profile_def
  b300_profile_def h200_profile_def rtx_pro_6000_profile_def base_profile_def
  host_reserved_cpus_default_def

text \<open>
  The CPU topology of every registered profile is exact: sockets times cores is the number of
  virtual CPUs, which is positive and leaves an even reserve of at least four CPUs to the host.
\<close>

theorem profile_cpu_topology_exact:
  "(name, p) \<in> set gpu_profiles \<Longrightarrow>
     0 < vcpus p \<and> host_sockets p * cores_per_socket p = vcpus p \<and>
     even (host_reserved_cpus p) \<and> 4 \<le> host_reserved_cpus p \<and>
     vcpus p + host_reserved_cpus p = host_cpus p \<and>
     pf_name p = name"
  unfolding gpu_profiles_def
  by (auto simp: profile_defs vcpus_def cores_per_socket_def Let_def)

theorem profile_cpu_topology_exact_witness:
  "host_sockets b200_xeon6_256_profile * cores_per_socket b200_xeon6_256_profile = vcpus b200_xeon6_256_profile"
  using profile_cpu_topology_exact[of "''B200_XEON6_256''" b200_xeon6_256_profile]
  by (simp add: gpu_profiles_def)

text \<open>
  The candidates of a device ID, and those with the right number of CPUs.
\<close>

definition candidates :: "string \<Rightarrow> (string \<times> gpu_profile) list" where
  "candidates device_id = filter (\<lambda>(name, p). matches_device_id p device_id) gpu_profiles"

lemma candidates_of_id:
  "candidates d \<in> {[], [(''B200'', b200_profile), (''B200_XEON6'', b200_xeon6_288_profile),
      (''B200_XEON6_256'', b200_xeon6_256_profile)], [(''B300'', b300_profile)],
     [(''H200'', h200_profile)], [(''RTX_PRO_6000'', rtx_pro_6000_profile)]}"
proof -
  have eqs: "lower ''2901'' = ''2901''" "lower ''3182'' = ''3182''" "lower ''2335'' = ''2335''"
      "lower ''2bb1'' = ''2bb1''" "lower ''2bb5'' = ''2bb5''"
    by code_simp+
  have ids: "matches_device_id b200_profile d \<longleftrightarrow> lower d = ''2901''"
    "matches_device_id b200_xeon6_288_profile d \<longleftrightarrow> lower d = ''2901''"
    "matches_device_id b200_xeon6_256_profile d \<longleftrightarrow> lower d = ''2901''"
    "matches_device_id b300_profile d \<longleftrightarrow> lower d = ''3182''"
    "matches_device_id h200_profile d \<longleftrightarrow> lower d = ''2335''"
    "matches_device_id rtx_pro_6000_profile d \<longleftrightarrow> lower d = ''2bb1'' \<or> lower d = ''2bb5''"
    by (simp_all add: matches_device_id_def profile_defs Let_def eqs)
  show ?thesis
    by (auto simp: candidates_def gpu_profiles_def ids)
qed

text \<open>
  Profiles that share a PCI device ID are told apart by the CPU count: whatever the device ID
  and the number of CPUs, at most one registered profile matches both.
\<close>

theorem profiles_distinguished_by_cpu_count:
  "length (filter (\<lambda>(name, p). matches_device_id p device_id \<and> host_cpus p = cpus) gpu_profiles) \<le> 1"
proof -
  have "filter (\<lambda>(name, p). matches_device_id p device_id \<and> host_cpus p = cpus) gpu_profiles =
      filter (\<lambda>(name, p). host_cpus p = cpus) (candidates device_id)"
    by (simp add: candidates_def filter_filter case_prod_unfold conj_commute)
  then show ?thesis
    using candidates_of_id[of device_id] by (auto simp: profile_defs Let_def)
qed

lemma distinct_set_singleton: "distinct xs \<Longrightarrow> set xs = {x} \<longleftrightarrow> xs = [x]"
  by (cases xs rule: list.exhaust; cases "tl xs") auto

text \<open>
  The models of all GPUs resolve to a profile exactly when the supported ones among them are of
  one registered model. GPUs of an unknown model are left out of the comparison, so a host that mixes
  them with supported ones is accepted.
\<close>

theorem resolve_profile_accepts_exactly:
  "resolve_profile gpu_models = Inr p \<longleftrightarrow>
     (\<exists>model. set (map snd gpu_models) - {''default''} = {model} \<and> map_of gpu_profiles model = Some p)"
proof -
  let ?ms = "remdups (filter (\<lambda>m. m \<noteq> ''default'') (map snd gpu_models))"
  have s: "set ?ms = set (map snd gpu_models) - {''default''}" by auto
  have one: "set ?ms = {model} \<longleftrightarrow> ?ms = [model]" for model
    by (rule distinct_set_singleton) simp
  have "resolve_profile gpu_models = Inr p \<longleftrightarrow> (\<exists>model. ?ms = [model] \<and> map_of gpu_profiles model = Some p)"
    by (auto simp: resolve_profile_def split: list.splits option.splits)
  then show ?thesis unfolding one[symmetric] s .
qed

end
