(* ===== verification/Host_Detection.thy ===== *)
theory Host_Detection
  imports Gpu_Profiles
begin

text \<open>
  Finding out what a host is: \<open>host-tools/scripts/chutes/guest/detection.py\<close> and the launch gates
  of \<open>guest/verify.py\<close>. What the functions read of the host (sysfs, \<open>lspci\<close>, \<open>nvidia-gpu-tools\<close>,
  \<open>qemu-system-x86_64 --version\<close>) is the record \<open>host_env\<close>; a file that cannot be read is an
  exception of the kind the code catches, and \<open>lspci\<close> itself is assumed to run. The lemmas say what it takes for a profile to be detected and for \<open>verify_host\<close> to
  answer READY.
\<close>

section \<open>The host\<close>

record host_env =
  he_cpu_present :: "string res"           \<comment> \<open>/sys/devices/system/cpu/present\<close>
  he_package_ids :: "string res list"      \<comment> \<open>physical_package_id of every CPU\<close>
  he_node_dir :: "string list res"         \<comment> \<open>entries of /sys/devices/system/node\<close>
  he_meminfo :: "string list res"          \<comment> \<open>lines of /proc/meminfo\<close>
  he_os_version :: "string option"         \<comment> \<open>VERSION_ID of /etc/os-release\<close>
  he_qemu_stdout :: "string res"           \<comment> \<open>output of qemu-system-x86_64 --version\<close>
  he_lspci :: "string list"                \<comment> \<open>lines of lspci -Dnn\<close>
  he_lspci_vv :: "string \<Rightarrow> string res"    \<comment> \<open>lspci -vv -s bdf\<close>
  he_numa_node :: "string \<Rightarrow> string res"   \<comment> \<open>numa_node file of a device\<close>
  he_is_vf :: "string \<Rightarrow> bool"             \<comment> \<open>the device has a physfn link\<close>
  he_physfn :: "string \<Rightarrow> string res"      \<comment> \<open>the device that link names\<close>
  he_gpu_tools :: "(int \<times> string list) res"  \<comment> \<open>nvidia-gpu-tools --query-cc-mode: status, output lines\<close>

definition int_of :: "string \<Rightarrow> int res" where
  "int_of s = (case py_int s of Some n \<Rightarrow> Inr n | None \<Rightarrow> Inl (ValueError ''invalid literal for int()''))"

definition default_on_error :: "'a \<Rightarrow> 'a res \<Rightarrow> 'a" where
  "default_on_error d r = (case r of Inr x \<Rightarrow> x | Inl _ \<Rightarrow> d)"

section \<open>CPUs, memory, versions\<close>

definition detect_host_cpus :: "host_env \<Rightarrow> int option" where
  "detect_host_cpus h =
     default_on_error None
       (bindR (he_cpu_present h) (\<lambda>content.
        let lst = last (split_on (CHR '','') (strip content)) in
        bindR (int_of (if CHR ''-'' \<in> set lst then split_on (CHR ''-'') lst ! 1 else lst))
          (\<lambda>n. Inr (Some (n + 1)))))"

definition detect_host_sockets :: "host_env \<Rightarrow> int option" where
  "detect_host_sockets h =
     (let packages = remdups (concat (map (\<lambda>r. case r of Inr s \<Rightarrow> [strip s] | Inl _ \<Rightarrow> []) (he_package_ids h)))
      in if packages \<noteq> [] then Some (int (length packages)) else None)"

definition detect_numa_node_count :: "host_env \<Rightarrow> nat" where
  "detect_numa_node_count h =
     (case he_node_dir h of
        Inl _ \<Rightarrow> 0
      | Inr names \<Rightarrow>
          length (filter (\<lambda>n. startswith n ''node'' \<and> (case drop 4 n of c # cs \<Rightarrow> is_digit c | [] \<Rightarrow> False)) names))"

definition words :: "string \<Rightarrow> string list" where
  "words s = filter (\<lambda>w. w \<noteq> []) (split_on CHR 0x20 (map (\<lambda>c. if is_space c then CHR 0x20 else c) s))"

fun mem_total :: "string list \<Rightarrow> int option res" where
  "mem_total [] = Inr None"
| "mem_total (l # ls) =
     (if startswith l ''MemTotal:'' then
        (case words l of
           w # v # ws \<Rightarrow> bindR (int_of v) (\<lambda>n. Inr (Some (n div (1024 * 1024))))
         | _ \<Rightarrow> Inl IndexError)
      else mem_total ls)"

definition detect_host_mem_gb :: "host_env \<Rightarrow> int option" where
  "detect_host_mem_gb h = default_on_error None (bindR (he_meminfo h) mem_total)"

definition supported_qemu_by_os :: "(string \<times> string) list" where
  "supported_qemu_by_os = [(''25.10'', ''10.1.0''), (''26.04'', ''10.2.1'')]"

text \<open>\<open>\d+(\.\d+)*\<close>, greedy, from the start of a text.\<close>

fun dotted_number :: "nat \<Rightarrow> string \<Rightarrow> string" where
  "dotted_number 0 s = []"
| "dotted_number (Suc n) s =
     (let digits = takeWhile is_digit s; rest = dropWhile is_digit s in
      case rest of
        c # d # cs \<Rightarrow>
          if digits \<noteq> [] \<and> c = CHR ''.'' \<and> is_digit d then digits @ ''.'' @ dotted_number n (d # cs)
          else digits
      | _ \<Rightarrow> digits)"

fun search_version :: "string \<Rightarrow> string option" where
  "search_version [] = None"
| "search_version (c # cs) =
     (let v = dotted_number (length (c # cs)) (drop 8 (c # cs)) in
      if startswith (c # cs) ''version '' \<and> v \<noteq> [] then Some v else search_version cs)"

definition detect_qemu_version :: "host_env \<Rightarrow> string option" where
  "detect_qemu_version h = (case he_qemu_stdout h of Inl _ \<Rightarrow> None | Inr out \<Rightarrow> search_version out)"

definition expected_qemu :: "string option \<Rightarrow> string option" where
  "expected_qemu os = (case os of None \<Rightarrow> None | Some v \<Rightarrow> map_of supported_qemu_by_os v)"

definition verify_host_qemu_supported :: "host_env \<Rightarrow> unit res" where
  "verify_host_qemu_supported h =
     (case detect_qemu_version h of
        None \<Rightarrow> Inl (ValueError ''Could not determine the host QEMU version'')
      | Some qemu_version \<Rightarrow>
          (case expected_qemu (he_os_version h) of
             None \<Rightarrow> Inl (ValueError ''Host OS release is not supported'')
           | Some expected \<Rightarrow>
               if qemu_version \<noteq> expected
               then Inl (ValueError (''Host OS ships (and we baseline) QEMU '' @ expected
                      @ '', but found QEMU '' @ qemu_version))
               else Inr ()))"

section \<open>PCI devices\<close>

definition is_hex :: "char \<Rightarrow> bool" where
  "is_hex c = (let n = (of_char c :: nat) in
     (48 \<le> n \<and> n \<le> 57) \<or> (97 \<le> n \<and> n \<le> 102) \<or> (65 \<le> n \<and> n \<le> 70))"

lemma is_hex_code [code]:
  "is_hex c = (let n = (of_char c :: int) in
     (48 \<le> n \<and> n \<le> 57) \<or> (97 \<le> n \<and> n \<le> 102) \<or> (65 \<le> n \<and> n \<le> 70))"
  by (auto simp: is_hex_def Let_def of_char_int)

text \<open>The search for \<open>[vendor:hhhh]\<close>, in any letter case.\<close>

fun extract_device_id :: "string \<Rightarrow> string \<Rightarrow> string option" where
  "extract_device_id vendor [] = None"
| "extract_device_id vendor (c # cs) =
     (let s = c # cs; pre = ''['' @ vendor @ '':''; hex = take 4 (drop (length pre) s) in
      if startswith (lower s) (lower pre) \<and> length hex = 4 \<and> list_all is_hex hex \<and>
         startswith (drop (length pre + 4) s) '']''
      then Some (lower hex) else extract_device_id vendor cs)"

definition nvidia_vendor :: string where "nvidia_vendor = ''10de''"
definition mellanox_vendor :: string where "mellanox_vendor = ''15b3''"
definition pci_device_nvswitch :: string where "pci_device_nvswitch = ''22a3''"
definition pci_class_infiniband :: string where "pci_class_infiniband = ''0207''"

definition lspci_lines :: "host_env \<Rightarrow> string \<Rightarrow> string list" where
  "lspci_lines h vendor = filter (\<lambda>line. contains line vendor) (he_lspci h)"

text \<open>The lines of a vendor that have a first word and satisfy a test, with that word, the BDF.\<close>

definition lspci_bdfs :: "host_env \<Rightarrow> string \<Rightarrow> (string \<Rightarrow> string \<Rightarrow> bool) \<Rightarrow> string list" where
  "lspci_bdfs h vendor P =
     concat (map (\<lambda>line. case words line of [] \<Rightarrow> [] | bdf # ws \<Rightarrow> if P bdf line then [bdf] else [])
       (lspci_lines h vendor))"

definition match_gpu_model :: "string \<Rightarrow> int option \<Rightarrow> string option res" where
  "match_gpu_model lspci_line cpus =
     (case extract_device_id nvidia_vendor lspci_line of
        None \<Rightarrow> Inr None
      | Some device_id \<Rightarrow>
          (case candidates device_id of
             [] \<Rightarrow> Inr None
           | [(name, p)] \<Rightarrow> Inr (Some name)
           | matches \<Rightarrow>
               (case cpus of
                  None \<Rightarrow> Inl (ValueError ''the host CPU count could not be determined to disambiguate'')
                | Some n \<Rightarrow>
                    (case filter (\<lambda>(name, p). host_cpus p = n) matches of
                       [(name, p)] \<Rightarrow> Inr (Some name)
                     | _ \<Rightarrow> Inl (ValueError ''Add a new profile for this CPU topology.'')))))"

definition is_known_gpu :: "string \<Rightarrow> bool" where
  "is_known_gpu lspci_line =
     (case extract_device_id nvidia_vendor lspci_line of
        None \<Rightarrow> False
      | Some device_id \<Rightarrow> \<exists>p \<in> snd ` set gpu_profiles. matches_device_id p device_id)"

definition detect_nvidia_gpus :: "host_env \<Rightarrow> string list" where
  "detect_nvidia_gpus h = sort (lspci_bdfs h nvidia_vendor (\<lambda>_ line. is_known_gpu line))"

definition numa_node_of :: "host_env \<Rightarrow> string \<Rightarrow> int res" where
  "numa_node_of h bdf = bindR (he_numa_node h bdf) (\<lambda>content. int_of (strip content))"

definition detect_gpu_numa_nodes :: "host_env \<Rightarrow> string list \<Rightarrow> int list" where
  "detect_gpu_numa_nodes h gpu_bdfs =
     sort (remdups (concat (map (\<lambda>bdf. case numa_node_of h bdf of
        Inr node \<Rightarrow> if 0 \<le> node then [node] else [] | Inl _ \<Rightarrow> []) gpu_bdfs)))"

text \<open>
  A BDF in the table of \<open>nvidia-gpu-tools\<close>: white space, digits, \<open>GPU\<close>, then
  \<open>hhhh:hh..hhhh:hh.d\<close>. The bus part is matched with four, three or two digits, the longest first.
\<close>

definition match_bdf_bus :: "nat \<Rightarrow> string \<Rightarrow> string option" where
  "match_bdf_bus k s =
     (let t = take (k + 10) s in
      if length t = k + 10 \<and> list_all is_hex (take 4 t) \<and> t ! 4 = CHR '':'' \<and>
         list_all is_hex (take k (drop 5 t)) \<and> t ! (5 + k) = CHR '':'' \<and>
         list_all is_hex (take 2 (drop (6 + k) t)) \<and> t ! (8 + k) = CHR ''.'' \<and> is_digit (t ! (9 + k))
      then Some t else None)"

definition match_bdf :: "string \<Rightarrow> string option" where
  "match_bdf s =
     (case match_bdf_bus 4 s of Some b \<Rightarrow> Some b
      | None \<Rightarrow> (case match_bdf_bus 3 s of Some b \<Rightarrow> Some b | None \<Rightarrow> match_bdf_bus 2 s))"

text \<open>One or more characters of a class, then the rest: with a rest that starts outside the class.\<close>

definition skip1 :: "(char \<Rightarrow> bool) \<Rightarrow> string \<Rightarrow> string option" where
  "skip1 P s = (if takeWhile P s \<noteq> [] then Some (dropWhile P s) else None)"

definition match_gpu_row :: "string \<Rightarrow> string option" where
  "match_gpu_row s =
     (case skip1 is_space s of None \<Rightarrow> None
      | Some s1 \<Rightarrow> (case skip1 is_digit s1 of None \<Rightarrow> None
      | Some s2 \<Rightarrow> (case skip1 is_space s2 of None \<Rightarrow> None
      | Some s3 \<Rightarrow> if \<not> startswith (lower s3) ''gpu'' then None else
          (case skip1 is_space (drop 3 s3) of None \<Rightarrow> None | Some s4 \<Rightarrow> match_bdf s4))))"

fun search_gpu_row :: "string \<Rightarrow> string option" where
  "search_gpu_row [] = None"
| "search_gpu_row (c # cs) =
     (case match_gpu_row (c # cs) of Some b \<Rightarrow> Some b | None \<Rightarrow> search_gpu_row cs)"

definition get_gpu_bdfs :: "host_env \<Rightarrow> string list option" where
  "get_gpu_bdfs h =
     (case he_gpu_tools h of
        Inl _ \<Rightarrow> None
      | Inr (rc, lines) \<Rightarrow>
          if rc \<noteq> 0 then None
          else let bdfs = concat (map (\<lambda>l. case search_gpu_row l of Some b \<Rightarrow> [b] | None \<Rightarrow> []) lines)
               in if bdfs \<noteq> [] then Some (sort bdfs) else None)"

definition device_numa_layout :: "host_env \<Rightarrow> string list \<Rightarrow> int list" where
  "device_numa_layout h bdfs = map (\<lambda>bdf. default_on_error (-1) (numa_node_of h bdf)) (sort bdfs)"

definition host_topology_fingerprint ::
  "host_env \<Rightarrow> gpu_profile \<Rightarrow> string list \<Rightarrow> string list \<Rightarrow> string list \<Rightarrow> topology" where
  "host_topology_fingerprint h profile gpu_bdfs nvswitch_bdfs ib_bdfs =
     (if enable_numa_topology profile \<and> detect_numa_node_count h = 2
      then NumaTopology (device_numa_layout h gpu_bdfs) (device_numa_layout h nvswitch_bdfs)
             (device_numa_layout h ib_bdfs)
      else FlatTopology (length gpu_bdfs) (length nvswitch_bdfs) (length ib_bdfs))"

definition detect_nvswitches :: "host_env \<Rightarrow> string list" where
  "detect_nvswitches h =
     sort (lspci_bdfs h nvidia_vendor
       (\<lambda>_ line. extract_device_id nvidia_vendor line = Some pci_device_nvswitch))"

fun gpu_models_of :: "int option \<Rightarrow> string list \<Rightarrow> string list \<Rightarrow> (string \<times> string) list
    \<Rightarrow> (string \<times> string) list res" where
  "gpu_models_of cpus bdfs [] result = Inr result"
| "gpu_models_of cpus bdfs (line # lines) result =
     (case words line of
        [] \<Rightarrow> gpu_models_of cpus bdfs lines result
      | bdf # ws \<Rightarrow>
          if bdf \<notin> set bdfs then gpu_models_of cpus bdfs lines result
          else bindR (match_gpu_model line cpus) (\<lambda>m.
            gpu_models_of cpus bdfs lines
              (AList.update bdf (case m of Some name \<Rightarrow> name | None \<Rightarrow> ''default'') result)))"

definition get_gpu_models_from_lspci :: "host_env \<Rightarrow> string list \<Rightarrow> (string \<times> string) list res" where
  "get_gpu_models_from_lspci h bdfs =
     gpu_models_of (detect_host_cpus h) bdfs (lspci_lines h nvidia_vendor) []"

definition is_infiniband_line :: "string \<Rightarrow> bool" where
  "is_infiniband_line line = contains line (''['' @ pci_class_infiniband @ '']'')"

definition detect_cx7_bridge_pfs :: "host_env \<Rightarrow> string list" where
  "detect_cx7_bridge_pfs h =
     sort (lspci_bdfs h mellanox_vendor (\<lambda>bdf line. is_infiniband_line line \<and> \<not> he_is_vf h bdf \<and>
       default_on_error False (bindR (he_lspci_vv h bdf) (\<lambda>out. Inr (contains out ''SMDL=SW_MNG'')))))"

definition detect_infiniband_pfs :: "host_env \<Rightarrow> string list \<Rightarrow> string list" where
  "detect_infiniband_pfs h exclude_bdfs =
     sort (lspci_bdfs h mellanox_vendor (\<lambda>bdf line. is_infiniband_line line \<and> \<not> he_is_vf h bdf \<and>
       bdf \<notin> set exclude_bdfs))"

definition detect_infiniband_vfs :: "host_env \<Rightarrow> string list \<Rightarrow> string list" where
  "detect_infiniband_vfs h pf_bdfs =
     sort (lspci_bdfs h mellanox_vendor (\<lambda>bdf line. is_infiniband_line line \<and> he_is_vf h bdf \<and>
       default_on_error False (bindR (he_physfn h bdf) (\<lambda>pf. Inr (pf \<in> set pf_bdfs)))))"

definition detect_infiniband_devices :: "host_env \<Rightarrow> string list" where
  "detect_infiniband_devices h =
     (let pfs = detect_infiniband_pfs h [] in
      if pfs = [] then []
      else let vfs = detect_infiniband_vfs h pfs in if vfs \<noteq> [] then vfs else pfs)"

section \<open>Profile detection\<close>

definition host_gpus :: "host_env \<Rightarrow> string list" where
  "host_gpus h = (case get_gpu_bdfs h of Some bdfs \<Rightarrow> bdfs | None \<Rightarrow> detect_nvidia_gpus h)"

definition host_nvswitches :: "host_env \<Rightarrow> gpu_profile \<Rightarrow> string list" where
  "host_nvswitches h profile =
     (if should_passthrough_nvswitches profile (length (host_gpus h)) then detect_nvswitches h else [])"

definition host_infiniband :: "host_env \<Rightarrow> gpu_profile \<Rightarrow> string list" where
  "host_infiniband h profile =
     (if should_passthrough_infiniband profile
      then detect_infiniband_pfs h (detect_cx7_bridge_pfs h) else [])"

text \<open>
  The error message prints \<open>sorted(baselined)\<close>. The fingerprints are data classes without an order,
  so sorting two or more of them raises a \<open>TypeError\<close> before the \<open>ValueError\<close> is built.
\<close>

definition unbaselined_error :: "topology list \<Rightarrow> exn" where
  "unbaselined_error baselined =
     (if 2 \<le> length baselined then TypeError ''not supported between instances''
      else ValueError ''Host topology is not baselined'')"

definition detect_profile :: "host_env \<Rightarrow> gpu_profile res" where
  "detect_profile h =
     (let gpu_bdfs = host_gpus h in
      if gpu_bdfs = [] then Inl (ValueError ''No GPU devices detected on this host.'')
      else
        bindR (get_gpu_models_from_lspci h gpu_bdfs) (\<lambda>gpu_models.
        bindR (resolve_profile gpu_models) (\<lambda>profile.
        if (case detect_host_sockets h of Some n \<Rightarrow> n \<noteq> host_sockets profile | None \<Rightarrow> False) then
          Inl (ValueError ''Socket count mismatch'')
        else if should_passthrough_nvswitches profile (length gpu_bdfs) \<and> detect_nvswitches h = [] then
          Inl (ValueError ''Profile requires NVSwitches but none were detected.'')
        else
          let baselined = baselined_topologies profile;
              fingerprint = host_topology_fingerprint h profile gpu_bdfs (host_nvswitches h profile)
                (host_infiniband h profile) in
          if baselined \<noteq> [] \<and> fingerprint \<notin> set baselined then Inl (unbaselined_error baselined)
          else Inr profile)))"

section \<open>verify-host\<close>

datatype verdict = READY | BLOCKED | WARNING

definition host_fingerprint :: "host_env \<Rightarrow> gpu_profile \<Rightarrow> topology" where
  "host_fingerprint h profile =
     host_topology_fingerprint h profile (host_gpus h) (host_nvswitches h profile) (host_infiniband h profile)"

text \<open>Gate A: the QEMU whose measurement matters, or \<open>None\<close> when the gate is closed.\<close>

definition gate_qemu :: "host_env \<Rightarrow> string option \<Rightarrow> string option option res" where
  "gate_qemu h target_os =
     (case target_os of
        None \<Rightarrow>
          (case verify_host_qemu_supported h of
             Inl (ValueError m) \<Rightarrow> Inr None
           | Inl e \<Rightarrow> Inl e
           | Inr _ \<Rightarrow> Inr (Some (detect_qemu_version h)))
      | Some os \<Rightarrow>
          (case expected_qemu (Some os) of None \<Rightarrow> Inr None | Some q \<Rightarrow> Inr (Some (Some q))))"

definition measured_at :: "gpu_profile \<Rightarrow> string option \<Rightarrow> topology list" where
  "measured_at profile qemu =
     (case qemu of None \<Rightarrow> []
      | Some q \<Rightarrow> (case map_of (baselined_measurements profile) q of Some ts \<Rightarrow> ts | None \<Rightarrow> []))"

definition verify_host :: "host_env \<Rightarrow> string option \<Rightarrow> verdict res" where
  "verify_host h target_os =
     bindR (gate_qemu h target_os) (\<lambda>gate.
     case gate of
       None \<Rightarrow> Inr BLOCKED
     | Some qemu \<Rightarrow>
         (case detect_profile h of
            Inl (ValueError m) \<Rightarrow> Inr BLOCKED
          | Inl e \<Rightarrow> Inl e
          | Inr profile \<Rightarrow>
              if host_fingerprint h profile \<in> set (measured_at profile qemu) then Inr READY
              else Inr WARNING))"

section \<open>What a detected profile means\<close>

text \<open>
  A GPU is assigned a profile only if the profile is registered, names its PCI device ID and,
  when several profiles do, is the only one of them with the host's CPU count; with the CPU count
  unknown, or matching none of them, the lookup raises instead of guessing.
\<close>

theorem gpu_model_is_exact:
  "match_gpu_model line cpus = Inr (Some name) \<longrightarrow>
     (\<exists>device_id p. extract_device_id nvidia_vendor line = Some device_id \<and>
        (name, p) \<in> set gpu_profiles \<and> matches_device_id p device_id \<and>
        (\<forall>(name', p') \<in> set gpu_profiles.
           matches_device_id p' device_id \<and> name' \<noteq> name \<longrightarrow>
             cpus = Some (host_cpus p) \<and> host_cpus p' \<noteq> host_cpus p))"
proof
  assume h: "match_gpu_model line cpus = Inr (Some name)"
  then obtain d where d: "extract_device_id nvidia_vendor line = Some d"
    by (auto simp: match_gpu_model_def split: option.splits)
  have cand: "q \<in> set gpu_profiles \<and> matches_device_id (snd q) d \<longleftrightarrow> q \<in> set (candidates d)" for q
    by (auto simp: candidates_def)
  have "\<exists>p. (name, p) \<in> set (candidates d) \<and>
      (\<forall>(name', p') \<in> set (candidates d). name' \<noteq> name \<longrightarrow>
         cpus = Some (host_cpus p) \<and> host_cpus p' \<noteq> host_cpus p)"
    using candidates_of_id[of d] h d
    by (auto simp: match_gpu_model_def profile_defs Let_def split: option.splits if_splits)
  then obtain p where p: "(name, p) \<in> set (candidates d)"
      "\<forall>(name', p') \<in> set (candidates d). name' \<noteq> name \<longrightarrow>
         cpus = Some (host_cpus p) \<and> host_cpus p' \<noteq> host_cpus p" by blast
  show "\<exists>device_id p. extract_device_id nvidia_vendor line = Some device_id \<and>
        (name, p) \<in> set gpu_profiles \<and> matches_device_id p device_id \<and>
        (\<forall>(name', p') \<in> set gpu_profiles.
           matches_device_id p' device_id \<and> name' \<noteq> name \<longrightarrow>
             cpus = Some (host_cpus p) \<and> host_cpus p' \<noteq> host_cpus p)"
    using d p cand[of "(name, p)"] cand by (intro exI[of _ d] exI[of _ p]) fastforce
qed

lemma detect_profile_Inr:
  assumes "detect_profile h = Inr p"
  shows "host_gpus h \<noteq> []"
    and "\<exists>models. get_gpu_models_from_lspci h (host_gpus h) = Inr models \<and> resolve_profile models = Inr p"
    and "detect_host_sockets h = None \<or> detect_host_sockets h = Some (host_sockets p)"
    and "should_passthrough_nvswitches p (length (host_gpus h)) \<Longrightarrow> host_nvswitches h p \<noteq> []"
    and "baselined_topologies p = [] \<or> host_fingerprint h p \<in> set (baselined_topologies p)"
  using assms
  by (auto simp: detect_profile_def host_fingerprint_def host_nvswitches_def Let_def bindR_Inr_iff
      split: if_splits option.splits)

lemma gate_qemu_Inr:
  "gate_qemu h target = Inr (Some qemu) \<Longrightarrow>
     \<exists>q. qemu = Some q \<and> expected_qemu (case target of None \<Rightarrow> he_os_version h | Some os \<Rightarrow> Some os) = Some q \<and>
       (target = None \<longrightarrow> detect_qemu_version h = Some q)"
  by (auto simp: gate_qemu_def verify_host_qemu_supported_def split: option.splits exn.splits sum.splits if_splits)
     metis

text \<open>
  C11: \<open>verify_host\<close> answers READY only if relaunching is safe: the QEMU that will run is the one the
  (current or target) OS release ships, which is the live one when no upgrade is planned; a
  registered profile was detected; and the live device topology has a registered measurement at
  exactly that QEMU.
\<close>

theorem ready_hosts_are_measured:
  assumes "verify_host h target_os = Inr READY"
  shows "\<exists>p q topologies. detect_profile h = Inr p \<and>
     expected_qemu (case target_os of None \<Rightarrow> he_os_version h | Some os \<Rightarrow> Some os) = Some q \<and>
     (target_os = None \<longrightarrow> detect_qemu_version h = Some q) \<and>
     (q, topologies) \<in> set (baselined_measurements p) \<and> host_fingerprint h p \<in> set topologies"
proof -
  from assms obtain qemu where g: "gate_qemu h target_os = Inr (Some qemu)"
    by (auto simp: verify_host_def bindR_Inr_iff split: option.splits)
  with assms have "\<exists>p. detect_profile h = Inr p \<and> host_fingerprint h p \<in> set (measured_at p qemu)"
    by (cases "detect_profile h") (auto simp: verify_host_def split: exn.splits if_splits)
  then obtain p where p: "detect_profile h = Inr p" "host_fingerprint h p \<in> set (measured_at p qemu)"
    by blast
  obtain q where q: "qemu = Some q"
    "expected_qemu (case target_os of None \<Rightarrow> he_os_version h | Some os \<Rightarrow> Some os) = Some q"
    "target_os = None \<longrightarrow> detect_qemu_version h = Some q"
    using gate_qemu_Inr[OF g] by blast
  from p(2) q(1) obtain topologies where "map_of (baselined_measurements p) q = Some topologies"
      "host_fingerprint h p \<in> set topologies"
    by (auto simp: measured_at_def split: option.splits) metis
  with p q show ?thesis using map_of_SomeD by fastforce
qed

text \<open>
  A launch on a profile whose topologies are characterized happens only on one of these
  topologies, with the profile's socket count (when it can be read) and with NVSwitches where the
  profile passes them through; the detected profile is registered under its own name.
\<close>

theorem detected_profile_fits_host:
  assumes "detect_profile h = Inr p"
  shows "(pf_name p, p) \<in> set gpu_profiles \<and> host_gpus h \<noteq> [] \<and>
     (detect_host_sockets h = None \<or> detect_host_sockets h = Some (host_sockets p)) \<and>
     (should_passthrough_nvswitches p (length (host_gpus h)) \<longrightarrow> host_nvswitches h p \<noteq> []) \<and>
     (baselined_topologies p \<noteq> [] \<longrightarrow> host_fingerprint h p \<in> set (baselined_topologies p))"
proof -
  obtain models where m: "resolve_profile models = Inr p" using detect_profile_Inr(2)[OF assms] by blast
  then obtain model where "map_of gpu_profiles model = Some p"
    by (auto simp: resolve_profile_def split: list.splits option.splits)
  then have "(model, p) \<in> set gpu_profiles" by (rule map_of_SomeD)
  moreover from this have "pf_name p = model"
    by (auto simp: gpu_profiles_def profile_defs Let_def)
  ultimately show ?thesis using detect_profile_Inr[OF assms] by auto
qed

text \<open>
  A host whose topology is not baselined, on a profile with more than one known topology (H200,
  RTX Pro 6000, B200 on Xeon 6), is not reported as BLOCKED: the message sorts the known topologies,
  which have no order, so a \<open>TypeError\<close> escapes both the detection and \<open>verify_host\<close>.
\<close>

theorem unbaselined_topology_raises_type_error:
  assumes "host_gpus h \<noteq> []" and "get_gpu_models_from_lspci h (host_gpus h) = Inr models"
    and "resolve_profile models = Inr p"
    and "detect_host_sockets h = None \<or> detect_host_sockets h = Some (host_sockets p)"
    and "should_passthrough_nvswitches p (length (host_gpus h)) \<longrightarrow> detect_nvswitches h \<noteq> []"
    and "2 \<le> length (baselined_topologies p)" "host_fingerprint h p \<notin> set (baselined_topologies p)"
    and "expected_qemu (Some os) \<noteq> None"
  shows "\<exists>m. detect_profile h = Inl (TypeError m) \<and> verify_host h (Some os) = Inl (TypeError m)"
proof -
  have "baselined_topologies p \<noteq> []" using assms(6) by auto
  then have "detect_profile h = Inl (unbaselined_error (baselined_topologies p))"
    using assms by (auto simp: detect_profile_def host_fingerprint_def Let_def split: option.splits)
  then have d: "detect_profile h = Inl (TypeError ''not supported between instances'')"
    using assms(6) by (simp add: unbaselined_error_def)
  obtain q where "expected_qemu (Some os) = Some q" using assms(8) by blast
  then have "verify_host h (Some os) = Inl (TypeError ''not supported between instances'')"
    by (simp add: verify_host_def gate_qemu_def d)
  with d show ?thesis by blast
qed

section \<open>An example host\<close>

text \<open>Two H200 GPUs on a host with two sockets and four NUMA nodes: supported, not baselined.\<close>

definition sample_host :: "nat \<Rightarrow> host_env" where
  "sample_host n = \<lparr>he_cpu_present = Inr ''0-127'', he_package_ids = [Inr ''0'', Inr ''1''],
     he_node_dir = Inr [''node0'', ''node1'', ''online''], he_meminfo = Inr [''MemTotal: 2097152000 kB''], he_os_version = Some ''26.04'',
     he_qemu_stdout = Inr ''QEMU emulator version 10.2.1'',
     he_lspci = map (\<lambda>i. ''00:'' @ [i] @ ''.0 [10de:2335]'') (take n ''12345678'')
       @ map (\<lambda>i. ''01:'' @ [i] @ ''.0 [10de:22a3]'') ''1234'',
     he_lspci_vv = (\<lambda>_. Inr []),
     he_numa_node = (\<lambda>bdf. Inr (if bdf \<in> set [''00:5.0'', ''00:6.0'', ''00:7.0'', ''00:8.0''] then ''1'' else ''0'')),
     he_is_vf = (\<lambda>_. False), he_physfn = (\<lambda>_. Inr []), he_gpu_tools = Inl (OtherException ''not found'')\<rparr>"

lemma sample_host_facts:
  "host_gpus (sample_host 2) = [''00:1.0'', ''00:2.0'']"
  "get_gpu_models_from_lspci (sample_host 2) [''00:1.0'', ''00:2.0''] =
     Inr [(''00:1.0'', ''H200''), (''00:2.0'', ''H200'')]"
  "detect_host_sockets (sample_host 2) = Some 2"
  "2 \<le> length (baselined_topologies h200_profile)"
  "host_topology_fingerprint (sample_host 2) h200_profile [''00:1.0'', ''00:2.0''] [] []
     \<notin> set (baselined_topologies h200_profile)"
  by code_simp+

definition sample_gpus :: "string list" where
  "sample_gpus = map (\<lambda>i. ''00:'' @ [i] @ ''.0'') ''12345678''"

definition sample_nvswitches :: "string list" where
  "sample_nvswitches = map (\<lambda>i. ''01:'' @ [i] @ ''.0'') ''1234''"

lemma sample_host8_facts:
  "host_gpus (sample_host 8) = sample_gpus"
  "get_gpu_models_from_lspci (sample_host 8) sample_gpus = Inr (map (\<lambda>b. (b, ''H200'')) sample_gpus)"
  "detect_nvswitches (sample_host 8) = sample_nvswitches"
  "detect_host_sockets (sample_host 8) = Some 2"
  "detect_qemu_version (sample_host 8) = Some ''10.2.1''"
  "host_topology_fingerprint (sample_host 8) h200_profile sample_gpus sample_nvswitches []
     = NumaTopology split_4_4 [0, 0, 0, 0] []"
  by code_simp+

lemma h200_facts:
  "should_passthrough_nvswitches h200_profile n \<longleftrightarrow> n = 8" "\<not> should_passthrough_infiniband h200_profile"
  "host_sockets h200_profile = 2"
  "NumaTopology split_4_4 [0, 0, 0, 0] [] \<in> set (baselined_topologies h200_profile)"
  "NumaTopology split_4_4 [0, 0, 0, 0] [] \<in> set (measured_at h200_profile (Some ''10.2.1''))"
  by (simp_all add: profile_defs Let_def baselined_topologies_def measured_at_def)

lemma sample_host8_profile: "detect_profile (sample_host 8) = Inr h200_profile"
proof -
  have "resolve_profile (map (\<lambda>b. (b, ''H200'')) sample_gpus) = Inr h200_profile"
    by (simp add: resolve_profile_def gpu_profiles_def sample_gpus_def)
  moreover have "length sample_gpus = 8" "sample_gpus \<noteq> []" "sample_nvswitches \<noteq> []"
    by (simp_all add: sample_gpus_def sample_nvswitches_def)
  ultimately show ?thesis
    by (simp add: detect_profile_def sample_host8_facts h200_facts host_nvswitches_def host_infiniband_def)
qed

lemma sample_host8_ready: "verify_host (sample_host 8) None = Inr READY"
proof -
  have "he_os_version (sample_host 8) = Some ''26.04''" by (simp add: sample_host_def)
  moreover have "length sample_gpus = 8" by (simp add: sample_gpus_def)
  ultimately show ?thesis
    by (simp add: verify_host_def gate_qemu_def verify_host_qemu_supported_def expected_qemu_def
        supported_qemu_by_os_def sample_host8_facts sample_host8_profile host_fingerprint_def
        host_nvswitches_def host_infiniband_def h200_facts)
qed

lemma resolve_sample: "resolve_profile [(''00:1.0'', ''H200''), (''00:2.0'', ''H200'')] = Inr h200_profile"
  by (simp add: resolve_profile_def gpu_profiles_def)

theorem gpu_model_is_exact_witness:
  "\<exists>device_id. extract_device_id nvidia_vendor ''a [10de:2901]'' = Some device_id"
proof -
  have "match_gpu_model ''a [10de:2901]'' (Some 288) = Inr (Some ''B200_XEON6'')" by code_simp
  then show ?thesis
    using gpu_model_is_exact[of "''a [10de:2901]''" "Some 288" "''B200_XEON6''"] by blast
qed

theorem ready_hosts_are_measured_witness:
  "\<exists>p. detect_profile (sample_host 8) = Inr p"
  using ready_hosts_are_measured[OF sample_host8_ready] by blast

theorem detected_profile_fits_host_witness:
  "\<exists>p. detect_profile (sample_host 8) = Inr p \<and> (pf_name p, p) \<in> set gpu_profiles"
  using detected_profile_fits_host[OF sample_host8_profile] sample_host8_profile by blast

theorem unbaselined_topology_raises_type_error_witness:
  "\<exists>m. verify_host (sample_host 2) (Some ''26.04'') = Inl (TypeError m)"
proof -
  have os: "expected_qemu (Some ''26.04'') \<noteq> None" by code_simp
  show ?thesis
    using unbaselined_topology_raises_type_error[of "sample_host 2", OF _ _ resolve_sample _ _ _ _ os]
      sample_host_facts
    by (auto simp: h200_facts host_fingerprint_def host_nvswitches_def host_infiniband_def)
qed

end
