(* ===== verification/Qemu_Launch.thy ===== *)
theory Qemu_Launch
  imports Host_Detection
begin

text \<open>
  The QEMU command of a confidential VM: \<open>host-tools/scripts/chutes/guest/qemu.py\<close>, the PCI topology
  of \<open>guest/passthrough.py\<close> and the command of \<open>launch_vm\<close> in \<open>guest/__main__.py\<close>. A command is a
  list of \<open>qarg\<close>, strings but for the one argument that names a host device, and \<open>render\<close> prints
  it. The allocators of PCI addresses are state records: \<open>pinning\<close> for the emulated devices on
  \<open>pcie.0\<close>, \<open>pci_state\<close> for root ports in a flat guest, \<open>numa_state\<close> for root ports under one
  expander bridge per NUMA node. The locale \<open>pci_allocator\<close> is what the launch needs of the last
  two: no address is handed out twice.
\<close>

section \<open>Arguments\<close>

datatype qarg =
    Arg string
  | RootPort nat nat string string bool string
      \<comment> \<open>port, chassis, identifier, bus, whether more functions follow, address\<close>
  | VfioPci string string  \<comment> \<open>host device, root port\<close>

definition nat_str :: "nat \<Rightarrow> string" where
  "nat_str n = str_int (int n)"

fun render :: "qarg \<Rightarrow> string" where
  "render (Arg s) = s"
| "render (RootPort port chassis rp_id bus multifunction addr) =
     ''pcie-root-port,port='' @ nat_str port @ '',chassis='' @ nat_str chassis @ '',id='' @ rp_id
     @ '',bus='' @ bus @ (if multifunction then '',multifunction=on'' else []) @ '',addr='' @ addr"
| "render (VfioPci host_bdf rp_id) =
     ''vfio-pci,host='' @ host_bdf @ '',bus='' @ rp_id @ '',addr=0x0,iommufd=iommufd0''"

text \<open>What the guest sees of an argument: everything but the host address of the device.\<close>

fun guest_view :: "qarg \<Rightarrow> qarg" where
  "guest_view (Arg s) = Arg s"
| "guest_view (RootPort p c i b m a) = RootPort p c i b m a"
| "guest_view (VfioPci host_bdf rp_id) = VfioPci [] rp_id"

definition hex_digit :: "nat \<Rightarrow> char" where
  "hex_digit n = ''0123456789abcdef'' ! (n mod 16)"

fun hex_digits :: "nat \<Rightarrow> string" where
  "hex_digits n = (if n < 16 then [hex_digit n] else hex_digits (n div 16) @ [hex_digit n])"

declare hex_digits.simps [simp del]

definition hex :: "nat \<Rightarrow> string" where
  "hex n = ''0x'' @ hex_digits n"

section \<open>Memory\<close>

definition vm_mem_reserve_gb :: int where
  "vm_mem_reserve_gb = 64"

definition safe_vm_mem_gb :: "int \<Rightarrow> int option \<Rightarrow> int" where
  "safe_vm_mem_gb desired_gb host_gb =
     (case host_gb of
        None \<Rightarrow> desired_gb
      | Some g \<Rightarrow>
          if g \<le> 0 then desired_gb
          else let safe = g - vm_mem_reserve_gb in
               if safe < 1 then desired_gb else min desired_gb safe)"

definition parse_mem_mib :: "string \<Rightarrow> nat res" where
  "parse_mem_mib mem =
     (let t = (if mem \<noteq> [] \<and> last mem = newline then butlast mem else mem);
          ds = takeWhile is_digit t in
      case dropWhile is_digit t of
        [u] \<Rightarrow>
          if ds = [] then Inl (ValueError ''Invalid memory size'')
          else if u = CHR ''G'' \<or> u = CHR ''g'' then Inr (digits_value ds * 1024)
          else if u = CHR ''M'' \<or> u = CHR ''m'' then Inr (digits_value ds)
          else Inl (ValueError ''Invalid memory size'')
      | _ \<Rightarrow> Inl (ValueError ''Invalid memory size''))"

definition host_numa_nodes :: "host_env \<Rightarrow> int list" where
  "host_numa_nodes h =
     (case he_node_dir h of
        Inl _ \<Rightarrow> []
      | Inr names \<Rightarrow>
          sort (map (\<lambda>n. int (digits_value (drop 4 n)))
            (filter (\<lambda>n. startswith n ''node'' \<and> drop 4 n \<noteq> [] \<and> list_all is_digit (drop 4 n)) names)))"

definition use_numa_topology :: "host_env \<Rightarrow> bool \<Rightarrow> bool" where
  "use_numa_topology h enable \<longleftrightarrow> enable \<and> length (host_numa_nodes h) = 2"

definition node_size_mib :: "nat \<Rightarrow> nat \<Rightarrow> nat \<Rightarrow> nat" where
  "node_size_mib mem_mib num_nodes i =
     (let per_node_mib = mem_mib div num_nodes in
      if i = num_nodes - 1 then mem_mib - per_node_mib * (num_nodes - 1) else per_node_mib)"

definition numa_memory :: "nat \<Rightarrow> int list \<Rightarrow> qarg list" where
  "numa_memory mem_mib host_nodes =
     (let num_nodes = length host_nodes in
      concat (map (\<lambda>(i, hnode). map Arg
        [''-object'', ''memory-backend-ram,id=mem-node'' @ nat_str i @ '',size=''
           @ nat_str (node_size_mib mem_mib num_nodes i) @ ''M,host-nodes='' @ str_int hnode @ '',policy=bind'',
         ''-numa'', ''node,nodeid='' @ nat_str i @ '',memdev=mem-node'' @ nat_str i,
         ''-numa'', ''cpu,node-id='' @ nat_str i @ '',socket-id='' @ nat_str i])
        (enumerate 0 host_nodes))
      @ (if num_nodes = 2 then map Arg [''-numa'', ''dist,src=0,dst=1,val=21''] else []))"

section \<open>Emulated devices on pcie.0\<close>

definition pinning_slots :: "nat list" where
  "pinning_slots = [2, 3, 4, 5, 6, 7]"

record pinning =
  pin_enabled :: bool
  pin_index :: nat

definition new_pinning :: "bool \<Rightarrow> pinning" where
  "new_pinning enabled = \<lparr>pin_enabled = enabled, pin_index = 0\<rparr>"

definition device_suffix :: "pinning \<Rightarrow> (string \<times> pinning) res" where
  "device_suffix p =
     (if \<not> pin_enabled p then Inr ([], p)
      else if length pinning_slots \<le> pin_index p
      then Inl (RuntimeError ''No free pcie.0 slots for emulated PCI devices'')
      else Inr ('',bus=pcie.0,addr='' @ hex (pinning_slots ! pin_index p),
                p\<lparr>pin_index := pin_index p + 1\<rparr>))"

section \<open>Root ports of passed-through devices\<close>

record pci_state =
  ps_port :: nat
  ps_slot :: nat
  ps_func :: nat

definition new_pci_state :: "nat \<Rightarrow> pci_state" where
  "new_pci_state start_port = \<lparr>ps_port = start_port, ps_slot = 8, ps_func = 0\<rparr>"

record vfio_device =
  vd_host_bdf :: string
  vd_rp_id :: string
  vd_chassis :: nat
  vd_bar :: "(int \<times> nat) option"  \<comment> \<open>BAR size in MB and index of the firmware hint\<close>

definition fw_cfg_args :: "vfio_device \<Rightarrow> qarg list" where
  "fw_cfg_args d =
     (case vd_bar d of
        None \<Rightarrow> []
      | Some (mb, index) \<Rightarrow> map Arg
          [''-fw_cfg'', ''name=opt/ovmf/X-PciMmio64Mb'' @ nat_str index @ '',string='' @ str_int mb])"

definition advance_func :: "pci_state \<Rightarrow> pci_state" where
  "advance_func st =
     (let func = (ps_func st + 1) mod 8
      in st\<lparr>ps_port := ps_port st + 1, ps_func := func,
            ps_slot := (if func = 0 then ps_slot st + 1 else ps_slot st)\<rparr>)"

definition flat_add_device :: "pci_state \<Rightarrow> vfio_device \<Rightarrow> pci_state \<times> qarg list" where
  "flat_add_device st d =
     (advance_func st,
      [Arg ''-device'',
       RootPort (ps_port st) (vd_chassis d) (vd_rp_id d) ''pcie.0'' (ps_func st = 0)
         (if ps_func st = 0 then hex (ps_slot st) else hex (ps_slot st) @ ''.'' @ hex (ps_func st)),
       Arg ''-device'', VfioPci (vd_host_bdf d) (vd_rp_id d)]
      @ fw_cfg_args d)"

definition read_pci_numa_node :: "host_env \<Rightarrow> string \<Rightarrow> int" where
  "read_pci_numa_node h bdf =
     (case numa_node_of h bdf of Inr node \<Rightarrow> if 0 \<le> node then node else -1 | Inl _ \<Rightarrow> -1)"

record numa_state =
  ns_port :: nat
  ns_pxb_created :: "(int \<times> string) list"
  ns_pxb_port_idx :: "(int \<times> nat) list"
  ns_pxb_busnr :: nat
  ns_flat :: pci_state

definition new_numa_state :: "nat \<Rightarrow> numa_state" where
  "new_numa_state start_port =
     \<lparr>ns_port = start_port, ns_pxb_created = [], ns_pxb_port_idx = [], ns_pxb_busnr = 128,
      ns_flat = new_pci_state start_port\<rparr>"

definition pxb_id :: "int \<Rightarrow> string" where
  "pxb_id numa_node = ''pxb_numa'' @ str_int numa_node"

definition ensure_pxb :: "numa_state \<Rightarrow> int \<Rightarrow> numa_state \<times> qarg list" where
  "ensure_pxb st numa_node =
     (if map_of (ns_pxb_created st) numa_node = None then
        (st\<lparr>ns_pxb_created := AList.update numa_node (pxb_id numa_node) (ns_pxb_created st),
            ns_pxb_port_idx := AList.update numa_node 0 (ns_pxb_port_idx st),
            ns_pxb_busnr := ns_pxb_busnr st + 32\<rparr>,
         [Arg ''-device'',
          Arg (''pxb-pcie,bus_nr='' @ nat_str (ns_pxb_busnr st) @ '',id='' @ pxb_id numa_node
               @ '',numa_node='' @ str_int numa_node @ '',bus=pcie.0,addr=''
               @ hex (nat (24 + numa_node)))])
      else (st, []))"

definition port_idx :: "numa_state \<Rightarrow> int \<Rightarrow> nat" where
  "port_idx st numa_node =
     (case map_of (ns_pxb_port_idx st) numa_node of Some i \<Rightarrow> i | None \<Rightarrow> 0)"

definition numa_add_device ::
  "host_env \<Rightarrow> numa_state \<Rightarrow> vfio_device \<Rightarrow> numa_state \<times> qarg list" where
  "numa_add_device h st d =
     (let numa_node = read_pci_numa_node h (vd_host_bdf d) in
      if numa_node < 0 then
        (case flat_add_device (ns_flat st) d of (flat, args) \<Rightarrow> (st\<lparr>ns_flat := flat\<rparr>, args))
      else
        (case ensure_pxb st numa_node of
           (st1, pxb_args) \<Rightarrow>
             (let i = port_idx st1 numa_node in
              (st1\<lparr>ns_pxb_port_idx := AList.update numa_node (i + 1) (ns_pxb_port_idx st1),
                   ns_port := ns_port st1 + 1\<rparr>,
               pxb_args
               @ [Arg ''-device'',
                  RootPort (ns_port st1) (vd_chassis d) (vd_rp_id d) (pxb_id numa_node) False (hex (i + 1)),
                  Arg ''-device'', VfioPci (vd_host_bdf d) (vd_rp_id d)]
               @ fw_cfg_args d))))"

text \<open>The devices in the order \<open>_build_pci_topology\<close> adds them.\<close>

definition passthrough_devices ::
  "gpu_profile \<Rightarrow> string list \<Rightarrow> string list \<Rightarrow> string list \<Rightarrow> vfio_device list" where
  "passthrough_devices profile gpus nvswitches ib_devices =
     map (\<lambda>(i, gpu). \<lparr>vd_host_bdf = gpu, vd_rp_id = ''rp'' @ nat_str (i + 1), vd_chassis = i + 1,
        vd_bar = (if use_ovmf_mmio_fw_cfg profile then Some (bar_size_mb profile, i + 1) else None)\<rparr>)
       (enumerate 0 gpus)
     @ map (\<lambda>(j, nvsw). \<lparr>vd_host_bdf = nvsw, vd_rp_id = ''rp_nvsw'' @ nat_str (j + 1),
        vd_chassis = length gpus + j + 1, vd_bar = None\<rparr>)
       (enumerate 0 nvswitches)
     @ map (\<lambda>(k, ib). \<lparr>vd_host_bdf = ib, vd_rp_id = ''rp_ib'' @ nat_str (k + 1),
        vd_chassis = length gpus + length nvswitches + k + 1, vd_bar = None\<rparr>)
       (enumerate 0 ib_devices)"

fun add_devices :: "('s \<Rightarrow> vfio_device \<Rightarrow> 's \<times> qarg list) \<Rightarrow> 's \<Rightarrow> vfio_device list \<Rightarrow> qarg list" where
  "add_devices add st [] = []"
| "add_devices add st (d # ds) = (case add st d of (st', args) \<Rightarrow> args @ add_devices add st' ds)"

definition build_pci_topology ::
  "host_env \<Rightarrow> gpu_profile \<Rightarrow> string list \<Rightarrow> string list \<Rightarrow> string list \<Rightarrow> qarg list" where
  "build_pci_topology h profile gpus nvswitches ib_devices =
     (let devices = passthrough_devices profile gpus nvswitches ib_devices in
      if use_numa_topology h (enable_numa_topology profile)
      then add_devices (numa_add_device h) (new_numa_state 16) devices
      else add_devices flat_add_device (new_pci_state 16) devices)"

section \<open>The command line\<close>

definition block_format :: "string option \<Rightarrow> string" where
  "block_format path =
     (case path of
        Some (c # cs) \<Rightarrow> if endswith (lower (c # cs)) ''.qcow2'' then ''qcow2'' else ''raw''
      | _ \<Rightarrow> ''raw'')"

text \<open>The command under construction and the pinning state it shares.\<close>

type_synonym qcmd = "qarg list \<times> pinning"

text \<open>An argument that ends with the suffix of the next emulated device.\<close>

definition pinned :: "(string \<Rightarrow> qarg list) \<Rightarrow> qcmd \<Rightarrow> qcmd res" where
  "pinned args c =
     (case c of (cmd, p) \<Rightarrow> bindR (device_suffix p) (\<lambda>(suffix, p'). Inr (cmd @ args suffix, p')))"

record launch_args =
  la_image :: string
  la_foreground :: bool
  la_network_type :: string
  la_net_iface :: "string option"
  la_ssh_port :: int
  la_net_queues :: int
  la_config_volume :: "string option"
  la_cache_volume :: "string option"
  la_storage_volume :: "string option"
  la_pass_gpus :: bool

definition present :: "string option \<Rightarrow> bool" where
  "present v = (case v of Some (c # cs) \<Rightarrow> True | _ \<Rightarrow> False)"

text \<open>The memory backends and the machine, by whether the guest has NUMA nodes.\<close>

definition memory_args :: "host_env \<Rightarrow> string \<Rightarrow> bool \<Rightarrow> qarg list res" where
  "memory_args h mem enable_numa =
     (if use_numa_topology h enable_numa
      then bindR (parse_mem_mib mem) (\<lambda>mem_mib. Inr
        (numa_memory mem_mib (host_numa_nodes h)
         @ map Arg [''-machine'', ''q35,kernel_irqchip=split,confidential-guest-support=tdx'']))
      else Inr (map Arg
        [''-object'', ''memory-backend-ram,id=mem0,size='' @ mem,
         ''-machine'', ''q35,kernel_irqchip=split,confidential-guest-support=tdx,memory-backend=mem0'']))"

definition build_base_cmd ::
  "host_env \<Rightarrow> string \<Rightarrow> string \<Rightarrow> string \<Rightarrow> string \<Rightarrow> string \<Rightarrow> launch_args \<Rightarrow> bool \<Rightarrow> pinning \<Rightarrow> qcmd res" where
  "build_base_cmd h mem smp process_name cpu_args firmware la enable_numa p =
     (let img_fmt = block_format (Some (la_image la));
          drive = ''file='' @ la_image la @ '',if=none,id=virtio-disk0,cache=none,aio=native,format='' @ img_fmt
            @ (if img_fmt = ''qcow2'' then '',discard=unmap''
               else if img_fmt = ''raw'' then '',discard=on,detect-zeroes=on'' else []) in
      bindR (memory_args h mem enable_numa) (\<lambda>memory.
      pinned (\<lambda>suffix.
          map Arg [''-drive'', drive, ''-device'',
            ''virtio-blk-pci,drive=virtio-disk0,bootindex=0'' @ suffix
            @ (if img_fmt = ''raw'' then '',num-queues=4'' else [])])
        (map Arg [''qemu-system-x86_64'', ''-accel'', ''kvm'', ''-m'', mem, ''-smp'', smp,
            ''-name'', process_name @ '',process='' @ process_name @ '',debug-threads=on'',
            ''-cpu'', cpu_args, ''-object'',
            ''{\"qom-type\":\"tdx-guest\",\"id\":\"tdx\",\"quote-generation-socket\":{\"type\":\"vsock\",\"cid\":\"2\",\"port\":\"4050\"}}'']
         @ memory
         @ map Arg [''-bios'', firmware, ''-nodefaults'', ''-vga'', ''none'']
         @ map Arg (if la_foreground la then [''-nographic'', ''-serial'', ''mon:stdio'']
                    else [''-nographic'', ''-serial'', ''file:/tmp/tdx-guest-td.log'', ''-daemonize'',
                          ''-pidfile'', ''/tmp/tdx-td-pid.pid'']), p)))"

definition build_network :: "launch_args \<Rightarrow> qcmd \<Rightarrow> qcmd res" where
  "build_network la c =
     (if la_network_type la = ''tap'' then
        if \<not> present (la_net_iface la) then Inl (OtherException ''SystemExit: 1'')
        else pinned (\<lambda>suffix. map Arg
          [''-netdev'',
           ''tap,id=n0,ifname='' @ the (la_net_iface la) @ '',script=no,downscript=no,vhost=on,queues=''
             @ str_int (la_net_queues la),
           ''-device'',
           ''virtio-net-pci,netdev=n0,mac=52:54:00:12:34:56,mq=on,vectors=''
             @ str_int (2 * la_net_queues la + 2) @ '',mrg_rxbuf=on'' @ suffix]) c
      else pinned (\<lambda>suffix. map Arg
          [''-device'', ''virtio-net-pci,netdev=nic0_td'' @ suffix,
           ''-netdev'', ''user,id=nic0_td,hostfwd=tcp::'' @ str_int (la_ssh_port la) @ ''-:22'']) c)"

definition add_data_volume :: "string option \<Rightarrow> string \<Rightarrow> qcmd \<Rightarrow> qcmd res" where
  "add_data_volume vol_path vol_id c =
     (if \<not> present vol_path then Inr c
      else
        let vol_fmt = block_format vol_path;
            drive = ''file='' @ the vol_path @ '',if=none,id='' @ vol_id @ '',cache=none,aio=native,format=''
              @ vol_fmt @ (if vol_fmt = ''raw'' then '',discard=on,detect-zeroes=on'' else [])
        in pinned (\<lambda>suffix. map Arg
          [''-drive'', drive, ''-device'', ''virtio-blk-pci,drive='' @ vol_id @ suffix
            @ (if vol_fmt = ''raw'' then '',num-queues=4'' else [])]) c)"

definition add_volumes :: "launch_args \<Rightarrow> qcmd \<Rightarrow> qcmd res" where
  "add_volumes la c =
     bindR (if present (la_config_volume la)
            then pinned (\<lambda>suffix. map Arg
              [''-drive'', ''file='' @ the (la_config_volume la)
                 @ '',if=none,id=virtio-config,cache=none,format=qcow2,readonly=on'',
               ''-device'', ''virtio-blk-pci,drive=virtio-config'' @ suffix]) c
            else Inr c) (\<lambda>c1.
     bindR (add_data_volume (la_cache_volume la) ''virtio-cache'' c1)
       (add_data_volume (la_storage_volume la) ''virtio-storage''))"

definition add_vsock :: "qcmd \<Rightarrow> qcmd res" where
  "add_vsock c = pinned (\<lambda>suffix. map Arg [''-device'', ''vhost-vsock-pci,guest-cid=3'' @ suffix]) c"

text \<open>
  The command \<open>launch_vm\<close> builds before the passed-through devices are added, with the profile of
  the GPUs, if there are any.
\<close>

definition emulated_cmd ::
  "host_env \<Rightarrow> string \<Rightarrow> string \<Rightarrow> string \<Rightarrow> string \<Rightarrow> launch_args \<Rightarrow> bool \<Rightarrow> qcmd res" where
  "emulated_cmd h mem smp cpu_args firmware la wants_numa =
     bindR (build_base_cmd h mem smp ''chutes-td'' cpu_args firmware la wants_numa
              (new_pinning (use_numa_topology h wants_numa))) (\<lambda>c.
     bindR (build_network la c) (\<lambda>c.
     bindR (add_volumes la c) add_vsock))"

datatype launch_outcome = Refused int | Launch "string list"

definition interleave_prefix :: "host_env \<Rightarrow> launch_args \<Rightarrow> string list \<Rightarrow> string list" where
  "interleave_prefix h la gpus =
     (let numa_nodes = (if la_pass_gpus la \<and> gpus \<noteq> [] then detect_gpu_numa_nodes h gpus else [])
      in [''numactl'', ''--interleave='' @
           (if numa_nodes \<noteq> [] then join_with '','' (map str_int numa_nodes) else ''all'')])"

text \<open>
  \<open>setup_passthrough\<close> detects the devices again, creates the InfiniBand virtual functions, prepares
  the devices and extends the command. \<open>h\<close> is the host before and \<open>h_vfs\<close> the host after the
  virtual functions are created; the preparation, which changes the host and may raise, is a
  parameter.
\<close>

type_synonym preparation = "string list \<Rightarrow> string list \<Rightarrow> string list \<Rightarrow> gpu_profile \<Rightarrow> unit res"

definition setup_passthrough :: "host_env \<Rightarrow> host_env \<Rightarrow> preparation \<Rightarrow> qarg list res" where
  "setup_passthrough h h_vfs prepare_devices =
     (let gpus = host_gpus h in
      if gpus = [] then Inr []
      else
        bindR (get_gpu_models_from_lspci h gpus) (\<lambda>gpu_models.
        bindR (resolve_profile gpu_models) (\<lambda>profile.
        let nvswitches = host_nvswitches h profile;
            ib_pfs = (if should_passthrough_infiniband profile
                      then detect_infiniband_pfs h (detect_cx7_bridge_pfs h) else []);
            ib_devices = (if ib_pfs \<noteq> [] then detect_infiniband_vfs h_vfs ib_pfs else []) in
        bindR (prepare_devices gpus nvswitches ib_devices profile) (\<lambda>_.
        Inr (map Arg [''-object'', ''iommufd,id=iommufd0'']
             @ build_pci_topology h_vfs profile gpus nvswitches ib_devices)))))"

text \<open>\<open>launch_vm\<close> up to the start of QEMU: the exit status of a refusal, or the command.\<close>

definition launch_plan ::
  "host_env \<Rightarrow> host_env \<Rightarrow> preparation \<Rightarrow> (string \<Rightarrow> string) \<Rightarrow> launch_args \<Rightarrow> launch_outcome res" where
  "launch_plan h h_vfs prepare_devices firmware_path la =
     bindR (verify_host_qemu_supported h) (\<lambda>_.
     bindR (if la_pass_gpus la then bindR (detect_profile h) (\<lambda>p. Inr (Some p)) else Inr None) (\<lambda>profile.
     let gpus = (if la_pass_gpus la then host_gpus h else []);
         mem_gb = (case profile of Some p \<Rightarrow> int (length gpus) * ram_per_gpu_gb p | None \<Rightarrow> 100);
         smp = (case profile of Some p \<Rightarrow> smp_topology p | None \<Rightarrow> ''32,sockets=1,cores=32,threads=1'');
         wants_numa = (case profile of Some p \<Rightarrow> enable_numa_topology p | None \<Rightarrow> False);
         cpu_args = (if he_os_version h = Some ''24.04'' then ''host'' else ''host,-avx10'') in
     if profile \<noteq> None \<and> safe_vm_mem_gb mem_gb (detect_host_mem_gb h) < mem_gb then Inr (Refused 1)
     else
       bindR (emulated_cmd h (str_int mem_gb @ ''G'') smp cpu_args (firmware_path ''OVMF.inteltdx.fd'') la wants_numa)
         (\<lambda>(cmd, _).
       bindR (if la_pass_gpus la then setup_passthrough h h_vfs prepare_devices else Inr []) (\<lambda>passthrough.
       Inr (Launch ((if use_numa_topology h wants_numa then [] else interleave_prefix h la gpus)
                    @ map render (cmd @ passthrough)))))))"

section \<open>Memory\<close>

lemma sum_node_sizes:
  assumes "0 < n"
  shows "(\<Sum>i<n. node_size_mib mem n i) = mem"
proof -
  obtain m where n: "n = Suc m" using assms by (cases n) auto
  have "mem div n * m \<le> mem" using n by (metis div_times_less_eq_dividend le_trans mult_le_mono2 le_SucI order_refl)
  moreover have "(\<Sum>i<m. node_size_mib mem n i) = mem div n * m"
    using n by (simp add: node_size_mib_def)
  ultimately show ?thesis using n by (simp add: node_size_mib_def)
qed

text \<open>
  The guest's memory is split over its NUMA nodes without a remainder: the backends add up to
  exactly the configured memory, every node but the last gets the quotient and the last at most the
  number of nodes more.
\<close>

theorem numa_memory_split_exact:
  assumes "0 < n"
  shows "(\<Sum>i<n. node_size_mib mem n i) = mem \<and>
     (\<forall>i<n. mem div n \<le> node_size_mib mem n i \<and> node_size_mib mem n i < mem div n + n)"
proof
  show "(\<Sum>i<n. node_size_mib mem n i) = mem" using assms by (rule sum_node_sizes)
  have "mem - mem div n * (n - 1) = mem div n + mem mod n"
  proof -
    have "mem = mem div n * (n - 1) + mem div n + mem mod n"
      using assms by (metis div_mult_mod_eq mult.commute mult_Suc_right Suc_pred' add.commute)
    then show ?thesis by linarith
  qed
  then show "\<forall>i<n. mem div n \<le> node_size_mib mem n i \<and> node_size_mib mem n i < mem div n + n"
    using assms by (auto simp: node_size_mib_def Let_def)
qed

theorem numa_memory_split_exact_witness:
  "(\<Sum>i<2. node_size_mib 2001 2 i) = 2001"
  using numa_memory_split_exact[of 2 2001] by simp

section \<open>Emulated devices\<close>

lemma parse_printed_mem: "0 \<le> m \<Longrightarrow> parse_mem_mib (str_int m @ ''G'') = Inr (nat m * 1024)"
proof -
  assume "0 \<le> m"
  then have s: "str_int m = digits_of (nat m)" by (simp add: str_int_def)
  have all: "\<And>c. c \<in> set (digits_of (nat m)) \<Longrightarrow> is_digit c"
    using digits_of_digits by (simp add: list_all_iff)
  have g: "\<not> is_digit (CHR ''G'')" by (simp add: is_digit_def)
  have "takeWhile is_digit (digits_of (nat m) @ ''G'') = digits_of (nat m)"
       "dropWhile is_digit (digits_of (nat m) @ ''G'') = ''G''"
    using all g by (simp_all add: takeWhile_append2 dropWhile_append2)
  moreover have "CHR ''G'' \<noteq> newline" by code_simp
  ultimately show ?thesis by (simp add: parse_mem_mib_def s Let_def)
qed

text \<open>What a step of the command needs of the pinning state and leaves of it.\<close>

definition uses_slots :: "nat \<Rightarrow> nat \<Rightarrow> (qcmd \<Rightarrow> qcmd res) \<Rightarrow> bool" where
  "uses_slots i k f \<longleftrightarrow> (\<forall>c. pin_index (snd c) \<le> i \<longrightarrow> (\<exists>c'. f c = Inr c' \<and> pin_index (snd c') \<le> i + k))"

lemma uses_slots_pinned: "i < 6 \<Longrightarrow> uses_slots i 1 (pinned args)"
  by (auto simp: uses_slots_def pinned_def device_suffix_def pinning_slots_def)

lemma uses_slots_skip: "uses_slots i 1 Inr"
  by (auto simp: uses_slots_def)

lemma uses_slots_bind:
  "uses_slots i k f \<Longrightarrow> uses_slots (i + k) l g \<Longrightarrow> uses_slots i (k + l) (\<lambda>c. bindR (f c) g)"
  unfolding uses_slots_def by (metis add.assoc bindR_simps(2))

lemma uses_slots_data_volume: "i < 6 \<Longrightarrow> uses_slots i 1 (add_data_volume path vol_id)"
  using uses_slots_pinned[of i] by (auto simp: uses_slots_def add_data_volume_def Let_def)

lemma uses_slots_volumes: "uses_slots 2 3 (add_volumes la)"
proof -
  have config: "uses_slots 2 1 (\<lambda>c. if present (la_config_volume la) then pinned a c else Inr c)" for a
    using uses_slots_pinned[of 2 a] uses_slots_skip[of 2] by (simp add: uses_slots_def)
  have data: "uses_slots 3 2 (\<lambda>c1. bindR (add_data_volume (la_cache_volume la) ''virtio-cache'' c1)
       (add_data_volume (la_storage_volume la) ''virtio-storage''))"
    using uses_slots_bind[of 3 1 "add_data_volume (la_cache_volume la) ''virtio-cache''" 1
        "add_data_volume (la_storage_volume la) ''virtio-storage''"]
      uses_slots_data_volume[of 3] uses_slots_data_volume[of 4] by (simp add: numeral_2_eq_2)
  have "uses_slots 2 (1 + 2) (add_volumes la)"
    unfolding add_volumes_def[abs_def] by (rule uses_slots_bind[OF config]) (use data in simp)
  then show ?thesis by (simp add: numeral_3_eq_3)
qed

lemma emulated_cmd_total:
  assumes "0 \<le> mem_gb" and "la_network_type la = ''tap'' \<longrightarrow> present (la_net_iface la)"
  shows "\<exists>cmd p. emulated_cmd h (str_int mem_gb @ ''G'') smp cpu_args firmware la wants_numa = Inr (cmd, p) \<and>
     pin_index p \<le> length pinning_slots"
proof -
  have net: "uses_slots 1 1 (build_network la)"
    using assms(2) uses_slots_pinned[of 1] by (auto simp: uses_slots_def build_network_def)
  have vsock: "uses_slots 5 1 add_vsock"
    using uses_slots_pinned[of 5] by (simp add: uses_slots_def add_vsock_def)
  have tail: "uses_slots 1 5 (\<lambda>c. bindR (build_network la c) (\<lambda>c. bindR (add_volumes la c) add_vsock))"
    using uses_slots_bind[OF net, of 4 "\<lambda>c. bindR (add_volumes la c) add_vsock"]
      uses_slots_bind[OF uses_slots_volumes[of la], of 1 add_vsock] vsock
    by (simp add: numeral_2_eq_2[symmetric])
  obtain c where "build_base_cmd h (str_int mem_gb @ ''G'') smp ''chutes-td'' cpu_args firmware la wants_numa
      (new_pinning (use_numa_topology h wants_numa)) = Inr c" "pin_index (snd c) \<le> 1"
  proof -
    have "\<exists>m. memory_args h (str_int mem_gb @ ''G'') wants_numa = Inr m"
      using parse_printed_mem[OF assms(1)]
      by (cases "use_numa_topology h wants_numa") (simp_all add: memory_args_def)
    then obtain m where m: "memory_args h (str_int mem_gb @ ''G'') wants_numa = Inr m" ..
    have "\<exists>c. pinned args (cmd0, new_pinning b) = Inr c \<and> pin_index (snd c) \<le> 1" for args cmd0 b
      using uses_slots_pinned[of 0 args] by (simp add: uses_slots_def new_pinning_def)
    then show ?thesis
      using that unfolding build_base_cmd_def Let_def m bindR_simps by blast
  qed
  moreover have "length pinning_slots = 1 + 5" by (simp add: pinning_slots_def)
  ultimately show ?thesis
    using tail by (cases c) (auto simp: emulated_cmd_def uses_slots_def)
qed

text \<open>
  The six slots reserved on \<open>pcie.0\<close> suffice: for every combination of volumes, network type and
  memory size, with NUMA pinning on or off, the command with boot disk, network, config, cache and
  storage volumes and vsock is built and at most six slots are used; the one error left is a tap
  network without an interface.
\<close>

theorem emulated_devices_fit:
  assumes "0 \<le> mem_gb" and "la_network_type la = ''tap'' \<longrightarrow> present (la_net_iface la)"
  shows "\<exists>cmd p. emulated_cmd h (str_int mem_gb @ ''G'') smp cpu_args firmware la wants_numa = Inr (cmd, p) \<and>
     pin_index p \<le> length pinning_slots"
  using emulated_cmd_total[OF assms] .

definition sample_launch :: launch_args where
  "sample_launch = \<lparr>la_image = ''i.raw'', la_foreground = False, la_network_type = ''tap'',
     la_net_iface = Some ''t0'', la_ssh_port = 10022, la_net_queues = 4, la_config_volume = Some ''c'',
     la_cache_volume = Some ''h'', la_storage_volume = Some ''s'', la_pass_gpus = True\<rparr>"

theorem emulated_devices_fit_witness:
  "\<exists>cmd p. emulated_cmd (sample_host 8) (str_int 1128 @ ''G'') [] [] [] sample_launch True = Inr (cmd, p)"
  using emulated_devices_fit[of 1128 sample_launch "sample_host 8" "[]" "[]" "[]" True]
  by (auto simp: sample_launch_def present_def)

text \<open>
  C39: The guest never gets memory the host needs. When GPUs are passed through and the host's RAM is
  known and larger than the reserve, a launch happens only if the memory of the guest, fixed by the
  profile and the number of GPUs, leaves the host at least the reserve of 64 GB. (With RAM that is unknown or not larger than the
  reserve the code does not compare.)
\<close>

theorem launch_leaves_host_reserve:
  assumes "launch_plan h h_vfs prepare fw la = Inr (Launch cmd)" and "la_pass_gpus la"
    and "detect_host_mem_gb h = Some host_gb" "vm_mem_reserve_gb < host_gb"
  shows "\<exists>p. detect_profile h = Inr p \<and>
     int (length (host_gpus h)) * ram_per_gpu_gb p + vm_mem_reserve_gb \<le> host_gb"
proof -
  obtain p where p: "detect_profile h = Inr p"
    using assms(1,2) by (auto simp: launch_plan_def bindR_Inr_iff)
  let ?mem = "int (length (host_gpus h)) * ram_per_gpu_gb p"
  have "\<not> safe_vm_mem_gb ?mem (detect_host_mem_gb h) < ?mem"
  proof
    assume "safe_vm_mem_gb ?mem (detect_host_mem_gb h) < ?mem"
    then have "launch_plan h h_vfs prepare fw la = Inl e \<or> launch_plan h h_vfs prepare fw la = Inr (Refused 1)"
      if "verify_host_qemu_supported h = Inr () \<or> verify_host_qemu_supported h = Inl e" for e
      using that p assms(2) by (auto simp: launch_plan_def)
    with assms(1) show False by (cases "verify_host_qemu_supported h") force+
  qed
  with assms(3,4) p show ?thesis
    by (auto simp: safe_vm_mem_gb_def vm_mem_reserve_gb_def Let_def min_def split: if_splits)
qed

lemma sample_host_mem: "detect_host_mem_gb (sample_host n) = Some 2000"
proof -
  have "words ''MemTotal: 2097152000 kB'' = [''MemTotal:'', ''2097152000'', ''kB'']" by code_simp
  moreover have "py_int ''2097152000'' = Some 2097152000"
    by (simp add: py_int_def strip_def is_space_def is_digit_def digits_value_def)
  moreover have "startswith ''MemTotal: 2097152000 kB'' ''MemTotal:''" by code_simp
  ultimately show ?thesis
    by (simp add: detect_host_mem_gb_def sample_host_def int_of_def default_on_error_def)
qed

lemma sample_launch_runs:
  assumes "prepare sample_gpus sample_nvswitches [] h200_profile = Inr ()"
  shows "\<exists>cmd. launch_plan (sample_host 8) (sample_host 8) prepare id sample_launch = Inr (Launch cmd)"
proof -
  have q: "verify_host_qemu_supported (sample_host 8) = Inr ()"
  proof -
    have "he_os_version (sample_host 8) = Some ''26.04''" by (simp add: sample_host_def)
    then show ?thesis
      by (simp add: verify_host_qemu_supported_def sample_host8_facts expected_qemu_def supported_qemu_by_os_def)
  qed
  note mem = sample_host_mem[of 8]
  have p: "int (length (host_gpus (sample_host 8))) * ram_per_gpu_gb h200_profile = 1128"
    by (simp add: sample_host8_facts sample_gpus_def profile_defs Let_def)
  have la: "la_pass_gpus sample_launch" "la_network_type sample_launch = ''tap'' \<longrightarrow> present (la_net_iface sample_launch)"
    by (simp_all add: sample_launch_def present_def)
  let ?smp = "smp_topology h200_profile"
  let ?numa = "enable_numa_topology h200_profile"
  have os: "he_os_version (sample_host 8) \<noteq> Some ''24.04''" by (simp add: sample_host_def)
  obtain cmd pn where e: "emulated_cmd (sample_host 8) (str_int 1128 @ ''G'') ?smp ''host,-avx10''
      (id ''OVMF.inteltdx.fd'') sample_launch ?numa = Inr (cmd, pn)"
    using emulated_cmd_total[OF _ la(2), of 1128] by fastforce
  have "safe_vm_mem_gb 1128 (Some 2000) = 1128" by (simp add: safe_vm_mem_gb_def vm_mem_reserve_gb_def)
  moreover obtain topology where
      "setup_passthrough (sample_host 8) (sample_host 8) prepare = Inr topology"
  proof -
    have "resolve_profile (map (\<lambda>b. (b, ''H200'')) sample_gpus) = Inr h200_profile"
      by (simp add: resolve_profile_def gpu_profiles_def sample_gpus_def)
    moreover have "length sample_gpus = 8" "sample_gpus \<noteq> []" by (simp_all add: sample_gpus_def)
    ultimately show thesis
      using that assms
      by (simp add: setup_passthrough_def Let_def sample_host8_facts h200_facts host_nvswitches_def)
  qed
  ultimately show ?thesis
    using e by (simp add: launch_plan_def q la(1) sample_host8_profile Let_def p mem os)
qed

theorem launch_leaves_host_reserve_witness:
  "\<exists>p. detect_profile (sample_host 8) = Inr p \<and> int (length (host_gpus (sample_host 8))) * ram_per_gpu_gb p \<le> 1936"
proof -
  obtain cmd where "launch_plan (sample_host 8) (sample_host 8) (\<lambda>_ _ _ _. Inr ()) id sample_launch = Inr (Launch cmd)"
    using sample_launch_runs[of "\<lambda>_ _ _ _. Inr ()"] by blast
  moreover have "detect_host_mem_gb (sample_host 8) = Some 2000" by (rule sample_host_mem)
  ultimately show ?thesis
    using launch_leaves_host_reserve[of "sample_host 8" "sample_host 8" "\<lambda>_ _ _ _. Inr ()" id sample_launch cmd 2000]
    by (auto simp: sample_launch_def vm_mem_reserve_gb_def)
qed

end
