(* ===== verification/Pci_Addresses.thy ===== *)
theory Pci_Addresses
  imports Qemu_Launch
begin

text \<open>
  The PCI addresses a launch hands out. The locale \<open>pci_allocator\<close> is the interface of the two
  allocators of \<open>guest/qemu.py\<close>; it is interpreted on \<open>flat_add_device\<close> and \<open>numa_add_device\<close>.
\<close>

section \<open>Addresses\<close>

text \<open>
  An allocator hands out one address per device; \<open>used\<close> are those it has handed out.
\<close>

locale pci_allocator =
  fixes place :: "'s \<Rightarrow> 'd \<Rightarrow> 'a"
    and step :: "'s \<Rightarrow> 'd \<Rightarrow> 's"
    and used :: "'s \<Rightarrow> 'a set"
    and inv :: "'s \<Rightarrow> bool"
  assumes inv_step: "inv s \<Longrightarrow> inv (step s d)"
    and place_fresh: "inv s \<Longrightarrow> place s d \<notin> used s"
    and used_step: "inv s \<Longrightarrow> used (step s d) = insert (place s d) (used s)"
begin

primrec placements :: "'s \<Rightarrow> 'd list \<Rightarrow> 'a list" where
  "placements s [] = []"
| "placements s (d # ds) = place s d # placements (step s d) ds"

lemma placements_fresh: "inv s \<Longrightarrow> a \<in> set (placements s ds) \<Longrightarrow> a \<notin> used s"
proof (induction ds arbitrary: s)
  case (Cons d ds)
  then show ?case
    using place_fresh[OF Cons.prems(1)] used_step[OF Cons.prems(1)] inv_step[OF Cons.prems(1)]
    by (metis insertCI placements.simps(2) set_ConsD)
qed simp

lemma placements_distinct: "inv s \<Longrightarrow> distinct (placements s ds)"
proof (induction ds arbitrary: s)
  case (Cons d ds)
  have "place s d \<notin> set (placements (step s d) ds)"
    using placements_fresh[OF inv_step[OF Cons.prems]] used_step[OF Cons.prems] by blast
  with Cons inv_step show ?case by simp
qed simp

end

subsection \<open>The flat guest\<close>

definition flat_place :: "pci_state \<Rightarrow> vfio_device \<Rightarrow> nat \<times> nat" where
  "flat_place st d = (ps_slot st, ps_func st)"

definition flat_used :: "pci_state \<Rightarrow> (nat \<times> nat) set" where
  "flat_used st = {(s, f). 8 \<le> s \<and> f < 8 \<and> (s < ps_slot st \<or> s = ps_slot st \<and> f < ps_func st)}"

definition flat_inv :: "pci_state \<Rightarrow> bool" where
  "flat_inv st \<longleftrightarrow> 8 \<le> ps_slot st \<and> ps_func st < 8"

definition flat_step :: "pci_state \<Rightarrow> vfio_device \<Rightarrow> pci_state" where
  "flat_step st d = fst (flat_add_device st d)"

lemma flat_step_advances: "flat_step st d = advance_func st"
  by (simp add: flat_step_def flat_add_device_def)

lemma advance_func_cases:
  assumes "flat_inv st"
  shows "advance_func st = (if ps_func st = 7
     then st\<lparr>ps_port := ps_port st + 1, ps_func := 0, ps_slot := ps_slot st + 1\<rparr>
     else st\<lparr>ps_port := ps_port st + 1, ps_func := ps_func st + 1\<rparr>)"
proof -
  have "ps_func st = 7 \<or> ps_func st + 1 < 8" using assms by (auto simp: flat_inv_def)
  then have "ps_func st = 7 \<or> (ps_func st + 1) mod 8 = ps_func st + 1" using mod_less by blast
  then show ?thesis using assms by (auto simp: advance_func_def Let_def flat_inv_def)
qed

interpretation flat: pci_allocator flat_place flat_step flat_used flat_inv
proof
  fix st :: pci_state and d :: vfio_device assume inv: "flat_inv st"
  then show "flat_inv (flat_step st d)"
    by (auto simp: flat_step_advances advance_func_cases flat_inv_def)
  show "flat_place st d \<notin> flat_used st"
    by (simp add: flat_place_def flat_used_def)
  show "flat_used (flat_step st d) = insert (flat_place st d) (flat_used st)"
    using inv by (auto simp: flat_step_advances advance_func_cases flat_inv_def flat_used_def flat_place_def less_Suc_eq)
qed

subsection \<open>The guest with NUMA nodes\<close>

definition numa_step :: "host_env \<Rightarrow> numa_state \<Rightarrow> vfio_device \<Rightarrow> numa_state" where
  "numa_step h st d = fst (numa_add_device h st d)"

definition numa_place :: "host_env \<Rightarrow> numa_state \<Rightarrow> vfio_device \<Rightarrow> string \<times> nat \<times> nat" where
  "numa_place h st d =
     (let node = read_pci_numa_node h (vd_host_bdf d) in
      if node < 0 then (''pcie.0'', flat_place (ns_flat st) d)
      else (pxb_id node, port_idx (fst (ensure_pxb st node)) node + 1, 0))"

definition numa_used :: "numa_state \<Rightarrow> (string \<times> nat \<times> nat) set" where
  "numa_used st = {(b, a). b = ''pcie.0'' \<and> a \<in> flat_used (ns_flat st)} \<union>
     {(b, i, f). f = 0 \<and> (\<exists>n. b = pxb_id n \<and> 1 \<le> i \<and> i \<le> port_idx st n)}"

definition numa_inv :: "numa_state \<Rightarrow> bool" where
  "numa_inv st \<longleftrightarrow> flat_inv (ns_flat st) \<and>
     (\<forall>n. map_of (ns_pxb_created st) n = None \<longleftrightarrow> map_of (ns_pxb_port_idx st) n = None)"

lemma pxb_id_facts [simp]: "pxb_id m = pxb_id n \<longleftrightarrow> m = n" "pxb_id n \<noteq> ''pcie.0''" "''pcie.0'' \<noteq> pxb_id n"
  by (simp_all add: pxb_id_def)

lemma ensure_pxb_facts:
  assumes "numa_inv st"
  shows "numa_inv (fst (ensure_pxb st n))" "ns_flat (fst (ensure_pxb st n)) = ns_flat st"
    "port_idx (fst (ensure_pxb st n)) m = port_idx st m"
    "map_of (ns_pxb_created (fst (ensure_pxb st n))) n \<noteq> None"
proof -
  have None: "map_of (ns_pxb_port_idx st) n = None" if "map_of (ns_pxb_created st) n = None"
    using assms that by (simp add: numa_inv_def)
  show "numa_inv (fst (ensure_pxb st n))"
    using assms by (auto simp: ensure_pxb_def numa_inv_def update_conv')
  show "ns_flat (fst (ensure_pxb st n)) = ns_flat st"
    by (simp add: ensure_pxb_def)
  show "port_idx (fst (ensure_pxb st n)) m = port_idx st m"
    using None by (simp add: ensure_pxb_def port_idx_def update_conv')
  show "map_of (ns_pxb_created (fst (ensure_pxb st n))) n \<noteq> None"
    by (simp add: ensure_pxb_def update_conv')
qed

lemma numa_step_cases:
  "numa_step h st d =
     (let node = read_pci_numa_node h (vd_host_bdf d) in
      if node < 0 then st\<lparr>ns_flat := flat_step (ns_flat st) d\<rparr>
      else let st1 = fst (ensure_pxb st node) in
        st1\<lparr>ns_pxb_port_idx := AList.update node (port_idx st1 node + 1) (ns_pxb_port_idx st1),
            ns_port := ns_port st1 + 1\<rparr>)"
  by (simp add: numa_step_def numa_add_device_def flat_step_def Let_def case_prod_beta)

interpretation numa: pci_allocator "numa_place h" "numa_step h" numa_used numa_inv for h
proof
  fix st :: numa_state and d :: vfio_device assume inv: "numa_inv st"
  let ?n = "read_pci_numa_node h (vd_host_bdf d)"
  have flat: "flat_inv (ns_flat st)" using inv by (simp add: numa_inv_def)
  show "numa_inv (numa_step h st d)"
    using inv ensure_pxb_facts[OF inv, of ?n] flat.inv_step[OF flat]
    by (auto simp: numa_step_cases Let_def numa_inv_def update_conv')
  show "numa_place h st d \<notin> numa_used st"
    using flat.place_fresh[OF flat] ensure_pxb_facts(3)[OF inv]
    by (auto simp: numa_place_def numa_used_def Let_def)
  show "numa_used (numa_step h st d) = insert (numa_place h st d) (numa_used st)"
  proof (cases "?n < 0")
    case True
    then show ?thesis
      using flat.used_step[OF flat]
      by (auto simp: numa_step_cases numa_place_def numa_used_def Let_def port_idx_def)
  next
    case False
    let ?st = "numa_step h st d"
    have idx: "port_idx ?st m = (if m = ?n then port_idx st m + 1 else port_idx st m)" for m
      using False ensure_pxb_facts[OF inv, of ?n]
      by (auto simp: numa_step_cases Let_def port_idx_def update_conv')
    have "ns_flat ?st = ns_flat st"
      using False ensure_pxb_facts(2)[OF inv] by (simp add: numa_step_cases Let_def)
    moreover have "numa_place h st d = (pxb_id ?n, port_idx st ?n + 1, 0)"
      using False ensure_pxb_facts(3)[OF inv] by (simp add: numa_place_def Let_def)
    ultimately show ?thesis
      by (auto simp: numa_used_def idx le_Suc_eq split: if_splits)
  qed
qed

subsection \<open>The addresses on the command line\<close>

text \<open>Bus and address, identifier and chassis of the root ports of a command.\<close>

fun port_addrs :: "qarg list \<Rightarrow> (string \<times> string) list" where
  "port_addrs [] = []"
| "port_addrs (RootPort p c i b m a # as) = (b, a) # port_addrs as"
| "port_addrs (_ # as) = port_addrs as"

fun port_ids :: "qarg list \<Rightarrow> (string \<times> nat) list" where
  "port_ids [] = []"
| "port_ids (RootPort p c i b m a # as) = (i, c) # port_ids as"
| "port_ids (_ # as) = port_ids as"

fun vfio_buses :: "qarg list \<Rightarrow> (string \<times> string) list" where
  "vfio_buses [] = []"
| "vfio_buses (VfioPci d b # as) = (d, b) # vfio_buses as"
| "vfio_buses (_ # as) = vfio_buses as"

lemma port_addrs_append [simp]: "port_addrs (as @ bs) = port_addrs as @ port_addrs bs"
  by (induction as rule: port_addrs.induct) auto

lemma port_ids_append [simp]: "port_ids (as @ bs) = port_ids as @ port_ids bs"
  by (induction as rule: port_ids.induct) auto

lemma vfio_buses_append [simp]: "vfio_buses (as @ bs) = vfio_buses as @ vfio_buses bs"
  by (induction as rule: vfio_buses.induct) auto

lemma fw_cfg_no_ports [simp]:
  "port_addrs (fw_cfg_args d) = []" "port_ids (fw_cfg_args d) = []" "vfio_buses (fw_cfg_args d) = []"
  by (simp_all add: fw_cfg_args_def split: option.splits prod.splits)

text \<open>Addresses as text: slot and function, in hexadecimal.\<close>

definition addr_text :: "nat \<times> nat \<Rightarrow> string" where
  "addr_text a = (case a of (slot, func) \<Rightarrow> if func = 0 then hex slot else hex slot @ ''.'' @ hex func)"

lemma hex_digit_inject: "m < 16 \<Longrightarrow> n < 16 \<Longrightarrow> hex_digit m = hex_digit n \<longleftrightarrow> m = n"
proof -
  have "distinct ''0123456789abcdef''" by simp
  then show "m < 16 \<Longrightarrow> n < 16 \<Longrightarrow> hex_digit m = hex_digit n \<longleftrightarrow> m = n"
    by (simp add: hex_digit_def nth_eq_iff_index_eq)
qed

lemma hex_digit_mod: "hex_digit m = hex_digit n \<longleftrightarrow> m mod 16 = n mod 16"
  using hex_digit_inject[of "m mod 16" "n mod 16"] by (simp add: hex_digit_def)

lemma hex_digits_snoc: "hex_digits n = (if n < 16 then [] else hex_digits (n div 16)) @ [hex_digit n]"
  by (subst hex_digits.simps) simp

lemma hex_digits_inject [simp]: "hex_digits m = hex_digits n \<longleftrightarrow> m = n"
proof (induction m arbitrary: n rule: hex_digits.induct)
  case (1 m)
  have ne: "hex_digits k \<noteq> []" for k by (subst hex_digits_snoc) simp
  have "hex_digits m = hex_digits n \<Longrightarrow> m = n"
  proof -
    assume h: "hex_digits m = hex_digits n"
    then have "m mod 16 = n mod 16" and pre: "(if m < 16 then [] else hex_digits (m div 16)) =
        (if n < 16 then [] else hex_digits (n div 16))"
      by (simp_all add: hex_digits_snoc[of m] hex_digits_snoc[of n] hex_digit_mod)
    moreover from pre have "m div 16 = n div 16"
      using 1 ne ne[symmetric] by (cases "m < 16"; cases "n < 16") auto
    ultimately show "m = n" by (metis div_mult_mod_eq)
  qed
  then show ?case by blast
qed

lemma hex_digit_not_dot: "hex_digit n \<noteq> CHR ''.''"
proof -
  have "\<forall>c \<in> set ''0123456789abcdef''. c \<noteq> CHR ''.''" by simp
  moreover have "hex_digit n \<in> set ''0123456789abcdef''"
    unfolding hex_digit_def by (rule nth_mem) simp
  ultimately show ?thesis by blast
qed

lemma dot_notin_hex: "CHR ''.'' \<notin> set (hex n)"
proof -
  have "CHR ''.'' \<notin> set (hex_digits n)"
    by (induction n rule: hex_digits.induct)
       (subst hex_digits_snoc, use hex_digit_not_dot in \<open>auto dest: sym\<close>)
  then show ?thesis by (simp add: hex_def)
qed

lemma hex_inject [simp]: "hex m = hex n \<longleftrightarrow> m = n"
  by (simp add: hex_def)

lemma addr_text_inject [simp]: "addr_text a = addr_text b \<longleftrightarrow> a = b"
proof -
  have split: "hex m @ ''.'' @ s = hex n @ ''.'' @ t \<longleftrightarrow> m = n \<and> s = t" for m n s t
  proof
    assume h: "hex m @ ''.'' @ s = hex n @ ''.'' @ t"
    have "takeWhile (\<lambda>c. c \<noteq> CHR ''.'') (hex k @ ''.'' @ u) = hex k" for k u
      using dot_notin_hex[of k] by (subst takeWhile_append2) auto
    with h show "m = n \<and> s = t" by (metis append_same_eq hex_inject same_append_eq)
  qed simp
  have plain: "hex m \<noteq> hex n @ ''.'' @ s" for m n s
    using dot_notin_hex[of m] by (metis append_Cons in_set_conv_decomp)
  then show ?thesis
    using split plain[symmetric] by (cases a; cases b) (auto simp: addr_text_def)
qed

lemma flat_args:
  "port_addrs (snd (flat_add_device st d)) = [(''pcie.0'', addr_text (flat_place st d))]"
  "port_ids (snd (flat_add_device st d)) = [(vd_rp_id d, vd_chassis d)]"
  "vfio_buses (snd (flat_add_device st d)) = [(vd_host_bdf d, vd_rp_id d)]"
  by (simp_all add: flat_add_device_def flat_place_def addr_text_def)

lemma ensure_pxb_no_ports:
  "port_addrs (snd (ensure_pxb st n)) = []" "port_ids (snd (ensure_pxb st n)) = []"
  "vfio_buses (snd (ensure_pxb st n)) = []"
  by (simp_all add: ensure_pxb_def)

lemma numa_args:
  "port_addrs (snd (numa_add_device h st d)) = [apsnd addr_text (numa_place h st d)]"
  "port_ids (snd (numa_add_device h st d)) = [(vd_rp_id d, vd_chassis d)]"
  "vfio_buses (snd (numa_add_device h st d)) = [(vd_host_bdf d, vd_rp_id d)]"
  using ensure_pxb_no_ports[of st "read_pci_numa_node h (vd_host_bdf d)"]
  by (auto simp: numa_add_device_def numa_place_def Let_def case_prod_beta flat_args addr_text_def)

lemma add_devices_unfold:
  "add_devices add st (d # ds) = snd (add st d) @ add_devices add (fst (add st d)) ds"
  by (simp add: case_prod_beta)

lemma flat_addrs:
  "port_addrs (add_devices flat_add_device st ds) = map (\<lambda>a. (''pcie.0'', addr_text a)) (flat.placements st ds)"
  by (induction ds arbitrary: st) (simp_all add: add_devices_unfold flat_args flat_step_def del: add_devices.simps(2))

lemma numa_addrs:
  "port_addrs (add_devices (numa_add_device h) st ds) = map (apsnd addr_text) (numa.placements h st ds)"
  by (induction ds arbitrary: st)
     (simp_all add: add_devices_unfold numa_args numa_step_def del: add_devices.simps(2))

lemma add_devices_ids:
  assumes "\<And>st d. port_ids (snd (add st d)) = [(vd_rp_id d, vd_chassis d)]"
    and "\<And>st d. vfio_buses (snd (add st d)) = [(vd_host_bdf d, vd_rp_id d)]"
  shows "port_ids (add_devices add st ds) = map (\<lambda>d. (vd_rp_id d, vd_chassis d)) ds"
    and "vfio_buses (add_devices add st ds) = map (\<lambda>d. (vd_host_bdf d, vd_rp_id d)) ds"
  by (induction ds arbitrary: st) (simp_all add: add_devices_unfold assms del: add_devices.simps(2))

lemma new_states_inv [simp]:
  "flat_inv (new_pci_state port)" "numa_inv (new_numa_state port)"
  by (simp_all add: flat_inv_def new_pci_state_def numa_inv_def new_numa_state_def)

lemma passthrough_chassis:
  "map vd_chassis (passthrough_devices profile gpus nvswitches ib) =
     [1..<Suc (length gpus + length nvswitches + length ib)]"
proof -
  have e: "map (\<lambda>x. k + fst x + 1) (enumerate 0 (xs :: string list)) = [Suc k..<Suc (k + length xs)]" for k xs
    by (rule nth_equalityI) (simp_all add: nth_enumerate_eq del: upt_Suc)
  have "[1..<Suc (m + n + k)] = [Suc 0..<Suc m] @ [Suc m..<Suc (m + n)] @ [Suc (m + n)..<Suc (m + n + k)]" for m n k
    using upt_add_eq_append[of 1 "Suc m" "n + k"] upt_add_eq_append[of "Suc m" "Suc (m + n)" k]
    by (simp add: add.assoc del: upt_Suc)
  then show ?thesis
    using e[of 0 gpus] e[of "length gpus" nvswitches] e[of "length gpus + length nvswitches" ib]
    by (simp add: passthrough_devices_def comp_def case_prod_beta del: upt_Suc)
qed

lemma nat_str_inject [simp]: "nat_str m = nat_str n \<longleftrightarrow> m = n"
  by (simp add: nat_str_def)

lemma nat_str_no_underscore: "nat_str n \<noteq> CHR ''_'' # s"
proof
  assume h: "nat_str n = CHR ''_'' # s"
  have "list_all is_digit (nat_str n)" by (simp add: nat_str_def str_int_def digits_of_digits)
  with h show False by (simp add: is_digit_def)
qed

lemma passthrough_ids_distinct:
  "distinct (map vd_rp_id (passthrough_devices profile gpus nvswitches ib))"
proof -
  have d: "distinct (map (\<lambda>x. pre @ nat_str (Suc (fst x))) (enumerate 0 (xs :: string list)))" for pre xs
    by (auto simp: distinct_conv_nth nth_enumerate_eq)
  show ?thesis
    using d[of "''rp''" gpus] d[of "''rp_nvsw''" nvswitches] d[of "''rp_ib''" ib]
    by (auto simp: passthrough_devices_def comp_def case_prod_beta nat_str_no_underscore)
qed

lemma topology_devices:
  "map fst (vfio_buses (build_pci_topology h profile gpus nvswitches ib)) = gpus @ nvswitches @ ib"
proof -
  let ?ds = "passthrough_devices profile gpus nvswitches ib"
  have "vfio_buses (build_pci_topology h profile gpus nvswitches ib) = map (\<lambda>d. (vd_host_bdf d, vd_rp_id d)) ?ds"
    using add_devices_ids(2)[of flat_add_device] add_devices_ids(2)[of "numa_add_device h"] flat_args numa_args
    by (simp add: build_pci_topology_def Let_def)
  moreover have "map vd_host_bdf ?ds = gpus @ nvswitches @ ib"
    by (simp add: passthrough_devices_def comp_def case_prod_beta)
  ultimately show ?thesis by (simp add: comp_def)
qed

text \<open>The devices of the emulated part of the command: none of the host.\<close>

lemma vfio_buses_empty: "vfio_buses as = [] \<longleftrightarrow> (\<forall>a \<in> set as. \<forall>d b. a \<noteq> VfioPci d b)"
  by (induction as rule: vfio_buses.induct) auto

lemma vfio_buses_plain: "vfio_buses (map Arg ss) = []"
  by (auto simp: vfio_buses_empty)

lemma vfio_buses_none:
  "vfio_buses as = [] \<Longrightarrow> vfio_buses bs = [] \<Longrightarrow> vfio_buses (as @ bs) = []"
  "vfio_buses as = [] \<Longrightarrow> vfio_buses bs = [] \<Longrightarrow> vfio_buses (if c then as else bs) = []"
  "(\<And>i n. vfio_buses (f i n) = []) \<Longrightarrow> vfio_buses (concat (map (\<lambda>(i, n). f i n) xs)) = []"
  by (simp_all, induction xs, auto)

lemma numa_memory_plain: "vfio_buses (numa_memory m nodes) = []"
  unfolding numa_memory_def Let_def
  by (rule vfio_buses_none(1), rule vfio_buses_none(3), rule vfio_buses_plain, rule vfio_buses_none(2), rule vfio_buses_plain,
      rule vfio_buses.simps)

definition no_host_device :: "qcmd res \<Rightarrow> bool" where
  "no_host_device r \<longleftrightarrow> (\<forall>cmd p. r = Inr (cmd, p) \<longrightarrow> vfio_buses cmd = [])"

lemma no_host_device_bind:
  assumes "no_host_device m" "\<And>c. vfio_buses (fst c) = [] \<Longrightarrow> no_host_device (f c)"
  shows "no_host_device (bindR m f)"
proof (cases m)
  case (Inr c)
  then have "vfio_buses (fst c) = []" using assms(1) by (cases c) (auto simp: no_host_device_def)
  then show ?thesis using assms(2) Inr by simp
qed (simp add: no_host_device_def)

lemma no_host_device_pinned:
  assumes "vfio_buses (fst c) = []" "\<And>s. \<exists>ss. args s = map Arg ss"
  shows "no_host_device (pinned args c)"
proof -
  have "vfio_buses (args s) = []" for s using assms(2) vfio_buses_plain by metis
  then show ?thesis using assms(1) by (auto simp: no_host_device_def pinned_def bindR_Inr_iff split: prod.splits)
qed

lemma no_host_device_base: "no_host_device (build_base_cmd h mem smp name cpu_args firmware la numa p)"
proof -
  have memory: "vfio_buses args = []" if "memory_args h mem numa = Inr args" for args
    using that unfolding memory_args_def
    by (auto simp: bindR_Inr_iff numa_memory_plain vfio_buses_plain simp del: list.map split: if_splits)
  show ?thesis
  proof (cases "memory_args h mem numa")
    case (Inr args)
    then show ?thesis unfolding build_base_cmd_def Let_def Inr bindR_simps
      by (intro no_host_device_pinned) (auto simp: memory[OF Inr] vfio_buses_plain simp del: list.map)
  qed (simp add: build_base_cmd_def Let_def no_host_device_def)
qed

lemma no_host_device_parts:
  assumes "vfio_buses (fst c) = []"
  shows "no_host_device (build_network la c)" "no_host_device (add_data_volume path vol_id c)" "no_host_device (add_vsock c)"
  using assms unfolding build_network_def add_data_volume_def add_vsock_def Let_def
  by (auto simp: no_host_device_def[of "Inl _"] no_host_device_def[of "Inr _"] intro!: no_host_device_pinned
      simp del: list.map)

lemma emulated_cmd_plain: "emulated_cmd h mem smp cpu_args firmware la wants_numa = Inr (cmd, p) \<Longrightarrow> vfio_buses cmd = []"
proof -
  have volumes: "no_host_device (add_volumes la c)" if "vfio_buses (fst c) = []" for c
    unfolding add_volumes_def
    using that by (intro no_host_device_bind no_host_device_parts)
      (cases c; auto simp: no_host_device_def[of "Inr _"] intro!: no_host_device_pinned simp del: list.map)+
  have "no_host_device (emulated_cmd h mem smp cpu_args firmware la wants_numa)"
    unfolding emulated_cmd_def by (intro no_host_device_bind no_host_device_base no_host_device_parts volumes)
  then show "emulated_cmd h mem smp cpu_args firmware la wants_numa = Inr (cmd, p) \<Longrightarrow> vfio_buses cmd = []"
    by (simp add: no_host_device_def)
qed

text \<open>
  C12: no two passed-through devices of a launch share a PCI address, in either guest layout and for
  every list of devices: the (bus, address) pairs of the root ports on the command line are pairwise
  distinct. Every device sits behind the root port added for it, and root port identifiers and
  chassis numbers, which QEMU requires to be unique, are.
\<close>

theorem passthrough_addresses_distinct:
  "let cmd = build_pci_topology h profile gpus nvswitches ib in
   distinct (port_addrs cmd) \<and>
   map fst (vfio_buses cmd) = gpus @ nvswitches @ ib \<and> map snd (vfio_buses cmd) = map fst (port_ids cmd) \<and>
   distinct (map fst (port_ids cmd)) \<and>
   map snd (port_ids cmd) = [1..<Suc (length gpus + length nvswitches + length ib)]"
proof -
  let ?ds = "passthrough_devices profile gpus nvswitches ib"
  let ?cmd = "build_pci_topology h profile gpus nvswitches ib"
  have inj: "inj_on (\<lambda>a. (''pcie.0'', addr_text a)) A" "inj_on (apsnd addr_text) B"
    for A and B :: "(string \<times> nat \<times> nat) set"
    by (auto simp: inj_on_def)
  have "distinct (port_addrs ?cmd)"
    using flat.placements_distinct[OF new_states_inv(1)] numa.placements_distinct[OF new_states_inv(2)]
    by (simp add: inj build_pci_topology_def Let_def flat_addrs numa_addrs distinct_map)
  moreover note topology_devices[of h profile gpus nvswitches ib]
  moreover have ids: "port_ids ?cmd = map (\<lambda>d. (vd_rp_id d, vd_chassis d)) ?ds"
      "vfio_buses ?cmd = map (\<lambda>d. (vd_host_bdf d, vd_rp_id d)) ?ds"
    using add_devices_ids[of flat_add_device] add_devices_ids[of "numa_add_device h"] flat_args numa_args
    by (simp_all add: build_pci_topology_def Let_def)
  moreover have "map vd_chassis ?ds = [1..<Suc (length gpus + length nvswitches + length ib)]"
    by (rule passthrough_chassis)
  ultimately show ?thesis
    using passthrough_ids_distinct[of profile gpus nvswitches ib] by (simp add: Let_def comp_def)
qed

section \<open>The fingerprint of a topology\<close>

text \<open>Two devices that the guest cannot tell apart.\<close>

definition same_slot :: "host_env \<Rightarrow> host_env \<Rightarrow> vfio_device \<Rightarrow> vfio_device \<Rightarrow> bool" where
  "same_slot h1 h2 d1 d2 \<longleftrightarrow>
     vd_rp_id d1 = vd_rp_id d2 \<and> vd_chassis d1 = vd_chassis d2 \<and> vd_bar d1 = vd_bar d2 \<and>
     read_pci_numa_node h1 (vd_host_bdf d1) = read_pci_numa_node h2 (vd_host_bdf d2)"

definition same_label :: "vfio_device \<Rightarrow> vfio_device \<Rightarrow> bool" where
  "same_label d1 d2 \<longleftrightarrow> vd_rp_id d1 = vd_rp_id d2 \<and> vd_chassis d1 = vd_chassis d2 \<and> vd_bar d1 = vd_bar d2"

lemma flat_add_view:
  assumes "same_label d1 d2"
  shows "fst (flat_add_device st d1) = fst (flat_add_device st d2)"
    and "map guest_view (snd (flat_add_device st d1)) = map guest_view (snd (flat_add_device st d2))"
  using assms by (simp_all add: same_label_def flat_add_device_def fw_cfg_args_def)

lemma numa_add_view:
  assumes "same_slot h1 h2 d1 d2"
  shows "fst (numa_add_device h1 st d1) = fst (numa_add_device h2 st d2)"
    and "map guest_view (snd (numa_add_device h1 st d1)) = map guest_view (snd (numa_add_device h2 st d2))"
proof -
  have l: "same_label d1 d2" using assms by (simp add: same_slot_def same_label_def)
  show "fst (numa_add_device h1 st d1) = fst (numa_add_device h2 st d2)"
    using assms flat_add_view(1)[OF l]
    by (auto simp: same_slot_def numa_add_device_def Let_def case_prod_beta)
  show "map guest_view (snd (numa_add_device h1 st d1)) = map guest_view (snd (numa_add_device h2 st d2))"
    using assms flat_add_view(2)[OF l]
    by (auto simp: same_slot_def numa_add_device_def Let_def case_prod_beta fw_cfg_args_def)
qed

lemma add_devices_view:
  assumes "list_all2 P ds1 ds2"
    and "\<And>st d1 d2. P d1 d2 \<Longrightarrow> fst (add1 st d1) = fst (add2 st d2)"
    and "\<And>st d1 d2. P d1 d2 \<Longrightarrow> map guest_view (snd (add1 st d1)) = map guest_view (snd (add2 st d2))"
  shows "map guest_view (add_devices add1 st ds1) = map guest_view (add_devices add2 st ds2)"
  using assms(1)
proof (induction ds1 ds2 arbitrary: st rule: list_all2_induct)
  case (Cons d1 ds1 d2 ds2)
  then show ?case
    using assms(2,3)[OF Cons.hyps(1), of st]
    by (simp add: add_devices_unfold del: add_devices.simps(2))
qed simp

text \<open>Node directories named \<open>node\<close> and a number, as the kernel names them.\<close>

definition regular_node_names :: "host_env \<Rightarrow> bool" where
  "regular_node_names h =
     (case he_node_dir h of
        Inl _ \<Rightarrow> True
      | Inr names \<Rightarrow> list_all (\<lambda>n. startswith n ''node'' \<and> (case drop 4 n of c # cs \<Rightarrow> is_digit c | [] \<Rightarrow> False)
          \<longrightarrow> list_all is_digit (drop 4 n)) names)"

lemma numa_count_agrees:
  assumes "regular_node_names h"
  shows "length (host_numa_nodes h) = detect_numa_node_count h"
proof (cases "he_node_dir h")
  case (Inr names)
  let ?digit = "\<lambda>n. case drop 4 n of c # cs \<Rightarrow> is_digit c | [] \<Rightarrow> False"
  have "(startswith n ''node'' \<and> drop 4 n \<noteq> [] \<and> list_all is_digit (drop 4 n)) =
      (startswith n ''node'' \<and> ?digit n)" if "n \<in> set names" for n
  proof -
    have "startswith n ''node'' \<and> ?digit n \<longrightarrow> list_all is_digit (drop 4 n)"
      using assms Inr that by (simp add: regular_node_names_def list_all_iff)
    then show ?thesis by (cases "drop 4 n") auto
  qed
  then have "filter (\<lambda>n. startswith n ''node'' \<and> drop 4 n \<noteq> [] \<and> list_all is_digit (drop 4 n)) names =
        filter (\<lambda>n. startswith n ''node'' \<and> ?digit n) names"
    by (rule filter_cong[OF refl])
  then show ?thesis using Inr by (simp add: host_numa_nodes_def detect_numa_node_count_def)
qed (simp add: host_numa_nodes_def detect_numa_node_count_def)

lemma read_node_of_layout:
  "default_on_error (-1) (numa_node_of h1 b1) = default_on_error (-1) (numa_node_of h2 b2) \<Longrightarrow>
     read_pci_numa_node h1 b1 = read_pci_numa_node h2 b2"
  by (auto simp: default_on_error_def read_pci_numa_node_def split: sum.splits)

lemma same_layout_nodes:
  assumes "device_numa_layout h1 bs1 = device_numa_layout h2 bs2" and "sorted bs1" "sorted bs2"
  shows "length bs1 = length bs2"
    and "i < length bs1 \<Longrightarrow> read_pci_numa_node h1 (bs1 ! i) = read_pci_numa_node h2 (bs2 ! i)"
proof -
  have m: "map (\<lambda>b. default_on_error (-1) (numa_node_of h1 b)) bs1 =
      map (\<lambda>b. default_on_error (-1) (numa_node_of h2 b)) bs2"
    using assms by (simp add: device_numa_layout_def sorted_sort_id)
  then show l: "length bs1 = length bs2" by (rule map_eq_imp_length_eq)
  assume "i < length bs1"
  with m l show "read_pci_numa_node h1 (bs1 ! i) = read_pci_numa_node h2 (bs2 ! i)"
    by (intro read_node_of_layout) (metis nth_map)
qed

lemma passthrough_devices_rel:
  assumes "length gs1 = length gs2" "length ns1 = length ns2" "length is1 = length is2"
    and "\<And>i. i < length gs1 \<Longrightarrow> R (gs1 ! i) (gs2 ! i)" "\<And>i. i < length ns1 \<Longrightarrow> R (ns1 ! i) (ns2 ! i)"
      "\<And>i. i < length is1 \<Longrightarrow> R (is1 ! i) (is2 ! i)"
  shows "list_all2 (\<lambda>d1 d2. same_label d1 d2 \<and> R (vd_host_bdf d1) (vd_host_bdf d2))
     (passthrough_devices p gs1 ns1 is1) (passthrough_devices p gs2 ns2 is2)"
  unfolding passthrough_devices_def using assms
  by (intro list_all2_appendI)
     (auto simp: list_all2_conv_all_nth nth_enumerate_eq same_label_def)

text \<open>
  C4: a measurement registered for a fingerprint holds for every host with this fingerprint: if two
  hosts have equal fingerprints for a profile, the PCI part of their command lines, in the order and
  with the addresses, ports, bridges and firmware hints the guest measures, is the same but for the
  host addresses of the devices. Device lists are sorted, as the detection returns them.
\<close>

theorem fingerprint_determines_guest_pci:
  assumes "host_topology_fingerprint h1 p gs1 ns1 is1 = host_topology_fingerprint h2 p gs2 ns2 is2"
    and "regular_node_names h1" "regular_node_names h2"
    and "sorted gs1" "sorted gs2" "sorted ns1" "sorted ns2" "sorted is1" "sorted is2"
  shows "map guest_view (build_pci_topology h1 p gs1 ns1 is1) = map guest_view (build_pci_topology h2 p gs2 ns2 is2)"
proof -
  have use: "use_numa_topology h1 (enable_numa_topology p) = use_numa_topology h2 (enable_numa_topology p)"
    using assms(1) numa_count_agrees[OF assms(2)] numa_count_agrees[OF assms(3)]
    by (auto simp: host_topology_fingerprint_def use_numa_topology_def split: if_splits)
  show ?thesis
  proof (cases "use_numa_topology h1 (enable_numa_topology p)")
    case True
    then have l: "device_numa_layout h1 gs1 = device_numa_layout h2 gs2"
        "device_numa_layout h1 ns1 = device_numa_layout h2 ns2" "device_numa_layout h1 is1 = device_numa_layout h2 is2"
      using assms(1) use numa_count_agrees[OF assms(2)] numa_count_agrees[OF assms(3)]
      by (auto simp: host_topology_fingerprint_def use_numa_topology_def)
    note nodes = same_layout_nodes[OF l(1) assms(4,5)] same_layout_nodes[OF l(2) assms(6,7)]
      same_layout_nodes[OF l(3) assms(8,9)]
    have "list_all2 (same_slot h1 h2) (passthrough_devices p gs1 ns1 is1) (passthrough_devices p gs2 ns2 is2)"
      by (rule list_all2_mono[OF passthrough_devices_rel[OF nodes(1,3,5) nodes(2,4,6)]])
         (simp_all add: same_slot_def same_label_def)
    from add_devices_view[OF this numa_add_view] show ?thesis
      using True use by (simp add: build_pci_topology_def)
  next
    case False
    then have "length gs1 = length gs2" "length ns1 = length ns2" "length is1 = length is2"
      using assms(1) use numa_count_agrees[OF assms(2)] numa_count_agrees[OF assms(3)]
      by (auto simp: host_topology_fingerprint_def use_numa_topology_def split: if_splits)
    then have "list_all2 same_label (passthrough_devices p gs1 ns1 is1) (passthrough_devices p gs2 ns2 is2)"
      using passthrough_devices_rel[of gs1 gs2 ns1 ns2 is1 is2 "\<lambda>a b. True"] by simp
    from add_devices_view[OF this flat_add_view] show ?thesis
      using False use by (simp add: build_pci_topology_def)
  qed
qed

theorem fingerprint_determines_guest_pci_witness:
  "map guest_view (build_pci_topology (sample_host 8) h200_profile [''00:1.0'', ''00:5.0''] [] []) =
   map guest_view (build_pci_topology (sample_host 2) h200_profile [''00:2.0'', ''00:6.0''] [] [])"
proof (rule fingerprint_determines_guest_pci)
  show "host_topology_fingerprint (sample_host 8) h200_profile [''00:1.0'', ''00:5.0''] [] [] =
        host_topology_fingerprint (sample_host 2) h200_profile [''00:2.0'', ''00:6.0''] [] []" by code_simp
  show "regular_node_names (sample_host 8)" "regular_node_names (sample_host 2)" by code_simp+
qed code_simp+

end
