(* ===== verification/Device_Preparation.thy ===== *)
theory Device_Preparation
  imports Pci_Addresses
begin

text \<open>
  Preparing the passthrough devices: \<open>host-tools/scripts/chutes/guest/vfio.py\<close> and \<open>_prepare_devices\<close> of
  \<open>guest/passthrough.py\<close>. The host is a \<open>kernel\<close>: it answers every operation the code performs on it
  (reading and writing sysfs, running tools, sleeping, reading the clock) from the history of all
  operations so far, in whatever way. A program is a function on histories; \<open>None\<close> means that it
  does not return. The waiting loops end by the clock, so they are partial functions. Threads of the
  pool that unbinds devices run one after the other. The lemmas say what has been done to the devices
  when the preparation succeeds, in which order, and that it returns on a host whose clock runs.
\<close>

section \<open>The host\<close>

datatype host_op =
    Modprobe string
  | ReadFile string
  | WriteFile string string       \<comment> \<open>path, text\<close>
  | SudoWrite string string       \<comment> \<open>the same by \<open>sudo bash\<close>, with a time limit\<close>
  | DriverLink string             \<comment> \<open>the driver a device is bound to\<close>
  | PathExists string
  | ListDir string
  | ListTasks                     \<comment> \<open>\<open>ps -eo stat,args\<close>\<close>
  | CatVendor string
  | IsActive string
  | EnsureTools
  | GpuTools "string list"
  | RunSudo "string list"
  | Clock
  | Sleep nat

datatype reply =
    Done
  | Text string
  | Names "string list"
  | Flag bool
  | Time rat
  | Raised exn

type_synonym history = "(host_op \<times> reply) list"
type_synonym kernel = "history \<Rightarrow> host_op \<Rightarrow> reply"
type_synonym 'a io = "history \<Rightarrow> ('a res \<times> history) option"

definition ret :: "'a \<Rightarrow> 'a io" where "ret x h = Some (Inr x, h)"

definition raise :: "exn \<Rightarrow> 'a io" where "raise e h = Some (Inl e, h)"

definition andThen :: "'a io \<Rightarrow> ('a \<Rightarrow> 'b io) \<Rightarrow> 'b io" where
  "andThen m f h =
     (case m h of
        None \<Rightarrow> None
      | Some (Inl e, h') \<Rightarrow> Some (Inl e, h')
      | Some (Inr x, h') \<Rightarrow> f x h')"

text \<open>\<open>try\<close>: the outcome, an exception or a value, becomes a value.\<close>

definition attempt :: "'a io \<Rightarrow> 'a res io" where
  "attempt m h = (case m h of None \<Rightarrow> None | Some (r, h') \<Rightarrow> Some (Inr r, h'))"

fun each :: "('a \<Rightarrow> unit io) \<Rightarrow> 'a list \<Rightarrow> unit io" where
  "each f [] = ret ()"
| "each f (x # xs) = andThen (f x) (\<lambda>_. each f xs)"

fun select :: "('a \<Rightarrow> bool io) \<Rightarrow> 'a list \<Rightarrow> 'a list io" where
  "select f [] = ret []"
| "select f (x # xs) = andThen (f x) (\<lambda>b. andThen (select f xs) (\<lambda>ys. ret (if b then x # ys else ys)))"

definition ask :: "kernel \<Rightarrow> host_op \<Rightarrow> reply io" where
  "ask k op h = Some (Inr (k h op), h @ [(op, k h op)])"

definition perform :: "kernel \<Rightarrow> host_op \<Rightarrow> unit io" where
  "perform k op = andThen (ask k op) (\<lambda>r. case r of Raised e \<Rightarrow> raise e | _ \<Rightarrow> ret ())"

definition ask_text :: "kernel \<Rightarrow> host_op \<Rightarrow> string io" where
  "ask_text k op = andThen (ask k op) (\<lambda>r. case r of Raised e \<Rightarrow> raise e | Text s \<Rightarrow> ret s | _ \<Rightarrow> ret [])"

definition ask_flag :: "kernel \<Rightarrow> host_op \<Rightarrow> bool io" where
  "ask_flag k op = andThen (ask k op) (\<lambda>r. ret (r = Flag True))"

definition ask_time :: "kernel \<Rightarrow> rat io" where
  "ask_time k = andThen (ask k Clock) (\<lambda>r. ret (case r of Time t \<Rightarrow> t | _ \<Rightarrow> 0))"

section \<open>vfio.py\<close>

definition device_dir :: "string \<Rightarrow> string" where
  "device_dir bdf = ''/sys/bus/pci/devices/'' @ bdf"

definition override_path :: "string \<Rightarrow> string" where
  "override_path bdf = device_dir bdf @ ''/driver_override''"

definition unbind_path :: "string \<Rightarrow> string" where
  "unbind_path driver = ''/sys/bus/pci/drivers/'' @ driver @ ''/unbind''"

definition probe_path :: string where "probe_path = ''/sys/bus/pci/drivers_probe''"

definition vfio_pci :: string where "vfio_pci = ''vfio-pci''"

definition ib_vfs_per_pf :: int where "ib_vfs_per_pf = 1"

definition sriov_readable :: "kernel \<Rightarrow> string \<Rightarrow> int \<Rightarrow> bool io" where
  "sriov_readable k path num_vfs =
     andThen (ask_text k (ReadFile path)) (\<lambda>s.
     case py_int (strip s) of
       None \<Rightarrow> raise (ValueError ''invalid literal for int()'')
     | Some current \<Rightarrow>
         if current \<ge> num_vfs then ret True
         else if current > 0 then andThen (perform k (WriteFile path ''0'')) (\<lambda>_. ret False)
         else ret False)"

definition ensure_sriov_vfs :: "kernel \<Rightarrow> string \<Rightarrow> int \<Rightarrow> bool io" where
  "ensure_sriov_vfs k pf_bdf num_vfs =
     (let path = device_dir pf_bdf @ ''/sriov_numvfs'' in
      andThen (ask_flag k (PathExists path)) (\<lambda>there.
      if \<not> there then ret False
      else
        andThen (attempt (sriov_readable k path num_vfs)) (\<lambda>r.
        case r of
          Inl e \<Rightarrow> (case e of OSError n m \<Rightarrow> ret False | PermissionError m \<Rightarrow> ret False
                    | ValueError m \<Rightarrow> ret False | _ \<Rightarrow> raise e)
        | Inr True \<Rightarrow> ret True
        | Inr False \<Rightarrow>
            andThen (attempt (perform k (WriteFile path (str_int num_vfs)))) (\<lambda>w.
            case w of
              Inr _ \<Rightarrow> ret True
            | Inl e \<Rightarrow> (case e of OSError n m \<Rightarrow> ret False | PermissionError m \<Rightarrow> ret False | _ \<Rightarrow> raise e)))))"

definition load_vfio_modules :: "kernel \<Rightarrow> unit io" where
  "load_vfio_modules k =
     each (\<lambda>m. andThen (ask k (Modprobe m)) (\<lambda>_. ret ())) [''vfio_pci'', ''vfio_iommu_type1'', ''vfio_virqfd'']"

definition get_bound_driver :: "kernel \<Rightarrow> string \<Rightarrow> string option io" where
  "get_bound_driver k bdf =
     andThen (ask k (DriverLink bdf)) (\<lambda>r. ret (case r of Text name \<Rightarrow> Some name | _ \<Rightarrow> None))"

text \<open>The body of \<open>bind_device_to_vfio\<close>, and the \<open>try\<close> that only warns.\<close>

definition free_from_driver :: "kernel \<Rightarrow> string \<Rightarrow> unit io" where
  "free_from_driver k bdf =
     andThen (get_bound_driver k bdf) (\<lambda>driver.
     case driver of
       None \<Rightarrow> ret ()
     | Some name \<Rightarrow>
         if name = vfio_pci then ret ()
         else
           andThen (ask_flag k (PathExists (unbind_path name))) (\<lambda>there.
           if there then perform k (WriteFile (unbind_path name) bdf) else ret ()))"

definition bind_device_to_vfio :: "kernel \<Rightarrow> string \<Rightarrow> unit io" where
  "bind_device_to_vfio k bdf =
     andThen (attempt
       (andThen (perform k (WriteFile (override_path bdf) vfio_pci)) (\<lambda>_.
        andThen (free_from_driver k bdf) (\<lambda>_. perform k (WriteFile probe_path bdf)))))
       (\<lambda>_. ret ())"

definition is_vfio_bound :: "kernel \<Rightarrow> string \<Rightarrow> bool io" where
  "is_vfio_bound k bdf =
     andThen (get_bound_driver k bdf) (\<lambda>driver.
     if driver \<noteq> Some vfio_pci then ret False
     else
       andThen (ask k (ListDir (device_dir bdf @ ''/vfio-dev''))) (\<lambda>r.
       ret (case r of Names (x # xs) \<Rightarrow> True | _ \<Rightarrow> False)))"

definition not_bound :: "kernel \<Rightarrow> string \<Rightarrow> bool io" where
  "not_bound k bdf = andThen (is_vfio_bound k bdf) (\<lambda>b. ret (\<not> b))"

definition reprobe :: "kernel \<Rightarrow> string \<Rightarrow> unit io" where
  "reprobe k bdf = andThen (not_bound k bdf) (\<lambda>n. if n then bind_device_to_vfio k bdf else ret ())"

text \<open>One round of the loop over the stragglers: wait, probe them again, see who is left.\<close>

definition settle_round :: "kernel \<Rightarrow> string list \<Rightarrow> string list io" where
  "settle_round k pending =
     andThen (ask k (Sleep 2)) (\<lambda>_. andThen (each (reprobe k) pending) (\<lambda>_. select (not_bound k) pending))"

partial_function (option) settle :: "kernel \<Rightarrow> rat \<Rightarrow> string list \<Rightarrow> string list io" where
  "settle k deadline pending h =
     (if pending = [] then Some (Inr [], h)
      else
        (case ask_time k h of
           Some (Inr now, h1) \<Rightarrow>
             if now \<ge> deadline then Some (Inr pending, h1)
             else
               (case settle_round k pending h1 of
                  Some (Inr pending', h2) \<Rightarrow> settle k deadline pending' h2
                | r \<Rightarrow> r)
         | Some (Inl e, h1) \<Rightarrow> Some (Inl e, h1)
         | None \<Rightarrow> None))"

text \<open>Naming the drivers of the devices that are left, for the error.\<close>

fun describe_pending :: "kernel \<Rightarrow> string list \<Rightarrow> string list io" where
  "describe_pending k [] = ret []"
| "describe_pending k (d # ds) =
     andThen (get_bound_driver k d) (\<lambda>driver.
     andThen (describe_pending k ds) (\<lambda>rest.
     ret ((d @ '' (driver='' @ (case driver of Some (c # cs) \<Rightarrow> c # cs | _ \<Rightarrow> ''none'') @ '')'') # rest)))"

definition bind_explicit_devices_to_vfio :: "kernel \<Rightarrow> string list \<Rightarrow> rat \<Rightarrow> unit io" where
  "bind_explicit_devices_to_vfio k devices settle_timeout =
     andThen (load_vfio_modules k) (\<lambda>_.
     andThen (each (bind_device_to_vfio k) devices) (\<lambda>_.
     andThen (ask_time k) (\<lambda>now.
     andThen (select (not_bound k) devices) (\<lambda>unbound.
     andThen (settle k (now + settle_timeout) unbound) (\<lambda>pending.
     if pending \<noteq> [] then
       andThen (describe_pending k pending) (\<lambda>details.
       raise (RuntimeError (''Failed to bind device(s) to vfio-pci: '' @ join_with '', '' details)))
     else ret ())))))"

text \<open>A write by subprocess: true unless it times out or cannot be started.\<close>

definition sysfs_write :: "kernel \<Rightarrow> string \<Rightarrow> string \<Rightarrow> bool io" where
  "sysfs_write k path text =
     andThen (ask k (SudoWrite path text)) (\<lambda>r.
     case r of
       Raised e \<Rightarrow> (case e of TimeoutError \<Rightarrow> ret False | OSError n m \<Rightarrow> ret False | PermissionError m \<Rightarrow> ret False
                    | _ \<Rightarrow> raise e)
     | _ \<Rightarrow> ret True)"

definition on_vfio :: "kernel \<Rightarrow> string \<Rightarrow> bool io" where
  "on_vfio k bdf = andThen (get_bound_driver k bdf) (\<lambda>driver. ret (driver = Some vfio_pci))"

text \<open>\<open>any\<close> stops at the first device that is bound.\<close>

fun has_stale_vfio_devices :: "kernel \<Rightarrow> string list \<Rightarrow> bool io" where
  "has_stale_vfio_devices k [] = ret False"
| "has_stale_vfio_devices k (d # ds) =
     andThen (on_vfio k d) (\<lambda>b. if b then ret True else has_stale_vfio_devices k ds)"

text \<open>The lines of \<open>ps\<close>; a failing \<open>ps\<close> raises in the model and counts as no task.\<close>

definition d_state_pci_tasks :: "kernel \<Rightarrow> string list io" where
  "d_state_pci_tasks k =
     andThen (ask k ListTasks) (\<lambda>r.
     ret (case r of
            Names lines \<Rightarrow>
              map strip (filter (\<lambda>line. startswith line ''D'' \<and>
                (contains line ''nvidia-gpu-tools'' \<or> contains line ''vfio-pci/unbind'')) lines)
          | _ \<Rightarrow> []))"

definition pci_operations_wedged :: "kernel \<Rightarrow> bool io" where
  "pci_operations_wedged k = andThen (d_state_pci_tasks k) (\<lambda>tasks. ret (tasks \<noteq> []))"

partial_function (option) idle_loop :: "kernel \<Rightarrow> rat \<Rightarrow> bool io" where
  "idle_loop k deadline h =
     (case ask_time k h of
        Some (Inr now, h1) \<Rightarrow>
          if now \<ge> deadline then Some (Inr False, h1)
          else
            (case pci_operations_wedged k h1 of
               Some (Inr wedged, h2) \<Rightarrow>
                 if \<not> wedged then Some (Inr True, h2)
                 else
                   (case ask k (Sleep 2) h2 of
                      Some (Inr _, h3) \<Rightarrow> idle_loop k deadline h3
                    | Some (Inl e, h3) \<Rightarrow> Some (Inl e, h3)
                    | None \<Rightarrow> None)
             | Some (Inl e, h2) \<Rightarrow> Some (Inl e, h2)
             | None \<Rightarrow> None)
      | Some (Inl e, h1) \<Rightarrow> Some (Inl e, h1)
      | None \<Rightarrow> None)"

definition wait_pci_operations_idle :: "kernel \<Rightarrow> rat \<Rightarrow> bool io" where
  "wait_pci_operations_idle k timeout_secs = andThen (ask_time k) (\<lambda>now. idle_loop k (now + timeout_secs))"

fun unbind_non_vfio_drivers :: "kernel \<Rightarrow> string list \<Rightarrow> string list io" where
  "unbind_non_vfio_drivers k [] = ret []"
| "unbind_non_vfio_drivers k (bdf # bdfs) =
     andThen (get_bound_driver k bdf) (\<lambda>driver.
     case driver of
       None \<Rightarrow> unbind_non_vfio_drivers k bdfs
     | Some name \<Rightarrow>
         if name = vfio_pci then unbind_non_vfio_drivers k bdfs
         else
           andThen (sysfs_write k (unbind_path name) bdf) (\<lambda>ok.
           andThen (unbind_non_vfio_drivers k bdfs) (\<lambda>unbound. ret (if ok then bdf # unbound else unbound))))"

definition unbind_one :: "kernel \<Rightarrow> string \<Rightarrow> bool io" where
  "unbind_one k bdf =
     andThen (sysfs_write k (unbind_path vfio_pci) bdf) (\<lambda>ok.
     if ok then andThen (sysfs_write k (override_path bdf) []) (\<lambda>_. ret True) else ret False)"

definition unbind_stale_vfio_devices :: "kernel \<Rightarrow> string list \<Rightarrow> nat io" where
  "unbind_stale_vfio_devices k devices =
     andThen (select (on_vfio k) devices) (\<lambda>stale.
     andThen (select (unbind_one k) stale) (\<lambda>succeeded. ret (length stale - length succeeded)))"

definition install_udev_rules :: "kernel \<Rightarrow> string \<Rightarrow> unit io" where
  "install_udev_rules k scripts_dir =
     (let src = scripts_dir @ ''/devices/vfio-passthrough.rules'' in
      andThen (ask_flag k (PathExists src)) (\<lambda>there.
      if \<not> there then raise (OSError 2 (''Udev rules file not found: '' @ src))
      else
        andThen (ask_flag k (PathExists ''/etc/udev/rules.d/vfio-passthrough.rules'')) (\<lambda>installed.
        if installed then ret ()
        else each (\<lambda>args. perform k (RunSudo args))
               [[''cp'', src, ''/etc/udev/rules.d/''], [''udevadm'', ''control'', ''--reload-rules''],
                [''udevadm'', ''trigger'']])))"

section \<open>passthrough.py\<close>

text \<open>The path of the tools is asked for once; it is kept in a global variable.\<close>

definition tools_cached :: "history \<Rightarrow> bool" where
  "tools_cached h = list_ex (\<lambda>(op, r). op = EnsureTools \<and> (case r of Raised e \<Rightarrow> False | _ \<Rightarrow> True)) h"

definition ensure_tools :: "kernel \<Rightarrow> unit io" where
  "ensure_tools k h = (if tools_cached h then ret () h else perform k EnsureTools h)"

definition run_gpu_tools :: "kernel \<Rightarrow> string list \<Rightarrow> unit io" where
  "run_gpu_tools k args =
     andThen (ensure_tools k) (\<lambda>_.
     andThen (attempt (perform k (GpuTools args))) (\<lambda>r.
     case r of
       Inr _ \<Rightarrow> ret ()
     | Inl e \<Rightarrow> (case e of TimeoutError \<Rightarrow> raise (RuntimeError ''nvidia-gpu-tools timed out'') | _ \<Rightarrow> raise e)))"

definition check_fabric_manager :: "kernel \<Rightarrow> gpu_profile \<Rightarrow> unit io" where
  "check_fabric_manager k profile =
     (if \<not> requires_fabric_manager profile then ret ()
      else
        andThen (ask k (IsActive ''nvidia-fabricmanager'')) (\<lambda>r.
        case r of
          Text s \<Rightarrow> if strip s = ''active'' then ret ()
                    else raise (RuntimeError (''nvidia-fabricmanager is not running (required for '' @ pf_name profile @ '')''))
        | _ \<Rightarrow> raise (RuntimeError (''nvidia-fabricmanager is not running (required for '' @ pf_name profile @ '')''))))"

definition nvswitch_commands :: "string \<Rightarrow> string list list" where
  "nvswitch_commands nvsw =
     [[''--set-cc-mode=off'', ''--reset-after-cc-mode-switch'', ''--gpu-bdf='' @ nvsw],
      [''--set-ppcie-mode=on'', ''--reset-after-ppcie-mode-switch'', ''--gpu-bdf='' @ nvsw]]"

definition configure_nvswitches :: "kernel \<Rightarrow> string list \<Rightarrow> gpu_profile \<Rightarrow> nat \<Rightarrow> unit io" where
  "configure_nvswitches k nvswitches profile total_gpus =
     (if \<not> (should_passthrough_nvswitches profile total_gpus \<and> nvswitches \<noteq> []) then ret ()
      else each (\<lambda>nvsw. each (run_gpu_tools k) (nvswitch_commands nvsw)) nvswitches)"

definition gpu_commands :: "gpu_profile \<Rightarrow> nat \<Rightarrow> string \<Rightarrow> string list list" where
  "gpu_commands profile total_gpus gpu =
     map (\<lambda>tool_args. tool_args @ [''--gpu-bdf='' @ gpu]) (cc_mode_args profile total_gpus)"

definition configure_gpus :: "kernel \<Rightarrow> string list \<Rightarrow> gpu_profile \<Rightarrow> nat \<Rightarrow> unit io" where
  "configure_gpus k gpus profile total_gpus =
     each (\<lambda>gpu. each (run_gpu_tools k) (gpu_commands profile total_gpus gpu)) gpus"

definition device_config_readable :: "kernel \<Rightarrow> string \<Rightarrow> bool io" where
  "device_config_readable k bdf =
     andThen (ask k (CatVendor bdf)) (\<lambda>r. ret (case r of Text s \<Rightarrow> strip s \<noteq> ''0xffff'' | _ \<Rightarrow> False))"

fun all_readable :: "kernel \<Rightarrow> string list \<Rightarrow> bool io" where
  "all_readable k [] = ret True"
| "all_readable k (d # ds) =
     andThen (device_config_readable k d) (\<lambda>b. if b then all_readable k ds else ret False)"

definition unreadable :: "kernel \<Rightarrow> string \<Rightarrow> bool io" where
  "unreadable k d = andThen (device_config_readable k d) (\<lambda>b. ret (\<not> b))"

partial_function (option) ready_loop :: "kernel \<Rightarrow> rat \<Rightarrow> string list \<Rightarrow> bool io" where
  "ready_loop k deadline devices h =
     (case ask_time k h of
        Some (Inr now, h1) \<Rightarrow>
          if now \<ge> deadline then
            andThen (select (unreadable k) devices) (\<lambda>unready. ret (unready = [])) h1
          else
            (case all_readable k devices h1 of
               Some (Inr ready, h2) \<Rightarrow>
                 if ready then Some (Inr True, h2)
                 else
                   (case ask k (Sleep 2) h2 of
                      Some (Inr _, h3) \<Rightarrow> ready_loop k deadline devices h3
                    | Some (Inl e, h3) \<Rightarrow> Some (Inl e, h3)
                    | None \<Rightarrow> None)
             | Some (Inl e, h2) \<Rightarrow> Some (Inl e, h2)
             | None \<Rightarrow> None)
      | Some (Inl e, h1) \<Rightarrow> Some (Inl e, h1)
      | None \<Rightarrow> None)"

definition wait_devices_ready :: "kernel \<Rightarrow> string list \<Rightarrow> rat \<Rightarrow> bool io" where
  "wait_devices_ready k devices timeout_secs =
     andThen (ask_time k) (\<lambda>now. ready_loop k (now + timeout_secs) devices)"

definition sbr_settle_secs :: nat where "sbr_settle_secs = 30"

abbreviation unbind_wedged :: exn where
  "unbind_wedged \<equiv> RuntimeError ''vfio-pci unbind wedged the PCI subsystem (D-state tasks). SBR cannot run until the host is rebooted.''"

definition refuse_if :: "bool \<Rightarrow> exn \<Rightarrow> unit io" where
  "refuse_if b e = (if b then raise e else ret ())"

text \<open>Escalating to a reset of the devices.\<close>

definition sbr_reset :: "kernel \<Rightarrow> string list \<Rightarrow> gpu_profile \<Rightarrow> unit io" where
  "sbr_reset k all_devices profile =
     andThen (pci_operations_wedged k) (\<lambda>wedged.
     andThen (refuse_if wedged unbind_wedged) (\<lambda>_.
     andThen (run_gpu_tools k (sbr_reset_args profile)) (\<lambda>_.
     andThen (ask k (Sleep sbr_settle_secs)) (\<lambda>_.
     andThen (wait_devices_ready k all_devices 30) (\<lambda>ready.
     andThen (refuse_if (\<not> ready) (RuntimeError ''Devices unresponsive after SBR reset. A host reboot is likely required.'')) (\<lambda>_.
     andThen (unbind_stale_vfio_devices k all_devices) (\<lambda>_. ret ())))))))"

definition clear_stale :: "kernel \<Rightarrow> string list \<Rightarrow> gpu_profile \<Rightarrow> unit io" where
  "clear_stale k all_devices profile =
     andThen (unbind_stale_vfio_devices k all_devices) (\<lambda>unbind_failed.
     andThen (pci_operations_wedged k) (\<lambda>wedged.
     andThen (if wedged
              then andThen (wait_pci_operations_idle k 90) (\<lambda>idle. refuse_if (\<not> idle) unbind_wedged)
              else ret ()) (\<lambda>_.
     andThen (if unbind_failed > 0 then ret True else has_stale_vfio_devices k all_devices) (\<lambda>needs_sbr.
     if needs_sbr then sbr_reset k all_devices profile else ret ()))))"

definition devices_to_bind :: "string list \<Rightarrow> string list \<Rightarrow> string list \<Rightarrow> gpu_profile \<Rightarrow> string list" where
  "devices_to_bind gpus nvswitches ib_devices profile =
     gpus @ (if should_passthrough_nvswitches profile (length gpus) then nvswitches else []) @ ib_devices"

text \<open>\<open>_prepare_devices\<close> up to the binding, and the whole.\<close>

definition clean_and_configure ::
  "kernel \<Rightarrow> string list \<Rightarrow> string list \<Rightarrow> string list \<Rightarrow> gpu_profile \<Rightarrow> unit io" where
  "clean_and_configure k gpus nvswitches ib_devices profile =
     (let all_devices = devices_to_bind gpus nvswitches ib_devices profile in
      andThen (pci_operations_wedged k) (\<lambda>wedged.
      andThen (refuse_if wedged (RuntimeError ''PCI operations are wedged'')) (\<lambda>_.
      andThen (check_fabric_manager k profile) (\<lambda>_.
      andThen (has_stale_vfio_devices k all_devices) (\<lambda>stale.
      andThen (if stale then clear_stale k all_devices profile else ret ()) (\<lambda>_.
      andThen (unbind_non_vfio_drivers k all_devices) (\<lambda>freed.
      andThen (wait_devices_ready k all_devices 10) (\<lambda>ready.
      andThen (refuse_if (\<not> ready) (RuntimeError ''GPU/NVSwitch devices not responding to config-space reads'')) (\<lambda>_.
      andThen (configure_nvswitches k nvswitches profile (length gpus)) (\<lambda>_.
      configure_gpus k gpus profile (length gpus)))))))))))"

definition prepare_devices ::
  "kernel \<Rightarrow> string \<Rightarrow> string list \<Rightarrow> string list \<Rightarrow> string list \<Rightarrow> gpu_profile \<Rightarrow> unit io" where
  "prepare_devices k scripts_dir gpus nvswitches ib_devices profile =
     andThen (clean_and_configure k gpus nvswitches ib_devices profile) (\<lambda>_.
     andThen (bind_explicit_devices_to_vfio k (devices_to_bind gpus nvswitches ib_devices profile) 15) (\<lambda>_.
     install_udev_rules k scripts_dir))"

section \<open>Reasoning about programs\<close>

text \<open>
  \<open>only A m\<close>: all operations \<open>m\<close> performs satisfy \<open>A\<close>. \<open>returns m\<close>: it never fails to return. The
  rules follow the structure of a program.
\<close>

definition only :: "(host_op \<Rightarrow> bool) \<Rightarrow> 'a io \<Rightarrow> bool" where
  "only A m \<longleftrightarrow> (\<forall>h r h'. m h = Some (r, h') \<longrightarrow> (\<exists>new. h' = h @ new \<and> list_all (A \<circ> fst) new))"

definition returns :: "'a io \<Rightarrow> bool" where
  "returns m \<longleftrightarrow> (\<forall>h. m h \<noteq> None)"

named_theorems io_rules \<open>how programs are put together\<close>

lemma onlyI: "(\<And>h r h'. m h = Some (r, h') \<Longrightarrow> \<exists>new. h' = h @ new \<and> list_all (A \<circ> fst) new) \<Longrightarrow> only A m"
  by (simp add: only_def)

lemma onlyE:
  assumes "only A m" "m h = Some (r, h')"
  obtains new where "h' = h @ new" "list_all (A \<circ> fst) new"
  using assms unfolding only_def by blast

lemma returnsE:
  assumes "returns m"
  obtains r h' where "m h = Some (r, h')"
  using assms unfolding returns_def by (metis not_None_eq prod.collapse)

lemma only_trans:
  "\<exists>a. h1 = h @ a \<and> list_all P a \<Longrightarrow> \<exists>b. h2 = h1 @ b \<and> list_all P b \<Longrightarrow> \<exists>c. h2 = h @ c \<and> list_all P c"
  by auto

lemma only_basic [io_rules]:
  "only A (ret x)" "only A (raise e)" "A op \<Longrightarrow> only A (ask k op)"
  by (auto simp: only_def ret_def raise_def ask_def)

lemma only_andThen [io_rules]: "only A m \<Longrightarrow> (\<And>x. only A (f x)) \<Longrightarrow> only A (andThen m f)"
  unfolding only_def andThen_def
  by (fastforce split: option.splits prod.splits sum.splits intro: only_trans)

lemma only_attempt [io_rules]: "only A m \<Longrightarrow> only A (attempt m)"
  by (auto simp: only_def attempt_def split: option.splits prod.splits)

lemma only_each [io_rules]: "(\<And>x. x \<in> set xs \<Longrightarrow> only A (f x)) \<Longrightarrow> only A (each f xs)"
  by (induction xs) (auto intro!: io_rules)

lemma only_select [io_rules]: "(\<And>x. x \<in> set xs \<Longrightarrow> only A (f x)) \<Longrightarrow> only A (select f xs)"
  by (induction xs) (auto intro!: io_rules)

lemma returns_basic [io_rules]: "returns (ret x)" "returns (raise e)" "returns (ask k op)"
  by (simp_all add: returns_def ret_def raise_def ask_def)

lemma returns_andThen [io_rules]: "returns m \<Longrightarrow> (\<And>x. returns (f x)) \<Longrightarrow> returns (andThen m f)"
  by (auto simp: returns_def andThen_def split: option.splits prod.splits sum.splits)

lemma returns_attempt [io_rules]: "returns m \<Longrightarrow> returns (attempt m)"
  by (auto simp: returns_def attempt_def split: option.splits prod.splits)

lemma returns_each [io_rules]: "(\<And>x. x \<in> set xs \<Longrightarrow> returns (f x)) \<Longrightarrow> returns (each f xs)"
  by (induction xs) (auto intro!: io_rules)

lemma returns_select [io_rules]: "(\<And>x. x \<in> set xs \<Longrightarrow> returns (f x)) \<Longrightarrow> returns (select f xs)"
  by (induction xs) (auto intro!: io_rules)

lemma io_if [io_rules]:
  "(b \<Longrightarrow> only A m) \<Longrightarrow> (\<not> b \<Longrightarrow> only A m') \<Longrightarrow> only A (if b then m else m')"
  "(b \<Longrightarrow> returns m) \<Longrightarrow> (\<not> b \<Longrightarrow> returns m') \<Longrightarrow> returns (if b then m else m')"
  by simp_all

lemma io_cases [io_rules]:
  "(\<And>e. only A (f e)) \<Longrightarrow> (\<And>y. only A (g y)) \<Longrightarrow> only A (case s of Inl e \<Rightarrow> f e | Inr y \<Rightarrow> g y)"
  "(\<And>e. returns (f e)) \<Longrightarrow> (\<And>y. returns (g y)) \<Longrightarrow> returns (case s of Inl e \<Rightarrow> f e | Inr y \<Rightarrow> g y)"
  "only A m \<Longrightarrow> (\<And>y. only A (g y)) \<Longrightarrow> only A (case v of None \<Rightarrow> m | Some y \<Rightarrow> g y)"
  "returns m \<Longrightarrow> (\<And>y. returns (g y)) \<Longrightarrow> returns (case v of None \<Rightarrow> m | Some y \<Rightarrow> g y)"
  by (simp_all split: sum.split option.split)

lemma ask_only [io_rules]:
  "A op \<Longrightarrow> only A (perform k op)" "A op \<Longrightarrow> only A (ask_text k op)" "A op \<Longrightarrow> only A (ask_flag k op)"
  "A Clock \<Longrightarrow> only A (ask_time k)"
  unfolding perform_def ask_text_def ask_flag_def ask_time_def
  by (auto intro!: io_rules split: reply.split)

lemma ask_returns [io_rules]:
  "returns (perform k op)" "returns (ask_text k op)" "returns (ask_flag k op)" "returns (ask_time k)"
  unfolding perform_def ask_text_def ask_flag_def ask_time_def
  by (auto intro!: io_rules split: reply.split)

lemma andThen_Some:
  "andThen m f h = Some (Inr y, h') \<longleftrightarrow> (\<exists>x h1. m h = Some (Inr x, h1) \<and> f x h1 = Some (Inr y, h'))"
  by (auto simp: andThen_def split: option.splits prod.splits sum.splits)

lemma ret_Some [simp]: "ret x h = Some (r, h') \<longleftrightarrow> r = Inr x \<and> h' = h"
  by (auto simp: ret_def)

lemma raise_Some [simp]: "raise e h = Some (r, h') \<longleftrightarrow> r = Inl e \<and> h' = h"
  by (auto simp: raise_def)

lemma ask_Some [simp]: "ask k op h = Some (r, h') \<longleftrightarrow> r = Inr (k h op) \<and> h' = h @ [(op, k h op)]"
  by (auto simp: ask_def)

section \<open>Termination\<close>

text \<open>A host whose clock answers, and shows at least two more seconds after a sleep of two.\<close>

definition steady :: "kernel \<Rightarrow> bool" where
  "steady k \<longleftrightarrow> (\<forall>h. \<exists>t. k h Clock = Time t) \<and>
     (\<forall>h h' r t t'. k h Clock = Time t \<longrightarrow> (Sleep 2, r) \<in> set h' \<longrightarrow>
        k (h @ (Clock, Time t) # h') Clock = Time t' \<longrightarrow> t + 2 \<le> t')"

lemma ask_time_eq: "k h Clock = Time t \<Longrightarrow> ask_time k h = Some (Inr t, h @ [(Clock, Time t)])"
  by (simp add: ask_time_def andThen_def ask_def ret_def)

lemma steady_clock: "steady k \<Longrightarrow> \<exists>t. k h Clock = Time t"
  by (simp add: steady_def)

lemma steady_later:
  "steady k \<Longrightarrow> k h Clock = Time t \<Longrightarrow> (Sleep 2, r) \<in> set h' \<Longrightarrow> \<exists>t'. k (h @ (Clock, Time t) # h') Clock = Time t' \<and> t + 2 \<le> t'"
  unfolding steady_def by meson

text \<open>A loop that asks the clock, stops at the deadline and otherwise sleeps before it goes on, returns.\<close>

lemma deadline_loop_returns:
  fixes loop :: "'s \<Rightarrow> 'a io"
  assumes "steady k"
    and round: "\<And>s h t. k h Clock = Time t \<Longrightarrow> t < deadline \<Longrightarrow> loop s h = None \<Longrightarrow>
      \<exists>s' h1 r h2. loop s' (h @ (Clock, Time t) # h1 @ (Sleep 2, r) # h2) = None"
    and stop: "\<And>s h t. k h Clock = Time t \<Longrightarrow> deadline \<le> t \<Longrightarrow> loop s h \<noteq> None"
  shows "returns (loop s)"
proof -
  have *: "loop s h \<noteq> None" if "k h Clock = Time t" "deadline - t \<le> 2 * of_nat n" for n s h t
    using that
  proof (induction n arbitrary: s h t)
    case 0
    then show ?case using stop by simp
  next
    case (Suc n)
    show ?case
    proof
      assume none: "loop s h = None"
      then have "t < deadline" using stop[OF Suc.prems(1)] by (meson not_le)
      from round[OF Suc.prems(1) this none] obtain s' h1 r h2 where
        "loop s' (h @ (Clock, Time t) # h1 @ (Sleep 2, r) # h2) = None" by blast
      then obtain h' where next': "(Sleep 2, r) \<in> set h'" "loop s' (h @ (Clock, Time t) # h') = None"
        using that[of "h1 @ (Sleep 2, r) # h2"] by simp
      obtain t' where t': "k (h @ (Clock, Time t) # h') Clock = Time t'" "t + 2 \<le> t'"
        using steady_later[OF assms(1) Suc.prems(1) next'(1)] by blast
      have "deadline - t' \<le> 2 * of_nat n" using Suc.prems(2) t'(2) by simp
      from Suc.IH[OF t'(1) this, of s'] next'(2) show False by simp
    qed
  qed
  show ?thesis
    unfolding returns_def
  proof
    fix h
    obtain t where t: "k h Clock = Time t" using steady_clock[OF assms(1)] by blast
    obtain n :: nat where "(deadline - t) / 2 < of_nat n" using reals_Archimedean2 by blast
    then show "loop s h \<noteq> None" using *[OF t, of n] by simp
  qed
qed


lemmas vfio_defs = get_bound_driver_def is_vfio_bound_def not_bound_def on_vfio_def free_from_driver_def
  bind_device_to_vfio_def reprobe_def

lemmas tool_defs = d_state_pci_tasks_def pci_operations_wedged_def device_config_readable_def unreadable_def
  refuse_if_def check_fabric_manager_def

lemma vfio_returns [io_rules]:
  "returns (get_bound_driver k d)" "returns (is_vfio_bound k d)" "returns (not_bound k d)"
  "returns (on_vfio k d)" "returns (bind_device_to_vfio k d)" "returns (reprobe k d)"
  unfolding vfio_defs by (intro io_rules)+

lemma tool_returns [io_rules]:
  "returns (pci_operations_wedged k)" "returns (device_config_readable k d)" "returns (unreadable k d)"
  "returns (refuse_if b e)" "returns (check_fabric_manager k p)"
  unfolding tool_defs by (auto intro!: io_rules split: reply.split)

lemma sysfs_write_returns [io_rules]: "returns (sysfs_write k p s)"
  unfolding sysfs_write_def by (auto intro!: io_rules split: reply.split exn.split)

lemma lists_return [io_rules]:
  "returns (describe_pending k ds)" "returns (has_stale_vfio_devices k ds)"
  "returns (unbind_non_vfio_drivers k ds)" "returns (all_readable k ds)"
  by (induction ds) (auto intro!: io_rules)

lemma unbind_returns [io_rules]: "returns (unbind_one k d)" "returns (unbind_stale_vfio_devices k ds)"
  unfolding unbind_one_def unbind_stale_vfio_devices_def by (intro io_rules)+

lemma ensure_tools_returns [io_rules]: "returns (ensure_tools k)"
  using ask_returns(1)[of k EnsureTools] by (simp add: returns_def ensure_tools_def ret_def)

lemma run_gpu_tools_returns [io_rules]: "returns (run_gpu_tools k args)"
  unfolding run_gpu_tools_def by (auto intro!: io_rules split: exn.split)

lemma configure_returns [io_rules]:
  "returns (load_vfio_modules k)" "returns (configure_nvswitches k ns p n)" "returns (configure_gpus k gs p n)"
  "returns (install_udev_rules k dir)"
  unfolding load_vfio_modules_def configure_nvswitches_def configure_gpus_def install_udev_rules_def Let_def
  by (intro io_rules)+

lemma settle_round_returns [io_rules]: "returns (settle_round k ds)"
  unfolding settle_round_def by (intro io_rules)

lemma settle_round_sleeps:
  assumes "settle_round k pending h = Some (r, h')"
  shows "\<exists>rest. h' = h @ (Sleep 2, k h (Sleep 2)) # rest"
proof -
  have "only (\<lambda>_. True) (andThen (each (reprobe k) pending) (\<lambda>_. select (not_bound k) pending))"
    unfolding vfio_defs by (intro io_rules TrueI)
  then show ?thesis
    using assms by (auto simp: settle_round_def andThen_def[of "ask k (Sleep 2)"] ask_def elim!: onlyE)
qed

lemma settle_returns [io_rules]: "steady k \<Longrightarrow> returns (settle k deadline pending)"
proof (rule deadline_loop_returns[where loop = "settle k deadline" and k = k and deadline = deadline])
  fix ds h t assume t: "k h Clock = Time t"
  have now: "ask_time k h = Some (Inr t, h @ [(Clock, Time t)])" using t by (rule ask_time_eq)
  show "settle k deadline ds h \<noteq> None" if "deadline \<le> t"
    using that by (subst settle.simps) (simp add: now)
  show "\<exists>s' h1 r h2. settle k deadline s' (h @ (Clock, Time t) # h1 @ (Sleep 2, r) # h2) = None"
    if "t < deadline" "settle k deadline ds h = None"
  proof -
    obtain r h2 where round: "settle_round k ds (h @ [(Clock, Time t)]) = Some (r, h2)"
      by (rule returnsE[OF settle_round_returns])
    then obtain rest where h2: "h2 = h @ (Clock, Time t) # (Sleep 2, k (h @ [(Clock, Time t)]) (Sleep 2)) # rest"
      using settle_round_sleeps by fastforce
    have "\<exists>ds'. settle k deadline ds' h2 = None"
      using that settle.simps[of k deadline ds h]
      by (auto simp: now round split: if_splits sum.splits)
    then obtain ds' where "settle k deadline ds' h2 = None" by blast
    then show ?thesis
      by (intro exI[of _ ds'] exI[of _ "[]"] exI[of _ "k (h @ [(Clock, Time t)]) (Sleep 2)"] exI[of _ rest])
        (simp add: h2)
  qed
qed

lemma idle_loop_returns [io_rules]: "steady k \<Longrightarrow> returns (idle_loop k deadline)"
proof (rule deadline_loop_returns[where loop = "\<lambda>_::unit. idle_loop k deadline" and k = k and deadline = deadline])
  fix s h t assume t: "k h Clock = Time t"
  have now: "ask_time k h = Some (Inr t, h @ [(Clock, Time t)])" using t by (rule ask_time_eq)
  show "idle_loop k deadline h \<noteq> None" if "deadline \<le> t"
    using that by (subst idle_loop.simps) (simp add: now)
  show "\<exists>(s' :: unit) h1 r h2. idle_loop k deadline (h @ (Clock, Time t) # h1 @ (Sleep 2, r) # h2) = None"
    if "t < deadline" "idle_loop k deadline h = None"
  proof -
    obtain r h2 where wedged: "pci_operations_wedged k (h @ [(Clock, Time t)]) = Some (r, h2)"
      by (rule returnsE[OF tool_returns(1)])
    moreover have "only (\<lambda>_. True) (pci_operations_wedged k)"
      unfolding tool_defs by (intro io_rules TrueI)
    ultimately obtain new where h2: "h2 = (h @ [(Clock, Time t)]) @ new" by (auto elim: onlyE)
    have "idle_loop k deadline (h2 @ [(Sleep 2, k h2 (Sleep 2))]) = None"
      using that idle_loop.simps[of k deadline h]
      by (auto simp: now wedged ask_def split: if_splits sum.splits)
    then show ?thesis
      by (intro exI[of _ "()"] exI[of _ new] exI[of _ "k h2 (Sleep 2)"] exI[of _ "[]"]) (simp add: h2)
  qed
qed

lemma ready_loop_returns [io_rules]: "steady k \<Longrightarrow> returns (ready_loop k deadline ds)"
proof (rule deadline_loop_returns[where loop = "\<lambda>_::unit. ready_loop k deadline ds" and k = k and deadline = deadline])
  fix s h t assume t: "k h Clock = Time t"
  have now: "ask_time k h = Some (Inr t, h @ [(Clock, Time t)])" using t by (rule ask_time_eq)
  have "returns (andThen (select (unreadable k) ds) (\<lambda>unready. ret (unready = [])))" by (intro io_rules)
  then show "ready_loop k deadline ds h \<noteq> None" if "deadline \<le> t"
    using that by (subst ready_loop.simps) (simp add: now returns_def)
  show "\<exists>(s' :: unit) h1 r h2. ready_loop k deadline ds (h @ (Clock, Time t) # h1 @ (Sleep 2, r) # h2) = None"
    if "t < deadline" "ready_loop k deadline ds h = None"
  proof -
    obtain r h2 where ready: "all_readable k ds (h @ [(Clock, Time t)]) = Some (r, h2)"
      by (rule returnsE[OF lists_return(4)])
    moreover have "only (\<lambda>_. True) (all_readable k ds)"
      by (induction ds) (auto simp: device_config_readable_def intro!: io_rules)
    ultimately obtain new where h2: "h2 = (h @ [(Clock, Time t)]) @ new" by (auto elim: onlyE)
    have "ready_loop k deadline ds (h2 @ [(Sleep 2, k h2 (Sleep 2))]) = None"
      using that ready_loop.simps[of k deadline ds h]
      by (auto simp: now ready ask_def split: if_splits sum.splits)
    then show ?thesis
      by (intro exI[of _ "()"] exI[of _ new] exI[of _ "k h2 (Sleep 2)"] exI[of _ "[]"]) (simp add: h2)
  qed
qed

text \<open>
  C15: the preparation of the devices returns on every host whose clock runs, whatever the devices and
  the tools answer: the three loops that poll end at their deadlines.
\<close>

theorem preparation_returns:
  assumes "steady k"
  shows "\<exists>r h'. prepare_devices k scripts_dir gpus nvswitches ib_devices profile h = Some (r, h')"
proof -
  have "returns (prepare_devices k scripts_dir gpus nvswitches ib_devices profile)"
    unfolding prepare_devices_def clean_and_configure_def clear_stale_def sbr_reset_def
      bind_explicit_devices_to_vfio_def wait_devices_ready_def wait_pci_operations_idle_def Let_def
    by (intro io_rules assms)
  then show ?thesis by (auto simp: returns_def)
qed


section \<open>What a successful preparation has done\<close>

subsection \<open>Bound devices\<close>

text \<open>Operations that may change the driver of a device.\<close>

definition controls :: "string \<Rightarrow> string \<Rightarrow> string \<Rightarrow> bool" where
  "controls d path text \<longleftrightarrow>
     path = override_path d \<or> text = d \<and> (path = probe_path \<or> endswith path ''/unbind'')"

fun touches :: "string \<Rightarrow> host_op \<Rightarrow> bool" where
  "touches d (WriteFile path text) = controls d path text"
| "touches d (SudoWrite path text) = controls d path text"
| "touches d (GpuTools args) = True"
| "touches d _ = False"

text \<open>
  The device was seen on vfio-pci with its character device, and nothing that may change its driver
  has been done since.
\<close>

definition seen_bound :: "string \<Rightarrow> history \<Rightarrow> bool" where
  "seen_bound d h \<longleftrightarrow> (\<exists>h1 x xs h2. h = h1 @ (DriverLink d, Text vfio_pci) #
     (ListDir (device_dir d @ ''/vfio-dev''), Names (x # xs)) # h2 \<and> list_all (\<lambda>e. \<not> touches d (fst e)) h2)"

lemma seen_bound_append:
  assumes "seen_bound d h" "list_all (\<lambda>e. \<not> touches d (fst e)) new"
  shows "seen_bound d (h @ new)"
proof -
  obtain h1 x xs h2 where "h = h1 @ (DriverLink d, Text vfio_pci) #
      (ListDir (device_dir d @ ''/vfio-dev''), Names (x # xs)) # h2" "list_all (\<lambda>e. \<not> touches d (fst e)) h2"
    using assms(1) unfolding seen_bound_def by blast
  with assms(2) show ?thesis
    unfolding seen_bound_def by (intro exI[of _ h1] exI[of _ x] exI[of _ xs] exI[of _ "h2 @ new"]) simp
qed

lemma seen_bound_only:
  "seen_bound d h \<Longrightarrow> only (\<lambda>op. \<not> touches d op) m \<Longrightarrow> m h = Some (r, h') \<Longrightarrow> seen_bound d h'"
  by (erule onlyE, assumption) (auto simp: comp_def intro: seen_bound_append)

lemma not_bound_False: "not_bound k d h = Some (Inr False, h') \<Longrightarrow> seen_bound d h'"
proof -
  assume "not_bound k d h = Some (Inr False, h')"
  then obtain x xs where "k h (DriverLink d) = Text vfio_pci"
      "k (h @ [(DriverLink d, Text vfio_pci)]) (ListDir (device_dir d @ ''/vfio-dev'')) = Names (x # xs)"
      "h' = h @ [(DriverLink d, Text vfio_pci), (ListDir (device_dir d @ ''/vfio-dev''), Names (x # xs))]"
    by (auto simp: not_bound_def is_vfio_bound_def get_bound_driver_def andThen_Some
        split: if_splits reply.splits list.splits)
  then show ?thesis unfolding seen_bound_def by (intro exI[of _ h] exI[of _ x] exI[of _ xs] exI[of _ "[]"]) simp
qed

lemma checks_touch_nothing:
  "only (\<lambda>op. \<not> touches d op) (not_bound k s)" "only (\<lambda>op. \<not> touches d op) (select (not_bound k) ss)"
  unfolding vfio_defs by (intro io_rules; simp)+

lemma select_not_bound:
  "select (not_bound k) ds h = Some (Inr ps, h') \<Longrightarrow>
     set ps \<subseteq> set ds \<and> (\<forall>d \<in> set ds - set ps. seen_bound d h')"
proof (induction ds arbitrary: h ps)
  case (Cons c ds)
  then obtain n h1 ps1 where run: "not_bound k c h = Some (Inr n, h1)" "select (not_bound k) ds h1 = Some (Inr ps1, h')"
      "ps = (if n then c # ps1 else ps1)"
    by (auto simp: andThen_Some)
  have "seen_bound c h'" if "\<not> n"
    using run(1) that not_bound_False seen_bound_only[OF _ checks_touch_nothing(2) run(2)] by simp
  then show ?case using Cons.IH[OF run(2)] run(3) by auto
qed simp

lemma other_device:
  assumes "s \<noteq> d"
  shows "\<not> controls d (override_path s) t" "\<not> controls d (unbind_path n) s" "\<not> controls d probe_path s"
proof -
  have "\<not> suffix ''/unbind'' (override_path s)"
  proof
    assume "suffix ''/unbind'' (override_path s)"
    moreover have "last (override_path s) = CHR ''e''" by (simp add: override_path_def)
    ultimately show False by (auto simp: suffix_def)
  qed
  with assms show "\<not> controls d (override_path s) t" "\<not> controls d (unbind_path n) s" "\<not> controls d probe_path s"
    by (auto simp: controls_def override_path_def device_dir_def probe_path_def unbind_path_def)
qed

lemma bind_touches_one:
  assumes "s \<noteq> d"
  shows "only (\<lambda>op. \<not> touches d op) (bind_device_to_vfio k s)"
    and "only (\<lambda>op. \<not> touches d op) (reprobe k s)"
proof -
  show *: "only (\<lambda>op. \<not> touches d op) (bind_device_to_vfio k s)"
    unfolding bind_device_to_vfio_def free_from_driver_def get_bound_driver_def
    by (intro io_rules; simp add: other_device[OF assms])
  show "only (\<lambda>op. \<not> touches d op) (reprobe k s)"
    unfolding reprobe_def by (intro io_rules checks_touch_nothing *)
qed

lemma settle_round_bound:
  assumes "settle_round k pending h = Some (Inr ps, h')"
  shows "set ps \<subseteq> set pending"
    and "\<And>d. d \<notin> set ps \<Longrightarrow> (d \<notin> set pending \<Longrightarrow> seen_bound d h) \<Longrightarrow> seen_bound d h'"
proof -
  obtain h1 h2 where run: "ask k (Sleep 2) h = Some (Inr (k h (Sleep 2)), h1)"
      "each (reprobe k) pending h1 = Some (Inr (), h2)" "select (not_bound k) pending h2 = Some (Inr ps, h')"
    using assms by (auto simp: settle_round_def andThen_Some)
  note sel = select_not_bound[OF run(3)]
  from sel show "set ps \<subseteq> set pending" by blast
  fix d assume d: "d \<notin> set ps" "d \<notin> set pending \<Longrightarrow> seen_bound d h"
  show "seen_bound d h'"
  proof (cases "d \<in> set pending")
    case True
    then show ?thesis using sel d(1) by blast
  next
    case False
    then have "only (\<lambda>op. \<not> touches d op) (settle_round k pending)"
      unfolding settle_round_def by (intro io_rules bind_touches_one checks_touch_nothing) auto
    then show ?thesis using seen_bound_only assms d(2) False by blast
  qed
qed

lemma settle_bound:
  assumes "settle k deadline pending h = Some y"
  shows "\<forall>ps. fst y = Inr ps \<longrightarrow> d \<notin> set ps \<longrightarrow> (d \<notin> set pending \<longrightarrow> seen_bound d h) \<longrightarrow> seen_bound d (snd y)"
  using assms
proof (rule settle.raw_induct[rotated, where P = "\<lambda>k deadline pending h y. \<forall>ps. fst y = Inr ps \<longrightarrow>
    d \<notin> set ps \<longrightarrow> (d \<notin> set pending \<longrightarrow> seen_bound d h) \<longrightarrow> seen_bound d (snd y)"], goal_cases)
  case (1 loop k deadline pending h y)
  have clock: "only (\<lambda>op. \<not> touches d op) (ask_time k)" by (intro io_rules) simp
  show ?case
  proof (intro allI impI)
    fix ps assume ps: "fst y = Inr ps" "d \<notin> set ps" and before: "d \<notin> set pending \<longrightarrow> seen_bound d h"
    show "seen_bound d (snd y)"
    proof (cases "pending = []")
      case True
      then show ?thesis using 1(2) before by auto
    next
      case False
      then obtain now h1 where h1: "ask_time k h = Some (Inr now, h1)"
        using 1(2) ps(1) by (auto split: option.splits sum.splits prod.splits)
      then have before1: "d \<notin> set pending \<Longrightarrow> seen_bound d h1"
        using before seen_bound_only[OF _ clock] by blast
      show ?thesis
      proof (cases "deadline \<le> now")
        case True
        then have "y = (Inr pending, h1)" using 1(2) False h1 by simp
        then show ?thesis using ps before1 by simp
      next
        case late: False
        then obtain ps1 h2 where round: "settle_round k pending h1 = Some (Inr ps1, h2)" "loop k deadline ps1 h2 = Some y"
          using 1(2) False h1 ps(1) by (auto split: option.splits sum.splits prod.splits)
        then show ?thesis
          using 1(1)[OF round(2)] settle_round_bound(2)[OF round(1) _ before1] ps by blast
      qed
    qed
  qed
qed

lemma bind_explicit_bound:
  assumes "bind_explicit_devices_to_vfio k ds timeout h = Some (Inr (), h')" and "d \<in> set ds"
  shows "seen_bound d h'"
proof -
  obtain unbound h1 h2 deadline where sel: "select (not_bound k) ds h1 = Some (Inr unbound, h2)"
      and wait: "settle k deadline unbound h2 = Some (Inr [], h')"
    using assms(1)
    by (auto simp: bind_explicit_devices_to_vfio_def andThen_Some split: if_splits)
  then show ?thesis
    using select_not_bound[OF sel] settle_bound[OF wait, of d] assms(2) by auto
qed

lemma udev_touches_nothing: "only (\<lambda>op. \<not> touches d op) (install_udev_rules k dir)"
  unfolding install_udev_rules_def Let_def by (intro io_rules; simp)

lemma successful_binding:
  assumes "prepare_devices k scripts_dir gpus nvswitches ib_devices profile h = Some (Inr (), h')"
    and "d \<in> set (devices_to_bind gpus nvswitches ib_devices profile)"
  shows "\<exists>h1 x xs h2. h' = h1 @ (DriverLink d, Text ''vfio-pci'') #
       (ListDir (''/sys/bus/pci/devices/'' @ d @ ''/vfio-dev''), Names (x # xs)) # h2 \<and>
     list_all (\<lambda>e. \<not> touches d (fst e)) h2"
proof -
  have "seen_bound d h'"
    using assms(1) bind_explicit_bound[OF _ assms(2)] seen_bound_only[OF _ udev_touches_nothing]
    by (fastforce simp: prepare_devices_def andThen_Some)
  then show ?thesis by (simp add: seen_bound_def vfio_pci_def device_dir_def)
qed

text \<open>
  C13: when the preparation succeeds, every device that QEMU is about to open was seen bound to vfio-pci
  with its character device, after all mode changes and resets, and nothing that could change its
  driver was done to it since.
\<close>

theorem prepared_devices_are_bound:
  assumes "prepare_devices k scripts_dir gpus nvswitches ib_devices profile h = Some (Inr (), h')"
    and "d \<in> set (devices_to_bind gpus nvswitches ib_devices profile)"
  shows "\<exists>h1 x xs h2. h' = h1 @ (DriverLink d, Text ''vfio-pci'') #
       (ListDir (''/sys/bus/pci/devices/'' @ d @ ''/vfio-dev''), Names (x # xs)) # h2 \<and>
     list_all (\<lambda>e. \<not> touches d (fst e)) h2"
  using assms by (rule successful_binding)

subsection \<open>Modes and resets\<close>

fun is_tool :: "host_op \<Rightarrow> bool" where
  "is_tool (GpuTools args) = True"
| "is_tool _ = False"

fun is_direct_write :: "host_op \<Rightarrow> bool" where
  "is_direct_write (WriteFile path text) = True"
| "is_direct_write _ = False"

text \<open>Neither a tool nor a direct write; and nothing that changes the host at all.\<close>

definition quiet :: "host_op \<Rightarrow> bool" where
  "quiet op \<longleftrightarrow> \<not> is_tool op \<and> \<not> is_direct_write op"

lemma quiet_simps [simp]:
  "quiet (SudoWrite p t)" "quiet (DriverLink d)" "quiet (PathExists p)" "quiet (ListDir p)" "quiet ListTasks"
  "quiet (CatVendor d)" "quiet (IsActive u)" "quiet EnsureTools" "quiet Clock" "quiet (Sleep n)"
  "\<not> quiet (GpuTools a)" "\<not> quiet (WriteFile p t)"
  by (simp_all add: quiet_def)

lemma idle_loop_quiet:
  assumes "idle_loop k deadline h = Some y"
  shows "\<exists>new. snd y = h @ new \<and> list_all (quiet \<circ> fst) new"
  using assms
proof (rule idle_loop.raw_induct[rotated, where P = "\<lambda>k deadline h y. \<exists>new. snd y = h @ new \<and> list_all (quiet \<circ> fst) new"],
    goal_cases)
  case (1 loop k deadline h y)
  have o: "only quiet (ask_time k)" "only quiet (pci_operations_wedged k)"
    unfolding tool_defs by (intro io_rules; simp)+
  from 1(2) show ?case
    by (auto split: option.splits sum.splits prod.splits if_splits elim!: onlyE[OF o(1)] onlyE[OF o(2)] dest!: 1(1))
qed

lemma all_readable_quiet: "only quiet (all_readable k ds)"
  by (induction ds) (auto simp: device_config_readable_def intro!: io_rules)

lemma ready_loop_quiet:
  assumes "ready_loop k deadline ds h = Some y"
  shows "\<exists>new. snd y = h @ new \<and> list_all (quiet \<circ> fst) new"
  using assms
proof (rule ready_loop.raw_induct[rotated, where P = "\<lambda>k deadline ds h y. \<exists>new. snd y = h @ new \<and> list_all (quiet \<circ> fst) new"],
    goal_cases)
  case (1 loop k deadline ds h y)
  have o: "only quiet (ask_time k)" "only quiet (all_readable k ds)"
      "only quiet (andThen (select (unreadable k) ds) (\<lambda>unready. ret (unready = [])))"
    unfolding tool_defs by (intro io_rules all_readable_quiet; simp)+
  from 1(2) show ?case
    by (cases y) (auto split: option.splits sum.splits prod.splits if_splits
        elim!: onlyE[OF o(1)] onlyE[OF o(2)] onlyE[OF o(3)] dest!: 1(1))
qed

lemma waits_quiet [io_rules]:
  "only quiet (wait_pci_operations_idle k n)" "only quiet (wait_devices_ready k ds n)"
  unfolding wait_pci_operations_idle_def wait_devices_ready_def
  by (intro io_rules onlyI; (simp | drule idle_loop_quiet ready_loop_quiet; simp))+

lemma steps_quiet [io_rules]:
  "only quiet (pci_operations_wedged k)" "only quiet (refuse_if b e)" "only quiet (check_fabric_manager k profile)"
  "only quiet (on_vfio k d)" "only quiet (get_bound_driver k d)" "only quiet (ensure_tools k)"
  "only quiet (sysfs_write k p t)"
proof -
  show "only quiet (ensure_tools k)"
    using ask_only(1)[of quiet EnsureTools k] by (auto simp: only_def ensure_tools_def)
qed (unfold tool_defs vfio_defs sysfs_write_def, auto intro!: io_rules split: reply.split exn.split)

lemma lists_quiet [io_rules]:
  "only quiet (has_stale_vfio_devices k ds)" "only quiet (unbind_non_vfio_drivers k ds)"
  "only quiet (unbind_stale_vfio_devices k ds)"
proof -
  show "only quiet (has_stale_vfio_devices k ds)" "only quiet (unbind_non_vfio_drivers k ds)"
    by (induction ds) (auto intro!: io_rules)
  show "only quiet (unbind_stale_vfio_devices k ds)"
    unfolding unbind_stale_vfio_devices_def unbind_one_def by (intro io_rules)
qed

text \<open>The runs of the GPU tools in a history, with whether they succeeded.\<close>

definition tool_run :: "host_op \<times> reply \<Rightarrow> (string list \<times> bool) list" where
  "tool_run e = (case e of (GpuTools args, r) \<Rightarrow> [(args, case r of Raised _ \<Rightarrow> False | _ \<Rightarrow> True)] | _ \<Rightarrow> [])"

definition tool_runs :: "history \<Rightarrow> (string list \<times> bool) list" where
  "tool_runs h = concat (map tool_run h)"

lemma tool_runs_simps [simp]:
  "tool_runs [] = []" "tool_runs (e # h) = tool_run e @ tool_runs h" "tool_runs (h @ h') = tool_runs h @ tool_runs h'"
  by (simp_all add: tool_runs_def)

lemma quiet_no_runs: "list_all (quiet \<circ> fst) new \<Longrightarrow> tool_runs new = []"
  by (induction new) (auto simp: tool_run_def split: host_op.splits)

text \<open>\<open>does m S\<close>: a successful run of \<open>m\<close> writes nothing directly and runs one of the sequences \<open>S\<close> of tools.\<close>

definition does :: "'a io \<Rightarrow> string list list set \<Rightarrow> bool" where
  "does m S \<longleftrightarrow> (\<forall>h x h'. m h = Some (Inr x, h') \<longrightarrow>
     (\<exists>new cmds. h' = h @ new \<and> cmds \<in> S \<and> tool_runs new = map (\<lambda>c. (c, True)) cmds \<and>
        list_all (\<lambda>e. \<not> is_direct_write (fst e)) new))"

lemma does_quiet: "only quiet m \<Longrightarrow> does m {[]}"
  unfolding does_def by (auto elim!: onlyE simp: quiet_no_runs) (auto simp: list_all_iff quiet_def)

lemma does_andThen:
  assumes "does m A" "\<And>x. does (f x) B"
  shows "does (andThen m f) {a @ b | a b. a \<in> A \<and> b \<in> B}"
  unfolding does_def
proof (intro allI impI)
  fix h y h' assume "andThen m f h = Some (Inr y, h')"
  then obtain x h1 where run: "m h = Some (Inr x, h1)" "f x h1 = Some (Inr y, h')"
    by (auto simp: andThen_Some)
  obtain new a where m: "h1 = h @ new" "a \<in> A" "tool_runs new = map (\<lambda>c. (c, True)) a"
      "list_all (\<lambda>e. \<not> is_direct_write (fst e)) new"
    using assms(1) run(1) unfolding does_def by blast
  obtain new' b where f: "h' = h1 @ new'" "b \<in> B" "tool_runs new' = map (\<lambda>c. (c, True)) b"
      "list_all (\<lambda>e. \<not> is_direct_write (fst e)) new'"
    using assms(2) run(2) unfolding does_def by blast
  show "\<exists>new cmds. h' = h @ new \<and> cmds \<in> {a @ b | a b. a \<in> A \<and> b \<in> B} \<and>
      tool_runs new = map (\<lambda>c. (c, True)) cmds \<and> list_all (\<lambda>e. \<not> is_direct_write (fst e)) new"
    using m f by (intro exI[of _ "new @ new'"] exI[of _ "a @ b"]) auto
qed

lemma does_after: "only quiet m \<Longrightarrow> (\<And>x. does (f x) B) \<Longrightarrow> does (andThen m f) B"
  using does_andThen[OF does_quiet, of m f B] by simp

lemma does_before: "does m A \<Longrightarrow> (\<And>x. only quiet (f x)) \<Longrightarrow> does (andThen m f) A"
  using does_andThen[of m A f "{[]}"] does_quiet by auto

lemma does_mono: "does m A \<Longrightarrow> A \<subseteq> B \<Longrightarrow> does m B"
  unfolding does_def by blast

lemma does_ret: "[] \<in> S \<Longrightarrow> does (ret x) S"
  unfolding does_def by (auto intro!: exI[of _ "[]"])

lemma does_run_gpu_tools: "does (run_gpu_tools k args) {[args]}"
  unfolding run_gpu_tools_def
proof (rule does_after[OF steps_quiet(6)])
  fix x :: unit
  show "does (andThen (attempt (perform k (GpuTools args))) (\<lambda>r. case r of Inr _ \<Rightarrow> ret ()
     | Inl e \<Rightarrow> (case e of TimeoutError \<Rightarrow> raise (RuntimeError ''nvidia-gpu-tools timed out'') | _ \<Rightarrow> raise e))) {[args]}"
    unfolding does_def
    by (auto simp: andThen_Some attempt_def perform_def andThen_def ask_def tool_run_def
        split: option.splits prod.splits sum.splits exn.splits reply.splits)
qed

lemma does_each: "(\<And>x. does (f x) {g x}) \<Longrightarrow> does (each f xs) {concat (map g xs)}"
proof (induction xs)
  case Nil
  show ?case using does_quiet[OF only_basic(1)] by simp
next
  case (Cons x xs)
  from does_andThen[of "f x" "{g x}" "\<lambda>_. each f xs" "{concat (map g xs)}"] Cons show ?case by simp
qed

text \<open>The tools a preparation runs: a reset if it needed one, then the modes of all switches and GPUs.\<close>

definition mode_commands :: "string list \<Rightarrow> string list \<Rightarrow> gpu_profile \<Rightarrow> string list list" where
  "mode_commands gpus nvswitches profile =
     (if should_passthrough_nvswitches profile (length gpus) then concat (map nvswitch_commands nvswitches) else [])
     @ concat (map (gpu_commands profile (length gpus)) gpus)"

lemma does_configure:
  "does (andThen (configure_nvswitches k nvswitches profile (length gpus)) (\<lambda>_. configure_gpus k gpus profile (length gpus)))
     {mode_commands gpus nvswitches profile}"
proof -
  have tools: "does (each (run_gpu_tools k) cs) {cs}" for cs
    using does_each[of "run_gpu_tools k" "\<lambda>c. [c]" cs] does_run_gpu_tools by simp
  have "does (configure_nvswitches k nvswitches profile (length gpus))
      {if should_passthrough_nvswitches profile (length gpus) then concat (map nvswitch_commands nvswitches) else []}"
    using does_quiet[OF only_basic(1)] does_each[OF tools[of "nvswitch_commands _"]]
    by (auto simp: configure_nvswitches_def)
  moreover have "does (configure_gpus k gpus profile (length gpus)) {concat (map (gpu_commands profile (length gpus)) gpus)}"
    unfolding configure_gpus_def by (rule does_each[OF tools])
  ultimately show ?thesis
    using does_andThen by (fastforce simp: mode_commands_def)
qed

lemma does_clear_stale: "does (clear_stale k ds profile) {[], [sbr_reset_args profile]}"
proof -
  have "does (sbr_reset k ds profile) {[sbr_reset_args profile]}"
    unfolding sbr_reset_def
    by (intro does_after does_before[OF does_run_gpu_tools] io_rules) simp
  then have "does (if b then sbr_reset k ds profile else ret ()) {[], [sbr_reset_args profile]}" for b
    by (auto intro: does_mono does_ret)
  then show ?thesis
    unfolding clear_stale_def by (intro does_after io_rules)
qed

lemma does_clean_and_configure:
  "does (clean_and_configure k gpus nvswitches ib_devices profile)
     {sbr @ mode_commands gpus nvswitches profile | sbr. sbr = [] \<or> sbr = [sbr_reset_args profile]}"
proof -
  let ?all = "devices_to_bind gpus nvswitches ib_devices profile"
  have stale: "does (if b then clear_stale k ?all profile else ret ()) {[], [sbr_reset_args profile]}" for b
    by (simp add: does_clear_stale does_ret)
  have rest: "does (andThen (unbind_non_vfio_drivers k ?all) (\<lambda>freed.
      andThen (wait_devices_ready k ?all 10) (\<lambda>ready.
      andThen (refuse_if (\<not> ready) e) (\<lambda>_.
      andThen (configure_nvswitches k nvswitches profile (length gpus)) (\<lambda>_.
      configure_gpus k gpus profile (length gpus)))))) {mode_commands gpus nvswitches profile}" for e
    by (rule does_after[OF lists_quiet(2)], rule does_after[OF waits_quiet(2)],
        rule does_after[OF steps_quiet(2)], rule does_configure)
  show ?thesis
    unfolding clean_and_configure_def Let_def
    by (rule does_after[OF steps_quiet(1)], rule does_after[OF steps_quiet(2)], rule does_after[OF steps_quiet(3)],
        rule does_after[OF lists_quiet(1)], rule does_mono[OF does_andThen[OF stale rest]]) blast
qed

lemma settle_no_tools:
  assumes "settle k deadline ds h = Some y"
  shows "\<exists>new. snd y = h @ new \<and> list_all ((\<lambda>op. \<not> is_tool op) \<circ> fst) new"
  using assms
proof (rule settle.raw_induct[rotated, where P = "\<lambda>k deadline ds h y. \<exists>new. snd y = h @ new \<and>
    list_all ((\<lambda>op. \<not> is_tool op) \<circ> fst) new"], goal_cases)
  case (1 loop k deadline ds h y)
  have o: "only (\<lambda>op. \<not> is_tool op) (ask_time k)" "only (\<lambda>op. \<not> is_tool op) (settle_round k ds)"
    unfolding settle_round_def vfio_defs by (intro io_rules; simp)+
  from 1(2) show ?case
    by (cases y) (auto split: option.splits sum.splits prod.splits if_splits
        elim!: onlyE[OF o(1)] onlyE[OF o(2)] dest!: 1(1))
qed

lemma binding_no_tools:
  "only (\<lambda>op. \<not> is_tool op) (andThen (bind_explicit_devices_to_vfio k ds n) (\<lambda>_. install_udev_rules k dir))"
proof -
  have "only (\<lambda>op. \<not> is_tool op) (settle k t p)" for t p
    by (rule onlyI) (drule settle_no_tools; simp)
  moreover have "only (\<lambda>op. \<not> is_tool op) (describe_pending k p)" for p
    by (induction p) (auto simp: get_bound_driver_def intro!: io_rules)
  ultimately show ?thesis
    unfolding bind_explicit_devices_to_vfio_def install_udev_rules_def load_vfio_modules_def vfio_defs Let_def
    by (intro io_rules; simp)
qed

lemma successful_order:
  assumes "prepare_devices k scripts_dir gpus nvswitches ib_devices profile h = Some (Inr (), h')"
  shows "\<exists>before after sbr. h' = h @ before @ after \<and>
     (sbr = [] \<or> sbr = [sbr_reset_args profile]) \<and>
     tool_runs before = map (\<lambda>c. (c, True)) (sbr @ mode_commands gpus nvswitches profile) \<and>
     list_all (\<lambda>e. \<not> is_direct_write (fst e)) before \<and> list_all (\<lambda>e. \<not> is_tool (fst e)) after"
proof -
  let ?rest = "andThen (bind_explicit_devices_to_vfio k (devices_to_bind gpus nvswitches ib_devices profile) 15)
     (\<lambda>_. install_udev_rules k scripts_dir)"
  obtain h1 where run: "clean_and_configure k gpus nvswitches ib_devices profile h = Some (Inr (), h1)"
      "?rest h1 = Some (Inr (), h')"
    using assms by (auto simp: prepare_devices_def andThen_Some)
  from does_clean_and_configure run(1) obtain before sbr where
    "h1 = h @ before" "sbr = [] \<or> sbr = [sbr_reset_args profile]"
    "tool_runs before = map (\<lambda>c. (c, True)) (sbr @ mode_commands gpus nvswitches profile)"
    "list_all (\<lambda>e. \<not> is_direct_write (fst e)) before"
    unfolding does_def by fast
  moreover from binding_no_tools run(2) obtain after where
    "h' = h1 @ after" "list_all (\<lambda>e. \<not> is_tool (fst e)) after"
    by (rule onlyE) (simp add: comp_def)
  ultimately show ?thesis by (intro exI[of _ before] exI[of _ after] exI[of _ sbr]) simp
qed

lemma successful_modes:
  assumes "prepare_devices k scripts_dir gpus nvswitches ib_devices profile h = Some (Inr (), h')"
  shows "set (map (\<lambda>c. (c, True)) (mode_commands gpus nvswitches profile)) \<subseteq> set (tool_runs h')"
  using successful_order[OF assms] by auto

text \<open>
  C14: a successful preparation has put every device into its mode before it binds any. The tools it ran,
  all of them successfully, are exactly: at most one reset, then for each NVSwitch that is passed
  through the two commands of PPCIe mode, then for each GPU those of its profile, in order; no driver
  override is written before the last of them and no tool runs after the first.
\<close>

theorem modes_set_before_binding:
  assumes "prepare_devices k scripts_dir gpus nvswitches ib_devices profile h = Some (Inr (), h')"
  shows "\<exists>before after sbr. h' = h @ before @ after \<and>
     (sbr = [] \<or> sbr = [sbr_reset_args profile]) \<and>
     tool_runs before = map (\<lambda>c. (c, True)) (sbr @ mode_commands gpus nvswitches profile) \<and>
     list_all (\<lambda>e. \<not> is_direct_write (fst e)) before \<and> list_all (\<lambda>e. \<not> is_tool (fst e)) after"
  using assms by (rule successful_order)

text \<open>
  A host on which an earlier unbind or tool hangs in the kernel is left alone: the preparation looks
  at the process list, does nothing else and raises.
\<close>

theorem wedged_host_is_left_alone:
  assumes "k h ListTasks = Names lines" and "line \<in> set lines" and "startswith line ''D''"
    and "contains line ''nvidia-gpu-tools'' \<or> contains line ''vfio-pci/unbind''"
  shows "prepare_devices k scripts_dir gpus nvswitches ib_devices profile h =
     Some (Inl (RuntimeError ''PCI operations are wedged''), h @ [(ListTasks, Names lines)])"
proof -
  have "filter (\<lambda>line. startswith line ''D'' \<and>
      (contains line ''nvidia-gpu-tools'' \<or> contains line ''vfio-pci/unbind'')) lines \<noteq> []"
    using assms(2-4) by (auto simp: filter_empty_conv)
  then have "pci_operations_wedged k h = Some (Inr True, h @ [(ListTasks, Names lines)])"
    by (simp add: pci_operations_wedged_def d_state_pci_tasks_def andThen_def ask_def ret_def assms(1))
  then show ?thesis
    by (simp add: prepare_devices_def clean_and_configure_def Let_def andThen_def refuse_if_def raise_def)
qed

section \<open>Launching\<close>

text \<open>
  The launch with this preparation. A preparation that does not return is never followed by a launch,
  so its value does not matter.
\<close>

definition host_preparation :: "kernel \<Rightarrow> string \<Rightarrow> history \<Rightarrow> preparation" where
  "host_preparation k scripts_dir h gpus nvswitches ib_devices profile =
     (case prepare_devices k scripts_dir gpus nvswitches ib_devices profile h of
        Some (r, h') \<Rightarrow> r
      | None \<Rightarrow> Inl (OtherException ''does not return''))"

lemma launched_command:
  assumes "launch_plan host host_vfs prepare firmware la = Inr (Launch cmd)" and "la_pass_gpus la"
  obtains profile ib_devices numactl args where
    "detect_profile host = Inr profile"
    "prepare (host_gpus host) (host_nvswitches host profile) ib_devices profile = Inr ()"
    "numactl \<in> {[], interleave_prefix host la (host_gpus host)}" "cmd = numactl @ map render args"
    "map fst (vfio_buses args) = host_gpus host @ host_nvswitches host profile @ ib_devices"
proof -
  obtain p where p: "detect_profile host = Inr p" using assms by (auto simp: launch_plan_def bindR_Inr_iff)
  have some: "host_gpus host \<noteq> []" using detect_profile_Inr(1)[OF p] .
  obtain models where m: "get_gpu_models_from_lspci host (host_gpus host) = Inr models" "resolve_profile models = Inr p"
    using detect_profile_Inr(2)[OF p] by blast
  obtain emulated q passthrough numactl where c:
    "emulated_cmd host (str_int (int (length (host_gpus host)) * ram_per_gpu_gb p) @ ''G'') (smp_topology p)
       (if he_os_version host = Some ''24.04'' then ''host'' else ''host,-avx10'') (firmware ''OVMF.inteltdx.fd'') la
       (enable_numa_topology p) = Inr (emulated, q)"
    "setup_passthrough host host_vfs prepare = Inr passthrough"
    "cmd = numactl @ map render (emulated @ passthrough)" "numactl \<in> {[], interleave_prefix host la (host_gpus host)}"
    using assms by (auto simp: launch_plan_def p bindR_Inr_iff Let_def split: if_split_asm)
  obtain ib where s: "prepare (host_gpus host) (host_nvswitches host p) ib p = Inr ()"
    "passthrough = map Arg [''-object'', ''iommufd,id=iommufd0''] @ build_pci_topology host_vfs p (host_gpus host) (host_nvswitches host p) ib"
    using c(2) some m by (auto simp: setup_passthrough_def bindR_Inr_iff Let_def)
  have "map fst (vfio_buses (emulated @ passthrough)) = host_gpus host @ host_nvswitches host p @ ib"
    using emulated_cmd_plain[OF c(1)] topology_devices by (simp add: s(2) vfio_buses_plain del: list.map)
  with p s(1) c(3,4) show thesis by (intro that[of p ib numactl "emulated @ passthrough"])
qed

text \<open>
  C16: when GPUs are passed through, the command of a launch names exactly the GPUs of the host, the NVSwitches
  its profile takes and some InfiniBand functions, and this comes after a preparation of exactly these devices that succeeded:
  every mode command that the profile has for a GPU or NVSwitch was run with success, and every device the
  command names was then seen bound to vfio-pci with its character device and not touched again.
\<close>

theorem launched_gpus_were_prepared:
  assumes "launch_plan host host_vfs (host_preparation k scripts_dir h) firmware la = Inr (Launch cmd)" and "la_pass_gpus la"
  shows "\<exists>profile ib_devices h' numactl args.
     detect_profile host = Inr profile \<and>
     prepare_devices k scripts_dir (host_gpus host) (host_nvswitches host profile) ib_devices profile h = Some (Inr (), h') \<and>
     numactl \<in> {[], interleave_prefix host la (host_gpus host)} \<and> cmd = numactl @ map render args \<and>
     map fst (vfio_buses args) = host_gpus host @ host_nvswitches host profile @ ib_devices \<and>
     set (map (\<lambda>c. (c, True)) (concat (map nvswitch_commands (host_nvswitches host profile)) @
        concat (map (gpu_commands profile (length (host_gpus host))) (host_gpus host)))) \<subseteq> set (tool_runs h') \<and>
     (\<forall>(device, bus) \<in> set (vfio_buses args). \<exists>h1 x xs h2.
        h' = h1 @ (DriverLink device, Text ''vfio-pci'') #
          (ListDir (''/sys/bus/pci/devices/'' @ device @ ''/vfio-dev''), Names (x # xs)) # h2 \<and>
        list_all (\<lambda>e. \<not> touches device (fst e)) h2)"
proof -
  obtain profile ib numactl args where c: "detect_profile host = Inr profile"
    "host_preparation k scripts_dir h (host_gpus host) (host_nvswitches host profile) ib profile = Inr ()"
    "numactl \<in> {[], interleave_prefix host la (host_gpus host)}" "cmd = numactl @ map render args"
    "map fst (vfio_buses args) = host_gpus host @ host_nvswitches host profile @ ib"
    using launched_command[OF assms] by blast
  let ?switches = "host_nvswitches host profile"
  obtain h' where run: "prepare_devices k scripts_dir (host_gpus host) ?switches ib profile h = Some (Inr (), h')"
    using c(2) by (auto simp: host_preparation_def split: option.splits)
  have gated: "\<not> should_passthrough_nvswitches profile (length (host_gpus host)) \<Longrightarrow> ?switches = []"
    by (simp add: host_nvswitches_def)
  then have bind: "devices_to_bind (host_gpus host) ?switches ib profile = host_gpus host @ ?switches @ ib"
    by (simp add: devices_to_bind_def)
  have modes: "mode_commands (host_gpus host) ?switches profile =
      concat (map nvswitch_commands ?switches) @ concat (map (gpu_commands profile (length (host_gpus host))) (host_gpus host))"
    using gated by (simp add: mode_commands_def)
  have bound: "\<exists>h1 x xs h2. h' = h1 @ (DriverLink device, Text ''vfio-pci'') #
          (ListDir (''/sys/bus/pci/devices/'' @ device @ ''/vfio-dev''), Names (x # xs)) # h2 \<and>
        list_all (\<lambda>e. \<not> touches device (fst e)) h2" if "(device, bus) \<in> set (vfio_buses args)" for device bus
  proof (rule successful_binding[OF run])
    have "device \<in> set (map fst (vfio_buses args))" using that by force
    then show "device \<in> set (devices_to_bind (host_gpus host) ?switches ib profile)" unfolding bind c(5) .
  qed
  have modes_run: "set (map (\<lambda>c. (c, True)) (concat (map nvswitch_commands ?switches) @
      concat (map (gpu_commands profile (length (host_gpus host))) (host_gpus host)))) \<subseteq> set (tool_runs h')"
    using successful_modes[OF run] unfolding modes .
  show ?thesis
    by (rule exI[of _ profile], rule exI[of _ ib], rule exI[of _ h'], rule exI[of _ numactl], rule exI[of _ args],
        intro conjI c(1,3,4,5) run modes_run, clarify, rule bound)
qed

section \<open>An example\<close>

lemmas [code] = settle.simps idle_loop.simps ready_loop.simps

text \<open>A host with a device left over from a previous run; the clock counts the sleeps.\<close>

definition sleeps :: "history \<Rightarrow> nat" where
  "sleeps h = length (filter (\<lambda>(op, r). op = Sleep 2) h)"

definition sample_kernel :: kernel where
  "sample_kernel h op =
     (case op of
        Clock \<Rightarrow> Time (2 * of_nat (sleeps h))
      | DriverLink d \<Rightarrow> Text ''vfio-pci''
      | ListDir p \<Rightarrow> Names [''vfio0'']
      | CatVendor d \<Rightarrow> Text ''0x10de''
      | PathExists p \<Rightarrow> Flag True
      | ListTasks \<Rightarrow> Names []
      | _ \<Rightarrow> Done)"

lemma sample_kernel_steady: "steady sample_kernel"
proof -
  have more: "sleeps h + 1 \<le> sleeps (h @ (Clock, Time t) # h')" if "(Sleep 2, r) \<in> set h'" for h h' r t
  proof -
    have "(Sleep 2, r) \<in> set (filter (\<lambda>(op, r). op = Sleep 2) h')" using that by simp
    then have "0 < length (filter (\<lambda>(op, r). op = Sleep 2) h')" by (rule length_pos_if_in_set)
    then show ?thesis unfolding sleeps_def by (simp add: Suc_le_eq del: length_greater_0_conv)
  qed
  have "(2 :: rat) * of_nat (sleeps h) + 2 \<le> 2 * of_nat (sleeps (h @ (Clock, Time t) # h'))"
    if "(Sleep 2, r) \<in> set h'" for h h' r t
  proof -
    have "(of_nat (sleeps h + 1) :: rat) \<le> of_nat (sleeps (h @ (Clock, Time t) # h'))"
      using more[OF that] by (rule of_nat_mono)
    then show ?thesis by simp
  qed
  then show ?thesis by (auto simp: steady_def sample_kernel_def)
qed

abbreviation sample_preparation :: "kernel \<Rightarrow> (unit res \<times> history) option" where
  "sample_preparation k \<equiv> prepare_devices k ''/opt'' [''0000:01:00.0''] [] [] rtx_pro_6000_profile []"

lemma sample_preparation_succeeds: "\<exists>h'. sample_preparation sample_kernel = Some (Inr (), h')"
proof -
  have "case sample_preparation sample_kernel of Some (Inr _, h') \<Rightarrow> True | _ \<Rightarrow> False" by code_simp
  then show ?thesis by (auto split: option.splits prod.splits sum.splits)
qed

theorem preparation_returns_witness: "\<exists>r h'. sample_preparation sample_kernel = Some (r, h')"
  by (rule preparation_returns[OF sample_kernel_steady])

theorem prepared_devices_are_bound_witness:
  "\<exists>h' h1 x xs h2. sample_preparation sample_kernel = Some (Inr (), h') \<and>
     h' = h1 @ (DriverLink ''0000:01:00.0'', Text ''vfio-pci'') #
       (ListDir ''/sys/bus/pci/devices/0000:01:00.0/vfio-dev'', Names (x # xs)) # h2"
proof -
  obtain h' where run: "sample_preparation sample_kernel = Some (Inr (), h')"
    using sample_preparation_succeeds by blast
  have "''0000:01:00.0'' \<in> set (devices_to_bind [''0000:01:00.0''] [] [] rtx_pro_6000_profile)"
    by (simp add: devices_to_bind_def)
  from prepared_devices_are_bound[OF run this] run show ?thesis by auto
qed

theorem modes_set_before_binding_witness:
  "\<exists>h' before after sbr. sample_preparation sample_kernel = Some (Inr (), h') \<and> h' = before @ after \<and>
     tool_runs before = map (\<lambda>c. (c, True)) (sbr @
       [[''--set-cc-mode=on'', ''--reset-after-cc-mode-switch'', ''--gpu-bdf=0000:01:00.0'']])"
proof -
  obtain h' where run: "sample_preparation sample_kernel = Some (Inr (), h')"
    using sample_preparation_succeeds by blast
  have "mode_commands [''0000:01:00.0''] [] rtx_pro_6000_profile =
      [[''--set-cc-mode=on'', ''--reset-after-cc-mode-switch'', ''--gpu-bdf=0000:01:00.0'']]" by code_simp
  with modes_set_before_binding[OF run] run show ?thesis by auto
qed

theorem wedged_host_is_left_alone_witness:
  "sample_preparation (\<lambda>h op. if op = ListTasks then Names [''D+ nvidia-gpu-tools''] else Done) =
     Some (Inl (RuntimeError ''PCI operations are wedged''), [(ListTasks, Names [''D+ nvidia-gpu-tools''])])"
proof -
  have "contains ''D+ nvidia-gpu-tools'' ''nvidia-gpu-tools''"
    by code_simp
  then show ?thesis
    using wedged_host_is_left_alone[of "\<lambda>h op. if op = ListTasks then Names [''D+ nvidia-gpu-tools''] else Done"
        "[]" "[''D+ nvidia-gpu-tools'']" "''D+ nvidia-gpu-tools''"] by simp
qed

text \<open>On this host every step succeeds, whatever the devices.\<close>

definition yields :: "'a io \<Rightarrow> 'a \<Rightarrow> bool" where
  "yields m x \<longleftrightarrow> (\<forall>h. \<exists>h'. m h = Some (Inr x, h'))"

lemma yields_andThen: "yields m x \<Longrightarrow> yields (f x) y \<Longrightarrow> yields (andThen m f) y"
  unfolding yields_def andThen_def by (metis (no_types, lifting) case_prod_conv option.simps(5) old.sum.simps(6))

lemma yields_ret: "yields (ret x) x"
  by (simp add: yields_def ret_def)

lemma yields_ask: "(\<And>h. k h op = r) \<Longrightarrow> yields (ask k op) r"
  by (simp add: yields_def ask_def)

lemma yields_each: "(\<And>x. yields (f x) ()) \<Longrightarrow> yields (each f xs) ()"
  by (induction xs) (auto intro: yields_ret yields_andThen)

lemma yields_select: "(\<And>x. yields (f x) b) \<Longrightarrow> yields (select f xs) (if b then xs else [])"
proof (induction xs)
  case (Cons x xs)
  have "yields (andThen (select f xs) (\<lambda>ys. ret (if b then x # ys else ys))) (if b then x # xs else [])"
    by (rule yields_andThen[OF Cons.IH[OF Cons.prems]]) (cases b; simp add: yields_ret)
  then show ?case by (auto intro: yields_andThen[OF Cons.prems])
qed (simp add: yields_ret)

lemma yields_attempt: "yields m x \<Longrightarrow> yields (attempt m) (Inr x)"
  unfolding yields_def
proof
  fix h assume "\<forall>h. \<exists>h'. m h = Some (Inr x, h')"
  then obtain h' where "m h = Some (Inr x, h')" by blast
  then show "\<exists>h'. attempt m h = Some (Inr (Inr x), h')" by (simp add: attempt_def)
qed

lemma yields_bind_any:
  "(\<And>h. \<exists>x h'. m h = Some (Inr x, h')) \<Longrightarrow> (\<And>x. yields (f x) y) \<Longrightarrow> yields (andThen m f) y"
  unfolding yields_def andThen_def by (metis (no_types, lifting) case_prod_conv option.simps(5) old.sum.simps(6))

lemma yields_perform:
  "(\<And>h. k h op = Done) \<Longrightarrow> yields (perform k op) ()"
  "(\<And>h. k h op = Flag b) \<Longrightarrow> yields (ask_flag k op) b"
  unfolding perform_def ask_flag_def
  by (rule yields_andThen[OF yields_ask], assumption, simp add: yields_ret)+

lemma sample_steps:
  "yields (get_bound_driver sample_kernel d) (Some vfio_pci)"
  "yields (on_vfio sample_kernel d) True"
  "yields (not_bound sample_kernel d) False"
  "yields (bind_device_to_vfio sample_kernel d) ()"
  "yields (pci_operations_wedged sample_kernel) False"
  "yields (unbind_one sample_kernel d) True"
  "yields (device_config_readable sample_kernel d) True"
proof -
  show drv: "yields (get_bound_driver sample_kernel d) (Some vfio_pci)"
    unfolding get_bound_driver_def
    by (rule yields_andThen[OF yields_ask[of _ _ "Text ''vfio-pci''"]])
      (simp_all add: sample_kernel_def vfio_pci_def yields_ret)
  show "yields (on_vfio sample_kernel d) True"
    unfolding on_vfio_def by (rule yields_andThen[OF drv]) (simp add: yields_ret)
  show "yields (not_bound sample_kernel d) False"
    unfolding not_bound_def is_vfio_bound_def
    by (rule yields_andThen[where x = True], rule yields_andThen[OF drv], simp,
        rule yields_andThen[OF yields_ask[of _ _ "Names [''vfio0'']"]])
      (simp_all add: sample_kernel_def yields_ret)
  have w: "yields (perform sample_kernel (WriteFile p t)) ()" for p t
    by (rule yields_perform(1)) (simp add: sample_kernel_def)
  have "yields (free_from_driver sample_kernel d) ()"
    unfolding free_from_driver_def by (rule yields_andThen[OF drv]) (simp add: yields_ret)
  then have "yields (andThen (perform sample_kernel (WriteFile (override_path d) vfio_pci)) (\<lambda>_.
      andThen (free_from_driver sample_kernel d) (\<lambda>_. perform sample_kernel (WriteFile probe_path d)))) ()"
    using w by (blast intro: yields_andThen)
  then show "yields (bind_device_to_vfio sample_kernel d) ()"
    unfolding bind_device_to_vfio_def by (intro yields_andThen[OF yields_attempt] yields_ret)
  show "yields (pci_operations_wedged sample_kernel) False"
    unfolding pci_operations_wedged_def d_state_pci_tasks_def
    by (rule yields_andThen[where x = "[]"], rule yields_andThen[OF yields_ask[of _ _ "Names []"]])
      (simp_all add: sample_kernel_def yields_ret)
  have "yields (sysfs_write sample_kernel p t) True" for p t
    unfolding sysfs_write_def
    by (rule yields_andThen[OF yields_ask[of _ _ Done]]) (simp_all add: sample_kernel_def yields_ret)
  then show "yields (unbind_one sample_kernel d) True"
    unfolding unbind_one_def by (auto intro!: yields_andThen[where x = True] yields_ret)
  show "yields (device_config_readable sample_kernel d) True"
    unfolding device_config_readable_def
    by (rule yields_andThen[OF yields_ask[of _ _ "Text ''0x10de''"]])
      (simp_all add: sample_kernel_def yields_ret strip_def is_space_def)
qed

lemma sample_lists:
  "yields (has_stale_vfio_devices sample_kernel ds) (ds \<noteq> [])"
  "yields (unbind_non_vfio_drivers sample_kernel ds) []"
  "yields (all_readable sample_kernel ds) True"
  "yields (unbind_stale_vfio_devices sample_kernel ds) 0"
proof -
  show "yields (has_stale_vfio_devices sample_kernel ds) (ds \<noteq> [])"
    by (cases ds) (auto intro!: yields_ret yields_andThen[OF sample_steps(2)])
  show "yields (unbind_non_vfio_drivers sample_kernel ds) []"
    by (induction ds) (auto intro!: yields_ret yields_andThen[OF sample_steps(1)])
  show "yields (all_readable sample_kernel ds) True"
    by (induction ds) (auto intro!: yields_ret yields_andThen[OF sample_steps(7)])
  have "yields (select (on_vfio sample_kernel) ds) ds" "yields (select (unbind_one sample_kernel) ds) ds"
    using yields_select[of "on_vfio sample_kernel" True] yields_select[of "unbind_one sample_kernel" True]
      sample_steps(2,6) by auto
  then show "yields (unbind_stale_vfio_devices sample_kernel ds) 0"
    unfolding unbind_stale_vfio_devices_def
    by (intro yields_andThen[where x = ds]) (auto simp: yields_ret intro: yields_ret[of 0, simplified])
qed

lemma sample_ready: "0 < n \<Longrightarrow> yields (wait_devices_ready sample_kernel ds n) True"
proof -
  assume n: "0 < n"
  have "\<exists>h'. wait_devices_ready sample_kernel ds n h = Some (Inr True, h')" for h
  proof -
    let ?t = "2 * of_nat (sleeps h) :: rat"
    have t: "sample_kernel h Clock = Time ?t" "sample_kernel (h @ [(Clock, Time ?t)]) Clock = Time ?t"
      by (simp_all add: sample_kernel_def sleeps_def)
    obtain h' where "all_readable sample_kernel ds ((h @ [(Clock, Time ?t)]) @ [(Clock, Time ?t)]) = Some (Inr True, h')"
      using sample_lists(3)[of ds] unfolding yields_def by blast
    then show ?thesis
      using n
      by (simp add: wait_devices_ready_def andThen_def ask_time_eq[of sample_kernel h, OF t(1)])
        (subst ready_loop.simps, simp add: ask_time_eq[of sample_kernel "h @ [(Clock, Time ?t)]", OF t(2)])
  qed
  then show ?thesis by (simp add: yields_def)
qed

lemma sample_tools: "yields (run_gpu_tools sample_kernel args) ()"
proof -
  have p: "yields (perform sample_kernel (GpuTools a)) ()" "yields (perform sample_kernel EnsureTools) ()" for a
    by (rule yields_perform(1); simp add: sample_kernel_def)+
  have "yields (ensure_tools sample_kernel) ()"
    using p(2) by (auto simp: yields_def ensure_tools_def ret_def)
  then show ?thesis
    unfolding run_gpu_tools_def
    by (intro yields_andThen[where x = "()"] yields_andThen[where x = "Inr ()"] yields_attempt p)
      (simp_all add: yields_ret)
qed

lemma sample_binding: "yields (bind_explicit_devices_to_vfio sample_kernel ds n) ()"
proof -
  have "yields (load_vfio_modules sample_kernel) ()"
    unfolding load_vfio_modules_def
    by (intro yields_each yields_andThen[OF yields_ask[of _ _ Done]] yields_ret) (simp add: sample_kernel_def)
  moreover have "yields (settle sample_kernel t []) []" for t
    by (simp add: yields_def settle.simps)
  moreover have "yields (select (not_bound sample_kernel) ds) []"
    using yields_select[of "not_bound sample_kernel" False ds] sample_steps(3) by simp
  moreover have "\<exists>t h'. ask_time sample_kernel h = Some (Inr t, h')" for h
    by (auto simp: ask_time_def andThen_def ask_def ret_def)
  moreover have "yields (each (bind_device_to_vfio sample_kernel) ds) ()"
    by (rule yields_each) (rule sample_steps)
  ultimately show ?thesis
    unfolding bind_explicit_devices_to_vfio_def
    by (intro yields_andThen[where x = "()"] yields_bind_any[of "ask_time sample_kernel"]
        yields_andThen[where x = "[]"]) (simp_all add: yields_ret)
qed

lemma sample_preparation_always:
  assumes "\<not> requires_fabric_manager profile"
  shows "host_preparation sample_kernel ''/opt'' h gpus nvswitches ib_devices profile = Inr ()"
proof -
  note [intro] = yields_ret sample_steps sample_lists sample_ready sample_tools sample_binding yields_each
  have refuse: "yields (refuse_if False e) ()" for e by (auto simp: refuse_if_def)
  have sleep: "yields (ask sample_kernel (Sleep n)) Done" for n by (rule yields_ask) (simp add: sample_kernel_def)
  have "yields (sbr_reset sample_kernel ds profile) ()" for ds
    unfolding sbr_reset_def
    by (rule yields_andThen[OF sample_steps(5)], rule yields_andThen[OF refuse], rule yields_andThen[OF sample_tools],
        rule yields_andThen[OF sleep], rule yields_andThen[OF sample_ready], simp, simp,
        rule yields_andThen[OF refuse], rule yields_andThen[OF sample_lists(4)], rule yields_ret)
  then have "yields (clear_stale sample_kernel ds profile) ()" for ds
    unfolding clear_stale_def
    by (intro yields_andThen[OF sample_lists(4)] yields_andThen[OF sample_steps(5)])
      (auto intro!: yields_andThen[where x = "()"] yields_andThen[OF sample_lists(1)])
  moreover have "yields (install_udev_rules sample_kernel ''/opt'') ()"
    unfolding install_udev_rules_def Let_def
    by (rule yields_andThen[OF yields_perform(2)[of _ _ True]], simp add: sample_kernel_def, simp,
        rule yields_andThen[OF yields_perform(2)[of _ _ True]])
      (auto simp: sample_kernel_def)
  ultimately have "yields (prepare_devices sample_kernel ''/opt'' gpus nvswitches ib_devices profile) ()"
    unfolding prepare_devices_def clean_and_configure_def check_fabric_manager_def configure_nvswitches_def
      configure_gpus_def Let_def
    using assms refuse
    by (auto intro!: yields_andThen[OF sample_steps(5)] yields_andThen[OF refuse] yields_andThen[OF sample_lists(1)]
        yields_andThen[OF sample_lists(2)] yields_andThen[OF sample_ready] yields_andThen[where x = "()"])
  then show ?thesis
    unfolding yields_def host_preparation_def by (metis (no_types, lifting) case_prod_conv option.simps(5))
qed

theorem launched_gpus_were_prepared_witness:
  "\<exists>profile ib_devices h'. detect_profile (sample_host 8) = Inr profile \<and>
     prepare_devices sample_kernel ''/opt'' (host_gpus (sample_host 8)) (host_nvswitches (sample_host 8) profile) ib_devices profile [] =
       Some (Inr (), h')"
proof -
  have "\<not> requires_fabric_manager h200_profile" by (simp add: h200_profile_def base_profile_def Let_def)
  then obtain cmd where run: "launch_plan (sample_host 8) (sample_host 8) (host_preparation sample_kernel ''/opt'' [])
      id sample_launch = Inr (Launch cmd)"
    using sample_launch_runs sample_preparation_always by blast
  have "la_pass_gpus sample_launch" by (simp add: sample_launch_def)
  from launched_gpus_were_prepared[OF run this] show ?thesis by blast
qed

end
