(* ===== verification/Post_Launch.thy ===== *)
theory Post_Launch
  imports Qemu_Launch
begin

text \<open>
  After the launch: \<open>host-tools/scripts/chutes/guest/post_launch.py\<close> pins the threads of QEMU to CPUs of
  the host. What the host shows (CPU lists of the nodes, the pid file, the thread listing of \<open>ps\<close>, the
  task directory) is the record \<open>thread_env\<close>; the result is the list of \<open>taskset\<close> commands in order,
  with how the function ends. The lemmas say on which CPUs the threads end up.
\<close>

section \<open>CPU lists\<close>

definition cpulist_part :: "string \<Rightarrow> int list res" where
  "cpulist_part part =
     (if CHR ''-'' \<in> set part then
        (case split_once (CHR ''-'') part of
           (lo, hi) \<Rightarrow> bindR (int_of lo) (\<lambda>l. bindR (int_of hi) (\<lambda>h. Inr [l..h])))
      else bindR (int_of part) (\<lambda>n. Inr [n]))"

definition expand_cpulist :: "string \<Rightarrow> int list res" where
  "expand_cpulist raw =
     bindR (mapM cpulist_part (filter (\<lambda>part. part \<noteq> []) (map strip (split_on (CHR '','') raw))))
       (\<lambda>parts. Inr (filter (\<lambda>cpu. cpu \<noteq> 0) (concat parts)))"

record thread_env =
  te_cpulist :: "int \<Rightarrow> string res"
  te_pidfile :: "string res"
  te_alive :: "int \<Rightarrow> bool"                          \<comment> \<open>\<open>/proc/<pid>\<close> exists\<close>
  te_ps :: "nat \<Rightarrow> string list"                      \<comment> \<open>lines of the first and second \<open>ps -T\<close>\<close>
  te_tasks :: "(string \<times> string res) list res"      \<comment> \<open>entries of the task directory with their \<open>wchan\<close>\<close>

definition host_node_cpus :: "thread_env \<Rightarrow> int \<Rightarrow> int list res" where
  "host_node_cpus env node =
     (case te_cpulist env node of
        Inl e \<Rightarrow> Inr []
      | Inr raw \<Rightarrow> expand_cpulist raw)"

section \<open>Finding the threads\<close>

definition read_pidfile :: "thread_env \<Rightarrow> int option" where
  "read_pidfile env = (case te_pidfile env of Inl e \<Rightarrow> None | Inr s \<Rightarrow> py_int (strip s))"

definition find_qemu_pid :: "thread_env \<Rightarrow> int option" where
  "find_qemu_pid env =
     (case read_pidfile env of Some pid \<Rightarrow> if te_alive env pid then Some pid else None | None \<Rightarrow> None)"

definition word_char :: "char \<Rightarrow> bool" where
  "word_char c \<longleftrightarrow> alnum_char c \<or> c = CHR ''_''"

text \<open>The thread column of a line of \<open>ps -T\<close> and what follows it: the second number of the line.\<close>

definition ps_thread :: "string \<Rightarrow> (string \<times> string) option" where
  "ps_thread line =
     (let a = dropWhile is_space line; b = dropWhile is_digit a; c = dropWhile is_space b in
      if takeWhile is_digit a \<noteq> [] \<and> takeWhile is_space b \<noteq> [] \<and> takeWhile is_digit c \<noteq> []
      then Some (takeWhile is_digit c, dropWhile is_digit c) else None)"

text \<open>\<open>CPU (\d+)/KVM\b\<close> at the start of a text, and the last place where a word starts that way.\<close>

definition cpu_word :: "string \<Rightarrow> string option" where
  "cpu_word s =
     (let d = takeWhile is_digit (drop 4 s); r = dropWhile is_digit (drop 4 s) in
      if startswith s ''CPU '' \<and> d \<noteq> [] \<and> startswith r ''/KVM'' \<and>
         (case drop 4 r of [] \<Rightarrow> True | c # cs \<Rightarrow> \<not> word_char c)
      then Some d else None)"

fun last_cpu_word :: "char \<Rightarrow> string \<Rightarrow> string option" where
  "last_cpu_word prev [] = None"
| "last_cpu_word prev (c # cs) =
     (case last_cpu_word c cs of
        Some d \<Rightarrow> Some d
      | None \<Rightarrow> if \<not> word_char prev then cpu_word (c # cs) else None)"

definition vcpu_line :: "string \<Rightarrow> (nat \<times> int) option" where
  "vcpu_line line =
     (case ps_thread line of
        None \<Rightarrow> None
      | Some (tid, rest) \<Rightarrow>
          map_option (\<lambda>d. (digits_value d, int (digits_value tid))) (last_cpu_word (last tid) rest))"

definition vcpu_thread_ids :: "thread_env \<Rightarrow> (nat \<times> int) list" where
  "vcpu_thread_ids env = sort_key fst (List.map_filter vcpu_line (te_ps env 0))"

definition wchan_tids :: "(string \<times> string res) list \<Rightarrow> int list res" where
  "wchan_tids tasks =
     mapM (\<lambda>(name, w). int_of name) (filter (\<lambda>(name, w). case w of Inr s \<Rightarrow> strip s = ''0'' | Inl e \<Rightarrow> False) tasks)"

definition vcpu_thread_ids_wchan_fallback :: "thread_env \<Rightarrow> int list res" where
  "vcpu_thread_ids_wchan_fallback env =
     (case te_tasks env of
        Inl e \<Rightarrow> Inr []
      | Inr tasks \<Rightarrow> bindR (wchan_tids tasks) (\<lambda>tids. Inr (sort tids)))"

definition iothread_line :: "string \<Rightarrow> int option" where
  "iothread_line line =
     (case ps_thread line of
        None \<Rightarrow> None
      | Some (tid, rest) \<Rightarrow> if contains rest ''iothread'' then Some (int (digits_value tid)) else None)"

definition iothread_ids :: "thread_env \<Rightarrow> int list" where
  "iothread_ids env = List.map_filter iothread_line (te_ps env 1)"

section \<open>Pinning\<close>

text \<open>The commands \<open>taskset -pc <cpu> <thread>\<close> issued so far, and how the loop ends.\<close>

type_synonym pins = "(int \<times> int) list"

definition guest_node :: "nat \<Rightarrow> nat \<Rightarrow> nat \<Rightarrow> nat" where
  "guest_node nodes per_node vcpu = (if vcpu div per_node \<ge> nodes then nodes - 1 else vcpu div per_node)"

fun pin_vcpus :: "int list \<Rightarrow> (int \<times> int list) list \<Rightarrow> nat \<Rightarrow> (nat \<times> int) list \<Rightarrow> pins \<times> unit res" where
  "pin_vcpus host_nodes node_cpus per_node [] = ([], Inr ())"
| "pin_vcpus host_nodes node_cpus per_node ((vcpu_id, tid) # threads) =
     (if per_node = 0 then ([], Inl ZeroDivisionError)
      else
        let host_node = host_nodes ! guest_node (length host_nodes) per_node vcpu_id;
            cpus = (case map_of node_cpus host_node of Some cs \<Rightarrow> cs | None \<Rightarrow> []);
            rest = pin_vcpus host_nodes node_cpus per_node threads in
        if cpus = [] then rest
        else ((cpus ! (vcpu_id mod length cpus), tid) # fst rest, snd rest))"

fun pin_iothreads :: "int list \<Rightarrow> nat \<Rightarrow> int list \<Rightarrow> pins \<times> unit res" where
  "pin_iothreads cpus i [] = ([], Inr ())"
| "pin_iothreads cpus i (tid # tids) =
     (if i < length cpus then
        let rest = pin_iothreads cpus (Suc i) tids in ((cpus ! i, tid) # fst rest, snd rest)
      else ([], Inl IndexError))"

definition pin_io :: "thread_env \<Rightarrow> int list \<Rightarrow> (int \<times> int list) list \<Rightarrow> pins \<times> unit res" where
  "pin_io env host_nodes node_cpus =
     (let tids = iothread_ids env;
          cpus = (case map_of node_cpus (hd host_nodes) of Some cs \<Rightarrow> cs | None \<Rightarrow> []) in
      if tids = [] \<or> cpus = [] then ([], Inr ())
      else pin_iothreads cpus (length cpus - length tids - 1) tids)"

definition vcpu_threads_of :: "thread_env \<Rightarrow> (nat \<times> int) list res" where
  "vcpu_threads_of env =
     (if vcpu_thread_ids env \<noteq> [] then Inr (vcpu_thread_ids env)
      else bindR (vcpu_thread_ids_wchan_fallback env) (\<lambda>tids. Inr (zip [0..<length tids] tids)))"

definition read_node_cpus :: "thread_env \<Rightarrow> int list \<Rightarrow> (int \<times> int list) list res" where
  "read_node_cpus env host_nodes = mapM (\<lambda>node. bindR (host_node_cpus env node) (\<lambda>cpus. Inr (node, cpus))) host_nodes"

definition pin_qemu_threads :: "thread_env \<Rightarrow> nat \<Rightarrow> int list \<Rightarrow> pins \<times> unit res" where
  "pin_qemu_threads env vcpus_total host_nodes =
     (if host_nodes = [] then ([], Inr ())
      else
        let per_node = vcpus_total div length host_nodes in
        case bindR (read_node_cpus env host_nodes) (\<lambda>node_cpus.
             bindR (vcpu_threads_of env) (\<lambda>threads. Inr (node_cpus, threads))) of
          Inl e \<Rightarrow> ([], Inl e)
        | Inr (node_cpus, threads) \<Rightarrow>
            (case pin_vcpus host_nodes node_cpus per_node threads of
               (ps, Inl e) \<Rightarrow> (ps, Inl e)
             | (ps, Inr _) \<Rightarrow> (case pin_io env host_nodes node_cpus of (qs, r) \<Rightarrow> (ps @ qs, r))))"

definition apply_post_launch_tuning :: "thread_env \<Rightarrow> nat \<Rightarrow> int list \<Rightarrow> bool \<Rightarrow> pins \<times> unit res" where
  "apply_post_launch_tuning env vcpus_total host_nodes pin_threads =
     (if \<not> pin_threads then ([], Inr ())
      else
        case find_qemu_pid env of
          None \<Rightarrow> ([], Inr ())
        | Some pid \<Rightarrow> pin_qemu_threads env vcpus_total host_nodes)"

section \<open>Where the threads end up\<close>

lemma expand_cpulist_no_zero: "expand_cpulist raw = Inr cpus \<Longrightarrow> 0 \<notin> set cpus"
  by (auto simp: expand_cpulist_def bindR_Inr_iff)

lemma read_node_cpus_spec:
  assumes "read_node_cpus env nodes = Inr node_cpus"
  shows "map fst node_cpus = nodes" "(node, cpus) \<in> set node_cpus \<Longrightarrow> host_node_cpus env node = Inr cpus"
proof -
  have l: "list_all2 (\<lambda>n p. bindR (host_node_cpus env n) (\<lambda>cpus. Inr (n, cpus)) = Inr p) nodes node_cpus"
    using assms by (simp add: read_node_cpus_def mapM_Inr_list_all2)
  then show "map fst node_cpus = nodes"
    by (induction rule: list_all2_induct) (auto simp: bindR_Inr_iff)
  from l show "(node, cpus) \<in> set node_cpus \<Longrightarrow> host_node_cpus env node = Inr cpus"
    by (induction rule: list_all2_induct) (auto simp: bindR_Inr_iff)
qed

lemma node_cpus_of:
  assumes "read_node_cpus env nodes = Inr node_cpus" "n \<in> set nodes"
  shows "\<exists>cpus. map_of node_cpus n = Some cpus \<and> host_node_cpus env n = Inr cpus"
proof -
  have "n \<in> fst ` set node_cpus" using assms read_node_cpus_spec(1) by (metis list.set_map)
  then obtain cpus where "map_of node_cpus n = Some cpus"
    by (metis map_of_eq_None_iff not_None_eq)
  then show ?thesis using read_node_cpus_spec(2)[OF assms(1)] map_of_SomeD by fast
qed

lemma host_node_cpus_no_zero: "host_node_cpus env n = Inr cpus \<Longrightarrow> 0 \<notin> set cpus"
  by (auto simp: host_node_cpus_def expand_cpulist_no_zero split: sum.splits)

lemma guest_node_less: "0 < nodes \<Longrightarrow> guest_node nodes per v < nodes"
  by (auto simp: guest_node_def)

lemma pin_vcpus_spec:
  "0 < per_node \<Longrightarrow> (cpu, tid) \<in> set (fst (pin_vcpus nodes node_cpus per_node threads)) \<Longrightarrow>
     \<exists>v cpus. (v, tid) \<in> set threads \<and> map_of node_cpus (nodes ! guest_node (length nodes) per_node v) = Some cpus \<and>
       cpus \<noteq> [] \<and> cpu = cpus ! (v mod length cpus)"
  by (induction nodes node_cpus per_node threads rule: pin_vcpus.induct)
    (fastforce simp: Let_def split: option.splits if_splits)+

lemma pin_vcpus_zero: "fst (pin_vcpus nodes node_cpus 0 threads) = []"
  by (cases threads) auto

lemma pin_iothreads_spec: "(cpu, tid) \<in> set (fst (pin_iothreads cpus i tids)) \<Longrightarrow> cpu \<in> set cpus \<and> tid \<in> set tids"
  by (induction cpus i tids rule: pin_iothreads.induct) (auto simp: Let_def split: if_splits)

lemma pin_iothreads_end: "snd (pin_iothreads cpus i tids) = (if tids = [] \<or> i + length tids \<le> length cpus then Inr () else Inl IndexError)"
  by (induction cpus i tids rule: pin_iothreads.induct) (auto simp: Let_def)

lemma pin_qemu_threads_Cons:
  assumes "host_nodes \<noteq> []" "read_node_cpus env host_nodes = Inr node_cpus" "vcpu_threads_of env = Inr threads"
  shows "pin_qemu_threads env vcpus_total host_nodes =
     (case pin_vcpus host_nodes node_cpus (vcpus_total div length host_nodes) threads of
        (ps, Inl e) \<Rightarrow> (ps, Inl e)
      | (ps, Inr _) \<Rightarrow> (case pin_io env host_nodes node_cpus of (qs, r) \<Rightarrow> (ps @ qs, r)))"
  using assms by (simp add: pin_qemu_threads_def Let_def)

lemma pin_io_spec:
  assumes "read_node_cpus env host_nodes = Inr node_cpus" "host_nodes \<noteq> []"
    and "(cpu, tid) \<in> set (fst (pin_io env host_nodes node_cpus))"
  shows "tid \<in> set (iothread_ids env) \<and> (\<exists>cpus. host_node_cpus env (hd host_nodes) = Inr cpus \<and> cpu \<in> set cpus)"
proof -
  obtain cpus where "map_of node_cpus (hd host_nodes) = Some cpus" "host_node_cpus env (hd host_nodes) = Inr cpus"
    using node_cpus_of[OF assms(1), of "hd host_nodes"] assms(2) by auto
  with assms(3) show ?thesis
    by (auto simp: pin_io_def Let_def dest: pin_iothreads_spec split: if_splits)
qed

text \<open>
  Every thread that is pinned goes to a CPU of the right node of the host and never to CPU 0: a vCPU
  to the host node that backs its guest node, an I/O thread to the first node. Only threads listed
  for the recorded QEMU process are pinned, and none if that process is gone.
\<close>

theorem pinned_threads_are_local:
  assumes "(cpu, tid) \<in> set (fst (apply_post_launch_tuning env vcpus_total host_nodes pin_threads))"
  shows "cpu \<noteq> 0 \<and> (\<exists>pid. find_qemu_pid env = Some pid) \<and>
     (\<exists>node \<in> set host_nodes. \<exists>cpus. host_node_cpus env node = Inr cpus \<and> cpu \<in> set cpus \<and>
        ((\<exists>threads v. vcpu_threads_of env = Inr threads \<and> (v, tid) \<in> set threads \<and>
            node = host_nodes ! guest_node (length host_nodes) (vcpus_total div length host_nodes) v) \<or>
         node = hd host_nodes \<and> tid \<in> set (iothread_ids env)))"
proof -
  have nodes: "host_nodes \<noteq> []" and pid: "\<exists>pid. find_qemu_pid env = Some pid"
      and mem: "(cpu, tid) \<in> set (fst (pin_qemu_threads env vcpus_total host_nodes))"
    using assms by (auto simp: apply_post_launch_tuning_def pin_qemu_threads_def split: if_splits option.splits)
  let ?per = "vcpus_total div length host_nodes"
  obtain node_cpus threads where r: "read_node_cpus env host_nodes = Inr node_cpus" "vcpu_threads_of env = Inr threads"
    using mem nodes by (cases "read_node_cpus env host_nodes"; cases "vcpu_threads_of env") (auto simp: pin_qemu_threads_def Let_def)
  from mem consider "(cpu, tid) \<in> set (fst (pin_vcpus host_nodes node_cpus ?per threads))"
    | "(cpu, tid) \<in> set (fst (pin_io env host_nodes node_cpus))"
    unfolding pin_qemu_threads_Cons[OF nodes r] by (auto split: prod.splits sum.splits)
  then show ?thesis
  proof cases
    case 1
    then have "0 < ?per" using pin_vcpus_zero by (cases "?per = 0") auto
    from pin_vcpus_spec[OF this 1] obtain v cpus where v: "(v, tid) \<in> set threads"
      "map_of node_cpus (host_nodes ! guest_node (length host_nodes) ?per v) = Some cpus"
      "cpus \<noteq> []" "cpu = cpus ! (v mod length cpus)" by blast
    have node: "host_nodes ! guest_node (length host_nodes) ?per v \<in> set host_nodes"
      using nodes by (intro nth_mem guest_node_less) simp
    have cpus: "host_node_cpus env (host_nodes ! guest_node (length host_nodes) ?per v) = Inr cpus"
      using node_cpus_of[OF r(1) node] v(2) by auto
    have "cpu \<in> set cpus" using v(3,4) by simp
    then show ?thesis using host_node_cpus_no_zero[OF cpus] cpus node v(1) r(2) pid by metis
  next
    case 2
    from pin_io_spec[OF r(1) nodes 2] obtain cpus where
      "tid \<in> set (iothread_ids env)" "host_node_cpus env (hd host_nodes) = Inr cpus" "cpu \<in> set cpus" by blast
    then show ?thesis using host_node_cpus_no_zero nodes pid hd_in_set by metis
  qed
qed

text \<open>The commands for the vCPUs when every node has CPUs.\<close>

lemma pin_vcpus_eq:
  assumes "0 < per" "\<And>n. n \<in> set nodes \<Longrightarrow> map_of node_cpus n = Some (cpus_of n) \<and> cpus_of n \<noteq> []" "nodes \<noteq> []"
  shows "pin_vcpus nodes node_cpus per threads =
     (map (\<lambda>(v, tid). let cpus = cpus_of (nodes ! guest_node (length nodes) per v) in (cpus ! (v mod length cpus), tid)) threads,
      Inr ())"
proof (induction threads)
  case (Cons t ts)
  have "nodes ! guest_node (length nodes) per (fst t) \<in> set nodes"
    using assms(3) by (intro nth_mem guest_node_less) simp
  then show ?case using Cons assms(1,2) by (cases t) (simp add: Let_def)
qed simp

lemma mod_window_inj:
  assumes "per \<le> (len :: nat)" "v div per = w div per" "v mod len = w mod len" "0 < per"
  shows "v = w"
proof -
  have close: "b - a < len" if "a div per = b div per" for a b :: nat
  proof -
    have "b < (b div per + 1) * per" "a div per * per \<le> a"
      using dividend_less_div_times[OF assms(4), of b] by (simp_all add: algebra_simps)
    then show ?thesis using that assms(1,4) by (simp add: algebra_simps)
  qed
  have same: "b = a" if "a \<le> b" "a mod len = b mod len" "b - a < len" for a b :: nat
  proof -
    have "len dvd b - a" using that(1,2) by (metis mod_eq_dvd_iff_nat)
    then show ?thesis using that(1,3) nat_dvd_not_less[of "b - a" len] by (cases "b - a = 0") auto
  qed
  show ?thesis
    using same[of v w] same[of w v] close[of v w] close[of w v] assms(2,3) by (metis nat_le_linear)
qed


lemma read_node_cpus_map:
  "(\<And>n. n \<in> set nodes \<Longrightarrow> host_node_cpus env n = Inr (cpus_of n)) \<Longrightarrow>
     read_node_cpus env nodes = Inr (map (\<lambda>n. (n, cpus_of n)) nodes)"
  unfolding read_node_cpus_def by (induction nodes) auto

text \<open>The pinning of vCPUs does not put two of them on one CPU when the nodes have enough of them.\<close>

lemma guest_node_div: "v < nodes * per \<Longrightarrow> guest_node nodes per v = v div per"
  using less_mult_imp_div_less[of v nodes per] by (simp add: guest_node_def)

lemma pin_target_inj:
  assumes nodes: "distinct nodes" "v < length nodes * per" "w < length nodes * per" and per: "0 < per"
    and cpus: "\<And>n. n \<in> set nodes \<Longrightarrow> distinct (cpus_of n) \<and> per \<le> length (cpus_of n)"
    and disjoint: "\<And>n m. n \<in> set nodes \<Longrightarrow> m \<in> set nodes \<Longrightarrow> n \<noteq> m \<Longrightarrow> set (cpus_of n) \<inter> set (cpus_of m) = {}"
    and eq: "cpus_of (nodes ! (v div per)) ! (v mod length (cpus_of (nodes ! (v div per)))) =
             cpus_of (nodes ! (w div per)) ! (w mod length (cpus_of (nodes ! (w div per))))"
  shows "v = w"
proof -
  let ?n = "nodes ! (v div per)" and ?m = "nodes ! (w div per)"
  have lt: "v div per < length nodes" "w div per < length nodes"
    using nodes(2,3) by (simp_all add: less_mult_imp_div_less)
  then have mem: "?n \<in> set nodes" "?m \<in> set nodes" by simp_all
  have idx: "v mod length (cpus_of ?n) < length (cpus_of ?n)" "w mod length (cpus_of ?m) < length (cpus_of ?m)"
    using cpus[OF mem(1)] cpus[OF mem(2)] per by (auto intro!: mod_less_divisor)
  have "cpus_of ?n ! (v mod length (cpus_of ?n)) \<in> set (cpus_of ?n)"
    "cpus_of ?m ! (w mod length (cpus_of ?m)) \<in> set (cpus_of ?m)" using idx by simp_all
  then have "?n = ?m" using disjoint[OF mem] eq by auto
  then have block: "v div per = w div per" using nodes(1) lt nth_eq_iff_index_eq by metis
  then have "v mod length (cpus_of ?n) = w mod length (cpus_of ?n)"
    using eq idx cpus[OF mem(1)] nth_eq_iff_index_eq by metis
  then show ?thesis using mod_window_inj[of per "length (cpus_of ?n)"] block per cpus[OF mem(1)] by metis
qed

lemma pin_iothreads_eq:
  "i + length tids \<le> length cpus \<Longrightarrow> pin_iothreads cpus i tids = (zip (take (length tids) (drop i cpus)) tids, Inr ())"
proof (induction tids arbitrary: i)
  case (Cons t ts)
  then have "i < length cpus" "drop i cpus = cpus ! i # drop (Suc i) cpus" by (simp_all add: Cons_nth_drop_Suc)
  then show ?case using Cons by (simp add: Let_def)
qed simp

lemma io_start: "n \<le> len \<Longrightarrow> len - n - 1 + n \<le> (len :: nat)"
  by simp

lemma pin_io_end:
  assumes "map_of node_cpus (hd nodes) = Some cpus" "cpus \<noteq> []"
  shows "snd (pin_io env nodes node_cpus) = (if length (iothread_ids env) \<le> length cpus then Inr () else Inl IndexError)"
  using assms by (auto simp: pin_io_def Let_def pin_iothreads_end)

text \<open>
  C17: with as many usable CPUs on every host node as the guest has vCPUs per node, every vCPU thread is
  pinned, each to a CPU of its own. The function then ends normally exactly if the first node has a
  CPU for every I/O thread: with more I/O threads it raises an \<open>IndexError\<close> after pinning.
\<close>

theorem vcpus_get_their_own_cpus:
  assumes nodes: "distinct host_nodes" "host_nodes \<noteq> []" "0 < vcpus_total div length host_nodes"
    and threads: "vcpu_threads_of env = Inr threads" "distinct (map fst threads)"
      "\<forall>(v, tid) \<in> set threads. v < length host_nodes * (vcpus_total div length host_nodes)"
    and cpus: "\<forall>n \<in> set host_nodes. host_node_cpus env n = Inr (cpus_of n) \<and> distinct (cpus_of n) \<and>
      vcpus_total div length host_nodes \<le> length (cpus_of n)"
    and disjoint: "\<forall>n \<in> set host_nodes. \<forall>m \<in> set host_nodes. n \<noteq> m \<longrightarrow> set (cpus_of n) \<inter> set (cpus_of m) = {}"
  shows "\<exists>vcpu_pins io_pins.
     pin_qemu_threads env vcpus_total host_nodes = (vcpu_pins @ io_pins,
       if length (iothread_ids env) \<le> length (cpus_of (hd host_nodes)) then Inr () else Inl IndexError) \<and>
     map snd vcpu_pins = map snd threads \<and> distinct (map fst vcpu_pins)"
proof -
  let ?per = "vcpus_total div length host_nodes"
  define target where "target v = (let cs = cpus_of (host_nodes ! (v div ?per)) in cs ! (v mod length cs))" for v
  have node_cpus: "read_node_cpus env host_nodes = Inr (map (\<lambda>n. (n, cpus_of n)) host_nodes)"
    using cpus by (intro read_node_cpus_map) simp
  have cpus_at: "map_of (map (\<lambda>n. (n, cpus_of n)) host_nodes) n = Some (cpus_of n) \<and> cpus_of n \<noteq> []" if "n \<in> set host_nodes" for n
    using that cpus nodes(3) by (auto simp: map_of_map_keys map_of_map_restrict)
  have pins: "pin_vcpus host_nodes (map (\<lambda>n. (n, cpus_of n)) host_nodes) ?per threads =
      (map (\<lambda>(v, tid). (target v, tid)) threads, Inr ())"
    using pin_vcpus_eq[OF nodes(3) cpus_at nodes(2), of threads] threads(3)
    by (auto simp: guest_node_div target_def Let_def)
  have below: "v < length host_nodes * ?per" if "v \<in> fst ` set threads" for v
    using that threads(3) by auto
  have "inj_on target (fst ` set threads)"
  proof (rule inj_onI)
    fix v w assume "v \<in> fst ` set threads" "w \<in> fst ` set threads" "target v = target w"
    then show "v = w"
      using pin_target_inj[of host_nodes v ?per w cpus_of] nodes cpus disjoint below by (simp add: target_def Let_def)
  qed
  then have "distinct (map target (map fst threads))" using threads(2) by (subst distinct_map) simp
  then have "distinct (map fst (map (\<lambda>(v, tid). (target v, tid)) threads))"
    by (simp add: comp_def case_prod_unfold)
  moreover have "snd (pin_io env host_nodes (map (\<lambda>n. (n, cpus_of n)) host_nodes)) =
      (if length (iothread_ids env) \<le> length (cpus_of (hd host_nodes)) then Inr () else Inl IndexError)"
    using pin_io_end cpus_at[of "hd host_nodes"] nodes(2) by simp
  ultimately show ?thesis
    unfolding pin_qemu_threads_Cons[OF nodes(2) node_cpus threads(1)] pins
    by (intro exI[of _ "map (\<lambda>(v, tid). (target v, tid)) threads"]
        exI[of _ "fst (pin_io env host_nodes (map (\<lambda>n. (n, cpus_of n)) host_nodes))"])
      (auto simp: case_prod_unfold comp_def split: prod.splits)
qed


lemma too_few_vcpus:
  assumes "vcpus_total < length host_nodes" "vcpu_threads_of env = Inr threads" "threads \<noteq> []"
    and "read_node_cpus env host_nodes = Inr node_cpus"
  shows "pin_qemu_threads env vcpus_total host_nodes = ([], Inl ZeroDivisionError)"
proof -
  have "host_nodes \<noteq> []" using assms(1) by auto
  then show ?thesis
    using assms(1,3) pin_qemu_threads_Cons[OF _ assms(4,2), of vcpus_total] by (cases threads) auto
qed

text \<open>A guest of four vCPUs on two nodes, with one I/O thread.\<close>

definition sample_cpus :: "int \<Rightarrow> int list" where
  "sample_cpus node = (if node = 0 then [1, 2, 3] else [4, 5])"

definition sample_threads :: thread_env where
  "sample_threads =
     \<lparr>te_cpulist = (\<lambda>node. Inr (if node = 0 then ''0-3'' @ [newline] else ''4,5'')), te_pidfile = Inr (''100'' @ [newline]),
      te_alive = (\<lambda>pid. pid = 100),
      te_ps = (\<lambda>_. [''    PID    SPID TTY          TIME CMD'', ''    100     100 ?        00:00:01 qemu-system-x86'',
        ''    100     105 ?        00:00:01 iothread0'', ''    100     111 ?        00:00:09 CPU 1/KVM'',
        ''    100     110 ?        00:00:09 CPU 0/KVM'', ''    100     112 ?        00:00:09 CPU 2/KVM'',
        ''    100     113 ?        00:00:09 CPU 3/KVM'']),
      te_tasks = Inr []\<rparr>"

lemma sample_threads_eval:
  "vcpu_threads_of sample_threads = Inr [(0, 110), (1, 111), (2, 112), (3, 113)]"
  "iothread_ids sample_threads = [105]"
  "find_qemu_pid sample_threads = Some 100"
  "host_node_cpus sample_threads 0 = Inr [1, 2, 3]"
  "host_node_cpus sample_threads 1 = Inr [4, 5]"
  by code_simp+

lemma sample_per_node: "4 div Suc (Suc 0) = (2 :: nat)"
  by (simp flip: numeral_2_eq_2)

lemma sample_pins:
  "apply_post_launch_tuning sample_threads 4 [0, 1] True = ([(1, 110), (2, 111), (4, 112), (5, 113), (2, 105)], Inr ())"
  by code_simp

theorem vcpus_get_their_own_cpus_witness:
  "\<exists>vcpu_pins io_pins. pin_qemu_threads sample_threads 4 [0, 1] = (vcpu_pins @ io_pins, Inr ()) \<and>
     map snd vcpu_pins = [110, 111, 112, 113] \<and> distinct (map fst vcpu_pins)"
  using vcpus_get_their_own_cpus[of "[0, 1]" 4 sample_threads "[(0, 110), (1, 111), (2, 112), (3, 113)]" sample_cpus]
  by (simp add: sample_threads_eval sample_cpus_def sample_per_node)

theorem pinned_threads_are_local_witness:
  "(5::int) \<noteq> 0 \<and> (\<exists>node \<in> {0, 1}. \<exists>cpus. host_node_cpus sample_threads node = Inr cpus \<and> 5 \<in> set cpus)"
  using pinned_threads_are_local[of 5 113 sample_threads 4 "[0, 1]" True] by (auto simp: sample_pins)

end
