(* ===== verification/Cache_Verify.thy ===== *)
theory Cache_Verify
  imports Sek8s_Prelude
begin

text \<open>
  The model cache, first part: \<open>src/src/sek8s/sek8s/system_manager/cache/util.py\<close>. The validator's API
  is the record \<open>validator\<close>: what it answers to the two requests the code makes. A snapshot on disk
  is the list of its files, each with the target of its link and the size behind it. The lemmas say
  exactly which snapshots \<open>verify_cache\<close> accepts.
\<close>

section \<open>The validator\<close>

text \<open>A request that fails below HTTP, that times out, or that is answered with a status and a body.\<close>

datatype 'a answer =
    ClientError
  | TimedOut
  | Answer int "'a res"

text \<open>An entry of \<open>files\<close> in the answer of \<open>/misc/hf_repo_info\<close>.\<close>

record repo_file =
  rf_path :: "string option"
  rf_size :: "int option"
  rf_is_lfs :: bool
  rf_sha256 :: "string option"
  rf_blob_id :: "string option"

text \<open>That answer: \<open>None\<close> for an empty object, else its files.\<close>

type_synonym repo_info = "repo_file list option"

record hf_info =
  hf_repo_id :: "string option"
  hf_revision :: "string option"

record validator =
  v_base_url :: "string option"
  v_sign :: "unit res"                \<comment> \<open>signing the request headers\<close>
  v_hf_info :: "string \<Rightarrow> hf_info answer"
  v_repo_info :: "string \<Rightarrow> string \<Rightarrow> repo_info answer"

definition rstrip_slash :: "string \<Rightarrow> string" where
  "rstrip_slash s = rev (dropWhile (\<lambda>c. c = CHR ''/'') (rev s))"

type_synonym info_cache = "((string \<times> string) \<times> repo_info) list"

definition or_main :: "string option \<Rightarrow> string" where
  "or_main revision = (case revision of Some r \<Rightarrow> if r = [] then ''main'' else r | None \<Rightarrow> ''main'')"

definition fetch_repo_info ::
  "validator \<Rightarrow> info_cache \<Rightarrow> string \<Rightarrow> string \<Rightarrow> info_cache \<times> repo_info option res" where
  "fetch_repo_info v cache repo_id revision =
     (let rev = or_main (Some revision) in
      case map_of cache (repo_id, rev) of
        Some info \<Rightarrow> (cache, Inr (Some info))
      | None \<Rightarrow>
          (case v_repo_info v repo_id rev of
             ClientError \<Rightarrow> (cache, Inr None)
           | TimedOut \<Rightarrow> (cache, Inr None)
           | Answer status body \<Rightarrow>
               if status \<noteq> 200 then (cache, Inr None)
               else (case body of
                       Inl e \<Rightarrow> (cache, Inl e)
                     | Inr info \<Rightarrow> (AList.update (repo_id, rev) info cache, Inr (Some info)))))"

definition fetch_hf_info :: "validator \<Rightarrow> string \<Rightarrow> hf_info res" where
  "fetch_hf_info v chute_id =
     (let base = (case v_base_url v of None \<Rightarrow> [] | Some u \<Rightarrow> rstrip_slash (strip u)) in
      if base = [] then Inl (HTTPException 503 ''Validator base URL not configured (VALIDATOR_BASE_URL)'')
      else
        bindR (v_sign v) (\<lambda>_.
        case v_hf_info v chute_id of
          ClientError \<Rightarrow> Inl (HTTPException 502 ''Validator request failed'')
        | TimedOut \<Rightarrow> Inl TimeoutError
        | Answer status body \<Rightarrow>
            if status \<noteq> 200 then Inl (HTTPException 502 ''validator_error'') else body))"

definition hidden :: "string \<Rightarrow> bool" where
  "hidden path \<longleftrightarrow> startswith path ''_''"

definition manifest_hidden :: "repo_file \<Rightarrow> bool" where
  "manifest_hidden item = hidden (case rf_path item of Some p \<Rightarrow> p | None \<Rightarrow> [])"

definition fetch_repo_total_size ::
  "validator \<Rightarrow> info_cache \<Rightarrow> string \<Rightarrow> string \<Rightarrow> info_cache \<times> int res" where
  "fetch_repo_total_size v cache repo_id revision =
     (case fetch_repo_info v cache repo_id revision of
        (cache', Inl e) \<Rightarrow> (cache', Inl e)
      | (cache', Inr (Some (Some files))) \<Rightarrow>
          (cache', Inr (sum_list (map (\<lambda>item. case rf_size item of Some n \<Rightarrow> n | None \<Rightarrow> 0)
             (filter (\<lambda>item. \<not> manifest_hidden item) files))))
      | (cache', Inr _) \<Rightarrow> (cache', Inr 0))"

section \<open>The files of a snapshot\<close>

record local_file =
  lf_link :: "string option"  \<comment> \<open>target, for a symbolic link\<close>
  lf_size :: "int option"     \<comment> \<open>size behind it; a dangling link has none\<close>

definition get_symlink_hash :: "local_file \<Rightarrow> string option" where
  "get_symlink_hash f =
     (case lf_link f of
        None \<Rightarrow> None
      | Some target \<Rightarrow> if length (path_name target) = 64 then Some (path_name target) else None)"

text \<open>The manifest as a dictionary: from path to hash and size, later entries over earlier ones.\<close>

type_synonym expectation = "string option \<times> int option"

fun remote_files :: "repo_file list \<Rightarrow> (string \<times> expectation) list \<Rightarrow> (string \<times> expectation) list res" where
  "remote_files [] acc = Inr acc"
| "remote_files (item # items) acc =
     (if manifest_hidden item then remote_files items acc
      else
        (case rf_path item of
           None \<Rightarrow> Inl (KeyError ''path'')
         | Some path \<Rightarrow>
             remote_files items (AList.update path
               (if rf_is_lfs item then rf_sha256 item else rf_blob_id item, rf_size item) acc)))"

definition local_files :: "(string \<times> local_file) list \<Rightarrow> (string \<times> local_file) list" where
  "local_files entries = filter (\<lambda>(path, f). \<not> list_ex hidden (path_parts path)) entries"

definition str_of :: "int option \<Rightarrow> string" where
  "str_of n = (case n of Some i \<Rightarrow> str_int i | None \<Rightarrow> ''None'')"

text \<open>One file of the manifest: \<open>True\<close> if it was checked, \<open>False\<close> if it was skipped.\<close>

definition verify_file :: "(string \<times> local_file) list \<Rightarrow> string \<Rightarrow> expectation \<Rightarrow> bool res" where
  "verify_file locals path expected =
     (case expected of (remote_hash, remote_size) \<Rightarrow>
      (case map_of locals path of
        None \<Rightarrow> Inl (ValueError (''Missing file: '' @ path))
      | Some f \<Rightarrow>
          if lf_size f = None \<and> lf_link f = None then Inl (ValueError (''Missing file: '' @ path))
          else
            (case remote_hash of
               None \<Rightarrow> Inr False
             | Some hash \<Rightarrow>
                 if length hash = 40 then Inr False
                 else
                   bindR (case remote_size of
                            None \<Rightarrow> Inr ()
                          | Some n \<Rightarrow>
                              (case lf_size f of
                                 None \<Rightarrow> Inl (OSError 2 ''No such file or directory'')
                               | Some actual \<Rightarrow>
                                   if actual \<noteq> n
                                   then Inl (ValueError (''Size mismatch: '' @ path @ '' (expected=''
                                     @ str_int n @ '', actual='' @ str_int actual @ '')''))
                                   else Inr ())) (\<lambda>_.
                   (case get_symlink_hash f of
                     None \<Rightarrow> Inr True
                   | Some symlink_hash \<Rightarrow>
                       if symlink_hash \<noteq> hash
                       then Inl (ValueError (''Hash mismatch: '' @ path @ '' (expected='' @ take 12 hash
                         @ '', actual='' @ take 12 symlink_hash @ '')''))
                       else Inr True)))))"

record verification =
  vn_verified :: nat
  vn_skipped :: nat
  vn_total :: nat

definition count_checked :: "bool list \<Rightarrow> verification" where
  "count_checked bs = \<lparr>vn_verified = length (filter id bs), vn_skipped = length (filter Not bs),
     vn_total = length bs\<rparr>"

definition replace_slash :: "string \<Rightarrow> string" where
  "replace_slash s = concat (map (\<lambda>c. if c = CHR ''/'' then ''--'' else [c]) s)"

definition repo_folder_name :: "string \<Rightarrow> string" where
  "repo_folder_name repo_id = ''models--'' @ replace_slash repo_id"

text \<open>
  \<open>snapshot\<close> lists the files below \<open>hub/<folder>/snapshots/<revision>\<close>, or is \<open>None\<close> when there
  is no such directory.
\<close>

definition verify_cache ::
  "validator \<Rightarrow> info_cache \<Rightarrow> (string \<Rightarrow> string \<Rightarrow> (string \<times> local_file) list option)
   \<Rightarrow> string \<Rightarrow> string \<Rightarrow> info_cache \<times> verification res" where
  "verify_cache v cache snapshot repo_id revision =
     (case fetch_repo_info v cache repo_id revision of (cache', answer) \<Rightarrow>
        (cache',
         bindR answer (\<lambda>info.
         case info of
           Some (Some files) \<Rightarrow>
             bindR (remote_files files []) (\<lambda>remote.
             case snapshot (repo_folder_name repo_id) revision of
               None \<Rightarrow> Inl (ValueError (''Cache directory not found: hub/'' @ repo_folder_name repo_id
                         @ ''/snapshots/'' @ revision))
             | Some entries \<Rightarrow>
                 bindR (mapM (\<lambda>(path, expected). verify_file (local_files entries) path expected) remote)
                   (\<lambda>bs. Inr (count_checked bs)))
         | _ \<Rightarrow> Inl (ValueError ''Cache verification failed: could not fetch repo info from validator (required to verify cache integrity)''))))"

section \<open>What is accepted\<close>

text \<open>A file is as the manifest says, as far as \<open>verify_cache\<close> looks.\<close>

definition file_matches :: "local_file \<Rightarrow> expectation \<Rightarrow> bool" where
  "file_matches f expected =
     (case fst expected of
        None \<Rightarrow> True
      | Some h \<Rightarrow> length h = 40 \<or>
          (snd expected = None \<or> lf_size f = snd expected) \<and>
          (get_symlink_hash f = None \<or> get_symlink_hash f = Some h))"

definition readable :: "local_file \<Rightarrow> bool" where
  "readable f \<longleftrightarrow> lf_size f \<noteq> None \<or> lf_link f \<noteq> None"

lemma verify_file_Inr:
  "verify_file locals path expected = Inr b \<longleftrightarrow>
     (\<exists>f. map_of locals path = Some f \<and> readable f \<and> file_matches f expected \<and>
        b = (case fst expected of None \<Rightarrow> False | Some h \<Rightarrow> length h \<noteq> 40))"
  by (cases expected)
     (auto simp: verify_file_def file_matches_def readable_def split: option.splits if_splits)

lemma mapM_total: "(\<exists>ys. mapM f xs = Inr ys) \<longleftrightarrow> (\<forall>x \<in> set xs. \<exists>y. f x = Inr y)"
  by (induction xs) (auto simp: bindR_Inr_iff)

lemma count_checked_total: "vn_verified (count_checked bs) + vn_skipped (count_checked bs) = vn_total (count_checked bs)"
  by (induction bs) (auto simp: count_checked_def)

text \<open>The entry a manifest has for a path: the last one, hidden files left out.\<close>

definition expected_at :: "repo_file list \<Rightarrow> string \<Rightarrow> expectation option" where
  "expected_at files path =
     (case filter (\<lambda>item. \<not> manifest_hidden item \<and> rf_path item = Some path) files of
        [] \<Rightarrow> None
      | items \<Rightarrow> (let item = last items in
          Some (if rf_is_lfs item then rf_sha256 item else rf_blob_id item, rf_size item)))"

lemma remote_files_lookup:
  "remote_files files acc = Inr remote \<Longrightarrow>
     map_of remote path = (case expected_at files path of Some e \<Rightarrow> Some e | None \<Rightarrow> map_of acc path)"
proof (induction files acc rule: remote_files.induct)
  case (2 item items acc)
  show ?case
  proof (cases "manifest_hidden item")
    case True
    with 2 show ?thesis by (auto simp: expected_at_def)
  next
    case False
    with "2.prems" obtain p where p: "rf_path item = Some p" by (auto split: option.splits)
    with 2 False show ?thesis
      by (auto simp: expected_at_def update_conv' Let_def split: list.splits)
  qed
qed (simp add: expected_at_def)

lemma remote_files_total:
  "(\<exists>remote. remote_files files acc = Inr remote) \<longleftrightarrow> list_all (\<lambda>item. rf_path item \<noteq> None) files"
proof (induction files acc rule: remote_files.induct)
  case (2 item items acc)
  have "rf_path item \<noteq> None" if "manifest_hidden item"
    using that by (auto simp: manifest_hidden_def hidden_def split: option.splits)
  with 2 show ?case by (auto split: option.splits)
qed simp

lemma remote_files_distinct:
  "remote_files files acc = Inr remote \<Longrightarrow> distinct (map fst acc) \<Longrightarrow> distinct (map fst remote)"
  by (induction files acc rule: remote_files.induct)
     (auto split: if_splits option.splits simp: distinct_update)

lemma manifest_files_verified:
  assumes "remote_files files [] = Inr remote"
  shows "(\<exists>bs. mapM (\<lambda>(path, expected). verify_file locals path expected) remote = Inr bs) \<longleftrightarrow>
     (\<forall>path e. expected_at files path = Some e \<longrightarrow>
        (\<exists>f. map_of locals path = Some f \<and> readable f \<and> file_matches f e))"
proof -
  have "distinct (map fst remote)" using remote_files_distinct[OF assms] by simp
  moreover have "map_of remote path = expected_at files path" for path
    using remote_files_lookup[OF assms, of path] by (simp split: option.splits)
  ultimately have mem: "(path, e) \<in> set remote \<longleftrightarrow> expected_at files path = Some e" for path e
    by (metis map_of_eq_Some_iff)
  have "(\<forall>x \<in> set remote. \<exists>b. (case x of (path, expected) \<Rightarrow> verify_file locals path expected) = Inr b) \<longleftrightarrow>
      (\<forall>path e. (path, e) \<in> set remote \<longrightarrow> (\<exists>b. verify_file locals path e = Inr b))" by auto
  then show ?thesis
    unfolding mapM_total by (simp add: verify_file_Inr mem)
qed

text \<open>
  C8: a cached snapshot passes verification exactly when the validator answered with a manifest whose
  entries all have a path, the snapshot directory of that revision exists, and every file of the manifest
  whose path does not begin with an underscore (the last entry of a path counts) is there, outside of local directories and files
  whose names begin with one, and matches. A file matches when the manifest gives no hash or one of 40
  characters for it, and otherwise when it has the size that the manifest gives, if it gives one, and, where
  it is a link whose target has a name of 64 characters, this name is the hash: a regular file or
  another link is not compared with the hash. Every file counts as either verified or skipped.
\<close>

theorem verify_cache_accepts_exactly:
  "((\<exists>r. snd (verify_cache v cache snapshot repo_id revision) = Inr r) \<longleftrightarrow>
     (\<exists>files entries.
        snd (fetch_repo_info v cache repo_id revision) = Inr (Some (Some files)) \<and>
        list_all (\<lambda>item. rf_path item \<noteq> None) files \<and>
        snapshot (repo_folder_name repo_id) revision = Some entries \<and>
        (\<forall>path e. expected_at files path = Some e \<longrightarrow>
           (\<exists>f. map_of (local_files entries) path = Some f \<and> readable f \<and> file_matches f e)))) \<and>
   (\<forall>r. snd (verify_cache v cache snapshot repo_id revision) = Inr r \<longrightarrow>
      vn_verified r + vn_skipped r = vn_total r)"
proof (cases "\<exists>files remote entries. snd (fetch_repo_info v cache repo_id revision) = Inr (Some (Some files)) \<and>
    remote_files files [] = Inr remote \<and> snapshot (repo_folder_name repo_id) revision = Some entries")
  case True
  then obtain files remote entries where
    h: "snd (fetch_repo_info v cache repo_id revision) = Inr (Some (Some files))"
      "remote_files files [] = Inr remote" "snapshot (repo_folder_name repo_id) revision = Some entries" by blast
  have run: "snd (verify_cache v cache snapshot repo_id revision) =
      bindR (mapM (\<lambda>(path, expected). verify_file (local_files entries) path expected) remote)
        (\<lambda>bs. Inr (count_checked bs))"
    using h by (simp add: verify_cache_def case_prod_beta)
  have paths: "list_all (\<lambda>item. rf_path item \<noteq> None) files"
    using h(2) remote_files_total by blast
  show ?thesis
    unfolding run using manifest_files_verified[OF h(2), of "local_files entries"] h paths
    by (auto simp: bindR_Inr_iff count_checked_total)
next
  case False
  have "snd (verify_cache v cache snapshot repo_id revision) \<noteq> Inr r" for r
    using False
    by (fastforce simp: verify_cache_def case_prod_beta bindR_Inr_iff split: option.splits)
  moreover have "\<not> (\<exists>files entries. snd (fetch_repo_info v cache repo_id revision) = Inr (Some (Some files)) \<and>
      list_all (\<lambda>item. rf_path item \<noteq> None) files \<and> snapshot (repo_folder_name repo_id) revision = Some entries)"
    using False remote_files_total by blast
  ultimately show ?thesis by blast
qed

text \<open>
  What is not looked at: a regular file, or a link whose target is not named by a SHA-256 hash, passes
  with any content of the right size.
\<close>

lemma only_blob_links_are_hashed:
  "get_symlink_hash f = None \<Longrightarrow> lf_size f = Some n \<Longrightarrow> file_matches f (hash, Some n)"
  by (simp add: file_matches_def split: option.splits)

section \<open>An example\<close>

definition sample_blob :: string where
  "sample_blob = replicate 64 (CHR ''a'')"

definition sample_manifest :: "repo_file list" where
  "sample_manifest =
     [\<lparr>rf_path = Some ''w'', rf_size = Some 7, rf_is_lfs = True, rf_sha256 = Some sample_blob, rf_blob_id = None\<rparr>,
      \<lparr>rf_path = Some ''_x'', rf_size = None, rf_is_lfs = False, rf_sha256 = None, rf_blob_id = None\<rparr>]"

definition sample_validator :: validator where
  "sample_validator = \<lparr>v_base_url = Some ''https://v/'', v_sign = Inr (),
     v_hf_info = (\<lambda>_. Answer 200 (Inr \<lparr>hf_repo_id = Some ''o/m'', hf_revision = Some ''r1''\<rparr>)),
     v_repo_info = (\<lambda>_ _. Answer 200 (Inr (Some sample_manifest)))\<rparr>"

definition sample_snapshot :: "int \<Rightarrow> string \<Rightarrow> string \<Rightarrow> (string \<times> local_file) list option" where
  "sample_snapshot n folder revision =
     (if folder = ''models--o--m'' \<and> revision = ''r1''
      then Some [(''w'', \<lparr>lf_link = Some (''../blobs/'' @ sample_blob), lf_size = Some n\<rparr>)] else None)"

lemma sample_verification:
  "snd (verify_cache sample_validator [] (sample_snapshot 7) ''o/m'' ''r1'') =
     Inr \<lparr>vn_verified = 1, vn_skipped = 0, vn_total = 1\<rparr>"
  "\<exists>m. snd (verify_cache sample_validator [] (sample_snapshot 8) ''o/m'' ''r1'') = Inl (ValueError m) \<and>
     startswith m ''Size mismatch''"
proof -
  show "snd (verify_cache sample_validator [] (sample_snapshot 7) ''o/m'' ''r1'') =
     Inr \<lparr>vn_verified = 1, vn_skipped = 0, vn_total = 1\<rparr>" by code_simp
  have "snd (verify_cache sample_validator [] (sample_snapshot 8) ''o/m'' ''r1'') =
     Inl (ValueError ''Size mismatch: w (expected=7, actual=8)'')" by code_simp
  then show "\<exists>m. snd (verify_cache sample_validator [] (sample_snapshot 8) ''o/m'' ''r1'') = Inl (ValueError m) \<and>
     startswith m ''Size mismatch''" by (simp add: prefix_def)
qed

theorem verify_cache_accepts_exactly_witness:
  "\<exists>entries. sample_snapshot 7 (repo_folder_name ''o/m'') ''r1'' = Some entries"
proof -
  have "\<exists>r. snd (verify_cache sample_validator [] (sample_snapshot 7) ''o/m'' ''r1'') = Inr r"
    using sample_verification(1) by blast
  then show ?thesis
    using verify_cache_accepts_exactly[of sample_validator "[]" "sample_snapshot 7" "''o/m''" "''r1''"] by blast
qed

end
