(* ===== verification/Cache_Download.thy ===== *)
theory Cache_Download
  imports Cache_Verify
begin

text \<open>
  The model cache, second part: \<open>src/src/sek8s/sek8s/system_manager/cache/download.py\<close>. The pipeline of
  the subprocess (\<open>download_attempts\<close>, \<open>pipeline\<close>) works on the directory of a chute, \<open>chute_dir\<close>, and
  is given as the list of the states the directory goes through, because the process can be killed
  after any of them. \<open>DownloadProcess\<close> is the record \<open>download\<close>; the coroutine \<open>start\<close>, the
  operating system and \<open>cancel\<close> act on it in the steps of \<open>dl_step\<close>. \<open>snapshot_download\<close> is a
  parameter: what each attempt does to the directory and how it ends.
\<close>

section \<open>The directory of a chute\<close>

record repo_scan =
  rs_repo_id :: string
  rs_revisions :: "string list"
  rs_last_accessed :: rat

record scan_info =
  si_size_on_disk :: int
  si_repos :: "repo_scan list"

record chute_dir =
  cd_hub :: bool           \<comment> \<open>\<open>hub\<close> exists\<close>
  cd_models :: bool        \<comment> \<open>\<open>hub\<close> has an entry \<open>models--*\<close>\<close>
  cd_snapshot :: "string \<Rightarrow> string \<Rightarrow> (string \<times> local_file) list option"
  cd_scan :: "scan_info res"  \<comment> \<open>what \<open>scan_cache_dir\<close> reports on \<open>hub\<close>\<close>
  cd_foreign :: bool       \<comment> \<open>an entry belongs to another user, or cannot be read\<close>
  cd_complete :: "string option"  \<comment> \<open>text of the marker \<open>.cache_complete\<close>\<close>
  cd_stale :: "string option"     \<comment> \<open>text of the marker \<open>.cache_stale\<close>\<close>

definition marker_text :: "string \<Rightarrow> string \<Rightarrow> string" where
  "marker_text repo_id revision = repo_id @ newline # revision"

section \<open>The pipeline\<close>

datatype hf_error =
    GatedRepoError
  | RepositoryNotFoundError
  | RevisionNotFoundError
  | HfHubHTTPError "int option"  \<comment> \<open>status of the response, if there is one\<close>
  | XetDownloadError
  | OtherDownloadError string

definition is_transient_download_error :: "hf_error \<Rightarrow> bool" where
  "is_transient_download_error e =
     (case e of
        GatedRepoError \<Rightarrow> False
      | RepositoryNotFoundError \<Rightarrow> False
      | RevisionNotFoundError \<Rightarrow> False
      | HfHubHTTPError status \<Rightarrow> status = Some 403
      | XetDownloadError \<Rightarrow> True
      | OtherDownloadError _ \<Rightarrow> False)"

definition download_max_retries :: nat where "download_max_retries = 5"
definition download_retry_base_delay :: nat where "download_retry_base_delay = 10"

type_synonym fetch = "nat \<Rightarrow> chute_dir \<Rightarrow> (hf_error + unit) \<times> chute_dir"

text \<open>The loop over the attempts: how it ends, the directory after each attempt, the delays slept.\<close>

fun download_attempts :: "fetch \<Rightarrow> nat list \<Rightarrow> chute_dir \<Rightarrow> (hf_error + unit) \<times> chute_dir list \<times> nat list" where
  "download_attempts snapshot_download [] d = (Inr (), [], [])"
| "download_attempts snapshot_download (attempt # attempts) d =
     (case snapshot_download attempt d of
        (Inr _, d') \<Rightarrow> (Inr (), [d'], [])
      | (Inl e, d') \<Rightarrow>
          if \<not> is_transient_download_error e \<or> attempt = download_max_retries then (Inl e, [d'], [])
          else
            (case download_attempts snapshot_download attempts d' of
               (r, ds, delays) \<Rightarrow>
                 (r, d' # ds, download_retry_base_delay * 2 ^ (attempt - 1) # delays)))"

definition snapshot_download_with_retry :: "fetch \<Rightarrow> chute_dir \<Rightarrow> (hf_error + unit) \<times> chute_dir list \<times> nat list" where
  "snapshot_download_with_retry snapshot_download d =
     download_attempts snapshot_download [1..<Suc download_max_retries] d"

text \<open>
  \<open>write_text\<close> on the marker truncates the file and then writes the text: when it is killed, any part of the text
  from its beginning may be in the file.
\<close>

definition marker_writes :: "string \<Rightarrow> chute_dir \<Rightarrow> chute_dir list" where
  "marker_writes t d = map (\<lambda>k. d\<lparr>cd_complete := Some (take k t)\<rparr>) [0..<Suc (length t)]"

text \<open>
  The states of the directory in a run of \<open>_run\<close>, the first one included, and whether it succeeded.
  The permissions \<open>chmod_tree\<close> sets are not part of the state; between the states of the download only the content of
  \<open>hub\<close> changes.
\<close>

definition run_pipeline ::
  "validator \<Rightarrow> fetch \<Rightarrow> string \<Rightarrow> string \<Rightarrow> chute_dir \<Rightarrow> chute_dir list \<times> bool" where
  "run_pipeline v snapshot_download repo_id revision d =
     (case snapshot_download_with_retry snapshot_download d of
        (Inl e, ds, delays) \<Rightarrow> (d # ds, False)
      | (Inr _, ds, delays) \<Rightarrow>
          let d1 = last (d # ds) in
          (case snd (verify_cache v [] (cd_snapshot d1) repo_id revision) of
             Inl e \<Rightarrow> (d # ds, False)
           | Inr _ \<Rightarrow>
               let d2 = d1\<lparr>cd_complete := Some (marker_text repo_id revision)\<rparr>
               in (d # ds @ marker_writes (marker_text repo_id revision) d1 @ (if cd_stale d2 \<noteq> None then [d2\<lparr>cd_stale := None\<rparr>] else []), True)))"

subsection \<open>Retries\<close>

lemma download_attempts_spec:
  assumes "download_attempts f [k..<Suc download_max_retries] d = (r, ds, delays)"
    and "1 \<le> k" "k \<le> download_max_retries"
  shows "\<exists>n. k \<le> n \<and> n \<le> download_max_retries \<and> length ds = Suc n - k \<and>
     delays = map (\<lambda>i. download_retry_base_delay * 2 ^ (i - 1)) [k..<n] \<and>
     (\<forall>i. k \<le> i \<and> i < n \<longrightarrow>
        (\<exists>e. fst (f i ((d # ds) ! (i - k))) = Inl e \<and> is_transient_download_error e)) \<and>
     fst (f n ((d # ds) ! (n - k))) = r \<and> (\<forall>e. r = Inl e \<longrightarrow> n = download_max_retries \<or> \<not> is_transient_download_error e)"
  using assms
proof (induction "download_max_retries - k" arbitrary: k d r ds delays)
  case 0
  then have k: "k = download_max_retries" by simp
  obtain r1 d1 where f: "f k d = (r1, d1)" by (cases "f k d")
  have up: "[k..<Suc download_max_retries] = [k]" by (simp add: k)
  show ?case
    using 0(2) unfolding up by (intro exI[of _ k]) (cases r1; auto simp: f[unfolded k] k)
next
  case (Suc m)
  obtain r1 d1 where f: "f k d = (r1, d1)" by (cases "f k d")
  have up: "[k..<Suc download_max_retries] = k # [Suc k..<Suc download_max_retries]"
    using Suc.prems(3) by (simp add: upt_conv_Cons)
  show ?case
  proof (cases "\<exists>e. r1 = Inl e \<and> is_transient_download_error e")
    case False
    then show ?thesis
      using Suc.prems(1) Suc.hyps(2) unfolding up
      by (intro exI[of _ k]) (cases r1; auto simp: f split: if_splits)
  next
    case True
    then obtain e where e: "r1 = Inl e" "is_transient_download_error e" by blast
    have k: "k \<noteq> download_max_retries" using Suc.hyps(2) by linarith
    obtain r' ds' delays' where rec: "download_attempts f [Suc k..<Suc download_max_retries] d1 = (r', ds', delays')"
      by (metis prod_cases3)
    then have eqs: "r = r'" "ds = d1 # ds'" "delays = download_retry_base_delay * 2 ^ (k - 1) # delays'"
      using Suc.prems(1) unfolding up by (simp_all add: f e k)
    have m: "m = download_max_retries - Suc k" "1 \<le> Suc k" "Suc k \<le> download_max_retries"
      using Suc.hyps(2) by linarith+
    from Suc.hyps(1)[OF m(1) rec m(2,3)] obtain n where n:
      "Suc k \<le> n" "n \<le> download_max_retries" "length ds' = Suc n - Suc k"
      "delays' = map (\<lambda>i. download_retry_base_delay * 2 ^ (i - 1)) [Suc k..<n]"
      "\<forall>i. Suc k \<le> i \<and> i < n \<longrightarrow> (\<exists>e. fst (f i ((d1 # ds') ! (i - Suc k))) = Inl e \<and> is_transient_download_error e)"
      "fst (f n ((d1 # ds') ! (n - Suc k))) = r'"
      "\<forall>e. r' = Inl e \<longrightarrow> n = download_max_retries \<or> \<not> is_transient_download_error e"
      by blast
    have shift: "(d # d1 # ds') ! (i - k) = (d1 # ds') ! (i - Suc k)" if "k < i" for i
      using that by (metis Suc_diff_Suc nth_Cons_Suc)
    have "\<exists>e. fst (f i ((d # ds) ! (i - k))) = Inl e \<and> is_transient_download_error e" if "k \<le> i" "i < n" for i
      using n(5) that shift[of i] f e eqs(2) by (cases "i = k") auto
    moreover have "delays = map (\<lambda>i. download_retry_base_delay * 2 ^ (i - 1)) [k..<n]"
      using eqs(3) n(1,4) by (simp add: upt_conv_Cons)
    ultimately show ?thesis
      using n shift[of n] eqs by (intro exI[of _ n]) auto
  qed
qed

text \<open>
  The download is tried at most five times. It is tried again exactly after a transient failure (an
  expired presigned URL or a transport error), never after a gated, missing or unauthorized
  repository; the outcome is that of the last attempt, and the pauses double from 10 seconds, 150 in
  all at most.
\<close>

theorem download_retries_bounded:
  assumes "snapshot_download_with_retry f d = (r, ds, delays)"
  shows "\<exists>n. 1 \<le> n \<and> n \<le> download_max_retries \<and> length ds = n \<and>
     (\<forall>i. 1 \<le> i \<and> i < n \<longrightarrow>
        (\<exists>e. fst (f i ((d # ds) ! (i - 1))) = Inl e \<and> is_transient_download_error e)) \<and>
     fst (f n ((d # ds) ! (n - 1))) = r \<and>
     (\<forall>e. r = Inl e \<longrightarrow> n = download_max_retries \<or> \<not> is_transient_download_error e) \<and>
     delays = map (\<lambda>i. 10 * 2 ^ (i - 1)) [1..<n] \<and> sum_list delays \<le> 150"
proof -
  have max: "1 \<le> download_max_retries" by (simp add: download_max_retries_def)
  obtain n where n: "1 \<le> n" "n \<le> download_max_retries" "length ds = Suc n - 1"
      "delays = map (\<lambda>i. download_retry_base_delay * 2 ^ (i - 1)) [1..<n]"
      "\<forall>i. 1 \<le> i \<and> i < n \<longrightarrow> (\<exists>e. fst (f i ((d # ds) ! (i - 1))) = Inl e \<and> is_transient_download_error e)"
      "fst (f n ((d # ds) ! (n - 1))) = r"
      "\<forall>e. r = Inl e \<longrightarrow> n = download_max_retries \<or> \<not> is_transient_download_error e"
    using download_attempts_spec[OF assms[unfolded snapshot_download_with_retry_def] order_refl max] by blast
  have "n \<in> {1, 2, 3, 4, 5}" using n(1,2) by (auto simp: download_max_retries_def)
  moreover have "\<forall>n \<in> {1, 2, 3, 4, 5}. sum_list (map (\<lambda>i. 10 * 2 ^ (i - 1)) [1..<n]) \<le> (150 :: nat)"
    by code_simp
  ultimately have "sum_list (map (\<lambda>i. 10 * 2 ^ (i - 1)) [1..<n]) \<le> (150 :: nat)" by blast
  with n show ?thesis
    by (intro exI[of _ n]) (simp add: download_retry_base_delay_def)
qed

subsection \<open>Markers\<close>

text \<open>\<open>snapshot_download\<close> writes below \<open>hub\<close>: it leaves the markers alone.\<close>

definition keeps_markers :: "fetch \<Rightarrow> bool" where
  "keeps_markers f \<longleftrightarrow> (\<forall>i d. cd_complete (snd (f i d)) = cd_complete d \<and> cd_stale (snd (f i d)) = cd_stale d)"

lemma attempts_keep_markers:
  assumes "keeps_markers f"
  shows "d' \<in> set (fst (snd (download_attempts f as d))) \<Longrightarrow>
     cd_complete d' = cd_complete d \<and> cd_stale d' = cd_stale d"
proof (induction as arbitrary: d)
  case (Cons a as)
  have k: "cd_complete (snd (f a d)) = cd_complete d" "cd_stale (snd (f a d)) = cd_stale d"
    using assms by (simp_all add: keeps_markers_def)
  show ?case
    using Cons.prems Cons.IH[of "snd (f a d)"] k by (auto split: prod.splits sum.splits if_splits)
qed simp

lemma marker_writes_states: "d' \<in> set (marker_writes t d) \<Longrightarrow> \<exists>k. d' = d\<lparr>cd_complete := Some (take k t)\<rparr>"
  unfolding marker_writes_def set_map by (elim imageE) (rule exI)

lemma marker_writes_last: "marker_writes t d \<noteq> []" "last (marker_writes t d) = d\<lparr>cd_complete := Some t\<rparr>"
  by (simp_all add: marker_writes_def)

lemma pipeline_markers:
  assumes "keeps_markers f" and "run_pipeline v f repo_id revision d = (ds, ok)"
  shows "\<forall>d' \<in> set ds.
     cd_complete d' = cd_complete d \<and> cd_stale d' = cd_stale d \<or>
     (\<exists>k. cd_complete d' = Some (take k (marker_text repo_id revision))) \<and>
       (\<exists>r. snd (verify_cache v [] (cd_snapshot d') repo_id revision) = Inr r)"
    and "ok \<longrightarrow> cd_complete (last ds) = Some (marker_text repo_id revision) \<and> cd_stale (last ds) = None"
proof -
  obtain r ds1 delays where run: "snapshot_download_with_retry f d = (r, ds1, delays)"
    by (metis prod_cases3)
  then have kept: "cd_complete d' = cd_complete d \<and> cd_stale d' = cd_stale d" if "d' \<in> set (d # ds1)" for d'
    using that attempts_keep_markers[OF assms(1), of d' "[1..<Suc download_max_retries]" d]
    by (auto simp: snapshot_download_with_retry_def)
  let ?d1 = "last (d # ds1)"
  let ?vr = "snd (verify_cache v [] (cd_snapshot ?d1) repo_id revision)"
  let ?d2 = "?d1\<lparr>cd_complete := Some (marker_text repo_id revision)\<rparr>"
  let ?w = "marker_writes (marker_text repo_id revision) ?d1"
  have states: "(ds, ok) = (if r = Inr () \<and> (\<exists>x. ?vr = Inr x)
      then (d # ds1 @ ?w @ (if cd_stale ?d2 \<noteq> None then [?d2\<lparr>cd_stale := None\<rparr>] else []), True)
      else (d # ds1, False))"
    using assms(2) run by (cases r; cases ?vr) (simp_all add: run_pipeline_def Let_def del: last.simps)
  show "\<forall>d' \<in> set ds.
     cd_complete d' = cd_complete d \<and> cd_stale d' = cd_stale d \<or>
     (\<exists>k. cd_complete d' = Some (take k (marker_text repo_id revision))) \<and>
       (\<exists>r. snd (verify_cache v [] (cd_snapshot d') repo_id revision) = Inr r)"
  proof
    fix d' assume "d' \<in> set ds"
    then consider "d' \<in> set (d # ds1)" | "\<exists>x. ?vr = Inr x" "d' \<in> set ?w \<or> d' = ?d2\<lparr>cd_stale := None\<rparr>"
      using states by (auto simp del: last.simps split: if_splits)
    then show "cd_complete d' = cd_complete d \<and> cd_stale d' = cd_stale d \<or>
       (\<exists>k. cd_complete d' = Some (take k (marker_text repo_id revision))) \<and>
         (\<exists>r. snd (verify_cache v [] (cd_snapshot d') repo_id revision) = Inr r)"
    proof cases
      case 1
      then show ?thesis using kept by blast
    next
      case 2
      then obtain k where k: "d' = ?d1\<lparr>cd_complete := Some (take k (marker_text repo_id revision))\<rparr> \<or> d' = ?d2\<lparr>cd_stale := None\<rparr>"
        using marker_writes_states by blast
      have "\<exists>k. cd_complete d' = Some (take k (marker_text repo_id revision))"
        using k by (elim disjE) (rule exI[of _ k], simp del: last.simps,
            rule exI[of _ "length (marker_text repo_id revision)"], simp del: last.simps)
      moreover have "cd_snapshot d' = cd_snapshot ?d1" using k by (elim disjE) (simp_all del: last.simps)
      ultimately show ?thesis using 2(1) by (simp only: simp_thms)
    qed
  qed
  show "ok \<longrightarrow> cd_complete (last ds) = Some (marker_text repo_id revision) \<and> cd_stale (last ds) = None"
    using states marker_writes_last[of "marker_text repo_id revision" ?d1] by (simp split: if_splits)
qed

text \<open>
  C7: the marker that declares a cache complete is only ever written after a successful verification.
  Whenever the pipeline is killed, the directory has the markers it started with, or a complete marker, with some beginning of
  its text, and the files of the requested repository and revision had been verified in this run; only the existence of the
  marker is ever asked for. A run that succeeds leaves the whole text and no stale marker.
\<close>

theorem complete_marker_means_verified:
  assumes "keeps_markers f" and "run_pipeline v f repo_id revision d = (ds, ok)"
  shows "(\<forall>d' \<in> set ds.
     cd_complete d' = cd_complete d \<and> cd_stale d' = cd_stale d \<or>
     (\<exists>k. cd_complete d' = Some (take k (marker_text repo_id revision))) \<and>
       (\<exists>r. snd (verify_cache v [] (cd_snapshot d') repo_id revision) = Inr r)) \<and>
     (ok \<longrightarrow> cd_complete (last ds) = Some (marker_text repo_id revision) \<and> cd_stale (last ds) = None)"
  using pipeline_markers[OF assms] by blast

section \<open>DownloadProcess\<close>

text \<open>
  The process the handle \<open>_proc\<close> refers to, with the return code the handle shows, and how far the
  coroutine \<open>start\<close> is.
\<close>

datatype os_process = NotSpawned | Running | Exited int string  \<comment> \<open>return code, error output\<close>

datatype coroutine = BeforeSpawn | Communicating | Returned | Crashed exn

record download =
  dl_total_bytes :: "int option"
  dl_initial_bytes :: int
  dl_started_at :: time
  dl_handle :: bool               \<comment> \<open>\<open>_proc\<close> is set\<close>
  dl_returncode :: "int option"
  dl_error :: "string option"
  dl_process :: os_process
  dl_coroutine :: coroutine

definition new_download :: "int option \<Rightarrow> int \<Rightarrow> time \<Rightarrow> download" where
  "new_download total_bytes initial now =
     \<lparr>dl_total_bytes = total_bytes, dl_initial_bytes = initial, dl_started_at = now, dl_handle = False,
      dl_returncode = None, dl_error = None, dl_process = NotSpawned, dl_coroutine = BeforeSpawn\<rparr>"

definition is_running :: "download \<Rightarrow> bool" where
  "is_running d \<longleftrightarrow> dl_handle d \<and> dl_process d = Running"

definition is_done :: "download \<Rightarrow> bool" where
  "is_done d \<longleftrightarrow> dl_returncode d \<noteq> None"

definition succeeded :: "download \<Rightarrow> bool" where
  "succeeded d \<longleftrightarrow> dl_returncode d = Some 0"

definition was_cancelled :: "download \<Rightarrow> bool" where
  "was_cancelled d = (case dl_returncode d of Some rc \<Rightarrow> rc < 0 | None \<Rightarrow> False)"

definition download_error :: "download \<Rightarrow> string option" where
  "download_error d =
     (if \<not> is_done d then None
      else if was_cancelled d then Some ''Download was cancelled''
      else dl_error d)"

text \<open>\<open>start\<close>, up to its first pause and from the end of the process on.\<close>

definition start_spawn :: "download \<Rightarrow> download" where
  "start_spawn d = d\<lparr>dl_handle := True, dl_process := Running, dl_coroutine := Communicating\<rparr>"

definition start_finish :: "int \<Rightarrow> string \<Rightarrow> download \<Rightarrow> download" where
  "start_finish rc stderr d =
     (if \<not> dl_handle d
      then d\<lparr>dl_coroutine := Crashed (AttributeError ''returncode'')\<rparr>
      else d\<lparr>dl_returncode := Some rc, dl_handle := False, dl_coroutine := Returned,
             dl_error := (if rc \<noteq> 0 then Some (strip stderr) else dl_error d)\<rparr>)"

text \<open>\<open>cancel\<close>: the signal is sent, if at all, to a process that may take any time to die of it.\<close>

definition cancel :: "download \<Rightarrow> download" where
  "cancel d = (if dl_handle d then d\<lparr>dl_handle := False\<rparr> else d)"

inductive dl_step :: "download \<Rightarrow> download \<Rightarrow> bool" where
  spawn: "dl_coroutine d = BeforeSpawn \<Longrightarrow> dl_step d (start_spawn d)"
| exit: "dl_process d = Running \<Longrightarrow> dl_step d (d\<lparr>dl_process := Exited rc err\<rparr>)"
| finish: "dl_coroutine d = Communicating \<Longrightarrow> dl_process d = Exited rc err \<Longrightarrow> dl_step d (start_finish rc err d)"
| cancel: "dl_step d (cancel d)"

inductive_cases dl_stepE: "dl_step d d'"

abbreviation dl_steps :: "download \<Rightarrow> download \<Rightarrow> bool" where
  "dl_steps \<equiv> dl_step\<^sup>*\<^sup>*"

lemmas dl_defs = start_spawn_def start_finish_def cancel_def new_download_def

text \<open>What holds of a download at all times.\<close>

definition dl_inv :: "download \<Rightarrow> bool" where
  "dl_inv d \<longleftrightarrow>
     (dl_coroutine d = BeforeSpawn \<longleftrightarrow> dl_process d = NotSpawned) \<and>
     (dl_handle d \<longrightarrow> dl_coroutine d = Communicating) \<and>
     (\<forall>rc. dl_returncode d = Some rc \<longleftrightarrow> dl_coroutine d = Returned \<and> (\<exists>err. dl_process d = Exited rc err)) \<and>
     (dl_coroutine d = Returned \<longrightarrow> (\<exists>rc err. dl_process d = Exited rc err \<and>
        dl_error d = (if rc \<noteq> 0 then Some (strip err) else None))) \<and>
     (dl_coroutine d \<noteq> Returned \<longrightarrow> dl_error d = None) \<and>
     (\<forall>e. dl_coroutine d = Crashed e \<longrightarrow> (\<exists>rc err. dl_process d = Exited rc err))"

lemma dl_inv_new: "dl_inv (new_download total_bytes initial now)"
  by (simp add: dl_inv_def dl_defs)

lemma dl_inv_step: "dl_step d d' \<Longrightarrow> dl_inv d \<Longrightarrow> dl_inv d'"
  by (erule dl_stepE) (auto simp: dl_inv_def dl_defs)

lemma dl_inv_steps: "dl_steps d d' \<Longrightarrow> dl_inv d \<Longrightarrow> dl_inv d'"
  by (induction rule: rtranclp_induct) (auto intro: dl_inv_step)


definition abandoned :: "download \<Rightarrow> bool" where
  "abandoned d \<longleftrightarrow> \<not> dl_handle d \<and> dl_returncode d = None \<and>
     (dl_coroutine d = Communicating \<and> dl_process d \<noteq> NotSpawned \<or>
      dl_coroutine d = Crashed (AttributeError ''returncode'') \<and> (\<exists>rc err. dl_process d = Exited rc err))"

lemma abandoned_step: "dl_step d d' \<Longrightarrow> abandoned d \<Longrightarrow> abandoned d'"
  by (erule dl_stepE) (auto simp: abandoned_def dl_defs)

lemma abandoned_steps: "dl_steps d d' \<Longrightarrow> abandoned d \<Longrightarrow> abandoned d'"
  by (induction rule: rtranclp_induct) (auto intro: abandoned_step)

text \<open>
  A cancelled download never gets a result. Once \<open>cancel\<close> hit a running download, whatever happens
  later, it is neither running nor done, it does not count as cancelled and shows no error; the
  coroutine that waits for the process ends with an \<open>AttributeError\<close>, because \<open>cancel\<close> took the
  handle away from it.
\<close>

theorem cancelled_download_has_no_result:
  assumes "dl_steps (new_download total_bytes initial now) d" and "is_running d"
    and "dl_steps (cancel d) d'"
  shows "\<not> is_running d' \<and> \<not> is_done d' \<and> \<not> was_cancelled d' \<and> download_error d' = None \<and>
     (dl_coroutine d' = Communicating \<or> dl_coroutine d' = Crashed (AttributeError ''returncode''))"
proof -
  have "dl_inv d" using assms(1) dl_inv_steps dl_inv_new by blast
  then have "abandoned (cancel d)"
    using assms(2) by (auto simp: abandoned_def dl_inv_def cancel_def is_running_def)
  with assms(3) have "abandoned d'" by (rule abandoned_steps)
  then show ?thesis
    by (auto simp: abandoned_def is_running_def is_done_def was_cancelled_def download_error_def)
qed

section \<open>An example\<close>

text \<open>Two transient failures, then success; the stale marker of an earlier revision is removed.\<close>

definition sample_dir :: chute_dir where
  "sample_dir = \<lparr>cd_hub = True, cd_models = True, cd_snapshot = (\<lambda>_ _. None), cd_scan = Inr \<lparr>si_size_on_disk = 0, si_repos = []\<rparr>,
     cd_foreign = False, cd_complete = None, cd_stale = Some ''old''\<rparr>"

definition sample_fetch :: fetch where
  "sample_fetch i d = (if i = 1 then (Inl XetDownloadError, d) else if i = 2 then (Inl (HfHubHTTPError (Some 403)), d)
     else (Inr (), d\<lparr>cd_snapshot := sample_snapshot 7\<rparr>))"

theorem download_retries_bounded_witness:
  "\<exists>r ds delays. snapshot_download_with_retry sample_fetch sample_dir = (r, ds, delays) \<and>
     delays = [10, 20] \<and> sum_list delays \<le> 150"
proof -
  obtain r ds delays where run: "snapshot_download_with_retry sample_fetch sample_dir = (r, ds, delays)"
    by (metis prod_cases3)
  moreover have "snd (snd (snapshot_download_with_retry sample_fetch sample_dir)) = [10, 20]" by code_simp
  ultimately show ?thesis
    using download_retries_bounded[OF run] by auto
qed

theorem complete_marker_means_verified_witness:
  "snd (run_pipeline sample_validator sample_fetch ''o/m'' ''r1'' sample_dir) \<and>
   cd_stale (last (fst (run_pipeline sample_validator sample_fetch ''o/m'' ''r1'' sample_dir))) = None"
proof -
  have ok: "snd (run_pipeline sample_validator sample_fetch ''o/m'' ''r1'' sample_dir)" by code_simp
  have "keeps_markers sample_fetch" by (simp add: keeps_markers_def sample_fetch_def)
  from complete_marker_means_verified[OF this prod.collapse[symmetric]] ok show ?thesis by blast
qed

lemma sample_download_runs: "dl_steps (new_download None 0 0) (start_spawn (new_download None 0 0))"
  by (rule r_into_rtranclp, rule dl_step.spawn) (simp add: new_download_def)


theorem cancelled_download_has_no_result_witness:
  "\<not> is_done (cancel (start_spawn (new_download None 0 0)))"
  using cancelled_download_has_no_result[OF sample_download_runs _ rtranclp.rtrancl_refl]
  by (simp add: is_running_def start_spawn_def)

end
