(* ===== verification/Cache_Manager.thy ===== *)
theory Cache_Manager
  imports Cache_Download
begin

text \<open>
  The model cache, third part: \<open>manager.py\<close> and \<open>router.py\<close> of
  \<open>src/src/sek8s/sek8s/system_manager/cache/\<close>. \<open>HuggingFaceSnapshot\<close> is the record \<open>hf_snapshot\<close>,
  \<open>CacheManager\<close> together with the shared directory is \<open>cache_state\<close>: the tracked snapshots, the
  chute directories below the cache base and the memo of the validator's manifests. What the code asks
  of the rest of the system (validator, \<open>du\<close>, removal of trees, the \<open>huggingface_hub\<close> API that deletes
  revisions, clocks) is the record \<open>cache_env\<close>. Every operation is one function; the coroutines
  of one operation run without another one in between, but for the download process, whose
  interleavings are in \<open>Cache_Download\<close>.
\<close>

section \<open>State\<close>

type_synonym scan_result = "int \<times> string option \<times> string option \<times> rat option"

record hf_snapshot =
  hs_chute_id :: string
  hs_repo_id :: string
  hs_revision :: "string option"
  hs_externally_managed :: bool
  hs_download :: "download option"
  hs_reconciled :: bool
  hs_scan_cache :: "scan_result option"
  hs_scan_cache_at :: time

definition new_snapshot :: "string \<Rightarrow> bool \<Rightarrow> hf_snapshot" where
  "new_snapshot chute_id externally_managed =
     \<lparr>hs_chute_id = chute_id, hs_repo_id = [], hs_revision = None, hs_externally_managed = externally_managed,
      hs_download = None, hs_reconciled = False, hs_scan_cache = None, hs_scan_cache_at = 0\<rparr>"

type_synonym disk = "(string \<times> chute_dir) list"

record cache_env =
  ce_validator :: validator
  ce_monotonic :: time
  ce_time :: rat
  ce_du :: "string \<Rightarrow> int option"
  ce_base :: "string list"                   \<comment> \<open>components of the resolved cache base\<close>
  ce_base_exists :: bool
  ce_resolve :: "string \<Rightarrow> string list"      \<comment> \<open>the resolved path of a chute\<close>
  ce_other_exists :: "string \<Rightarrow> bool"        \<comment> \<open>the path of a chute exists without being a chute directory\<close>
  ce_rmtree :: "string list \<Rightarrow> int option"   \<comment> \<open>error number of \<open>shutil.rmtree\<close>\<close>
  ce_cache_rm :: "string list \<Rightarrow> int"        \<comment> \<open>exit status of the helper \<open>cache-rm\<close>\<close>
  ce_remains :: "chute_dir \<Rightarrow> chute_dir"     \<comment> \<open>what a removal that failed leaves\<close>
  ce_delete_revisions :: "chute_dir \<Rightarrow> string list \<Rightarrow> (int \<times> chute_dir) res"

record cache_state =
  cs_chutes :: "(string \<times> hf_snapshot) list"
  cs_disk :: disk
  cs_info :: info_cache
  cs_last_sync :: time

definition dir_of :: "disk \<Rightarrow> hf_snapshot \<Rightarrow> chute_dir option" where
  "dir_of disk s = map_of disk (hs_chute_id s)"

definition hub_exists :: "disk \<Rightarrow> hf_snapshot \<Rightarrow> bool" where
  "hub_exists disk s = (case dir_of disk s of Some d \<Rightarrow> cd_hub d | None \<Rightarrow> False)"

definition is_present_on_disk :: "disk \<Rightarrow> hf_snapshot \<Rightarrow> bool" where
  "is_present_on_disk disk s = (case dir_of disk s of Some d \<Rightarrow> cd_hub d \<and> cd_models d | None \<Rightarrow> False)"

definition is_in_progress :: "hf_snapshot \<Rightarrow> bool" where
  "is_in_progress s = (case hs_download s of Some dl \<Rightarrow> is_running dl | None \<Rightarrow> False)"

definition needs_reconciliation :: "disk \<Rightarrow> hf_snapshot \<Rightarrow> bool" where
  "needs_reconciliation disk s \<longleftrightarrow>
     hs_download s = None \<and> \<not> hs_reconciled s \<and> is_present_on_disk disk s"

datatype chute_status = IN_PROGRESS | PRESENT | MISSING | FAILED | INCOMPLETE | STALE

definition disk_status :: "disk \<Rightarrow> hf_snapshot \<Rightarrow> chute_status" where
  "disk_status disk s =
     (case dir_of disk s of
        None \<Rightarrow> MISSING
      | Some d \<Rightarrow>
          if cd_complete d \<noteq> None then PRESENT
          else if cd_stale d \<noteq> None then STALE
          else if cd_hub d \<and> cd_models d then INCOMPLETE
          else MISSING)"

definition status_of :: "disk \<Rightarrow> hf_snapshot \<Rightarrow> chute_status" where
  "status_of disk s =
     (case hs_download s of
        None \<Rightarrow> disk_status disk s
      | Some dl \<Rightarrow>
          if is_running dl then IN_PROGRESS
          else if is_done dl \<and> \<not> succeeded dl then FAILED
          else disk_status disk s)"

definition snapshot_error :: "hf_snapshot \<Rightarrow> string option" where
  "snapshot_error s = (case hs_download s of Some dl \<Rightarrow> download_error dl | None \<Rightarrow> None)"

section \<open>Scanning\<close>

definition scan_ttl :: "hf_snapshot \<Rightarrow> time" where
  "scan_ttl s = (if is_in_progress s then 30 else 60)"

definition scan_result_of :: "scan_info \<Rightarrow> scan_result" where
  "scan_result_of info =
     (case si_repos info of
        [] \<Rightarrow> (si_size_on_disk info, None, None, None)
      | r # rs \<Rightarrow>
          (si_size_on_disk info, Some (rs_repo_id r),
           (case rs_revisions r of [] \<Rightarrow> None | h # hs \<Rightarrow> Some h),
           Some (foldl max (rs_last_accessed r) (map rs_last_accessed rs))))"

definition scan_hub :: "cache_env \<Rightarrow> disk \<Rightarrow> hf_snapshot \<Rightarrow> hf_snapshot \<times> scan_result" where
  "scan_hub env disk s =
     (let now = ce_monotonic env; nothing = (s, (0, None, None, None)) in
      case (if now - hs_scan_cache_at s < scan_ttl s then hs_scan_cache s else None) of
        Some result \<Rightarrow> (s, result)
      | None \<Rightarrow>
          (case dir_of disk s of
             None \<Rightarrow> nothing
           | Some d \<Rightarrow>
               if \<not> cd_hub d then nothing
               else
                 (case cd_scan d of
                    Inl _ \<Rightarrow> nothing
                  | Inr info \<Rightarrow>
                      (case scan_result_of info of (n, repo_id, revision, last_acc) \<Rightarrow>
                         let n' = (if is_in_progress s
                                   then (case ce_du env (hs_chute_id s) of Some du_size \<Rightarrow> du_size | None \<Rightarrow> n)
                                   else n);
                             result = (n', repo_id, revision, last_acc)
                         in (s\<lparr>hs_scan_cache := Some result, hs_scan_cache_at := now\<rparr>, result)))))"

record chute_snapshot =
  sn_chute_id :: string
  sn_repo_id :: string
  sn_revision :: "string option"
  sn_status :: chute_status
  sn_size_bytes :: int
  sn_percent_complete :: "rat option"
  sn_download_rate :: "rat option"
  sn_eta_seconds :: "rat option"
  sn_last_accessed :: "rat option"
  sn_error :: "string option"

text \<open>Percentage, rate and remaining time of a running download of known size.\<close>

definition progress :: "time \<Rightarrow> download \<Rightarrow> int \<Rightarrow> int \<Rightarrow> rat option \<times> rat option \<times> rat option" where
  "progress now dl total_bytes n =
     (let pct = min 100 (max 0 (100 * of_int n / of_int total_bytes));
          elapsed = now - dl_started_at dl;
          downloaded = n - dl_initial_bytes dl in
      if elapsed > 0 \<and> downloaded > 0 then
        (let rate = of_int downloaded / elapsed; remaining = total_bytes - n
         in (Some pct, Some rate, Some (if remaining > 0 then of_int remaining / rate else 0)))
      else (Some pct, None, None))"

definition or_str :: "string \<Rightarrow> string option \<Rightarrow> string" where
  "or_str s t = (if s \<noteq> [] then s else case t of Some u \<Rightarrow> u | None \<Rightarrow> [])"

definition or_opt :: "string option \<Rightarrow> string option \<Rightarrow> string option" where
  "or_opt s t = (case s of Some (c # cs) \<Rightarrow> s | _ \<Rightarrow> t)"

definition take_snapshot :: "cache_env \<Rightarrow> disk \<Rightarrow> hf_snapshot \<Rightarrow> hf_snapshot \<times> chute_snapshot" where
  "take_snapshot env disk s0 =
     (case scan_hub env disk s0 of (s, n, scan_repo_id, scan_revision, last_acc) \<Rightarrow>
        let (pct, rate, eta) =
              (case hs_download s of
                 Some dl \<Rightarrow>
                   (case dl_total_bytes dl of
                      Some t \<Rightarrow> if is_in_progress s \<and> t > 0 \<and> n \<noteq> 0 then progress (ce_monotonic env) dl t n
                                else (None, None, None)
                    | None \<Rightarrow> (None, None, None))
               | None \<Rightarrow> (None, None, None))
        in (s, \<lparr>sn_chute_id = hs_chute_id s, sn_repo_id = or_str (hs_repo_id s) scan_repo_id,
                sn_revision = or_opt (hs_revision s) scan_revision, sn_status = status_of disk s,
                sn_size_bytes = n, sn_percent_complete = pct, sn_download_rate = rate,
                sn_eta_seconds = eta, sn_last_accessed = last_acc, sn_error = snapshot_error s\<rparr>))"

section \<open>Removal\<close>

definition cancel_download :: "hf_snapshot \<Rightarrow> hf_snapshot" where
  "cancel_download s = s\<lparr>hs_download := map_option cancel (hs_download s)\<rparr>"

definition path_exists :: "cache_env \<Rightarrow> disk \<Rightarrow> string \<Rightarrow> bool" where
  "path_exists env disk chute_id \<longleftrightarrow> map_of disk chute_id \<noteq> None \<or> ce_other_exists env chute_id"

text \<open>Removing a path removes the chute directory it names, if it is one.\<close>

definition remove_path :: "cache_env \<Rightarrow> string list \<Rightarrow> disk \<Rightarrow> disk" where
  "remove_path env path disk =
     (if path \<noteq> [] \<and> butlast path = ce_base env then AList.delete (last path) disk else disk)"

definition spoil_path :: "cache_env \<Rightarrow> string list \<Rightarrow> disk \<Rightarrow> disk" where
  "spoil_path env path disk =
     map (\<lambda>(name, d). (name, if path = ce_base env @ [name] then ce_remains env d else d)) disk"

definition eacces :: int where "eacces = 13"
definition eperm :: int where "eperm = 1"

text \<open>\<open>delete\<close>: the snapshot with its download cancelled, the disk, and the outcome.\<close>

definition delete :: "cache_env \<Rightarrow> disk \<Rightarrow> hf_snapshot \<Rightarrow> hf_snapshot \<times> disk \<times> unit res" where
  "delete env disk s0 =
     (let s = cancel_download s0; path = ce_resolve env (hs_chute_id s) in
      if \<not> path_exists env disk (hs_chute_id s) then (s, disk, Inr ())
      else if \<not> prefix (ce_base env) path then
        (s, disk, Inl (PermissionError ''Path is not under cache_base''))
      else if butlast path \<noteq> ce_base env then
        (s, disk, Inl (PermissionError ''Path is not a direct child of cache_base''))
      else
        (case ce_rmtree env path of
           None \<Rightarrow> (s, remove_path env path disk, Inr ())
         | Some errno \<Rightarrow>
             if errno \<noteq> eacces \<and> errno \<noteq> eperm then (s, spoil_path env path disk, Inl (OSError errno []))
             else if ce_cache_rm env path \<noteq> 0
             then (s, spoil_path env path disk, Inl (OSError errno ''Failed to delete cache dir''))
             else (s, remove_path env path disk, Inr ())))"

definition purge_stale_revisions :: "cache_env \<Rightarrow> disk \<Rightarrow> hf_snapshot \<Rightarrow> disk \<times> int" where
  "purge_stale_revisions env disk s =
     (case (dir_of disk s, hs_revision s) of
        (Some d, Some (c # cs)) \<Rightarrow>
          if \<not> cd_hub d then (disk, 0)
          else
            (case cd_scan d of
               Inl _ \<Rightarrow> (disk, 0)
             | Inr info \<Rightarrow>
                 let stale_hashes = filter (\<lambda>h. h \<noteq> c # cs) (concat (map rs_revisions (si_repos info))) in
                 if stale_hashes = [] then (disk, 0)
                 else (case ce_delete_revisions env d stale_hashes of
                         Inl _ \<Rightarrow> (disk, 0)
                       | Inr (expected, d') \<Rightarrow> (AList.update (hs_chute_id s) d' disk, expected)))
      | _ \<Rightarrow> (disk, 0))"

section \<open>Downloads\<close>

definition empty_dir :: chute_dir where
  "empty_dir = \<lparr>cd_hub = False, cd_models = False, cd_snapshot = (\<lambda>_ _. None),
     cd_scan = Inr \<lparr>si_size_on_disk = 0, si_repos = []\<rparr>, cd_foreign = False, cd_complete = None, cd_stale = None\<rparr>"

text \<open>\<open>mkdir\<close> of the chute directory and its \<open>hub\<close>, for a chute that names a direct child.\<close>

definition make_dirs :: "string \<Rightarrow> disk \<Rightarrow> disk" where
  "make_dirs chute_id disk =
     (let d = (case map_of disk chute_id of Some d \<Rightarrow> d | None \<Rightarrow> empty_dir)
      in AList.update chute_id (d\<lparr>cd_hub := True\<rparr>) disk)"

definition has_foreign_entries :: "disk \<Rightarrow> hf_snapshot \<Rightarrow> bool" where
  "has_foreign_entries disk s = (case dir_of disk s of Some d \<Rightarrow> cd_foreign d | None \<Rightarrow> True)"

definition initial_bytes :: "disk \<Rightarrow> hf_snapshot \<Rightarrow> int" where
  "initial_bytes disk s =
     (case dir_of disk s of
        Some d \<Rightarrow> (case cd_scan d of Inr info \<Rightarrow> si_size_on_disk info | Inl _ \<Rightarrow> 0)
      | None \<Rightarrow> 0)"

definition start_download ::
  "cache_env \<Rightarrow> disk \<Rightarrow> info_cache \<Rightarrow> hf_snapshot \<Rightarrow> string \<Rightarrow> string \<Rightarrow> bool
   \<Rightarrow> hf_snapshot \<times> disk \<times> info_cache \<times> unit res" where
  "start_download env disk info s0 repo_id revision force =
     (let s = s0\<lparr>hs_repo_id := repo_id, hs_revision := Some revision, hs_scan_cache := None\<rparr>;
          occupied = path_exists env disk (hs_chute_id s) \<and> has_foreign_entries disk s in
      if occupied \<and> \<not> force then
        (s, disk, info, Inl (ValueError ''Cache dir contains files owned by another process''))
      else
        (case (if occupied then delete env disk s else (s, disk, Inr ())) of
           (s1, disk1, Inl e) \<Rightarrow> (s1, disk1, info, Inl e)
         | (s1, disk1, Inr _) \<Rightarrow>
             let disk2 = make_dirs (hs_chute_id s1) disk1 in
             (case fetch_repo_total_size (ce_validator env) info repo_id revision of
                (info', Inl e) \<Rightarrow> (s1, disk2, info', Inl e)
              | (info', Inr fetched) \<Rightarrow>
                  (s1\<lparr>hs_download := Some (new_download (if fetched > 0 then Some fetched else None)
                       (initial_bytes disk2 s1) (ce_monotonic env))\<rparr>,
                   disk2, info', Inr ()))))"

section \<open>Identity and reconciliation\<close>

definition fetch_identity :: "cache_env \<Rightarrow> hf_snapshot \<Rightarrow> hf_snapshot" where
  "fetch_identity env s =
     (case fetch_hf_info (ce_validator env) (hs_chute_id s) of
        Inl _ \<Rightarrow> s
      | Inr info \<Rightarrow>
          (case hf_repo_id info of
             Some (c # cs) \<Rightarrow> s\<lparr>hs_repo_id := c # cs, hs_revision := Some (or_main (hf_revision info))\<rparr>
           | _ \<Rightarrow> s))"

text \<open>What a failed verification means: files missing, no manifest, or files that differ.\<close>

datatype mismatch = Incomplete | Skipped | Differs

definition classify_mismatch :: "string \<Rightarrow> mismatch" where
  "classify_mismatch error_msg =
     (if contains error_msg ''Missing file'' \<or> contains error_msg ''not found'' then Incomplete
      else if contains error_msg ''verification failed'' then Skipped
      else Differs)"

text \<open>\<open>except ValueError\<close> also catches what the JSON parser raises.\<close>

definition value_error :: "exn \<Rightarrow> string option" where
  "value_error e = (case e of ValueError m \<Rightarrow> Some m | JSONDecodeError \<Rightarrow> Some (exn_str e) | _ \<Rightarrow> None)"

definition apply_verification ::
  "string \<Rightarrow> string \<Rightarrow> verification res \<Rightarrow> hf_snapshot \<Rightarrow> chute_dir \<Rightarrow> hf_snapshot \<times> chute_dir" where
  "apply_verification repo_id revision outcome s d =
     (case outcome of
        Inr _ \<Rightarrow> (s\<lparr>hs_reconciled := True\<rparr>, d\<lparr>cd_complete := Some (marker_text repo_id revision)\<rparr>)
      | Inl e \<Rightarrow>
          (case value_error e of
             None \<Rightarrow> (s, d)
           | Some error_msg \<Rightarrow>
               (case classify_mismatch error_msg of
                  Incomplete \<Rightarrow> (s, d)
                | Skipped \<Rightarrow> (s, d)
                | Differs \<Rightarrow> (s\<lparr>hs_reconciled := True\<rparr>,
                    d\<lparr>cd_stale := Some (marker_text repo_id revision @ newline # error_msg)\<rparr>))))"

definition reconcile ::
  "cache_env \<Rightarrow> disk \<Rightarrow> info_cache \<Rightarrow> hf_snapshot \<Rightarrow> hf_snapshot \<times> disk \<times> info_cache" where
  "reconcile env disk info s =
     (case dir_of disk s of
        None \<Rightarrow> (s\<lparr>hs_reconciled := True\<rparr>, disk, info)
      | Some d \<Rightarrow>
          if \<not> is_present_on_disk disk s then (s\<lparr>hs_reconciled := True\<rparr>, disk, info)
          else
            (case fetch_hf_info (ce_validator env) (hs_chute_id s) of
               Inl _ \<Rightarrow> (s, disk, info)
             | Inr hf \<Rightarrow>
                 (case hf_repo_id hf of
                    Some (c # cs) \<Rightarrow>
                      let repo_id = c # cs; revision = or_main (hf_revision hf);
                          s1 = s\<lparr>hs_repo_id := repo_id, hs_revision := Some revision\<rparr>;
                          d1 = d\<lparr>cd_complete := None, cd_stale := None\<rparr> in
                      (case verify_cache (ce_validator env) info (cd_snapshot d1) repo_id revision of
                         (info', outcome) \<Rightarrow>
                           (case apply_verification repo_id revision outcome s1 d1 of
                              (s2, d2) \<Rightarrow> (s2, AList.update (hs_chute_id s) d2 disk, info')))
                  | _ \<Rightarrow> (s, disk, info))))"

section \<open>CacheManager\<close>

definition new_manager :: "disk \<Rightarrow> cache_state" where
  "new_manager disk = \<lparr>cs_chutes = [], cs_disk = disk, cs_info = [], cs_last_sync = 0\<rparr>"

text \<open>Chute directories have names of 36 characters; the base holds other things, too.\<close>

definition has_model :: "string \<Rightarrow> chute_dir \<Rightarrow> bool" where
  "has_model name d \<longleftrightarrow> length name = 36 \<and> cd_hub d \<and> cd_models d"

definition put_chute :: "hf_snapshot \<Rightarrow> cache_state \<Rightarrow> cache_state" where
  "put_chute s st = st\<lparr>cs_chutes := AList.update (hs_chute_id s) s (cs_chutes st)\<rparr>"

definition reconcile_chute :: "cache_env \<Rightarrow> hf_snapshot \<Rightarrow> cache_state \<Rightarrow> cache_state" where
  "reconcile_chute env s st =
     (case reconcile env (cs_disk st) (cs_info st) s of (s', disk', info') \<Rightarrow>
        put_chute s' (st\<lparr>cs_disk := disk', cs_info := info'\<rparr>))"

definition initialize :: "cache_env \<Rightarrow> cache_state \<Rightarrow> cache_state" where
  "initialize env st =
     (if \<not> ce_base_exists env then st
      else fold (\<lambda>(name, d) st. reconcile_chute env (new_snapshot name False) st)
             (filter (\<lambda>(name, d). has_model name d) (cs_disk st)) st)"

definition discover_new_entries :: "cache_state \<Rightarrow> hf_snapshot list" where
  "discover_new_entries st =
     map (\<lambda>(name, d). new_snapshot name True)
       (filter (\<lambda>(name, d). name \<notin> fst ` set (cs_chutes st) \<and> has_model name d) (cs_disk st))"

definition add_discovered :: "cache_env \<Rightarrow> hf_snapshot \<Rightarrow> cache_state \<Rightarrow> cache_state" where
  "add_discovered env s st =
     (if map_of (cs_chutes st) (hs_chute_id s) = None then put_chute (fetch_identity env s) st else st)"

definition reconcile_pending :: "cache_env \<Rightarrow> cache_state \<Rightarrow> cache_state" where
  "reconcile_pending env st =
     fold (reconcile_chute env) (filter (needs_reconciliation (cs_disk st)) (map snd (cs_chutes st))) st"

definition sync_cooldown :: time where "sync_cooldown = 5"

definition sync_from_disk :: "cache_env \<Rightarrow> cache_state \<Rightarrow> cache_state" where
  "sync_from_disk env st =
     (if ce_monotonic env - cs_last_sync st < sync_cooldown then st
      else
        let st1 = st\<lparr>cs_last_sync := ce_monotonic env\<rparr> in
        if \<not> ce_base_exists env then st1
        else reconcile_pending env (fold (add_discovered env) (discover_new_entries st1) st1))"

definition get :: "cache_env \<Rightarrow> string \<Rightarrow> cache_state \<Rightarrow> cache_state \<times> hf_snapshot option" where
  "get env chute_id st = (let st1 = sync_from_disk env st in (st1, map_of (cs_chutes st1) chute_id))"

definition get_or_create :: "cache_env \<Rightarrow> string \<Rightarrow> cache_state \<Rightarrow> cache_state \<times> hf_snapshot" where
  "get_or_create env chute_id st =
     (let st1 = sync_from_disk env st in
      case map_of (cs_chutes st1) chute_id of
        Some s \<Rightarrow> (st1, s)
      | None \<Rightarrow> (put_chute (new_snapshot chute_id False) st1, new_snapshot chute_id False))"

fun snapshots_of :: "cache_env \<Rightarrow> hf_snapshot list \<Rightarrow> cache_state \<Rightarrow> cache_state \<times> chute_snapshot list" where
  "snapshots_of env [] st = (st, [])"
| "snapshots_of env (s # ss) st =
     (case take_snapshot env (cs_disk st) s of (s', sn) \<Rightarrow>
      case snapshots_of env ss (put_chute s' st) of (st', sns) \<Rightarrow> (st', sn # sns))"

definition all_snapshots :: "cache_env \<Rightarrow> cache_state \<Rightarrow> cache_state \<times> chute_snapshot list" where
  "all_snapshots env st =
     (let st1 = sync_from_disk env st in snapshots_of env (map snd (cs_chutes st1)) st1)"

text \<open>Popping a chute from the dictionary and deleting its directory.\<close>

definition pop_and_delete :: "cache_env \<Rightarrow> hf_snapshot \<Rightarrow> cache_state \<Rightarrow> cache_state \<times> unit res" where
  "pop_and_delete env s st =
     (case delete env (cs_disk st) s of (s', disk', r) \<Rightarrow>
        (st\<lparr>cs_chutes := AList.delete (hs_chute_id s) (cs_chutes st), cs_disk := disk'\<rparr>, r))"

definition remove :: "cache_env \<Rightarrow> string \<Rightarrow> cache_state \<Rightarrow> cache_state \<times> bool res" where
  "remove env chute_id st =
     (let st1 = sync_from_disk env st in
      case map_of (cs_chutes st1) chute_id of
        None \<Rightarrow> (st1, Inr False)
      | Some s \<Rightarrow> (case pop_and_delete env s st1 of (st2, r) \<Rightarrow> (st2, bindR r (\<lambda>_. Inr True))))"

fun is_os_error :: "exn \<Rightarrow> bool" where
  "is_os_error (OSError n m) = True"
| "is_os_error (PermissionError m) = True"
| "is_os_error (ConnectError m) = True"
| "is_os_error TimeoutError = True"
| "is_os_error _ = False"

definition cancel_chute :: "cache_env \<Rightarrow> string \<Rightarrow> bool \<Rightarrow> cache_state \<Rightarrow> cache_state \<times> unit res" where
  "cancel_chute env chute_id cleanup st =
     (let st1 = sync_from_disk env st in
      case map_of (cs_chutes st1) chute_id of
        None \<Rightarrow> (st1, Inl (KeyError chute_id))
      | Some s \<Rightarrow>
          if \<not> is_in_progress s then
            (st1, Inl (ValueError (''No download in progress for chute_id='' @ chute_id)))
          else
            let s1 = cancel_download s in
            if \<not> cleanup then (put_chute s1 st1, Inr ())
            else (case pop_and_delete env s1 st1 of
                    (st2, Inl e) \<Rightarrow> (st2, if is_os_error e then Inr () else Inl e)
                  | (st2, Inr _) \<Rightarrow> (st2, Inr ())))"

subsection \<open>Cleanup\<close>

record candidate =
  ca_chute :: hf_snapshot
  ca_size :: int
  ca_last_accessed :: rat

fun scan_all :: "cache_env \<Rightarrow> hf_snapshot list \<Rightarrow> cache_state \<Rightarrow> cache_state \<times> (hf_snapshot \<times> scan_result) list" where
  "scan_all env [] st = (st, [])"
| "scan_all env (s # ss) st =
     (case scan_hub env (cs_disk st) s of (s', r) \<Rightarrow>
      case scan_all env ss (put_chute s' st) of (st', rs) \<Rightarrow> (st', (s', r) # rs))"

definition excluded :: "string option \<Rightarrow> string option \<Rightarrow> bool" where
  "excluded exclude_pattern scan_repo_id =
     (case (exclude_pattern, scan_repo_id) of
        (Some (c # cs), Some (r # rs)) \<Rightarrow> contains (lower (r # rs)) (lower (c # cs))
      | _ \<Rightarrow> False)"

definition candidates_of :: "string option \<Rightarrow> (hf_snapshot \<times> scan_result) list \<Rightarrow> candidate list" where
  "candidates_of exclude_pattern scanned =
     concat (map (\<lambda>(s, n, scan_repo_id, revision, last_acc).
       if n = 0 \<or> excluded exclude_pattern scan_repo_id then []
       else [\<lparr>ca_chute = s, ca_size = n, ca_last_accessed = (case last_acc of Some t \<Rightarrow> t | None \<Rightarrow> 0)\<rparr>]) scanned)"

text \<open>
  Both loops remove candidates one by one and end with the first deletion that raises. The second
  stops as soon as the total is within the budget.
\<close>

fun remove_each :: "cache_env \<Rightarrow> candidate list \<Rightarrow> cache_state \<Rightarrow> cache_state \<times> unit res" where
  "remove_each env [] st = (st, Inr ())"
| "remove_each env (c # cs) st =
     (case pop_and_delete env (ca_chute c) st of
        (st1, Inl e) \<Rightarrow> (st1, Inl e)
      | (st1, Inr _) \<Rightarrow> remove_each env cs st1)"

fun to_shed :: "int \<Rightarrow> int \<Rightarrow> candidate list \<Rightarrow> candidate list" where
  "to_shed budget total_now [] = []"
| "to_shed budget total_now (c # cs) =
     (if total_now \<le> budget then [] else c # to_shed budget (total_now - ca_size c) cs)"

definition largest_first :: "candidate list \<Rightarrow> candidate list" where
  "largest_first cs = sort_key (\<lambda>c. - ca_size c) cs"

record cleanup_result =
  cr_freed_bytes :: int
  cr_removed_chutes :: "string list"
  cr_purged_bytes :: int

fun purge_each :: "cache_env \<Rightarrow> hf_snapshot list \<Rightarrow> cache_state \<Rightarrow> cache_state \<times> int" where
  "purge_each env [] st = (st, 0)"
| "purge_each env (s # ss) st =
     (case purge_stale_revisions env (cs_disk st) s of (disk', n) \<Rightarrow>
      case purge_each env ss (st\<lparr>cs_disk := disk'\<rparr>) of (st', m) \<Rightarrow> (st', n + m))"

definition ca_id :: "candidate \<Rightarrow> string" where
  "ca_id c = hs_chute_id (ca_chute c)"

definition cleanup_candidates ::
  "cache_env \<Rightarrow> string option \<Rightarrow> cache_state \<Rightarrow> cache_state \<times> candidate list" where
  "cleanup_candidates env exclude_pattern st =
     (let st1 = sync_from_disk env st in
      case scan_all env (filter (\<lambda>s. \<not> is_in_progress s) (map snd (cs_chutes st1))) st1 of
        (st2, scanned) \<Rightarrow> (st2, candidates_of exclude_pattern scanned))"

definition cutoff_time :: "cache_env \<Rightarrow> int \<Rightarrow> rat" where
  "cutoff_time env max_age_days = ce_time env - of_int (max_age_days * 24 * 3600)"

definition max_size_bytes :: "int \<Rightarrow> int" where
  "max_size_bytes max_size_gb = max_size_gb * 1024 * 1024 * 1024"

text \<open>What the two loops remove, and what is left.\<close>

definition cleanup_plan ::
  "rat \<Rightarrow> int \<Rightarrow> candidate list \<Rightarrow> candidate list \<times> candidate list \<times> candidate list" where
  "cleanup_plan cutoff budget candidates =
     (let old = filter (\<lambda>c. ca_last_accessed c < cutoff) candidates;
          rest = filter (\<lambda>c. ca_id c \<notin> ca_id ` set old) candidates;
          total_now = sum_list (map ca_size rest);
          ordered = (if total_now > budget then largest_first rest else rest);
          big = to_shed budget total_now ordered
      in (old, big, filter (\<lambda>c. ca_id c \<notin> ca_id ` set (old @ big)) ordered))"

definition cleanup ::
  "cache_env \<Rightarrow> int \<Rightarrow> int \<Rightarrow> string option \<Rightarrow> cache_state \<Rightarrow> cache_state \<times> cleanup_result res" where
  "cleanup env max_age_days max_size_gb exclude_pattern st =
     (case cleanup_candidates env exclude_pattern st of (st1, candidates) \<Rightarrow>
      case cleanup_plan (cutoff_time env max_age_days) (max_size_bytes max_size_gb) candidates of
        (old, big, surviving) \<Rightarrow>
          (case remove_each env old st1 of
             (st2, Inl e) \<Rightarrow> (st2, Inl e)
           | (st2, Inr _) \<Rightarrow>
               (case remove_each env big st2 of
                  (st3, Inl e) \<Rightarrow> (st3, Inl e)
                | (st3, Inr _) \<Rightarrow>
                    (case purge_each env (map ca_chute surviving) st3 of (st4, purged) \<Rightarrow>
                       (st4, Inr \<lparr>cr_freed_bytes = sum_list (map ca_size (old @ big)),
                                  cr_removed_chutes = map ca_id (old @ big), cr_purged_bytes = purged\<rparr>)))))"

definition purge_stale :: "cache_env \<Rightarrow> cache_state \<Rightarrow> cache_state \<times> int" where
  "purge_stale env st =
     (let st1 = sync_from_disk env st in
      purge_each env (filter (\<lambda>s. \<not> is_in_progress s) (map snd (cs_chutes st1))) st1)"

end
