(* ===== verification/Uuid_Text.thy ===== *)
theory Uuid_Text
  imports Sek8s_Prelude
begin

text \<open>
  What \<open>uuid.UUID\<close> accepts and how it prints: the check of chute identifiers in the cache routes and the form
  of GPU identifiers in the attestation service. \<open>remove_all\<close> is \<open>str.replace\<close> with nothing.
\<close>

text \<open>\<open>s.replace(p, '')\<close> for a non-empty \<open>p\<close>.\<close>

function (sequential) remove_all :: "string \<Rightarrow> string \<Rightarrow> string" where
  "remove_all p [] = []"
| "remove_all p (c # cs) =
     (if p \<noteq> [] \<and> startswith (c # cs) p then remove_all p (drop (length p) (c # cs)) else c # remove_all p cs)"
  by pat_completeness auto
termination
  by (relation "measure (length \<circ> snd)") (auto simp: Suc_le_eq)

definition strip_chars :: "string \<Rightarrow> string \<Rightarrow> string" where
  "strip_chars cs s = rev (dropWhile (\<lambda>c. c \<in> set cs) (rev (dropWhile (\<lambda>c. c \<in> set cs) s)))"

definition hex_char :: "char \<Rightarrow> bool" where
  "hex_char c \<longleftrightarrow> c \<in> set ''0123456789abcdefABCDEF''"

text \<open>Digits of base 16, single underscores between them.\<close>

fun hex_groups :: "string \<Rightarrow> bool" where
  "hex_groups [] = False"
| "hex_groups [c] = hex_char c"
| "hex_groups (c # d # cs) =
     (hex_char c \<and> (if d = CHR ''_'' then hex_groups cs else hex_groups (d # cs)))"

text \<open>Whether \<open>int(s, 16)\<close> returns: white space, a sign, a prefix \<open>0x\<close>, digits.\<close>

definition drop_sign :: "string \<Rightarrow> string" where
  "drop_sign s = (case s of c # cs \<Rightarrow> if c = CHR ''+'' \<or> c = CHR ''-'' then cs else s | [] \<Rightarrow> [])"

definition drop_0x :: "string \<Rightarrow> string" where
  "drop_0x s =
     (case s of
        z # x # cs \<Rightarrow>
          if z = CHR ''0'' \<and> (x = CHR ''x'' \<or> x = CHR ''X'')
          then (case cs of u # us \<Rightarrow> if u = CHR ''_'' then us else cs | [] \<Rightarrow> [])
          else s
      | _ \<Rightarrow> s)"

definition int16_ok :: "string \<Rightarrow> bool" where
  "int16_ok s = hex_groups (drop_0x (drop_sign (strip s)))"

definition valid_uuid :: "string \<Rightarrow> bool" where
  "valid_uuid s =
     (let t = remove_all ''-'' (strip_chars ''{}'' (remove_all ''uuid:'' (remove_all ''urn:'' s)))
      in length t = 32 \<and> int16_ok t)"

text \<open>\<open>str(uuid.UUID(s))\<close>: the number in 32 hexadecimal digits, in groups.\<close>

definition hex_char_value :: "char \<Rightarrow> nat" where
  "hex_char_value c =
     (let n = nat (of_char c :: int) in if n \<le> 57 then n - 48 else if n \<le> 70 then n - 55 else n - 87)"

definition hex_number :: "string \<Rightarrow> nat" where
  "hex_number s = fold (\<lambda>c n. 16 * n + hex_char_value c) (filter (\<lambda>c. c \<noteq> CHR ''_'') s) 0"

fun hex_text :: "nat \<Rightarrow> nat \<Rightarrow> string" where
  "hex_text 0 n = []"
| "hex_text (Suc k) n = hex_text k (n div 16) @ [''0123456789abcdef'' ! (n mod 16)]"

definition grouped :: "string \<Rightarrow> string" where
  "grouped h = join_with ''-'' [take 8 h, take 4 (drop 8 h), take 4 (drop 12 h), take 4 (drop 16 h), drop 20 h]"

definition canonical_uuid :: "string \<Rightarrow> string res" where
  "canonical_uuid s =
     (if valid_uuid s then
        Inr (grouped (hex_text 32 (hex_number (drop_0x (drop_sign (strip
          (remove_all ''-'' (strip_chars ''{}'' (remove_all ''uuid:'' (remove_all ''urn:'' s))))))))))
      else Inl (ValueError ''badly formed hexadecimal UUID string''))"

end
