(* ===== verification/Cache_Router.thy ===== *)
theory Cache_Router
  imports Cache_Manager Uuid_Text
begin

text \<open>
  The HTTP routes of the model cache, \<open>router.py\<close> of \<open>src/src/sek8s/sek8s/system_manager/cache/\<close>: each
  handler on the state of the manager, errors as \<open>HTTPException\<close>. \<open>valid_uuid\<close> is what
  \<open>uuid.UUID\<close> accepts. Authorization is the subject of theory \<open>Auth\<close>.
\<close>

section \<open>Chute identifiers\<close>

definition validate_chute_id :: "string \<Rightarrow> string res" where
  "validate_chute_id chute_id =
     (if valid_uuid chute_id then Inr chute_id
      else Inl (HTTPException 400 ''chute_id must be a valid UUID''))"

section \<open>Routes\<close>

datatype download_status = STARTED | DL_PRESENT | DL_IN_PROGRESS | DL_FAILED | CANCELLED

definition download_route ::
  "cache_env \<Rightarrow> string \<Rightarrow> bool \<Rightarrow> cache_state \<Rightarrow> cache_state \<times> download_status res" where
  "download_route env raw_id force st =
     (case validate_chute_id raw_id of
        Inl e \<Rightarrow> (st, Inl e)
      | Inr chute_id \<Rightarrow>
          (case get_or_create env chute_id st of
             (st1, s) \<Rightarrow>
               if is_in_progress s then (st1, Inr DL_IN_PROGRESS)
               else if status_of (cs_disk st1) s = PRESENT \<and> \<not> force then (st1, Inr DL_PRESENT)
               else
                 (case fetch_hf_info (ce_validator env) chute_id of
                    Inl e \<Rightarrow> (st1, Inl e)
                  | Inr info \<Rightarrow>
                      (case hf_repo_id info of
                         Some (c # cs) \<Rightarrow>
                           (case start_download env (cs_disk st1) (cs_info st1) s (c # cs)
                                   (or_main (hf_revision info)) force of
                              (s', disk', info', r) \<Rightarrow>
                                (put_chute s' (st1\<lparr>cs_disk := disk', cs_info := info'\<rparr>),
                                 (case r of
                                    Inr _ \<Rightarrow> Inr STARTED
                                  | Inl e \<Rightarrow>
                                      (case value_error e of
                                         Some m \<Rightarrow> Inl (HTTPException 409 m)
                                       | None \<Rightarrow> Inl e))))
                       | _ \<Rightarrow> (st1, Inl (HTTPException 502 ''Validator did not return repo_id''))))))"

text \<open>What the client sees of a snapshot: an empty repository name or size is left out.\<close>

record chute_view =
  cv_chute_id :: string
  cv_status :: chute_status
  cv_percent_complete :: "rat option"
  cv_download_rate :: "rat option"
  cv_eta_seconds :: "rat option"
  cv_repo_id :: "string option"
  cv_revision :: "string option"
  cv_size_bytes :: "int option"
  cv_error :: "string option"

definition snap_to_status :: "chute_snapshot \<Rightarrow> chute_view" where
  "snap_to_status sn =
     \<lparr>cv_chute_id = sn_chute_id sn, cv_status = sn_status sn, cv_percent_complete = sn_percent_complete sn,
      cv_download_rate = sn_download_rate sn, cv_eta_seconds = sn_eta_seconds sn,
      cv_repo_id = (if sn_repo_id sn = [] then None else Some (sn_repo_id sn)), cv_revision = sn_revision sn,
      cv_size_bytes = (if sn_size_bytes sn = 0 then None else Some (sn_size_bytes sn)), cv_error = sn_error sn\<rparr>"

definition missing_view :: "string \<Rightarrow> chute_view" where
  "missing_view chute_id =
     \<lparr>cv_chute_id = chute_id, cv_status = MISSING, cv_percent_complete = None, cv_download_rate = None,
      cv_eta_seconds = None, cv_repo_id = None, cv_revision = None, cv_size_bytes = None, cv_error = None\<rparr>"

definition status_route ::
  "cache_env \<Rightarrow> string option \<Rightarrow> cache_state \<Rightarrow> cache_state \<times> chute_view list" where
  "status_route env chute_id st =
     (case chute_id of
        Some (c # cs) \<Rightarrow>
          (case get env (c # cs) st of
             (st1, None) \<Rightarrow> (st1, [missing_view (c # cs)])
           | (st1, Some s) \<Rightarrow>
               (case take_snapshot env (cs_disk st1) s of (s', sn) \<Rightarrow> (put_chute s' st1, [snap_to_status sn])))
      | _ \<Rightarrow> (case all_snapshots env st of (st1, sns) \<Rightarrow> (st1, map snap_to_status sns)))"

definition delete_route :: "cache_env \<Rightarrow> string \<Rightarrow> bool \<Rightarrow> cache_state \<Rightarrow> cache_state \<times> string res" where
  "delete_route env chute_id force st =
     (case validate_chute_id chute_id of
        Inl e \<Rightarrow> (st, Inl e)
      | Inr _ \<Rightarrow>
          (case get env chute_id st of
             (st1, None) \<Rightarrow> (st1, Inr ''not found'')
           | (st1, Some s) \<Rightarrow>
               if is_in_progress s \<and> \<not> force
               then (st1, Inl (HTTPException 409 ''Download in progress for this chute''))
               else (case remove env chute_id st1 of (st2, r) \<Rightarrow> (st2, bindR r (\<lambda>_. Inr ''deleted'')))))"

definition cancel_route :: "cache_env \<Rightarrow> string \<Rightarrow> bool \<Rightarrow> cache_state \<Rightarrow> cache_state \<times> download_status res" where
  "cancel_route env chute_id cleanup_files st =
     (case validate_chute_id chute_id of
        Inl e \<Rightarrow> (st, Inl e)
      | Inr _ \<Rightarrow>
          (case cancel_chute env chute_id cleanup_files st of
             (st1, Inr _) \<Rightarrow> (st1, Inr CANCELLED)
           | (st1, Inl e) \<Rightarrow>
               (st1, Inl (case e of
                            KeyError _ \<Rightarrow> HTTPException 404 ''Chute not found''
                          | ValueError m \<Rightarrow> HTTPException 409 m
                          | _ \<Rightarrow> e))))"

record overview_entry =
  ov_chute_id :: string
  ov_repo_id :: string
  ov_revision :: "string option"
  ov_size_bytes :: int
  ov_last_accessed :: "rat option"
  ov_status :: chute_status

definition snap_to_overview :: "chute_snapshot \<Rightarrow> overview_entry" where
  "snap_to_overview sn =
     \<lparr>ov_chute_id = sn_chute_id sn, ov_repo_id = sn_repo_id sn, ov_revision = sn_revision sn,
      ov_size_bytes = sn_size_bytes sn, ov_last_accessed = sn_last_accessed sn, ov_status = sn_status sn\<rparr>"

definition overview_route :: "cache_env \<Rightarrow> cache_state \<Rightarrow> cache_state \<times> int \<times> overview_entry list" where
  "overview_route env st =
     (case all_snapshots env st of (st1, sns) \<Rightarrow>
        let entries = map snap_to_overview sns in (st1, sum_list (map ov_size_bytes entries), entries))"

definition purge_route :: "cache_env \<Rightarrow> cache_state \<Rightarrow> cache_state \<times> int" where
  "purge_route env st = purge_stale env st"

text \<open>The settings of \<open>POST /cleanup\<close>: those of the body, if there is one, else of the query.\<close>

definition cleanup_route ::
  "cache_env \<Rightarrow> (int \<times> int \<times> string option) option \<Rightarrow> int \<Rightarrow> int \<Rightarrow> string option
   \<Rightarrow> cache_state \<Rightarrow> cache_state \<times> cleanup_result res" where
  "cleanup_route env body max_age_days max_size_gb env_exclude st =
     (case body of
        Some (age, gb, exclude) \<Rightarrow> cleanup env age gb (or_opt exclude env_exclude) st
      | None \<Rightarrow> cleanup env max_age_days max_size_gb env_exclude st)"

end
