(* ===== verification/Cache_Safety.thy ===== *)
theory Cache_Safety
  imports Cache_Router "HOL-Library.Multiset"
begin

text \<open>
  What the model cache guarantees: identifiers that pass validation name direct children of the cache
  base, deletion is confined to one of them, reconciliation sets markers only by the verdict of the
  verification, a request without \<open>force\<close> discards nothing, and a cleanup meets its budget. The
  locale \<open>chute_transformer\<close> is the contract of the functions the manager folds over its chutes: they
  keep the invariant that every chute is tracked once, under its own identifier.
\<close>

section \<open>Identifiers\<close>

lemma remove_all_keeps: "c \<in> set s \<Longrightarrow> c \<notin> set p \<Longrightarrow> c \<in> set (remove_all p s)"
proof (induction p s rule: remove_all.induct)
  case (2 p x xs)
  show ?case
  proof (cases "p \<noteq> [] \<and> startswith (x # xs) p")
    case True
    then obtain r where r: "x # xs = p @ r" by (auto simp: prefix_def)
    then have "c \<in> set (drop (length p) (x # xs))" using 2(3,4) by auto
    with 2 True show ?thesis by simp
  qed (use 2 in auto)
qed simp

lemma dropWhile_keeps: "c \<in> set s \<Longrightarrow> \<not> P c \<Longrightarrow> c \<in> set (dropWhile P s)"
  by (induction s) auto

lemma strip_chars_keeps: "c \<in> set s \<Longrightarrow> c \<notin> set cs \<Longrightarrow> c \<in> set (strip_chars cs s)"
  unfolding strip_chars_def set_rev by (intro dropWhile_keeps) (auto intro: dropWhile_keeps)

lemma strip_keeps: "c \<in> set s \<Longrightarrow> \<not> is_space c \<Longrightarrow> c \<in> set (strip s)"
  unfolding strip_def set_rev by (intro dropWhile_keeps) (auto intro: dropWhile_keeps)

lemma hex_groups_chars: "hex_groups s \<Longrightarrow> c \<in> set s \<Longrightarrow> hex_char c \<or> c = CHR ''_''"
  by (induction s rule: hex_groups.induct) (auto split: if_splits)

lemma drop_sign_keeps: "c \<in> set t \<Longrightarrow> c \<noteq> CHR ''+'' \<Longrightarrow> c \<noteq> CHR ''-'' \<Longrightarrow> c \<in> set (drop_sign t)"
  by (cases t) (auto simp: drop_sign_def)

lemma drop_0x_keeps:
  assumes "c \<in> set t" "c \<noteq> CHR ''0''" "c \<noteq> CHR ''x''" "c \<noteq> CHR ''X''" "c \<noteq> CHR ''_''"
  shows "c \<in> set (drop_0x t)"
proof (cases "\<exists>z x cs. t = z # x # cs")
  case True
  then obtain z x cs where t: "t = z # x # cs" by blast
  show ?thesis using assms unfolding t drop_0x_def by (cases cs) auto
next
  case False
  then have "drop_0x t = t" by (auto simp: drop_0x_def split: list.splits)
  with assms show ?thesis by simp
qed

lemma int16_ok_chars:
  assumes "int16_ok s" "c \<in> set s"
  shows "hex_char c \<or> is_space c \<or> c \<in> set ''_+-xX''"
proof (rule ccontr)
  assume n: "\<not> ?thesis"
  then have sign: "c \<noteq> CHR ''+''" "c \<noteq> CHR ''-''" and x: "c \<noteq> CHR ''x''" "c \<noteq> CHR ''X''" "c \<noteq> CHR ''_''"
    by simp_all
  have zero: "c \<noteq> CHR ''0''"
  proof
    assume "c = CHR ''0''"
    with n show False by (simp add: hex_char_def)
  qed
  have "c \<in> set (strip s)" using assms(2) n strip_keeps by blast
  then have "c \<in> set (drop_sign (strip s))" using sign by (rule drop_sign_keeps)
  then have "c \<in> set (drop_0x (drop_sign (strip s)))"
    using zero x by (rule drop_0x_keeps)
  with assms(1) have "hex_char c \<or> c = CHR ''_''" unfolding int16_ok_def by (rule hex_groups_chars)
  with n x show False by blast
qed

lemma valid_uuid_chars:
  assumes "valid_uuid s" "c \<in> set s"
  shows "hex_char c \<or> is_space c \<or> c \<in> set ''_+-xX{}urnid:''"
proof (rule ccontr)
  assume n: "\<not> ?thesis"
  let ?t = "remove_all ''-'' (strip_chars ''{}'' (remove_all ''uuid:'' (remove_all ''urn:'' s)))"
  have "c \<in> set ?t"
    using n assms(2) by (intro remove_all_keeps strip_chars_keeps) auto
  moreover have "int16_ok ?t" using assms(1) by (simp add: valid_uuid_def Let_def)
  ultimately show False using int16_ok_chars n by fastforce
qed

text \<open>
  An identifier that passes the validation of the routes names a direct child of the cache base:
  it is not empty and holds neither a slash nor a dot, so it cannot climb out of the base, name the
  base itself or a nested path.
\<close>

theorem validated_ids_stay_in_cache:
  assumes "validate_chute_id raw = Inr chute_id"
  shows "chute_id = raw \<and> CHR ''/'' \<notin> set chute_id \<and> CHR ''.'' \<notin> set chute_id \<and> path_parts chute_id = [chute_id]"
proof -
  have v: "valid_uuid raw" "chute_id = raw"
    using assms by (auto simp: validate_chute_id_def split: if_splits)
  have "\<not> is_space (CHR ''/'')" "\<not> is_space (CHR ''.'')" by code_simp+
  then have c: "CHR ''/'' \<notin> set raw" "CHR ''.'' \<notin> set raw"
    using valid_uuid_chars[OF v(1)] by (auto simp: hex_char_def)
  have "raw \<noteq> []" using v(1) by (auto simp: valid_uuid_def strip_chars_def)
  moreover have "raw \<noteq> ''.''" using c by auto
  ultimately show ?thesis using v c by (simp add: path_parts_def)
qed

section \<open>Deletion\<close>

lemma map_of_spoil:
  "map_of (spoil_path env path disk) name =
     (if path = ce_base env @ [name] then map_option (ce_remains env) (map_of disk name) else map_of disk name)"
  by (induction disk) (auto simp: spoil_path_def)

text \<open>
  Deletion is confined. Whatever the identifier of the snapshot and however its path resolves,
  removing it leaves every directory but the one it resolves to as it was, and only a direct child of
  the cache base is ever removed: any other path that exists is refused with a \<open>PermissionError\<close>.
\<close>

theorem deletion_confined:
  assumes "delete env disk s = (s', disk', r)" and "ce_base env \<noteq> []"
  shows "(\<forall>name. ce_resolve env (hs_chute_id s) \<noteq> ce_base env @ [name] \<longrightarrow> map_of disk' name = map_of disk name) \<and>
     (r = Inr () \<and> path_exists env disk (hs_chute_id s) \<longrightarrow>
        (\<exists>name. ce_resolve env (hs_chute_id s) = ce_base env @ [name] \<and> map_of disk' name = None)) \<and>
     ((\<nexists>name. ce_resolve env (hs_chute_id s) = ce_base env @ [name]) \<and> path_exists env disk (hs_chute_id s) \<longrightarrow>
        disk' = disk \<and> (\<exists>m. r = Inl (PermissionError m)))"
proof -
  let ?path = "ce_resolve env (hs_chute_id s)"
  have child: "(\<exists>name. ?path = ce_base env @ [name]) \<longleftrightarrow> prefix (ce_base env) ?path \<and> butlast ?path = ce_base env"
  proof
    assume "prefix (ce_base env) ?path \<and> butlast ?path = ce_base env"
    moreover from this assms(2) have "?path \<noteq> []" by auto
    ultimately show "\<exists>name. ?path = ce_base env @ [name]" by (metis append_butlast_last_id)
  qed auto
  have id: "hs_chute_id (cancel_download s) = hs_chute_id s" by (simp add: cancel_download_def)
  show ?thesis
  proof (cases "path_exists env disk (hs_chute_id s) \<and> (\<exists>name. ?path = ce_base env @ [name])")
    case True
    then obtain name where n: "?path = ce_base env @ [name]" by blast
    show ?thesis
      using assms True n
      by (auto simp: delete_def Let_def id remove_path_def map_of_spoil delete_conv split: option.splits if_splits)
  next
    case False
    then have "disk' = disk \<and> (path_exists env disk (hs_chute_id s) \<longrightarrow> (\<exists>m. r = Inl (PermissionError m)))"
      using assms(1) child by (auto simp: delete_def Let_def id split: if_splits)
    with False show ?thesis by auto
  qed
qed

section \<open>The chutes a manager tracks\<close>

definition tracked :: "cache_state \<Rightarrow> bool" where
  "tracked st \<longleftrightarrow> distinct (map fst (cs_chutes st)) \<and> (\<forall>(k, s) \<in> set (cs_chutes st). hs_chute_id s = k)"

locale chute_transformer =
  fixes f :: "hf_snapshot \<Rightarrow> cache_state \<Rightarrow> cache_state"
  assumes keeps_tracked: "tracked st \<Longrightarrow> tracked (f s st)"
    and keeps_last_sync: "cs_last_sync (f s st) = cs_last_sync st"
begin

lemma fold_keeps_tracked: "tracked st \<Longrightarrow> tracked (fold f ss st)"
  by (induction ss arbitrary: st) (auto intro: keeps_tracked)

lemma fold_keeps_last_sync: "cs_last_sync (fold f ss st) = cs_last_sync st"
  by (induction ss arbitrary: st) (auto simp: keeps_last_sync)

end

lemma put_chute_simps [simp]:
  "cs_disk (put_chute s st) = cs_disk st" "cs_info (put_chute s st) = cs_info st"
  "cs_last_sync (put_chute s st) = cs_last_sync st"
  "map_of (cs_chutes (put_chute s st)) k = (if k = hs_chute_id s then Some s else map_of (cs_chutes st) k)"
  by (simp_all add: put_chute_def update_conv')

lemma tracked_put: "tracked st \<Longrightarrow> tracked (put_chute s st)"
  using set_update_subset[of "hs_chute_id s" s "cs_chutes st"]
  by (auto simp: tracked_def put_chute_def distinct_update)

lemma tracked_disk [simp]: "tracked (st\<lparr>cs_disk := disk\<rparr>) = tracked st" "tracked (st\<lparr>cs_info := info\<rparr>) = tracked st"
  "tracked (st\<lparr>cs_last_sync := t\<rparr>) = tracked st"
  by (simp_all add: tracked_def)

lemma tracked_delete: "tracked st \<Longrightarrow> tracked (st\<lparr>cs_chutes := AList.delete k (cs_chutes st)\<rparr>)"
  by (auto simp: tracked_def AList.delete_eq distinct_filter_fst)

interpretation reconciling: chute_transformer "reconcile_chute env" for env
  by unfold_locales (auto simp: reconcile_chute_def case_prod_beta intro: tracked_put)

interpretation discovering: chute_transformer "add_discovered env" for env
  by unfold_locales (auto simp: add_discovered_def intro: tracked_put)

lemma sync_tracked: "tracked st \<Longrightarrow> tracked (sync_from_disk env st)"
  by (simp add: sync_from_disk_def reconcile_pending_def Let_def
      reconciling.fold_keeps_tracked discovering.fold_keeps_tracked)

text \<open>What the operations on one snapshot keep of it.\<close>

lemma scan_hub_keeps:
  "hs_chute_id (fst (scan_hub env disk s)) = hs_chute_id s"
  "hs_download (fst (scan_hub env disk s)) = hs_download s"
  by (auto simp: scan_hub_def Let_def split: option.splits sum.splits prod.splits)

lemma is_in_progress_scan [simp]: "is_in_progress (fst (scan_hub env disk s)) = is_in_progress s"
  by (simp add: is_in_progress_def scan_hub_keeps)

lemma scan_all_facts:
  "map (hs_chute_id \<circ> fst) (snd (scan_all env ss st)) = map hs_chute_id ss"
  "(s, r) \<in> set (snd (scan_all env ss st)) \<Longrightarrow> \<exists>s0 \<in> set ss. hs_chute_id s = hs_chute_id s0 \<and> hs_download s = hs_download s0"
proof (induction ss arbitrary: st)
  case (Cons s0 ss)
  { case 1 then show ?case using Cons.IH(1) by (simp add: case_prod_beta scan_hub_keeps) }
  { case 2
    then consider "(s, r) = scan_hub env (cs_disk st) s0" | st' where "(s, r) \<in> set (snd (scan_all env ss st'))"
      by (auto simp: case_prod_beta)
    then show ?case
    proof cases
      case 1
      then have "s = fst (scan_hub env (cs_disk st) s0)" by (metis fst_conv)
      then show ?thesis by (simp add: scan_hub_keeps)
    next
      case 2
      from Cons.IH(2)[OF this] show ?thesis by auto
    qed }
qed simp_all

lemma candidates_ids: "ca_id ` set (candidates_of pat scanned) \<subseteq> (hs_chute_id \<circ> fst) ` set scanned"
  by (force simp: candidates_of_def ca_id_def split: if_splits)

lemma candidates_distinct:
  "distinct (map (hs_chute_id \<circ> fst) scanned) \<Longrightarrow> distinct (map ca_id (candidates_of pat scanned))"
proof (induction scanned)
  case (Cons x scanned)
  then have "hs_chute_id (fst x) \<notin> ca_id ` set (candidates_of pat scanned)"
    using candidates_ids[of pat scanned] by auto
  moreover have "candidates_of pat (x # scanned) = candidates_of pat [x] @ candidates_of pat scanned"
    by (simp add: candidates_of_def)
  moreover have "candidates_of pat [x] = [] \<or> (\<exists>c. candidates_of pat [x] = [c] \<and> ca_id c = hs_chute_id (fst x))"
    by (auto simp: candidates_of_def ca_id_def split: prod.splits)
  moreover have "distinct (map ca_id (candidates_of pat scanned))" using Cons by simp
  ultimately show ?case by auto
qed (simp add: candidates_of_def)

lemma candidates_scanned:
  "c \<in> set (candidates_of pat scanned) \<Longrightarrow>
     \<exists>r. (ca_chute c, r) \<in> set scanned \<and> ca_size c = fst r \<and> \<not> excluded pat (fst (snd r))"
  by (force simp: candidates_of_def split: if_splits)

lemma cleanup_candidates_facts:
  assumes "tracked st" and "cleanup_candidates env pat st = (st1, cands)"
  shows "distinct (map ca_id cands)" and "c \<in> set cands \<Longrightarrow> \<not> is_in_progress (ca_chute c)"
proof -
  let ?st = "sync_from_disk env st"
  let ?ss = "filter (\<lambda>s. \<not> is_in_progress s) (map snd (cs_chutes ?st))"
  have cands: "cands = candidates_of pat (snd (scan_all env ?ss ?st))"
    using assms(2) by (auto simp: cleanup_candidates_def Let_def split: prod.splits)
  have t: "tracked ?st" using sync_tracked[OF assms(1)] .
  have "map hs_chute_id (map snd (cs_chutes ?st)) = map fst (cs_chutes ?st)"
    using t by (auto simp: tracked_def)
  then have "distinct (map hs_chute_id (map snd (cs_chutes ?st)))"
    using t unfolding tracked_def by metis
  then have "distinct (map hs_chute_id ?ss)" by (rule distinct_map_filter)
  then show "distinct (map ca_id cands)"
    unfolding cands scan_all_facts(1)[of env ?ss ?st, symmetric] by (rule candidates_distinct)
  assume "c \<in> set cands"
  then obtain r where "(ca_chute c, r) \<in> set (snd (scan_all env ?ss ?st))"
    using candidates_scanned cands by blast
  from scan_all_facts(2)[OF this] show "\<not> is_in_progress (ca_chute c)"
    by (auto simp: is_in_progress_def)
qed

section \<open>Cleanup\<close>

lemma to_shed_prefix: "\<exists>rest. cs = to_shed b t cs @ rest"
  by (induction cs arbitrary: t) auto

lemma to_shed_budget:
  assumes "t = sum_list (map ca_size cs)" "0 \<le> b" "cs = to_shed b t cs @ rest"
  shows "sum_list (map ca_size rest) \<le> b"
  using assms
proof (induction cs arbitrary: t)
  case (Cons c cs)
  show ?case
  proof (cases "t \<le> b")
    case True
    with Cons.prems have "rest = c # cs" by simp
    with True Cons.prems(1) show ?thesis by simp
  next
    case False
    with Cons.prems have "cs = to_shed b (t - ca_size c) cs @ rest" by simp
    with Cons.IH[of "t - ca_size c"] Cons.prems show ?thesis by simp
  qed
qed simp

lemma sum_split_ids:
  assumes "distinct (map ca_id xs)" "ys = zs @ rest" "mset ys = mset xs"
  shows "sum_list (map ca_size (filter (\<lambda>c. ca_id c \<notin> ca_id ` set zs) xs)) = sum_list (map ca_size rest)"
proof -
  have "distinct (map ca_id ys)" using assms(1,3) by (metis mset_eq_imp_distinct_iff mset_map)
  then have "ca_id ` set zs \<inter> ca_id ` set rest = {}" using assms(2) by simp
  then have "filter (\<lambda>c. ca_id c \<notin> ca_id ` set zs) rest = rest" by (auto intro!: filter_True)
  moreover have "filter (\<lambda>c. ca_id c \<notin> ca_id ` set zs) zs = []" by (simp add: filter_empty_conv)
  ultimately have "filter (\<lambda>c. ca_id c \<notin> ca_id ` set zs) ys = rest" using assms(2) by simp
  then have "mset (filter (\<lambda>c. ca_id c \<notin> ca_id ` set zs) xs) = mset rest"
    using assms(3) by (metis mset_filter)
  moreover have "sum_list (map ca_size l) = sum_mset (image_mset ca_size (mset l))" for l
    by (simp add: sum_mset_sum_list flip: mset_map)
  ultimately show ?thesis by metis
qed

lemma mset_largest_first [simp]: "mset (largest_first cs) = mset cs"
  by (simp add: largest_first_def)

lemma filter_complement_sum:
  "sum_list (map ca_size (filter P xs)) + sum_list (map ca_size (filter (\<lambda>c. \<not> P c) xs)) = sum_list (map ca_size xs)"
  by (induction xs) auto

lemma sum_mset_sizes: "mset xs = mset ys \<Longrightarrow> sum_list (map ca_size xs) = sum_list (map ca_size ys)"
  by (metis mset_map sum_mset_sum_list)

lemma rest_is_complement:
  assumes "distinct (map ca_id cands)"
  shows "filter (\<lambda>c. ca_id c \<notin> ca_id ` set (filter P cands)) cands = filter (\<lambda>c. \<not> P c) cands"
proof (rule filter_cong[OF refl])
  fix c assume c: "c \<in> set cands"
  have "inj_on ca_id (set cands)" using assms by (simp add: distinct_map)
  with c show "ca_id c \<notin> ca_id ` set (filter P cands) \<longleftrightarrow> \<not> P c" by (auto dest: inj_onD)
qed

lemma shed_facts:
  assumes "distinct (map ca_id cands)" "0 \<le> b"
    and old: "old = filter P cands" and rest: "rest = filter (\<lambda>c. ca_id c \<notin> ca_id ` set old) cands"
    and ms: "mset ordered = mset rest" and big: "big = to_shed b (sum_list (map ca_size rest)) ordered"
  shows "set big \<subseteq> set cands"
    and "sum_list (map ca_size (filter (\<lambda>c. ca_id c \<notin> set (map ca_id (old @ big))) cands)) \<le> b"
    and "sum_list (map ca_size (old @ big)) =
      sum_list (map ca_size (filter (\<lambda>c. ca_id c \<in> set (map ca_id (old @ big))) cands))"
proof -
  obtain left where left: "ordered = big @ left" unfolding big using to_shed_prefix by blast
  have total: "sum_list (map ca_size rest) = sum_list (map ca_size ordered)"
    using ms by (metis sum_mset_sizes)
  have "set ordered = set rest" using ms by (metis set_mset_mset)
  then show "set big \<subseteq> set cands" using left rest by auto
  have "distinct (map ca_id rest)" unfolding rest using assms(1) by (rule distinct_map_filter)
  note kept = sum_split_ids[OF this left ms]
  have keep: "filter (\<lambda>c. ca_id c \<notin> set (map ca_id (old @ big))) cands = filter (\<lambda>c. ca_id c \<notin> ca_id ` set big) rest"
    unfolding rest by (auto simp: conj_commute intro!: filter_cong)
  have "ordered = to_shed b (sum_list (map ca_size rest)) ordered @ left" using left big by simp
  from to_shed_budget[OF total assms(2) this]
  show "sum_list (map ca_size (filter (\<lambda>c. ca_id c \<notin> set (map ca_id (old @ big))) cands)) \<le> b"
    unfolding keep kept .
  have "sum_list (map ca_size old) + sum_list (map ca_size rest) = sum_list (map ca_size cands)"
    unfolding rest old rest_is_complement[OF assms(1)] by (rule filter_complement_sum)
  then show "sum_list (map ca_size (old @ big)) =
      sum_list (map ca_size (filter (\<lambda>c. ca_id c \<in> set (map ca_id (old @ big))) cands))"
    using filter_complement_sum[of "\<lambda>c. ca_id c \<in> set (map ca_id (old @ big))" cands]
      total left kept keep by simp
qed

text \<open>
  A cleanup that succeeds meets its limits. Every candidate last used before the cutoff is removed,
  what is left of the candidates fits into the size limit, the bytes reported as freed are the sizes of
  the removed candidates; candidates are tracked chutes without a running download, so running
  downloads are never removed.
\<close>

theorem cleanup_meets_limits:
  assumes "tracked st" and "cleanup_candidates env pat st = (st1, cands)"
    and "cleanup env max_age max_gb pat st = (st', Inr res)" and "0 \<le> max_gb"
  shows "set (cr_removed_chutes res) \<subseteq> ca_id ` set cands \<and>
     (\<forall>c \<in> set cands. \<not> is_in_progress (ca_chute c)) \<and>
     (\<forall>c \<in> set cands. ca_last_accessed c < cutoff_time env max_age \<longrightarrow> ca_id c \<in> set (cr_removed_chutes res)) \<and>
     sum_list (map ca_size (filter (\<lambda>c. ca_id c \<notin> set (cr_removed_chutes res)) cands)) \<le> max_size_bytes max_gb \<and>
     cr_freed_bytes res = sum_list (map ca_size (filter (\<lambda>c. ca_id c \<in> set (cr_removed_chutes res)) cands))"
proof -
  let ?b = "max_size_bytes max_gb"
  obtain old big surviving where plan: "cleanup_plan (cutoff_time env max_age) ?b cands = (old, big, surviving)"
    by (metis prod_cases3)
  define rest where "rest = filter (\<lambda>c. ca_id c \<notin> ca_id ` set old) cands"
  define ordered where "ordered = (if sum_list (map ca_size rest) > ?b then largest_first rest else rest)"
  have old: "old = filter (\<lambda>c. ca_last_accessed c < cutoff_time env max_age) cands"
    and big: "big = to_shed ?b (sum_list (map ca_size rest)) ordered"
    using plan by (auto simp: cleanup_plan_def Let_def rest_def ordered_def)
  note facts = cleanup_candidates_facts[OF assms(1,2)]
  have "0 \<le> ?b" using assms(4) by (simp add: max_size_bytes_def)
  note shed = shed_facts[OF facts(1) this old rest_def _ big]
  have ms: "mset ordered = mset rest" by (simp add: ordered_def)
  have res: "cr_removed_chutes res = map ca_id (old @ big)" "cr_freed_bytes res = sum_list (map ca_size (old @ big))"
    using assms(3) unfolding cleanup_def assms(2) plan prod.case by (auto split: prod.splits sum.splits)
  have "set (map ca_id (old @ big)) \<subseteq> ca_id ` set cands" using shed(1)[OF ms] old by auto
  then show ?thesis
    unfolding res using shed(2,3)[OF ms] facts(2) old by (intro conjI ballI impI) auto
qed

lemma sync_cooldown_idem:
  assumes "cs_last_sync st' = cs_last_sync (sync_from_disk env st)"
  shows "sync_from_disk env st' = st'"
proof -
  have "cs_last_sync (sync_from_disk env st) = cs_last_sync st \<and> ce_monotonic env - cs_last_sync st < sync_cooldown \<or>
      cs_last_sync (sync_from_disk env st) = ce_monotonic env"
    by (simp add: sync_from_disk_def reconcile_pending_def Let_def
        reconciling.fold_keeps_last_sync discovering.fold_keeps_last_sync)
  then show ?thesis
    using assms by (auto simp: sync_from_disk_def sync_cooldown_def)
qed

section \<open>Reconciliation\<close>

lemma apply_verification_facts:
  assumes "apply_verification repo_id revision outcome s d = (s', d')"
    and "cd_complete d = None" "cd_stale d = None"
  shows "hs_chute_id s' = hs_chute_id s" "hs_repo_id s' = hs_repo_id s" "hs_revision s' = hs_revision s"
    "cd_complete d' = (case outcome of Inr _ \<Rightarrow> Some (marker_text repo_id revision) | Inl _ \<Rightarrow> None)"
    "cd_stale d' \<noteq> None \<longleftrightarrow>
       (\<exists>e m. outcome = Inl e \<and> value_error e = Some m \<and> classify_mismatch m = Differs)"
  using assms
  by (auto simp: apply_verification_def split: sum.splits option.splits mismatch.splits)

text \<open>
  Reconciliation leaves a chute's directory alone (nothing on disk, or no answer from the validator),
  or sets its markers by the verdict of the verification against the revision the validator names:
  complete exactly on success, stale exactly when files were found to differ, never both. Other
  directories are not touched.
\<close>

theorem reconcile_marks_by_verdict:
  assumes "map_of disk (hs_chute_id s) = Some d" and "reconcile env disk info s = (s', disk', info')"
  shows "hs_chute_id s' = hs_chute_id s \<and>
     (\<forall>name. name \<noteq> hs_chute_id s \<longrightarrow> map_of disk' name = map_of disk name) \<and>
     (disk' = disk \<or>
      (\<exists>d' repo_id revision outcome. map_of disk' (hs_chute_id s) = Some d' \<and>
         hs_repo_id s' = repo_id \<and> hs_revision s' = Some revision \<and>
         outcome = snd (verify_cache (ce_validator env) info (cd_snapshot d) repo_id revision) \<and>
         (cd_complete d' = (case outcome of Inr _ \<Rightarrow> Some (marker_text repo_id revision) | Inl _ \<Rightarrow> None)) \<and>
         (cd_stale d' \<noteq> None \<longleftrightarrow>
            (\<exists>e m. outcome = Inl e \<and> value_error e = Some m \<and> classify_mismatch m = Differs)) \<and>
         \<not> (cd_complete d' \<noteq> None \<and> cd_stale d' \<noteq> None)))"
proof (cases "is_present_on_disk disk s \<and> (\<exists>hf c cs. fetch_hf_info (ce_validator env) (hs_chute_id s) = Inr hf \<and>
    hf_repo_id hf = Some (c # cs))")
  case True
  then obtain hf c cs where hf: "fetch_hf_info (ce_validator env) (hs_chute_id s) = Inr hf" "hf_repo_id hf = Some (c # cs)"
    and p: "is_present_on_disk disk s" by blast
  let ?rev = "or_main (hf_revision hf)"
  let ?s1 = "s\<lparr>hs_repo_id := c # cs, hs_revision := Some ?rev\<rparr>"
  let ?d1 = "d\<lparr>cd_complete := None, cd_stale := None\<rparr>"
  obtain info1 outcome where v: "verify_cache (ce_validator env) info (cd_snapshot d) (c # cs) ?rev = (info1, outcome)"
    by (cases "verify_cache (ce_validator env) info (cd_snapshot d) (c # cs) ?rev")
  obtain s2 d2 where a: "apply_verification (c # cs) ?rev outcome ?s1 ?d1 = (s2, d2)"
    by (cases "apply_verification (c # cs) ?rev outcome ?s1 ?d1")
  have run: "s' = s2" "disk' = AList.update (hs_chute_id s) d2 disk"
    using assms hf p v a by (simp_all add: reconcile_def dir_of_def Let_def)
  note f = apply_verification_facts[OF a]
  show ?thesis
    using f run v by (auto simp: update_conv' split: sum.splits)
next
  case False
  then have "disk' = disk \<and> hs_chute_id s' = hs_chute_id s"
    using assms by (auto simp: reconcile_def dir_of_def Let_def split: sum.splits option.splits list.splits if_splits)
  then show ?thesis by blast
qed

text \<open>
  A manifest that does not parse counts as a mismatch: the parser's exception is a \<open>ValueError\<close>, so
  a chute whose cache may be perfectly good is marked stale, where an unreachable validator would have
  left the question open.
\<close>

theorem unparsable_manifest_marks_stale:
  assumes "map_of disk (hs_chute_id s) = Some d" "cd_hub d" "cd_models d"
    and "fetch_hf_info (ce_validator env) (hs_chute_id s) = Inr hf" "hf_repo_id hf = Some (c # cs)"
    and "map_of info (c # cs, or_main (hf_revision hf)) = None"
    and "v_repo_info (ce_validator env) (c # cs) (or_main (hf_revision hf)) = Answer 200 (Inl JSONDecodeError)"
  shows "\<exists>s' disk' info'. reconcile env disk info s = (s', disk', info') \<and> hs_reconciled s' \<and>
     disk_status disk' s' = STALE"
proof -
  have main: "or_main (Some (or_main r)) = or_main r" for r
    by (auto simp: or_main_def split: option.splits)
  have v: "verify_cache (ce_validator env) info (cd_snapshot d) (c # cs) (or_main (hf_revision hf)) = (info, Inl JSONDecodeError)"
    using assms by (simp add: verify_cache_def fetch_repo_info_def main Let_def)
  have m: "value_error JSONDecodeError = Some ''Expecting value''" "classify_mismatch ''Expecting value'' = Differs"
    by code_simp+
  show ?thesis
    using assms v m
    by (simp add: reconcile_def dir_of_def is_present_on_disk_def Let_def apply_verification_def disk_status_def update_conv')
qed

section \<open>The routes\<close>

lemma get_or_create_facts:
  assumes "tracked st" and "get_or_create env chute_id st = (st1, s)"
  shows "cs_disk st1 = cs_disk (sync_from_disk env st)" "cs_last_sync st1 = cs_last_sync (sync_from_disk env st)"
    "tracked st1" "hs_chute_id s = chute_id" "map_of (cs_chutes st1) chute_id = Some s"
proof -
  have t: "tracked (sync_from_disk env st)" using assms(1) by (rule sync_tracked)
  show "cs_disk st1 = cs_disk (sync_from_disk env st)" "cs_last_sync st1 = cs_last_sync (sync_from_disk env st)"
      "tracked st1" "map_of (cs_chutes st1) chute_id = Some s"
    using assms(2) t by (auto simp: get_or_create_def Let_def new_snapshot_def intro: tracked_put split: option.splits)
  have "hs_chute_id s' = chute_id" if "map_of (cs_chutes (sync_from_disk env st)) chute_id = Some s'" for s'
    using t map_of_SomeD[OF that] by (auto simp: tracked_def)
  then show "hs_chute_id s = chute_id"
    using assms(2) by (auto simp: get_or_create_def Let_def new_snapshot_def split: option.splits)
qed

lemma make_dirs_keeps:
  "map_of disk name = Some d \<Longrightarrow>
     map_of (make_dirs chute_id disk) name = Some d \<or> map_of (make_dirs chute_id disk) name = Some (d\<lparr>cd_hub := True\<rparr>)"
  by (auto simp: make_dirs_def Let_def update_conv')

lemma start_download_keeps:
  assumes "start_download env disk info s repo_id revision False = (s', disk', info', r)"
    and "map_of disk name = Some d"
  shows "map_of disk' name = Some d \<or> map_of disk' name = Some (d\<lparr>cd_hub := True\<rparr>)"
  using assms make_dirs_keeps[of disk name d "hs_chute_id s"]
  by (auto simp: start_download_def Let_def split: if_splits prod.splits sum.splits)

lemma cancel_download_id [simp]: "hs_chute_id (cancel_download s) = hs_chute_id s"
  by (simp add: cancel_download_def)

lemma delete_id: "hs_chute_id (fst (delete env disk s)) = hs_chute_id s"
  by (auto simp: delete_def Let_def split: option.splits)

lemma start_download_id:
  "start_download env disk info s repo_id revision force = (s', disk', info', r) \<Longrightarrow> hs_chute_id s' = hs_chute_id s"
  using delete_id[of env disk "s\<lparr>hs_repo_id := repo_id, hs_revision := Some revision, hs_scan_cache := None\<rparr>"]
  by (auto simp: start_download_def Let_def split: if_splits prod.splits sum.splits)

lemma start_download_fresh:
  assumes "start_download env disk info s repo_id revision force = (s', disk', info', Inr ())"
  shows "\<exists>total_bytes initial now. hs_download s' = Some (new_download total_bytes initial now)"
  using assms by (fastforce simp: start_download_def Let_def split: if_splits prod.splits sum.splits)

text \<open>
  A download request without \<open>force\<close> discards nothing: whatever it answers, every chute directory
  that was there when the request looked is still there with its files and markers; at most the
  \<open>hub\<close> directory of the requested chute was created.
\<close>

theorem download_without_force_keeps_files:
  assumes "tracked st" and "download_route env chute_id False st = (st', r)"
    and "map_of (cs_disk (sync_from_disk env st)) name = Some d"
  shows "map_of (cs_disk st') name = Some d \<or> map_of (cs_disk st') name = Some (d\<lparr>cd_hub := True\<rparr>) \<or>
     (\<exists>m. r = Inl (HTTPException 400 m))"
proof (cases "validate_chute_id chute_id")
  case (Inl e)
  then show ?thesis using assms(2) by (auto simp: download_route_def validate_chute_id_def split: if_splits)
next
  case (Inr cid)
  obtain st1 s where g: "get_or_create env cid st = (st1, s)" by (cases "get_or_create env cid st")
  have d: "map_of (cs_disk st1) name = Some d" using assms(3) get_or_create_facts(1)[OF assms(1) g] by simp
  show ?thesis
    using assms(2) Inr g d
    by (auto simp: download_route_def dest: start_download_keeps[OF _ d]
        split: if_splits sum.splits option.splits list.splits prod.splits)
qed

text \<open>
  A download that was started does not count as in progress until its subprocess has been spawned:
  right after the answer "started", a second request for the same chute is never answered with "in
  progress", so that two downloads can write to one directory.
\<close>

theorem started_download_not_yet_in_progress:
  assumes "tracked st" and "download_route env chute_id force st = (st', Inr STARTED)"
  shows "snd (download_route env chute_id force' st') \<noteq> Inr DL_IN_PROGRESS"
proof -
  have v: "validate_chute_id chute_id = Inr chute_id"
    using assms(2) by (auto simp: download_route_def validate_chute_id_def split: if_splits)
  obtain st1 s where g: "get_or_create env chute_id st = (st1, s)" by (cases "get_or_create env chute_id st")
  note f = get_or_create_facts[OF assms(1) g]
  obtain repo_id revision s' disk' info' where
    r: "start_download env (cs_disk st1) (cs_info st1) s repo_id revision force = (s', disk', info', Inr ())"
    and st': "st' = put_chute s' (st1\<lparr>cs_disk := disk', cs_info := info'\<rparr>)"
    using assms(2) v g
    by (auto simp: download_route_def split: if_splits sum.splits option.splits list.splits prod.splits)
  have id: "hs_chute_id s' = chute_id" using start_download_id[OF r] f(4) by simp
  have np: "\<not> is_in_progress s'"
    using start_download_fresh[OF r] by (auto simp: is_in_progress_def is_running_def new_download_def)
  have "cs_last_sync st' = cs_last_sync (sync_from_disk env st)" using f(2) st' by simp
  from sync_cooldown_idem[OF this] have "get_or_create env chute_id st' = (st', s')"
    using st' id by (simp add: get_or_create_def)
  with v np show ?thesis
    by (auto simp: download_route_def split: sum.splits option.splits list.splits prod.splits)
qed

subsection \<open>The invariant\<close>

lemma snapshots_tracked: "tracked st \<Longrightarrow> tracked (fst (snapshots_of env ss st))"
  by (induction ss arbitrary: st) (auto simp: case_prod_beta intro: tracked_put)

lemma scan_all_tracked: "tracked st \<Longrightarrow> tracked (fst (scan_all env ss st))"
  by (induction ss arbitrary: st) (auto simp: case_prod_beta intro: tracked_put)

lemma pop_tracked: "tracked st \<Longrightarrow> tracked (fst (pop_and_delete env s st))"
  by (auto simp: pop_and_delete_def case_prod_beta tracked_def AList.delete_eq distinct_filter_fst)

lemma remove_each_tracked: "tracked st \<Longrightarrow> tracked (fst (remove_each env cs st))"
proof (induction cs arbitrary: st)
  case (Cons c cs)
  obtain st1 r where p: "pop_and_delete env (ca_chute c) st = (st1, r)" by (cases "pop_and_delete env (ca_chute c) st")
  then have "tracked st1" using pop_tracked[OF Cons.prems, of env "ca_chute c"] by simp
  with Cons.IH p show ?case by (cases r) simp_all
qed simp

lemma purge_each_tracked: "tracked st \<Longrightarrow> tracked (fst (purge_each env ss st))"
  by (induction ss arbitrary: st) (auto simp: case_prod_beta)

lemma cleanup_tracked:
  assumes "tracked st"
  shows "tracked (fst (cleanup env max_age max_gb pat st))"
proof -
  obtain st1 cands where c: "cleanup_candidates env pat st = (st1, cands)" by (cases "cleanup_candidates env pat st")
  obtain old big surviving where plan:
    "cleanup_plan (cutoff_time env max_age) (max_size_bytes max_gb) cands = (old, big, surviving)"
    by (metis prod_cases3)
  have t1: "tracked st1"
    using c scan_all_tracked[OF sync_tracked[OF assms]]
    by (auto simp: cleanup_candidates_def Let_def split: prod.splits) (metis fst_conv)
  obtain st2 r2 where r2: "remove_each env old st1 = (st2, r2)" by (cases "remove_each env old st1")
  obtain st3 r3 where r3: "remove_each env big st2 = (st3, r3)" by (cases "remove_each env big st2")
  have "tracked st2" "tracked st3"
    using remove_each_tracked[OF t1, of env old] remove_each_tracked[of st2 env big] r2 r3 by simp_all
  then show ?thesis
    using c plan r2 r3 purge_each_tracked[of st3 env]
    by (auto simp: cleanup_def case_prod_beta split: sum.splits)
qed

lemma get_tracked: "tracked st \<Longrightarrow> tracked (fst (get env chute_id st))"
  by (simp add: get_def Let_def sync_tracked)

lemma all_snapshots_tracked: "tracked st \<Longrightarrow> tracked (fst (all_snapshots env st))"
  by (simp add: all_snapshots_def Let_def snapshots_tracked sync_tracked)

lemma remove_tracked: "tracked st \<Longrightarrow> tracked (fst (remove env chute_id st))"
  using pop_tracked[OF sync_tracked, of st env]
  by (auto simp: remove_def Let_def case_prod_beta sync_tracked split: option.splits)

lemma cancel_tracked: "tracked st \<Longrightarrow> tracked (fst (cancel_chute env chute_id cleanup_files st))"
  using pop_tracked[OF sync_tracked, of st env]
  by (auto simp: cancel_chute_def Let_def sync_tracked tracked_put split: option.splits prod.splits sum.splits)
     (metis fst_conv)+

text \<open>
  Every route keeps the manager's invariant: each chute is tracked once, under its own identifier,
  whatever the request, the state of the disk and the answers of the validator.
\<close>

theorem cache_routes_keep_invariant:
  assumes "tracked st"
  shows "tracked (fst (download_route env chute_id force st)) \<and>
     tracked (fst (status_route env chute st)) \<and>
     tracked (fst (delete_route env chute_id force st)) \<and>
     tracked (fst (cancel_route env chute_id cleanup_files st)) \<and>
     tracked (fst (overview_route env st)) \<and>
     tracked (fst (purge_route env st)) \<and>
     tracked (fst (cleanup_route env body max_age max_gb env_exclude st))"
proof (intro conjI)
  show "tracked (fst (download_route env chute_id force st))"
  proof (cases "validate_chute_id chute_id")
    case (Inr cid)
    obtain st1 s where g: "get_or_create env cid st = (st1, s)" by (cases "get_or_create env cid st")
    then show ?thesis
      using Inr get_or_create_facts(3)[OF assms g]
      by (auto simp: download_route_def intro!: tracked_put split: sum.splits option.splits list.splits prod.splits)
  qed (simp add: download_route_def assms)
  show "tracked (fst (status_route env chute st))"
    using get_tracked[OF assms, of env] all_snapshots_tracked[OF assms, of env]
    by (auto simp: status_route_def intro!: tracked_put split: option.splits list.splits prod.splits) (metis fst_conv)+
  show "tracked (fst (delete_route env chute_id force st))"
    using get_tracked[OF assms, of env chute_id] remove_tracked[of "fst (get env chute_id st)" env chute_id] assms
    by (auto simp: delete_route_def case_prod_beta split: sum.splits option.splits prod.splits)
  show "tracked (fst (cancel_route env chute_id cleanup_files st))"
    using cancel_tracked[OF assms, of env chute_id cleanup_files] assms
    by (auto simp: cancel_route_def split: sum.splits prod.splits)
  show "tracked (fst (overview_route env st))"
    using all_snapshots_tracked[OF assms, of env] by (simp add: overview_route_def case_prod_beta)
  show "tracked (fst (purge_route env st))"
    by (simp add: purge_route_def purge_stale_def Let_def purge_each_tracked sync_tracked assms)
  show "tracked (fst (cleanup_route env body max_age max_gb env_exclude st))"
    using cleanup_tracked[OF assms]
    by (auto simp: cleanup_route_def split: option.splits prod.splits)
qed

section \<open>An example\<close>

definition sample_uuid :: string where
  "sample_uuid = ''00000000-0000-0000-0000-00000000000a''"

definition cached_dir :: chute_dir where
  "cached_dir = sample_dir\<lparr>cd_snapshot := sample_snapshot 7, cd_scan := Inr \<lparr>si_size_on_disk = 7,
     si_repos = [\<lparr>rs_repo_id = ''o/m'', rs_revisions = [''r1''], rs_last_accessed = 5\<rparr>]\<rparr>\<rparr>"

definition sample_cache_env :: cache_env where
  "sample_cache_env = \<lparr>ce_validator = sample_validator, ce_monotonic = 100, ce_time = 0, ce_du = (\<lambda>_. None),
     ce_base = [''cache''], ce_base_exists = True, ce_resolve = (\<lambda>c. [''cache'', c]), ce_other_exists = (\<lambda>_. False),
     ce_rmtree = (\<lambda>_. None), ce_cache_rm = (\<lambda>_. 0), ce_remains = id, ce_delete_revisions = (\<lambda>d _. Inr (0, d))\<rparr>"

definition sample_cache :: cache_state where
  "sample_cache = (new_manager [(sample_uuid, cached_dir)])
     \<lparr>cs_chutes := [(sample_uuid, new_snapshot sample_uuid False)], cs_last_sync := 99\<rparr>"

lemma sample_tracked: "tracked sample_cache"
  by (simp add: tracked_def sample_cache_def new_manager_def new_snapshot_def)

lemma sample_sync: "sync_from_disk sample_cache_env sample_cache = sample_cache"
  by (simp add: sync_from_disk_def sample_cache_env_def sample_cache_def sync_cooldown_def)

lemma sample_uuid_valid: "validate_chute_id sample_uuid = Inr sample_uuid"
  by code_simp

theorem validated_ids_stay_in_cache_witness: "path_parts sample_uuid = [sample_uuid]"
  using validated_ids_stay_in_cache[OF sample_uuid_valid] by blast

theorem deletion_confined_witness:
  "\<exists>s' disk' r. delete sample_cache_env [(sample_uuid, cached_dir)] (new_snapshot sample_uuid False) = (s', disk', r) \<and>
     r = Inr () \<and> map_of disk' sample_uuid = None"
proof -
  let ?disk = "[(sample_uuid, cached_dir)]"
  obtain s' disk' r where d: "delete sample_cache_env ?disk (new_snapshot sample_uuid False) = (s', disk', r)"
    by (metis prod_cases3)
  moreover have "r = Inr ()" "path_exists sample_cache_env ?disk sample_uuid"
    using d by (simp_all add: delete_def sample_cache_env_def path_exists_def new_snapshot_def cancel_download_def)
  moreover have "ce_resolve sample_cache_env sample_uuid = ce_base sample_cache_env @ [name] \<longleftrightarrow> name = sample_uuid" for name
    by (auto simp: sample_cache_env_def)
  ultimately show ?thesis
    using deletion_confined[OF d] by (auto simp: sample_cache_env_def new_snapshot_def)
qed

lemma sample_cleanup:
  "\<exists>st1 cands st' res. cleanup_candidates sample_cache_env None sample_cache = (st1, cands) \<and>
     cleanup sample_cache_env 0 0 None sample_cache = (st', Inr res) \<and> cr_removed_chutes res = [sample_uuid]"
proof -
  have scan: "scan_hub sample_cache_env [(sample_uuid, cached_dir)] (new_snapshot sample_uuid False) =
      ((new_snapshot sample_uuid False)\<lparr>hs_scan_cache := Some (7, Some ''o/m'', Some ''r1'', Some 5), hs_scan_cache_at := 100\<rparr>,
       (7, Some ''o/m'', Some ''r1'', Some 5))"
    by (simp add: scan_hub_def sample_cache_env_def new_snapshot_def dir_of_def cached_dir_def sample_dir_def
        scan_ttl_def is_in_progress_def scan_result_of_def Let_def)
  define cand where "cand = \<lparr>ca_chute = fst (scan_hub sample_cache_env [(sample_uuid, cached_dir)] (new_snapshot sample_uuid False)),
     ca_size = 7, ca_last_accessed = 5\<rparr>"
  have id: "ca_id cand = sample_uuid" by (simp add: cand_def ca_id_def scan_hub_keeps) (simp add: new_snapshot_def)
  obtain st1 where cands: "cleanup_candidates sample_cache_env None sample_cache = (st1, [cand])"
  proof -
    have "cs_disk sample_cache = [(sample_uuid, cached_dir)]"
        "filter (\<lambda>s. \<not> is_in_progress s) (map snd (cs_chutes sample_cache)) = [new_snapshot sample_uuid False]"
      by (simp_all add: sample_cache_def new_manager_def is_in_progress_def new_snapshot_def)
    then show ?thesis
      using that by (simp add: cleanup_candidates_def sample_sync scan candidates_of_def excluded_def cand_def)
  qed
  have plan: "cleanup_plan (cutoff_time sample_cache_env 0) (max_size_bytes 0) [cand] = ([], [cand], [])"
    by (simp add: cleanup_plan_def cutoff_time_def max_size_bytes_def sample_cache_env_def cand_def largest_first_def Let_def)
  have "snd (snd (delete sample_cache_env disk s)) = Inr ()" for disk s
    by (simp add: delete_def sample_cache_env_def Let_def)
  then have "snd (pop_and_delete sample_cache_env s st) = Inr ()" for s st
    by (simp add: pop_and_delete_def case_prod_beta)
  then have "\<exists>st3. remove_each sample_cache_env [cand] st = (st3, Inr ())" for st
    by (metis (no_types, lifting) remove_each.simps prod.collapse sum.case(2) case_prod_conv)
  then obtain st3 where "remove_each sample_cache_env [cand] st1 = (st3, Inr ())" by blast
  then show ?thesis
    using cands plan id by (auto simp: cleanup_def simp del: remove_each.simps(2))
qed

theorem cleanup_meets_limits_witness:
  "\<exists>st' res. cleanup sample_cache_env 0 0 None sample_cache = (st', Inr res) \<and> sample_uuid \<in> set (cr_removed_chutes res)
     \<and> (\<exists>cands. set (cr_removed_chutes res) \<subseteq> ca_id ` set cands)"
proof -
  obtain st1 cands st' res where c: "cleanup_candidates sample_cache_env None sample_cache = (st1, cands)"
      "cleanup sample_cache_env 0 0 None sample_cache = (st', Inr res)" "cr_removed_chutes res = [sample_uuid]"
    using sample_cleanup by blast
  then show ?thesis using cleanup_meets_limits[OF sample_tracked c(1,2)] by auto
qed

theorem reconcile_marks_by_verdict_witness:
  "\<exists>s' disk' info'. reconcile sample_cache_env [(sample_uuid, cached_dir)] [] (new_snapshot sample_uuid False) = (s', disk', info') \<and>
     hs_chute_id s' = sample_uuid"
proof -
  obtain s' disk' info' where
    r: "reconcile sample_cache_env [(sample_uuid, cached_dir)] [] (new_snapshot sample_uuid False) = (s', disk', info')"
    by (metis prod_cases3)
  have "map_of [(sample_uuid, cached_dir)] (hs_chute_id (new_snapshot sample_uuid False)) = Some cached_dir"
    by (simp add: new_snapshot_def)
  from reconcile_marks_by_verdict[OF this r] r show ?thesis by (simp add: new_snapshot_def)
qed

definition broken_env :: cache_env where
  "broken_env = sample_cache_env\<lparr>ce_validator := sample_validator\<lparr>v_repo_info := (\<lambda>_ _. Answer 200 (Inl JSONDecodeError))\<rparr>\<rparr>"

lemma sample_hf_info:
  "fetch_hf_info (ce_validator broken_env) c = Inr \<lparr>hf_repo_id = Some ''o/m'', hf_revision = Some ''r1''\<rparr>"
  "fetch_hf_info sample_validator c = Inr \<lparr>hf_repo_id = Some ''o/m'', hf_revision = Some ''r1''\<rparr>"
proof -
  have "rstrip_slash (strip ''https://v/'') = ''https://v''" by code_simp
  then show "fetch_hf_info (ce_validator broken_env) c = Inr \<lparr>hf_repo_id = Some ''o/m'', hf_revision = Some ''r1''\<rparr>"
      "fetch_hf_info sample_validator c = Inr \<lparr>hf_repo_id = Some ''o/m'', hf_revision = Some ''r1''\<rparr>"
    by (simp_all add: fetch_hf_info_def broken_env_def sample_cache_env_def sample_validator_def)
qed

theorem unparsable_manifest_marks_stale_witness:
  "\<exists>s' disk' info'. reconcile broken_env [(sample_uuid, cached_dir)] [] (new_snapshot sample_uuid False) = (s', disk', info') \<and>
     disk_status disk' s' = STALE"
proof -
  have d: "map_of [(sample_uuid, cached_dir)] (hs_chute_id (new_snapshot sample_uuid False)) = Some cached_dir"
      "cd_hub cached_dir" "cd_models cached_dir"
    by (simp_all add: new_snapshot_def cached_dir_def sample_dir_def)
  show ?thesis
    using unparsable_manifest_marks_stale[OF d, of broken_env _ _ _ "[]"] sample_hf_info(1)
    by (force simp: broken_env_def)
qed

lemma sample_start:
  "\<exists>st'. download_route sample_cache_env sample_uuid True sample_cache = (st', Inr STARTED)"
proof -
  have "get_or_create sample_cache_env sample_uuid sample_cache = (sample_cache, new_snapshot sample_uuid False)"
    by (simp add: get_or_create_def sample_sync) (simp add: sample_cache_def)
  moreover have "\<not> is_in_progress (new_snapshot sample_uuid False)"
    by (simp add: is_in_progress_def new_snapshot_def)
  moreover have "\<exists>s' disk' info'. start_download sample_cache_env (cs_disk sample_cache) (cs_info sample_cache)
      (new_snapshot sample_uuid False) ''o/m'' (or_main (Some ''r1'')) True = (s', disk', info', Inr ())"
    by (simp add: start_download_def sample_cache_def new_manager_def sample_cache_env_def path_exists_def
        has_foreign_entries_def dir_of_def cached_dir_def sample_dir_def new_snapshot_def
        fetch_repo_total_size_def fetch_repo_info_def sample_validator_def Let_def)
  moreover have "ce_validator sample_cache_env = sample_validator" by (simp add: sample_cache_env_def)
  ultimately show ?thesis
    using sample_uuid_valid sample_hf_info(2) by (auto simp: download_route_def)
qed

theorem download_without_force_keeps_files_witness:
  "\<exists>st' r. download_route sample_cache_env sample_uuid False sample_cache = (st', r) \<and>
     (map_of (cs_disk st') sample_uuid = Some cached_dir \<or> map_of (cs_disk st') sample_uuid = Some (cached_dir\<lparr>cd_hub := True\<rparr>) \<or>
      (\<exists>m. r = Inl (HTTPException 400 m)))"
proof -
  obtain st' r where d: "download_route sample_cache_env sample_uuid False sample_cache = (st', r)"
    by (cases "download_route sample_cache_env sample_uuid False sample_cache")
  have "map_of (cs_disk (sync_from_disk sample_cache_env sample_cache)) sample_uuid = Some cached_dir"
    by (simp add: sample_sync) (simp add: sample_cache_def new_manager_def)
  from download_without_force_keeps_files[OF sample_tracked d this] d show ?thesis by blast
qed

theorem started_download_not_yet_in_progress_witness:
  "\<exists>st'. download_route sample_cache_env sample_uuid True sample_cache = (st', Inr STARTED) \<and>
     snd (download_route sample_cache_env sample_uuid True st') \<noteq> Inr DL_IN_PROGRESS"
  using sample_start started_download_not_yet_in_progress[OF sample_tracked] by blast

theorem cache_routes_keep_invariant_witness:
  "tracked (fst (cleanup_route sample_cache_env None 5 100 None sample_cache))"
  using cache_routes_keep_invariant[OF sample_tracked] by blast

end
