(* ===== verification/Attestation_Proxy.thy ===== *)
theory Attestation_Proxy
  imports Auth
begin

text \<open>
  The attestation proxy, \<open>src/src/attestation-proxy/attestation_proxy/service.py\<close> and \<open>signing.py\<close>: the
  routes of the external and the internal server, the requests they send on, the retries, the count of
  socket failures behind the health check, and the signature on every response of the external
  server. What the backends answer and whether a retry is still in time is the record
  \<open>proxy_env\<close>, the RSA signature a parameter; \<open>url_join\<close> is \<open>urllib.parse.urljoin\<close> on the URLs the code passes. The lemmas say
  which requests reach a backend, which backend that is, and what the external server adds.
\<close>

section \<open>URLs\<close>

text \<open>
  \<open>urljoin(base, path)\<close> for a base that is a scheme and an authority and for a path that starts with a
  slash: the authority and the rest of the result. Tabs and line breaks are dropped first; two slashes
  start an authority of its own; an authority with one bracket and not the other raises, one with both
  is left to \<open>ipaddress\<close>, the argument \<open>bracketed_ok\<close>.
\<close>

definition drop_controls :: "string \<Rightarrow> string" where
  "drop_controls s = filter (\<lambda>c. c \<notin> set [char_of (9::nat), char_of (10::nat), char_of (13::nat)]) s"

definition url_delim :: "char \<Rightarrow> bool" where
  "url_delim c \<longleftrightarrow> c \<in> set ''/?#''"

definition url_authority :: "string \<Rightarrow> string" where
  "url_authority url = (if startswith url ''//'' then takeWhile (\<lambda>c. \<not> url_delim c) (drop 2 url) else [])"

definition url_rest :: "string \<Rightarrow> string" where
  "url_rest url = (if startswith url ''//'' then dropWhile (\<lambda>c. \<not> url_delim c) (drop 2 url) else url)"

definition authority_ok :: "(string \<Rightarrow> bool) \<Rightarrow> string \<Rightarrow> bool" where
  "authority_ok bracketed_ok a =
     (if CHR ''['' \<in> set a \<or> CHR '']'' \<in> set a
      then CHR ''['' \<in> set a \<and> CHR '']'' \<in> set a \<and> bracketed_ok a else True)"

text \<open>Path, parameters of the last segment, query and fragment.\<close>

record url_parts =
  up_path :: string
  up_params :: string
  up_query :: string
  up_fragment :: string

definition split_params :: "string \<Rightarrow> string \<times> string" where
  "split_params u =
     (let seg = rev (takeWhile (\<lambda>c. c \<noteq> CHR ''/'') (rev u));
          front = take (length u - length seg) u in
      case split_once (CHR '';'') seg of (a, b) \<Rightarrow> (front @ a, b))"

definition parse_rest :: "string \<Rightarrow> url_parts" where
  "parse_rest url =
     (case split_once (CHR ''#'') url of (u1, fragment) \<Rightarrow>
      case split_once (CHR ''?'') u1 of (u2, query) \<Rightarrow>
      case split_params u2 of (p, params) \<Rightarrow>
        \<lparr>up_path = p, up_params = params, up_query = query, up_fragment = fragment\<rparr>)"

definition part_text :: "string \<Rightarrow> string \<Rightarrow> string" where
  "part_text sep p = (if p = [] then [] else sep @ p)"

definition unparse_rest :: "url_parts \<Rightarrow> string" where
  "unparse_rest u =
     (let p = up_path u @ part_text '';'' (up_params u) in
      (if p = [] \<or> startswith p ''/'' then p else ''/'' @ p) @
      part_text ''?'' (up_query u) @ part_text ''#'' (up_fragment u))"

fun resolve_segments :: "string list \<Rightarrow> string list \<Rightarrow> string list" where
  "resolve_segments acc [] = acc"
| "resolve_segments acc (seg # segs) =
     (if seg = ''..'' then resolve_segments (butlast acc) segs
      else if seg = ''.'' then resolve_segments acc segs
      else resolve_segments (acc @ [seg]) segs)"

definition remove_dots :: "string \<Rightarrow> string" where
  "remove_dots path =
     (let segs = split_on (CHR ''/'') path;
          joined = join_with ''/''
            (resolve_segments [] segs @ (if last segs \<in> set [''.'', ''..''] then [[]] else [])) in
      if joined = [] then ''/'' else joined)"

definition url_join :: "(string \<Rightarrow> bool) \<Rightarrow> string \<Rightarrow> string \<Rightarrow> (string \<times> string) res" where
  "url_join bracketed_ok base_authority path =
     (let url = drop_controls path; a = url_authority url; u = parse_rest (url_rest url) in
      if \<not> authority_ok bracketed_ok a then Inl (ValueError ''Invalid IPv6 URL'')
      else if a \<noteq> [] then Inr (a, unparse_rest u)
      else if up_path u = [] \<and> up_params u = [] then Inr (base_authority, unparse_rest u)
      else Inr (base_authority, unparse_rest (u\<lparr>up_path := remove_dots (up_path u)\<rparr>)))"

section \<open>Signing\<close>

text \<open>
  \<open>load_private_key\<close>: the key, or none if no path is set, the file is missing or unreadable, or it does
  not hold an RSA key. \<open>sign_response_body\<close> encodes the RSA signature, a parameter, in base 64.
\<close>

datatype 'k key_file =
    NoSuchFile
  | UnreadableKey string
  | OtherKey
  | RsaKey 'k

definition load_private_key :: "(string \<Rightarrow> 'k key_file) \<Rightarrow> string option \<Rightarrow> 'k option" where
  "load_private_key read_key path =
     (case path of
        None \<Rightarrow> None
      | Some p \<Rightarrow> (case read_key p of RsaKey k \<Rightarrow> Some k | _ \<Rightarrow> None))"

definition b64_char :: "nat \<Rightarrow> char" where
  "b64_char n = ''ABCDEFGHIJKLMNOPQRSTUVWXYZabcdefghijklmnopqrstuvwxyz0123456789+/'' ! n"

fun b64encode_bytes :: "nat list \<Rightarrow> string" where
  "b64encode_bytes [] = []"
| "b64encode_bytes [a] = [b64_char (a div 4), b64_char (a mod 4 * 16), CHR ''='', CHR ''='']"
| "b64encode_bytes [a, b] =
     [b64_char (a div 4), b64_char (a mod 4 * 16 + b div 16), b64_char (b mod 16 * 4), CHR ''='']"
| "b64encode_bytes (a # b # c # bs) =
     b64_char (a div 4) # b64_char (a mod 4 * 16 + b div 16) # b64_char (b mod 16 * 4 + c div 64)
     # b64_char (c mod 64) # b64encode_bytes bs"

definition sign_response_body :: "('k \<Rightarrow> string \<Rightarrow> nat list) \<Rightarrow> 'k \<Rightarrow> string \<Rightarrow> string" where
  "sign_response_body rsa_sign key body = b64encode_bytes (rsa_sign key body)"

text \<open>The constructor of \<open>ExternalProxyServer\<close>: there is no external server without a key.\<close>

definition external_server :: "(string \<Rightarrow> 'k key_file) \<Rightarrow> string option \<Rightarrow> 'k res" where
  "external_server read_key path =
     (case load_private_key read_key path of
        None \<Rightarrow> Inl (RuntimeError ''TLS private key could not be loaded; cannot start external proxy without signing key'')
      | Some k \<Rightarrow> Inr k)"

section \<open>State and environment\<close>

text \<open>
  A request to a backend as \<open>proxy_request\<close> is asked for it, and as it is sent. The state is what both
  servers share: the count of socket failures; beside it, every request sent so far with whether it was
  answered, for the statements below.
\<close>

record outgoing =
  og_target :: string
  og_method :: string
  og_path :: string
  og_headers :: "(string \<times> string) list"
  og_body :: string
  og_params :: "(string \<times> string) list"
  og_unix :: bool

record sent =
  sn_url :: "string \<times> string"
  sn_method :: string
  sn_headers :: "(string \<times> string) list"
  sn_body :: string
  sn_params :: "(string \<times> string) list"
  sn_unix :: bool

record proxy_state =
  px_failures :: nat  \<comment> \<open>\<open>consecutive_socket_failures\<close>\<close>
  px_log :: "(sent \<times> bool) list"

record proxy_response =
  pr_status :: int
  pr_headers :: "(string \<times> string) list"
  pr_body :: string

datatype upstream =
    Answered proxy_response
  | ConnectFailed string
  | RequestFailed string
  | OtherFailure string

text \<open>
  The surroundings: how the n-th request is answered, whether a retry is still within the five seconds
  (for the decorator of the base class and for that of the external server), the socket, the clients.
\<close>

record proxy_env =
  pe_upstream :: "nat \<Rightarrow> sent \<Rightarrow> upstream"
  pe_retry_base :: "nat \<Rightarrow> bool"
  pe_retry_external :: "nat \<Rightarrow> bool"
  pe_socket_valid :: bool
  pe_unix_client :: bool
  pe_http_client :: bool
  pe_bracketed_ok :: "string \<Rightarrow> bool"
  pe_namespace :: string
  pe_service_port :: string

section \<open>Forwarding\<close>

definition hop_headers :: "string list" where
  "hop_headers = [''connection'', ''upgrade'', ''proxy-authenticate'', ''proxy-authorization'', ''te'',
     ''trailers'', ''transfer-encoding'']"

definition filter_headers :: "string list \<Rightarrow> (string \<times> string) list \<Rightarrow> (string \<times> string) list" where
  "filter_headers banned hs = filter (\<lambda>(k, v). lower k \<notin> set banned) hs"

definition count_failure :: "bool \<Rightarrow> proxy_state \<Rightarrow> proxy_state" where
  "count_failure use_unix st = (if use_unix then st\<lparr>px_failures := px_failures st + 1\<rparr> else st)"

definition to_send :: "outgoing \<Rightarrow> string \<times> string \<Rightarrow> sent" where
  "to_send og url =
     \<lparr>sn_url = url, sn_method = og_method og,
      sn_headers = filter_headers (''host'' # hop_headers) (og_headers og),
      sn_body = og_body og, sn_params = og_params og, sn_unix = og_unix og\<rparr>"

definition log_sent :: "sent \<Rightarrow> bool \<Rightarrow> proxy_state \<Rightarrow> proxy_state" where
  "log_sent sn ok st = st\<lparr>px_log := px_log st @ [(sn, ok)]\<rparr>"

text \<open>One call of \<open>BaseProxyServer.proxy_request\<close>, without the retry around it.\<close>

definition proxy_attempt :: "proxy_env \<Rightarrow> outgoing \<Rightarrow> proxy_state \<Rightarrow> proxy_state \<times> proxy_response res" where
  "proxy_attempt env og st =
     (case url_join (pe_bracketed_ok env) (og_target og) (og_path og) of
        Inl e \<Rightarrow> (st, Inl e)
      | Inr url \<Rightarrow>
          if \<not> (if og_unix og then pe_unix_client env else pe_http_client env)
          then (st, Inl (HTTPException 503 ''Proxy HTTP client not initialized''))
          else
            let sn = to_send og url in
            (case pe_upstream env (length (px_log st)) sn of
               Answered r \<Rightarrow>
                 (let st1 = log_sent sn True st in
                  if og_unix og then st1\<lparr>px_failures := 0\<rparr> else st1,
                  Inr (r\<lparr>pr_headers := map (\<lambda>(k, v). (lower k, v))
                         (filter_headers (hop_headers @ [''server'']) (pr_headers r))\<rparr>))
             | ConnectFailed m \<Rightarrow> (count_failure (og_unix og) (log_sent sn False st), Inl (ConnectError m))
             | RequestFailed m \<Rightarrow>
                 (count_failure (og_unix og) (log_sent sn False st),
                  Inl (HTTPException 502 (''Proxy request failed: '' @ m)))
             | OtherFailure m \<Rightarrow>
                 (count_failure (og_unix og) (log_sent sn False st),
                  Inl (HTTPException 500 (''Internal proxy error: '' @ m)))))"

text \<open>\<open>backoff.on_exception(expo, ConnectError, max_tries=2, max_time=5)\<close>.\<close>

definition with_backoff ::
  "(nat \<Rightarrow> bool) \<Rightarrow> (proxy_state \<Rightarrow> proxy_state \<times> 'a res) \<Rightarrow> proxy_state \<Rightarrow> proxy_state \<times> 'a res" where
  "with_backoff in_time call st =
     (case call st of
        (st1, Inl (ConnectError m)) \<Rightarrow>
          if in_time (length (px_log st1)) then call st1 else (st1, Inl (ConnectError m))
      | r \<Rightarrow> r)"

definition base_proxy_request :: "proxy_env \<Rightarrow> outgoing \<Rightarrow> proxy_state \<Rightarrow> proxy_state \<times> proxy_response res" where
  "base_proxy_request env og st = with_backoff (pe_retry_base env) (proxy_attempt env og) st"

text \<open>
  Setting a header of a response: the first of that name gets the value, the others go; without one
  it is appended.
\<close>

fun set_header :: "string \<Rightarrow> string \<Rightarrow> (string \<times> string) list \<Rightarrow> (string \<times> string) list" where
  "set_header k v [] = [(k, v)]"
| "set_header k v ((k', v') # hs) =
     (if k' = k then (k, v) # filter (\<lambda>(k'', v''). k'' \<noteq> k) hs else (k', v') # set_header k v hs)"

definition sign_response :: "(string \<Rightarrow> string) \<Rightarrow> proxy_response \<Rightarrow> proxy_response" where
  "sign_response sign r = r\<lparr>pr_headers := set_header ''x-signature'' (sign (pr_body r)) (pr_headers r)\<rparr>"

definition external_proxy_request ::
  "proxy_env \<Rightarrow> (string \<Rightarrow> string) \<Rightarrow> outgoing \<Rightarrow> proxy_state \<Rightarrow> proxy_state \<times> proxy_response res" where
  "external_proxy_request env sign og st =
     with_backoff (pe_retry_external env) (\<lambda>st. case base_proxy_request env og st of
        (st1, Inr r) \<Rightarrow> (st1, Inr (sign_response sign r))
      | (st1, Inl e) \<Rightarrow> (st1, Inl e)) st"

section \<open>Routes\<close>

text \<open>
  A request as it comes in, with its headers (names in lower case, as the server hands them on) and its
  query; \<open>dict(request.query_params)\<close> keeps the last value of a name.
\<close>

record incoming =
  in_request :: http_request
  in_headers :: "(string \<times> string) list"
  in_params :: "(string \<times> string) list"

definition get_header :: "(string \<times> string) list \<Rightarrow> string \<Rightarrow> string" where
  "get_header hs k = (case List.find (\<lambda>(k', v). lower k' = lower k) hs of Some (k', v) \<Rightarrow> v | None \<Rightarrow> [])"

definition client_cert_headers :: "string list" where
  "client_cert_headers = [''X-Client-Cert'', ''X-Client-Verify'', ''X-Client-S-DN'', ''X-Client-I-DN'',
     ''X-Real-IP'', ''X-Forwarded-For'', ''X-Forwarded-Proto'']"

definition extract_client_cert_info :: "incoming \<Rightarrow> (string \<times> string) list" where
  "extract_client_cert_info rq = map (\<lambda>k. (k, get_header (in_headers rq) k)) client_cert_headers"

definition forward_headers :: "incoming \<Rightarrow> (string \<times> string) list" where
  "forward_headers rq =
     fold (\<lambda>(k, v) hs. if lower k \<in> set [''host'', ''content-length''] then hs else AList.update k v hs)
       (in_headers rq) (extract_client_cert_info rq)"

definition query_dict :: "incoming \<Rightarrow> (string \<times> string) list" where
  "query_dict rq = fold (\<lambda>(k, v) d. AList.update k v d) (in_params rq) []"

definition host_request :: "incoming \<Rightarrow> string \<Rightarrow> outgoing" where
  "host_request rq path =
     \<lparr>og_target = ''localhost'', og_method = rq_method (in_request rq), og_path = ''/'' @ path,
      og_headers = forward_headers rq, og_body = rq_body (in_request rq), og_params = query_dict rq,
      og_unix = True\<rparr>"

definition valid_service_name :: "string \<Rightarrow> bool" where
  "valid_service_name name =
     (let s = filter (\<lambda>c. c \<noteq> CHR ''-'' \<and> c \<noteq> CHR ''_'') name in s \<noteq> [] \<and> list_all alnum_char s)"

definition service_authority :: "proxy_env \<Rightarrow> string \<Rightarrow> string" where
  "service_authority env name =
     name @ ''.'' @ pe_namespace env @ ''.svc.cluster.local:'' @ pe_service_port env"

definition service_request :: "proxy_env \<Rightarrow> incoming \<Rightarrow> string \<Rightarrow> string \<Rightarrow> outgoing res" where
  "service_request env rq name path =
     (if \<not> valid_service_name name then Inl (HTTPException 400 ''Invalid service name'')
      else Inr \<lparr>og_target = service_authority env name, og_method = rq_method (in_request rq),
                og_path = ''/'' @ path,
                og_headers = forward_headers rq, og_body = rq_body (in_request rq), og_params = query_dict rq,
                og_unix = False\<rparr>)"

text \<open>
  Routing: patterns are regular expressions, in which a dot is no line break and the end of the text
  may be followed by one. The first pattern that fits path and method serves the request; if a pattern
  fits the path only, the method is refused; otherwise a slash at the end is added or removed and, if
  that fits a pattern, the client is redirected.
\<close>

datatype route =
    Health
  | HostHealth
  | Devices
  | HostPath string
  | ServicePath string string
  | MethodNotAllowed
  | Redirect string
  | NotFound

definition proxied_methods :: "string list" where
  "proxied_methods = [''GET'', ''POST'', ''PUT'', ''DELETE'', ''PATCH'']"

definition path_is :: "string \<Rightarrow> string \<Rightarrow> bool" where
  "path_is pattern path \<longleftrightarrow> path = pattern \<or> path = pattern @ [newline]"

definition rest_of_path :: "string \<Rightarrow> string option" where
  "rest_of_path p =
     (if newline \<notin> set p then Some p
      else if last p = newline \<and> newline \<notin> set (butlast p) then Some (butlast p)
      else None)"

definition strip_prefix :: "string \<Rightarrow> string \<Rightarrow> string option" where
  "strip_prefix p s = (if startswith s p then Some (drop (length p) s) else None)"

text \<open>The path patterns both servers share; the first segment after \<open>/service/\<close> is the name.\<close>

definition service_path :: "string \<Rightarrow> route option" where
  "service_path p =
     (case split_once (CHR ''/'') p of
        (name, rest) \<Rightarrow>
          if CHR ''/'' \<in> set p \<and> name \<noteq> [] then map_option (ServicePath name) (rest_of_path rest) else None)"

definition proxied_path :: "string \<Rightarrow> route option" where
  "proxied_path path =
     (case strip_prefix ''/server/'' path of
        Some p \<Rightarrow> map_option HostPath (rest_of_path p)
      | None \<Rightarrow>
          (case strip_prefix ''/service/'' path of
             Some p \<Rightarrow> service_path p
           | None \<Rightarrow> None))"

definition known_path :: "string \<Rightarrow> bool" where
  "known_path path \<longleftrightarrow> path_is ''/health'' path \<or> proxied_path path \<noteq> None"

definition slash_redirect :: "string \<Rightarrow> route" where
  "slash_redirect path =
     (let other = (if endswith path ''/'' then rev (dropWhile (\<lambda>c. c = CHR ''/'') (rev path)) else path @ ''/'') in
      if path \<noteq> ''/'' \<and> known_path other then Redirect other else NotFound)"

definition proxied_route :: "string \<Rightarrow> string \<Rightarrow> route" where
  "proxied_route rq_meth path =
     (case proxied_path path of
        Some r \<Rightarrow> if rq_meth \<in> set proxied_methods then r else MethodNotAllowed
      | None \<Rightarrow> slash_redirect path)"

definition external_route :: "string \<Rightarrow> string \<Rightarrow> route" where
  "external_route rq_meth path =
     (if path_is ''/health'' path then if rq_meth = ''GET'' then Health else MethodNotAllowed
      else if rq_meth = ''GET'' \<and> path_is ''/server/health'' path then HostHealth
      else if rq_meth = ''GET'' \<and> path_is ''/server/devices'' path then Devices
      else proxied_route rq_meth path)"

definition internal_route :: "string \<Rightarrow> string \<Rightarrow> route" where
  "internal_route rq_meth path =
     (if path_is ''/health'' path then if rq_meth = ''GET'' then Health else MethodNotAllowed
      else proxied_route rq_meth path)"

definition max_consecutive_failures :: nat where "max_consecutive_failures = 5"

definition proxy_health :: "proxy_env \<Rightarrow> proxy_state \<Rightarrow> proxy_response" where
  "proxy_health env st =
     (if \<not> pe_socket_valid env
      then \<lparr>pr_status = 503, pr_headers = [], pr_body = ''unhealthy: unix socket unavailable''\<rparr>
      else if max_consecutive_failures \<le> px_failures st
      then \<lparr>pr_status = 503, pr_headers = [],
            pr_body = ''unhealthy: '' @ str_int (int (px_failures st)) @ '' consecutive socket failures''\<rparr>
      else \<lparr>pr_status = 200, pr_headers = [], pr_body = ''{\"status\":\"healthy\",\"service\":\"attestation-proxy\",\"socket_valid\":true,\"consecutive_failures\":''
              @ str_int (int (px_failures st)) @ ''}''\<rparr>)"

definition not_found :: "string \<Rightarrow> proxy_response" where
  "not_found path = \<lparr>pr_status = 404, pr_headers = [], pr_body = ''Proxy route not found: '' @ path\<rparr>"

text \<open>Running a request only if a check before it returned.\<close>

definition after_check ::
  "unit res \<Rightarrow> (proxy_state \<Rightarrow> proxy_state \<times> 'a res) \<Rightarrow> proxy_state \<Rightarrow> proxy_state \<times> 'a res" where
  "after_check c run st = (case c of Inl e \<Rightarrow> (st, Inl e) | Inr _ \<Rightarrow> run st)"

definition send_to_service ::
  "(outgoing \<Rightarrow> proxy_state \<Rightarrow> proxy_state \<times> proxy_response res) \<Rightarrow> proxy_env \<Rightarrow> incoming \<Rightarrow> string \<Rightarrow> string
   \<Rightarrow> proxy_state \<Rightarrow> proxy_state \<times> proxy_response res" where
  "send_to_service send env rq name path st =
     (case service_request env rq name path of Inl e \<Rightarrow> (st, Inl e) | Inr og \<Rightarrow> send og st)"

definition redirect_to :: "string \<Rightarrow> proxy_response" where
  "redirect_to path = \<lparr>pr_status = 307, pr_headers = [(''location'', path)], pr_body = []\<rparr>"

definition external_handle ::
  "'k crypto \<Rightarrow> auth_config \<Rightarrow> proxy_env \<Rightarrow> (string \<Rightarrow> string) \<Rightarrow> int \<Rightarrow> incoming \<Rightarrow> proxy_state
   \<Rightarrow> proxy_state \<times> proxy_response res" where
  "external_handle C settings env sign now rq st =
     (let r = in_request rq; send = external_proxy_request env sign;
          validators = authorize C settings [] False True (Some ''attest'') now r;
          anyone = authorize C settings [] True True (Some ''attest'') now r in
      case external_route (rq_method r) (rq_path r) of
        Health \<Rightarrow> (st, Inr (proxy_health env st))
      | HostHealth \<Rightarrow> send (host_request rq ''health'') st
      | Devices \<Rightarrow> after_check anyone (send (host_request rq ''devices'')) st
      | HostPath p \<Rightarrow> after_check validators (send (host_request rq p)) st
      | ServicePath name p \<Rightarrow> after_check validators (send_to_service send env rq name p) st
      | MethodNotAllowed \<Rightarrow> (st, Inl (HTTPException 405 ''Method Not Allowed''))
      | Redirect p \<Rightarrow> (st, Inr (redirect_to p))
      | NotFound \<Rightarrow> (st, Inr (not_found (rq_path r))))"

definition internal_handle :: "proxy_env \<Rightarrow> incoming \<Rightarrow> proxy_state \<Rightarrow> proxy_state \<times> proxy_response res" where
  "internal_handle env rq st =
     (let r = in_request rq; send = base_proxy_request env in
      case internal_route (rq_method r) (rq_path r) of
        Health \<Rightarrow> (st, Inr (proxy_health env st))
      | HostPath p \<Rightarrow> send (host_request rq p) st
      | ServicePath name p \<Rightarrow> send_to_service send env rq name p st
      | MethodNotAllowed \<Rightarrow> (st, Inl (HTTPException 405 ''Method Not Allowed''))
      | Redirect p \<Rightarrow> (st, Inr (redirect_to p))
      | _ \<Rightarrow> (st, Inr (not_found (rq_path r))))"

section \<open>A contract for what calls a backend\<close>

text \<open>
  The requests of a log to the host's socket that failed since the last answer; the count the servers
  keep is meant to be this number.
\<close>

definition socket_outcomes :: "(sent \<times> bool) list \<Rightarrow> bool list" where
  "socket_outcomes lg = map snd (filter (\<lambda>(sn, ok). sn_unix sn) lg)"

definition trailing_failures :: "(sent \<times> bool) list \<Rightarrow> nat" where
  "trailing_failures lg = length (takeWhile Not (rev (socket_outcomes lg)))"

definition counted :: "proxy_state \<Rightarrow> bool" where
  "counted st \<longleftrightarrow> px_failures st = trailing_failures (px_log st)"

definition log_extends :: "nat \<Rightarrow> (sent \<Rightarrow> bool) \<Rightarrow> proxy_state \<Rightarrow> proxy_state \<Rightarrow> bool" where
  "log_extends n P st st' \<longleftrightarrow>
     (\<exists>new. px_log st' = px_log st @ new \<and> length new \<le> n \<and> list_all (P \<circ> fst) new)"

lemma log_extends_refl [simp]: "log_extends n P st st"
  by (simp add: log_extends_def)

lemma log_extends_trans:
  "log_extends m P st st1 \<Longrightarrow> log_extends n P st1 st2 \<Longrightarrow> log_extends (m + n) P st st2"
proof -
  assume "log_extends m P st st1" "log_extends n P st1 st2"
  then obtain a b where "px_log st1 = px_log st @ a" "length a \<le> m" "list_all (P \<circ> fst) a"
      "px_log st2 = px_log st1 @ b" "length b \<le> n" "list_all (P \<circ> fst) b"
    unfolding log_extends_def by blast
  then show ?thesis unfolding log_extends_def by (intro exI[of _ "a @ b"]) simp
qed

lemma log_extends_mono:
  "log_extends m P st st' \<Longrightarrow> m \<le> n \<Longrightarrow> (\<And>sn. P sn \<Longrightarrow> Q sn) \<Longrightarrow> log_extends n Q st st'"
  unfolding log_extends_def by (auto simp: list_all_iff intro: order_trans)

text \<open>
  Something that talks to the backends: it sends at most \<open>bound\<close> requests, all of them \<open>admitted\<close>, and
  keeps the count of failures right. A retry on top of it does the same with twice the bound.
\<close>

locale backend_call =
  fixes call :: "proxy_state \<Rightarrow> proxy_state \<times> 'a res"
    and bound :: nat
    and admitted :: "sent \<Rightarrow> bool"
  assumes extends: "log_extends bound admitted st (fst (call st))"
    and counts: "counted st \<Longrightarrow> counted (fst (call st))"
begin

lemma backoff_cases:
  "with_backoff in_time call st = call st \<or> with_backoff in_time call st = call (fst (call st))"
  by (auto simp: with_backoff_def split: prod.splits sum.splits exn.splits)

lemma backoff_extends: "log_extends (2 * bound) admitted st (fst (with_backoff in_time call st))"
  using backoff_cases[of in_time st] log_extends_trans[OF extends[of st] extends]
    log_extends_mono[OF extends[of st], of "2 * bound" admitted]
  by (auto simp: mult_2)

lemma backoff_counts: "counted st \<Longrightarrow> counted (fst (with_backoff in_time call st))"
  using backoff_cases[of in_time st] counts by metis

lemma backoff_call: "backend_call (with_backoff in_time call) (2 * bound) admitted"
  by unfold_locales (simp_all add: backoff_extends backoff_counts)

lemma check_extends: "log_extends bound (\<lambda>sn. c = Inr () \<and> admitted sn) st (fst (after_check c call st))"
  using log_extends_mono[OF extends[of st], of bound] by (cases c) (simp_all add: after_check_def)

lemma check_counts: "counted st \<Longrightarrow> counted (fst (after_check c call st))"
  by (simp add: after_check_def counts split: sum.split)

end

lemma trailing_snoc:
  "trailing_failures (lg @ [(sn, ok)]) =
     (if \<not> sn_unix sn then trailing_failures lg else if ok then 0 else Suc (trailing_failures lg))"
  by (simp add: trailing_failures_def socket_outcomes_def)

text \<open>What \<open>proxy_request\<close> sends for a request: the URL is the joined one.\<close>

definition sent_for :: "proxy_env \<Rightarrow> outgoing \<Rightarrow> sent \<Rightarrow> bool" where
  "sent_for env og sn \<longleftrightarrow>
     (case url_join (pe_bracketed_ok env) (og_target og) (og_path og) of
        Inl e \<Rightarrow> False | Inr url \<Rightarrow> sn = to_send og url)"

lemma to_send_unix [simp]: "sn_unix (to_send og url) = og_unix og"
  by (simp add: to_send_def)

interpretation attempt: backend_call "proxy_attempt env og" 1 "sent_for env og" for env og
proof unfold_locales
  show "log_extends 1 (sent_for env og) st (fst (proxy_attempt env og st))" for st
    by (auto simp: proxy_attempt_def log_extends_def log_sent_def count_failure_def Let_def sent_for_def
        split: sum.split upstream.split)
  show "counted (fst (proxy_attempt env og st))" if "counted st" for st
    using that
    by (auto simp: proxy_attempt_def counted_def log_sent_def count_failure_def Let_def trailing_snoc
        split: sum.split upstream.split)
qed

interpretation base: backend_call "base_proxy_request env og" 2 "sent_for env og" for env og
  using attempt.backoff_call[where in_time = "pe_retry_base env"]
  by (simp add: base_proxy_request_def[abs_def] numeral_2_eq_2)

text \<open>Signing changes the answer only.\<close>

definition signed_request ::
  "proxy_env \<Rightarrow> (string \<Rightarrow> string) \<Rightarrow> outgoing \<Rightarrow> proxy_state \<Rightarrow> proxy_state \<times> proxy_response res" where
  "signed_request env sign og st =
     (case base_proxy_request env og st of
        (st1, Inr r) \<Rightarrow> (st1, Inr (sign_response sign r))
      | (st1, Inl e) \<Rightarrow> (st1, Inl e))"

lemma fst_signed_request [simp]: "fst (signed_request env sign og st) = fst (base_proxy_request env og st)"
  by (simp add: signed_request_def split: prod.split sum.split)

interpretation signing: backend_call "signed_request env sign og" 2 "sent_for env og" for env sign og
  by unfold_locales (simp_all add: base.extends base.counts)

lemma external_is_backoff:
  "external_proxy_request env sign og = with_backoff (pe_retry_external env) (signed_request env sign og)"
  by (simp add: fun_eq_iff external_proxy_request_def signed_request_def[abs_def])

interpretation external: backend_call "external_proxy_request env sign og" 4 "sent_for env og" for env sign og
  using signing.backoff_call[where in_time = "pe_retry_external env"]
  by (simp add: external_is_backoff)


section \<open>Which requests reach a backend\<close>

text \<open>A request for one service.\<close>

definition service_sent :: "proxy_env \<Rightarrow> incoming \<Rightarrow> string \<Rightarrow> string \<Rightarrow> sent \<Rightarrow> bool" where
  "service_sent env rq name path sn \<longleftrightarrow>
     (case service_request env rq name path of Inl e \<Rightarrow> False | Inr og \<Rightarrow> sent_for env og sn)"

lemma send_to_service_call:
  assumes "\<And>og. backend_call (send og) n (sent_for env og)"
  shows "backend_call (send_to_service send env rq name path) n (service_sent env rq name path)"
proof (cases "service_request env rq name path")
  case (Inl e)
  then show ?thesis by unfold_locales (simp_all add: send_to_service_def)
next
  case (Inr og)
  then show ?thesis
    using assms[of og] by (simp add: backend_call_def send_to_service_def service_sent_def[abs_def])
qed

interpretation to_service: backend_call
    "send_to_service (external_proxy_request env sign) env rq name path" 4 "service_sent env rq name path"
  for env sign rq name path
  by (rule send_to_service_call) (rule external.backend_call_axioms)

interpretation to_service_internal: backend_call
    "send_to_service (base_proxy_request env) env rq name path" 2 "service_sent env rq name path"
  for env rq name path
  by (rule send_to_service_call) (rule base.backend_call_axioms)

text \<open>
  What a request may make the external server send: its route, its authentication and the backend.
\<close>

definition external_admits ::
  "'k crypto \<Rightarrow> auth_config \<Rightarrow> proxy_env \<Rightarrow> int \<Rightarrow> incoming \<Rightarrow> sent \<Rightarrow> bool" where
  "external_admits C settings env now rq sn =
     (let r = in_request rq;
          by_validator = (authorize C settings [] False True (Some ''attest'') now r = Inr ());
          by_anyone = (authorize C settings [] True True (Some ''attest'') now r = Inr ()) in
      case external_route (rq_method r) (rq_path r) of
        HostHealth \<Rightarrow> sent_for env (host_request rq ''health'') sn
      | Devices \<Rightarrow> by_anyone \<and> sent_for env (host_request rq ''devices'') sn
      | HostPath p \<Rightarrow> by_validator \<and> sent_for env (host_request rq p) sn
      | ServicePath name p \<Rightarrow> by_validator \<and> service_sent env rq name p sn
      | _ \<Rightarrow> False)"

interpretation external_server: backend_call "external_handle C settings env sign now rq" 4
    "external_admits C settings env now rq" for C settings env sign now rq
proof unfold_locales
  fix st
  show "log_extends 4 (external_admits C settings env now rq) st
      (fst (external_handle C settings env sign now rq st))"
    using external.extends external.check_extends to_service.check_extends
    by (simp add: external_handle_def external_admits_def[abs_def] Let_def split: route.split)
  show "counted (fst (external_handle C settings env sign now rq st))" if "counted st"
    using external.counts[OF that] external.check_counts[OF that] to_service.check_counts[OF that] that
    by (simp add: external_handle_def Let_def split: route.split)
qed

definition internal_admits :: "proxy_env \<Rightarrow> incoming \<Rightarrow> sent \<Rightarrow> bool" where
  "internal_admits env rq sn =
     (case internal_route (rq_method (in_request rq)) (rq_path (in_request rq)) of
        HostPath p \<Rightarrow> sent_for env (host_request rq p) sn
      | ServicePath name p \<Rightarrow> service_sent env rq name p sn
      | _ \<Rightarrow> False)"

interpretation internal_server: backend_call "internal_handle env rq" 2 "internal_admits env rq" for env rq
proof unfold_locales
  fix st
  show "log_extends 2 (internal_admits env rq) st (fst (internal_handle env rq st))"
    using base.extends to_service_internal.extends
    by (simp add: internal_handle_def internal_admits_def[abs_def] Let_def split: route.split)
  show "counted (fst (internal_handle env rq st))" if "counted st"
    using base.counts[OF that] to_service_internal.counts[OF that] that
    by (simp add: internal_handle_def Let_def split: route.split)
qed

lemma fixed_host_urls:
  "url_join ok a ''/health'' = Inr (a, ''/health'')" "url_join ok a ''/devices'' = Inr (a, ''/devices'')"
  by (simp_all add: url_join_def drop_controls_def url_authority_def url_rest_def authority_ok_def
      parse_rest_def split_once_def split_params_def unparse_rest_def part_text_def remove_dots_def Let_def
      char_of_def)


lemma list_all_imp: "list_all P xs \<Longrightarrow> (\<And>x. x \<in> set xs \<Longrightarrow> P x \<Longrightarrow> Q x) \<Longrightarrow> list_all Q xs"
  by (simp add: list_all_iff)

lemma proxied_route_cases: "proxied_route m p \<notin> {Health, HostHealth, Devices}"
  by (auto simp: proxied_route_def proxied_path_def service_path_def slash_redirect_def Let_def
      split: option.split prod.split)

lemma external_route_cases:
  "external_route m p = HostHealth \<Longrightarrow> m = ''GET'' \<and> path_is ''/server/health'' p"
  "external_route m p = Devices \<Longrightarrow> m = ''GET'' \<and> path_is ''/server/devices'' p"
  using proxied_route_cases[of m p] by (auto simp: external_route_def split: if_splits)

lemma external_admits_auth:
  assumes "external_admits C settings env now rq sn"
  shows "authorize C settings [] False True (Some ''attest'') now (in_request rq) = Inr () \<or>
     sn_unix sn \<and> rq_method (in_request rq) = ''GET'' \<and>
     (path_is ''/server/health'' (rq_path (in_request rq)) \<and> sn_url sn = (''localhost'', ''/health'') \<or>
      path_is ''/server/devices'' (rq_path (in_request rq)) \<and> sn_url sn = (''localhost'', ''/devices'') \<and>
      authorize C settings [] True True (Some ''attest'') now (in_request rq) = Inr ())"
  using assms
  by (auto simp: external_admits_def sent_for_def host_request_def fixed_host_urls to_send_def Let_def
      dest!: external_route_cases split: route.splits)

text \<open>
  C6: the external server sends nothing to a backend for a request it has not authenticated, apart from
  the host's health check. Whatever the request, at most four requests are sent; each is sent for a
  validator's signature, except that a GET of \<open>/server/health\<close> may send the fixed URL \<open>/health\<close>, and a GET
  of \<open>/server/devices\<close> signed by the miner or a validator the fixed URL \<open>/devices\<close>, to the host's socket.
\<close>

theorem external_requests_are_authenticated:
  "\<exists>new. px_log (fst (external_handle C settings env sign now rq st)) = px_log st @ new \<and>
     length new \<le> 4 \<and>
     list_all (\<lambda>(sn, ok).
       authorize C settings [] False True (Some ''attest'') now (in_request rq) = Inr () \<or>
       sn_unix sn \<and> rq_method (in_request rq) = ''GET'' \<and>
       (path_is ''/server/health'' (rq_path (in_request rq)) \<and> sn_url sn = (''localhost'', ''/health'') \<or>
        path_is ''/server/devices'' (rq_path (in_request rq)) \<and> sn_url sn = (''localhost'', ''/devices'') \<and>
        authorize C settings [] True True (Some ''attest'') now (in_request rq) = Inr ())) new"
  using external_server.extends[of C settings env now rq st sign] external_admits_auth
  unfolding log_extends_def by (fastforce elim!: list_all_imp)

section \<open>Signed answers\<close>

lemma set_header_sole: "filter (\<lambda>(k', v'). k' = k) (set_header k v hs) = [(k, v)]"
  by (induction k v hs rule: set_header.induct) (auto simp: filter_empty_conv)

definition signed_by :: "(string \<Rightarrow> string) \<Rightarrow> proxy_response \<Rightarrow> bool" where
  "signed_by sign r \<longleftrightarrow>
     filter (\<lambda>(k, v). k = ''x-signature'') (pr_headers r) = [(''x-signature'', sign (pr_body r))]"

lemma sign_response_signed: "signed_by sign (sign_response sign r)"
  by (simp add: signed_by_def sign_response_def set_header_sole)

lemma signed_request_signed: "signed_request env sign og st = (st', Inr r) \<Longrightarrow> signed_by sign r"
  by (auto simp: signed_request_def sign_response_signed split: prod.splits sum.splits)

lemma external_proxy_signed: "external_proxy_request env sign og st = (st', Inr r) \<Longrightarrow> signed_by sign r"
  unfolding external_is_backoff
  using signing.backoff_cases[of "pe_retry_external env" env sign og st] signed_request_signed by metis

lemma after_check_Inr: "after_check c run st = (st', Inr r) \<Longrightarrow> run st = (st', Inr r)"
  by (auto simp: after_check_def split: sum.splits)

lemma send_to_service_signed:
  "send_to_service (external_proxy_request env sign) env rq name p st = (st', Inr r) \<Longrightarrow> signed_by sign r"
  by (auto simp: send_to_service_def external_proxy_signed split: sum.splits)

text \<open>
  Every answer of a backend that leaves the external server carries exactly one \<open>X-Signature\<close>
  header, the signature of its body, also when the backend sent such headers of its own.
\<close>

theorem backend_answers_are_signed:
  assumes run: "external_handle C settings env sign now rq st = (st', Inr r)"
    and sent: "px_log st' \<noteq> px_log st"
  shows "filter (\<lambda>(k, v). k = ''x-signature'') (pr_headers r) = [(''x-signature'', sign (pr_body r))]"
proof -
  have "signed_by sign r"
    using run sent
    by (auto simp: external_handle_def Let_def split: route.splits
        dest!: after_check_Inr external_proxy_signed send_to_service_signed)
  then show ?thesis by (simp add: signed_by_def)
qed


section \<open>The health check\<close>

text \<open>
  The states of the proxy: from the start, by single calls of \<open>proxy_request\<close> (of requests that are
  served concurrently) and by whole requests to either server, whatever the surroundings do.
\<close>

inductive proxy_reaches :: "'k crypto \<Rightarrow> auth_config \<Rightarrow> (string \<Rightarrow> string) \<Rightarrow> proxy_state \<Rightarrow> bool"
  for C settings sign where
  start: "proxy_reaches C settings sign \<lparr>px_failures = 0, px_log = []\<rparr>"
| one_call: "proxy_reaches C settings sign st \<Longrightarrow> proxy_reaches C settings sign (fst (proxy_attempt env og st))"
| by_external: "proxy_reaches C settings sign st \<Longrightarrow>
    proxy_reaches C settings sign (fst (external_handle C settings env sign now rq st))"
| by_internal: "proxy_reaches C settings sign st \<Longrightarrow> proxy_reaches C settings sign (fst (internal_handle env rq st))"

lemma proxy_reaches_counted: "proxy_reaches C settings sign st \<Longrightarrow> counted st"
proof (induction rule: proxy_reaches.induct)
  case start
  then show ?case by (simp add: counted_def trailing_failures_def socket_outcomes_def)
qed (simp_all add: attempt.counts external_server.counts internal_server.counts)

lemma prefix_replicate_iff: "prefix (replicate n False) xs \<longleftrightarrow> n \<le> length (takeWhile Not xs)"
proof (induction n arbitrary: xs)
  case (Suc n)
  then show ?case by (cases xs) auto
qed simp

lemma trailing_failures_iff:
  "n \<le> trailing_failures lg \<longleftrightarrow> suffix (replicate n False) (socket_outcomes lg)"
  by (simp add: trailing_failures_def suffix_to_prefix flip: prefix_replicate_iff)

text \<open>
  In every state the proxy reaches, the health check reports 503 if the socket is gone or the last
  five requests to it, over both servers, all failed, and 200 otherwise: one answer, whatever its
  status, makes the proxy healthy again, and requests to services count for nothing.
\<close>

theorem health_reflects_socket_failures:
  assumes "proxy_reaches C settings sign st"
  shows "pr_status (proxy_health env st) =
     (if \<not> pe_socket_valid env \<or> suffix [False, False, False, False, False] (socket_outcomes (px_log st))
      then 503 else 200)"
proof -
  have five: "replicate max_consecutive_failures False = [False, False, False, False, False]"
    by (simp add: max_consecutive_failures_def numeral_nat)
  have "max_consecutive_failures \<le> px_failures st \<longleftrightarrow>
      suffix [False, False, False, False, False] (socket_outcomes (px_log st))"
    using proxy_reaches_counted[OF assms]
    by (simp add: counted_def trailing_failures_iff[of max_consecutive_failures] five)
  then show ?thesis by (simp add: proxy_health_def)
qed

section \<open>Which backend a request reaches\<close>

lemma drop_controls_slash: "drop_controls (''/'' @ p) = CHR ''/'' # drop_controls p"
  by (simp add: drop_controls_def char_of_def)

lemma url_join_keeps_authority:
  assumes "\<not> startswith (drop_controls p) ''/''"
  shows "\<exists>rest. url_join ok a (''/'' @ p) = Inr (a, rest)"
proof -
  have "url_authority (CHR ''/'' # drop_controls p) = []"
    using assms by (simp add: url_authority_def)
  then show ?thesis
    unfolding url_join_def drop_controls_slash Let_def by (simp add: authority_ok_def)
qed

lemma valid_service_name_chars:
  "valid_service_name name \<Longrightarrow> list_all (\<lambda>c. alnum_char c \<or> c = CHR ''-'' \<or> c = CHR ''_'') name"
  by (auto simp: valid_service_name_def Let_def list_all_iff)

definition new_requests :: "proxy_state \<Rightarrow> proxy_state \<Rightarrow> sent list" where
  "new_requests st st' = map fst (drop (length (px_log st)) (px_log st'))"

lemma log_extends_new: "log_extends n P st st' \<Longrightarrow> sn \<in> set (new_requests st st') \<Longrightarrow> P sn"
  by (auto simp: log_extends_def new_requests_def list_all_iff)

lemma service_sentE:
  assumes "service_sent env rq name path sn"
  obtains url where "valid_service_name name" "\<not> sn_unix sn" "sn_url sn = url"
    "url_join (pe_bracketed_ok env) (service_authority env name) (''/'' @ path) = Inr url"
  using assms
  by (auto simp: service_sent_def service_request_def sent_for_def to_send_def split: if_splits sum.splits)

text \<open>
  A request for a service whose path does not start with a slash reaches that service and no other
  host: the authority is the name, made of letters, digits, hyphens and underscores, in the namespace of
  the workloads and with the services' port. This holds for both servers.
\<close>

theorem service_requests_stay_in_namespace:
  assumes "proxied_path (rq_path (in_request rq)) = Some (ServicePath name path)"
    and "\<not> startswith (drop_controls path) ''/''"
    and "sn \<in> set (new_requests st (fst (internal_handle env rq st))) \<or>
         sn \<in> set (new_requests st (fst (external_handle C settings env sign now rq st)))"
  shows "fst (sn_url sn) = name @ ''.'' @ pe_namespace env @ ''.svc.cluster.local:'' @ pe_service_port env \<and>
     list_all (\<lambda>c. alnum_char c \<or> c = CHR ''-'' \<or> c = CHR ''_'') name \<and> \<not> sn_unix sn"
proof -
  have "\<not> startswith (rq_path (in_request rq)) ''/server/''"
    using assms(1) by (auto simp: proxied_path_def strip_prefix_def split: if_splits)
  moreover have "startswith (rq_path (in_request rq)) ''/service/''"
    using assms(1) by (auto simp: proxied_path_def strip_prefix_def split: if_splits)
  ultimately have "\<not> path_is ''/health'' (rq_path (in_request rq))"
    "\<not> path_is ''/server/health'' (rq_path (in_request rq))"
    "\<not> path_is ''/server/devices'' (rq_path (in_request rq))"
    by (auto simp: path_is_def)
  moreover have "internal_admits env rq sn \<or> external_admits C settings env now rq sn"
    using assms(3) log_extends_new[OF internal_server.extends, of sn st env rq]
      log_extends_new[OF external_server.extends, of sn st C settings env sign now rq] by blast
  ultimately have "service_sent env rq name path sn"
    using assms(1)
    by (auto simp: internal_admits_def external_admits_def internal_route_def external_route_def
        proxied_route_def Let_def split: if_splits)
  then show ?thesis
    using url_join_keeps_authority[OF assms(2), of "pe_bracketed_ok env" "service_authority env name"]
      valid_service_name_chars[of name]
    by (elim service_sentE) (auto simp: service_authority_def)
qed


text \<open>A path that starts with a slash names the host itself.\<close>

definition plain_host :: "string \<Rightarrow> bool" where
  "plain_host h \<longleftrightarrow> h \<noteq> [] \<and> list_all (\<lambda>c. alnum_char c \<or> c \<in> set ''.:-@'') h"

lemma plain_hostD:
  assumes "plain_host h"
  shows "\<not> url_delim c \<or> c \<notin> set h" "CHR ''['' \<notin> set h" "CHR '']'' \<notin> set h" "newline \<notin> set h"
    "drop_controls h = h"
proof -
  have no: "c \<notin> set h" if "\<not> alnum_char c" "c \<notin> set ''.:-@''" for c
    using assms that by (auto simp: plain_host_def list_all_iff)
  have "CHR ''/'' \<notin> set h" "CHR ''?'' \<notin> set h" "CHR ''#'' \<notin> set h"
    by (rule no; simp add: alnum_char_def)+
  then show "\<not> url_delim c \<or> c \<notin> set h" by (auto simp: url_delim_def)
  show "CHR ''['' \<notin> set h" "CHR '']'' \<notin> set h"
    by (rule no; simp add: alnum_char_def)+
  have "char_of (9::nat) \<notin> set h" "char_of (10::nat) \<notin> set h" "char_of (13::nat) \<notin> set h"
    by (rule no; simp add: alnum_char_def char_of_def)+
  then show "newline \<notin> set h" "drop_controls h = h"
    unfolding drop_controls_def newline_def by (auto intro: filter_True)
qed

lemma url_join_other_host:
  assumes "plain_host h"
  shows "\<exists>rest. url_join ok a (''/'' @ ''/'' @ h @ ''/'' @ p) = Inr (h, rest)"
proof -
  have d: "drop_controls (''/'' @ ''/'' @ h @ ''/'' @ p) = ''//'' @ h @ ''/'' @ drop_controls p"
    using plain_hostD(5)[OF assms] by (simp add: drop_controls_def char_of_def)
  have "takeWhile (\<lambda>c. \<not> url_delim c) (h @ ''/'' @ q) = h" for q
    using plain_hostD(1)[OF assms] by (subst takeWhile_append2) (auto simp: url_delim_def)
  then have "url_authority (''//'' @ h @ ''/'' @ q) = h" for q
    by (simp add: url_authority_def)
  with plain_hostD(2,3)[OF assms] assms show ?thesis
    unfolding url_join_def d Let_def by (simp add: authority_ok_def plain_host_def)
qed

lemma attempt_logs:
  assumes "url_join (pe_bracketed_ok env) (og_target og) (og_path og) = Inr url"
    and "if og_unix og then pe_unix_client env else pe_http_client env"
  shows "\<exists>ok. px_log (fst (proxy_attempt env og st)) = px_log st @ [(to_send og url, ok)]"
  using assms by (auto simp: proxy_attempt_def log_sent_def count_failure_def Let_def split: upstream.split)

lemma base_request_logs:
  assumes "url_join (pe_bracketed_ok env) (og_target og) (og_path og) = Inr url"
    and "if og_unix og then pe_unix_client env else pe_http_client env"
  shows "\<exists>ok new. px_log (fst (base_proxy_request env og st)) = px_log st @ (to_send og url, ok) # new"
proof -
  obtain ok where 1: "px_log (fst (proxy_attempt env og st)) = px_log st @ [(to_send og url, ok)]"
    using attempt_logs[OF assms] by blast
  obtain ok' where 2: "px_log (fst (proxy_attempt env og (fst (proxy_attempt env og st)))) =
      px_log (fst (proxy_attempt env og st)) @ [(to_send og url, ok')]"
    using attempt_logs[OF assms] by blast
  show ?thesis
    using attempt.backoff_cases[of "pe_retry_base env" env og st] 1 2
    by (auto simp: base_proxy_request_def)
qed

text \<open>
  The internal server, which asks for no signature, sends a request for \<open>/service/<name>//<host>/...\<close>
  to the host the caller writes there: \<open>urljoin\<close> takes a path of two slashes for an authority, and the
  check of the service's name does not see it.
\<close>

theorem double_slash_chooses_the_backend:
  assumes "plain_host host" and "valid_service_name name" and "CHR ''/'' \<notin> set name"
    and "newline \<notin> set rest" and "pe_http_client env"
    and "rq_path (in_request rq) = ''/service/'' @ name @ ''//'' @ host @ ''/'' @ rest"
    and "rq_method (in_request rq) \<in> set proxied_methods"
  shows "\<exists>sn \<in> set (new_requests st (fst (internal_handle env rq st))).
     fst (sn_url sn) = host \<and> \<not> sn_unix sn \<and> sn_body sn = rq_body (in_request rq)"
proof -
  have nl: "newline \<notin> set host" by (rule plain_hostD(4)[OF assms(1)])
  have name: "name \<noteq> []" using assms(2) by (auto simp: valid_service_name_def)
  have "proxied_path (rq_path (in_request rq)) = Some (ServicePath name (''/'' @ host @ ''/'' @ rest))"
    using assms(3,4) nl name
    by (simp add: assms(6) proxied_path_def strip_prefix_def service_path_def split_once_def
        rest_of_path_def newline_def char_of_def takeWhile_append dropWhile_append)
  then have "internal_handle env rq st =
      send_to_service (base_proxy_request env) env rq name (''/'' @ host @ ''/'' @ rest) st"
    using assms(6,7) by (simp add: internal_handle_def internal_route_def proxied_route_def path_is_def)
  moreover obtain og where og: "service_request env rq name (''/'' @ host @ ''/'' @ rest) = Inr og"
      "og_path og = ''/'' @ ''/'' @ host @ ''/'' @ rest" "\<not> og_unix og" "og_body og = rq_body (in_request rq)"
    using assms(2) by (simp add: service_request_def)
  moreover obtain r where "url_join (pe_bracketed_ok env) (og_target og) (og_path og) = Inr (host, r)"
    using url_join_other_host[OF assms(1)] og(2) by metis
  ultimately show ?thesis
    using base_request_logs[of env og "(host, r)" st] assms(5)
    by (auto simp: send_to_service_def new_requests_def to_send_def)
qed


section \<open>Examples\<close>

definition sample_env :: proxy_env where
  "sample_env = \<lparr>pe_upstream = (\<lambda>n sn. if n < 5 then ConnectFailed [] else
       Answered \<lparr>pr_status = 200, pr_headers = [(''X-Signature'', ''forged''), (''Server'', ''x'')], pr_body = ''ok''\<rparr>),
     pe_retry_base = (\<lambda>n. False), pe_retry_external = (\<lambda>n. False), pe_socket_valid = True,
     pe_unix_client = True, pe_http_client = True, pe_bracketed_ok = (\<lambda>_. False),
     pe_namespace = ''chutes'', pe_service_port = ''8002''\<rparr>"

definition sample_incoming :: "string \<Rightarrow> incoming" where
  "sample_incoming path =
     \<lparr>in_request = \<lparr>rq_method = ''GET'', rq_path = path, rq_body = [], rq_hotkey = Some ''5F'',
        rq_validator = None, rq_nonce = Some ''100'', rq_signature = Some ''ab''\<rparr>,
      in_headers = [], in_params = []\<rparr>"

definition sample_sent :: sent where
  "sample_sent = \<lparr>sn_url = ([], []), sn_method = [], sn_headers = [], sn_body = [], sn_params = [], sn_unix = False\<rparr>"

definition sample_start :: proxy_state where
  "sample_start = \<lparr>px_failures = 0, px_log = replicate 5 (sample_sent, False)\<rparr>"

definition sample_settings :: auth_config where
  "sample_settings = \<lparr>miner_ss58 = None, allowed_validators_str = Some ''5F''\<rparr>"

abbreviation sample_external :: "string \<Rightarrow> proxy_state \<Rightarrow> proxy_state \<times> proxy_response res" where
  "sample_external path \<equiv>
     external_handle sample_crypto sample_settings sample_env (\<lambda>b. ''sig:'' @ b) 110 (sample_incoming path)"

theorem backend_answers_are_signed_witness:
  "\<exists>st' r. sample_external ''/server/attest'' sample_start = (st', Inr r) \<and>
     filter (\<lambda>(k, v). k = ''x-signature'') (pr_headers r) = [(''x-signature'', ''sig:ok'')]"
proof -
  obtain st' r where run: "sample_external ''/server/attest'' sample_start = (st', Inr r)"
      and log': "px_log st' \<noteq> px_log sample_start" and body: "pr_body r = ''ok''"
  proof -
    have "case sample_external ''/server/attest'' sample_start of
        (st', Inr r) \<Rightarrow> px_log st' \<noteq> px_log sample_start \<and> pr_body r = ''ok'' | _ \<Rightarrow> False"
      by code_simp
    then show thesis using that by (auto split: prod.splits sum.splits)
  qed
  show ?thesis using backend_answers_are_signed[OF run log'] run body by auto
qed

theorem health_reflects_socket_failures_witness:
  "pr_status (proxy_health sample_env (((fst \<circ> proxy_attempt sample_env (host_request (sample_incoming []) []))^^5)
      \<lparr>px_failures = 0, px_log = []\<rparr>)) = 503"
proof -
  let ?st = "((fst \<circ> proxy_attempt sample_env (host_request (sample_incoming []) []))^^5)
      \<lparr>px_failures = 0, px_log = []\<rparr>"
  have "proxy_reaches sample_crypto sample_settings id ?st"
    by (simp add: numeral_eq_Suc proxy_reaches.intros)
  moreover have "suffix [False, False, False, False, False] (socket_outcomes (px_log ?st))" by code_simp
  ultimately show ?thesis
    using health_reflects_socket_failures[of sample_crypto sample_settings id ?st sample_env] by simp
qed

theorem service_requests_stay_in_namespace_witness:
  "\<exists>sn \<in> set (new_requests sample_start (fst (internal_handle sample_env (sample_incoming ''/service/a-1/x'') sample_start))).
     fst (sn_url sn) = ''a-1.chutes.svc.cluster.local:8002''"
proof -
  let ?rq = "sample_incoming ''/service/a-1/x''"
  let ?new = "new_requests sample_start (fst (internal_handle sample_env ?rq sample_start))"
  have "?new \<noteq> []" by code_simp
  then obtain sn where sn: "sn \<in> set ?new" by (cases ?new) auto
  have "proxied_path (rq_path (in_request ?rq)) = Some (ServicePath ''a-1'' ''x'')"
    "\<not> startswith (drop_controls ''x'') ''/''" by code_simp+
  from service_requests_stay_in_namespace[OF this, of sn sample_start sample_env] sn
  have "fst (sn_url sn) = ''a-1.chutes.svc.cluster.local:8002''" by (simp add: sample_env_def)
  with sn show ?thesis by blast
qed

theorem double_slash_chooses_the_backend_witness:
  "\<exists>sn \<in> set (new_requests sample_start
      (fst (internal_handle sample_env (sample_incoming ''/service/a//evil.example:80/x'') sample_start))).
     fst (sn_url sn) = ''evil.example:80''"
proof -
  have "plain_host ''evil.example:80''" "valid_service_name ''a''" "CHR ''/'' \<notin> set ''a''" "newline \<notin> set ''x''"
    "pe_http_client sample_env"
    "rq_path (in_request (sample_incoming ''/service/a//evil.example:80/x'')) =
       ''/service/'' @ ''a'' @ ''//'' @ ''evil.example:80'' @ ''/'' @ ''x''"
    "rq_method (in_request (sample_incoming ''/service/a//evil.example:80/x'')) \<in> set proxied_methods"
    by code_simp+
  from double_slash_chooses_the_backend[OF this, of sample_start] show ?thesis by blast
qed

end
