(* ===== verification/Command_Output.thy ===== *)
theory Command_Output
  imports Sek8s_Prelude
begin

text \<open>
  Reading what commands print: \<open>str.splitlines\<close>, \<open>str.split()\<close>, columns separated by two or more
  blanks, \<open>float(s)\<close> on plain decimals and the text \<open>format(x, '.1f')\<close>. Shared by the theories that parse
  the output of \<open>ctr\<close>, \<open>systemctl\<close>, \<open>du\<close> and \<open>df\<close>. A float is the rational number it is read from.
\<close>

section \<open>Lines and columns\<close>

definition line_end :: "char \<Rightarrow> bool" where
  "line_end c = (let n = (of_char c :: int) in n \<in> {10, 11, 12, 13, 28, 29, 30, 133})"

definition carriage_return :: char where
  "carriage_return = char_of (13 :: nat)"

function splitlines :: "string \<Rightarrow> string list" where
  "splitlines s =
     (if s = [] then []
      else takeWhile (\<lambda>c. \<not> line_end c) s #
        (case dropWhile (\<lambda>c. \<not> line_end c) s of
           [] \<Rightarrow> []
         | c # cs \<Rightarrow>
             (case cs of
                d # ds \<Rightarrow> if c = carriage_return \<and> d = newline then splitlines ds else splitlines cs
              | [] \<Rightarrow> [])))"
  by pat_completeness auto
termination
proof (relation "measure length", goal_cases)
  case (2 s c cs d ds)
  then show ?case using length_dropWhile_le[of "\<lambda>c. \<not> line_end c" s] by simp
next
  case (3 s c cs d ds)
  then show ?case using length_dropWhile_le[of "\<lambda>c. \<not> line_end c" s] by simp
qed simp

declare splitlines.simps [simp del]

text \<open>\<open>s.split()\<close>: the words between runs of white space.\<close>

function words :: "string \<Rightarrow> string list" where
  "words s =
     (case dropWhile is_space s of
        [] \<Rightarrow> []
      | c # cs \<Rightarrow> takeWhile (\<lambda>c. \<not> is_space c) (c # cs) # words (dropWhile (\<lambda>c. \<not> is_space c) (c # cs)))"
  by pat_completeness auto
termination
proof (relation "measure length", goal_cases)
  case (2 s c cs)
  have "\<not> is_space c" using hd_dropWhile[of is_space s] 2 by auto
  then have "length (dropWhile (\<lambda>c. \<not> is_space c) (c # cs)) \<le> length cs"
    by (simp add: length_dropWhile_le)
  then show ?case using length_dropWhile_le[of is_space s] 2 by simp
qed simp

declare words.simps [simp del]

text \<open>\<open>re.split(r"\s{2,}", s)\<close>.\<close>

function (sequential) split_gaps :: "string \<Rightarrow> string list" where
  "split_gaps [] = [[]]"
| "split_gaps [c] = [[c]]"
| "split_gaps (c # d # cs) =
     (if is_space c \<and> is_space d then [] # split_gaps (dropWhile is_space cs)
      else (case split_gaps (d # cs) of w # ws \<Rightarrow> (c # w) # ws | [] \<Rightarrow> [[c]]))"
  by pat_completeness auto
termination
  by (relation "measure length") (auto intro: le_imp_less_Suc le_SucI length_dropWhile_le)

section \<open>Numbers\<close>

text \<open>\<open>float(s)\<close> on a text of digits and points: digits, at most one point, at least one digit.\<close>

definition decimal_text :: "string \<Rightarrow> rat option" where
  "decimal_text s =
     (if list_all is_digit s \<and> s \<noteq> [] then Some (of_nat (digits_value s))
      else
        (case split_on (CHR ''.'') s of
           [a, b] \<Rightarrow>
             if list_all is_digit a \<and> list_all is_digit b \<and> a @ b \<noteq> []
             then Some (of_nat (digits_value (a @ b)) / 10 ^ length b) else None
         | _ \<Rightarrow> None))"

text \<open>
  \<open>float(s)\<close> in general: a sign, digits with a point and an exponent, single underscores between digits,
  or one of the special values.
\<close>

datatype py_float = Finite rat | Infinite bool | NaN

definition group_value :: "string \<Rightarrow> nat" where
  "group_value s = digits_value (filter (\<lambda>c. c \<noteq> CHR ''_'') s)"

definition mantissa :: "string \<Rightarrow> rat option" where
  "mantissa s =
     (case split_on (CHR ''.'') s of
        [a] \<Rightarrow> if digit_groups a then Some (of_nat (group_value a)) else None
      | [a, b] \<Rightarrow>
          if (a = [] \<or> digit_groups a) \<and> (b = [] \<or> digit_groups b) \<and> a @ b \<noteq> []
          then Some (of_nat (group_value (a @ b)) / 10 ^ length (filter (\<lambda>c. c \<noteq> CHR ''_'') b)) else None
      | _ \<Rightarrow> None)"

definition signed :: "string \<Rightarrow> bool \<times> string" where
  "signed s =
     (case s of c # cs \<Rightarrow> if c = CHR ''-'' then (True, cs) else if c = CHR ''+'' then (False, cs) else (False, s) | [] \<Rightarrow> (False, []))"

definition float_text :: "string \<Rightarrow> py_float option" where
  "float_text s =
     (case signed (lower (strip s)) of
        (neg, t) \<Rightarrow>
          if t = ''inf'' \<or> t = ''infinity'' then Some (Infinite neg)
          else if t = ''nan'' then Some NaN
          else
            (case split_on (CHR ''e'') t of
               [m] \<Rightarrow> map_option (\<lambda>v. Finite (if neg then - v else v)) (mantissa m)
             | [m, e] \<Rightarrow>
                 (case (mantissa m, signed e) of
                    (Some v, (eneg, d)) \<Rightarrow>
                      if digit_groups d then
                        (let w = (if eneg then v / 10 ^ group_value d else v * 10 ^ group_value d) in
                         Some (Finite (if neg then - w else w)))
                      else None
                  | _ \<Rightarrow> None)
             | _ \<Rightarrow> None))"

text \<open>Rounding to an integer, ties to the even one.\<close>

definition round_even :: "rat \<Rightarrow> int" where
  "round_even x =
     (let n = \<lfloor>x\<rfloor>; d = x - of_int n in
      if d < 1 / 2 then n else if d > 1 / 2 then n + 1 else if even n then n else n + 1)"

text \<open>\<open>f"{x:.1f}"\<close> for a number that is not negative.\<close>

definition fixed1 :: "rat \<Rightarrow> string" where
  "fixed1 x = (let n = nat (round_even (10 * x)) in digits_of (n div 10) @ ''.'' @ digits_of (n mod 10))"

definition fixed1_signed :: "rat \<Rightarrow> string" where
  "fixed1_signed x = (if x < 0 then ''-'' @ fixed1 (- x) else fixed1 x)"

lemma round_even_near: "\<bar>of_int (round_even x) - x\<bar> \<le> 1 / 2"
proof -
  define d where "d = x - of_int \<lfloor>x\<rfloor>"
  have "0 \<le> d" "d < 1" using floor_correct[of x] by (simp_all add: d_def)
  moreover have "x = of_int \<lfloor>x\<rfloor> + d" by (simp add: d_def)
  ultimately show ?thesis by (auto simp: round_even_def Let_def d_def[symmetric] abs_le_iff)
qed

lemma round_even_mono: "x \<le> y \<Longrightarrow> round_even x \<le> round_even y"
proof -
  assume le: "x \<le> y"
  have "\<lfloor>x\<rfloor> \<le> \<lfloor>y\<rfloor>" using le by (rule floor_mono)
  then consider "\<lfloor>x\<rfloor> = \<lfloor>y\<rfloor>" | "\<lfloor>x\<rfloor> + 1 \<le> \<lfloor>y\<rfloor>" by linarith
  then show ?thesis
  proof cases
    case 1
    have "x - of_int \<lfloor>y\<rfloor> \<le> y - of_int \<lfloor>y\<rfloor>" using le by simp
    then show ?thesis using 1 unfolding round_even_def Let_def by (simp split: if_splits)
  next
    case 2
    have "round_even x \<le> \<lfloor>x\<rfloor> + 1" "\<lfloor>y\<rfloor> \<le> round_even y" by (auto simp: round_even_def Let_def)
    then show ?thesis using 2 by linarith
  qed
qed

lemma round_even_of_int [simp]: "round_even (of_int n) = n"
  by (simp add: round_even_def)

text \<open>Reading a printed number gives it back to within the rounding.\<close>

lemma digit_not_point: "list_all is_digit s \<Longrightarrow> CHR ''.'' \<notin> set s"
  by (auto simp: list_all_iff is_digit_def)

lemma decimal_text_point:
  assumes "list_all is_digit a" "list_all is_digit b" "b \<noteq> []"
  shows "decimal_text (a @ ''.'' @ b) = Some (of_nat (digits_value (a @ b)) / 10 ^ length b)"
proof -
  have "split_on (CHR ''.'') (a @ CHR ''.'' # b) = [a, b]"
    using digit_not_point[OF assms(1)] digit_not_point[OF assms(2)] by (simp add: split_on_append_sep)
  then show ?thesis using assms by (simp add: decimal_text_def is_digit_def)
qed

lemma digits_value_append: "digits_value (a @ b) = digits_value a * 10 ^ length b + digits_value b"
proof (induction b rule: rev_induct)
  case Nil
  then show ?case by (simp add: digits_value_def)
next
  case (snoc c b)
  have "digits_value (a @ b @ [c]) = 10 * digits_value (a @ b) + (of_char c - 48)"
    using digits_value_snoc[of "a @ b" c] by simp
  then show ?case by (simp add: snoc digits_value_snoc algebra_simps)
qed

lemma length_digits_small: "n < 10 \<Longrightarrow> length (digits_of n) = 1"
  by (subst digits_of.simps) simp

lemma decimal_text_fixed1:
  assumes "0 \<le> x"
  shows "decimal_text (fixed1 x) = Some (of_int (round_even (10 * x)) / 10)"
proof -
  define n where "n = nat (round_even (10 * x))"
  have pos: "0 \<le> round_even (10 * x)" using round_even_mono[of 0 "10 * x"] assms round_even_of_int[of 0] by simp
  have "digits_value (digits_of (n div 10) @ digits_of (n mod 10)) = n"
    by (simp add: digits_value_append length_digits_small)
  then show ?thesis
    using pos decimal_text_point[OF digits_of_digits digits_of_digits, of "n mod 10" "n div 10"]
    by (simp add: fixed1_def Let_def n_def[symmetric] length_digits_small) (simp add: n_def)
qed

lemma fixed1_near:
  assumes "0 \<le> x"
  shows "\<exists>v. decimal_text (fixed1 x) = Some v \<and> \<bar>v - x\<bar> \<le> 1 / 20"
proof -
  let ?r = "of_int (round_even (10 * x)) :: rat"
  have "?r / 10 - x = (?r - 10 * x) / 10" by simp
  then have "\<bar>?r / 10 - x\<bar> = \<bar>?r - 10 * x\<bar> / 10" by (simp only: abs_divide abs_numeral)
  also have "\<dots> \<le> 1 / 2 / 10" using round_even_near[of "10 * x"] by (intro divide_right_mono) simp_all
  finally show ?thesis using decimal_text_fixed1[OF assms] by (intro exI[of _ "?r / 10"]) simp
qed

section \<open>Stripped texts\<close>

lemma dropWhile_id: "s \<noteq> [] \<Longrightarrow> \<not> P (hd s) \<Longrightarrow> dropWhile P s = s"
  by (cases s) auto

lemma strip_fixed: "s \<noteq> [] \<Longrightarrow> \<not> is_space (hd s) \<Longrightarrow> \<not> is_space (last s) \<Longrightarrow> strip s = s"
  by (simp add: strip_def dropWhile_id hd_rev)

lemma strip_ends:
  assumes "strip s \<noteq> []"
  shows "\<not> is_space (hd (strip s))" "\<not> is_space (last (strip s))"
proof -
  let ?d = "dropWhile is_space s"
  have "strip s = rev (dropWhile is_space (rev ?d))" by (simp add: strip_def)
  then show "\<not> is_space (last (strip s))"
    using assms hd_dropWhile[of is_space "rev ?d"] by (simp add: last_rev)
  have d: "?d = strip s @ rev (takeWhile is_space (rev ?d))"
    unfolding strip_def by (metis rev_append rev_rev_ident takeWhile_dropWhile_id)
  then have "hd (strip s) = hd ?d" "?d \<noteq> []" using assms by (metis hd_append2, metis append_is_Nil_conv)
  then show "\<not> is_space (hd (strip s))" using hd_dropWhile by metis
qed

lemma strip_strip [simp]: "strip (strip s) = strip s"
proof (cases "strip s = []")
  case True
  have "strip [] = []" by (simp add: strip_def)
  with True show ?thesis by simp
next
  case False
  then show ?thesis using strip_ends by (intro strip_fixed) auto
qed

lemma splitlines_Nil [simp]: "splitlines [] = []"
  by (subst splitlines.simps) simp

lemma splitlines_line:
  assumes "list_all (\<lambda>c. \<not> line_end c) l"
  shows "splitlines (l @ newline # rest) = l # splitlines rest"
proof -
  have nl: "line_end newline" "newline \<noteq> carriage_return" by code_simp+
  have "takeWhile (\<lambda>c. \<not> line_end c) (l @ newline # rest) = l" "dropWhile (\<lambda>c. \<not> line_end c) (l @ newline # rest) = newline # rest"
    using assms nl(1) by (induction l) auto
  then show ?thesis using nl(2) by (subst splitlines.simps) (auto split: list.splits)
qed

end
