(* ===== verification/Image_Manager.thy ===== *)
theory Image_Manager
  imports Command_Output Cosign_Client Auth
begin

text \<open>
  The image manager of the system manager, \<open>src/src/sek8s/sek8s/system_manager/images/\<close>: \<open>util.py\<close>
  (references, the listing of \<open>ctr\<close>), \<open>manager.py\<close> (list, pull after a cosign verification, delete, prune) and
  \<open>router.py\<close>. The helper program is a parameter that answers a command line with its exit code and
  output, or raises. A pull is a task that is suspended twice, on cosign and on the helper; requests
  and answers interleave as the steps of \<open>im_step\<close>. The lemmas say what has happened before anything
  is pulled, and which state the tables of the manager can be in.
\<close>

section \<open>References\<close>

definition oci_alnum :: "char \<Rightarrow> bool" where
  "oci_alnum c =
     (let n = (of_char c :: int) in (48 \<le> n \<and> n \<le> 57) \<or> (65 \<le> n \<and> n \<le> 90) \<or> (97 \<le> n \<and> n \<le> 122))"

definition oci_char :: "char \<Rightarrow> bool" where
  "oci_char c \<longleftrightarrow> oci_alnum c \<or> c \<in> set ''._/:@-''"

definition oci_ref_pattern :: "string \<Rightarrow> bool" where
  "oci_ref_pattern s = (case s of [] \<Rightarrow> False | c # cs \<Rightarrow> oci_alnum c \<and> list_all oci_char cs)"

definition validator_registry :: "string list \<Rightarrow> string option" where
  "validator_registry allowed = find (\<lambda>r. contains (lower r) ''.localregistry.chutes.ai'') allowed"

definition resolve_to_full_ref :: "string list \<Rightarrow> string \<Rightarrow> string \<Rightarrow> string res" where
  "resolve_to_full_ref allowed default_org raw =
     (let img = strip raw in
      if img = [] then Inl (HTTPException 400 ''image is required'')
      else if CHR ''/'' \<in> set img \<and> is_registry_part (hd (split_on (CHR ''/'') img)) then Inr img
      else
        (case validator_registry allowed of
           None \<Rightarrow> Inl (HTTPException 500
             (''allowed_registries must include validator hostname (.localregistry.chutes.ai); '' @
              ''chute workloads resolve to that URL at build time''))
         | Some reg \<Rightarrow>
             if CHR ''/'' \<in> set img then Inr (reg @ ''/'' @ img)
             else Inr (reg @ ''/'' @ default_org @ ''/'' @ img)))"

definition pull_registry_allowed :: "string \<Rightarrow> string list \<Rightarrow> bool" where
  "pull_registry_allowed reg allowed = list_ex (\<lambda>a. lower a = lower reg) allowed"

definition validate_image_ref :: "string \<Rightarrow> unit res" where
  "validate_image_ref image_ref =
     (let ref = strip image_ref in
      if ref = [] then Inl (HTTPException 400 ''image_ref is required'')
      else if 2048 < length ref then Inl (HTTPException 400 ''image_ref too long'')
      else if list_ex (\<lambda>c. (of_char c :: int) \<in> {10, 13, 0}) ref then
        Inl (HTTPException 400 ''Invalid characters in image_ref'')
      else if contains ref ''--'' then Inl (HTTPException 400 ''Invalid image_ref format'')
      else if \<not> oci_ref_pattern ref then
        Inl (HTTPException 400 ''image_ref must use only alphanumeric, hyphen, underscore, dot, colon, slash, @'')
      else Inr ())"

section \<open>The listing of images\<close>

record image_entry =
  ie_ref :: string
  ie_digest :: "string option"
  ie_size_bytes :: "int option"

definition size_units :: "(string \<times> rat) list" where
  "size_units = [([], 1), (''MiB'', 1024 ^ 2), (''GiB'', 1024 ^ 3), (''KiB'', 1024), (''MB'', 1024 ^ 2),
     (''GB'', 1024 ^ 3), (''KB'', 1024)]"

text \<open>One column read as a size: a number and a unit. A column of several points is not a number.\<close>

definition column_size :: "string \<Rightarrow> int option" where
  "column_size p =
     (let s = strip p;
          num = takeWhile (\<lambda>c. is_digit c \<or> c = CHR ''.'') s;
          unit = dropWhile is_space (dropWhile (\<lambda>c. is_digit c \<or> c = CHR ''.'') s) in
      if num = [] then None
      else
        (case map_of size_units unit of
           None \<Rightarrow> None
         | Some factor \<Rightarrow> map_option (\<lambda>v. \<lfloor>v * factor\<rfloor>) (decimal_text num)))"

fun first_some :: "('a \<Rightarrow> 'b option) \<Rightarrow> 'a list \<Rightarrow> 'b option" where
  "first_some f [] = None"
| "first_some f (x # xs) = (case f x of Some y \<Rightarrow> Some y | None \<Rightarrow> first_some f xs)"

definition parse_ctr_line :: "string \<Rightarrow> image_entry option" where
  "parse_ctr_line raw =
     (let line = strip raw in
      if line = [] \<or> startswith line ''REF'' then None
      else
        (let parts = split_gaps line; ref = strip (hd parts) in
         if ref = [] then None
         else Some \<lparr>ie_ref = ref, ie_digest = find (\<lambda>p. startswith p ''sha256:'') (tl parts),
                ie_size_bytes = first_some column_size (tl parts)\<rparr>))"

definition parse_ctr_images_list :: "string \<Rightarrow> image_entry list" where
  "parse_ctr_images_list stdout = List.map_filter parse_ctr_line (splitlines (strip stdout))"

section \<open>The manager\<close>

record pull_config =
  im_allowed_registries :: "string list"
  im_verify_defaults :: verification_config        \<comment> \<open>what \<open>CosignVerificationConfig()\<close> reads from the environment\<close>
  im_cosign_key_path :: string
  im_timeout_text :: string                        \<comment> \<open>\<open>str(pull_timeout)\<close>\<close>
  im_default_org :: string

datatype pull_status = PULL_PENDING | PULL_IN_PROGRESS | PULL_COMPLETED | PULL_FAILED

datatype pull_phase = Verifying | Pulling          \<comment> \<open>what the task of a pull waits for\<close>

record image_manager =
  im_pull_tasks :: "(string \<times> pull_phase) list"
  im_pull_results :: "(string \<times> pull_status \<times> string option) list"

record pull_snapshot =
  ps_image_ref :: string
  ps_status :: pull_status
  ps_error :: "string option"

type_synonym helper = "string list \<Rightarrow> (int \<times> string \<times> string) res"

definition k3s_images_helper :: string where
  "k3s_images_helper = ''/usr/local/bin/k3s-images-helper''"

definition run_helper :: "helper \<Rightarrow> string \<Rightarrow> string option \<Rightarrow> (int \<times> string \<times> string) res" where
  "run_helper helper subcommand image_ref =
     helper ([k3s_images_helper, subcommand] @ (case image_ref of Some ref \<Rightarrow> [ref] | None \<Rightarrow> []))"

definition list_images :: "helper \<Rightarrow> image_entry list res" where
  "list_images helper =
     bindR (run_helper helper ''list'' None) (\<lambda>(code, stdout, stderr).
     if code \<noteq> 0 then Inl (HTTPException 502 (''ctr_list_failed: '' @ stderr))
     else Inr (parse_ctr_images_list stdout))"

definition new_image_manager :: image_manager where
  "new_image_manager = \<lparr>im_pull_tasks = [], im_pull_results = []\<rparr>"

text \<open>The end of a task: its result is stored and it is taken out of the table.\<close>

definition finish_pull :: "string \<Rightarrow> pull_status \<Rightarrow> string option \<Rightarrow> image_manager \<Rightarrow> image_manager" where
  "finish_pull ref status err m =
     m\<lparr>im_pull_results := AList.update ref (status, err) (im_pull_results m),
       im_pull_tasks := AList.delete ref (im_pull_tasks m)\<rparr>"

definition pull_raised :: "pull_config \<Rightarrow> string \<Rightarrow> exn \<Rightarrow> image_manager \<Rightarrow> image_manager" where
  "pull_raised cfg ref e m =
     (if e = TimeoutError
      then finish_pull ref PULL_FAILED (Some (''Pull timed out after '' @ im_timeout_text cfg @ ''s'')) m
      else finish_pull ref PULL_FAILED (Some (exn_str e)) m)"

definition pull_verification :: "pull_config \<Rightarrow> verification_config" where
  "pull_verification cfg =
     (im_verify_defaults cfg)\<lparr>verification_method := Key, public_key := Some (im_cosign_key_path cfg),
        allow_http := True, allow_insecure := True\<rparr>"

text \<open>\<open>_pull_image\<close> in two parts: from the answer of cosign to the next await, and from the answer of the helper.\<close>

definition after_verify :: "cosign_env \<Rightarrow> pull_config \<Rightarrow> string \<Rightarrow> image_manager \<Rightarrow> image_manager" where
  "after_verify env cfg ref m =
     (case cosign_verify env ref (pull_verification cfg) of
        Inl e \<Rightarrow> pull_raised cfg ref e m
      | Inr (ok, _) \<Rightarrow>
          if \<not> ok then
            finish_pull ref PULL_FAILED (Some ''Cosign verification failed: image is not signed or signature invalid'') m
          else m\<lparr>im_pull_tasks := AList.update ref Pulling (im_pull_tasks m)\<rparr>)"

definition after_pull :: "helper \<Rightarrow> pull_config \<Rightarrow> string \<Rightarrow> image_manager \<Rightarrow> image_manager" where
  "after_pull helper cfg ref m =
     (case run_helper helper ''pull'' (Some (normalize_registry_hostname ref)) of
        Inl e \<Rightarrow> pull_raised cfg ref e m
      | Inr (code, stdout, stderr) \<Rightarrow>
          if code \<noteq> 0 then
            finish_pull ref PULL_FAILED
              (Some (if stderr \<noteq> [] then stderr else if stdout \<noteq> [] then stdout
                     else ''Pull failed with exit code '' @ str_int code)) m
          else finish_pull ref PULL_COMPLETED None m)"

definition listed_as :: "string \<Rightarrow> string list" where
  "listed_as ref =
     [ref, hd (split_on (CHR ''@'') ref), normalize_registry_hostname ref,
      hd (split_on (CHR ''@'') (normalize_registry_hostname ref))]"

text \<open>The part of \<open>start_pull\<close> after the listing, which no other task interrupts.\<close>

definition enter_pull :: "string \<Rightarrow> image_entry list \<Rightarrow> image_manager \<Rightarrow> image_manager \<times> string \<times> bool" where
  "enter_pull ref entries m =
     (if list_ex (\<lambda>e. ie_ref e \<in> set (listed_as ref)) entries then (m, ''present'', True)
      else if map_of (im_pull_tasks m) ref \<noteq> None then (m, ''in_progress'', False)
      else
        (case map_of (im_pull_results m) ref of
           Some (PULL_COMPLETED, err) \<Rightarrow> (m, ''present'', True)
         | r \<Rightarrow>
             (m\<lparr>im_pull_results :=
                   (case r of Some (PULL_FAILED, err) \<Rightarrow> AList.delete ref (im_pull_results m) | _ \<Rightarrow> im_pull_results m),
                im_pull_tasks := AList.update ref Verifying (im_pull_tasks m)\<rparr>, ''started'', False)))"

definition admit_ref :: "pull_config \<Rightarrow> string \<Rightarrow> string res" where
  "admit_ref cfg img =
     bindR (resolve_to_full_ref (im_allowed_registries cfg) (im_default_org cfg) img) (\<lambda>ref.
     bindR (validate_image_ref ref) (\<lambda>_.
     if \<not> pull_registry_allowed (extract_registry ref) (im_allowed_registries cfg) then
       Inl (HTTPException 403 (''Registry '' @ extract_registry ref @
         '' is not allowed. Only validator registry images are permitted.''))
     else Inr ref))"

definition start_pull :: "pull_config \<Rightarrow> helper \<Rightarrow> string \<Rightarrow> image_manager \<Rightarrow> image_manager \<times> (string \<times> bool) res" where
  "start_pull cfg helper img m =
     (case bindR (admit_ref cfg img) (\<lambda>ref. bindR (list_images helper) (\<lambda>entries. Inr (ref, entries))) of
        Inl e \<Rightarrow> (m, Inl e)
      | Inr (ref, entries) \<Rightarrow> (case enter_pull ref entries m of (m', answer) \<Rightarrow> (m', Inr answer)))"

definition snapshot_of :: "string \<Rightarrow> pull_status \<Rightarrow> string option \<Rightarrow> pull_snapshot" where
  "snapshot_of ref status err = \<lparr>ps_image_ref = ref, ps_status = status, ps_error = err\<rparr>"

definition get_pull_status :: "pull_config \<Rightarrow> string option \<Rightarrow> image_manager \<Rightarrow> pull_snapshot list res" where
  "get_pull_status cfg img m =
     (if given img then
        bindR (resolve_to_full_ref (im_allowed_registries cfg) (im_default_org cfg) (the img)) (\<lambda>ref.
        if map_of (im_pull_tasks m) ref \<noteq> None then Inr [snapshot_of ref PULL_IN_PROGRESS None]
        else
          (case map_of (im_pull_results m) ref of
             Some (status, err) \<Rightarrow> Inr [snapshot_of ref status err]
           | None \<Rightarrow> Inr [snapshot_of ref PULL_PENDING None]))
      else
        Inr (map (\<lambda>(ref, _). snapshot_of ref PULL_IN_PROGRESS None) (im_pull_tasks m) @
             map (\<lambda>(ref, status, err). snapshot_of ref status err) (im_pull_results m)))"

definition delete_image :: "pull_config \<Rightarrow> helper \<Rightarrow> string \<Rightarrow> unit res" where
  "delete_image cfg helper img =
     bindR (resolve_to_full_ref (im_allowed_registries cfg) (im_default_org cfg) img) (\<lambda>ref.
     bindR (validate_image_ref ref) (\<lambda>_.
     bindR (run_helper helper ''rm'' (Some (normalize_registry_hostname ref))) (\<lambda>(code, stdout, stderr).
     if code \<noteq> 0 then Inl (HTTPException 502 (''ctr_rm_failed: '' @ (if stderr \<noteq> [] then stderr else stdout)))
     else Inr ())))"

definition prune :: "helper \<Rightarrow> (int \<times> int) res" where
  "prune helper =
     bindR (run_helper helper ''prune'' None) (\<lambda>(code, stdout, stderr).
     if code \<noteq> 0 then Inl (HTTPException 502 (''ctr_prune_failed: '' @ (if stderr \<noteq> [] then stderr else stdout)))
     else Inr (0, 0))"

section \<open>The routes\<close>

definition list_images_route :: "gate \<Rightarrow> helper \<Rightarrow> http_request \<Rightarrow> image_entry list res" where
  "list_images_route gate helper rq = bindR (gate True True (Some ''images'') rq) (\<lambda>_. list_images helper)"

definition delete_image_route :: "gate \<Rightarrow> pull_config \<Rightarrow> helper \<Rightarrow> string \<Rightarrow> http_request \<Rightarrow> unit res" where
  "delete_image_route gate cfg helper img rq =
     bindR (gate True False (Some ''images'') rq) (\<lambda>_. delete_image cfg helper img)"

definition prune_images_route :: "gate \<Rightarrow> helper \<Rightarrow> http_request \<Rightarrow> (int \<times> int) res" where
  "prune_images_route gate helper rq = bindR (gate True False (Some ''images'') rq) (\<lambda>_. prune helper)"

section \<open>Interleavings\<close>

datatype image_event =
    PullRequested string helper
  | CosignAnswered string cosign_env
  | PullAnswered string helper

inductive im_step :: "pull_config \<Rightarrow> image_manager \<Rightarrow> image_event \<Rightarrow> image_manager \<Rightarrow> bool" for cfg where
  request: "im_step cfg m (PullRequested img helper) (fst (start_pull cfg helper img m))"
| verified: "map_of (im_pull_tasks m) ref = Some Verifying \<Longrightarrow>
    im_step cfg m (CosignAnswered ref env) (after_verify env cfg ref m)"
| pulled: "map_of (im_pull_tasks m) ref = Some Pulling \<Longrightarrow>
    im_step cfg m (PullAnswered ref helper) (after_pull helper cfg ref m)"

inductive_cases im_stepE: "im_step cfg m ev m'"

inductive im_run :: "pull_config \<Rightarrow> image_manager \<Rightarrow> image_event list \<Rightarrow> image_manager \<Rightarrow> bool" for cfg m0 where
  start: "im_run cfg m0 [] m0"
| step: "im_run cfg m0 evs m \<Longrightarrow> im_step cfg m ev m' \<Longrightarrow> im_run cfg m0 (evs @ [ev]) m'"


section \<open>Pulls\<close>

lemma lookup_update [simp]: "map_of (AList.update k v al) = (map_of al)(k \<mapsto> v)"
  by (rule update_conv')

lemma lookup_delete [simp]: "map_of (AList.delete k al) = (map_of al)(k := None)"
  by (rule delete_conv')

lemmas pull_defs = after_verify_def after_pull_def pull_raised_def finish_pull_def

text \<open>The tables: a reference is in one of them at most, and once; only ended pulls have results.\<close>

definition im_ok :: "image_manager \<Rightarrow> bool" where
  "im_ok m \<longleftrightarrow>
     distinct (map fst (im_pull_tasks m)) \<and> distinct (map fst (im_pull_results m)) \<and>
     fst ` set (im_pull_tasks m) \<inter> fst ` set (im_pull_results m) = {} \<and>
     (\<forall>(ref, status, err) \<in> set (im_pull_results m). status \<in> {PULL_COMPLETED, PULL_FAILED})"

lemma im_ok_new: "im_ok new_image_manager"
  by (simp add: im_ok_def new_image_manager_def)

lemma fst_set_update: "fst ` set (AList.update k v al) = insert k (fst ` set al)"
  by (simp flip: dom_map_of_conv_image_fst)

lemma delete_absent: "map_of al k = None \<Longrightarrow> AList.delete k al = al"
  by (induction al) (auto split: if_splits)

lemma in_set_delete: "x \<in> set (AList.delete k al) \<Longrightarrow> x \<in> set al"
  by (auto simp: AList.delete_eq)

lemma fst_set_delete: "fst ` set (AList.delete k al) = fst ` set al - {k}"
  by (auto simp: AList.delete_eq)

lemma set_update_cases: "(a, b) \<in> set (AList.update k v al) \<Longrightarrow> (a, b) = (k, v) \<or> (a, b) \<in> set al"
  using set_update_subset by fastforce

lemma im_ok_finish: "im_ok m \<Longrightarrow> status \<in> {PULL_COMPLETED, PULL_FAILED} \<Longrightarrow> im_ok (finish_pull ref status err m)"
  by (auto simp: im_ok_def finish_pull_def fst_set_update fst_set_delete distinct_update distinct_delete
      dest: set_update_cases)

lemma im_ok_phase: "im_ok m \<Longrightarrow> map_of (im_pull_tasks m) ref \<noteq> None \<Longrightarrow>
    im_ok (m\<lparr>im_pull_tasks := AList.update ref phase (im_pull_tasks m)\<rparr>)"
  by (simp add: im_ok_def fst_set_update distinct_update insert_absorb map_of_eq_None_iff)

lemma enter_pull_cases:
  assumes "enter_pull ref entries m = (m', answer)"
  shows "m' = m \<or>
     answer = (''started'', False) \<and> map_of (im_pull_tasks m) ref = None \<and>
     (\<forall>err. map_of (im_pull_results m) ref \<noteq> Some (PULL_COMPLETED, err)) \<and>
     m' = m\<lparr>im_pull_results :=
          (case map_of (im_pull_results m) ref of Some (PULL_FAILED, err) \<Rightarrow> AList.delete ref (im_pull_results m)
           | _ \<Rightarrow> im_pull_results m),
        im_pull_tasks := AList.update ref Verifying (im_pull_tasks m)\<rparr>"
  using assms by (auto simp: enter_pull_def split: if_splits option.splits pull_status.splits)

lemma im_ok_enter:
  assumes ok: "im_ok m" and "enter_pull ref entries m = (m', answer)"
  shows "im_ok m'"
  using enter_pull_cases[OF assms(2)]
proof (elim disjE conjE)
  assume none: "map_of (im_pull_tasks m) ref = None" and nc: "\<forall>err. map_of (im_pull_results m) ref \<noteq> Some (PULL_COMPLETED, err)"
    and m': "m' = m\<lparr>im_pull_results :=
          (case map_of (im_pull_results m) ref of Some (PULL_FAILED, err) \<Rightarrow> AList.delete ref (im_pull_results m)
           | _ \<Rightarrow> im_pull_results m),
        im_pull_tasks := AList.update ref Verifying (im_pull_tasks m)\<rparr>"
  consider "map_of (im_pull_results m) ref = None" | err where "map_of (im_pull_results m) ref = Some (PULL_FAILED, err)"
    using ok nc by (cases "map_of (im_pull_results m) ref") (auto simp: im_ok_def dest!: map_of_SomeD)
  then have "m' = m\<lparr>im_pull_results := AList.delete ref (im_pull_results m),
        im_pull_tasks := AList.update ref Verifying (im_pull_tasks m)\<rparr>"
    unfolding m' by cases (simp_all add: delete_absent map_of_eq_None_iff[symmetric])
  then show ?thesis
    using ok none by (auto simp: im_ok_def fst_set_update fst_set_delete distinct_update distinct_delete
        map_of_eq_None_iff dest: in_set_delete)
qed (use ok in simp)

lemma im_ok_step: "im_step cfg m ev m' \<Longrightarrow> im_ok m \<Longrightarrow> im_ok m'"
proof (induction rule: im_step.induct)
  case (request m img helper)
  then show ?case using im_ok_enter by (auto simp: start_pull_def split: sum.splits prod.splits)
next
  case (verified m ref env)
  then show ?case using im_ok_phase[of m ref]
    by (auto simp: after_verify_def pull_raised_def intro: im_ok_finish split: sum.splits prod.splits)
next
  case (pulled m ref helper)
  then show ?case by (auto simp: after_pull_def pull_raised_def intro: im_ok_finish split: sum.splits prod.splits)
qed

lemma im_ok_run: "im_run cfg m0 evs m \<Longrightarrow> im_ok m0 \<Longrightarrow> im_ok m"
  by (induction rule: im_run.induct) (auto simp: im_ok_step)

text \<open>
  Whatever the interleaving of requests and answers, the image manager has at most one pull of a
  reference running, and its report on all pulls names every reference once: as in progress exactly
  if its task is running, otherwise with the result of its last pull.
\<close>

theorem pull_report_is_consistent:
  assumes "im_run cfg new_image_manager evs m" "get_pull_status cfg None m = Inr snaps"
  shows "distinct (map fst (im_pull_tasks m)) \<and> distinct (map ps_image_ref snaps) \<and>
     (\<forall>s \<in> set snaps. ps_status s = PULL_IN_PROGRESS \<longleftrightarrow> ps_image_ref s \<in> fst ` set (im_pull_tasks m)) \<and>
     (\<forall>s \<in> set snaps. ps_status s \<noteq> PULL_IN_PROGRESS \<longrightarrow>
        map_of (im_pull_results m) (ps_image_ref s) = Some (ps_status s, ps_error s))"
proof -
  have ok: "im_ok m" using im_ok_run[OF assms(1) im_ok_new] .
  have snaps: "snaps = map (\<lambda>(ref, _). snapshot_of ref PULL_IN_PROGRESS None) (im_pull_tasks m) @
      map (\<lambda>(ref, status, err). snapshot_of ref status err) (im_pull_results m)"
    using assms(2) by (simp add: get_pull_status_def given_def)
  have "map ps_image_ref snaps = map fst (im_pull_tasks m) @ map fst (im_pull_results m)"
    by (auto simp: snaps snapshot_of_def)
  then have "distinct (map ps_image_ref snaps)" using ok by (auto simp: im_ok_def)
  moreover have "ps_status s = PULL_IN_PROGRESS \<longleftrightarrow> ps_image_ref s \<in> fst ` set (im_pull_tasks m)" if "s \<in> set snaps" for s
  proof -
    have disjoint: "r \<notin> fst ` set (im_pull_tasks m)" if "r \<in> fst ` set (im_pull_results m)" for r
      using that ok by (auto simp: im_ok_def)
    have ended: "x \<in> set (im_pull_results m) \<Longrightarrow> fst (snd x) \<noteq> PULL_IN_PROGRESS" for x
      using ok by (auto simp: im_ok_def)
    from that consider x where "x \<in> set (im_pull_tasks m)" "ps_image_ref s = fst x" "ps_status s = PULL_IN_PROGRESS"
      | x where "x \<in> set (im_pull_results m)" "ps_image_ref s = fst x" "ps_status s = fst (snd x)"
      unfolding snaps by (auto simp: snapshot_of_def)
    then show ?thesis using disjoint ended by cases auto
  qed
  moreover have "map_of (im_pull_results m) (ps_image_ref s) = Some (ps_status s, ps_error s)"
    if s: "s \<in> set snaps" "ps_status s \<noteq> PULL_IN_PROGRESS" for s
  proof -
    obtain ref status err where "(ref, status, err) \<in> set (im_pull_results m)" "s = snapshot_of ref status err"
      using s by (auto simp: snaps snapshot_of_def)
    then show ?thesis using ok by (simp add: snapshot_of_def im_ok_def)
  qed
  ultimately show ?thesis using ok by (simp add: im_ok_def)
qed


text \<open>What a running task goes back to: a request that was admitted and, once it pulls, its own verification.\<close>

definition requested :: "pull_config \<Rightarrow> string \<Rightarrow> image_event list \<Rightarrow> bool" where
  "requested cfg ref evs \<longleftrightarrow>
     (\<exists>a img helper b. evs = a @ PullRequested img helper # b \<and> admit_ref cfg img = Inr ref \<and>
        (\<forall>h. PullAnswered ref h \<notin> set b))"

definition signature_checked :: "pull_config \<Rightarrow> string \<Rightarrow> image_event list \<Rightarrow> bool" where
  "signature_checked cfg ref evs \<longleftrightarrow>
     (\<exists>a env b digest. evs = a @ CosignAnswered ref env # b \<and>
        cosign_verify env ref (pull_verification cfg) = Inr (True, digest) \<and> requested cfg ref a \<and>
        (\<forall>h. PullAnswered ref h \<notin> set b))"

definition task_justified :: "pull_config \<Rightarrow> image_event list \<Rightarrow> string \<Rightarrow> pull_phase \<Rightarrow> bool" where
  "task_justified cfg evs ref phase =
     (case phase of Verifying \<Rightarrow> requested cfg ref evs | Pulling \<Rightarrow> signature_checked cfg ref evs)"

lemma requestedI:
  "admit_ref cfg img = Inr ref \<Longrightarrow> (\<forall>h. PullAnswered ref h \<notin> set b) \<Longrightarrow>
     requested cfg ref (a @ PullRequested img helper # b)"
  unfolding requested_def by blast

lemma signature_checkedI:
  "cosign_verify env ref (pull_verification cfg) = Inr (True, digest) \<Longrightarrow> requested cfg ref a \<Longrightarrow>
     (\<forall>h. PullAnswered ref h \<notin> set b) \<Longrightarrow> signature_checked cfg ref (a @ CosignAnswered ref env # b)"
  unfolding signature_checked_def by blast

lemma task_justified_snoc:
  assumes "task_justified cfg evs ref phase" "\<forall>h. ev \<noteq> PullAnswered ref h"
  shows "task_justified cfg (evs @ [ev]) ref phase"
proof (cases phase)
  case Verifying
  with assms(1) obtain a img h b where "evs = a @ PullRequested img h # b" "admit_ref cfg img = Inr ref"
    "\<forall>h. PullAnswered ref h \<notin> set b"
    by (auto simp: task_justified_def requested_def)
  then show ?thesis using Verifying requestedI[of cfg img ref "b @ [ev]" a h] assms(2) by (auto simp: task_justified_def)
next
  case Pulling
  with assms(1) obtain a env b d where "evs = a @ CosignAnswered ref env # b"
    "cosign_verify env ref (pull_verification cfg) = Inr (True, d)" "requested cfg ref a"
    "\<forall>h. PullAnswered ref h \<notin> set b"
    by (auto simp: task_justified_def signature_checked_def)
  then show ?thesis using Pulling signature_checkedI[of env ref cfg d a "b @ [ev]"] assms(2) by (auto simp: task_justified_def)
qed

lemma start_pull_tasks:
  "map_of (im_pull_tasks (fst (start_pull cfg helper img m))) ref = Some phase \<Longrightarrow>
     map_of (im_pull_tasks m) ref = Some phase \<or> phase = Verifying \<and> admit_ref cfg img = Inr ref"
  using enter_pull_cases
  by (fastforce simp: start_pull_def bindR_Inr_iff split: sum.splits prod.splits if_splits)

lemma after_verify_tasks:
  "map_of (im_pull_tasks (after_verify env cfg r m)) ref = Some phase \<Longrightarrow>
     ref \<noteq> r \<and> map_of (im_pull_tasks m) ref = Some phase \<or>
     ref = r \<and> phase = Pulling \<and> (\<exists>d. cosign_verify env ref (pull_verification cfg) = Inr (True, d))"
  by (auto simp: pull_defs split: sum.splits prod.splits if_splits)

lemma after_pull_tasks:
  "map_of (im_pull_tasks (after_pull h cfg r m)) ref = Some phase \<Longrightarrow> ref \<noteq> r \<and> map_of (im_pull_tasks m) ref = Some phase"
  by (auto simp: pull_defs split: sum.splits prod.splits if_splits)

lemma tasks_justified:
  "im_run cfg new_image_manager evs m \<Longrightarrow> map_of (im_pull_tasks m) ref = Some phase \<Longrightarrow> task_justified cfg evs ref phase"
proof (induction arbitrary: ref phase rule: im_run.induct)
  case start
  then show ?case by (simp add: new_image_manager_def)
next
  case (step evs m ev m')
  from step(2) show ?case
  proof cases
    case (request img helper)
    then consider "map_of (im_pull_tasks m) ref = Some phase" | "phase = Verifying" "admit_ref cfg img = Inr ref"
      using step(4) start_pull_tasks by blast
    then show ?thesis
    proof cases
      case 1
      then show ?thesis using step(3) task_justified_snoc request(1) by blast
    next
      case 2
      then show ?thesis using requestedI[of cfg img ref "[]" evs helper] by (simp add: task_justified_def request(1))
    qed
  next
    case (verified r env)
    from after_verify_tasks[OF step(4)[unfolded verified(2)]] show ?thesis
    proof (elim disjE conjE exE)
      fix d assume "ref = r" "phase = Pulling" "cosign_verify env ref (pull_verification cfg) = Inr (True, d)"
      moreover have "requested cfg r evs" using step(3)[OF verified(3)] by (simp add: task_justified_def)
      ultimately show ?thesis
        using signature_checkedI[of env ref cfg d evs "[]"] by (simp add: task_justified_def verified(1))
    qed (use step(3) task_justified_snoc verified(1) in blast)
  next
    case (pulled r helper)
    from after_pull_tasks[OF step(4)[unfolded pulled(2)]] show ?thesis
      using step(3) task_justified_snoc[of cfg evs ref phase ev] pulled(1) by auto
  qed
qed

lemma key_verified:
  assumes "cosign_verify env ref (pull_verification cfg) = Inr (True, digest)"
  shows "path_exists env (im_cosign_key_path cfg) \<and>
     (\<exists>out err. run_proc env (key_cmd (pull_verification cfg) (im_cosign_key_path cfg) ref) = Exited 0 out err)"
  using assms run_cosign_success
  by (fastforce simp: cosign_verify_def pull_verification_def verify_with_key_def bindR_Inr_iff split: if_splits)

lemma admit_refD:
  assumes "admit_ref cfg img = Inr ref"
  shows "resolve_to_full_ref (im_allowed_registries cfg) (im_default_org cfg) img = Inr ref"
    "validate_image_ref ref = Inr ()" "pull_registry_allowed (extract_registry ref) (im_allowed_registries cfg)"
  using assms by (auto simp: admit_ref_def bindR_Inr_iff split: if_splits)

text \<open>
  C18: an image is pulled only after a request whose reference is well formed and from an allowed
  registry, followed by a run of \<open>cosign verify\<close> on that reference with the configured key that exited
  with status zero; every pull has a verification of its own, also when pulls of several images and
  repeated requests interleave.
\<close>

theorem pulled_images_are_signed:
  assumes "im_run cfg new_image_manager evs m" "im_step cfg m (PullAnswered ref helper) m'"
  shows "\<exists>a img h b env c out err.
     evs = a @ PullRequested img h # b @ CosignAnswered ref env # c \<and>
     (\<forall>g. PullAnswered ref g \<notin> set (b @ c)) \<and>
     resolve_to_full_ref (im_allowed_registries cfg) (im_default_org cfg) img = Inr ref \<and>
     validate_image_ref ref = Inr () \<and> pull_registry_allowed (extract_registry ref) (im_allowed_registries cfg) \<and>
     path_exists env (im_cosign_key_path cfg) \<and>
     run_proc env (key_cmd (pull_verification cfg) (im_cosign_key_path cfg) ref) = Exited 0 out err"
proof -
  have "map_of (im_pull_tasks m) ref = Some Pulling" using assms(2) by (auto elim: im_stepE)
  then have "signature_checked cfg ref evs" using tasks_justified[OF assms(1), of ref Pulling] by (simp add: task_justified_def)
  then obtain a' env c d where c: "evs = a' @ CosignAnswered ref env # c" "requested cfg ref a'"
    "cosign_verify env ref (pull_verification cfg) = Inr (True, d)" "\<forall>h. PullAnswered ref h \<notin> set c"
    by (auto simp: signature_checked_def)
  then obtain a img h b where "a' = a @ PullRequested img h # b" "admit_ref cfg img = Inr ref" "\<forall>g. PullAnswered ref g \<notin> set b"
    by (auto simp: requested_def)
  moreover obtain out err where "path_exists env (im_cosign_key_path cfg)"
    "run_proc env (key_cmd (pull_verification cfg) (im_cosign_key_path cfg) ref) = Exited 0 out err"
    using key_verified[OF c(3)] by blast
  ultimately show ?thesis using c(1,4) admit_refD[of cfg img ref]
    by (intro exI[of _ a] exI[of _ img] exI[of _ h] exI[of _ b] exI[of _ env] exI[of _ c] exI[of _ out] exI[of _ err]) simp
qed


lemma enter_pull_completed:
  assumes "enter_pull r entries m = (m', answer)" "map_of (im_pull_results m) ref = Some (PULL_COMPLETED, err)"
  shows "map_of (im_pull_results m') ref = Some (PULL_COMPLETED, err)"
  using enter_pull_cases[OF assms(1)] assms(2)
  by (cases "r = ref") (auto split: option.splits pull_status.splits)

lemma completed_step:
  assumes "im_step cfg m ev m'" "im_ok m" "map_of (im_pull_results m) ref = Some (PULL_COMPLETED, err)"
  shows "map_of (im_pull_results m') ref = Some (PULL_COMPLETED, err) \<and> (\<forall>h. ev \<noteq> PullAnswered ref h)"
proof -
  have idle: "map_of (im_pull_tasks m) ref = None"
    using assms(2,3) by (force simp: im_ok_def map_of_eq_None_iff dest: map_of_SomeD)
  from assms(1) show ?thesis
  proof cases
    case (request img helper)
    then show ?thesis using assms(3) enter_pull_completed
      by (auto simp: start_pull_def split: sum.splits prod.splits)
  next
    case (verified r env)
    then have "r \<noteq> ref" using idle by auto
    then show ?thesis using assms(3) verified
      by (auto simp: pull_defs split: sum.splits prod.splits if_splits)
  next
    case (pulled r helper)
    then have "r \<noteq> ref" using idle by auto
    then show ?thesis using assms(3) pulled
      by (auto simp: pull_defs split: sum.splits prod.splits if_splits)
  qed
qed

lemma completed_stays:
  "im_run cfg m evs m' \<Longrightarrow> im_ok m \<Longrightarrow> map_of (im_pull_results m) ref = Some (PULL_COMPLETED, err) \<Longrightarrow>
     map_of (im_pull_results m') ref = Some (PULL_COMPLETED, err) \<and> (\<forall>h. PullAnswered ref h \<notin> set evs)"
proof (induction rule: im_run.induct)
  case (step evs m1 ev m2)
  then have "im_ok m1" using im_ok_run by blast
  then show ?case using step completed_step[OF step(2)] by auto
qed simp

text \<open>
  A reference that was pulled once is never pulled again: its result stays, whatever requests and
  answers follow, and a request for it is answered \<open>present\<close> whether or not the image is still listed.
  Deleting or pruning the image does not change that.
\<close>

theorem completed_pull_is_final:
  assumes "im_run cfg new_image_manager evs m" "map_of (im_pull_results m) ref = Some (PULL_COMPLETED, err)"
    and "im_run cfg m evs' m'"
  shows "(\<forall>h. PullAnswered ref h \<notin> set evs') \<and>
     (admit_ref cfg img = Inr ref \<and> list_images helper = Inr entries \<longrightarrow>
        start_pull cfg helper img m' = (m', Inr (''present'', True)))"
proof -
  have ok: "im_ok m" using im_ok_run[OF assms(1) im_ok_new] .
  then have ok': "im_ok m'" using im_ok_run[OF assms(3)] by blast
  from completed_stays[OF assms(3) ok assms(2)]
  have kept: "map_of (im_pull_results m') ref = Some (PULL_COMPLETED, err)" "\<forall>h. PullAnswered ref h \<notin> set evs'" by auto
  moreover have "map_of (im_pull_tasks m') ref = None"
    using ok' kept(1) by (force simp: im_ok_def map_of_eq_None_iff dest: map_of_SomeD)
  ultimately show ?thesis by (auto simp: start_pull_def enter_pull_def)
qed

section \<open>What the helper is given\<close>

text \<open>An argument that is no option and has no blanks or other characters a shell could interpret.\<close>

definition plain_argument :: "string \<Rightarrow> bool" where
  "plain_argument s \<longleftrightarrow> oci_ref_pattern s \<and> \<not> contains s ''--'' \<and> length s \<le> 2048"

definition plain_command :: "string list \<Rightarrow> bool" where
  "plain_command cmd \<longleftrightarrow>
     (\<exists>sub \<in> {''list'', ''prune''}. cmd = [k3s_images_helper, sub]) \<or>
     (\<exists>sub \<in> {''pull'', ''rm''}. \<exists>ref. cmd = [k3s_images_helper, sub, ref] \<and> plain_argument ref)"

lemma resolved_stripped:
  assumes "resolve_to_full_ref allowed org img = Inr ref" "\<forall>r \<in> set allowed. strip r = r"
  shows "strip ref = ref"
proof (cases "ref = strip img")
  case False
  let ?i = "strip img"
  from False assms(1) obtain reg rest where ref: "ref = reg @ rest @ ?i" "validator_registry allowed = Some reg" "?i \<noteq> []"
    by (auto simp: resolve_to_full_ref_def Let_def split: if_splits option.splits)
  from ref(2) have reg: "reg \<in> set allowed" "contains (lower reg) ''.localregistry.chutes.ai''"
    by (auto simp: validator_registry_def find_Some_iff)
  have "lower reg \<noteq> []" using reg(2) by (cases "lower reg") auto
  then have "strip reg \<noteq> []" using assms(2) reg(1) by (auto simp: lower_def)
  then show ?thesis using ref(1,3) strip_ends[of reg] strip_ends[of img] assms(2) reg(1)
    by (intro strip_fixed) auto
qed simp


lemma lower_char_oci: "oci_alnum (lower_char c) \<longleftrightarrow> oci_alnum c" "oci_char c \<Longrightarrow> oci_char (lower_char c)"
  "lower_char c = CHR ''-'' \<longleftrightarrow> c = CHR ''-''"
proof -
  show alnum: "oci_alnum (lower_char c) \<longleftrightarrow> oci_alnum c"
    by (auto simp: oci_alnum_def lower_char_def Let_def of_char_int split: if_splits)
  have other: "lower_char c = c" if "c \<in> set ''._/:@-''" using that by (auto simp: lower_char_def)
  show "oci_char c \<Longrightarrow> oci_char (lower_char c)" using alnum other by (auto simp: oci_char_def)
  show "lower_char c = CHR ''-'' \<longleftrightarrow> c = CHR ''-''"
  proof
    assume "lower_char c = CHR ''-''"
    then have "of_char (lower_char c) = (45 :: nat)" by simp
    then have "(of_char c :: nat) = of_char (CHR ''-'')" by (auto simp: lower_char_def Let_def split: if_splits)
    then show "c = CHR ''-''" by (simp only: of_char_eq_iff)
  qed (simp add: lower_char_def)
qed

lemma contains_dashes: "contains s ''--'' \<longleftrightarrow> contains (map (\<lambda>c. c = CHR ''-'') s) [True, True]"
proof
  show "contains s ''--'' \<Longrightarrow> contains (map (\<lambda>c. c = CHR ''-'') s) [True, True]"
    using map_mono_sublist[of "''--''" s "\<lambda>c. c = CHR ''-''"] by simp
  assume "contains (map (\<lambda>c. c = CHR ''-'') s) [True, True]"
  from sublist_map_rightE[OF this] obtain w where "sublist w s" "[True, True] = map (\<lambda>c. c = CHR ''-'') w"
    by (elim exE conjE)
  moreover from this(2) have "w = ''--''" by (auto simp: Cons_eq_map_conv)
  ultimately show "contains s ''--''" by simp
qed

lemma plain_normalize:
  assumes "plain_argument s"
  shows "plain_argument (normalize_registry_hostname s)"
proof (cases "CHR ''/'' \<in> set s")
  case True
  obtain a b where ab: "split_once (CHR ''/'') s = (a, b)" by fastforce
  then have s: "s = a @ ''/'' @ b" using split_once_join[OF True] by simp
  have n: "normalize_registry_hostname s = lower a @ ''/'' @ b" using True ab by (simp add: normalize_registry_hostname_def)
  have "map (\<lambda>c. c = CHR ''-'') (lower a) = map (\<lambda>c. c = CHR ''-'') a" by (simp add: lower_def lower_char_oci)
  then have "contains (lower a @ ''/'' @ b) ''--'' \<longleftrightarrow> contains s ''--''" by (simp add: contains_dashes s)
  moreover have "oci_ref_pattern (lower a @ ''/'' @ b)"
    using assms unfolding s plain_argument_def oci_ref_pattern_def
    by (cases a) (auto simp: lower_def lower_char_oci list_all_iff oci_char_def[of "CHR ''/''"])
  ultimately show ?thesis using assms unfolding plain_argument_def n by (simp add: s lower_def)
qed (use assms in \<open>simp add: normalize_registry_hostname_def\<close>)

lemma validated_plain:
  assumes "validate_image_ref ref = Inr ()" "strip ref = ref"
  shows "plain_argument (normalize_registry_hostname ref)"
  using assms by (intro plain_normalize) (auto simp: validate_image_ref_def plain_argument_def Let_def split: if_splits)

lemma run_helper_plain:
  "(\<And>cmd. plain_command cmd \<Longrightarrow> helper cmd = helper' cmd) \<Longrightarrow> sub \<in> {''pull'', ''rm''} \<Longrightarrow> plain_argument ref \<Longrightarrow>
     run_helper helper sub (Some ref) = run_helper helper' sub (Some ref)"
  "(\<And>cmd. plain_command cmd \<Longrightarrow> helper cmd = helper' cmd) \<Longrightarrow> sub \<in> {''list'', ''prune''} \<Longrightarrow>
     run_helper helper sub None = run_helper helper' sub None"
  by (auto simp: run_helper_def plain_command_def)

lemma requested_admitted:
  assumes "task_justified cfg evs ref phase"
  shows "\<exists>img. admit_ref cfg img = Inr ref"
  using assms by (cases phase) (auto simp: task_justified_def requested_def signature_checked_def)

text \<open>
  The helper program, which runs with access to the container runtime, is only ever started with one of its
  four subcommands and an argument that begins with a letter or digit and has no blanks, double dashes or
  shell characters, whatever the client sent. Stated as: two helpers that agree on such command
  lines cannot be told apart by any operation of the manager.
\<close>

theorem helper_gets_plain_arguments:
  assumes agree: "\<forall>cmd. plain_command cmd \<longrightarrow> helper cmd = helper' cmd"
    and registries: "\<forall>r \<in> set (im_allowed_registries cfg). strip r = r"
    and run: "im_run cfg new_image_manager evs m" "map_of (im_pull_tasks m) ref = Some phase"
  shows "list_images helper = list_images helper' \<and> prune helper = prune helper' \<and>
     delete_image cfg helper img = delete_image cfg helper' img \<and>
     start_pull cfg helper img m = start_pull cfg helper' img m \<and>
     after_pull helper cfg ref m = after_pull helper' cfg ref m"
proof -
  have list: "list_images helper = list_images helper'" "prune helper = prune helper'"
    using run_helper_plain(2)[of helper helper'] agree by (simp_all add: list_images_def prune_def)
  have "delete_image cfg helper img = delete_image cfg helper' img"
    unfolding delete_image_def
    using run_helper_plain(1)[of helper helper'] validated_plain resolved_stripped registries agree
    by (intro bindR_cong) auto
  moreover obtain img' where "admit_ref cfg img' = Inr ref"
    using requested_admitted[OF tasks_justified[OF run]] by blast
  then have "plain_argument (normalize_registry_hostname ref)"
    using admit_refD[of cfg img' ref] validated_plain resolved_stripped registries by blast
  then have "after_pull helper cfg ref m = after_pull helper' cfg ref m"
    using run_helper_plain(1)[of helper helper' "''pull''"] agree by (simp add: after_pull_def)
  ultimately show ?thesis using list by (simp add: start_pull_def)
qed

text \<open>
  Only the miner can remove images: a request to delete or prune that is not signed with the hot key
  of the miner is answered with an error before the helper is started.
\<close>

theorem image_removal_needs_the_miner:
  assumes "rq_hotkey rq \<noteq> miner_ss58 settings"
  shows "\<exists>e. \<forall>helper cfg img.
     delete_image_route (server_gate C settings skip now) cfg helper img rq = Inl e \<and>
     prune_images_route (server_gate C settings skip now) helper rq = Inl e"
proof (cases "authorize C settings skip True False (Some ''images'') now rq")
  case (Inl e)
  then show ?thesis by (auto simp: delete_image_route_def prune_images_route_def server_gate_def)
next
  case (Inr u)
  then have "authorize C settings skip True False (Some ''images'') now rq = Inr ()" by simp
  then obtain s where "rq_hotkey rq = Some s" "miner_ss58 settings = Some s" by (rule authorize_signer) auto
  with assms show ?thesis by simp
qed


section \<open>An example\<close>

definition sample_pull_config :: pull_config where
  "sample_pull_config = \<lparr>im_allowed_registries = [''localhost:30500'', ''v.localregistry.chutes.ai:30500''],
     im_verify_defaults = verification_config.truncate sample_registry, im_cosign_key_path = ''/k.pub'',
     im_timeout_text = ''600.0'', im_default_org = ''chutes''\<rparr>"

definition sample_helper :: helper where
  "sample_helper cmd =
     (if cmd ! 1 = ''list'' then Inr (0, ''REF  TYPE'' @ [newline] @ ''a.io/b/c:1  t  sha256:ab  1.5 KiB'', [])
      else Inr (0, [], []))"

abbreviation sample_ref :: string where
  "sample_ref \<equiv> ''v.localregistry.chutes.ai:30500/chutes/m:1''"

definition sample_events :: "image_event list" where
  "sample_events = [PullRequested ''m:1'' sample_helper, CosignAnswered sample_ref sample_env]"

definition sample_pulling :: image_manager where
  "sample_pulling = \<lparr>im_pull_tasks = [(sample_ref, Pulling)], im_pull_results = []\<rparr>"

definition sample_pulled :: image_manager where
  "sample_pulled = \<lparr>im_pull_tasks = [], im_pull_results = [(sample_ref, PULL_COMPLETED, None)]\<rparr>"

lemma sample_pull_steps:
  "fst (start_pull sample_pull_config sample_helper ''m:1'' new_image_manager) =
     \<lparr>im_pull_tasks = [(sample_ref, Verifying)], im_pull_results = []\<rparr>"
  "after_verify sample_env sample_pull_config sample_ref
     \<lparr>im_pull_tasks = [(sample_ref, Verifying)], im_pull_results = []\<rparr> = sample_pulling"
  "after_pull sample_helper sample_pull_config sample_ref sample_pulling = sample_pulled"
  "admit_ref sample_pull_config ''m:1'' = Inr sample_ref"
  "list_images sample_helper = Inr [\<lparr>ie_ref = ''a.io/b/c:1'', ie_digest = Some ''sha256:ab'', ie_size_bytes = Some 1536\<rparr>]"
  by code_simp+

lemma sample_run: "im_run sample_pull_config new_image_manager sample_events sample_pulling"
proof -
  let ?m = "\<lparr>im_pull_tasks = [(sample_ref, Verifying)], im_pull_results = []\<rparr>"
  have "im_step sample_pull_config new_image_manager (PullRequested ''m:1'' sample_helper) ?m"
    using im_step.request[of sample_pull_config new_image_manager "''m:1''" sample_helper] unfolding sample_pull_steps(1) .
  then have a: "im_run sample_pull_config new_image_manager [PullRequested ''m:1'' sample_helper] ?m"
    using im_run.step[OF im_run.start] by fastforce
  have "im_step sample_pull_config ?m (CosignAnswered sample_ref sample_env) sample_pulling"
    using im_step.verified[of ?m sample_ref sample_pull_config sample_env] unfolding sample_pull_steps(2) by simp
  from im_run.step[OF a this] show ?thesis by (simp add: sample_events_def)
qed

lemma sample_pull_step: "im_step sample_pull_config sample_pulling (PullAnswered sample_ref sample_helper) sample_pulled"
  using im_step.pulled[of sample_pulling sample_ref sample_pull_config sample_helper] unfolding sample_pull_steps(3)
  by (simp add: sample_pulling_def)

theorem pull_report_is_consistent_witness:
  "distinct (map fst (im_pull_tasks sample_pulling)) \<and>
   ps_image_ref (snapshot_of sample_ref PULL_IN_PROGRESS None) \<in> fst ` set (im_pull_tasks sample_pulling)"
proof -
  have "get_pull_status sample_pull_config None sample_pulling = Inr [snapshot_of sample_ref PULL_IN_PROGRESS None]"
    by (simp add: get_pull_status_def given_def sample_pulling_def)
  from pull_report_is_consistent[OF sample_run this] show ?thesis by (simp add: snapshot_of_def)
qed

theorem pulled_images_are_signed_witness:
  "\<exists>env out err. CosignAnswered sample_ref env \<in> set sample_events \<and>
     run_proc env (key_cmd (pull_verification sample_pull_config) ''/k.pub'' sample_ref) = Exited 0 out err"
proof -
  have key: "im_cosign_key_path sample_pull_config = ''/k.pub''" by (simp add: sample_pull_config_def)
  from pulled_images_are_signed[OF sample_run sample_pull_step] obtain a img h b env c out err where
    evs: "sample_events = a @ PullRequested img h # b @ CosignAnswered sample_ref env # c"
    and out: "run_proc env (key_cmd (pull_verification sample_pull_config) (im_cosign_key_path sample_pull_config) sample_ref)
      = Exited 0 out err"
    by (elim exE conjE)
  have "CosignAnswered sample_ref env \<in> set sample_events" unfolding evs by simp
  then show ?thesis using out unfolding key by (intro exI[of _ env] exI[of _ out] exI[of _ err] conjI)
qed

theorem completed_pull_is_final_witness:
  "start_pull sample_pull_config sample_helper ''m:1'' sample_pulled = (sample_pulled, Inr (''present'', True))"
proof -
  have "map_of (im_pull_results sample_pulled) sample_ref = Some (PULL_COMPLETED, None)" by (simp add: sample_pulled_def)
  from completed_pull_is_final[OF im_run.step[OF sample_run sample_pull_step] this im_run.start,
      of "''m:1''" sample_helper]
  show ?thesis by (simp add: sample_pull_steps(4,5))
qed

theorem helper_gets_plain_arguments_witness:
  "delete_image sample_pull_config sample_helper ''--all'' =
   delete_image sample_pull_config (\<lambda>cmd. if plain_command cmd then sample_helper cmd else Inl IndexError) ''--all''"
proof -
  have "\<forall>r \<in> set (im_allowed_registries sample_pull_config). strip r = r" by code_simp
  moreover have "map_of (im_pull_tasks sample_pulling) sample_ref = Some Pulling" by (simp add: sample_pulling_def)
  ultimately show ?thesis
    using helper_gets_plain_arguments[of sample_helper "\<lambda>cmd. if plain_command cmd then sample_helper cmd else Inl IndexError"
        sample_pull_config sample_events sample_pulling sample_ref Pulling "''--all''"] sample_run by simp
qed

theorem image_removal_needs_the_miner_witness:
  "\<exists>e. prune_images_route (server_gate sample_crypto \<lparr>miner_ss58 = Some ''5M'', allowed_validators_str = Some ''5V''\<rparr> [] 0)
     sample_helper (sample_http\<lparr>rq_hotkey := Some ''5V''\<rparr>) = Inl e"
  using image_removal_needs_the_miner[of "sample_http\<lparr>rq_hotkey := Some ''5V''\<rparr>"
      "\<lparr>miner_ss58 = Some ''5M'', allowed_validators_str = Some ''5V''\<rparr>" sample_crypto "[]" 0] by auto

end
