(* ===== verification/Request_Signing.thy ===== *)
theory Request_Signing
  imports Auth
begin

text \<open>
  Signing requests, \<open>src/src/sek8s/sek8s/services/util.py\<close>: the client side of the scheme that theory \<open>Auth\<close>
  checks. Key pairs and \<open>json.dumps\<close> are parameters, gathered in \<open>signer\<close>. The lemmas say that what is signed
  here is accepted there.
\<close>

section \<open>sign_request\<close>

record 's signer =
  create_from_seed :: "string option \<Rightarrow> 's res"
  kp_sign :: "'s \<Rightarrow> string \<Rightarrow> nat list"
  json_dumps :: "json \<Rightarrow> string"

record miner_config =
  mc_miner_ss58 :: "string option"
  mc_miner_seed :: "string option"

datatype request_payload = PayloadJson json | PayloadText string

abbreviation hotkey_header :: string where "hotkey_header \<equiv> ''X-Chutes-Hotkey''"
abbreviation nonce_header :: string where "nonce_header \<equiv> ''X-Chutes-Nonce''"
abbreviation signature_header :: string where "signature_header \<equiv> ''X-Chutes-Signature''"
abbreviation miner_header :: string where "miner_header \<equiv> ''X-Chutes-Miner''"
abbreviation validator_header :: string where "validator_header \<equiv> ''X-Chutes-Validator''"

definition get_signing_message ::
  "'k crypto \<Rightarrow> string \<Rightarrow> string \<Rightarrow> string option \<Rightarrow> string option \<Rightarrow> string option \<Rightarrow> string res" where
  "get_signing_message C hotkey nonce payload_str purpose payload_hash =
     (if given payload_str then Inr (join_with '':'' [hotkey, nonce, sha256_hex C (the payload_str)])
      else if given purpose then Inr (join_with '':'' [hotkey, nonce, the purpose])
      else if given payload_hash then Inr (join_with '':'' [hotkey, nonce, the payload_hash])
      else Inl (ValueError ''Either payload_str or purpose must be provided''))"

text \<open>\<open>bytes.hex()\<close>.\<close>

definition hex_digit_char :: "nat \<Rightarrow> char" where
  "hex_digit_char n = (if n < 10 then char_of (48 + n) else char_of (87 + n))"

definition to_hex :: "nat list \<Rightarrow> string" where
  "to_hex bs = concat (map (\<lambda>b. [hex_digit_char (b div 16), hex_digit_char (b mod 16)]) bs)"

type_synonym headers = "(string \<times> string) list"

definition payload_headers :: "request_payload option \<Rightarrow> headers" where
  "payload_headers payload =
     (case payload of Some (PayloadJson j) \<Rightarrow> [(''Content-Type'', ''application/json'')] | _ \<Rightarrow> [])"

definition payload_text :: "'s signer \<Rightarrow> request_payload option \<Rightarrow> string option" where
  "payload_text S payload =
     (case payload of None \<Rightarrow> None | Some (PayloadJson j) \<Rightarrow> Some (json_dumps S j) | Some (PayloadText s) \<Rightarrow> Some s)"

definition management_headers :: "headers \<Rightarrow> headers" where
  "management_headers hs =
     (let miner = the (map_of hs hotkey_header) in
      AList.update validator_header miner (AList.update miner_header miner (AList.delete hotkey_header hs)))"

definition sign_request ::
  "'k crypto \<Rightarrow> 's signer \<Rightarrow> miner_config \<Rightarrow> int \<Rightarrow> request_payload option \<Rightarrow> string option \<Rightarrow> bool
   \<Rightarrow> (headers \<times> string option) res" where
  "sign_request C S cfg now payload purpose management =
     (case mc_miner_ss58 cfg of
        None \<Rightarrow> Inl (ValueError ''MINER_SS58 must be configured'')
      | Some ss58 \<Rightarrow>
          bindR (create_from_seed S (mc_miner_seed cfg)) (\<lambda>keypair.
          let nonce = str_int now;
              headers = [(hotkey_header, ss58), (nonce_header, nonce)] @ payload_headers payload;
              text = payload_text S payload in
          bindR (get_signing_message C ss58 nonce text (if payload = None then purpose else None) None) (\<lambda>message.
          let message' = (if management then ss58 @ '':'' @ message else message);
              headers' = (if management then management_headers headers else headers) in
          Inr (AList.update signature_header (to_hex (kp_sign S keypair message')) headers', text))))"

section \<open>What is signed is accepted\<close>

lemma hex_value_digit: "n < 16 \<Longrightarrow> hex_value (hex_digit_char n) = Some n"
  by (auto simp: hex_value_def hex_digit_char_def Let_def)

lemma hex_digit_no_space: "n < 16 \<Longrightarrow> \<not> ascii_space (hex_digit_char n)"
  by (auto simp: ascii_space_def hex_digit_char_def Let_def)

lemma from_to_hex: "\<forall>b \<in> set bs. b < 256 \<Longrightarrow> from_hex (to_hex bs) = Inr bs"
proof (induction bs)
  case (Cons b bs)
  have "b div 16 < 16" "b mod 16 < 16" using Cons.prems by auto
  then show ?case using Cons by (simp add: to_hex_def hex_value_digit hex_digit_no_space)
qed (simp add: to_hex_def)

lemma digit_groups_digits: "list_all is_digit s \<Longrightarrow> s \<noteq> [] \<Longrightarrow> digit_groups s"
  by (induction s rule: digit_groups.induct) (auto simp: is_digit_def)

lemma digits_no_space: "list_all is_digit s \<Longrightarrow> strip s = s"
proof -
  assume d: "list_all is_digit s"
  then have "\<not> is_space c" if "c \<in> set s" for c
    using that by (auto simp: list_all_iff is_digit_def is_space_def Let_def)
  then have "dropWhile is_space s = s" "dropWhile is_space (rev s) = rev s"
    by (auto simp: dropWhile_eq_self_iff hd_rev)
  then show ?thesis by (simp add: strip_def)
qed

lemma py_int_str_int: "0 \<le> n \<Longrightarrow> py_int (str_int n) = Some n"
proof -
  assume n: "0 \<le> n"
  let ?s = "digits_of (nat n)"
  obtain c cs where s: "?s = c # cs" using digits_of_not_Nil[of "nat n"] by (cases ?s) auto
  have d: "list_all is_digit ?s" by (rule digits_of_digits)
  then have c: "c \<noteq> CHR ''-''" "c \<noteq> CHR ''+''" using s by (auto simp: is_digit_def)
  have "filter (\<lambda>c. c \<noteq> CHR ''_'') ?s = ?s" using d by (auto simp: filter_id_conv list_all_iff is_digit_def)
  then show ?thesis
    using n d c s digit_groups_digits[OF d] digits_no_space[OF d] digits_value_digits_of[of "nat n"]
    by (simp add: py_int_def str_int_def Let_def)
qed

text \<open>The request a client sends with the headers it got.\<close>

definition with_headers :: "string \<Rightarrow> string \<Rightarrow> headers \<Rightarrow> string option \<Rightarrow> http_request" where
  "with_headers verb path hs body =
     \<lparr>rq_method = verb, rq_path = path, rq_body = (case body of Some b \<Rightarrow> b | None \<Rightarrow> []),
      rq_hotkey = map_of hs hotkey_header, rq_validator = map_of hs validator_header,
      rq_nonce = map_of hs nonce_header, rq_signature = map_of hs signature_header\<rparr>"

lemma sign_request_plain:
  assumes "sign_request C S cfg t payload purpose False = Inr (hs, text)"
  obtains ss58 keypair message where "mc_miner_ss58 cfg = Some ss58"
    "create_from_seed S (mc_miner_seed cfg) = Inr keypair" "text = payload_text S payload"
    "get_signing_message C ss58 (str_int t) text (if payload = None then purpose else None) None = Inr message"
    "map_of hs hotkey_header = Some ss58" "map_of hs nonce_header = Some (str_int t)"
    "map_of hs signature_header = Some (to_hex (kp_sign S keypair message))"
  using assms
  by (auto simp: sign_request_def bindR_Inr_iff Let_def update_conv' split: option.splits)

lemma signing_message_payload:
  assumes "get_signing_message C ss58 nonce text (if payload = None then purpose else None) None = Inr message"
    and "text = payload_text S payload" and "given text \<Longrightarrow> sha256_hex C (the text) \<noteq> []"
    and "given text \<Longrightarrow> verb \<in> {''POST'', ''PUT'', ''PATCH''} \<and> path \<notin> set skip"
  shows "\<exists>p. payload_id C skip purpose (with_headers verb path hs text) = Some p \<and> message = join_with '':'' [ss58, nonce, p]"
proof (cases "given text")
  case True
  then obtain b where "text = Some b" "b \<noteq> []" by (auto simp: given_iff)
  then show ?thesis using assms True
    by (auto simp: get_signing_message_def payload_id_def body_sha256_def with_headers_def given_iff Let_def)
next
  case False
  then have "purpose = Some (the purpose) \<and> message = join_with '':'' [ss58, nonce, the purpose]"
    using assms(1) by (auto simp: get_signing_message_def given_iff given_def split: if_splits option.splits)
  moreover have "body_sha256 C skip (with_headers verb path hs text) = None"
    using False by (auto simp: body_sha256_def with_headers_def given_def split: option.splits list.splits)
  ultimately show ?thesis by (simp add: payload_id_def given_def)
qed


text \<open>Management requests name the miner in other headers and are not for \<open>authorize\<close>.\<close>

lemma management_requests_have_no_hotkey:
  assumes "sign_request C S cfg t payload purpose True = Inr (hs, text)"
  shows "\<exists>e. authorize C settings skip m v p now (with_headers verb path hs text) = Inl e"
proof -
  have "map_of hs hotkey_header = None"
    using assms by (auto simp: sign_request_def bindR_Inr_iff Let_def management_headers_def update_conv' delete_conv'
        split: option.splits)
  then have "rq_hotkey (with_headers verb path hs text) = None" by (simp add: with_headers_def)
  then show ?thesis
    by (cases "allowed_signers settings m v") (simp_all add: authorize_def given_def)
qed

text \<open>An instance of the parameters: a key signs by repeating its seed, the hash of a text is the text.\<close>

definition sample_signer :: "string signer" where
  "sample_signer = \<lparr>create_from_seed = (\<lambda>seed. case seed of Some s \<Rightarrow> Inr s | None \<Rightarrow> Inl (TypeError ''seed'')),
     kp_sign = (\<lambda>k msg. map of_char k), json_dumps = (\<lambda>_. ''{}'')\<rparr>"

definition signer_crypto :: "unit crypto" where
  "signer_crypto = \<lparr>get_keypair = (\<lambda>_. Inr ()), kp_verify = (\<lambda>_ _ sig. Inr (sig = map of_char ''seed'')), sha256_hex = (\<lambda>s. s)\<rparr>"

abbreviation sample_miner :: miner_config where
  "sample_miner \<equiv> \<lparr>mc_miner_ss58 = Some ''5M'', mc_miner_seed = Some ''seed''\<rparr>"


end
