(* ===== verification/System_Status.thy ===== *)
theory System_Status
  imports Command_Output Cosign_Client Auth "HOL-Library.Multiset"
begin

text \<open>
  The status routes of the system manager, \<open>src/src/sek8s/sek8s/system_manager/status/\<close>: \<open>util.py\<close> (running
  commands, services, disk space, nvidia-smi), \<open>models.py\<close> (the allow list of services) and \<open>router.py\<close>. What
  a command does, where a path resolves to and the clock are the record \<open>status_env\<close>. The detail of an
  HTTP error is its text. The responses that the framework keeps for some seconds are not modelled:
  every request is answered afresh. The lemmas say which commands a client can make the server run,
  how much output it returns and what it calls healthy.
\<close>

section \<open>Running commands\<close>

text \<open>
  An answer together with the commands that were run for it, in the order in which they were started.
\<close>

type_synonym 'a traced = "string list list \<times> 'a res"

definition no_command :: "'a res \<Rightarrow> 'a traced" where
  "no_command r = ([], r)"

definition bindT :: "'a traced \<Rightarrow> ('a \<Rightarrow> 'b traced) \<Rightarrow> 'b traced" where
  "bindT m f =
     (case m of
        (commands, Inl e) \<Rightarrow> (commands, Inl e)
      | (commands, Inr x) \<Rightarrow> (case f x of (more_commands, r) \<Rightarrow> (commands @ more_commands, r)))"

definition answer_of :: "'a traced \<Rightarrow> ('a res \<Rightarrow> 'b res) \<Rightarrow> 'b traced" where
  "answer_of m f = (case m of (commands, r) \<Rightarrow> (commands, f r))"

text \<open>\<open>asyncio.gather\<close>: all are started, the first exception is raised.\<close>

definition gatherT :: "('a \<Rightarrow> 'b traced) \<Rightarrow> 'a list \<Rightarrow> 'b list traced" where
  "gatherT f xs = (let results = map f xs in (concat (map fst results), mapM snd results))"

lemma mapM_map: "mapM f (map g xs) = mapM (\<lambda>x. f (g x)) xs"
  by (induction xs) simp_all

lemma snd_traced [simp]:
  "snd (bindT m f) = bindR (snd m) (\<lambda>x. snd (f x))" "snd (no_command r) = r" "snd (answer_of m g) = g (snd m)"
  "snd (gatherT h xs) = mapM (\<lambda>x. snd (h x)) xs"
  by (auto simp: bindT_def no_command_def answer_of_def gatherT_def mapM_map split: sum.splits prod.splits)

lemma fst_traced [simp]:
  "fst (no_command r) = []" "fst (answer_of m g) = fst m" "fst (gatherT h xs) = concat (map (\<lambda>x. fst (h x)) xs)"
  by (simp_all add: no_command_def answer_of_def gatherT_def comp_def split: prod.splits)

lemma bindT_commands:
  "c \<in> set (fst (bindT m f)) \<longleftrightarrow> c \<in> set (fst m) \<or> (\<exists>x. snd m = Inr x \<and> c \<in> set (fst (f x)))"
  by (auto simp: bindT_def split: sum.splits prod.splits)

record status_env =
  st_run :: "string list \<Rightarrow> rat \<Rightarrow> proc_outcome"     \<comment> \<open>command, time limit\<close>
  st_resolve :: "string \<Rightarrow> string res"                 \<comment> \<open>\<open>str(Path(p).resolve())\<close>\<close>
  st_exists :: "string \<Rightarrow> bool"
  st_is_dir :: "string \<Rightarrow> bool"
  st_minutes_ago :: "int \<Rightarrow> string"                    \<comment> \<open>the time some minutes ago, in ISO format\<close>

record status_config =
  sc_max_output_bytes :: nat
  sc_command_timeout :: rat
  sc_log_tail_max :: int
  sc_log_window_max_minutes :: int

text \<open>The bounds that the settings class puts on its fields.\<close>

definition status_config_ok :: "status_config \<Rightarrow> bool" where
  "status_config_ok cfg \<longleftrightarrow>
     1024 \<le> sc_max_output_bytes cfg \<and> sc_max_output_bytes cfg \<le> 1000000 \<and>
     0 < sc_command_timeout cfg \<and> sc_command_timeout cfg \<le> 60 \<and>
     100 \<le> sc_log_tail_max cfg \<and> sc_log_tail_max cfg \<le> 10000 \<and>
     1 \<le> sc_log_window_max_minutes cfg \<and> sc_log_window_max_minutes cfg \<le> 7 * 24 * 60"

definition parse_key_value :: "string \<Rightarrow> (string \<times> string) list" where
  "parse_key_value output =
     fold (\<lambda>line parsed. case split_once (CHR ''='') line of (key, val) \<Rightarrow> AList.update key val parsed)
       (filter (\<lambda>line. CHR ''='' \<in> set line) (splitlines output)) []"

definition truncate_text :: "string \<Rightarrow> nat \<Rightarrow> bool \<Rightarrow> string \<times> bool" where
  "truncate_text val limit keep_tail =
     (if length val \<le> limit then (val, False)
      else if keep_tail then (if limit = 0 then val else drop (length val - limit) val, True)
      else (take limit val, True))"

record command_result =
  cr_exit_code :: int
  cr_stdout :: string
  cr_stderr :: string
  cr_stdout_truncated :: bool
  cr_stderr_truncated :: bool

definition run_command :: "status_env \<Rightarrow> string list \<Rightarrow> rat \<Rightarrow> nat \<Rightarrow> bool \<Rightarrow> command_result traced" where
  "run_command env command timeout limit keep_tail =
     ([command],
      let name = (if command ! 0 = ''sudo'' then command ! 1 else command ! 0) in
      case st_run env command timeout of
        BinaryNotFound \<Rightarrow> Inl (HTTPException 503 (''missing_binary: '' @ name))
      | SpawnFailed e \<Rightarrow> Inl e
      | TimedOut \<Rightarrow> Inl (HTTPException 504 (''timeout: '' @ name))
      | Exited code out err \<Rightarrow>
          (case (truncate_text out limit keep_tail, truncate_text err limit keep_tail) of
             ((out', ot), (err', et)) \<Rightarrow>
               Inr \<lparr>cr_exit_code = code, cr_stdout = out', cr_stderr = err', cr_stdout_truncated = ot,
                    cr_stderr_truncated = et\<rparr>))"

section \<open>Services\<close>

record service_definition =
  sd_service_id :: string
  sd_unit :: string
  sd_description :: string

definition service_allowlist :: "service_definition list" where
  "service_allowlist =
     [\<lparr>sd_service_id = ''admission-controller'', sd_unit = ''admission-controller.service'',
        sd_description = ''sek8s admission controller''\<rparr>,
      \<lparr>sd_service_id = ''system-manager'', sd_unit = ''system-manager.service'',
        sd_description = ''sek8s system manager (status + cache)''\<rparr>,
      \<lparr>sd_service_id = ''attestation-service'', sd_unit = ''attestation-service.service'',
        sd_description = ''TDX/nvtrust attestation service''\<rparr>,
      \<lparr>sd_service_id = ''k3s'', sd_unit = ''k3s.service'', sd_description = ''Lightweight Kubernetes control plane''\<rparr>,
      \<lparr>sd_service_id = ''storage-bind-mounts'', sd_unit = ''setup-storage-bind-mounts.service'',
        sd_description = ''Sync and bind-mount storage volume directories (k3s, kubelet, rancher config, etc.)''\<rparr>,
      \<lparr>sd_service_id = ''nvidia-persistenced'', sd_unit = ''nvidia-persistenced.service'',
        sd_description = ''NVIDIA persistence daemon''\<rparr>,
      \<lparr>sd_service_id = ''nvidia-fabricmanager'', sd_unit = ''nvidia-fabricmanager.service'',
        sd_description = ''NVIDIA fabric manager''\<rparr>,
      \<lparr>sd_service_id = ''infiniband-config'', sd_unit = ''infiniband-config.service'',
        sd_description = ''Configure InfiniBand: mask services and disable ib_umad when no Mellanox devices present''\<rparr>]"

definition resolve_service :: "string \<Rightarrow> service_definition res" where
  "resolve_service service_id =
     (case find (\<lambda>s. sd_service_id s = service_id) service_allowlist of
        None \<Rightarrow> Inl (HTTPException 404 ''service not allowed'')
      | Some s \<Rightarrow> Inr s)"

record service_status =
  ss_load_state :: "string option"
  ss_active_state :: "string option"
  ss_sub_state :: "string option"
  ss_unit_file_state :: "string option"
  ss_main_pid :: "string option"
  ss_exit_code :: "string option"
  ss_exit_status :: "string option"

definition is_service_healthy :: "service_status \<Rightarrow> bool" where
  "is_service_healthy s =
     (if ss_load_state s \<noteq> Some ''loaded'' \<or> ss_active_state s \<noteq> Some ''active'' then False
      else if ss_sub_state s \<in> {Some ''running'', Some ''listening'', None} then True
      else if ss_sub_state s = Some ''exited'' \<and> ss_exit_status s = Some ''0'' then True
      else False)"

record status_response =
  sr_service :: service_definition
  sr_status :: "service_status option"
  sr_healthy :: bool
  sr_error :: "string option"

definition service_properties :: "string list" where
  "service_properties =
     [''Id'', ''LoadState'', ''ActiveState'', ''SubState'', ''MainPID'', ''ExecMainStatus'', ''ExecMainCode'', ''UnitFileState'']"

definition service_command :: "service_definition \<Rightarrow> string list" where
  "service_command service =
     [''systemctl'', ''show'', sd_unit service, ''--no-pager''] @ map (\<lambda>p. ''--property='' @ p) service_properties"

definition read_service_status :: "string \<Rightarrow> service_status" where
  "read_service_status stdout =
     (let data = map_of (parse_key_value stdout) in
      \<lparr>ss_load_state = data ''LoadState'', ss_active_state = data ''ActiveState'', ss_sub_state = data ''SubState'',
       ss_unit_file_state = data ''UnitFileState'', ss_main_pid = data ''MainPID'', ss_exit_code = data ''ExecMainCode'',
       ss_exit_status = data ''ExecMainStatus''\<rparr>)"

definition status_failed :: "service_definition \<Rightarrow> string \<Rightarrow> status_response" where
  "status_failed service err = \<lparr>sr_service = service, sr_status = None, sr_healthy = False, sr_error = Some err\<rparr>"

definition collect_service_status ::
  "status_env \<Rightarrow> status_config \<Rightarrow> bool \<Rightarrow> service_definition \<Rightarrow> status_response traced" where
  "collect_service_status env cfg tolerate_errors service =
     answer_of (run_command env (service_command service) (sc_command_timeout cfg) (sc_max_output_bytes cfg) False) (\<lambda>r. case r of
        Inl e \<Rightarrow>
          (case e of
             HTTPException code detail \<Rightarrow> if tolerate_errors then Inr (status_failed service detail) else Inl e
           | _ \<Rightarrow> Inl e)
      | Inr result \<Rightarrow>
          if cr_exit_code result \<noteq> 0 then
            (let detail = ''command_failed: systemctl '' @ str_int (cr_exit_code result) @ '' '' @ cr_stderr result in
             if tolerate_errors then Inr (status_failed service detail) else Inl (HTTPException 502 detail))
          else
            (let status = read_service_status (cr_stdout result) in
             Inr \<lparr>sr_service = service, sr_status = Some status, sr_healthy = is_service_healthy status, sr_error = None\<rparr>))"

section \<open>nvidia-smi\<close>

record smi_response =
  sm_command :: "string list"
  sm_exit_code :: int
  sm_stdout :: string
  sm_stderr :: string
  sm_stdout_lines :: "string list"
  sm_stderr_lines :: "string list"
  sm_stdout_truncated :: bool
  sm_stderr_truncated :: bool
  sm_detail :: bool
  sm_gpu :: string
  sm_status :: string

definition smi_command :: "bool \<Rightarrow> string \<Rightarrow> string list res" where
  "smi_command detail gpu =
     (let command = ''nvidia-smi'' # (if detail then [''-q''] else []) in
      if gpu = ''all'' then Inr command
      else
        (case py_int gpu of
           None \<Rightarrow> Inl (HTTPException 400 (''gpu must be an integer or '' @ [CHR 0x27] @ ''all'' @ [CHR 0x27]))
         | Some index \<Rightarrow>
             if index < 0 then Inl (HTTPException 400 ''gpu must be non-negative'')
             else Inr (command @ [''-i'', str_int index])))"

definition nvidia_smi_impl :: "status_env \<Rightarrow> status_config \<Rightarrow> bool \<Rightarrow> string \<Rightarrow> smi_response traced" where
  "nvidia_smi_impl env cfg detail gpu =
     bindT (no_command (smi_command detail gpu)) (\<lambda>command.
     bindT (run_command env command (sc_command_timeout cfg) (sc_max_output_bytes cfg) False) (\<lambda>r.
     no_command (Inr \<lparr>sm_command = command, sm_exit_code = cr_exit_code r, sm_stdout = cr_stdout r, sm_stderr = cr_stderr r,
          sm_stdout_lines = splitlines (cr_stdout r), sm_stderr_lines = splitlines (cr_stderr r),
          sm_stdout_truncated = cr_stdout_truncated r, sm_stderr_truncated = cr_stderr_truncated r,
          sm_detail = detail, sm_gpu = gpu, sm_status = (if cr_exit_code r = 0 then ''ok'' else ''error'')\<rparr>)))"


section \<open>Disk space\<close>

definition virtual_fs_excludes :: "string list" where
  "virtual_fs_excludes = [''/proc'', ''/sys'', ''/dev'', ''/run'', ''/snap'']"

definition du_exclude_args :: "string \<Rightarrow> string list" where
  "du_exclude_args target = (if target \<noteq> ''/'' then [] else map (\<lambda>d. ''--exclude='' @ d) virtual_fs_excludes)"

definition validate_query_path :: "status_env \<Rightarrow> string \<Rightarrow> string res" where
  "validate_query_path env path =
     (case st_resolve env path of
        Inl e \<Rightarrow>
          (case e of
             ValueError m \<Rightarrow> Inl (HTTPException 400 ''Invalid path'')
           | RuntimeError m \<Rightarrow> Inl (HTTPException 400 ''Invalid path'')
           | _ \<Rightarrow> Inl e)
      | Inr resolved \<Rightarrow>
          if \<not> st_exists env resolved then Inl (HTTPException 404 ''Path does not exist'')
          else if \<not> st_is_dir env resolved then Inl (HTTPException 400 ''Path is not a directory'')
          else Inr resolved)"

definition tab :: char where "tab = char_of (9 :: nat)"

text \<open>A line of \<open>du -k\<close>; a line it cannot read is skipped by both callers.\<close>

definition parse_du_line :: "string \<Rightarrow> (int \<times> string) option" where
  "parse_du_line line =
     (if tab \<notin> set line then None
      else (case split_once tab line of (sz, path) \<Rightarrow> map_option (\<lambda>kb. (kb * 1024, path)) (py_int sz)))"

fun size_in_units :: "string list \<Rightarrow> rat \<Rightarrow> string" where
  "size_in_units [] sz = fixed1_signed sz @ '' PB''"
| "size_in_units (unit # units) sz =
     (if sz < 1024 then fixed1_signed sz @ '' '' @ unit else size_in_units units (sz / 1024))"

definition human_readable_size :: "int \<Rightarrow> string" where
  "human_readable_size size_bytes = size_in_units [''B'', ''KB'', ''MB'', ''GB'', ''TB''] (of_int size_bytes)"

record filesystem_info =
  fi_source :: string
  fi_target :: string
  fi_total_bytes :: int
  fi_used_bytes :: int
  fi_available_bytes :: int
  fi_total_human :: string
  fi_used_human :: string
  fi_available_human :: string
  fi_used_percent :: py_float

definition rstrip_percent :: "string \<Rightarrow> string" where
  "rstrip_percent s = rev (dropWhile (\<lambda>c. c = CHR ''%'') (rev s))"

definition round2 :: "py_float \<Rightarrow> py_float" where
  "round2 x = (case x of Finite r \<Rightarrow> Finite (of_int (round_even (100 * r)) / 100) | _ \<Rightarrow> x)"

definition parse_df_line :: "string \<Rightarrow> filesystem_info option" where
  "parse_df_line line =
     (let parts = words line in
      if length parts < 6 then None
      else
        (case (py_int (parts ! 1), py_int (parts ! 2), py_int (parts ! 3)) of
           (Some size_kb, Some used_kb, Some avail_kb) \<Rightarrow>
             (let percent =
                (case float_text (rstrip_percent (parts ! 4)) of
                   Some x \<Rightarrow> x
                 | None \<Rightarrow> Finite (if size_kb > 0 then of_int used_kb / of_int size_kb * 100 else 0)) in
              Some \<lparr>fi_source = parts ! 0, fi_target = join_with '' '' (drop 5 parts), fi_total_bytes = size_kb * 1024,
                fi_used_bytes = used_kb * 1024, fi_available_bytes = avail_kb * 1024,
                fi_total_human = human_readable_size (size_kb * 1024), fi_used_human = human_readable_size (used_kb * 1024),
                fi_available_human = human_readable_size (avail_kb * 1024), fi_used_percent = round2 percent\<rparr>)
         | _ \<Rightarrow> None))"

definition df_command :: "string \<Rightarrow> string list" where
  "df_command path = (if path = ''/'' then [''df'', ''-k''] else [''df'', ''-k'', path])"

definition get_filesystems :: "status_env \<Rightarrow> status_config \<Rightarrow> string \<Rightarrow> filesystem_info list option traced" where
  "get_filesystems env cfg validated_path =
     bindT (no_command (st_resolve env validated_path)) (\<lambda>path.
     answer_of (run_command env (df_command path) (sc_command_timeout cfg) (sc_max_output_bytes cfg) False) (\<lambda>r. case r of
       Inl e \<Rightarrow> (case e of HTTPException c m \<Rightarrow> Inr None | _ \<Rightarrow> Inl e)
     | Inr r \<Rightarrow>
         if cr_exit_code r \<noteq> 0 then Inr None
         else
           (let fs = List.map_filter parse_df_line (splitlines (strip (cr_stdout r))) in
            Inr (if fs = [] then None else Some fs))))"

record directory_info =
  di_name :: string
  di_path :: string
  di_size_bytes :: int
  di_size_human :: string
  di_depth :: nat
  di_percentage :: "rat option"

record disk_space =
  ds_path :: string
  ds_directories :: "directory_info list"
  ds_total_size_bytes :: int
  ds_total_size_human :: string
  ds_stdout_truncated :: bool
  ds_diagnostic_mode :: bool
  ds_max_depth :: "nat option"
  ds_top_n :: "nat option"
  ds_filesystems :: "filesystem_info list option"

text \<open>The depth of one resolved path below another.\<close>

definition depth_below :: "string \<Rightarrow> string \<Rightarrow> nat option" where
  "depth_below base_dir p =
     (if prefix (path_parts base_dir) (path_parts p) then Some (length (path_parts p) - length (path_parts base_dir)) else None)"

definition directory_entry :: "string \<Rightarrow> int \<Rightarrow> nat \<Rightarrow> rat option \<Rightarrow> directory_info" where
  "directory_entry path sz depth percentage =
     \<lparr>di_name = path_name path, di_path = path, di_size_bytes = sz, di_size_human = human_readable_size sz,
      di_depth = depth, di_percentage = percentage\<rparr>"

definition du_command :: "bool \<Rightarrow> string \<Rightarrow> nat \<Rightarrow> string list" where
  "du_command cross_filesystems path depth =
     [''sudo'', ''du'', ''-k''] @ (if cross_filesystems then [] else [''-x'']) @ du_exclude_args path @
     [''--max-depth='' @ digits_of depth, path]"

definition du_timeout :: "status_config \<Rightarrow> rat" where
  "du_timeout cfg = max (sc_command_timeout cfg * 5) 120"

definition du_lines :: "command_result \<Rightarrow> (int \<times> string) list" where
  "du_lines r = List.map_filter parse_du_line (filter (\<lambda>line. line \<noteq> []) (splitlines (strip (cr_stdout r))))"

text \<open>Sorting by size, largest first; entries of one size keep their order.\<close>

definition by_size_desc :: "directory_info list \<Rightarrow> directory_info list" where
  "by_size_desc ds = sort_key (\<lambda>d. - di_size_bytes d) ds"

definition with_resolved :: "status_env \<Rightarrow> (int \<times> string) list \<Rightarrow> (int \<times> string \<times> string) list res" where
  "with_resolved env entries = mapM (\<lambda>(sz, path). bindR (st_resolve env path) (\<lambda>r. Inr (sz, path, r))) entries"

definition last_size :: "int list \<Rightarrow> int" where
  "last_size sizes = (if sizes = [] then 0 else last sizes)"

definition get_disk_space_simple :: "status_env \<Rightarrow> status_config \<Rightarrow> string \<Rightarrow> bool \<Rightarrow> disk_space traced" where
  "get_disk_space_simple env cfg base_dir cross_filesystems =
     bindT (run_command env (du_command cross_filesystems base_dir 1) (du_timeout cfg) (sc_max_output_bytes cfg) False) (\<lambda>r.
     bindT (no_command (with_resolved env (du_lines r))) (\<lambda>entries.
     let parent_size = last_size (map fst (filter (\<lambda>(sz, path, res). res = base_dir) entries));
         dirs = by_size_desc (map (\<lambda>(sz, path, res). directory_entry path sz 1 None)
           (filter (\<lambda>(sz, path, res). res \<noteq> base_dir) entries));
         summed = sum_list (map di_size_bytes dirs);
         total_bytes = (if parent_size > 0 then parent_size else summed);
         dirs' = (if total_bytes > 0
           then map (\<lambda>d. d\<lparr>di_percentage := Some (of_int (di_size_bytes d) / of_int total_bytes * 100)\<rparr>) dirs else dirs) in
     bindT (get_filesystems env cfg base_dir) (\<lambda>filesystems.
     no_command (Inr \<lparr>ds_path = base_dir, ds_directories = dirs', ds_total_size_bytes = total_bytes,
          ds_total_size_human = human_readable_size total_bytes, ds_stdout_truncated = cr_stdout_truncated r,
          ds_diagnostic_mode = False, ds_max_depth = None, ds_top_n = None, ds_filesystems = filesystems\<rparr>))))"

text \<open>Entries below the root with their depth; the sizes at depth zero are the size of the root.\<close>

definition below_root :: "string \<Rightarrow> (int \<times> string \<times> string) list \<Rightarrow> (int \<times> string \<times> nat) list" where
  "below_root base_dir entries =
     List.map_filter (\<lambda>(sz, path, res). map_option (\<lambda>d. (sz, res, d)) (depth_below base_dir res)) entries"

definition largest_entries :: "(int \<times> string) list \<Rightarrow> (int \<times> string) list" where
  "largest_entries entries = rev (sort_key fst (sort_key snd entries))"

definition level :: "(int \<times> string \<times> nat) list \<Rightarrow> nat \<Rightarrow> (int \<times> string) list" where
  "level entries d = map (\<lambda>(sz, path, depth). (sz, path)) (filter (\<lambda>(sz, path, depth). depth = d) entries)"

definition top_offenders :: "nat \<Rightarrow> int \<Rightarrow> (int \<times> string \<times> nat) list \<Rightarrow> directory_info list" where
  "top_offenders top_n root_size entries =
     concat (map (\<lambda>d. map (\<lambda>(sz, path). directory_entry path sz d
           (Some (if root_size > 0 then of_int sz / of_int root_size * 100 else 0)))
         (take top_n (largest_entries (level entries d))))
       (sort (remdups (map (\<lambda>(sz, path, depth). depth) entries))))"

definition get_disk_space_diagnostic :: "status_env \<Rightarrow> status_config \<Rightarrow> string \<Rightarrow> nat \<Rightarrow> nat \<Rightarrow> bool \<Rightarrow> disk_space traced" where
  "get_disk_space_diagnostic env cfg base_dir max_depth top_n cross_filesystems =
     bindT (run_command env (du_command cross_filesystems base_dir max_depth) (du_timeout cfg) (sc_max_output_bytes cfg * 2) False) (\<lambda>r.
     bindT (no_command (with_resolved env (du_lines r))) (\<lambda>entries.
     let below = below_root base_dir entries;
         root_size = last_size (map fst (filter (\<lambda>(sz, path, depth). depth = 0) below)) in
     bindT (get_filesystems env cfg base_dir) (\<lambda>filesystems.
     no_command (Inr \<lparr>ds_path = base_dir,
          ds_directories = by_size_desc (top_offenders top_n root_size (filter (\<lambda>(sz, path, depth). depth \<noteq> 0) below)),
          ds_total_size_bytes = root_size, ds_total_size_human = human_readable_size root_size,
          ds_stdout_truncated = cr_stdout_truncated r, ds_diagnostic_mode = True, ds_max_depth = Some max_depth,
          ds_top_n = Some top_n, ds_filesystems = filesystems\<rparr>))))"

section \<open>The routes\<close>

text \<open>The range checks of the query parameters: a value out of range is answered with status 422.\<close>

definition in_range :: "int \<Rightarrow> int option \<Rightarrow> int \<Rightarrow> unit res" where
  "in_range low high n =
     (if low \<le> n \<and> (case high of Some h \<Rightarrow> n \<le> h | None \<Rightarrow> True) then Inr () else Inl (HTTPException 422 ''query parameter''))"

abbreviation status_reader :: "gate \<Rightarrow> http_request \<Rightarrow> unit res" where
  "status_reader gate rq \<equiv> gate True True (Some ''status'') rq"

definition health_route :: string where "health_route = ''ok''"

definition list_services_route :: "gate \<Rightarrow> http_request \<Rightarrow> service_definition list res" where
  "list_services_route gate rq = bindR (status_reader gate rq) (\<lambda>_. Inr service_allowlist)"

definition service_status_route :: "gate \<Rightarrow> status_env \<Rightarrow> status_config \<Rightarrow> string \<Rightarrow> http_request \<Rightarrow> status_response traced" where
  "service_status_route gate env cfg service_id rq =
     bindT (no_command (status_reader gate rq)) (\<lambda>_.
     bindT (no_command (resolve_service service_id)) (collect_service_status env cfg False))"

definition since_args :: "status_env \<Rightarrow> status_config \<Rightarrow> int \<Rightarrow> string list" where
  "since_args env cfg since_minutes =
     (if since_minutes > 0
      then [''--since='' @ st_minutes_ago env (min since_minutes (sc_log_window_max_minutes cfg))] else [])"

definition journal_args :: "service_definition \<Rightarrow> string list" where
  "journal_args service = [''journalctl'', ''--unit='' @ sd_unit service, ''--no-pager'', ''--output=short'']"

record logs_response =
  lr_service :: service_definition
  lr_requested_lines :: int
  lr_returned_lines :: nat
  lr_stdout_truncated :: bool
  lr_logs :: "string list"

definition service_logs_route ::
  "gate \<Rightarrow> status_env \<Rightarrow> status_config \<Rightarrow> string \<Rightarrow> int \<Rightarrow> int \<Rightarrow> http_request \<Rightarrow> logs_response traced" where
  "service_logs_route gate env cfg service_id lines since_minutes rq =
     bindT (no_command (status_reader gate rq)) (\<lambda>_.
     bindT (no_command (in_range 1 None lines)) (\<lambda>_.
     bindT (no_command (in_range 0 (Some 1440) since_minutes)) (\<lambda>_.
     bindT (no_command (resolve_service service_id)) (\<lambda>service.
     let command = journal_args service @ [''--lines='' @ str_int (max 1 (min lines (sc_log_tail_max cfg)))] @
           since_args env cfg since_minutes in
     bindT (run_command env command (sc_command_timeout cfg) (sc_max_output_bytes cfg) True) (\<lambda>r.
     let entries = filter (\<lambda>line. line \<noteq> []) (splitlines (cr_stdout r)) in
     no_command (Inr \<lparr>lr_service = service, lr_requested_lines = lines, lr_returned_lines = length entries,
          lr_stdout_truncated = cr_stdout_truncated r, lr_logs = entries\<rparr>))))))"

text \<open>
  Following a journal: the process is started, its lines are passed on until it ends or the client goes
  away, after \<open>taken\<close> lines, and then it is killed and waited for.
\<close>

datatype stream_event = SpawnJournal "string list" | JournalLine string | KillJournal | WaitJournal

definition stream_journal :: "status_env \<Rightarrow> status_config \<Rightarrow> service_definition \<Rightarrow> int \<Rightarrow> string list \<Rightarrow> nat \<Rightarrow> stream_event list" where
  "stream_journal env cfg service since_minutes produced taken =
     [SpawnJournal (journal_args service @ [''--follow''] @ since_args env cfg since_minutes)] @
     map JournalLine (take taken produced) @ [KillJournal, WaitJournal]"

definition stream_logs_route ::
  "gate \<Rightarrow> status_env \<Rightarrow> status_config \<Rightarrow> string \<Rightarrow> int \<Rightarrow> string list \<Rightarrow> nat \<Rightarrow> http_request \<Rightarrow> stream_event list res" where
  "stream_logs_route gate env cfg service_id since_minutes produced taken rq =
     bindR (status_reader gate rq) (\<lambda>_.
     bindR (in_range 0 (Some 1440) since_minutes) (\<lambda>_.
     bindR (resolve_service service_id) (\<lambda>service. Inr (stream_journal env cfg service since_minutes produced taken))))"

definition nvidia_smi_route :: "gate \<Rightarrow> status_env \<Rightarrow> status_config \<Rightarrow> bool \<Rightarrow> string \<Rightarrow> http_request \<Rightarrow> smi_response traced" where
  "nvidia_smi_route gate env cfg detail gpu rq =
     bindT (no_command (status_reader gate rq)) (\<lambda>_. nvidia_smi_impl env cfg detail gpu)"

record overview_response =
  ov_status :: string
  ov_services :: "status_response list"
  ov_gpu :: smi_response

definition overview_status_route :: "gate \<Rightarrow> status_env \<Rightarrow> status_config \<Rightarrow> http_request \<Rightarrow> overview_response traced" where
  "overview_status_route gate env cfg rq =
     bindT (no_command (status_reader gate rq)) (\<lambda>_.
     bindT (gatherT (collect_service_status env cfg True) service_allowlist) (\<lambda>services.
     bindT (nvidia_smi_impl env cfg False ''all'') (\<lambda>gpu.
     no_command (Inr \<lparr>ov_status = (if list_all sr_healthy services \<and> sm_status gpu = ''ok'' then ''ok'' else ''degraded''),
          ov_services = services, ov_gpu = gpu\<rparr>))))"

definition disk_space_route ::
  "gate \<Rightarrow> status_env \<Rightarrow> status_config \<Rightarrow> string \<Rightarrow> bool \<Rightarrow> int \<Rightarrow> int \<Rightarrow> bool \<Rightarrow> http_request \<Rightarrow> disk_space traced" where
  "disk_space_route gate env cfg path diagnostic max_depth top_n cross_filesystems rq =
     bindT (no_command (status_reader gate rq)) (\<lambda>_.
     bindT (no_command (in_range 1 (Some 10) max_depth)) (\<lambda>_.
     bindT (no_command (in_range 1 (Some 100) top_n)) (\<lambda>_.
     bindT (no_command (validate_query_path env path)) (\<lambda>base_dir.
     if diagnostic then get_disk_space_diagnostic env cfg base_dir (nat max_depth) (nat top_n) cross_filesystems
     else get_disk_space_simple env cfg base_dir cross_filesystems))))"

text \<open>The shutdown route answers at once; the command runs two seconds later.\<close>

definition shutdown_command :: "string list" where
  "shutdown_command = [''sudo'', ''/sbin/shutdown'', ''-h'', ''now'']"

definition shutdown_route :: "gate \<Rightarrow> http_request \<Rightarrow> (string \<times> (nat \<times> string list) list) res" where
  "shutdown_route gate rq =
     bindR (gate True False (Some ''status'') rq) (\<lambda>_. Inr (''initiated'', [(2, shutdown_command)]))"


text \<open>The requests of the router with their parameters, and the commands that each makes the service run.\<close>

datatype status_request =
    Health
  | ListServices
  | ServiceStatus string
  | ServiceLogs string int int
  | StreamLogs string int "string list" nat
  | NvidiaSmi bool string
  | Overview
  | DiskSpace string bool int int bool
  | Shutdown

fun spawned_by :: "stream_event \<Rightarrow> string list list" where
  "spawned_by (SpawnJournal cmd) = [cmd]"
| "spawned_by _ = []"

fun commands_run :: "gate \<Rightarrow> status_env \<Rightarrow> status_config \<Rightarrow> http_request \<Rightarrow> status_request \<Rightarrow> string list list" where
  "commands_run gate env cfg rq Health = []"
| "commands_run gate env cfg rq ListServices = []"
| "commands_run gate env cfg rq (ServiceStatus service_id) = fst (service_status_route gate env cfg service_id rq)"
| "commands_run gate env cfg rq (ServiceLogs service_id lines since_minutes) =
     fst (service_logs_route gate env cfg service_id lines since_minutes rq)"
| "commands_run gate env cfg rq (StreamLogs service_id since_minutes produced taken) =
     (case stream_logs_route gate env cfg service_id since_minutes produced taken rq of
        Inl e \<Rightarrow> []
      | Inr events \<Rightarrow> concat (map spawned_by events))"
| "commands_run gate env cfg rq (NvidiaSmi detail gpu) = fst (nvidia_smi_route gate env cfg detail gpu rq)"
| "commands_run gate env cfg rq Overview = fst (overview_status_route gate env cfg rq)"
| "commands_run gate env cfg rq (DiskSpace path diagnostic max_depth top_n cross_filesystems) =
     fst (disk_space_route gate env cfg path diagnostic max_depth top_n cross_filesystems rq)"
| "commands_run gate env cfg rq Shutdown =
     (case shutdown_route gate rq of
        Inl e \<Rightarrow> []
      | Inr (status, delayed) \<Rightarrow> map snd delayed)"

section \<open>Output\<close>

lemma truncate_text_spec:
  assumes "truncate_text val limit keep_tail = (out, shortened)" "0 < limit"
  shows "length out = min limit (length val) \<and> (shortened \<longleftrightarrow> limit < length val) \<and>
     (if keep_tail then suffix out val else prefix out val)"
  using assms by (auto simp: truncate_text_def suffix_drop take_is_prefix split: if_splits)

text \<open>
  What a command of the status service returns is bounded: of its output and of its error output at most the
  configured number of characters, the end of it for logs and the beginning otherwise, and the flag of
  the response says exactly when something was cut.
\<close>

theorem command_output_is_bounded:
  assumes "snd (run_command env command timeout limit keep_tail) = Inr r" "0 < limit"
  shows "\<exists>out err. st_run env command timeout = Exited (cr_exit_code r) out err \<and>
     length (cr_stdout r) \<le> limit \<and> length (cr_stderr r) \<le> limit \<and>
     (cr_stdout_truncated r \<longleftrightarrow> limit < length out) \<and> (cr_stderr_truncated r \<longleftrightarrow> limit < length err) \<and>
     (if keep_tail then suffix (cr_stdout r) out \<and> suffix (cr_stderr r) err
      else prefix (cr_stdout r) out \<and> prefix (cr_stderr r) err) \<and>
     (length out \<le> limit \<longrightarrow> cr_stdout r = out)"
proof -
  obtain out err where run: "st_run env command timeout = Exited (cr_exit_code r) out err"
      and t: "truncate_text out limit keep_tail = (cr_stdout r, cr_stdout_truncated r)"
        "truncate_text err limit keep_tail = (cr_stderr r, cr_stderr_truncated r)"
    using assms(1) by (auto simp: run_command_def Let_def split: proc_outcome.splits prod.splits)
  have "cr_stdout r = out" if "length out \<le> limit" using that t(1) by (simp add: truncate_text_def)
  then show ?thesis using run truncate_text_spec[OF t(1) assms(2)] truncate_text_spec[OF t(2) assms(2)]
    by (intro exI[of _ out] exI[of _ err]) auto
qed

section \<open>Health\<close>

text \<open>What systemd must report of a unit that counts as healthy.\<close>

definition unit_up :: "status_env \<Rightarrow> status_config \<Rightarrow> service_definition \<Rightarrow> bool" where
  "unit_up env cfg service \<longleftrightarrow>
     (\<exists>out err. st_run env (service_command service) (sc_command_timeout cfg) = Exited 0 out err \<and>
        (let data = map_of (parse_key_value (take (sc_max_output_bytes cfg) out)) in
         data ''LoadState'' = Some ''loaded'' \<and> data ''ActiveState'' = Some ''active'' \<and>
         (data ''SubState'' \<in> {Some ''running'', Some ''listening'', None} \<or>
          data ''SubState'' = Some ''exited'' \<and> data ''ExecMainStatus'' = Some ''0'')))"

lemma run_command_stdout:
  "snd (run_command env command timeout limit False) = Inr r \<longleftrightarrow>
     (\<exists>out err. st_run env command timeout = Exited (cr_exit_code r) out err \<and>
        r = \<lparr>cr_exit_code = cr_exit_code r, cr_stdout = take limit out, cr_stderr = take limit err,
             cr_stdout_truncated = (limit < length out), cr_stderr_truncated = (limit < length err)\<rparr>)"
  by (auto simp: run_command_def truncate_text_def Let_def split: proc_outcome.splits prod.splits)

lemma collected_healthy:
  assumes "snd (collect_service_status env cfg tolerate service) = Inr r"
  shows "sr_healthy r \<longleftrightarrow> unit_up env cfg service" "sr_service r = service"
proof -
  let ?run = "snd (run_command env (service_command service) (sc_command_timeout cfg) (sc_max_output_bytes cfg) False)"
  show "sr_service r = service"
    using assms by (auto simp: collect_service_status_def status_failed_def Let_def split: sum.splits exn.splits if_splits)
  show "sr_healthy r \<longleftrightarrow> unit_up env cfg service"
  proof (cases ?run)
    case (Inl e)
    then have "\<not> unit_up env cfg service" by (auto simp: unit_up_def run_command_def Let_def split: prod.splits)
    then show ?thesis using assms Inl
      by (auto simp: collect_service_status_def status_failed_def split: exn.splits if_splits)
  next
    case (Inr c)
    then obtain out err where out: "st_run env (service_command service) (sc_command_timeout cfg) = Exited (cr_exit_code c) out err"
      "cr_stdout c = take (sc_max_output_bytes cfg) out"
      unfolding run_command_stdout by (metis command_result.select_convs(2))
    show ?thesis using assms Inr out
      by (auto simp: collect_service_status_def status_failed_def unit_up_def is_service_healthy_def read_service_status_def Let_def
          split: if_splits)
  qed
qed

lemma smi_ok:
  assumes "snd (nvidia_smi_impl env cfg False ''all'') = Inr g"
  shows "sm_status g = ''ok'' \<longleftrightarrow> (\<exists>out err. st_run env [''nvidia-smi''] (sc_command_timeout cfg) = Exited 0 out err)"
proof -
  obtain r where "snd (run_command env [''nvidia-smi''] (sc_command_timeout cfg) (sc_max_output_bytes cfg) False) = Inr r"
    "sm_status g = (if cr_exit_code r = 0 then ''ok'' else ''error'')"
    using assms by (auto simp: nvidia_smi_impl_def smi_command_def bindR_Inr_iff Let_def)
  then show ?thesis by (auto simp: run_command_stdout)
qed

text \<open>
  C26: An overview that is answered lists all services of the allow list and reports the system as ok exactly if
  systemd reports every one of them, in the part of its output that is kept, as loaded and active (running,
  listening, without a sub-state, or exited with status zero) and nvidia-smi succeeds; a service whose status cannot be
  read counts as unhealthy and does not fail the request.
\<close>

theorem overview_ok_means_all_up:
  assumes "snd (overview_status_route gate env cfg rq) = Inr r"
  shows "map sr_service (ov_services r) = service_allowlist \<and>
     (ov_status r = ''ok'' \<longleftrightarrow>
        (\<forall>service \<in> set service_allowlist. unit_up env cfg service) \<and>
        (\<exists>out err. st_run env [''nvidia-smi''] (sc_command_timeout cfg) = Exited 0 out err))"
proof -
  obtain services g where m: "mapM (\<lambda>s. snd (collect_service_status env cfg True s)) service_allowlist = Inr services"
      and g: "snd (nvidia_smi_impl env cfg False ''all'') = Inr g"
      and r: "ov_services r = services" "ov_status r = (if list_all sr_healthy services \<and> sm_status g = ''ok'' then ''ok'' else ''degraded'')"
    using assms by (auto simp: overview_status_route_def bindR_Inr_iff)
  have l: "list_all2 (\<lambda>s a. snd (collect_service_status env cfg True s) = Inr a) service_allowlist services"
    using m by (simp add: mapM_Inr_list_all2)
  then have "list_all sr_healthy services \<longleftrightarrow> (\<forall>service \<in> set service_allowlist. unit_up env cfg service)"
    by (induction rule: list_all2_induct) (auto simp: collected_healthy)
  then have "ov_status r = ''ok'' \<longleftrightarrow>
     (\<forall>service \<in> set service_allowlist. unit_up env cfg service) \<and>
     (\<exists>out err. st_run env [''nvidia-smi''] (sc_command_timeout cfg) = Exited 0 out err)"
    using r(2) smi_ok[OF g] by simp
  moreover from l have "map sr_service services = service_allowlist"
    by (induction rule: list_all2_induct) (auto simp: collected_healthy)
  ultimately show ?thesis using r(1) by simp
qed

text \<open>
  A request to shut the machine down is carried out only if it is signed with the hot key of the
  miner; a validator, who may read everything, is refused.
\<close>

theorem shutdown_needs_the_miner:
  assumes "shutdown_route (server_gate C settings skip now) rq = Inr answer"
  shows "rq_hotkey rq = miner_ss58 settings \<and> rq_hotkey rq \<noteq> None"
proof -
  have "authorize C settings skip True False (Some ''status'') now rq = Inr ()"
    using assms by (auto simp: shutdown_route_def server_gate_def bindR_Inr_iff)
  then obtain s where "rq_hotkey rq = Some s" "miner_ss58 settings = Some s" by (rule authorize_signer) auto
  then show ?thesis by simp
qed


section \<open>Which commands are run\<close>

definition absolute_path :: "string \<Rightarrow> bool" where
  "absolute_path p \<longleftrightarrow> startswith p ''/''"

definition since_option :: "status_env \<Rightarrow> status_config \<Rightarrow> string list \<Rightarrow> bool" where
  "since_option env cfg args \<longleftrightarrow>
     args = [] \<or> (\<exists>m. 1 \<le> m \<and> m \<le> 1440 \<and> m \<le> sc_log_window_max_minutes cfg \<and> args = [''--since='' @ st_minutes_ago env m])"

text \<open>
  The commands that a request may run: \<open>systemctl show\<close> and \<open>journalctl\<close> on a unit of the allow list, a bounded
  number of lines of the journal or following it, nvidia-smi, \<open>df\<close> and \<open>sudo du\<close> on absolute paths, and the
  shutdown.
\<close>

definition status_of_unit :: "service_definition \<Rightarrow> string list \<Rightarrow> bool" where
  "status_of_unit service cmd \<longleftrightarrow> (\<exists>properties.
     cmd = [''systemctl'', ''show'', sd_unit service, ''--no-pager''] @ map (\<lambda>p. ''--property='' @ p) properties)"

definition journal_of_unit :: "service_definition \<Rightarrow> string list \<Rightarrow> string list \<Rightarrow> bool" where
  "journal_of_unit service options cmd \<longleftrightarrow>
     cmd = [''journalctl'', ''--unit='' @ sd_unit service, ''--no-pager'', ''--output=short''] @ options"

definition plain_smi :: "bool \<Rightarrow> string list \<Rightarrow> bool" where
  "plain_smi detail cmd \<longleftrightarrow> (\<exists>index. cmd = ''nvidia-smi'' # (if detail then [''-q''] else []) @
     (case index of None \<Rightarrow> [] | Some i \<Rightarrow> [''-i'', digits_of i]))"

fun listed_command :: "status_env \<Rightarrow> status_config \<Rightarrow> status_request \<Rightarrow> string list \<Rightarrow> bool" where
  "listed_command env cfg Health cmd = False"
| "listed_command env cfg ListServices cmd = False"
| "listed_command env cfg (ServiceStatus i) cmd =
     (\<exists>service \<in> set service_allowlist. sd_service_id service = i \<and> status_of_unit service cmd)"
| "listed_command env cfg (ServiceLogs i lines since) cmd =
     (\<exists>service \<in> set service_allowlist. \<exists>n args. sd_service_id service = i \<and> 1 \<le> n \<and> n \<le> lines \<and> n \<le> sc_log_tail_max cfg \<and>
        since_option env cfg args \<and> journal_of_unit service ([''--lines='' @ str_int n] @ args) cmd)"
| "listed_command env cfg (StreamLogs i since produced taken) cmd =
     (\<exists>service \<in> set service_allowlist. \<exists>args. sd_service_id service = i \<and> since_option env cfg args \<and>
        journal_of_unit service ([''--follow''] @ args) cmd)"
| "listed_command env cfg (NvidiaSmi detail gpu) cmd = plain_smi detail cmd"
| "listed_command env cfg Overview cmd =
     ((\<exists>service \<in> set service_allowlist. status_of_unit service cmd) \<or> cmd = [''nvidia-smi''])"
| "listed_command env cfg (DiskSpace path diagnostic max_depth top_n cross) cmd =
     (cmd = [''df'', ''-k''] \<or> (\<exists>p. absolute_path p \<and> cmd = [''df'', ''-k'', p]) \<or>
      (\<exists>p depth options. absolute_path p \<and> 1 \<le> depth \<and> depth \<le> 10 \<and>
         (\<forall>option \<in> set options. option = ''-x'' \<or> startswith option ''--exclude='') \<and>
         cmd = [''sudo'', ''du'', ''-k''] @ options @ [''--max-depth='' @ digits_of depth, p]))"
| "listed_command env cfg Shutdown cmd = (cmd = [''sudo'', ''/sbin/shutdown'', ''-h'', ''now''])"

lemma resolve_service_listed: "resolve_service i = Inr service \<Longrightarrow> service \<in> set service_allowlist \<and> sd_service_id service = i"
  by (auto simp: resolve_service_def find_Some_iff split: option.splits)

lemma in_range_Inr [simp]: "in_range low high n = Inr u \<longleftrightarrow> low \<le> n \<and> (case high of Some h \<Rightarrow> n \<le> h | None \<Rightarrow> True)"
  by (auto simp: in_range_def)

lemma validate_query_path_Inr: "validate_query_path env path = Inr r \<Longrightarrow> st_resolve env path = Inr r"
  by (auto simp: validate_query_path_def split: sum.splits exn.splits if_splits)

lemma since_args_option: "since \<le> 1440 \<Longrightarrow> 1 \<le> sc_log_window_max_minutes cfg \<Longrightarrow> since_option env cfg (since_args env cfg since)"
  by (auto simp: since_args_def since_option_def intro!: exI[of _ "min since (sc_log_window_max_minutes cfg)"])

lemma service_command_status: "status_of_unit service (service_command service)"
  by (auto simp: status_of_unit_def service_command_def)

lemma journal_args_of: "journal_of_unit service options (journal_args service @ options)"
  by (simp add: journal_of_unit_def journal_args_def)

lemma smi_command_plain:
  assumes "smi_command detail gpu = Inr cmd"
  shows "plain_smi detail cmd" "gpu = ''all'' \<Longrightarrow> \<not> detail \<Longrightarrow> cmd = [''nvidia-smi'']"
proof -
  consider "cmd = ''nvidia-smi'' # (if detail then [''-q''] else [])"
    | i where "0 \<le> i" "cmd = ''nvidia-smi'' # (if detail then [''-q''] else []) @ [''-i'', str_int i]"
    using assms by (auto simp: smi_command_def Let_def split: if_splits option.splits)
  then show "plain_smi detail cmd"
  proof cases
    case 1
    then show ?thesis unfolding plain_smi_def by (intro exI[of _ None]) simp
  next
    case (2 i)
    then show ?thesis unfolding plain_smi_def by (intro exI[of _ "Some (nat i)"]) (simp add: str_int_def)
  qed
  show "gpu = ''all'' \<Longrightarrow> \<not> detail \<Longrightarrow> cmd = [''nvidia-smi'']" using assms by (simp add: smi_command_def)
qed

lemma du_listed:
  assumes "absolute_path p" "1 \<le> d" "d \<le> 10"
  shows "listed_command env cfg (DiskSpace path diagnostic max_depth top_n cross) (du_command x p d)"
proof -
  have "du_command x p d = [''sudo'', ''du'', ''-k''] @ ((if x then [] else [''-x'']) @ du_exclude_args p) @ [''--max-depth='' @ digits_of d, p]"
    by (simp add: du_command_def)
  moreover have "\<forall>opt \<in> set ((if x then [] else [''-x'']) @ du_exclude_args p). opt = ''-x'' \<or> startswith opt ''--exclude=''"
    by (auto simp: du_exclude_args_def)
  ultimately show ?thesis using assms unfolding listed_command.simps by blast
qed

lemma df_listed: "absolute_path p \<Longrightarrow> listed_command env cfg (DiskSpace path diagnostic max_depth top_n cross) (df_command p)"
  by (auto simp: df_command_def)

text \<open>The commands that each operation runs.\<close>

lemma run_command_trace [simp]: "fst (run_command env cmd t limit tail) = [cmd]"
  by (simp add: run_command_def)

lemma collect_trace [simp]: "fst (collect_service_status env cfg tolerate s) = [service_command s]"
  by (simp add: collect_service_status_def)

lemma smi_trace: "c \<in> set (fst (nvidia_smi_impl env cfg detail gpu)) \<longleftrightarrow> smi_command detail gpu = Inr c"
  by (auto simp: nvidia_smi_impl_def bindT_commands)

lemma filesystems_trace: "c \<in> set (fst (get_filesystems env cfg p)) \<longleftrightarrow> (\<exists>r. st_resolve env p = Inr r \<and> c = df_command r)"
  by (auto simp: get_filesystems_def bindT_commands)

lemma simple_trace:
  "c \<in> set (fst (get_disk_space_simple env cfg p cross)) \<Longrightarrow>
     c = du_command cross p 1 \<or> (\<exists>r. st_resolve env p = Inr r \<and> c = df_command r)"
  by (auto simp: get_disk_space_simple_def bindT_commands filesystems_trace Let_def)

lemma diagnostic_trace:
  "c \<in> set (fst (get_disk_space_diagnostic env cfg p depth n cross)) \<Longrightarrow>
     c = du_command cross p depth \<or> (\<exists>r. st_resolve env p = Inr r \<and> c = df_command r)"
  by (auto simp: get_disk_space_diagnostic_def bindT_commands filesystems_trace Let_def)

lemma disk_route_trace:
  assumes "c \<in> set (fst (disk_space_route gate env cfg path diagnostic max_depth top_n cross rq))"
    "\<forall>p r. st_resolve env p = Inr r \<longrightarrow> absolute_path r"
  shows "listed_command env cfg (DiskSpace path diagnostic max_depth top_n cross) c \<and> status_reader gate rq = Inr ()"
proof -
  obtain dir where d: "status_reader gate rq = Inr ()" "1 \<le> max_depth" "max_depth \<le> 10" "validate_query_path env path = Inr dir"
    "c \<in> set (fst (if diagnostic then get_disk_space_diagnostic env cfg dir (nat max_depth) (nat top_n) cross
                      else get_disk_space_simple env cfg dir cross))"
    using assms(1) by (auto simp: disk_space_route_def bindT_commands)
  have abs: "absolute_path dir" using validate_query_path_Inr[OF d(4)] assms(2) by blast
  have depth: "1 \<le> (if diagnostic then nat max_depth else 1)" "(if diagnostic then nat max_depth else 1) \<le> 10"
    using d(2,3) by auto
  have "c = du_command cross dir (if diagnostic then nat max_depth else 1) \<or> (\<exists>r. st_resolve env dir = Inr r \<and> c = df_command r)"
    using d(5) simple_trace[of c env cfg dir cross] diagnostic_trace[of c env cfg dir "nat max_depth" "nat top_n" cross]
    by (cases diagnostic) simp_all
  then show ?thesis using d(1) assms(2) du_listed[OF abs depth] df_listed by blast
qed

lemma logs_route_trace:
  assumes "c \<in> set (fst (service_logs_route gate env cfg i n since rq))" "status_config_ok cfg"
  shows "listed_command env cfg (ServiceLogs i n since) c \<and> status_reader gate rq = Inr ()"
proof -
  obtain service where s: "status_reader gate rq = Inr ()" "1 \<le> n" "since \<le> 1440" "resolve_service i = Inr service"
    "c = journal_args service @ ([''--lines='' @ str_int (max 1 (min n (sc_log_tail_max cfg)))] @ since_args env cfg since)"
    using assms(1) by (auto simp: service_logs_route_def bindT_commands Let_def)
  define k where "k = max 1 (min n (sc_log_tail_max cfg))"
  have "1 \<le> k" "k \<le> n" "k \<le> sc_log_tail_max cfg" using s(2) assms(2) by (auto simp: k_def status_config_ok_def)
  moreover have "since_option env cfg (since_args env cfg since)"
    using s(3) assms(2) by (intro since_args_option) (auto simp: status_config_ok_def)
  moreover have "journal_of_unit service ([''--lines='' @ str_int k] @ since_args env cfg since) c"
    unfolding s(5) k_def by (rule journal_args_of)
  ultimately show ?thesis using s(1) resolve_service_listed[OF s(4)] unfolding listed_command.simps by blast
qed

lemma stream_route_trace:
  assumes "stream_logs_route gate env cfg i since produced taken rq = Inr events" "SpawnJournal c \<in> set events" "status_config_ok cfg"
  shows "listed_command env cfg (StreamLogs i since produced taken) c \<and> status_reader gate rq = Inr ()"
proof -
  obtain service where s: "status_reader gate rq = Inr ()" "since \<le> 1440" "resolve_service i = Inr service"
    "c = journal_args service @ ([''--follow''] @ since_args env cfg since)"
    using assms(1,2) by (auto simp: stream_logs_route_def stream_journal_def bindR_Inr_iff)
  have "since_option env cfg (since_args env cfg since)"
    using s(2) assms(3) by (intro since_args_option) (auto simp: status_config_ok_def)
  moreover have "journal_of_unit service ([''--follow''] @ since_args env cfg since) c"
    unfolding s(4) by (rule journal_args_of)
  ultimately show ?thesis using s(1) resolve_service_listed[OF s(3)] unfolding listed_command.simps by blast
qed

lemma spawned_by_iff: "c \<in> set (concat (map spawned_by events)) \<longleftrightarrow> SpawnJournal c \<in> set events"
proof -
  have "c \<in> set (spawned_by e) \<longleftrightarrow> e = SpawnJournal c" for e by (cases e) auto
  then show ?thesis by auto
qed



section \<open>Sizes\<close>

lemma size_in_units_spec:
  "0 \<le> x \<Longrightarrow> \<exists>k v t. k \<le> length us \<and> size_in_units us x = t @ '' '' @ ((us @ [''PB'']) ! k) \<and>
     decimal_text t = Some v \<and> \<bar>v - x / 1024 ^ k\<bar> \<le> 1 / 20 \<and> (0 < k \<longrightarrow> 1024 ^ k \<le> x) \<and>
     (k < length us \<longrightarrow> x < 1024 ^ (k + 1))"
proof (induction us arbitrary: x)
  case Nil
  then obtain v where "decimal_text (fixed1 x) = Some v" "\<bar>v - x\<bar> \<le> 1 / 20" using fixed1_near by blast
  then show ?case using Nil by (intro exI[of _ 0] exI[of _ v] exI[of _ "fixed1 x"]) (simp add: fixed1_signed_def)
next
  case (Cons u us)
  show ?case
  proof (cases "x < 1024")
    case True
    obtain v where "decimal_text (fixed1 x) = Some v" "\<bar>v - x\<bar> \<le> 1 / 20" using Cons.prems fixed1_near by blast
    then show ?thesis using True Cons.prems
      by (intro exI[of _ 0] exI[of _ v] exI[of _ "fixed1 x"]) (simp add: fixed1_signed_def)
  next
    case False
    from Cons.IH[of "x / 1024"] Cons.prems obtain k v t where k: "k \<le> length us"
      "size_in_units us (x / 1024) = t @ '' '' @ ((us @ [''PB'']) ! k)" "decimal_text t = Some v"
      "\<bar>v - x / 1024 / 1024 ^ k\<bar> \<le> 1 / 20" "0 < k \<longrightarrow> 1024 ^ k \<le> x / 1024" "k < length us \<longrightarrow> x / 1024 < 1024 ^ (k + 1)"
      by auto
    have "x / 1024 / 1024 ^ k = x / 1024 ^ Suc k" by simp
    moreover have "1024 ^ Suc k \<le> x" using k(5) False by (cases k) auto
    moreover have "k < length us \<Longrightarrow> x < 1024 ^ (Suc k + 1)" using k(6) by auto
    ultimately show ?thesis using k(1-4) False
      by (intro exI[of _ "Suc k"] exI[of _ v] exI[of _ t]) simp
  qed
qed

text \<open>
  A printed size is right to within half of its last digit: it is the number of bytes in the largest unit
  up to PB that is not larger than the size, rounded to one decimal place.
\<close>

theorem printed_size_is_accurate:
  assumes "0 \<le> n"
  shows "\<exists>k v t. k \<le> 5 \<and> human_readable_size n = t @ '' '' @ ([''B'', ''KB'', ''MB'', ''GB'', ''TB'', ''PB''] ! k) \<and>
     decimal_text t = Some v \<and> \<bar>v - of_int n / 1024 ^ k\<bar> \<le> 1 / 20 \<and>
     (0 < k \<longrightarrow> 1024 ^ k \<le> n) \<and> (k < 5 \<longrightarrow> n < 1024 ^ (k + 1))"
proof -
  define us where "us = [''B'', ''KB'', ''MB'', ''GB'', ''TB'']"
  have len: "length us = 5" by (simp add: us_def)
  have h: "human_readable_size n = size_in_units us (of_int n)" by (simp add: human_readable_size_def us_def)
  from size_in_units_spec[of "of_int n" us, unfolded len] assms
  obtain k v t where k: "k \<le> 5" "human_readable_size n = t @ '' '' @ ((us @ [''PB'']) ! k)"
    "decimal_text t = Some v" "\<bar>v - of_int n / 1024 ^ k\<bar> \<le> 1 / 20"
    "0 < k \<longrightarrow> (1024 :: rat) ^ k \<le> of_int n" "k < 5 \<longrightarrow> (of_int n :: rat) < 1024 ^ (k + 1)"
    unfolding h by (metis of_int_0_le_iff)
  have "(1024 :: rat) ^ j = of_int (1024 ^ j)" for j by simp
  then have "0 < k \<longrightarrow> 1024 ^ k \<le> n" "k < 5 \<longrightarrow> n < 1024 ^ (k + 1)"
    using k(5,6) by (metis of_int_le_iff, metis of_int_less_iff)
  then show ?thesis using k(1-4) by (intro exI[of _ k] exI[of _ v] exI[of _ t]) (simp add: us_def)
qed

section \<open>Reading key and value\<close>

lemma update_new: "k \<notin> fst ` set al \<Longrightarrow> AList.update k v al = al @ [(k, v)]"
  by (induction al) auto

lemma fold_update_distinct:
  "distinct (map fst (acc @ kvs)) \<Longrightarrow> fold (\<lambda>(k, v) al. AList.update k v al) kvs acc = acc @ kvs"
  by (induction kvs arbitrary: acc) (auto simp: update_new)

definition print_key_value :: "(string \<times> string) list \<Rightarrow> string" where
  "print_key_value kvs = concat (map (\<lambda>(k, v). k @ ''='' @ v @ [newline]) kvs)"

lemma splitlines_print:
  "\<forall>(k, v) \<in> set kvs. list_all (\<lambda>c. \<not> line_end c) (k @ v) \<Longrightarrow>
     splitlines (print_key_value kvs) = map (\<lambda>(k, v). k @ ''='' @ v) kvs"
proof (induction kvs)
  case (Cons kv kvs)
  obtain k v where kv: "kv = (k, v)" by fastforce
  have "\<not> line_end (CHR ''='')" by code_simp
  then have "list_all (\<lambda>c. \<not> line_end c) (k @ ''='' @ v)" using Cons.prems kv by auto
  from splitlines_line[OF this, of "print_key_value kvs"] show ?case
    using Cons kv by (simp add: print_key_value_def)
qed (simp add: print_key_value_def)

text \<open>
  Reading the lines \<open>key=value\<close> that systemctl prints gives back the keys and values, also when a value itself
  holds an equals sign.
\<close>

theorem key_value_round_trip:
  assumes "distinct (map fst kvs)" "\<forall>(k, v) \<in> set kvs. CHR ''='' \<notin> set k \<and> list_all (\<lambda>c. \<not> line_end c) (k @ v)"
  shows "parse_key_value (print_key_value kvs) = kvs"
proof -
  have "splitlines (print_key_value kvs) = map (\<lambda>(k, v). k @ ''='' @ v) kvs"
    using assms(2) by (intro splitlines_print) auto
  moreover have "filter (\<lambda>line. CHR ''='' \<in> set line) (map (\<lambda>(k, v). k @ ''='' @ v) kvs) = map (\<lambda>(k, v). k @ ''='' @ v) kvs"
    by (auto simp: filter_id_conv)
  moreover have "fold (\<lambda>line parsed. case split_once (CHR ''='') line of (key, val) \<Rightarrow> AList.update key val parsed)
      (map (\<lambda>(k, v). k @ ''='' @ v) kvs) acc = fold (\<lambda>(k, v) al. AList.update k v al) kvs acc" for acc
    using assms(2) by (induction kvs arbitrary: acc) (auto simp: split_once_append)
  ultimately show ?thesis
    using fold_update_distinct[of "[]" kvs] assms(1) by (simp add: parse_key_value_def)
qed


section \<open>The largest directories\<close>

lemma set_largest [simp]: "set (largest_entries es) = set es" "length (largest_entries es) = length es"
  by (simp_all add: largest_entries_def)

lemma largest_sorted: "sorted_wrt (\<lambda>a b. fst b \<le> fst a) (largest_entries es)"
proof -
  have "sorted (map fst (sort_key fst (sort_key snd es)))" by simp
  then show ?thesis by (simp add: largest_entries_def sorted_wrt_rev sorted_wrt_map)
qed

lemma take_largest:
  assumes "sorted_wrt (\<lambda>a b. fst b \<le> fst a) es" "x \<in> set es" "x \<notin> set (take n es)" "y \<in> set (take n es)"
  shows "fst x \<le> (fst y :: int)"
proof -
  have "x \<in> set (drop n es)" using assms(2,3) by (metis Un_iff append_take_drop_id set_append)
  then show ?thesis using assms(1,4) by (metis append_take_drop_id sorted_wrt_append)
qed

text \<open>What du listed below the path, with the depth: the input of the selection.\<close>

definition listed_below :: "string \<Rightarrow> (int \<times> string \<times> string) list \<Rightarrow> (int \<times> string \<times> nat) list" where
  "listed_below dir entries = filter (\<lambda>(sz, path, depth). depth \<noteq> 0) (below_root dir entries)"

definition entry_of :: "directory_info \<Rightarrow> int \<times> string \<times> nat" where
  "entry_of d = (di_size_bytes d, di_path d, di_depth d)"

lemma map_entry_of:
  "map entry_of (top_offenders n root_size es) =
     concat (map (\<lambda>d. map (\<lambda>(sz, path). (sz, path, d)) (take n (largest_entries (level es d))))
       (sort (remdups (map (\<lambda>(sz, path, depth). depth) es))))"
  by (simp add: top_offenders_def map_concat entry_of_def directory_entry_def comp_def case_prod_unfold)

lemma level_iff: "(sz, path) \<in> set (level es d) \<longleftrightarrow> (sz, path, d) \<in> set es"
  by (force simp: level_def)

lemma entries_at:
  "(sz, path, d) \<in> set (map entry_of (top_offenders n root_size es)) \<longleftrightarrow> (sz, path) \<in> set (take n (largest_entries (level es d)))"
proof -
  have "(sz, path) \<in> set (take n (largest_entries (level es d))) \<Longrightarrow> (sz, path, d) \<in> set es"
    using level_iff set_largest(1) by (metis in_set_takeD)
  then show ?thesis unfolding map_entry_of by force
qed

lemma same_depth: "(\<lambda>(sz, path, depth). depth = d) \<circ> (\<lambda>(sz, path). (sz, path, e)) = (\<lambda>_. e = d)"
  by (auto simp: fun_eq_iff)

lemma level_empty: "d \<notin> set (map (\<lambda>(sz, path, depth). depth) es) \<Longrightarrow> level es d = []"
  by (force simp: level_def filter_empty_conv)

lemma count_level:
  assumes "distinct ds"
  shows "length (filter (\<lambda>(sz, path, depth). depth = d)
     (concat (map (\<lambda>e. map (\<lambda>(sz, path). (sz, path, e)) (f e)) ds))) = (if d \<in> set ds then length (f d) else 0)"
  using assms
proof (induction ds)
  case (Cons e ds)
  then show ?case by (cases "e = d") (auto simp: filter_map same_depth)
qed simp

text \<open>
  The diagnostic mode reports, for every level below the path, exactly the largest directories that du listed
  there, as many as asked for or all of them if there are fewer, and lists them by size; a directory
  that is left out is no larger than any that is reported at its level.
\<close>

theorem diagnostic_reports_the_largest:
  assumes "snd (get_disk_space_diagnostic env cfg dir max_depth top_n cross) = Inr r"
  shows "\<exists>result entries es.
     snd (run_command env (du_command cross dir max_depth) (du_timeout cfg) (sc_max_output_bytes cfg * 2) False) = Inr result \<and>
     with_resolved env (du_lines result) = Inr entries \<and> es = listed_below dir entries \<and>
     set (map entry_of (ds_directories r)) \<subseteq> set es \<and>
     sorted_wrt (\<lambda>a b. di_size_bytes b \<le> di_size_bytes a) (ds_directories r) \<and>
     (\<forall>d. length (filter (\<lambda>x. di_depth x = d) (ds_directories r)) = min top_n (length (level es d))) \<and>
     (\<forall>(sz, path, d) \<in> set es. (sz, path, d) \<in> set (map entry_of (ds_directories r)) \<or>
        (\<forall>x \<in> set (ds_directories r). di_depth x = d \<longrightarrow> sz \<le> di_size_bytes x))"
proof -
  obtain entries result root_size where
    res: "snd (run_command env (du_command cross dir max_depth) (du_timeout cfg) (sc_max_output_bytes cfg * 2) False) = Inr result"
    and w: "with_resolved env (du_lines result) = Inr entries"
    and dirs: "ds_directories r = by_size_desc (top_offenders top_n root_size (listed_below dir entries))"
    using assms by (auto simp: get_disk_space_diagnostic_def listed_below_def bindR_Inr_iff Let_def)
  define es where "es = listed_below dir entries"
  define top where "top = top_offenders top_n root_size es"
  have ds: "ds_directories r = by_size_desc top" by (simp add: dirs top_def es_def)
  have set_ds: "set (ds_directories r) = set top" and mset_ds: "mset (ds_directories r) = mset top"
    by (simp_all add: ds by_size_desc_def)
  have sorted: "sorted_wrt (\<lambda>a b. di_size_bytes b \<le> di_size_bytes a) (ds_directories r)"
  proof -
    have "sorted (map (\<lambda>d. - di_size_bytes d) (by_size_desc top))" by (simp add: by_size_desc_def)
    then show ?thesis by (simp add: ds sorted_wrt_map)
  qed
  have count: "length (filter (\<lambda>x. di_depth x = d) (ds_directories r)) = min top_n (length (level es d))" for d
  proof -
    have "length (filter (\<lambda>x. di_depth x = d) (ds_directories r)) = length (filter (\<lambda>x. di_depth x = d) top)"
      using mset_ds by (metis mset_filter size_mset)
    also have "\<dots> = length (filter (\<lambda>(sz, path, depth). depth = d) (map entry_of top))"
      by (simp add: filter_map comp_def entry_of_def)
    also have "\<dots> = (if d \<in> set (map (\<lambda>(sz, path, depth). depth) es) then min top_n (length (level es d)) else 0)"
      unfolding top_def map_entry_of by (subst count_level) (simp_all add: min.commute)
    also have "\<dots> = min top_n (length (level es d))" using level_empty[of d es] by simp
    finally show ?thesis .
  qed
  have largest: "(sz, path, d) \<in> set (map entry_of top) \<or> (\<forall>x \<in> set top. di_depth x = d \<longrightarrow> sz \<le> di_size_bytes x)"
    if "(sz, path, d) \<in> set es" for sz path d
  proof -
    have "sz \<le> di_size_bytes x"
      if "(sz, path, d) \<notin> set (map entry_of top)" "x \<in> set top" "di_depth x = d" for x
    proof -
      have "entry_of x = (di_size_bytes x, di_path x, d)" using that(3) by (simp add: entry_of_def)
      then have "(di_size_bytes x, di_path x, d) \<in> set (map entry_of top)" using that(2) by (metis image_eqI list.set_map)
      then have "(di_size_bytes x, di_path x) \<in> set (take top_n (largest_entries (level es d)))"
        unfolding top_def by (simp only: entries_at)
      moreover have "(sz, path) \<in> set (largest_entries (level es d))" using \<open>(sz, path, d) \<in> set es\<close> by (simp add: level_iff)
      moreover have "(sz, path) \<notin> set (take top_n (largest_entries (level es d)))"
        using that(1) entries_at[of sz path d top_n root_size es] unfolding top_def by blast
      ultimately show ?thesis using take_largest[OF largest_sorted] by fastforce
    qed
    then show ?thesis by blast
  qed
  have sub: "set (map entry_of top) \<subseteq> set es"
  proof
    fix e assume e: "e \<in> set (map entry_of top)"
    obtain sz path d where "e = (sz, path, d)" by (cases e)
    with e show "e \<in> set es" unfolding top_def
      by (simp only: entries_at) (metis in_set_takeD level_iff set_largest(1))
  qed
  show ?thesis
  proof (intro exI[of _ result] exI[of _ entries] exI[of _ es] conjI)
    show "\<forall>(sz, path, d) \<in> set es. (sz, path, d) \<in> set (map entry_of (ds_directories r)) \<or>
        (\<forall>x \<in> set (ds_directories r). di_depth x = d \<longrightarrow> sz \<le> di_size_bytes x)"
      using largest unfolding set_map set_ds by blast
  qed (use res w sub sorted count set_ds in \<open>simp_all add: es_def\<close>)
qed


section \<open>An example\<close>

abbreviation sample_status_config :: status_config where
  "sample_status_config \<equiv> \<lparr>sc_max_output_bytes = 2000, sc_command_timeout = 10, sc_log_tail_max = 1000, sc_log_window_max_minutes = 1440\<rparr>"

definition sample_du :: string where
  "sample_du = ''8'' @ [tab] @ ''/m/a'' @ [newline] @ ''16'' @ [tab] @ ''/m/b'' @ [newline] @ ''30'' @ [tab] @ ''/m''"

definition sample_status_env :: status_env where
  "sample_status_env =
     \<lparr>st_run = (\<lambda>cmd t. if hd cmd = ''sudo'' then Exited 0 sample_du []
        else Exited 0 (print_key_value [(''LoadState'', ''loaded''), (''ActiveState'', ''active''), (''SubState'', ''running'')]) []),
      st_resolve = (\<lambda>p. if startswith p ''/'' then Inr p else Inr (''/'' @ p)), st_exists = (\<lambda>_. True), st_is_dir = (\<lambda>_. True),
      st_minutes_ago = (\<lambda>_. ''t'')\<rparr>"

abbreviation open_gate :: gate where "open_gate \<equiv> \<lambda>_ _ _ _. Inr ()"

theorem command_output_is_bounded_witness:
  "\<exists>out err. st_run sample_status_env [''nvidia-smi''] 10 = Exited 0 out err \<and> prefix ''LoadS'' out"
proof -
  let ?r = "\<lparr>cr_exit_code = 0, cr_stdout = ''LoadS'', cr_stderr = [], cr_stdout_truncated = True, cr_stderr_truncated = False\<rparr>"
  have "snd (run_command sample_status_env [''nvidia-smi''] 10 5 False) = Inr ?r" by code_simp
  from command_output_is_bounded[OF this] show ?thesis by auto
qed

lemma sample_diagnostic:
  "map entry_of (ds_directories (projr (snd (get_disk_space_diagnostic sample_status_env sample_status_config ''/m'' 3 1 False)))) =
     [(16384, ''/m/b'', 1)]"
  "isl (snd (get_disk_space_diagnostic sample_status_env sample_status_config ''/m'' 3 1 False)) = False"
  by code_simp+

theorem diagnostic_reports_the_largest_witness:
  "\<exists>entries. (16384, ''/m/b'', 1) \<in> set (listed_below ''/m'' entries) \<and>
     filter (\<lambda>(sz, path, d). d = 1 \<and> 16384 < sz) (listed_below ''/m'' entries) = []"
proof -
  obtain r where r: "snd (get_disk_space_diagnostic sample_status_env sample_status_config ''/m'' 3 1 False) = Inr r"
    using sample_diagnostic(2) by (metis isl_def sum.exhaust)
  then have m: "map entry_of (ds_directories r) = [(16384, ''/m/b'', 1)]" using sample_diagnostic(1) by simp
  then obtain x where x: "ds_directories r = [x]" "di_size_bytes x = 16384" "di_depth x = 1" by (auto simp: entry_of_def)
  from diagnostic_reports_the_largest[OF r] obtain entries where
    "set (map entry_of (ds_directories r)) \<subseteq> set (listed_below ''/m'' entries)"
    "\<forall>(sz, path, d) \<in> set (listed_below ''/m'' entries). (sz, path, d) \<in> set (map entry_of (ds_directories r)) \<or>
        (\<forall>x \<in> set (ds_directories r). di_depth x = d \<longrightarrow> sz \<le> di_size_bytes x)" by blast
  then show ?thesis unfolding m using x by (intro exI[of _ entries]) (fastforce simp: filter_empty_conv)
qed

lemma sample_overview:
  "ov_status (projr (snd (overview_status_route open_gate sample_status_env sample_status_config sample_http))) = ''ok''"
  "isl (snd (overview_status_route open_gate sample_status_env sample_status_config sample_http)) = False"
  by code_simp+

theorem overview_ok_means_all_up_witness:
  "list_all (unit_up sample_status_env sample_status_config) service_allowlist"
proof -
  obtain r where r: "snd (overview_status_route open_gate sample_status_env sample_status_config sample_http) = Inr r"
    using sample_overview(2) by (metis isl_def sum.exhaust)
  then have "ov_status r = ''ok''" using sample_overview(1) by simp
  with overview_ok_means_all_up[OF r] show ?thesis by (simp add: list_all_iff)
qed

theorem shutdown_needs_the_miner_witness:
  "shutdown_route (server_gate sample_crypto \<lparr>miner_ss58 = Some ''5F'', allowed_validators_str = Some ''5V''\<rparr> [] 110) sample_http =
     Inr (''initiated'', [(2, shutdown_command)]) \<and> rq_hotkey sample_http = Some ''5F''"
proof -
  have run: "shutdown_route (server_gate sample_crypto \<lparr>miner_ss58 = Some ''5F'', allowed_validators_str = Some ''5V''\<rparr> [] 110) sample_http =
     Inr (''initiated'', [(2, shutdown_command)])" by code_simp
  from shutdown_needs_the_miner[OF this] run show ?thesis by simp
qed

theorem printed_size_is_accurate_witness:
  "\<exists>k v t. human_readable_size 1536 = t @ '' '' @ ([''B'', ''KB'', ''MB'', ''GB'', ''TB'', ''PB''] ! k) \<and>
     decimal_text t = Some v \<and> \<bar>v - 1536 / 1024 ^ k\<bar> \<le> 1 / 20"
  using printed_size_is_accurate[of 1536] by auto

theorem key_value_round_trip_witness:
  "parse_key_value (print_key_value [(''Id'', ''k3s.service''), (''X'', ''a=b'')]) = [(''Id'', ''k3s.service''), (''X'', ''a=b'')]"
proof (rule key_value_round_trip)
  show "\<forall>(k, v) \<in> set [(''Id'', ''k3s.service''), (''X'', ''a=b'')]. CHR ''='' \<notin> set k \<and> list_all (\<lambda>c. \<not> line_end c) (k @ v)"
    by code_simp
qed simp


end
