(* ===== verification/Base64.thy ===== *)
theory Base64
  imports Sek8s_Prelude
begin

text \<open>
  \<open>base64.b64encode\<close> with padding, on bytes given as characters below 256, and the decoding that shows that
  nothing is lost. Shared by the attestation service and by the configuration of the guest.
\<close>

definition b64_alphabet :: string where
  "b64_alphabet = ''ABCDEFGHIJKLMNOPQRSTUVWXYZabcdefghijklmnopqrstuvwxyz0123456789+/''"

definition b64_char :: "nat \<Rightarrow> char" where
  "b64_char n = b64_alphabet ! n"

definition byte :: "char \<Rightarrow> nat" where
  "byte c = of_char c"

fun b64encode :: "string \<Rightarrow> string" where
  "b64encode [] = []"
| "b64encode [a] = [b64_char (byte a div 4), b64_char (byte a mod 4 * 16), CHR ''='', CHR ''='']"
| "b64encode [a, b] =
     [b64_char (byte a div 4), b64_char (byte a mod 4 * 16 + byte b div 16), b64_char (byte b mod 16 * 4), CHR ''='']"
| "b64encode (a # b # c # rest) =
     [b64_char (byte a div 4), b64_char (byte a mod 4 * 16 + byte b div 16), b64_char (byte b mod 16 * 4 + byte c div 64),
      b64_char (byte c mod 64)] @ b64encode rest"

fun index_of :: "char \<Rightarrow> string \<Rightarrow> nat" where
  "index_of x [] = 0"
| "index_of x (y # ys) = (if x = y then 0 else Suc (index_of x ys))"

definition b64_value :: "char \<Rightarrow> nat" where
  "b64_value c = index_of c b64_alphabet"

definition chr :: "nat \<Rightarrow> char" where
  "chr n = char_of n"

fun b64decode :: "string \<Rightarrow> string" where
  "b64decode (p # q # r # s # rest) =
     (let a = chr (b64_value p * 4 + b64_value q div 16);
          b = chr (b64_value q mod 16 * 16 + b64_value r div 4);
          c = chr (b64_value r mod 4 * 64 + b64_value s) in
      (if r = CHR ''='' then [a] else if s = CHR ''='' then [a, b] else [a, b, c]) @ b64decode rest)"
| "b64decode s = []"

lemma index_of_nth: "distinct xs \<Longrightarrow> n < length xs \<Longrightarrow> index_of (xs ! n) xs = n"
  by (induction xs arbitrary: n) (auto simp: nth_Cons split: nat.splits)

lemma alphabet_facts: "distinct b64_alphabet" "length b64_alphabet = 64" "CHR ''='' \<notin> set b64_alphabet"
  by (simp_all add: b64_alphabet_def)

lemma b64_value_char [simp]: "n < 64 \<Longrightarrow> b64_value (b64_char n) = n"
  by (simp add: b64_value_def b64_char_def index_of_nth alphabet_facts)

lemma b64_char_pad [simp]: "n < 64 \<Longrightarrow> b64_char n \<noteq> CHR ''=''"
  using alphabet_facts nth_mem[of n b64_alphabet] by (metis b64_char_def)

lemma byte_less: "byte c < 256"
  by (simp add: byte_def)

lemma chr_byte [simp]: "chr (byte c) = c"
  by (simp add: chr_def byte_def)

lemma digits_of_bytes:
  "byte a div 4 < 64" "byte a mod 4 * 16 < 64" "byte a mod 4 * 16 + byte b div 16 < 64" "byte b mod 16 * 4 < 64"
  "byte b mod 16 * 4 + byte c div 64 < 64" "byte c mod 64 < 64"
proof -
  have "byte a < 256" "byte b < 256" "byte c < 256" by (rule byte_less)+
  then have "byte a div 4 < 64" "byte a mod 4 < 4" "byte b div 16 < 16" "byte b mod 16 < 16" "byte c div 64 < 4" by auto
  then show "byte a div 4 < 64" "byte a mod 4 * 16 < 64" "byte a mod 4 * 16 + byte b div 16 < 64" "byte b mod 16 * 4 < 64"
    "byte b mod 16 * 4 + byte c div 64 < 64" "byte c mod 64 < 64" by auto
qed

lemma small_quotients:
  "byte b div 16 div 16 = 0" "byte b div 16 mod 16 = byte b div 16" "byte b div 64 div 4 = 0" "byte b div 64 mod 4 = byte b div 64"
  using byte_less[of b] by (auto simp: less_mult_imp_div_less)

lemma b64_round_trip [simp]: "b64decode (b64encode s) = s"
  by (induction s rule: b64encode.induct) (simp_all add: digits_of_bytes small_quotients)

lemma b64encode_inject [simp]: "b64encode s = b64encode t \<longleftrightarrow> s = t"
  by (metis b64_round_trip)

end
