(* ===== verification/Attestation_Service.thy ===== *)
theory Attestation_Service
  imports Base64 Uuid_Text Command_Output
begin

text \<open>
  The attestation service, \<open>src/src/sek8s/sek8s/services/attestation.py\<close>, with its providers
  \<open>providers/tdx.py\<close> (quotes), \<open>providers/nvtrust.py\<close> (evidence of the GPUs) and \<open>providers/gpu.py\<close> (their description).
  openssl, the quote generator, the evidence tool, NVML, SHA-256 and JSON are the record \<open>attest_env\<close>. The
  lemmas say what a quote binds, whose evidence is returned, and how errors are answered.
\<close>

section \<open>The world\<close>

record gpu_device =
  gd_uuid :: string
  gd_name :: string
  gd_memory :: int
  gd_capability :: "int \<times> int"
  gd_max_clock :: int
  gd_ecc_mode :: int

record attest_env =
  ae_cert_pubkey :: "string res"                      \<comment> \<open>\<open>openssl x509 -pubkey\<close> on the server certificate\<close>
  ae_to_der :: "string \<Rightarrow> string res"               \<comment> \<open>\<open>openssl pkey -outform der\<close>\<close>
  ae_sha256_hex :: "string \<Rightarrow> string"
  ae_tmp_name :: string
  ae_quote :: "string list \<Rightarrow> (int \<times> string) res"     \<comment> \<open>exit code, content of the output file\<close>
  ae_evidence :: "string list \<Rightarrow> (int \<times> string) res"  \<comment> \<open>exit code, standard output\<close>
  ae_nvml_init :: "unit res"
  ae_devices :: "gpu_device list res"                 \<comment> \<open>what NVML enumerates\<close>
  ae_json_loads :: "string \<Rightarrow> json res"
  ae_json_dumps :: "json \<Rightarrow> string"

section \<open>Quotes\<close>

definition get_cert_hash :: "attest_env \<Rightarrow> string res" where
  "get_cert_hash env =
     (case bindR (ae_cert_pubkey env) (ae_to_der env) of
        Inr der \<Rightarrow> Inr (ae_sha256_hex env der)
      | Inl e \<Rightarrow>
          Inl (AttestationException
            (case e of
               CalledProcessError m \<Rightarrow> ''Failed to compute certificate hash: '' @ m
             | _ \<Rightarrow> ''Unexpected error computing certificate hash: '' @ exn_str e)))"

definition quote_report_data :: "string \<Rightarrow> string \<Rightarrow> string" where
  "quote_report_data nonce cert_hash = take 128 (nonce @ cert_hash)"

definition quote_command :: "attest_env \<Rightarrow> string \<Rightarrow> string list" where
  "quote_command env report_data =
     [''/usr/bin/tdx-quote-generator'', ''--report-data'', report_data, ''--hex'', ''--output'', ae_tmp_name env]"

definition get_quote :: "attest_env \<Rightarrow> string \<Rightarrow> string res" where
  "get_quote env nonce =
     bindR (get_cert_hash env) (\<lambda>cert_hash.
     case ae_quote env (quote_command env (quote_report_data nonce cert_hash)) of
       Inl e \<Rightarrow> Inl (AttestationException (''Unexpected error generating TDX quote: '' @ exn_str e))
     | Inr (code, content) \<Rightarrow>
         if code = 0 then Inr content else Inl (AttestationException ''Failed to generate quote.''))"

section \<open>Evidence\<close>

definition get_gpu_ids :: "attest_env \<Rightarrow> string list res" where
  "get_gpu_ids env = bindR (ae_devices env) (\<lambda>ds. Inr (map gd_uuid ds))"

definition format_target :: "string \<Rightarrow> string res" where
  "format_target gpu_id =
     (if startswith gpu_id ''GPU'' then Inr gpu_id else bindR (canonical_uuid gpu_id) (\<lambda>u. Inr (''GPU-'' @ u)))"

text \<open>\<open>evidence_list[i]\<close> for the index of a GPU.\<close>

definition evidence_item :: "json \<Rightarrow> nat \<Rightarrow> json res" where
  "evidence_item evidence i =
     (case evidence of
        JList xs \<Rightarrow> if i < length xs then Inr (xs ! i) else Inl IndexError
      | JStr s \<Rightarrow> if i < length s then Inr (JStr [s ! i]) else Inl IndexError
      | JObj kvs \<Rightarrow> Inl (KeyError (digits_of i))
      | _ \<Rightarrow> Inl (TypeError ''object is not subscriptable''))"

definition target_indices :: "string list \<Rightarrow> string list \<Rightarrow> nat list" where
  "target_indices all_ids targets = filter (\<lambda>i. all_ids ! i \<in> set targets) [0..<length all_ids]"

definition filter_evidence :: "attest_env \<Rightarrow> string \<Rightarrow> string list option \<Rightarrow> string res" where
  "filter_evidence env evidence target_gpu_ids =
     (case target_gpu_ids of
        Some (t # ts) \<Rightarrow>
          bindR (mapM format_target (t # ts)) (\<lambda>targets.
          bindR (ae_json_loads env evidence) (\<lambda>parsed.
          bindR (get_gpu_ids env) (\<lambda>all_ids.
          if length targets < length all_ids then
            bindR (mapM (evidence_item parsed) (target_indices all_ids targets)) (\<lambda>items.
            Inr (ae_json_dumps env (JList items)))
          else Inr evidence)))
      | _ \<Rightarrow> Inr evidence)"

text \<open>The name and the nonce are optional in one route; a missing one makes the start of the process fail.\<close>

definition evidence_command :: "string option \<Rightarrow> string option \<Rightarrow> string list res" where
  "evidence_command name nonce =
     (case (name, nonce) of
        (Some n, Some k) \<Rightarrow> Inr [''chutes-nvevidence'', ''--name'', n, ''--nonce'', k]
      | _ \<Rightarrow> Inl (TypeError ''expected str, bytes or os.PathLike object, not NoneType''))"

definition last_line :: "string \<Rightarrow> string res" where
  "last_line output =
     (let lines = filter (\<lambda>l. strip l \<noteq> []) (split_on newline (strip output)) in
      if lines = [] then Inl (AttestationException ''No output from evidence command'') else Inr (last lines))"

definition get_evidence :: "attest_env \<Rightarrow> string option \<Rightarrow> string option \<Rightarrow> string list option \<Rightarrow> string res" where
  "get_evidence env name nonce gpu_ids =
     (case bindR (evidence_command name nonce) (\<lambda>cmd.
           bindR (ae_evidence env cmd) (\<lambda>(code, stdout).
           if code = 0 then bindR (last_line stdout) (\<lambda>evidence. filter_evidence env evidence gpu_ids)
           else Inl (AttestationException ''Failed to gather evidence.''))) of
        Inl e \<Rightarrow> Inl (AttestationException ''Unexpected error gathering GPU evidence.'')
      | Inr evidence \<Rightarrow> Inr evidence)"

section \<open>Devices\<close>

definition sanitize_gpu_id :: "string \<Rightarrow> string" where
  "sanitize_gpu_id gpu_id = remove_all ''-'' (remove_all ''gpu-'' (remove_all ''GPU-'' gpu_id))"

record device_info =
  dv_uuid :: string
  dv_name :: string
  dv_memory :: int
  dv_major :: int
  dv_minor :: int
  dv_clock_rate :: int
  dv_ecc :: bool
  dv_model_short_ref :: string

definition describe_device :: "gpu_device \<Rightarrow> device_info res" where
  "describe_device d =
     (if words (lower (gd_name d)) = [] then Inl IndexError
      else Inr \<lparr>dv_uuid = sanitize_gpu_id (gd_uuid d), dv_name = gd_name d, dv_memory = gd_memory d,
        dv_major = fst (gd_capability d), dv_minor = snd (gd_capability d), dv_clock_rate = gd_max_clock d * 1000,
        dv_ecc = (gd_ecc_mode d \<noteq> 0), dv_model_short_ref = last (words (lower (gd_name d)))\<rparr>)"

definition filter_device_info :: "device_info list \<Rightarrow> string list option \<Rightarrow> device_info list" where
  "filter_device_info devices targets =
     (case targets of
        Some (t # ts) \<Rightarrow> filter (\<lambda>d. dv_uuid d \<in> set (map sanitize_gpu_id (t # ts))) devices
      | _ \<Rightarrow> devices)"

definition get_device_info :: "attest_env \<Rightarrow> string list option \<Rightarrow> device_info list res" where
  "get_device_info env gpu_ids =
     (case bindR (ae_nvml_init env) (\<lambda>_. bindR (ae_devices env) (mapM describe_device)) of
        Inl (NVMLError m) \<Rightarrow> Inl (AttestationException (''Exception retrieving device info from pynvml: '' @ m))
      | Inl e \<Rightarrow> Inl e
      | Inr all \<Rightarrow> Inr (filter_device_info all gpu_ids))"

section \<open>The routes\<close>

definition normalize_gpu_ids :: "string list option \<Rightarrow> string list option" where
  "normalize_gpu_ids gpu_ids =
     (case gpu_ids of
        None \<Rightarrow> None
      | Some raw \<Rightarrow>
          (let ids = concat (map (\<lambda>v. filter (\<lambda>w. w \<noteq> []) (map strip (split_on (CHR '','') v))) raw) in
           if ids = [] then None else Some ids))"

definition attest_error :: "exn \<Rightarrow> exn" where
  "attest_error e =
     (case e of
        AttestationException m \<Rightarrow> HTTPException 500 m
      | _ \<Rightarrow> HTTPException 500 ''Unexpected exception encountered generating attestaion data.'')"

definition attest_route :: "attest_env \<Rightarrow> string option \<Rightarrow> string \<Rightarrow> string list option \<Rightarrow> (string \<times> string) res" where
  "attest_route env hostname nonce gpu_ids =
     (case bindR (ae_nvml_init env) (\<lambda>_.
           bindR (get_quote env nonce) (\<lambda>quote.
           bindR (get_evidence env hostname (Some nonce) (normalize_gpu_ids gpu_ids)) (\<lambda>evidence.
           Inr (b64encode quote, evidence)))) of
        Inl e \<Rightarrow> Inl (attest_error e)
      | Inr r \<Rightarrow> Inr r)"

definition device_info_route :: "attest_env \<Rightarrow> string list option \<Rightarrow> device_info list res" where
  "device_info_route env gpu_ids =
     (case get_device_info env (normalize_gpu_ids gpu_ids) of
        Inl (AttestationException m) \<Rightarrow> Inl (HTTPException 500 ''Failed to get device info.'')
      | Inl e \<Rightarrow> Inl (HTTPException 500 ''Unexpected exception encountered getting device info.'')
      | Inr ds \<Rightarrow> Inr ds)"

definition rewrap :: "string \<Rightarrow> exn \<Rightarrow> exn" where
  "rewrap detail e = (case e of HTTPException c m \<Rightarrow> e | _ \<Rightarrow> HTTPException 500 detail)"

definition quote_route :: "attest_env \<Rightarrow> string \<Rightarrow> string res" where
  "quote_route env nonce =
     (case get_quote env nonce of
        Inl e \<Rightarrow> Inl (rewrap ''Unexpected error generating TDX quote.'' e)
      | Inr quote \<Rightarrow> Inr (b64encode quote))"

definition nvtrust_route :: "attest_env \<Rightarrow> string option \<Rightarrow> string option \<Rightarrow> string list option \<Rightarrow> string res" where
  "nvtrust_route env name nonce gpu_ids =
     (case bindR (ae_nvml_init env) (\<lambda>_. get_evidence env name nonce (normalize_gpu_ids gpu_ids)) of
        Inl e \<Rightarrow> Inl (rewrap ''Unexpected error gathering GPU evidence.'' e)
      | Inr evidence \<Rightarrow> Inr evidence)"


section \<open>What a quote binds\<close>

lemma get_quote_Inr:
  "get_quote env nonce = Inr quote \<longleftrightarrow>
     (\<exists>h. get_cert_hash env = Inr h \<and> ae_quote env (quote_command env (quote_report_data nonce h)) = Inr (0, quote))"
proof (cases "get_cert_hash env")
  case (Inr h)
  then show ?thesis
    by (cases "ae_quote env (quote_command env (quote_report_data nonce h))") (auto simp: get_quote_def split: if_splits)
qed (simp add: get_quote_def)

lemma attest_route_Inr:
  "attest_route env hostname nonce gpu_ids = Inr (quote_text, evidence) \<longleftrightarrow>
     (\<exists>quote. ae_nvml_init env = Inr () \<and> get_quote env nonce = Inr quote \<and> quote_text = b64encode quote \<and>
        get_evidence env hostname (Some nonce) (normalize_gpu_ids gpu_ids) = Inr evidence)"
  by (auto simp: attest_route_def bindR_Inr_iff split: sum.splits)

lemma get_cert_hash_Inr:
  "get_cert_hash env = Inr h \<longleftrightarrow>
     (\<exists>pem der. ae_cert_pubkey env = Inr pem \<and> ae_to_der env pem = Inr der \<and> h = ae_sha256_hex env der)"
  by (auto simp: get_cert_hash_def bindR_Inr_iff split: sum.splits)

lemma get_evidence_Inr:
  assumes "get_evidence env name nonce gpu_ids = Inr text"
  obtains n k out line where "name = Some n" "nonce = Some k"
    "ae_evidence env [''chutes-nvevidence'', ''--name'', n, ''--nonce'', k] = Inr (0, out)" "last_line out = Inr line"
    "filter_evidence env line gpu_ids = Inr text"
  using assms
  by (auto simp: get_evidence_def evidence_command_def bindR_Inr_iff split: sum.splits option.splits if_splits)

lemma last_of_filter: "filter P xs \<noteq> [] \<Longrightarrow> \<exists>ys zs. xs = ys @ last (filter P xs) # zs \<and> P (last (filter P xs)) \<and> (\<forall>z \<in> set zs. \<not> P z)"
proof (induction xs rule: rev_induct)
  case (snoc x xs)
  show ?case
  proof (cases "P x")
    case False
    then obtain ys zs where "xs = ys @ last (filter P xs) # zs" "P (last (filter P xs))" "\<forall>z \<in> set zs. \<not> P z"
      using snoc by auto
    then show ?thesis using False by (intro exI[of _ ys] exI[of _ "zs @ [x]"]) auto
  next
    case True
    then show ?thesis by (intro exI[of _ xs] exI[of _ "[]"]) simp
  qed
qed simp

lemma last_line_Inr:
  "last_line out = Inr line \<Longrightarrow>
     \<exists>before blank. split_on newline (strip out) = before @ line # blank \<and> strip line \<noteq> [] \<and> (\<forall>l \<in> set blank. strip l = [])"
  using last_of_filter[of "\<lambda>l. strip l \<noteq> []" "split_on newline (strip out)"]
  by (auto simp: last_line_def Let_def split: if_splits)

lemma filter_evidence_Inr:
  assumes "filter_evidence env line gpu_ids = Inr text"
  shows "text = line \<or> (\<exists>parsed positions items. ae_json_loads env line = Inr parsed \<and>
     mapM (evidence_item parsed) positions = Inr items \<and> text = ae_json_dumps env (JList items))"
  using assms by (auto simp: filter_evidence_def bindR_Inr_iff split: option.splits list.splits if_splits)

lemma filter_evidence_None [simp]: "filter_evidence env line None = Inr line"
  by (simp add: filter_evidence_def)

text \<open>
  C21: with a nonce of 64 characters, and a SHA-256 printed with 64, an attestation is made for exactly that
  nonce and the certificate of the server: the quote generator was run with the nonce followed by the
  hash of the DER form of the public key, the text in the answer decodes to its quote, and no other nonce
  and hash of this length give the same report data. The evidence comes from one successful run of the
  evidence tool with the hostname of the service and the same nonce: it is the last line of its output that
  is not blank, or, where GPUs were asked for, that line or the list of some of its entries.
\<close>

theorem quote_binds_nonce_and_certificate:
  assumes "attest_route env hostname nonce gpu_ids = Inr (quote_text, evidence)"
    and "length nonce = 64" "\<forall>d. length (ae_sha256_hex env d) = 64"
  shows "(\<exists>pem der h. ae_cert_pubkey env = Inr pem \<and> ae_to_der env pem = Inr der \<and> h = ae_sha256_hex env der \<and>
       ae_quote env [''/usr/bin/tdx-quote-generator'', ''--report-data'', nonce @ h, ''--hex'', ''--output'', ae_tmp_name env] =
         Inr (0, b64decode quote_text) \<and>
       (\<forall>nonce' h'. length nonce' = 64 \<and> length h' = 64 \<and> quote_report_data nonce' h' = nonce @ h \<longrightarrow> nonce' = nonce \<and> h' = h)) \<and>
     (\<exists>host out before line blank. hostname = Some host \<and>
       ae_evidence env [''chutes-nvevidence'', ''--name'', host, ''--nonce'', nonce] = Inr (0, out) \<and>
       split_on newline (strip out) = before @ line # blank \<and> strip line \<noteq> [] \<and> (\<forall>l \<in> set blank. strip l = []) \<and>
       (if normalize_gpu_ids gpu_ids = None then evidence = line
        else evidence = line \<or> (\<exists>parsed positions items. ae_json_loads env line = Inr parsed \<and>
          mapM (evidence_item parsed) positions = Inr items \<and> evidence = ae_json_dumps env (JList items))))"
proof (intro conjI)
  obtain quote h where q: "quote_text = b64encode quote" "get_cert_hash env = Inr h"
    "ae_quote env (quote_command env (quote_report_data nonce h)) = Inr (0, quote)"
    using assms(1) unfolding attest_route_Inr get_quote_Inr by blast
  obtain pem der where c: "ae_cert_pubkey env = Inr pem" "ae_to_der env pem = Inr der" "h = ae_sha256_hex env der"
    using q(2) unfolding get_cert_hash_Inr by blast
  have "length h = 64" using c(3) assms(3) by simp
  then have "quote_report_data nonce h = nonce @ h" using assms(2) by (simp add: quote_report_data_def)
  moreover have "nonce' = nonce \<and> h' = h"
    if "length nonce' = 64" "length h' = 64" "quote_report_data nonce' h' = nonce @ h" for nonce' h'
    using that assms(2) by (simp add: quote_report_data_def)
  ultimately show "\<exists>pem der h. ae_cert_pubkey env = Inr pem \<and> ae_to_der env pem = Inr der \<and> h = ae_sha256_hex env der \<and>
       ae_quote env [''/usr/bin/tdx-quote-generator'', ''--report-data'', nonce @ h, ''--hex'', ''--output'', ae_tmp_name env] =
         Inr (0, b64decode quote_text) \<and>
       (\<forall>nonce' h'. length nonce' = 64 \<and> length h' = 64 \<and> quote_report_data nonce' h' = nonce @ h \<longrightarrow> nonce' = nonce \<and> h' = h)"
    using q c by (intro exI[of _ pem] exI[of _ der] exI[of _ h] conjI allI impI) (auto simp: quote_command_def)
next
  have "get_evidence env hostname (Some nonce) (normalize_gpu_ids gpu_ids) = Inr evidence"
    using assms(1) unfolding attest_route_Inr by blast
  then obtain host out line where e: "hostname = Some host"
    "ae_evidence env [''chutes-nvevidence'', ''--name'', host, ''--nonce'', nonce] = Inr (0, out)" "last_line out = Inr line"
    "filter_evidence env line (normalize_gpu_ids gpu_ids) = Inr evidence"
    by (auto elim: get_evidence_Inr)
  obtain before blank where l: "split_on newline (strip out) = before @ line # blank" "strip line \<noteq> []" "\<forall>l \<in> set blank. strip l = []"
    using last_line_Inr[OF e(3)] by blast
  have "if normalize_gpu_ids gpu_ids = None then evidence = line
        else evidence = line \<or> (\<exists>parsed positions items. ae_json_loads env line = Inr parsed \<and>
          mapM (evidence_item parsed) positions = Inr items \<and> evidence = ae_json_dumps env (JList items))"
    using filter_evidence_Inr[OF e(4)] e(4) by auto
  then show "\<exists>host out before line blank. hostname = Some host \<and>
       ae_evidence env [''chutes-nvevidence'', ''--name'', host, ''--nonce'', nonce] = Inr (0, out) \<and>
       split_on newline (strip out) = before @ line # blank \<and> strip line \<noteq> [] \<and> (\<forall>l \<in> set blank. strip l = []) \<and>
       (if normalize_gpu_ids gpu_ids = None then evidence = line
        else evidence = line \<or> (\<exists>parsed positions items. ae_json_loads env line = Inr parsed \<and>
          mapM (evidence_item parsed) positions = Inr items \<and> evidence = ae_json_dumps env (JList items)))"
    using e(1,2) l by blast
qed

text \<open>
  Nothing checks the length of the nonce, and the report data is cut to 128 characters from the left: a nonce
  of 128 characters or more leaves no room for the certificate, and the quote is the same whatever
  certificate the server has.
\<close>

theorem long_nonce_drops_the_certificate:
  assumes "128 \<le> length nonce" "get_cert_hash env = Inr h"
    and "get_cert_hash (env\<lparr>ae_cert_pubkey := pubkey\<rparr>) = Inr h'"
  shows "get_quote (env\<lparr>ae_cert_pubkey := pubkey\<rparr>) nonce = get_quote env nonce \<and>
     (get_quote env nonce = Inr quote \<longrightarrow> ae_quote env (quote_command env (take 128 nonce)) = Inr (0, quote))"
  using assms by (auto simp: get_quote_def quote_report_data_def quote_command_def split: sum.splits prod.splits if_splits)

section \<open>Whose evidence is returned\<close>

lemma target_items:
  assumes "length xs = length ds"
  shows "mapM (evidence_item (JList xs)) (target_indices (map gd_uuid ds) targets) =
     Inr (map snd (filter (\<lambda>(d, x). gd_uuid d \<in> set targets) (zip ds xs)))"
proof -
  have "mapM (evidence_item (JList xs)) is = Inr (map ((!) xs) is)" if "\<forall>i \<in> set is. i < length xs" for "is"
    using that by (induction "is") (auto simp: evidence_item_def)
  then have "mapM (evidence_item (JList xs)) (target_indices (map gd_uuid ds) targets) =
      Inr (map ((!) xs) (target_indices (map gd_uuid ds) targets))"
    using assms by (auto simp: target_indices_def)
  moreover have "map ((!) xs) (filter (\<lambda>i. gd_uuid (ds ! i) \<in> set targets) [0..<length ds]) =
      map snd (filter (\<lambda>(d, x). gd_uuid d \<in> set targets) (zip ds xs))"
    using assms
  proof (induction ds xs rule: rev_induct2)
    case (4 x xs y ys)
    have e: "map ((!) (ys @ [y])) (filter (\<lambda>i. gd_uuid ((xs @ [x]) ! i) \<in> set targets) [0..<length xs]) =
        map ((!) ys) (filter (\<lambda>i. gd_uuid (xs ! i) \<in> set targets) [0..<length xs])"
      using 4(2) by (intro map_cong filter_cong) (auto simp: nth_append)
    have "map ((!) (ys @ [y])) (filter (\<lambda>i. gd_uuid ((xs @ [x]) ! i) \<in> set targets) [0..<length (xs @ [x])]) =
        map ((!) ys) (filter (\<lambda>i. gd_uuid (xs ! i) \<in> set targets) [0..<length xs]) @ (if gd_uuid x \<in> set targets then [y] else [])"
      using e 4(2) by (simp add: nth_append)
    then show ?case using 4 by simp
  qed simp_all
  moreover have "target_indices (map gd_uuid ds) targets = filter (\<lambda>i. gd_uuid (ds ! i) \<in> set targets) [0..<length ds]"
    by (auto simp: target_indices_def intro: filter_cong)
  ultimately show ?thesis by simp
qed


text \<open>
  Asked for some of the GPUs, the service returns the evidence of exactly these, in the order in which NVML
  numbers them: the entries of the tool's list that stand at the positions of GPUs with a requested
  identifier. It relies on the tool listing one entry per GPU in that order.
\<close>

theorem evidence_is_of_the_requested_gpus:
  assumes "get_evidence env name nonce (Some ids) = Inr text" "ids \<noteq> []" "ae_devices env = Inr ds" "length ids < length ds"
    and "\<forall>line. \<exists>xs. ae_json_loads env line = Inr (JList xs) \<and> length xs = length ds"
  shows "\<exists>line xs targets. ae_json_loads env line = Inr (JList xs) \<and> mapM format_target ids = Inr targets \<and>
     text = ae_json_dumps env (JList (map snd (filter (\<lambda>(d, x). gd_uuid d \<in> set targets) (zip ds xs))))"
proof -
  obtain out line where f: "last_line out = Inr line" "filter_evidence env line (Some ids) = Inr text"
    using assms(1) by (rule get_evidence_Inr)
  obtain xs where xs: "ae_json_loads env line = Inr (JList xs)" "length xs = length ds" using assms(5) by blast
  obtain t ts where ids: "ids = t # ts" using assms(2) by (cases ids) auto
  obtain targets where t: "mapM format_target ids = Inr targets"
    using f(2) unfolding ids filter_evidence_def by (auto simp: bindR_Inr_iff)
  have len: "length targets = length ids" using mapM_Inr_length[OF t] .
  have "text = ae_json_dumps env (JList (map snd (filter (\<lambda>(d, x). gd_uuid d \<in> set targets) (zip ds xs))))"
    using f(2) t len assms(4) xs(1) target_items[OF xs(2), of targets] unfolding ids
    by (auto simp: filter_evidence_def get_gpu_ids_def assms(3) bindR_Inr_iff)
  then show ?thesis using xs(1) t by blast
qed

text \<open>As many identifiers as there are GPUs, even the same one repeated, and everything is returned.\<close>

lemma repeated_ids_return_everything:
  assumes "filter_evidence env line (Some ids) = Inr text" "ids \<noteq> []" "ae_devices env = Inr ds" "length ds \<le> length ids"
  shows "text = line"
proof -
  obtain t ts where ids: "ids = t # ts" using assms(2) by (cases ids) auto
  show ?thesis
    using assms(1,3,4) mapM_Inr_length[of format_target ids] unfolding ids
    by (auto simp: filter_evidence_def get_gpu_ids_def bindR_Inr_iff split: if_splits)
qed

section \<open>Devices by identifier\<close>

lemma remove_all_absent: "c \<in> set p \<Longrightarrow> c \<notin> set s \<Longrightarrow> remove_all p s = s"
proof (induction p s rule: remove_all.induct)
  case (2 p c' cs)
  have "\<not> startswith (c' # cs) p"
  proof
    assume "startswith (c' # cs) p"
    then have "set p \<subseteq> set (c' # cs)" by (rule set_mono_prefix)
    with 2(3,4) show False by blast
  qed
  with 2 show ?case by auto
qed simp

lemma remove_all_char: "CHR ''-'' \<notin> set (remove_all ''-'' s)"
  by (induction "''-''" s rule: remove_all.induct) auto

lemma sanitize_idem: "sanitize_gpu_id (sanitize_gpu_id s) = sanitize_gpu_id s"
  unfolding sanitize_gpu_id_def
  by (simp add: remove_all_absent[of "CHR ''-''"] remove_all_char)

text \<open>
  A device is found by the identifier the service reports for it: asking for it returns the devices with that
  identifier out of all devices, in their order.
\<close>

theorem devices_found_by_reported_id:
  assumes "get_device_info env None = Inr devices" "d \<in> set devices"
  shows "get_device_info env (Some [dv_uuid d]) = Inr (filter (\<lambda>x. dv_uuid x = dv_uuid d) devices) \<and>
     d \<in> set (filter (\<lambda>x. dv_uuid x = dv_uuid d) devices)"
proof -
  let ?all = "bindR (ae_nvml_init env) (\<lambda>_. bindR (ae_devices env) (mapM describe_device))"
  have all: "?all = Inr devices"
  proof (cases ?all)
    case (Inl e)
    then show ?thesis using assms(1) by (cases e) (simp_all add: get_device_info_def)
  qed (use assms(1) in \<open>simp add: get_device_info_def filter_device_info_def\<close>)
  then obtain ds where ds: "mapM describe_device ds = Inr devices" by (elim bindR_InrE)
  obtain g where "describe_device g = Inr d" using mapM_Inr_set[OF ds assms(2)] by blast
  then have "dv_uuid d = sanitize_gpu_id (gd_uuid g)" by (auto simp: describe_device_def split: if_splits)
  then have "sanitize_gpu_id (dv_uuid d) = dv_uuid d" by (simp add: sanitize_idem)
  then show ?thesis using all assms(2) by (simp add: get_device_info_def filter_device_info_def)
qed

section \<open>Errors\<close>

lemma get_quote_Inl: "get_quote env nonce = Inl e \<Longrightarrow> \<exists>m. e = AttestationException m"
  by (cases "get_cert_hash env") (auto simp: get_quote_def get_cert_hash_def split: sum.splits prod.splits if_splits)

lemma get_evidence_Inl: "get_evidence env name nonce ids = Inl e \<Longrightarrow> \<exists>m. e = AttestationException m"
  by (auto simp: get_evidence_def split: sum.splits)

lemma attest_error_500: "\<exists>m. attest_error e = HTTPException 500 m"
  by (cases e) (simp_all add: attest_error_def)

lemma rewrap_500: "\<forall>c m. e \<noteq> HTTPException c m \<Longrightarrow> rewrap detail e = HTTPException 500 detail"
  by (cases e) (simp_all add: rewrap_def)

text \<open>
  Whatever fails (the certificate, a tool, NVML, a malformed identifier or nonce), every route of the attestation
  service answers with status 500: no other exception leaves it. It is assumed that NVML does not raise
  an HTTP error of its own.
\<close>

theorem attestation_errors_are_500:
  assumes "\<forall>c m. ae_nvml_init env \<noteq> Inl (HTTPException c m)"
  shows "(attest_route env hostname nonce ids = Inl e1 \<longrightarrow> (\<exists>m. e1 = HTTPException 500 m)) \<and>
     (device_info_route env ids = Inl e2 \<longrightarrow> (\<exists>m. e2 = HTTPException 500 m)) \<and>
     (quote_route env nonce = Inl e3 \<longrightarrow> (\<exists>m. e3 = HTTPException 500 m)) \<and>
     (nvtrust_route env name nonce' ids = Inl e4 \<longrightarrow> (\<exists>m. e4 = HTTPException 500 m))"
proof (intro conjI impI)
  assume "attest_route env hostname nonce ids = Inl e1"
  then obtain e where "e1 = attest_error e" by (auto simp: attest_route_def split: sum.splits)
  then show "\<exists>m. e1 = HTTPException 500 m" using attest_error_500 by simp
next
  assume r: "device_info_route env ids = Inl e2"
  show "\<exists>m. e2 = HTTPException 500 m"
  proof (cases "get_device_info env (normalize_gpu_ids ids)")
    case (Inl e)
    then show ?thesis using r by (cases e) (auto simp: device_info_route_def)
  qed (use r in \<open>simp add: device_info_route_def\<close>)
next
  assume "quote_route env nonce = Inl e3"
  then obtain e where e: "get_quote env nonce = Inl e" "e3 = rewrap ''Unexpected error generating TDX quote.'' e"
    by (auto simp: quote_route_def split: sum.splits)
  then obtain m where "e = AttestationException m" using get_quote_Inl by blast
  then show "\<exists>m. e3 = HTTPException 500 m" using e(2) by (simp add: rewrap_def)
next
  assume "nvtrust_route env name nonce' ids = Inl e4"
  then obtain e where e: "bindR (ae_nvml_init env) (\<lambda>_. get_evidence env name nonce' (normalize_gpu_ids ids)) = Inl e"
      "e4 = rewrap ''Unexpected error gathering GPU evidence.'' e"
    by (auto simp: nvtrust_route_def split: sum.splits)
  have "\<forall>c m. e \<noteq> HTTPException c m"
  proof (cases "ae_nvml_init env")
    case (Inl e')
    then show ?thesis using e(1) assms by auto
  next
    case (Inr u)
    then show ?thesis using e(1) get_evidence_Inl by fastforce
  qed
  then show "\<exists>m. e4 = HTTPException 500 m" using e(2) rewrap_500 by blast
qed

section \<open>An example\<close>

definition sample_gpu :: "string \<Rightarrow> gpu_device" where
  "sample_gpu u = \<lparr>gd_uuid = u, gd_name = ''NVIDIA H200'', gd_memory = 1, gd_capability = (9, 0), gd_max_clock = 2, gd_ecc_mode = 1\<rparr>"

definition sample_attest :: attest_env where
  "sample_attest =
     \<lparr>ae_cert_pubkey = Inr ''pem'', ae_to_der = (\<lambda>p. Inr p), ae_sha256_hex = (\<lambda>d. replicate 64 (if d = ''pem'' then CHR ''c'' else CHR ''d'')), ae_tmp_name = ''/tmp/q'',
      ae_quote = (\<lambda>cmd. Inr (0, cmd ! 2)), ae_evidence = (\<lambda>_. Inr (0, ''log'' @ [newline] @ ''[1,2]'')), ae_nvml_init = Inr (),
      ae_devices = Inr [sample_gpu ''GPU-a'', sample_gpu ''GPU-b''], ae_json_loads = (\<lambda>_. Inr (JList [JNum 1, JNum 2])),
      ae_json_dumps = (\<lambda>j. case j of JList xs \<Rightarrow> digits_of (length xs) | _ \<Rightarrow> [])\<rparr>"

lemma sample_attest_runs:
  "attest_route sample_attest (Some ''h'') (replicate 64 (CHR ''a'')) (Some [''GPU-b'']) =
     Inr (b64encode (replicate 64 (CHR ''a'') @ replicate 64 (CHR ''c'')), ''1'')"
  "get_evidence sample_attest (Some ''h'') (Some ''n'') (Some [''GPU-b'']) = Inr ''1''"
  "get_cert_hash sample_attest = Inr (replicate 64 (CHR ''c''))"
  "get_cert_hash (sample_attest\<lparr>ae_cert_pubkey := Inr ''other''\<rparr>) = Inr (replicate 64 (CHR ''d''))"
  by code_simp+

theorem quote_binds_nonce_and_certificate_witness:
  "(\<exists>pem der h. ae_cert_pubkey sample_attest = Inr pem \<and> h = ae_sha256_hex sample_attest der \<and>
     ae_quote sample_attest [''/usr/bin/tdx-quote-generator'', ''--report-data'', replicate 64 (CHR ''a'') @ h, ''--hex'', ''--output'',
       ae_tmp_name sample_attest] = Inr (0, replicate 64 (CHR ''a'') @ replicate 64 (CHR ''c''))) \<and>
   (\<exists>out. ae_evidence sample_attest [''chutes-nvevidence'', ''--name'', ''h'', ''--nonce'', replicate 64 (CHR ''a'')] = Inr (0, out))"
proof -
  have "\<forall>d. length (ae_sha256_hex sample_attest d) = 64" by (simp add: sample_attest_def)
  from quote_binds_nonce_and_certificate[OF sample_attest_runs(1) _ this] show ?thesis by auto
qed

theorem long_nonce_drops_the_certificate_witness:
  "get_quote (sample_attest\<lparr>ae_cert_pubkey := Inr ''other''\<rparr>) (replicate 128 (CHR ''a'')) = get_quote sample_attest (replicate 128 (CHR ''a''))"
  using long_nonce_drops_the_certificate[of "replicate 128 (CHR ''a'')", OF _ sample_attest_runs(3,4)] by simp

theorem evidence_is_of_the_requested_gpus_witness:
  "\<exists>targets. ''1'' = ae_json_dumps sample_attest
     (JList (map snd (filter (\<lambda>(d, x). gd_uuid d \<in> set targets) (zip [sample_gpu ''GPU-a'', sample_gpu ''GPU-b''] [JNum 1, JNum 2]))))"
proof -
  have "\<exists>line xs targets. ae_json_loads sample_attest line = Inr (JList xs) \<and> mapM format_target [''GPU-b''] = Inr targets \<and>
     ''1'' = ae_json_dumps sample_attest (JList (map snd (filter (\<lambda>(d, x). gd_uuid d \<in> set targets)
       (zip [sample_gpu ''GPU-a'', sample_gpu ''GPU-b''] xs))))"
    by (rule evidence_is_of_the_requested_gpus[OF sample_attest_runs(2)]) (simp_all add: sample_attest_def)
  then show ?thesis by (auto simp: sample_attest_def)
qed

theorem devices_found_by_reported_id_witness:
  "\<exists>d. get_device_info sample_attest (Some [dv_uuid d]) = Inr [d]"
proof -
  obtain ds where ds: "get_device_info sample_attest None = Inr ds" "map dv_uuid ds = [''a'', ''b'']"
  proof -
    have "map_sum id (map dv_uuid) (get_device_info sample_attest None) = Inr [''a'', ''b'']" by code_simp
    then show ?thesis using that by (cases "get_device_info sample_attest None") auto
  qed
  then obtain d e where "ds = [d, e]" "dv_uuid d = ''a''" "dv_uuid e = ''b''" by auto
  then show ?thesis using devices_found_by_reported_id[OF ds(1), of d] by (intro exI[of _ d]) simp
qed

theorem attestation_errors_are_500_witness:
  "\<exists>m. quote_route (sample_attest\<lparr>ae_quote := (\<lambda>_. Inr (1, []))\<rparr>) ''n'' = Inl (HTTPException 500 m)"
proof -
  obtain e where e: "quote_route (sample_attest\<lparr>ae_quote := (\<lambda>_. Inr (1, []))\<rparr>) ''n'' = Inl e"
  proof -
    have "isl (quote_route (sample_attest\<lparr>ae_quote := (\<lambda>_. Inr (1, []))\<rparr>) ''n'')" by code_simp
    then show ?thesis using that by (auto simp: isl_def)
  qed
  have "\<forall>c m. ae_nvml_init (sample_attest\<lparr>ae_quote := (\<lambda>_. Inr (1, []))\<rparr>) \<noteq> Inl (HTTPException c m)" by (simp add: sample_attest_def)
  from attestation_errors_are_500[OF this] e show ?thesis by blast
qed

end
