(* ===== verification/Config_Volume.thy ===== *)
theory Config_Volume
  imports Base64 Command_Output
begin

text \<open>
  The configuration volume of the guest, \<open>src/ansible/guest/roles/config/files/process-config.py\<close>: the untrusted
  files on the volume are validated and then written to their places. The file system is an
  association list of paths; reading, writing and removing may fail on any path, before or after the
  content is written. YAML and JSON printing are parameters. Log lines and the backup directory, which nothing uses, are
  left out. The lemmas say what has been validated before anything is written, and what the files hold
  afterwards.
\<close>

section \<open>Validation\<close>

type_synonym file_verdict = "bool \<times> string"

definition ss58_chars :: string where
  "ss58_chars = ''123456789ABCDEFGHJKLMNPQRSTUVWXYZabcdefghijkmnopqrstuvwxyz''"

definition validate_ss58_address :: "string \<Rightarrow> file_verdict" where
  "validate_ss58_address raw =
     (let address = strip raw in
      if length address < 40 \<or> 50 < length address then
        (False, ''SS58 address length invalid: '' @ digits_of (length address) @ '' (expected 40-50 chars)'')
      else if \<not> list_all (\<lambda>c. c \<in> set ss58_chars) address then (False, ''SS58 address contains invalid characters'')
      else if \<not> startswith address ''5'' then (False, ''SS58 address should start with 5 for Bittensor mainnet'')
      else (True, ''SS58 address is valid''))"

definition validate_seed_content :: "string \<Rightarrow> file_verdict" where
  "validate_seed_content raw =
     (let seed = strip raw in
      if startswith seed ''0x'' \<or> startswith seed ''0X'' then (False, ''Seed should not have 0x prefix'')
      else if length seed \<noteq> 64 then
        (False, ''Seed length invalid: '' @ digits_of (length seed) @ '' (expected 64 hex characters)'')
      else if \<not> list_all (\<lambda>c. c \<in> set ''0123456789abcdefABCDEF'') seed then (False, ''Seed contains invalid hex characters'')
      else (True, ''Seed is valid''))"

definition hostname_char :: "char \<Rightarrow> bool" where
  "hostname_char c =
     (let n = (of_char c :: int) in
      (48 \<le> n \<and> n \<le> 57) \<or> (65 \<le> n \<and> n \<le> 90) \<or> (97 \<le> n \<and> n \<le> 122) \<or> n = 45)"

definition validate_hostname :: "string \<Rightarrow> file_verdict" where
  "validate_hostname raw =
     (let hostname = strip raw in
      if 63 < length hostname then (False, ''Hostname too long (max 63 characters)'')
      else if hostname = [] \<or> \<not> list_all hostname_char hostname then (False, ''Hostname contains invalid characters'')
      else if startswith hostname ''-'' \<or> endswith hostname ''-'' then (False, ''Hostname cannot start or end with hyphen'')
      else (True, ''Hostname is valid''))"

definition interface_ok :: "json \<Rightarrow> bool" where
  "interface_ok settings =
     (case settings of
        JObj kvs \<Rightarrow> map_of kvs ''addresses'' \<noteq> None \<or> map_of kvs ''dhcp4'' = Some (JBool True) \<or>
          map_of kvs ''dhcp6'' = Some (JBool True)
      | _ \<Rightarrow> False)"

definition is_mapping :: "json \<Rightarrow> bool" where
  "is_mapping j = (case j of JObj kvs \<Rightarrow> True | _ \<Rightarrow> False)"

text \<open>The first interface whose settings are not accepted decides the message.\<close>

fun check_interfaces :: "(string \<times> json) list \<Rightarrow> file_verdict" where
  "check_interfaces [] = (True, ''Network config is valid'')"
| "check_interfaces ((interface, settings) # rest) =
     (if \<not> is_mapping settings then (False, ''Settings for interface '' @ interface @ '' must be a dictionary'')
      else if \<not> interface_ok settings then
        (False, ''Interface '' @ interface @ '' must have either addresses or DHCP enabled'')
      else check_interfaces rest)"

definition validate_network_config :: "(string \<Rightarrow> json option) \<Rightarrow> string \<Rightarrow> file_verdict res" where
  "validate_network_config yaml_load network_config =
     (case yaml_load network_config of
        None \<Rightarrow> Inr (False, ''Invalid YAML'')
      | Some (JObj content) \<Rightarrow>
          (case map_of content ''network'' of
             None \<Rightarrow> Inl (KeyError ''network'')
           | Some (JObj config) \<Rightarrow>
               if map_of config ''version'' \<noteq> Some (JNum 2) then Inr (False, ''Network config must have version: 2'')
               else
                 (case map_of config ''ethernets'' of
                    None \<Rightarrow> Inr (False, ''Network config must have 'ethernets' section'')
                  | Some (JObj ethernets) \<Rightarrow> Inr (check_interfaces ethernets)
                  | Some _ \<Rightarrow> Inr (False, ''ethernets must be a dictionary''))
           | Some _ \<Rightarrow> Inl (AttributeError ''get''))
      | Some _ \<Rightarrow> Inr (False, ''Network config must be a dictionary''))"

definition control_char :: "char \<Rightarrow> bool" where
  "control_char c \<longleftrightarrow> (of_char c :: int) < 32"

definition validate_docker_hub_string :: "string \<Rightarrow> nat \<Rightarrow> string option" where
  "validate_docker_hub_string val max_len =
     (let stripped = strip val in
      if stripped = [] \<or> max_len < length stripped \<or> list_ex control_char stripped then None else Some stripped)"

section \<open>Files\<close>

record vol_file =
  vf_content :: string
  vf_mode :: nat
  vf_uid :: int
  vf_gid :: int

type_synonym disk = "(string \<times> vol_file) list"

datatype write_failure = BeforeWriting | AfterWriting

record vol_env =
  ve_euid :: int
  ve_mounted :: bool
  ve_read_error :: "string \<Rightarrow> exn option"
  ve_write_failure :: "string \<Rightarrow> write_failure option"
  ve_remove_fails :: "string \<Rightarrow> bool"
  ve_admission_gid :: "int option"
  ve_docker_dir_fails :: bool
  ve_yaml_load :: "string \<Rightarrow> json option"              \<comment> \<open>\<open>None\<close>: \<open>YAMLError\<close>\<close>
  ve_yaml_dump :: "json \<Rightarrow> string"
  ve_json_dumps :: "json \<Rightarrow> string"

definition hostname_file :: string where "hostname_file = ''/var/config/hostname''"
definition ss58_file :: string where "ss58_file = ''/var/config/miner-ss58''"
definition seed_file :: string where "seed_file = ''/var/config/miner-seed''"
definition network_file :: string where "network_file = ''/var/config/network-config.yaml''"
definition hub_user_file :: string where "hub_user_file = ''/var/config/docker-hub-username''"
definition hub_token_file :: string where "hub_token_file = ''/var/config/docker-hub-token''"

definition hostname_target :: string where "hostname_target = ''/etc/hostname''"
definition ss58_target :: string where "ss58_target = ''/var/lib/rancher/k3s/credentials/miner-ss58''"
definition seed_target :: string where "seed_target = ''/var/lib/rancher/k3s/credentials/miner-seed''"
definition miner_env_target :: string where "miner_env_target = ''/etc/system-manager/miner.env''"
definition network_target :: string where "network_target = ''/etc/netplan/50-config-volume.yaml''"
definition docker_config_json :: string where "docker_config_json = ''/etc/admission-controller/docker-config/config.json''"
definition registries_yaml :: string where "registries_yaml = ''/etc/rancher/k3s/registries.yaml''"
definition kernel_hostname :: string where "kernel_hostname = ''/proc/sys/kernel/hostname''"

definition is_file :: "disk \<Rightarrow> string \<Rightarrow> bool" where
  "is_file d path \<longleftrightarrow> map_of d path \<noteq> None"

definition read_text :: "vol_env \<Rightarrow> disk \<Rightarrow> string \<Rightarrow> string res" where
  "read_text env d path =
     (case ve_read_error env path of
        Some e \<Rightarrow> Inl e
      | None \<Rightarrow>
          (case map_of d path of
             None \<Rightarrow> Inl (OSError 2 ''No such file or directory'')
           | Some f \<Rightarrow> Inr (vf_content f)))"

definition read_config_file :: "vol_env \<Rightarrow> disk \<Rightarrow> string \<Rightarrow> string option" where
  "read_config_file env d path = (case read_text env d path of Inl e \<Rightarrow> None | Inr s \<Rightarrow> Some (strip s))"

definition put_content :: "string \<Rightarrow> string \<Rightarrow> disk \<Rightarrow> disk" where
  "put_content path content d =
     AList.update path
       (case map_of d path of
          Some f \<Rightarrow> f\<lparr>vf_content := content\<rparr>
        | None \<Rightarrow> \<lparr>vf_content = content, vf_mode = 420, vf_uid = 0, vf_gid = 0\<rparr>) d"

definition write_file :: "vol_env \<Rightarrow> string \<Rightarrow> string \<Rightarrow> nat \<Rightarrow> int \<Rightarrow> int \<Rightarrow> disk \<Rightarrow> disk \<times> bool" where
  "write_file env content path mode uid gid d =
     (case ve_write_failure env path of
        Some BeforeWriting \<Rightarrow> (d, False)
      | Some AfterWriting \<Rightarrow> (put_content path content d, False)
      | None \<Rightarrow> (AList.update path \<lparr>vf_content = content, vf_mode = mode, vf_uid = uid, vf_gid = gid\<rparr> d, True))"

definition netplan_dir :: string where "netplan_dir = ''/etc/netplan/''"

fun remove_files :: "vol_env \<Rightarrow> string list \<Rightarrow> disk \<Rightarrow> disk \<times> bool" where
  "remove_files env [] d = (d, True)"
| "remove_files env (p # ps) d =
     (if ve_remove_fails env p then (d, False) else remove_files env ps (AList.delete p d))"

definition clear_netplan_directory :: "vol_env \<Rightarrow> disk \<Rightarrow> disk \<times> bool" where
  "clear_netplan_directory env d =
     remove_files env (filter (\<lambda>p. startswith p netplan_dir \<and> CHR ''/'' \<notin> set (drop (length netplan_dir) p)) (map fst d)) d"

section \<open>Docker Hub\<close>

definition read_docker_hub_credentials :: "vol_env \<Rightarrow> disk \<Rightarrow> (string \<times> string) option" where
  "read_docker_hub_credentials env d =
     (if \<not> is_file d hub_user_file \<or> \<not> is_file d hub_token_file then None
      else
        (case (read_config_file env d hub_user_file, read_config_file env d hub_token_file) of
           (Some user_raw, Some token_raw) \<Rightarrow>
             (case (validate_docker_hub_string user_raw 64, validate_docker_hub_string token_raw 128) of
                (Some user, Some token) \<Rightarrow> Some (user, token)
              | _ \<Rightarrow> None)
         | _ \<Rightarrow> None))"

definition hub_registry_keys :: "string list" where
  "hub_registry_keys = [''docker.io'', ''registry-1.docker.io'', ''index.docker.io'']"

definition docker_config :: "(string \<times> string) option \<Rightarrow> json" where
  "docker_config creds =
     JObj [(''auths'', JObj
       (case creds of
          None \<Rightarrow> []
        | Some (user, token) \<Rightarrow>
            [(''https://index.docker.io/v1/'', JObj [(''auth'', JStr (b64encode (user @ '':'' @ token)))])]))]"

definition hub_auth :: "string \<times> string \<Rightarrow> json" where
  "hub_auth creds = JObj [(''auth'', JObj [(''username'', JStr (fst creds)), (''password'', JStr (snd creds))])]"

definition merge_hub :: "(string \<times> string) option \<Rightarrow> (string \<times> json) list \<Rightarrow> (string \<times> json) list" where
  "merge_hub creds configs =
     (let cleared = fold AList.delete hub_registry_keys configs in
      case creds of
        None \<Rightarrow> cleared
      | Some c \<Rightarrow> fold (\<lambda>key. AList.update key (hub_auth c)) hub_registry_keys cleared)"

text \<open>The registries file with the new credentials; \<open>None\<close>: it does not have the expected shape and is left alone.\<close>

definition merged_registries :: "(string \<times> string) option \<Rightarrow> json \<Rightarrow> json option" where
  "merged_registries creds data =
     (case (if data = JNull then JObj [] else data) of
        JObj kvs \<Rightarrow>
          (case map_of kvs ''configs'' of
             None \<Rightarrow> Some (JObj (AList.update ''configs'' (JObj (merge_hub creds [])) kvs))
           | Some JNull \<Rightarrow> Some (JObj (AList.update ''configs'' (JObj (merge_hub creds [])) kvs))
           | Some (JObj configs) \<Rightarrow> Some (JObj (AList.update ''configs'' (JObj (merge_hub creds configs)) kvs))
           | Some _ \<Rightarrow> None)
      | _ \<Rightarrow> None)"

definition update_registries :: "vol_env \<Rightarrow> (string \<times> string) option \<Rightarrow> disk \<Rightarrow> disk \<times> bool res" where
  "update_registries env creds d =
     (if \<not> is_file d registries_yaml then (d, Inr True)
      else
        (case read_text env d registries_yaml of
           Inl (OSError n m) \<Rightarrow> (d, Inr False)
         | Inl (PermissionError m) \<Rightarrow> (d, Inr False)
         | Inl TimeoutError \<Rightarrow> (d, Inr False)
         | Inl e \<Rightarrow> (d, Inl e)
         | Inr raw \<Rightarrow>
             (case (if strip raw = [] then Some (JObj []) else ve_yaml_load env raw) of
                None \<Rightarrow> (d, Inr False)
              | Some data \<Rightarrow>
                  (case merged_registries creds data of
                     None \<Rightarrow> (d, Inr True)
                   | Some merged \<Rightarrow>
                       (if ve_write_failure env registries_yaml = Some BeforeWriting then (d, Inr False)
                        else (put_content registries_yaml (ve_yaml_dump env merged) d,
                              Inr (ve_write_failure env registries_yaml = None)))))))"

definition apply_docker_hub_and_registries :: "vol_env \<Rightarrow> (string \<times> string) option \<Rightarrow> disk \<Rightarrow> disk \<times> bool res" where
  "apply_docker_hub_and_registries env creds d =
     (case ve_admission_gid env of
        None \<Rightarrow> (d, Inr (creds = None))
      | Some gid \<Rightarrow>
          if ve_docker_dir_fails env then (d, Inr False)
          else
            (case write_file env (ve_json_dumps env (docker_config creds)) docker_config_json 416 0 gid d of
               (d', False) \<Rightarrow> (d', Inr False)
             | (d', True) \<Rightarrow> update_registries env creds d'))"

section \<open>Validate and apply\<close>

record vol_input =
  vi_hostname :: string
  vi_miner :: "(string \<times> string) option"
  vi_network :: string

text \<open>The part that only reads: the validated contents, or the end of the function.\<close>

definition read_valid :: "vol_env \<Rightarrow> disk \<Rightarrow> (string \<Rightarrow> file_verdict) \<Rightarrow> string \<Rightarrow> string option" where
  "read_valid env d validate path =
     (case read_config_file env d path of
        None \<Rightarrow> None
      | Some s \<Rightarrow> if fst (validate s) then Some s else None)"

definition validated_input :: "vol_env \<Rightarrow> disk \<Rightarrow> vol_input option res" where
  "validated_input env d =
     (if \<not> is_file d hostname_file \<or> \<not> is_file d network_file then Inr None
      else
        (case read_valid env d validate_hostname hostname_file of
           None \<Rightarrow> Inr None
         | Some hostname \<Rightarrow>
             (case (if is_file d ss58_file \<and> is_file d seed_file
                    then (case read_valid env d validate_ss58_address ss58_file of
                            None \<Rightarrow> None
                          | Some ss58 \<Rightarrow>
                              map_option (\<lambda>seed. Some (ss58, seed)) (read_valid env d validate_seed_content seed_file))
                    else Some None) of
                None \<Rightarrow> Inr None
              | Some miner \<Rightarrow>
                  (case read_config_file env d network_file of
                     None \<Rightarrow> Inr None
                   | Some network \<Rightarrow>
                       bindR (validate_network_config (ve_yaml_load env) network) (\<lambda>(ok, msg).
                       Inr (if ok then Some \<lparr>vi_hostname = hostname, vi_miner = miner, vi_network = network\<rparr> else None))))))"

type_synonym write_request = "string \<times> string \<times> nat \<times> int \<times> int"

definition target_writes :: "vol_input \<Rightarrow> write_request list" where
  "target_writes inp =
     [(vi_hostname inp @ [newline], hostname_target, 420, 0, 0)] @
     (case vi_miner inp of
        None \<Rightarrow> []
      | Some (ss58, seed) \<Rightarrow>
          [(ss58 @ [newline], ss58_target, 384, 0, 0), (seed @ [newline], seed_target, 384, 0, 0),
           (''MINER_SS58='' @ ss58 @ [newline] @ ''MINER_SEED='' @ seed @ [newline], miner_env_target, 416, 0, 10150)]) @
     [(vi_network inp, network_target, 384, 0, 0)]"

fun write_all :: "vol_env \<Rightarrow> write_request list \<Rightarrow> disk \<Rightarrow> disk \<times> bool" where
  "write_all env [] d = (d, True)"
| "write_all env ((content, path, mode, uid, gid) # ws) d =
     (case write_file env content path mode uid gid d of
        (d', False) \<Rightarrow> (d', False)
      | (d', True) \<Rightarrow> write_all env ws d')"

definition apply_config :: "vol_env \<Rightarrow> vol_input \<Rightarrow> disk \<Rightarrow> disk \<times> bool res" where
  "apply_config env inp d =
     (case write_all env (target_writes inp) d of
        (d1, False) \<Rightarrow> (d1, Inr False)
      | (d1, True) \<Rightarrow>
          (case apply_docker_hub_and_registries env (read_docker_hub_credentials env d1) d1 of
             (d2, Inr True) \<Rightarrow>
               (if ve_write_failure env kernel_hostname = Some BeforeWriting then d2
                else put_content kernel_hostname (vi_hostname inp) d2, Inr True)
           | r \<Rightarrow> r))"

definition validate_and_apply_config :: "vol_env \<Rightarrow> disk \<Rightarrow> disk \<times> bool res" where
  "validate_and_apply_config env d =
     (if \<not> ve_mounted env then (d, Inr False)
      else
        (case clear_netplan_directory env d of
           (d1, False) \<Rightarrow> (d1, Inr False)
         | (d1, True) \<Rightarrow>
             (case validated_input env d1 of
                Inl e \<Rightarrow> (d1, Inl e)
              | Inr None \<Rightarrow> (d1, Inr False)
              | Inr (Some inp) \<Rightarrow> apply_config env inp d1)))"

definition process_config_main :: "vol_env \<Rightarrow> disk \<Rightarrow> disk \<times> nat" where
  "process_config_main env d =
     (if ve_euid env \<noteq> 0 then (d, 1)
      else (case validate_and_apply_config env d of (d', r) \<Rightarrow> (d', if r = Inr True then 0 else 1)))"

section \<open>What each step leaves on the disk\<close>

lemma map_of_put_content: "map_of (put_content path content d) q =
    (if q = path then Some (case map_of d path of Some f \<Rightarrow> f\<lparr>vf_content := content\<rparr>
       | None \<Rightarrow> \<lparr>vf_content = content, vf_mode = 420, vf_uid = 0, vf_gid = 0\<rparr>) else map_of d q)"
  by (simp add: put_content_def update_conv')

lemma write_file_other: "write_file env content path mode uid gid d = (d', b) \<Longrightarrow> q \<noteq> path \<Longrightarrow> map_of d' q = map_of d q"
  by (auto simp: write_file_def map_of_put_content update_conv' split: option.splits write_failure.splits)

lemma write_file_True: "write_file env content path mode uid gid d = (d', True) \<Longrightarrow>
    map_of d' path = Some \<lparr>vf_content = content, vf_mode = mode, vf_uid = uid, vf_gid = gid\<rparr>"
  by (auto simp: write_file_def update_conv' split: option.splits write_failure.splits)

definition written_path :: "write_request \<Rightarrow> string" where
  "written_path w = fst (snd w)"

lemma write_all_other: "write_all env ws d = (d', b) \<Longrightarrow> q \<notin> written_path ` set ws \<Longrightarrow> map_of d' q = map_of d q"
proof (induction ws arbitrary: d)
  case (Cons w ws)
  obtain content path mode uid gid where w: "w = (content, path, mode, uid, gid)" by (cases w)
  obtain d1 b1 where d1: "write_file env content path mode uid gid d = (d1, b1)" by fastforce
  have "map_of d1 q = map_of d q" using Cons.prems(2) w by (intro write_file_other[OF d1]) (simp add: written_path_def)
  then show ?case using Cons w d1 by (cases b1) auto
qed simp

lemma write_all_True:
  assumes "write_all env ws d = (d', True)" "distinct (map written_path ws)" "(content, path, mode, uid, gid) \<in> set ws"
  shows "map_of d' path = Some \<lparr>vf_content = content, vf_mode = mode, vf_uid = uid, vf_gid = gid\<rparr>"
  using assms
proof (induction ws arbitrary: d)
  case (Cons w ws)
  obtain c p m u g where w: "w = (c, p, m, u, g)" by (cases w)
  obtain d1 b1 where d1: "write_file env c p m u g d = (d1, b1)" by fastforce
  then have b1: b1 and rest: "write_all env ws d1 = (d', True)" using Cons.prems(1) w by (auto split: bool.splits)
  show ?case
  proof (cases "(content, path, mode, uid, gid) = w")
    case True
    then have "p \<notin> written_path ` set ws" using Cons.prems(2) w by (simp add: written_path_def)
    then show ?thesis using write_all_other[OF rest] write_file_True d1 b1 True w by fastforce
  next
    case False
    then show ?thesis using Cons rest by simp
  qed
qed simp

definition in_netplan :: "string \<Rightarrow> bool" where
  "in_netplan p \<longleftrightarrow> startswith p netplan_dir \<and> CHR ''/'' \<notin> set (drop (length netplan_dir) p)"

lemma remove_files_other: "remove_files env ps d = (d', b) \<Longrightarrow> q \<notin> set ps \<Longrightarrow> map_of d' q = map_of d q"
  by (induction ps arbitrary: d) (auto simp: delete_conv' split: if_splits)

lemma remove_files_True: "remove_files env ps d = (d', True) \<Longrightarrow> map_of d' q = (if q \<in> set ps then None else map_of d q)"
proof (induction ps arbitrary: d)
  case (Cons p ps)
  then have "remove_files env ps (AList.delete p d) = (d', True)" by (auto split: if_splits)
  from Cons.IH[OF this] show ?case by (auto simp: delete_conv')
qed simp

lemma clear_other: "clear_netplan_directory env d = (d', b) \<Longrightarrow> \<not> in_netplan q \<Longrightarrow> map_of d' q = map_of d q"
  by (auto simp: clear_netplan_directory_def in_netplan_def intro: remove_files_other)

lemma clear_True:
  assumes "clear_netplan_directory env d = (d', True)" "in_netplan q"
  shows "map_of d' q = None"
proof -
  have "map_of d' q = (if q \<in> fst ` set d then None else map_of d q)"
    using remove_files_True[OF assms(1)[unfolded clear_netplan_directory_def], of q] assms(2) by (simp add: in_netplan_def)
  then show ?thesis by (auto simp: map_of_eq_None_iff)
qed

lemma config_paths [simp]:
  "\<not> in_netplan hostname_file" "\<not> in_netplan ss58_file" "\<not> in_netplan seed_file" "\<not> in_netplan network_file"
  "\<not> in_netplan hub_user_file" "\<not> in_netplan hub_token_file"
  "\<not> in_netplan registries_yaml" "\<not> in_netplan docker_config_json" "\<not> in_netplan kernel_hostname"
  "\<not> in_netplan hostname_target" "\<not> in_netplan ss58_target" "\<not> in_netplan seed_target"
  "\<not> in_netplan miner_env_target" "in_netplan network_target"
  by code_simp+

lemma target_paths:
  "distinct [hostname_target, ss58_target, seed_target, miner_env_target, network_target, docker_config_json,
     registries_yaml, kernel_hostname]"
  by code_simp

lemma later_targets [simp]:
  "miner_env_target \<noteq> hostname_target" "miner_env_target \<noteq> ss58_target" "miner_env_target \<noteq> seed_target"
  "network_target \<noteq> miner_env_target" "hostname_target \<noteq> miner_env_target" "registries_yaml \<noteq> docker_config_json"
  "docker_config_json \<noteq> registries_yaml"
  by code_simp+

section \<open>What has been validated\<close>

definition miner_ok :: "string \<times> string \<Rightarrow> bool" where
  "miner_ok m = (case m of (ss58, seed) \<Rightarrow>
     40 \<le> length ss58 \<and> length ss58 \<le> 50 \<and> hd ss58 = CHR ''5'' \<and> list_all (\<lambda>c. c \<in> set ss58_chars) ss58 \<and>
     length seed = 64 \<and> list_all (\<lambda>c. c \<in> set ''0123456789abcdefABCDEF'') seed)"

definition hostname_ok :: "string \<Rightarrow> bool" where
  "hostname_ok h \<longleftrightarrow> 0 < length h \<and> length h \<le> 63 \<and> list_all hostname_char h \<and> hd h \<noteq> CHR ''-'' \<and> last h \<noteq> CHR ''-''"

definition network_ok :: "(string \<Rightarrow> json option) \<Rightarrow> string \<Rightarrow> bool" where
  "network_ok yaml_load txt =
     (case yaml_load txt of
        Some (JObj content) \<Rightarrow>
          (case map_of content ''network'' of
             Some (JObj config) \<Rightarrow>
               map_of config ''version'' = Some (JNum 2) \<and>
               (case map_of config ''ethernets'' of
                  Some (JObj ethernets) \<Rightarrow> list_all (\<lambda>(interface, settings). interface_ok settings) ethernets
                | _ \<Rightarrow> False)
           | _ \<Rightarrow> False)
      | _ \<Rightarrow> False)"

definition from_volume :: "disk \<Rightarrow> string \<Rightarrow> string \<Rightarrow> bool" where
  "from_volume d path content \<longleftrightarrow> map_option (\<lambda>f. strip (vf_content f)) (map_of d path) = Some content"

definition input_ok :: "vol_env \<Rightarrow> disk \<Rightarrow> vol_input \<Rightarrow> bool" where
  "input_ok env d inp \<longleftrightarrow>
     from_volume d hostname_file (vi_hostname inp) \<and> hostname_ok (vi_hostname inp) \<and>
     from_volume d network_file (vi_network inp) \<and>
     network_ok (ve_yaml_load env) (vi_network inp) \<and>
     (case vi_miner inp of
        None \<Rightarrow> \<not> (is_file d ss58_file \<and> is_file d seed_file)
      | Some (ss58, seed) \<Rightarrow> from_volume d ss58_file ss58 \<and> from_volume d seed_file seed \<and> miner_ok (ss58, seed))"

lemma interface_ok_mapping: "interface_ok s \<Longrightarrow> is_mapping s"
  by (simp add: interface_ok_def is_mapping_def split: json.splits)

lemma check_interfaces_ok [simp]: "fst (check_interfaces es) \<longleftrightarrow> list_all (\<lambda>(i, s). interface_ok s) es"
  by (induction es rule: check_interfaces.induct) (auto dest: interface_ok_mapping)

lemma check_interfaces_cases: "check_interfaces es = (ok, msg) \<Longrightarrow> ok = list_all (\<lambda>(i, s). interface_ok s) es"
  using check_interfaces_ok[of es] by simp

lemma network_okE:
  assumes "network_ok yaml_load txt"
  obtains content config ethernets where "yaml_load txt = Some (JObj content)"
    "map_of content ''network'' = Some (JObj config)" "map_of config ''version'' = Some (JNum 2)"
    "map_of config ''ethernets'' = Some (JObj ethernets)" "list_all (\<lambda>(i, s). interface_ok s) ethernets"
proof -
  from assms obtain content where c: "yaml_load txt = Some (JObj content)"
    unfolding network_ok_def by (auto split: option.split_asm json.split_asm)
  with assms obtain config where n: "map_of content ''network'' = Some (JObj config)"
    unfolding network_ok_def by (auto split: option.split_asm json.split_asm)
  with c assms obtain es where "map_of config ''version'' = Some (JNum 2)" "map_of config ''ethernets'' = Some (JObj es)"
    "list_all (\<lambda>(i, s). interface_ok s) es"
    unfolding network_ok_def by (auto split: option.split_asm json.split_asm)
  with c n show thesis by (rule that)
qed

lemma network_accepted:
  assumes "network_ok yaml_load txt"
  obtains msg where "validate_network_config yaml_load txt = Inr (True, msg)"
  using assms
proof (rule network_okE)
  fix content config ethernets
  assume "yaml_load txt = Some (JObj content)" "map_of content ''network'' = Some (JObj config)"
    "map_of config ''version'' = Some (JNum 2)" "map_of config ''ethernets'' = Some (JObj ethernets)"
    "list_all (\<lambda>(i, s). interface_ok s) ethernets"
  then show thesis
    by (intro that[of "snd (check_interfaces ethernets)"])
       (simp add: validate_network_config_def prod_eq_iff)
qed

lemma network_validated:
  assumes "validate_network_config yaml_load txt = Inr (True, msg)"
  shows "network_ok yaml_load txt"
proof -
  from assms obtain content where c: "yaml_load txt = Some (JObj content)"
    unfolding validate_network_config_def by (simp split: option.split_asm json.split_asm)
  with assms obtain config where n: "map_of content ''network'' = Some (JObj config)"
    unfolding validate_network_config_def by (simp split: option.split_asm json.split_asm)
  with c assms have v: "map_of config ''version'' = Some (JNum 2)"
    unfolding validate_network_config_def by (simp split: if_split_asm)
  with c n assms obtain es where "map_of config ''ethernets'' = Some (JObj es)" "check_interfaces es = (True, msg)"
    unfolding validate_network_config_def by (simp split: option.split_asm json.split_asm)
  then show ?thesis using c n v check_interfaces_cases by (simp add: network_ok_def)
qed

lemma startswith_char: "startswith s [c] \<longleftrightarrow> s \<noteq> [] \<and> hd s = c"
  by (cases s) auto

lemma endswith_char: "endswith s [c] \<longleftrightarrow> s \<noteq> [] \<and> last s = c"
  by (cases s rule: rev_cases) (auto simp: suffix_def)

lemma hostname_validated [simp]: "strip h = h \<Longrightarrow> fst (validate_hostname h) = hostname_ok h"
  by (auto simp: validate_hostname_def hostname_ok_def startswith_char endswith_char Let_def)

lemma ss58_validated:
  "strip a = a \<Longrightarrow> fst (validate_ss58_address a) \<longleftrightarrow>
     40 \<le> length a \<and> length a \<le> 50 \<and> hd a = CHR ''5'' \<and> list_all (\<lambda>c. c \<in> set ss58_chars) a"
  by (auto simp: validate_ss58_address_def startswith_char Let_def)

lemma seed_validated:
  assumes "strip s = s"
  shows "fst (validate_seed_content s) \<longleftrightarrow> length s = 64 \<and> list_all (\<lambda>c. c \<in> set ''0123456789abcdefABCDEF'') s"
proof -
  have "\<not> list_all (\<lambda>c. c \<in> set ''0123456789abcdefABCDEF'') s" if "startswith s ''0x'' \<or> startswith s ''0X''"
    using that by (auto simp: prefix_def)
  then show ?thesis using assms by (auto simp: validate_seed_content_def Let_def)
qed

lemma miner_validated:
  "strip a = a \<Longrightarrow> strip s = s \<Longrightarrow> miner_ok (a, s) \<longleftrightarrow> fst (validate_ss58_address a) \<and> fst (validate_seed_content s)"
  by (auto simp: miner_ok_def ss58_validated seed_validated)

lemma read_valid_Some:
  assumes "read_valid env d validate path = Some s"
  shows "from_volume d path s \<and> fst (validate s) \<and> strip s = s"
  using assms by (auto simp: read_valid_def read_config_file_def read_text_def from_volume_def split: option.splits sum.splits if_splits)

lemma read_config_Some: "read_config_file env d path = Some s \<Longrightarrow> from_volume d path s"
  by (auto simp: read_config_file_def read_text_def from_volume_def split: option.splits sum.splits)

lemma validated_input_ok:
  assumes "validated_input env d = Inr (Some inp)"
  shows "input_ok env d inp"
proof -
  from assms obtain h m n msg where
    h: "read_valid env d validate_hostname hostname_file = Some h" and
    m: "(if is_file d ss58_file \<and> is_file d seed_file
         then (case read_valid env d validate_ss58_address ss58_file of
                 None \<Rightarrow> None
               | Some ss58 \<Rightarrow> map_option (\<lambda>seed. Some (ss58, seed)) (read_valid env d validate_seed_content seed_file))
         else Some None) = Some m" and
    n: "read_config_file env d network_file = Some n" and
    ok: "validate_network_config (ve_yaml_load env) n = Inr (True, msg)" and
    inp: "inp = \<lparr>vi_hostname = h, vi_miner = m, vi_network = n\<rparr>"
    unfolding validated_input_def by (auto simp: bindR_Inr_iff split: if_split_asm option.split_asm)
  have "from_volume d hostname_file h \<and> hostname_ok h" using read_valid_Some[OF h] by (metis hostname_validated)
  moreover have "from_volume d network_file n \<and> network_ok (ve_yaml_load env) n"
    using read_config_Some[OF n] network_validated[OF ok] by simp
  moreover have "case m of None \<Rightarrow> \<not> (is_file d ss58_file \<and> is_file d seed_file)
      | Some (ss58, seed) \<Rightarrow> from_volume d ss58_file ss58 \<and> from_volume d seed_file seed \<and> miner_ok (ss58, seed)"
    using m by (auto simp: miner_validated dest!: read_valid_Some split: if_split_asm option.split_asm)
  ultimately show ?thesis by (simp add: input_ok_def inp)
qed

lemma from_volume_clear:
  "clear_netplan_directory env d = (d', b) \<Longrightarrow> \<not> in_netplan p \<Longrightarrow> from_volume d' p c = from_volume d p c"
  by (simp add: from_volume_def clear_other)

lemma input_ok_clear:
  assumes "clear_netplan_directory env d = (d', b)"
  shows "input_ok env d' inp = input_ok env d inp"
  by (simp add: input_ok_def is_file_def from_volume_clear[OF assms] clear_other[OF assms] cong: option.case_cong)

definition touched_paths :: "vol_input \<Rightarrow> string list" where
  "touched_paths inp = map written_path (target_writes inp) @ [docker_config_json, registries_yaml, kernel_hostname]"

lemma written_paths:
  "map written_path (target_writes inp) =
     [hostname_target] @ (if vi_miner inp = None then [] else [ss58_target, seed_target, miner_env_target]) @ [network_target]"
  by (auto simp: target_writes_def written_path_def split: option.splits)

lemma touched_distinct: "distinct (touched_paths inp)"
  using target_paths by (auto simp: touched_paths_def written_paths)

lemma update_registries_other:
  "update_registries env creds d = (d', r) \<Longrightarrow> q \<noteq> registries_yaml \<Longrightarrow> map_of d' q = map_of d q"
  by (auto simp: update_registries_def map_of_put_content split: if_split_asm sum.split_asm exn.split_asm option.split_asm)

lemma docker_other:
  assumes "apply_docker_hub_and_registries env creds d = (d', r)" "q \<noteq> docker_config_json" "q \<noteq> registries_yaml"
  shows "map_of d' q = map_of d q"
proof -
  define cfg where "cfg = ve_json_dumps env (docker_config creds)"
  have step: "map_of d1 q = map_of d q" if "write_file env cfg docker_config_json 416 0 gid d = (d1, b)" for gid d1 b
    using write_file_other[OF that] assms(2) by simp
  have "map_of d' q = map_of d1 q" if "update_registries env creds d1 = (d', r)" for d1
    using update_registries_other[OF that] assms(3) by simp
  then show ?thesis using assms(1) unfolding apply_docker_hub_and_registries_def cfg_def[symmetric]
    by (auto split: option.split_asm if_split_asm prod.split_asm bool.split_asm dest: step)
qed

lemma apply_config_other:
  assumes "apply_config env inp d = (d', r)" "q \<notin> set (touched_paths inp)"
  shows "map_of d' q = map_of d q"
proof -
  obtain d1 b1 where d1: "write_all env (target_writes inp) d = (d1, b1)" by fastforce
  obtain d2 r2 where d2: "apply_docker_hub_and_registries env (read_docker_hub_credentials env d1) d1 = (d2, r2)" by fastforce
  have q: "q \<notin> written_path ` set (target_writes inp)" "q \<noteq> docker_config_json" "q \<noteq> registries_yaml" "q \<noteq> kernel_hostname"
    using assms(2) by (auto simp: touched_paths_def)
  have "map_of d1 q = map_of d q" using write_all_other[OF d1] q by simp
  moreover have "map_of d2 q = map_of d1 q" using docker_other[OF d2] q by simp
  ultimately show ?thesis using assms(1) q
    by (auto simp: apply_config_def d1 d2 map_of_put_content split: bool.split_asm sum.split_asm if_split_asm)
qed

lemma apply_config_cases:
  assumes "validate_and_apply_config env d = (d', r)"
  obtains (early) b where "\<not> ve_mounted env \<and> d' = d \<or> clear_netplan_directory env d = (d', b)" "r \<noteq> Inr True"
  | (applied) d1 inp where "ve_mounted env" "clear_netplan_directory env d = (d1, True)"
      "input_ok env d inp" "apply_config env inp d1 = (d', r)"
proof (cases "ve_mounted env")
  case False
  then have "\<not> ve_mounted env \<and> d' = d" "r \<noteq> Inr True" using assms by (auto simp: validate_and_apply_config_def)
  then show thesis using early by blast
next
  case True
  obtain d1 b where d1: "clear_netplan_directory env d = (d1, b)" by fastforce
  show thesis
  proof (cases "\<exists>inp. b \<and> validated_input env d1 = Inr (Some inp)")
    case True
    then obtain inp where inp: "b" "validated_input env d1 = Inr (Some inp)" by blast
    then have "input_ok env d inp" using validated_input_ok input_ok_clear[OF d1] by blast
    moreover have "apply_config env inp d1 = (d', r)"
      using assms \<open>ve_mounted env\<close> d1 inp by (simp add: validate_and_apply_config_def)
    ultimately show thesis using applied \<open>ve_mounted env\<close> d1 inp by simp
  next
    case False
    have "d' = d1 \<and> r \<noteq> Inr True"
    proof (cases b)
      case True
      then show ?thesis using assms \<open>ve_mounted env\<close> d1 False
        by (auto simp: validate_and_apply_config_def split: sum.split_asm option.split_asm)
    qed (use assms \<open>ve_mounted env\<close> d1 in \<open>auto simp: validate_and_apply_config_def\<close>)
    then show thesis using early d1 by blast
  qed
qed

section \<open>Nothing unvalidated is applied\<close>

text \<open>
  C22: Outside the netplan directory a file changes only when the volume is mounted and the hostname, the miner's
  address and seed (if the volume has both) and the network configuration on it have all been validated; and
  then only one of the files the validated configuration names.
\<close>

theorem nothing_applied_unless_valid:
  assumes "validate_and_apply_config env d = (d', r)" "map_of d' path \<noteq> map_of d path" "\<not> in_netplan path"
  shows "ve_mounted env \<and> (\<exists>inp. input_ok env d inp \<and> path \<in> set (touched_paths inp))"
  using assms(1)
proof (cases rule: apply_config_cases)
  case (early b)
  then show ?thesis using assms(2,3) clear_other by metis
next
  case (applied d1 inp)
  then show ?thesis using assms(2,3) clear_other[OF applied(2)] apply_config_other[OF applied(4)] by metis
qed

section \<open>What a successful run leaves behind\<close>

definition holds :: "disk \<Rightarrow> string \<Rightarrow> string \<Rightarrow> nat \<Rightarrow> int \<Rightarrow> bool" where
  "holds d path content mode gid \<longleftrightarrow>
     map_of d path = Some \<lparr>vf_content = content, vf_mode = mode, vf_uid = 0, vf_gid = gid\<rparr>"

definition configured :: "vol_input \<Rightarrow> disk \<Rightarrow> bool" where
  "configured inp d \<longleftrightarrow>
     holds d hostname_target (vi_hostname inp @ [newline]) 420 0 \<and> holds d network_target (vi_network inp) 384 0 \<and>
     (case vi_miner inp of
        None \<Rightarrow> True
      | Some (ss58, seed) \<Rightarrow>
          holds d ss58_target (ss58 @ [newline]) 384 0 \<and> holds d seed_target (seed @ [newline]) 384 0 \<and>
          holds d miner_env_target (''MINER_SS58='' @ ss58 @ [newline] @ ''MINER_SEED='' @ seed @ [newline]) 416 10150)"

lemma written_configured:
  assumes "write_all env (target_writes inp) d = (d', True)"
  shows "configured inp d'"
proof -
  have dist: "distinct (map written_path (target_writes inp))"
    using touched_distinct[of inp] by (simp add: touched_paths_def)
  note w = write_all_True[OF assms dist]
  show ?thesis unfolding configured_def holds_def
    by (auto split: option.splits intro!: w simp: target_writes_def)
qed

lemma configured_frame:
  "configured inp d \<Longrightarrow> (\<And>p. p \<in> set (map written_path (target_writes inp)) \<Longrightarrow> map_of d' p = map_of d p) \<Longrightarrow> configured inp d'"
  by (auto simp: configured_def holds_def written_paths split: option.splits)

lemma apply_config_True:
  assumes "apply_config env inp d = (d', Inr True)"
  shows "configured inp d' \<and> (\<forall>q. q \<notin> set (touched_paths inp) \<longrightarrow> map_of d' q = map_of d q)"
proof -
  obtain d1 b1 where d1: "write_all env (target_writes inp) d = (d1, b1)" by fastforce
  obtain d2 r2 where d2: "apply_docker_hub_and_registries env (read_docker_hub_credentials env d1) d1 = (d2, r2)" by fastforce
  have b1: "b1" using assms d1 by (auto simp: apply_config_def split: bool.split_asm)
  then have c: "configured inp d1" using written_configured d1 by simp
  have "map_of d' p = map_of d1 p" if "p \<in> set (map written_path (target_writes inp))" for p
  proof -
    have "p \<notin> set [docker_config_json, registries_yaml, kernel_hostname]"
      using that touched_distinct[of inp] unfolding touched_paths_def distinct_append by blast
    then have p: "p \<noteq> docker_config_json" "p \<noteq> registries_yaml" "p \<noteq> kernel_hostname" by simp_all
    then have "map_of d2 p = map_of d1 p" using docker_other[OF d2] by simp
    then show ?thesis using assms p
      by (auto simp: apply_config_def d1 d2 map_of_put_content split: bool.split_asm sum.split_asm if_split_asm)
  qed
  then show ?thesis using configured_frame[OF c] apply_config_other[OF assms] by blast
qed

text \<open>
  C23: After a successful run the files hold exactly the validated contents of the volume, with the modes and groups
  of the source, and the netplan directory holds nothing but the network configuration of the volume.
\<close>

theorem applied_config_is_the_volume:
  assumes "validate_and_apply_config env d = (d', Inr True)"
  shows "\<exists>inp. input_ok env d inp \<and> configured inp d' \<and>
    (\<forall>q. in_netplan q \<and> map_of d' q \<noteq> None \<longrightarrow> q = network_target)"
  using assms
proof (cases rule: apply_config_cases)
  case (applied d1 inp)
  have "q = network_target" if "in_netplan q" "map_of d' q \<noteq> None" for q
  proof (rule ccontr)
    assume "q \<noteq> network_target"
    then have "q \<notin> set (touched_paths inp)"
      using that(1) by (auto simp: touched_paths_def written_paths split: if_split_asm)
    then have "map_of d' q = None" using apply_config_True[OF applied(4)] clear_True[OF applied(2) that(1)] by simp
    then show False using that(2) by simp
  qed
  then show ?thesis using applied(3) apply_config_True[OF applied(4)] by blast
qed simp

lemma plain_chars:
  "list_all (\<lambda>c. \<not> line_end c) ss58_chars" "list_all (\<lambda>c. \<not> line_end c) ''0123456789abcdefABCDEF''"
  "\<not> line_end (CHR ''='')" "list_all (\<lambda>c. \<not> line_end c) ''MINER_SS58=''" "list_all (\<lambda>c. \<not> line_end c) ''MINER_SEED=''"
  by code_simp+

lemma list_all_set: "list_all P ys \<Longrightarrow> list_all (\<lambda>c. c \<in> set ys) xs \<Longrightarrow> list_all P xs"
  by (auto simp: list_all_iff)

lemma line_end_small: "line_end c \<Longrightarrow> \<not> hostname_char c"
  by (auto simp: line_end_def hostname_char_def Let_def)

text \<open>
  What is written to the environment file of the system manager is two lines, the address and the seed: neither
  can add a variable of its own. The file of the hostname is one line.
\<close>

theorem credentials_are_two_lines:
  assumes "input_ok env d inp" "vi_miner inp = Some (ss58, seed)"
  shows "map_of (map (\<lambda>(content, path, rest). (path, splitlines content)) (target_writes inp)) miner_env_target =
      Some [''MINER_SS58='' @ ss58, ''MINER_SEED='' @ seed] \<and>
    map_of (map (\<lambda>(content, path, rest). (path, splitlines content)) (target_writes inp)) hostname_target =
      Some [vi_hostname inp]"
proof -
  have alphabets: "list_all (\<lambda>c. c \<in> set ss58_chars) ss58" "list_all (\<lambda>c. c \<in> set ''0123456789abcdefABCDEF'') seed"
    using assms by (simp_all add: input_ok_def miner_ok_def)
  have "list_all (\<lambda>c. \<not> line_end c) (''MINER_SS58='' @ ss58)" "list_all (\<lambda>c. \<not> line_end c) (''MINER_SEED='' @ seed)"
    using list_all_set[OF plain_chars(1) alphabets(1)] list_all_set[OF plain_chars(2) alphabets(2)] plain_chars(4,5)
    by simp_all
  from splitlines_line[OF this(1), of "''MINER_SEED='' @ seed @ [newline]"] splitlines_line[OF this(2), of "[]"]
  have env_lines: "splitlines (''MINER_SS58='' @ ss58 @ [newline] @ ''MINER_SEED='' @ seed @ [newline]) =
    [''MINER_SS58='' @ ss58, ''MINER_SEED='' @ seed]" by simp
  have "list_all (\<lambda>c. \<not> line_end c) (vi_hostname inp)"
    using assms(1) line_end_small by (auto simp: input_ok_def hostname_ok_def list_all_iff)
  from splitlines_line[OF this, of "[]"] have "splitlines (vi_hostname inp @ [newline]) = [vi_hostname inp]" by simp
  then show ?thesis using env_lines by (simp add: target_writes_def assms(2))
qed

section \<open>Docker Hub credentials\<close>

lemma map_of_deletes: "map_of (fold AList.delete ks al) k = (if k \<in> set ks then None else map_of al k)"
  by (induction ks arbitrary: al) (auto simp: delete_conv')

lemma map_of_updates: "map_of (fold (\<lambda>key. AList.update key v) ks al) k = (if k \<in> set ks then Some v else map_of al k)"
  by (induction ks arbitrary: al) (auto simp: update_conv')

lemma map_of_merge_hub:
  "map_of (merge_hub creds configs) k = (if k \<in> set hub_registry_keys then map_option hub_auth creds else map_of configs k)"
  by (auto simp: merge_hub_def map_of_deletes map_of_updates Let_def split: option.splits)

text \<open>
  The credentials of the volume, or none, replace whatever the registries file had for Docker Hub, and nothing
  else in it: every other registry keeps its entry and every other section its value.
\<close>

theorem hub_credentials_replace_only_hub:
  assumes "apply_docker_hub_and_registries env creds d = (d', Inr True)" "ve_admission_gid env = Some gid"
    "map_of d registries_yaml = Some f" "strip (vf_content f) \<noteq> []"
    "ve_yaml_load env (vf_content f) = Some (JObj kvs)" "map_of kvs ''configs'' = Some (JObj configs)"
  shows "holds d' docker_config_json (ve_json_dumps env (docker_config creds)) 416 gid \<and>
    (\<exists>kvs' configs'. map_of d' registries_yaml = Some (f\<lparr>vf_content := ve_yaml_dump env (JObj kvs')\<rparr>) \<and>
       map_of kvs' = (map_of kvs)(''configs'' \<mapsto> JObj configs') \<and>
       map_of configs' = (\<lambda>k. if k \<in> set hub_registry_keys then map_option hub_auth creds else map_of configs k))"
proof -
  define cfg where "cfg = ve_json_dumps env (docker_config creds)"
  obtain d1 where d1: "write_file env cfg docker_config_json 416 0 gid d = (d1, True)"
    and up: "update_registries env creds d1 = (d', Inr True)"
    using assms(1,2) unfolding apply_docker_hub_and_registries_def cfg_def[symmetric]
    by (auto split: if_split_asm prod.split_asm bool.split_asm)
  have ne: "registries_yaml \<noteq> docker_config_json" by simp
  have f: "map_of d1 registries_yaml = Some f" using write_file_other[OF d1 ne] assms(3) by simp
  have merged: "merged_registries creds (JObj kvs) = Some (JObj (AList.update ''configs'' (JObj (merge_hub creds configs)) kvs))"
    using assms(6) by (simp add: merged_registries_def)
  have d': "d' = put_content registries_yaml (ve_yaml_dump env (JObj (AList.update ''configs'' (JObj (merge_hub creds configs)) kvs))) d1"
    using up f assms(4,5) merged
    by (auto simp: update_registries_def is_file_def read_text_def split: option.split_asm exn.split_asm if_split_asm)
  have "map_of d' docker_config_json = map_of d1 docker_config_json" using ne by (simp add: d' map_of_put_content)
  then have "holds d' docker_config_json cfg 416 gid" using write_file_True[OF d1] by (simp add: holds_def)
  moreover have "map_of d' registries_yaml =
      Some (f\<lparr>vf_content := ve_yaml_dump env (JObj (AList.update ''configs'' (JObj (merge_hub creds configs)) kvs))\<rparr>)"
    by (simp add: d' map_of_put_content f)
  ultimately show ?thesis unfolding cfg_def
    by (intro conjI exI[of _ "AList.update ''configs'' (JObj (merge_hub creds configs)) kvs"] exI[of _ "merge_hub creds configs"])
       (auto simp: update_conv' map_of_merge_hub)
qed

text \<open>
  The credentials come from the two files of the volume, without control characters and bounded in length, and the text the
  registry client decodes from the Docker configuration is the user name, a colon and the token.
\<close>

theorem hub_credentials_are_the_volume:
  assumes "read_docker_hub_credentials env d = Some (user, token)"
  shows "from_volume d hub_user_file user \<and> from_volume d hub_token_file token \<and>
    0 < length user \<and> length user \<le> 64 \<and> 0 < length token \<and> length token \<le> 128 \<and> \<not> list_ex control_char (user @ token) \<and>
    (\<exists>auth. docker_config (Some (user, token)) =
        JObj [(''auths'', JObj [(''https://index.docker.io/v1/'', JObj [(''auth'', JStr auth)])])] \<and>
      b64decode auth = user @ '':'' @ token)"
proof -
  from assms obtain u t where r: "read_config_file env d hub_user_file = Some u" "read_config_file env d hub_token_file = Some t"
    and v: "validate_docker_hub_string u 64 = Some user" "validate_docker_hub_string t 128 = Some token"
    unfolding read_docker_hub_credentials_def by (auto split: if_split_asm option.split_asm)
  have s: "strip u = u" "strip t = t" using r by (auto simp: read_config_file_def split: sum.split_asm)
  then show ?thesis using read_config_Some[OF r(1)] read_config_Some[OF r(2)] v
    by (auto simp: validate_docker_hub_string_def docker_config_def Let_def split: if_split_asm)
qed

section \<open>A valid volume is applied\<close>

lemma write_all_succeeds:
  "\<forall>p. ve_write_failure env p = None \<Longrightarrow> \<exists>d'. write_all env ws d = (d', True)"
  by (induction ws arbitrary: d) (auto simp: write_file_def)

lemma remove_files_succeeds: "\<forall>p. \<not> ve_remove_fails env p \<Longrightarrow> \<exists>d'. remove_files env ps d = (d', True)"
  by (induction ps arbitrary: d) auto

lemma input_ok_validated:
  assumes "\<forall>p. ve_read_error env p = None" "input_ok env d inp"
  shows "validated_input env d = Inr (Some inp)"
proof -
  have rd: "read_config_file env d p = Some c \<and> is_file d p \<and> strip c = c" if "from_volume d p c" for p c
    using that assms(1) by (auto simp: from_volume_def read_config_file_def read_text_def is_file_def)
  have rv: "read_valid env d v p = Some c" if "from_volume d p c" "fst (v c)" for p c v
    using rd[OF that(1)] that(2) by (simp add: read_valid_def)
  obtain msg where net: "validate_network_config (ve_yaml_load env) (vi_network inp) = Inr (True, msg)"
    using assms(2) network_accepted unfolding input_ok_def by blast
  have host: "from_volume d hostname_file (vi_hostname inp)" "fst (validate_hostname (vi_hostname inp))"
    and nw: "from_volume d network_file (vi_network inp)"
    using assms(2) hostname_validated rd unfolding input_ok_def by metis+
  have miner: "(if is_file d ss58_file \<and> is_file d seed_file
         then (case read_valid env d validate_ss58_address ss58_file of
                 None \<Rightarrow> None
               | Some ss58 \<Rightarrow> map_option (\<lambda>seed. Some (ss58, seed)) (read_valid env d validate_seed_content seed_file))
         else Some None) = Some (vi_miner inp)"
  proof (cases "vi_miner inp")
    case None
    then show ?thesis using assms(2) by (auto simp: input_ok_def)
  next
    case (Some m)
    then obtain a s where m: "vi_miner inp = Some (a, s)" by (cases m) auto
    then have fv: "from_volume d ss58_file a" "from_volume d seed_file s" and ok: "miner_ok (a, s)"
      using assms(2) by (auto simp: input_ok_def)
    then have "fst (validate_ss58_address a)" "fst (validate_seed_content s)" using rd miner_validated by metis+
    then show ?thesis using rv[where v = validate_ss58_address, OF fv(1)] rv[where v = validate_seed_content, OF fv(2)] rd[OF fv(1)] rd[OF fv(2)] m by simp
  qed
  show ?thesis unfolding validated_input_def miner
    using rd[OF host(1)] rd[OF nw] rv[where v = validate_hostname, OF host] net by simp
qed

definition registries_readable :: "vol_env \<Rightarrow> disk \<Rightarrow> bool" where
  "registries_readable env d \<longleftrightarrow>
     (case map_of d registries_yaml of
        None \<Rightarrow> True
      | Some f \<Rightarrow> strip (vf_content f) = [] \<or> ve_yaml_load env (vf_content f) \<noteq> None)"

lemma registries_updated:
  assumes "\<forall>p. ve_read_error env p = None" "\<forall>p. ve_write_failure env p = None" "registries_readable env d"
  shows "\<exists>d'. update_registries env creds d = (d', Inr True)"
proof (cases "map_of d registries_yaml")
  case (Some f)
  obtain j where "(if strip (vf_content f) = [] then Some (JObj []) else ve_yaml_load env (vf_content f)) = Some j"
    using assms(3) Some by (cases "strip (vf_content f) = []") (auto simp: registries_readable_def)
  moreover have "read_text env d registries_yaml = Inr (vf_content f)" using assms(1) Some by (simp add: read_text_def)
  ultimately show ?thesis using assms(2) Some
    by (cases "merged_registries creds j") (simp_all add: update_registries_def is_file_def)
qed (simp add: update_registries_def is_file_def)

lemma registries_untouched:
  assumes "clear_netplan_directory env d = (d1, b1)" "write_all env (target_writes inp) d1 = (d2, b2)"
    "write_file env cfg docker_config_json mode uid gid d2 = (d3, b3)"
  shows "map_of d3 registries_yaml = map_of d registries_yaml"
proof -
  have "registries_yaml \<notin> written_path ` set (target_writes inp)"
    using touched_distinct[of inp] by (auto simp: touched_paths_def)
  moreover have "\<not> in_netplan registries_yaml" "registries_yaml \<noteq> docker_config_json" by simp_all
  ultimately show ?thesis using clear_other[OF assms(1)] write_all_other[OF assms(2)] write_file_other[OF assms(3)] by metis
qed

text \<open>
  C24: When no system call fails, the group of the admission controller exists and the registries file, if
  there is one, is empty or YAML that can be read, a mounted volume whose contents pass validation is applied, in benchmark mode
  as well as with the credentials of a miner, and the script exits with 0.
\<close>

theorem valid_volume_is_applied:
  assumes "ve_mounted env" "ve_euid env = 0" "\<forall>p. ve_read_error env p = None" "\<forall>p. ve_write_failure env p = None"
    "\<forall>p. \<not> ve_remove_fails env p" "ve_admission_gid env = Some gid" "\<not> ve_docker_dir_fails env"
    "case map_of d registries_yaml of None \<Rightarrow> True
     | Some f \<Rightarrow> strip (vf_content f) = [] \<or> ve_yaml_load env (vf_content f) \<noteq> None"
    "input_ok env d inp"
  shows "\<exists>d'. process_config_main env d = (d', 0) \<and> configured inp d'"
proof -
  obtain d1 where d1: "clear_netplan_directory env d = (d1, True)"
    using remove_files_succeeds[OF assms(5)] by (metis clear_netplan_directory_def)
  have inp: "validated_input env d1 = Inr (Some inp)"
    using input_ok_validated[OF assms(3)] input_ok_clear[OF d1] assms(9) by blast
  obtain d2 where d2: "write_all env (target_writes inp) d1 = (d2, True)" using write_all_succeeds[OF assms(4)] by blast
  define creds where "creds = read_docker_hub_credentials env d2"
  define cfg where "cfg = ve_json_dumps env (docker_config creds)"
  obtain d3 where d3: "write_file env cfg docker_config_json 416 0 gid d2 = (d3, True)" using assms(4) by (simp add: write_file_def)
  have "registries_readable env d3"
    using assms(8) unfolding registries_readable_def registries_untouched[OF d1 d2 d3] .
  then obtain d4 where d4: "update_registries env creds d3 = (d4, Inr True)" using registries_updated[OF assms(3,4)] by blast
  have "apply_docker_hub_and_registries env creds d2 = (d4, Inr True)"
    using assms(6,7) d3 d4 by (simp add: apply_docker_hub_and_registries_def cfg_def)
  then have a: "apply_config env inp d1 = (put_content kernel_hostname (vi_hostname inp) d4, Inr True)"
    using assms(4) d2 by (simp add: apply_config_def creds_def)
  then have "process_config_main env d = (put_content kernel_hostname (vi_hostname inp) d4, 0)"
    using assms(1,2) d1 inp by (simp add: process_config_main_def validate_and_apply_config_def)
  then show ?thesis using apply_config_True[OF a] by blast
qed

section \<open>Witnesses\<close>

definition sample_network :: json where
  "sample_network = JObj [(''network'', JObj [(''version'', JNum 2), (''ethernets'', JObj [(''eth0'', JObj [(''dhcp4'', JBool True)])])])]"

definition sample_env :: vol_env where
  "sample_env = \<lparr>ve_euid = 0, ve_mounted = True, ve_read_error = \<lambda>p. None, ve_write_failure = \<lambda>p. None,
     ve_remove_fails = \<lambda>p. False, ve_admission_gid = Some 7, ve_docker_dir_fails = False,
     ve_yaml_load = \<lambda>t. if t = ''net'' then Some sample_network
       else if t = ''regs'' then Some (JObj [(''configs'', JObj [(''docker.io'', JNull), (''ghcr.io'', JNull)])]) else None,
     ve_yaml_dump = \<lambda>j. ''yaml'', ve_json_dumps = \<lambda>j. ''json''\<rparr>"

definition sample_file :: "string \<Rightarrow> vol_file" where
  "sample_file s = \<lparr>vf_content = s, vf_mode = 420, vf_uid = 0, vf_gid = 0\<rparr>"

definition sample_disk :: disk where
  "sample_disk = [(hostname_file, sample_file ''miner-1 ''), (network_file, sample_file ''net''),
     (ss58_file, sample_file (replicate 48 CHR ''5'')), (seed_file, sample_file (replicate 64 CHR ''a'')),
     (registries_yaml, sample_file ''regs''), (''/etc/netplan/old.yaml'', sample_file ''old''),
     (hub_user_file, sample_file ''joe''), (hub_token_file, sample_file ''tok'')]"

definition sample_input :: vol_input where
  "sample_input = \<lparr>vi_hostname = ''miner-1'', vi_miner = Some (replicate 48 CHR ''5'', replicate 64 CHR ''a''), vi_network = ''net''\<rparr>"

lemma sample_input_ok: "input_ok sample_env sample_disk sample_input"
  by code_simp

theorem nothing_applied_unless_valid_witness:
  "input_ok sample_env sample_disk sample_input \<and>
   (\<exists>inp. input_ok sample_env sample_disk inp \<and> hostname_target \<in> set (touched_paths inp))"
proof -
  have r: "snd (validate_and_apply_config sample_env sample_disk) = Inr True" by code_simp
  have c: "map_of (fst (validate_and_apply_config sample_env sample_disk)) hostname_target \<noteq> map_of sample_disk hostname_target"
    by code_simp
  show ?thesis
    using nothing_applied_unless_valid[OF surjective_pairing c] sample_input_ok by simp
qed

theorem applied_config_is_the_volume_witness:
  "\<exists>inp. input_ok sample_env sample_disk inp \<and> configured inp (fst (validate_and_apply_config sample_env sample_disk))"
proof -
  have "snd (validate_and_apply_config sample_env sample_disk) = Inr True" by code_simp
  then have "validate_and_apply_config sample_env sample_disk =
      (fst (validate_and_apply_config sample_env sample_disk), Inr True)" by (metis prod.collapse)
  from applied_config_is_the_volume[OF this] show ?thesis by blast
qed

theorem credentials_are_two_lines_witness:
  "map_of (map (\<lambda>(content, path, rest). (path, splitlines content)) (target_writes sample_input)) hostname_target = Some [''miner-1'']"
  using credentials_are_two_lines[OF sample_input_ok, of "replicate 48 CHR ''5''" "replicate 64 CHR ''a''"]
  by (simp add: sample_input_def)

theorem hub_credentials_replace_only_hub_witness:
  "holds (fst (apply_docker_hub_and_registries sample_env None sample_disk)) docker_config_json ''json'' 416 7"
proof -
  have "snd (apply_docker_hub_and_registries sample_env None sample_disk) = Inr True" by code_simp
  then have a: "apply_docker_hub_and_registries sample_env None sample_disk =
      (fst (apply_docker_hub_and_registries sample_env None sample_disk), Inr True)" by (metis prod.collapse)
  have g: "ve_admission_gid sample_env = Some 7" by code_simp
  have f: "map_of sample_disk registries_yaml = Some (sample_file ''regs'')" by code_simp
  have s: "strip (vf_content (sample_file ''regs'')) \<noteq> []" by code_simp
  have y: "ve_yaml_load sample_env (vf_content (sample_file ''regs'')) =
      Some (JObj [(''configs'', JObj [(''docker.io'', JNull), (''ghcr.io'', JNull)])])" by code_simp
  from hub_credentials_replace_only_hub[OF a g f s y] show ?thesis by (simp add: sample_env_def)
qed

theorem hub_credentials_are_the_volume_witness:
  "read_docker_hub_credentials sample_env sample_disk = Some (''joe'', ''tok'') \<and> from_volume sample_disk hub_user_file ''joe''"
proof -
  have r: "read_docker_hub_credentials sample_env sample_disk = Some (''joe'', ''tok'')" by code_simp
  from hub_credentials_are_the_volume[OF r] r show ?thesis by simp
qed

theorem valid_volume_is_applied_witness: "\<exists>d'. process_config_main sample_env sample_disk = (d', 0) \<and> configured sample_input d'"
proof -
  have "case map_of sample_disk registries_yaml of None \<Rightarrow> True
     | Some f \<Rightarrow> strip (vf_content f) = [] \<or> ve_yaml_load sample_env (vf_content f) \<noteq> None" by code_simp
  then show ?thesis
    using sample_input_ok by (intro valid_volume_is_applied[where gid = 7]) (simp_all add: sample_env_def)
qed

end
