(* ===== verification/Nv_Evidence.thy ===== *)
theory Nv_Evidence
  imports Attestation_Service Auth
begin

text \<open>
  The evidence tool of the guest, \<open>nvevidence/chutes_nvevidence/cli.py\<close> and \<open>util.py\<close>, which the attestation
  service starts for every request. NVIDIA's SDK and \<open>json.dumps\<close> are parameters. The lemmas say which nonces it
  accepts, and what the attestation service inherits from that check.
\<close>

section \<open>The tool\<close>

text \<open>\<open>Inl\<close>: the text of the \<open>NonceError\<close>.\<close>

definition validate_nonce :: "string \<Rightarrow> string + string" where
  "validate_nonce raw =
     (let nonce = strip raw in
      if length nonce = 0 then Inl ''Nonce cannot be empty''
      else if length nonce \<noteq> 64 then
        Inl (''Nonce must be exactly 64 hex characters (32 bytes), got '' @ digits_of (length nonce) @
          '' characters. Nonce: '' @ nonce)
      else
        (case from_hex nonce of
           Inl e \<Rightarrow> Inl (''Nonce must contain only hexadecimal characters (0-9, a-f). Error: '' @ exn_str e)
         | Inr bs \<Rightarrow> Inr (lower nonce)))"

text \<open>\<open>not evidence\<close>.\<close>

definition no_evidence :: "json \<Rightarrow> bool" where
  "no_evidence j =
     (case j of
        JNull \<Rightarrow> True | JBool b \<Rightarrow> \<not> b | JNum n \<Rightarrow> n = 0 | JStr s \<Rightarrow> s = [] | JList xs \<Rightarrow> xs = [] | JObj kvs \<Rightarrow> kvs = [])"

record nv_sdk =
  ns_client :: "unit res"
  ns_get_evidence :: "string \<Rightarrow> string \<Rightarrow> json res"
  ns_json_dumps :: "json \<Rightarrow> string res"

text \<open>Exit code and standard output of the command line.\<close>

definition gather_nv_evidence :: "nv_sdk \<Rightarrow> string \<Rightarrow> string \<Rightarrow> int \<times> string" where
  "gather_nv_evidence sdk name nonce =
     (case ns_client sdk of
        Inl e \<Rightarrow> (1, [])
      | Inr u \<Rightarrow>
          (case validate_nonce nonce of
             Inl m \<Rightarrow> (1, [])
           | Inr normalized \<Rightarrow>
               (case ns_get_evidence sdk name nonce of
                  Inl e \<Rightarrow> (1, [])
                | Inr evidence \<Rightarrow>
                    if no_evidence evidence then (1, [])
                    else
                      (case ns_json_dumps sdk evidence of
                         Inl e \<Rightarrow> (1, [])
                       | Inr t \<Rightarrow> (0, t @ [newline])))))"

section \<open>What the check gives the attestation service\<close>

lemma validate_nonce_Inr:
  "validate_nonce raw = Inr m \<longleftrightarrow> length (strip raw) = 64 \<and> (\<exists>bs. from_hex (strip raw) = Inr bs) \<and> m = lower (strip raw)"
  by (auto simp: validate_nonce_def Let_def split: sum.splits)

lemma gather_succeeds:
  "gather_nv_evidence sdk name nonce = (0, out) \<Longrightarrow> \<exists>m. validate_nonce nonce = Inr m"
  by (auto simp: gather_nv_evidence_def split: sum.split_asm if_split_asm)

text \<open>\<open>ae_evidence\<close> is the tool of the repository, for any SDK.\<close>

definition runs_tool :: "attest_env \<Rightarrow> nv_sdk \<Rightarrow> bool" where
  "runs_tool env sdk \<longleftrightarrow>
     (\<forall>name nonce. ae_evidence env [''chutes-nvevidence'', ''--name'', name, ''--nonce'', nonce] =
        Inr (gather_nv_evidence sdk name nonce))"

lemma get_evidence_tool:
  assumes "runs_tool env sdk" "get_evidence env name (Some nonce) ids = Inr evidence"
  obtains m where "validate_nonce nonce = Inr m"
proof (cases name)
  case None
  then show thesis using assms(2) by (simp add: get_evidence_def evidence_command_def)
next
  case (Some n)
  obtain code out where g: "gather_nv_evidence sdk n nonce = (code, out)" by fastforce
  have "code = 0"
    using assms g Some by (auto simp: runs_tool_def get_evidence_def evidence_command_def split: if_split_asm)
  then show thesis using gather_succeeds g that by blast
qed

text \<open>
  With the evidence tool of the repository an answer of the combined route is only given for a nonce of 32 bytes
  in hexadecimal: the tool checks what the service itself does not. Unless white space was added around it, the quote then
  binds all of the nonce and all of the hash of the certificate.
\<close>

theorem attested_nonces_are_32_bytes:
  assumes "attest_route env hostname nonce gpu_ids = Inr (quote_text, evidence)" "runs_tool env sdk"
    "\<forall>d. length (ae_sha256_hex env d) = 64"
  shows "length (strip nonce) = 64 \<and> (\<exists>bs. from_hex (strip nonce) = Inr bs) \<and>
    (strip nonce = nonce \<longrightarrow> (\<exists>h. get_cert_hash env = Inr h \<and> quote_report_data nonce h = nonce @ h \<and>
       ae_quote env (quote_command env (nonce @ h)) = Inr (0, b64decode quote_text)))"
proof -
  obtain quote where q: "get_quote env nonce = Inr quote" "quote_text = b64encode quote"
    and e: "get_evidence env hostname (Some nonce) (normalize_gpu_ids gpu_ids) = Inr evidence"
    using assms(1) unfolding attest_route_Inr by blast
  obtain m where "validate_nonce nonce = Inr m" using get_evidence_tool[OF assms(2) e] .
  then have n: "length (strip nonce) = 64 \<and> (\<exists>bs. from_hex (strip nonce) = Inr bs)"
    by (simp add: validate_nonce_Inr)
  obtain h where h: "get_cert_hash env = Inr h"
    "ae_quote env (quote_command env (quote_report_data nonce h)) = Inr (0, quote)"
    using q(1) unfolding get_quote_Inr by blast
  have "length h = 64" using h(1) assms(3) by (auto simp: get_cert_hash_def split: sum.split_asm)
  then have "quote_report_data nonce h = nonce @ h" if "strip nonce = nonce"
    using that n by (simp add: quote_report_data_def)
  then show ?thesis using n h q(2) by auto
qed

lemma dropWhile_all: "list_all P xs \<Longrightarrow> dropWhile P (xs @ ys) = dropWhile P ys"
  by (induction xs) auto

lemma strip_pad:
  assumes "list_all is_space pad"
  shows "strip (s @ pad) = strip s"
proof (cases "list_all is_space s")
  case True
  then have "dropWhile is_space s = []" "dropWhile is_space (s @ pad) = []"
    using assms unfolding dropWhile_eq_Nil_conv by (auto simp: list_all_iff)
  then show ?thesis by (simp only: strip_def)
next
  case False
  then obtain c where "c \<in> set s" "\<not> is_space c" by (auto simp: list_all_iff)
  then have "dropWhile is_space (s @ pad) = dropWhile is_space s @ pad" by (rule dropWhile_append1)
  moreover have "dropWhile is_space (rev pad @ t) = dropWhile is_space t" for t
    using assms by (intro dropWhile_all) (auto simp: list_all_iff)
  ultimately show ?thesis by (simp add: strip_def)
qed

text \<open>
  The tool strips the nonce before it counts, the service does not: a valid nonce followed by 64 blanks passes the
  check, and the blanks take the place of the certificate's hash in the report data.
\<close>

theorem padded_nonce_drops_the_certificate:
  assumes "validate_nonce nonce = Inr m" "strip nonce = nonce" "list_all is_space pad" "length pad = 64"
  shows "validate_nonce (nonce @ pad) = Inr m \<and> quote_report_data (nonce @ pad) h = nonce @ pad"
  using assms strip_pad[OF assms(3), of nonce] by (auto simp: validate_nonce_Inr quote_report_data_def)

section \<open>Witnesses\<close>

definition sample_sdk :: nv_sdk where
  "sample_sdk = \<lparr>ns_client = Inr (), ns_get_evidence = \<lambda>name nonce. Inr (JList [JStr ''gpu0'']), ns_json_dumps = \<lambda>j. Inr ''[]''\<rparr>"

definition tool_env :: attest_env where
  "tool_env = sample_attest\<lparr>ae_sha256_hex := \<lambda>d. replicate 64 CHR ''b'',
     ae_quote := \<lambda>cmd. Inr (0, ''quote''),
     ae_evidence := \<lambda>cmd. case cmd of [a, b, name, c, nonce] \<Rightarrow> Inr (gather_nv_evidence sample_sdk name nonce) | _ \<Rightarrow> Inl IndexError\<rparr>"

lemma tool_env_attests:
  "attest_route tool_env (Some ''node'') (replicate 64 CHR ''a'') None = Inr (b64encode ''quote'', ''[]'')"
  by code_simp

theorem attested_nonces_are_32_bytes_witness:
  "length (strip (replicate 64 CHR ''a'')) = 64 \<and> (\<exists>bs. from_hex (strip (replicate 64 CHR ''a'')) = Inr bs)"
proof -
  have "runs_tool tool_env sample_sdk" by (simp add: runs_tool_def tool_env_def)
  moreover have "\<forall>d. length (ae_sha256_hex tool_env d) = 64" by (simp add: tool_env_def)
  ultimately show ?thesis using attested_nonces_are_32_bytes[OF tool_env_attests] by blast
qed

theorem padded_nonce_drops_the_certificate_witness:
  "quote_report_data (replicate 64 CHR ''a'' @ replicate 64 CHR '' '') ''hash'' = replicate 64 CHR ''a'' @ replicate 64 CHR '' ''"
proof -
  have v: "validate_nonce (replicate 64 CHR ''a'') = Inr (replicate 64 CHR ''a'')" by code_simp
  have s: "strip (replicate 64 CHR ''a'') = replicate 64 CHR ''a''" "list_all is_space (replicate 64 CHR '' '')"
    by code_simp+
  show ?thesis using padded_nonce_drops_the_certificate[OF v s] by simp
qed

end
