(* ===== verification/Guest_Config.thy ===== *)
theory Guest_Config
  imports Sek8s_Prelude
begin

text \<open>
  The configuration file of a guest, \<open>host-tools/scripts/chutes/guest/config.py\<close>: a YAML file, checked against a
  JSON schema, is printed as shell assignments which \<open>quick-launch.sh\<close> evaluates. The YAML reader and the
  schema checker are parameters. \<open>sh_run\<close> is how a POSIX shell reads a sequence of assignments; whatever the file
  says, the shell assigns exactly the printed variables.
\<close>

section \<open>Quoting\<close>

definition shell_safe :: "char \<Rightarrow> bool" where
  "shell_safe c =
     (let n = (of_char c :: int) in
      (48 \<le> n \<and> n \<le> 57) \<or> (65 \<le> n \<and> n \<le> 90) \<or> (97 \<le> n \<and> n \<le> 122) \<or> c \<in> set ''_@%+=:,./-'')"

definition single_quote :: char where "single_quote = char_of (39::nat)"
definition double_quote :: char where "double_quote = char_of (34::nat)"

definition escape_quote :: "char \<Rightarrow> string" where
  "escape_quote c = (if c = single_quote then [single_quote, double_quote, single_quote, double_quote, single_quote] else [c])"

text \<open>\<open>shlex.quote\<close> on a string.\<close>

definition shlex_quote :: "string \<Rightarrow> string" where
  "shlex_quote s =
     (if s = [] then [single_quote, single_quote]
      else if list_all shell_safe s then s
      else [single_quote] @ concat (map escape_quote s) @ [single_quote])"

definition quote_value :: "json \<Rightarrow> string res" where
  "quote_value j =
     (case j of
        JStr s \<Rightarrow> Inr (shlex_quote s)
      | _ \<Rightarrow> if truthy j then Inl (TypeError ''expected string or bytes-like object'') else Inr (shlex_quote []))"

section \<open>The settings\<close>

datatype var_text = Quoted json | Plain string

record config_env =
  gc_exists :: "string \<Rightarrow> bool"
  gc_load :: "string \<Rightarrow> json res"
  gc_schema_ok :: "string \<Rightarrow> json \<Rightarrow> bool"
  gc_str :: "json \<Rightarrow> string"               \<comment> \<open>\<open>str(value)\<close>\<close>

definition str_value :: "config_env \<Rightarrow> json \<Rightarrow> string" where
  "str_value env j = (case j of JStr s \<Rightarrow> s | _ \<Rightarrow> gc_str env j)"

definition py_or :: "json \<Rightarrow> json \<Rightarrow> json" where
  "py_or a b = (if truthy a then a else b)"

definition exit_if_in :: "string \<Rightarrow> json \<Rightarrow> unit res" where
  "exit_if_in k v = bindR (py_in k v) (\<lambda>b. if b then Inl (RuntimeError ''exit 1'') else Inr ())"

definition bool_text :: "bool \<Rightarrow> string" where
  "bool_text b = (if b then ''true'' else ''false'')"

definition config_vars :: "config_env \<Rightarrow> json \<Rightarrow> (string \<times> var_text) list res" where
  "config_vars env config =
     bindR (py_get config ''vm'' (JObj [])) (\<lambda>vm.
     bindR (py_get vm ''hostname'' (JStr [])) (\<lambda>hostname.
     bindR (py_get vm ''base_image'' (JStr [])) (\<lambda>base_image.
     bindR (py_get vm ''overlay_directory'' (JStr [])) (\<lambda>overlay_directory.
     bindR (py_get config ''miner'' (JObj [])) (\<lambda>miner.
     bindR (py_get miner ''ss58'' (JStr [])) (\<lambda>miner_ss58.
     bindR (py_get miner ''seed'' (JStr [])) (\<lambda>miner_seed.
     bindR (py_get config ''network'' (JObj [])) (\<lambda>network.
     bindR (py_get network ''vm_ip'' (JStr ''192.168.100.2'')) (\<lambda>vm_ip.
     bindR (py_get network ''bridge_ip'' (JStr ''192.168.100.1/24'')) (\<lambda>bridge_ip.
     bindR (py_get network ''dns'' (JStr ''8.8.8.8'')) (\<lambda>vm_dns.
     bindR (py_get network ''public_interface'' (JStr [])) (\<lambda>public_iface.
     bindR (py_get network ''type'' (JStr ''tap'')) (\<lambda>network_type.
     bindR (py_get network ''ssh_port'' (JNum 2222)) (\<lambda>ssh_port.
     bindR (exit_if_in ''advanced'' config) (\<lambda>_.
     bindR (py_get config ''volumes'' (JObj [])) (\<lambda>volumes.
     bindR (py_get volumes ''cache'' (JObj [])) (\<lambda>cache_cfg.
     bindR (exit_if_in ''enabled'' cache_cfg) (\<lambda>_.
     bindR (py_get cache_cfg ''size'' (JStr ''5000G'')) (\<lambda>cache_size.
     bindR (py_get cache_cfg ''path'' (JStr [])) (\<lambda>cache_volume.
     bindR (py_get volumes ''storage'' (JObj [])) (\<lambda>storage_cfg.
     bindR (py_get storage_cfg ''size'' (JStr ''500G'')) (\<lambda>storage_size.
     bindR (py_get storage_cfg ''path'' (JStr [])) (\<lambda>storage_volume.
     bindR (py_get volumes ''config'' (JObj [])) (\<lambda>config_cfg.
     bindR (py_get config_cfg ''path'' (JStr [])) (\<lambda>config_volume.
     bindR (py_get config ''devices'' (JObj [])) (\<lambda>devices.
     bindR (py_get devices ''bind_devices'' (JBool True)) (\<lambda>bind_devices.
     bindR (py_get config ''runtime'' (JObj [])) (\<lambda>runtime.
     bindR (py_get runtime ''foreground'' (JBool False)) (\<lambda>foreground.
     bindR (py_get config ''docker_hub'' JNull) (\<lambda>hub_or_none.
     let docker_hub = (case py_or hub_or_none (JObj []) of JObj kvs \<Rightarrow> JObj kvs | _ \<Rightarrow> JObj []) in
     bindR (py_get docker_hub ''username'' (JStr [])) (\<lambda>username.
     bindR (py_get docker_hub ''token'' (JStr [])) (\<lambda>token.
     Inr [(''HOSTNAME'', Quoted hostname), (''BASE_IMAGE'', Quoted base_image), (''OVERLAY_DIR'', Quoted overlay_directory),
          (''MINER_SS58'', Quoted miner_ss58), (''MINER_SEED'', Quoted miner_seed), (''VM_IP'', Quoted vm_ip),
          (''BRIDGE_IP'', Quoted bridge_ip), (''VM_DNS'', Quoted vm_dns), (''PUBLIC_IFACE'', Quoted public_iface),
          (''NETWORK_TYPE'', Quoted network_type), (''SSH_PORT'', Quoted (JStr (str_value env ssh_port))),
          (''CACHE_SIZE'', Quoted cache_size), (''CACHE_VOLUME'', Quoted cache_volume),
          (''STORAGE_SIZE'', Quoted storage_size), (''STORAGE_VOLUME'', Quoted storage_volume),
          (''CONFIG_VOLUME'', Quoted config_volume), (''SKIP_BIND'', Plain (bool_text (\<not> truthy bind_devices))),
          (''FOREGROUND'', Plain (bool_text (truthy foreground))),
          (''DOCKER_HUB_USERNAME'', Quoted (py_or username (JStr []))), (''DOCKER_HUB_TOKEN'', Quoted (py_or token (JStr [])))]
     ))))))))))))))))))))))))))))))))"

definition var_shell :: "var_text \<Rightarrow> string res" where
  "var_shell v = (case v of Plain s \<Rightarrow> Inr s | Quoted j \<Rightarrow> quote_value j)"

text \<open>The lines that are printed before a value that cannot be quoted ends the program.\<close>

fun print_vars :: "(string \<times> var_text) list \<Rightarrow> nat \<times> string" where
  "print_vars [] = (0, [])"
| "print_vars ((name, v) # vars) =
     (case var_shell v of
        Inl e \<Rightarrow> (1, [])
      | Inr s \<Rightarrow> (case print_vars vars of (code, out) \<Rightarrow> (code, name @ ''='' @ s @ [newline] @ out)))"

definition schema_name :: "bool \<Rightarrow> string" where
  "schema_name benchmark = (if benchmark then ''config-schema.benchmark.json'' else ''config-schema.json'')"

text \<open>Exit code and standard output.\<close>

definition print_config :: "config_env \<Rightarrow> bool \<Rightarrow> string \<Rightarrow> nat \<times> string" where
  "print_config env benchmark config_file =
     (if \<not> gc_exists env config_file then (1, [])
      else
        (case gc_load env config_file of
           Inl e \<Rightarrow> (1, [])
         | Inr config \<Rightarrow>
             if \<not> gc_schema_ok env (schema_name benchmark) config then (1, [])
             else (case config_vars env config of Inl e \<Rightarrow> (1, []) | Inr vars \<Rightarrow> print_vars vars)))"

definition guest_config_main :: "config_env \<Rightarrow> string list \<Rightarrow> nat \<times> string" where
  "guest_config_main env argv =
     (let benchmark = (argv \<noteq> [] \<and> hd argv = ''--benchmark''); args = (if benchmark then tl argv else argv) in
      case args of [config_file] \<Rightarrow> print_config env benchmark config_file | _ \<Rightarrow> (1, []))"

section \<open>How a shell reads assignments\<close>

datatype sh_state =
    InName string
  | Bare string string
  | InSingle string string
  | InDouble string string

definition name_char :: "char \<Rightarrow> bool" where
  "name_char c =
     (let n = (of_char c :: int) in
      (48 \<le> n \<and> n \<le> 57) \<or> (65 \<le> n \<and> n \<le> 90) \<or> (97 \<le> n \<and> n \<le> 122) \<or> n = 95)"

text \<open>
  One assignment per line. Outside quotes only characters without a meaning to the shell are accepted, inside
  double quotes nothing that expands; anything else, in particular a line that is not an assignment,
  is not read: \<open>None\<close>.
\<close>

fun sh_run :: "sh_state \<Rightarrow> (string \<times> string) list \<Rightarrow> string \<Rightarrow> (string \<times> string) list option" where
  "sh_run (InName n) env [] = (if n = [] then Some env else None)"
| "sh_run (Bare n v) env [] = Some (env @ [(n, v)])"
| "sh_run (InSingle n v) env [] = None"
| "sh_run (InDouble n v) env [] = None"
| "sh_run (InName n) env (c # cs) =
     (if c = CHR ''='' \<and> n \<noteq> [] then sh_run (Bare n []) env cs
      else if name_char c then sh_run (InName (n @ [c])) env cs else None)"
| "sh_run (Bare n v) env (c # cs) =
     (if c = newline then sh_run (InName []) (env @ [(n, v)]) cs
      else if c = single_quote then sh_run (InSingle n v) env cs
      else if c = double_quote then sh_run (InDouble n v) env cs
      else if shell_safe c then sh_run (Bare n (v @ [c])) env cs else None)"
| "sh_run (InSingle n v) env (c # cs) =
     (if c = single_quote then sh_run (Bare n v) env cs else sh_run (InSingle n (v @ [c])) env cs)"
| "sh_run (InDouble n v) env (c # cs) =
     (if c = double_quote then sh_run (Bare n v) env cs
      else if c \<in> set ''$`!'' \<or> c = CHR 0x5C then None else sh_run (InDouble n (v @ [c])) env cs)"

definition sh_assignments :: "string \<Rightarrow> (string \<times> string) list option" where
  "sh_assignments t = sh_run (InName []) [] t"

section \<open>Quoting is undone by the shell\<close>

lemma special_chars:
  "\<not> shell_safe newline" "\<not> shell_safe single_quote" "\<not> shell_safe double_quote"
  "single_quote \<noteq> newline" "double_quote \<noteq> newline" "double_quote \<noteq> single_quote"
  "single_quote \<noteq> CHR 0x5C" "single_quote \<notin> set ''$`!''"
  by code_simp+

lemma read_safe: "list_all shell_safe s \<Longrightarrow> sh_run (Bare n v) env (s @ newline # rest) = sh_run (InName []) (env @ [(n, v @ s)]) rest"
proof (induction s arbitrary: v)
  case (Cons c s)
  then have "c \<noteq> newline" "c \<noteq> single_quote" "c \<noteq> double_quote" "shell_safe c" using special_chars by auto
  then show ?case using Cons by simp
qed simp

lemma read_escaped:
  "sh_run (InSingle n v) env (concat (map escape_quote s) @ single_quote # newline # rest) =
   sh_run (InName []) (env @ [(n, v @ s)]) rest"
proof (induction s arbitrary: v)
  case Nil
  then show ?case using special_chars by simp
next
  case (Cons c s)
  show ?case
  proof (cases "c = single_quote")
    case True
    then show ?thesis using Cons special_chars by (simp add: escape_quote_def)
  next
    case False
    then have "escape_quote c = [c]" by (simp add: escape_quote_def)
    then show ?thesis using Cons False by simp
  qed
qed

lemma read_quoted: "sh_run (Bare n []) env (shlex_quote s @ newline # rest) = sh_run (InName []) (env @ [(n, s)]) rest"
proof (cases "s \<noteq> [] \<and> \<not> list_all shell_safe s")
  case True
  then show ?thesis using read_escaped[of n "[]"] special_chars by (simp add: shlex_quote_def)
qed (use read_safe[of s n "[]"] special_chars in \<open>auto simp: shlex_quote_def\<close>)

lemma read_name:
  assumes "list_all name_char name" "n @ name \<noteq> []"
  shows "sh_run (InName n) env (name @ CHR ''='' # rest) = sh_run (Bare (n @ name) []) env rest"
  using assms
proof (induction name arbitrary: n)
  case (Cons c name)
  have "\<not> name_char (CHR ''='')" by code_simp
  then have "c \<noteq> CHR ''=''" using Cons.prems by auto
  then show ?case using Cons by simp
qed simp

definition var_value :: "var_text \<Rightarrow> string" where
  "var_value v = (case v of Plain s \<Rightarrow> s | Quoted (JStr s) \<Rightarrow> s | Quoted j \<Rightarrow> [])"

definition plain_ok :: "var_text \<Rightarrow> bool" where
  "plain_ok v = (case v of Plain s \<Rightarrow> list_all shell_safe s | Quoted j \<Rightarrow> True)"

lemma read_var:
  assumes "var_shell v = Inr s" "plain_ok v"
  shows "sh_run (Bare n []) env (s @ newline # rest) = sh_run (InName []) (env @ [(n, var_value v)]) rest"
proof (cases v)
  case (Plain t)
  then show ?thesis using assms read_safe[of t n "[]"] by (simp add: var_shell_def plain_ok_def var_value_def)
next
  case (Quoted j)
  then have "s = shlex_quote (var_value v)"
    using assms by (auto simp: var_shell_def quote_value_def var_value_def split: json.split_asm if_split_asm)
  then show ?thesis by (simp add: read_quoted)
qed

lemma print_vars_read:
  assumes "print_vars vars = (0, out)" "list_all (\<lambda>(name, v). name \<noteq> [] \<and> list_all name_char name \<and> plain_ok v) vars"
  shows "sh_run (InName []) env out = Some (env @ map (\<lambda>(name, v). (name, var_value v)) vars)"
  using assms
proof (induction vars arbitrary: out env)
  case (Cons nv vars)
  obtain name v where nv: "nv = (name, v)" by fastforce
  obtain s out' where s: "var_shell v = Inr s" and out': "print_vars vars = (0, out')"
    and out: "out = name @ ''='' @ s @ [newline] @ out'"
    using Cons.prems(1) nv by (auto split: sum.split_asm prod.split_asm)
  have ok: "name \<noteq> []" "list_all name_char name" "plain_ok v" using Cons.prems(2) nv by auto
  have "sh_run (InName []) env out = sh_run (Bare name []) env (s @ newline # out')"
    using read_name[of name "[]"] ok out by simp
  then show ?case using read_var[OF s ok(3)] Cons.IH[OF out'] Cons.prems(2) nv by simp
qed simp

definition config_variables :: "string list" where
  "config_variables =
     [''HOSTNAME'', ''BASE_IMAGE'', ''OVERLAY_DIR'', ''MINER_SS58'', ''MINER_SEED'', ''VM_IP'', ''BRIDGE_IP'', ''VM_DNS'',
      ''PUBLIC_IFACE'', ''NETWORK_TYPE'', ''SSH_PORT'', ''CACHE_SIZE'', ''CACHE_VOLUME'', ''STORAGE_SIZE'',
      ''STORAGE_VOLUME'', ''CONFIG_VOLUME'', ''SKIP_BIND'', ''FOREGROUND'', ''DOCKER_HUB_USERNAME'', ''DOCKER_HUB_TOKEN'']"

lemma config_variables_named: "list_all (\<lambda>n. n \<noteq> [] \<and> list_all name_char n) config_variables"
  by code_simp

lemma bool_text_safe: "list_all shell_safe (bool_text b)"
  by (cases b) (simp_all only:, code_simp+)

lemma config_vars_shape:
  assumes "config_vars env config = Inr vars"
  shows "map fst vars = config_variables \<and> list_all (\<lambda>(name, v). plain_ok v) vars"
  using assms
  by (auto simp: config_vars_def bindR_Inr_iff Let_def config_variables_def plain_ok_def bool_text_safe)

text \<open>
  C25: When the program succeeds, the shell that evaluates its output assigns the listed variables, in this order and
  no others, each to the text of its setting: no value can end its assignment early, start a command or expand.
\<close>

theorem shell_reads_exactly_the_config:
  assumes "guest_config_main env argv = (0, out)"
  shows "\<exists>config_file benchmark config vars.
    gc_load env config_file = Inr config \<and> gc_schema_ok env (schema_name benchmark) config \<and>
    config_vars env config = Inr vars \<and> map fst vars = config_variables \<and>
    sh_assignments out = Some (map (\<lambda>(name, v). (name, var_value v)) vars)"
proof -
  from assms obtain config_file benchmark config vars where c: "gc_load env config_file = Inr config"
    "gc_schema_ok env (schema_name benchmark) config" "config_vars env config = Inr vars" and out: "print_vars vars = (0, out)"
    by (auto simp: guest_config_main_def print_config_def Let_def split: list.split_asm if_split_asm sum.split_asm)
  have n: "map fst vars = config_variables" and p: "list_all (\<lambda>(name, v). plain_ok v) vars"
    using config_vars_shape[OF c(3)] by auto
  have "list_all (\<lambda>n. n \<noteq> [] \<and> list_all name_char n) (map fst vars)" using config_variables_named n by simp
  then have "list_all (\<lambda>(name, v). name \<noteq> [] \<and> list_all name_char name \<and> plain_ok v) vars"
    using p by (auto simp: list_all_iff)
  from print_vars_read[OF out this, of "[]"] show ?thesis using c n by (auto simp: sh_assignments_def)
qed

section \<open>A typed configuration is printed\<close>

definition str_fields :: "json \<Rightarrow> string list \<Rightarrow> bool" where
  "str_fields j ks =
     (case j of
        JObj kvs \<Rightarrow> list_all (\<lambda>k. case map_of kvs k of None \<Rightarrow> True | Some (JStr s) \<Rightarrow> True | _ \<Rightarrow> False) ks
      | _ \<Rightarrow> False)"

definition section_of :: "json \<Rightarrow> string \<Rightarrow> json" where
  "section_of j k = (case j of JObj kvs \<Rightarrow> (case map_of kvs k of None \<Rightarrow> JObj [] | Some x \<Rightarrow> x) | _ \<Rightarrow> JNull)"

text \<open>The types the schema asks for.\<close>

definition typed_config :: "json \<Rightarrow> bool" where
  "typed_config config \<longleftrightarrow>
     str_fields config [''advanced''] \<and> py_in ''advanced'' config = Inr False \<and>
     str_fields (section_of config ''vm'') [''hostname'', ''base_image'', ''overlay_directory''] \<and>
     str_fields (section_of config ''miner'') [''ss58'', ''seed''] \<and>
     str_fields (section_of config ''network'') [''vm_ip'', ''bridge_ip'', ''dns'', ''public_interface'', ''type''] \<and>
     str_fields (section_of config ''volumes'') [] \<and>
     str_fields (section_of (section_of config ''volumes'') ''cache'') [''size'', ''path''] \<and>
     py_in ''enabled'' (section_of (section_of config ''volumes'') ''cache'') = Inr False \<and>
     str_fields (section_of (section_of config ''volumes'') ''storage'') [''size'', ''path''] \<and>
     str_fields (section_of (section_of config ''volumes'') ''config'') [''path''] \<and>
     str_fields (section_of config ''devices'') [] \<and> str_fields (section_of config ''runtime'') [] \<and>
     (section_of config ''docker_hub'' = JNull \<or> str_fields (section_of config ''docker_hub'') [''username'', ''token''])"

lemma str_field:
  assumes "str_fields j ks" "k \<in> set ks"
  shows "\<exists>s. py_get j k (JStr d) = Inr (JStr s)"
proof -
  obtain kvs where j: "j = JObj kvs" using assms(1) by (cases j) (simp_all add: str_fields_def)
  then have "case map_of kvs k of None \<Rightarrow> True | Some (JStr s) \<Rightarrow> True | _ \<Rightarrow> False"
    using assms by (simp add: str_fields_def list_all_iff)
  then show ?thesis
  proof (cases "map_of kvs k")
    case (Some v)
    then show ?thesis using \<open>case map_of kvs k of None \<Rightarrow> True | Some (JStr s) \<Rightarrow> True | _ \<Rightarrow> False\<close> j by (cases v) simp_all
  qed (simp add: j)
qed

lemma section_got: "str_fields j ks \<Longrightarrow> py_get j k (JObj []) = Inr (section_of j k)"
  by (cases j) (simp_all add: str_fields_def section_of_def)

lemma any_field: "str_fields j ks \<Longrightarrow> \<exists>v. py_get j k d = Inr v"
  by (cases j) (simp_all add: str_fields_def)

lemma typed_config_vars:
  assumes "typed_config config"
  obtains vars where "config_vars env config = Inr vars"
    "list_all (\<lambda>(name, v). case v of Quoted (JStr s) \<Rightarrow> True | Plain s \<Rightarrow> True | _ \<Rightarrow> False) vars"
proof -
  define vm where "vm = section_of config ''vm''"
  define miner where "miner = section_of config ''miner''"
  define network where "network = section_of config ''network''"
  define volumes where "volumes = section_of config ''volumes''"
  define cache where "cache = section_of volumes ''cache''"
  define storage where "storage = section_of volumes ''storage''"
  define cfg where "cfg = section_of volumes ''config''"
  define devices where "devices = section_of config ''devices''"
  define runtime where "runtime = section_of config ''runtime''"
  note t = assms[unfolded typed_config_def, folded vm_def miner_def network_def volumes_def, folded cache_def storage_def cfg_def devices_def runtime_def]
  have c: "str_fields config [''advanced'']" and adv: "py_in ''advanced'' config = Inr False" using t by auto
  note sections = section_got[OF c, of "''vm''", folded vm_def] section_got[OF c, of "''miner''", folded miner_def]
    section_got[OF c, of "''network''", folded network_def] section_got[OF c, of "''volumes''", folded volumes_def]
    section_got[OF c, of "''devices''", folded devices_def] section_got[OF c, of "''runtime''", folded runtime_def]
  have vols: "str_fields volumes []" using t by auto
  note vol_sections = section_got[OF vols, of "''cache''", folded cache_def] section_got[OF vols, of "''storage''", folded storage_def]
    section_got[OF vols, of "''config''", folded cfg_def]
  have f: "str_fields vm [''hostname'', ''base_image'', ''overlay_directory'']" "str_fields miner [''ss58'', ''seed'']"
    "str_fields network [''vm_ip'', ''bridge_ip'', ''dns'', ''public_interface'', ''type'']" "str_fields cache [''size'', ''path'']"
    "str_fields storage [''size'', ''path'']" "str_fields cfg [''path'']" "str_fields devices []" "str_fields runtime []"
    "py_in ''enabled'' cache = Inr False"
    using t by auto
  obtain v1 v2 v3 where vm: "py_get vm ''hostname'' (JStr []) = Inr (JStr v1)" "py_get vm ''base_image'' (JStr []) = Inr (JStr v2)"
    "py_get vm ''overlay_directory'' (JStr []) = Inr (JStr v3)"
    using str_field[OF f(1)] by (metis list.set_intros)
  obtain m1 m2 where miner: "py_get miner ''ss58'' (JStr []) = Inr (JStr m1)" "py_get miner ''seed'' (JStr []) = Inr (JStr m2)"
    using str_field[OF f(2)] by (metis list.set_intros)
  obtain n1 n2 n3 n4 n5 where net: "py_get network ''vm_ip'' (JStr ''192.168.100.2'') = Inr (JStr n1)"
    "py_get network ''bridge_ip'' (JStr ''192.168.100.1/24'') = Inr (JStr n2)" "py_get network ''dns'' (JStr ''8.8.8.8'') = Inr (JStr n3)"
    "py_get network ''public_interface'' (JStr []) = Inr (JStr n4)" "py_get network ''type'' (JStr ''tap'') = Inr (JStr n5)"
    using str_field[OF f(3)] by (metis list.set_intros)
  obtain port where port: "py_get network ''ssh_port'' (JNum 2222) = Inr port" using any_field[OF f(3)] by blast
  obtain c1 c2 where cache: "py_get cache ''size'' (JStr ''5000G'') = Inr (JStr c1)" "py_get cache ''path'' (JStr []) = Inr (JStr c2)"
    using str_field[OF f(4)] by (metis list.set_intros)
  obtain s1 s2 where storage: "py_get storage ''size'' (JStr ''500G'') = Inr (JStr s1)" "py_get storage ''path'' (JStr []) = Inr (JStr s2)"
    using str_field[OF f(5)] by (metis list.set_intros)
  obtain p1 where cfg: "py_get cfg ''path'' (JStr []) = Inr (JStr p1)" using str_field[OF f(6)] by (metis list.set_intros(1))
  obtain b where bind: "py_get devices ''bind_devices'' (JBool True) = Inr b" using any_field[OF f(7)] by blast
  obtain fg where fg: "py_get runtime ''foreground'' (JBool False) = Inr fg" using any_field[OF f(8)] by blast
  obtain hub where hub: "py_get config ''docker_hub'' JNull = Inr hub" using any_field[OF c] by blast
  define dh where "dh = (case py_or hub (JObj []) of JObj kvs \<Rightarrow> JObj kvs | _ \<Rightarrow> JObj [])"
  have "hub = JNull \<or> str_fields hub [''username'', ''token'']"
  proof (cases config)
    case (JObj kvs)
    then show ?thesis using t hub by (auto simp: section_of_def split: option.split_asm)
  qed (use c in \<open>simp_all add: str_fields_def\<close>)
  then have dh: "str_fields dh [''username'', ''token'']"
    by (cases hub) (auto simp: dh_def py_or_def str_fields_def)
  obtain h1 h2 where hubs: "py_get dh ''username'' (JStr []) = Inr (JStr h1)" "py_get dh ''token'' (JStr []) = Inr (JStr h2)"
    using str_field[OF dh] by (metis list.set_intros)
  have strs: "py_or (JStr x) (JStr []) = JStr x" for x by (simp add: py_or_def)
  show thesis
    by (rule that, unfold config_vars_def exit_if_in_def,
        simp add: sections vol_sections vm miner net port cache storage cfg bind fg hub hubs adv f(9) dh_def[symmetric] strs)
       simp
qed

text \<open>
  A configuration that passes the schema and has the types the schema asks for is printed: the program exits with 0.
\<close>

theorem typed_config_is_printed:
  assumes "gc_exists env config_file" "gc_load env config_file = Inr config" "typed_config config"
    "gc_schema_ok env (schema_name benchmark) config"
  shows "fst (print_config env benchmark config_file) = 0"
proof -
  obtain vars where vars: "config_vars env config = Inr vars"
    "list_all (\<lambda>(name, v). case v of Quoted (JStr s) \<Rightarrow> True | Plain s \<Rightarrow> True | _ \<Rightarrow> False) vars"
    using typed_config_vars[OF assms(3)] .
  have "fst (print_vars vars) = 0"
    using vars(2) by (induction vars rule: print_vars.induct)
      (auto simp: var_shell_def quote_value_def split: var_text.split_asm json.split_asm prod.splits)
  then show ?thesis using assms vars(1) by (simp add: print_config_def)
qed

section \<open>Witnesses\<close>

definition sample_guest_config :: json where
  "sample_guest_config = JObj
     [(''vm'', JObj [(''hostname'', JStr ''it's; rm -rf $HOME'')]), (''miner'', JObj [(''ss58'', JStr ''5F''), (''seed'', JStr [newline])]),
      (''network'', JObj []), (''volumes'', JObj [(''cache'', JObj [(''size'', JStr ''1T'')])]), (''docker_hub'', JNull)]"

definition sample_config_env :: config_env where
  "sample_config_env = \<lparr>gc_exists = \<lambda>f. True, gc_load = \<lambda>f. Inr sample_guest_config, gc_schema_ok = \<lambda>n c. True, gc_str = \<lambda>j. ''2222''\<rparr>"

definition sample_config_out :: string where
  "sample_config_out = snd (guest_config_main sample_config_env [''--benchmark'', ''c.yaml''])"

lemma sample_config_runs: "guest_config_main sample_config_env [''--benchmark'', ''c.yaml''] = (0, sample_config_out)"
proof -
  have "fst (guest_config_main sample_config_env [''--benchmark'', ''c.yaml'']) = 0" by code_simp
  then show ?thesis unfolding sample_config_out_def by (metis prod.collapse)
qed

theorem shell_reads_exactly_the_config_witness:
  "(\<exists>kvs. sh_assignments sample_config_out = Some kvs \<and> map fst kvs = config_variables) \<and>
   map_option hd (sh_assignments sample_config_out) = Some (''HOSTNAME'', ''it's; rm -rf $HOME'')"
proof
  obtain vars where "map fst vars = config_variables"
    "sh_assignments sample_config_out = Some (map (\<lambda>(name, v). (name, var_value v)) vars)"
    using shell_reads_exactly_the_config[OF sample_config_runs] by blast
  then show "\<exists>kvs. sh_assignments sample_config_out = Some kvs \<and> map fst kvs = config_variables"
    by (intro exI[of _ "map (\<lambda>(name, v). (name, var_value v)) vars"]) (auto simp: comp_def case_prod_beta)
qed code_simp

theorem typed_config_is_printed_witness: "fst (print_config sample_config_env False ''c.yaml'') = 0"
proof -
  have "typed_config sample_guest_config" by code_simp
  then show ?thesis
    by (intro typed_config_is_printed[where config = sample_guest_config]) (simp_all add: sample_config_env_def)
qed

end
