(* ===== verification/Guest_Network.thy ===== *)
theory Guest_Network
  imports Sek8s_Prelude "HOL-Library.Word"
begin

unbundle bit_operations_syntax

text \<open>
  The network of the guest bridge: \<open>ansible/host/roles/chutes_vm_config/files/pick_guest_network.py\<close> picks a /24 that no network of the
  host overlaps, \<open>derive_cidr_net.py\<close> derives the two addresses from a given block. Addresses are 32-bit words,
  networks a word and a prefix length, as in Python's \<open>ipaddress\<close>. What \<open>ip -j\<close> prints and IPv6 texts
  are parameters.
\<close>

section \<open>IPv4 addresses and networks\<close>

type_synonym ipv4 = "32 word"

record ip_net =
  net_address :: ipv4
  net_prefix :: nat

definition netmask :: "nat \<Rightarrow> ipv4" where
  "netmask p = NOT (mask (32 - p))"

definition broadcast :: "ip_net \<Rightarrow> ipv4" where
  "broadcast n = net_address n OR mask (32 - net_prefix n)"

text \<open>\<open>address in network\<close>.\<close>

definition in_net :: "ipv4 \<Rightarrow> ip_net \<Rightarrow> bool" where
  "in_net w n \<longleftrightarrow> w AND netmask (net_prefix n) = net_address n"

definition overlaps :: "ip_net \<Rightarrow> ip_net \<Rightarrow> bool" where
  "overlaps n m \<longleftrightarrow> in_net (net_address m) n \<or> in_net (broadcast m) n \<or> in_net (net_address n) m \<or> in_net (broadcast n) m"

text \<open>Four decimal numbers below 256, at most three digits each and without leading zeros.\<close>

definition octet :: "string \<Rightarrow> nat option" where
  "octet s =
     (if s = [] \<or> \<not> list_all is_digit s \<or> 3 < length s \<or> (1 < length s \<and> hd s = CHR ''0'') \<or> 255 < digits_value s
      then None else Some (digits_value s))"

definition word_of_octets :: "nat \<Rightarrow> nat \<Rightarrow> nat \<Rightarrow> nat \<Rightarrow> ipv4" where
  "word_of_octets a b c d =
     ((word_of_nat a * 256 + word_of_nat b) * 256 + word_of_nat c) * 256 + word_of_nat d"

definition parse_ipv4 :: "string \<Rightarrow> ipv4 option" where
  "parse_ipv4 s =
     (case map octet (split_on (CHR ''.'') s) of
        [Some a, Some b, Some c, Some d] \<Rightarrow> Some (word_of_octets a b c d)
      | _ \<Rightarrow> None)"

definition print_ipv4 :: "ipv4 \<Rightarrow> string" where
  "print_ipv4 w =
     (let n = uint w in
      join_with ''.'' (map (\<lambda>i. digits_of (nat i)) [n div 16777216, n div 65536 mod 256, n div 256 mod 256, n mod 256]))"

text \<open>The part after the slash: a prefix length, a netmask or a host mask.\<close>

definition parse_prefix :: "string \<Rightarrow> nat option" where
  "parse_prefix s =
     (if s \<noteq> [] \<and> list_all is_digit s then (if digits_value s \<le> 32 then Some (digits_value s) else None)
      else
        (case parse_ipv4 s of
           None \<Rightarrow> None
         | Some w \<Rightarrow>
             (case find (\<lambda>p. netmask p = w) [0..<33] of
                Some p \<Rightarrow> Some p
              | None \<Rightarrow> find (\<lambda>p. netmask p = NOT w) [0..<33])))"

text \<open>\<open>ip_interface(s).network\<close> and \<open>ip_network(s, strict=False)\<close>.\<close>

definition parse_net :: "string \<Rightarrow> ip_net option" where
  "parse_net s =
     (case (case split_on (CHR ''/'') s of
              [a] \<Rightarrow> map_option (\<lambda>w. (w, 32)) (parse_ipv4 a)
            | [a, p] \<Rightarrow> Option.bind (parse_ipv4 a) (\<lambda>w. map_option (\<lambda>n. (w, n)) (parse_prefix p))
            | _ \<Rightarrow> None) of
        None \<Rightarrow> None
      | Some (w, p) \<Rightarrow> Some \<lparr>net_address = w AND netmask p, net_prefix = p\<rparr>)"

section \<open>Picking a network\<close>

record host_view =
  hv_addr :: "json res"              \<comment> \<open>\<open>ip -j addr\<close>\<close>
  hv_route :: "json res"             \<comment> \<open>\<open>ip -j route show default\<close>\<close>
  hv_str :: "json \<Rightarrow> string"         \<comment> \<open>\<open>str(value)\<close> of a value that is no string\<close>
  hv_is_ipv6 :: "string \<Rightarrow> bool"    \<comment> \<open>whether \<open>ip_interface\<close> reads a text as IPv6\<close>

definition text_of :: "host_view \<Rightarrow> json \<Rightarrow> string" where
  "text_of h j = (case j of JStr s \<Rightarrow> s | _ \<Rightarrow> hv_str h j)"

text \<open>The network of one entry of \<open>addr_info\<close>; an IPv6 network is in nobody's way: \<open>None\<close>.\<close>

definition entry_net :: "host_view \<Rightarrow> json \<Rightarrow> ip_net option res" where
  "entry_net h a =
     bindR (py_get a ''family'' JNull) (\<lambda>family.
     if family \<noteq> JStr ''inet'' then Inr None
     else
       bindR (py_get a ''local'' JNull) (\<lambda>local.
       bindR (py_get a ''prefixlen'' JNull) (\<lambda>plen.
       if \<not> truthy local \<or> plen = JNull then Inr None
       else
         (let t = text_of h local @ ''/'' @ text_of h plen in
          case parse_net t of
            Some n \<Rightarrow> Inr (Some n)
          | None \<Rightarrow> if hv_is_ipv6 h t then Inr None else Inl (ValueError ''does not appear to be an IPv4 or IPv6 interface'')))))"

definition iface_nets :: "host_view \<Rightarrow> json \<Rightarrow> ip_net list res" where
  "iface_nets h iface =
     bindR (py_get iface ''addr_info'' (JList [])) (\<lambda>info.
     bindR (py_iter info) (\<lambda>entries.
     bindR (mapM (entry_net h) entries) (\<lambda>nets.
     Inr (List.map_filter (\<lambda>n. n) nets))))"

definition host_ipv4_networks :: "host_view \<Rightarrow> ip_net list res" where
  "host_ipv4_networks h =
     bindR (hv_addr h) (\<lambda>addr.
     bindR (py_iter addr) (\<lambda>ifaces.
     bindR (mapM (iface_nets h) ifaces) (\<lambda>nets.
     Inr (concat nets))))"

fun has_inet :: "json list \<Rightarrow> bool res" where
  "has_inet [] = Inr False"
| "has_inet (a # as) =
     bindR (py_get a ''family'' JNull) (\<lambda>family. if family = JStr ''inet'' then Inr True else has_inet as)"

fun first_inet_interface :: "host_view \<Rightarrow> json list \<Rightarrow> string option res" where
  "first_inet_interface h [] = Inr None"
| "first_inet_interface h (iface # ifaces) =
     bindR (py_get iface ''ifname'' (JStr [])) (\<lambda>name.
     if \<not> truthy name \<or> name = JStr ''lo'' then first_inet_interface h ifaces
     else
       bindR (py_get iface ''addr_info'' (JList [])) (\<lambda>info.
       bindR (py_iter info) (\<lambda>entries.
       bindR (has_inet entries) (\<lambda>b.
       if b then Inr (Some (text_of h name)) else first_inet_interface h ifaces))))"

text \<open>The device of the first default route; a failing command or unreadable output does not count.\<close>

definition default_route_device :: "host_view \<Rightarrow> string option res" where
  "default_route_device h =
     (case bindR (hv_route h) (\<lambda>routes.
           case routes of
             JList (r # rs) \<Rightarrow> bindR (py_get r ''dev'' JNull) (\<lambda>dev. Inr (if truthy dev then Some (text_of h dev) else None))
           | _ \<Rightarrow> Inr None) of
        Inl (CalledProcessError m) \<Rightarrow> Inr None
      | Inl JSONDecodeError \<Rightarrow> Inr None
      | Inl (KeyError k) \<Rightarrow> Inr None
      | r \<Rightarrow> r)"

definition default_public_interface :: "host_view \<Rightarrow> string option res" where
  "default_public_interface h =
     bindR (default_route_device h) (\<lambda>dev.
     case dev of
       Some d \<Rightarrow> Inr (Some d)
     | None \<Rightarrow> bindR (hv_addr h) (\<lambda>addr. bindR (py_iter addr) (first_inet_interface h)))"

definition candidate_networks :: "ip_net list" where
  "candidate_networks =
     map (\<lambda>third. \<lparr>net_address = word_of_octets 192 168 third 0, net_prefix = 24\<rparr>) [100..<200] @
     map (\<lambda>second. \<lparr>net_address = word_of_octets 10 second 0 0, net_prefix = 24\<rparr>) [200..<240]"

definition pick_internal :: "ip_net list \<Rightarrow> ip_net option" where
  "pick_internal host_nets = find (\<lambda>cand. \<not> list_ex (overlaps cand) host_nets) candidate_networks"

record guest_network =
  gn_public_interface :: string
  gn_vm_ip :: string
  gn_bridge_ip :: string

text \<open>The printed result; \<open>Inl\<close>: an error, or exit with status 1.\<close>

definition pick_network_main :: "host_view \<Rightarrow> guest_network res" where
  "pick_network_main h =
     bindR (host_ipv4_networks h) (\<lambda>host_nets.
     bindR (default_public_interface h) (\<lambda>public_if.
     case public_if of
       None \<Rightarrow> Inl (RuntimeError ''exit 1'')
     | Some dev \<Rightarrow>
         if dev = [] then Inl (RuntimeError ''exit 1'')
         else
           (case pick_internal host_nets of
              None \<Rightarrow> Inl (RuntimeError ''exit 1'')
            | Some internal \<Rightarrow>
                Inr \<lparr>gn_public_interface = dev, gn_vm_ip = print_ipv4 (net_address internal + 2),
                  gn_bridge_ip = print_ipv4 (net_address internal + 1) @ ''/24''\<rparr>)))"

text \<open>\<open>address + k\<close> raises past the last address.\<close>

definition add_address :: "ipv4 \<Rightarrow> nat \<Rightarrow> ipv4 res" where
  "add_address w k =
     (if uint w + int k < 4294967296 then Inr (w + word_of_nat k) else Inl (ValueError ''is not a valid IPv4 address''))"

text \<open>The addresses of the guest and of the bridge. What is no IPv4 block is left to \<open>v6\<close>: IPv6 or an error.\<close>

definition derive_cidr :: "(string \<Rightarrow> (string \<times> string) res) \<Rightarrow> string list \<Rightarrow> (string \<times> string) res" where
  "derive_cidr v6 args =
     (let cidr = (case args of [] \<Rightarrow> [] | a # as \<Rightarrow> a) in
      if cidr = [] then Inl (RuntimeError ''exit 1'')
      else
        (case parse_net cidr of
           None \<Rightarrow> v6 cidr
         | Some n \<Rightarrow>
             bindR (add_address (net_address n) 2) (\<lambda>vm.
             bindR (add_address (net_address n) 1) (\<lambda>bridge.
             Inr (print_ipv4 vm, print_ipv4 bridge @ ''/'' @ digits_of (net_prefix n))))))"

section \<open>Networks as sets of addresses\<close>

definition net_ok :: "ip_net \<Rightarrow> bool" where
  "net_ok n \<longleftrightarrow> net_address n AND netmask (net_prefix n) = net_address n"

lemma netmask_nested: "p \<le> q \<Longrightarrow> netmask q AND netmask p = netmask p"
  by (rule bit_word_eqI) (auto simp: netmask_def bit_simps)

lemma in_net_network: "net_ok n \<Longrightarrow> in_net (net_address n) n"
  by (simp add: net_ok_def in_net_def)

lemma in_net_nested:
  assumes "net_prefix n \<le> net_prefix m" "in_net w n" "in_net w m"
  shows "in_net (net_address m) n"
proof -
  have "net_address m AND netmask (net_prefix n) = w AND (netmask (net_prefix m) AND netmask (net_prefix n))"
    using assms(3) by (simp add: in_net_def flip: and.assoc)
  then show ?thesis using assms(2) netmask_nested[OF assms(1)] by (simp add: in_net_def)
qed

lemma in_net_broadcast: "net_ok n \<Longrightarrow> in_net (broadcast n) n"
  unfolding net_ok_def in_net_def broadcast_def netmask_def
  by (metis (no_types, lifting) and.commute and.assoc bit.conj_cancel_right bit.conj_disj_distrib or.right_neutral and_zero_eq)

lemma overlaps_iff:
  assumes "net_ok n" "net_ok m"
  shows "overlaps n m \<longleftrightarrow> (\<exists>w. in_net w n \<and> in_net w m)"
proof
  show "\<exists>w. in_net w n \<and> in_net w m" if "overlaps n m"
    using that in_net_network[OF assms(1)] in_net_network[OF assms(2)] in_net_broadcast[OF assms(1)] in_net_broadcast[OF assms(2)]
    unfolding overlaps_def by blast
  show "overlaps n m" if "\<exists>w. in_net w n \<and> in_net w m"
    using that in_net_nested[of n m] in_net_nested[of m n] unfolding overlaps_def by (metis nle_le)
qed

lemma parse_net_ok: "parse_net s = Some n \<Longrightarrow> net_ok n"
  by (auto simp: parse_net_def net_ok_def and.assoc split: option.split_asm)

section \<open>Printing and reading addresses\<close>

lemma hd_digits: "0 < n \<Longrightarrow> hd (digits_of n) \<noteq> CHR ''0''"
proof (induction n rule: digits_of.induct)
  case (1 n)
  have "char_of (48 + n) \<noteq> CHR ''0''" if "n < 10"
  proof
    assume "char_of (48 + n) = CHR ''0''"
    then have "of_char (char_of (48 + n) :: char) = (of_char (CHR ''0'') :: nat)" by simp
    then show False using that 1(2) by simp
  qed
  then show ?case using 1 by (subst digits_of.simps) (auto simp: hd_append)
qed

lemma length_digits:
  "n < 10 \<Longrightarrow> length (digits_of n) = 1" "10 \<le> n \<Longrightarrow> n < 100 \<Longrightarrow> length (digits_of n) = 2"
  "100 \<le> n \<Longrightarrow> n < 1000 \<Longrightarrow> length (digits_of n) = 3"
  by (simp_all add: digits_of.simps[of n] digits_of.simps[of "n div 10"] digits_of.simps[of "n div 10 div 10"])
     arith

lemma octet_digits:
  assumes "n < 256"
  shows "octet (digits_of n) = Some n"
proof -
  have "length (digits_of n) \<le> 3" using length_digits[of n] assms by linarith
  moreover have "\<not> (1 < length (digits_of n) \<and> hd (digits_of n) = CHR ''0'')"
    using hd_digits[of n] length_digits(1)[of n] by (cases "n = 0") auto
  ultimately show ?thesis using assms digits_of_digits[of n] by (simp add: octet_def)
qed

lemma no_point: "CHR ''.'' \<notin> set (digits_of n)"
proof -
  have "\<not> is_digit (CHR ''.'')" by code_simp
  then show ?thesis using digits_of_digits[of n] by (auto simp: list_all_iff)
qed

lemma octets_of_nat:
  fixes n :: nat
  shows "((n div 16777216 * 256 + n div 65536 mod 256) * 256 + n div 256 mod 256) * 256 + n mod 256 = n"
proof -
  have "n div 65536 = n div 256 div 256" "n div 16777216 = n div 256 div 256 div 256" by (simp_all add: div_mult2_eq[symmetric])
  then show ?thesis by (simp add: div_mult_mod_eq)
qed

lemma word_of_octets_nat: "word_of_octets a b c d = word_of_nat (((a * 256 + b) * 256 + c) * 256 + d)"
  by (simp add: word_of_octets_def algebra_simps)

lemma print_ipv4_nat:
  "print_ipv4 w = (let n = unat w in join_with ''.'' (map digits_of [n div 16777216, n div 65536 mod 256, n div 256 mod 256, n mod 256]))"
proof -
  have "uint w = int (unat w)" by simp
  moreover have "nat (int n div k) = n div nat k" "nat (int n mod k) = n mod nat k" if "0 < k" for n k
    using that by (simp_all add: nat_div_distrib nat_mod_distrib)
  moreover have "nat (int n div k mod k') = n div nat k mod nat k'" if "0 < k" "0 < k'" for n k k'
    using that by (simp add: nat_div_distrib nat_mod_distrib pos_imp_zdiv_nonneg_iff)
  ultimately show ?thesis by (simp add: print_ipv4_def Let_def del: of_nat_unat)
qed

lemma parse_print_ipv4 [simp]: "parse_ipv4 (print_ipv4 w) = Some w"
proof -
  define n where "n = unat w"
  have "unat w < 2 ^ LENGTH(32)" by (rule unsigned_less)
  then have n: "n < 4294967296" by (simp add: n_def)
  then have "n div 16777216 < 256" by linarith
  then have o: "octet (digits_of (n div 16777216)) = Some (n div 16777216)"
    "octet (digits_of (n div 65536 mod 256)) = Some (n div 65536 mod 256)"
    "octet (digits_of (n div 256 mod 256)) = Some (n div 256 mod 256)" "octet (digits_of (n mod 256)) = Some (n mod 256)"
    using octet_digits by simp_all
  have "split_on (CHR ''.'') (print_ipv4 w) =
      [digits_of (n div 16777216), digits_of (n div 65536 mod 256), digits_of (n div 256 mod 256), digits_of (n mod 256)]"
    unfolding print_ipv4_nat Let_def n_def[symmetric] by (simp add: split_on_append_sep no_point)
  moreover have "word_of_octets (n div 16777216) (n div 65536 mod 256) (n div 256 mod 256) (n mod 256) = w"
    unfolding word_of_octets_nat octets_of_nat by (simp add: n_def)
  ultimately show ?thesis by (simp add: parse_ipv4_def o)
qed

section \<open>Adding a small number to a network address\<close>

lemma net_low: "a AND netmask p = a \<longleftrightarrow> a AND mask (32 - p) = 0"
  by (auto simp: netmask_def bit_eq_iff bit_simps)

lemma add_low:
  assumes "a AND netmask p = a" "i AND netmask p = 0"
  shows "(a + i) AND netmask p = a"
proof -
  have "a AND i = 0"
    using assms by (auto simp: bit_eq_iff bit_simps)
  then have "a + i = a OR i" by (rule disjunctive_add_eq_or)
  then show ?thesis using assms by (simp add: bit.conj_disj_distrib2)
qed

lemma bit_two: "bit (2 :: ipv4) n \<longleftrightarrow> n = 1"
  using bit_exp_iff[of 1 n, where 'a = "32 word"] by auto

lemma small_low:
  assumes "p \<le> 30"
  shows "(1 :: ipv4) AND netmask p = 0" "(2 :: ipv4) AND netmask p = 0"
  using assms by (intro bit_word_eqI; auto simp: netmask_def bit_two bit_simps)+

lemma next_addresses:
  assumes "net_ok n" "net_prefix n \<le> 30"
  shows "in_net (net_address n + 1) n" "in_net (net_address n + 2) n"
  using assms add_low small_low unfolding net_ok_def in_net_def by blast+

section \<open>The candidates\<close>

lemma candidate_low: "word_of_octets a b c 0 AND netmask 24 = word_of_octets a b c 0"
proof -
  have "((a * 256 + b) * 256 + c) * 256 + 0 = push_bit 8 ((a * 256 + b) * 256 + c)" by (simp add: push_bit_eq_mult)
  then have "word_of_octets a b c 0 = word_of_nat (push_bit 8 ((a * 256 + b) * 256 + c))" by (simp only: word_of_octets_nat)
  then have "word_of_octets a b c 0 AND mask 8 = 0" by (intro bit_word_eqI) (auto simp: bit_of_nat_iff bit_simps)
  then show ?thesis by (simp add: net_low)
qed

lemma candidates_ok:
  assumes "c \<in> set candidate_networks"
  shows "net_ok c \<and> net_prefix c = 24 \<and> in_net (net_address c + 1) c \<and> in_net (net_address c + 2) c"
proof -
  have "net_ok c \<and> net_prefix c = 24" using assms by (auto simp: candidate_networks_def net_ok_def candidate_low)
  then show ?thesis using next_addresses[of c] by simp
qed

section \<open>What is picked\<close>

lemma entry_net_parsed: "okR (\<lambda>opt. \<forall>n. opt = Some n \<longrightarrow> net_ok n) (entry_net h a)"
  unfolding entry_net_def Let_def
  by (intro okR_intros) (auto dest: parse_net_ok split: option.split)

lemma entry_net_ok: "entry_net h a = Inr (Some n) \<Longrightarrow> net_ok n"
  using okRD[OF entry_net_parsed] by blast

lemma host_nets_ok:
  assumes "host_ipv4_networks h = Inr nets" "n \<in> set nets"
  shows "net_ok n"
proof -
  from assms obtain ifaces nss where nss: "mapM (iface_nets h) ifaces = Inr nss" "nets = concat nss"
    by (auto simp: host_ipv4_networks_def bindR_Inr_iff)
  with assms(2) obtain ns where ns: "ns \<in> set nss" "n \<in> set ns" by auto
  from mapM_Inr_set[OF nss(1) ns(1)] obtain iface where "iface_nets h iface = Inr ns" by blast
  then obtain entries opts where "mapM (entry_net h) entries = Inr opts" "ns = List.map_filter (\<lambda>n. n) opts"
    by (auto simp: iface_nets_def bindR_Inr_iff)
  then obtain a where "entry_net h a = Inr (Some n)"
    using mapM_Inr_set ns(2) by (fastforce simp: map_filter_def)
  then show ?thesis by (rule entry_net_ok)
qed

lemma pick_internal_Some:
  assumes "pick_internal nets = Some c"
  shows "c \<in> set candidate_networks \<and> (\<forall>n \<in> set nets. \<not> overlaps c n)"
  using assms unfolding pick_internal_def find_Some_iff by (auto simp: list_ex_iff in_set_conv_nth)

text \<open>
  C27: The addresses of the guest and of the bridge are read back from the printed texts, they lie in one of the candidate
  blocks, and no address of that block belongs to any IPv4 network of the host.
\<close>

theorem picked_network_is_free:
  assumes "pick_network_main h = Inr g"
  shows "\<exists>nets c vm bridge. host_ipv4_networks h = Inr nets \<and> c \<in> set candidate_networks \<and>
    parse_ipv4 (gn_vm_ip g) = Some vm \<and> gn_bridge_ip g = print_ipv4 bridge @ ''/24'' \<and>
    in_net vm c \<and> in_net bridge c \<and> vm \<noteq> bridge \<and> vm \<noteq> net_address c \<and> bridge \<noteq> net_address c \<and>
    (\<forall>n \<in> set nets. \<forall>w. in_net w c \<longrightarrow> \<not> in_net w n)"
proof -
  from assms obtain nets dev where nets: "host_ipv4_networks h = Inr nets" and dev: "default_public_interface h = Inr dev"
    and g: "(case dev of None \<Rightarrow> Inl (RuntimeError ''exit 1'') | Some d \<Rightarrow>
      if d = [] then Inl (RuntimeError ''exit 1'')
      else (case pick_internal nets of None \<Rightarrow> Inl (RuntimeError ''exit 1'')
        | Some internal \<Rightarrow> Inr \<lparr>gn_public_interface = d, gn_vm_ip = print_ipv4 (net_address internal + 2),
            gn_bridge_ip = print_ipv4 (net_address internal + 1) @ ''/24''\<rparr>)) = Inr g"
    unfolding pick_network_main_def by (elim bindR_InrE)
  from g obtain d where d: "dev = Some d" "d \<noteq> []" by (cases dev) (auto split: if_split_asm)
  from g d obtain c where c: "pick_internal nets = Some c" and vm: "gn_vm_ip g = print_ipv4 (net_address c + 2)"
    and bridge: "gn_bridge_ip g = print_ipv4 (net_address c + 1) @ ''/24''"
    by (cases "pick_internal nets") auto
  have cand: "c \<in> set candidate_networks" and free: "\<forall>n \<in> set nets. \<not> overlaps c n"
    using pick_internal_Some[OF c] by auto
  have "\<forall>n \<in> set nets. \<forall>w. in_net w c \<longrightarrow> \<not> in_net w n"
    using free overlaps_iff[of c] host_nets_ok[OF nets] candidates_ok[OF cand] by blast
  then show ?thesis using nets cand vm bridge candidates_ok[OF cand]
    by (intro exI[of _ nets] exI[of _ c] exI[of _ "net_address c + 2"] exI[of _ "net_address c + 1"]) simp
qed

text \<open>The search gives up only when every candidate block shares an address with a network of the host.\<close>

theorem pick_fails_only_when_full:
  assumes "host_ipv4_networks h = Inr nets"
  shows "pick_internal nets = None \<longleftrightarrow>
    (\<forall>c \<in> set candidate_networks. \<exists>n \<in> set nets. \<exists>w. in_net w c \<and> in_net w n)"
proof -
  have "pick_internal nets = None \<longleftrightarrow> (\<forall>c \<in> set candidate_networks. \<exists>n \<in> set nets. overlaps c n)"
    by (auto simp: pick_internal_def find_None_iff list_ex_iff)
  then show ?thesis using overlaps_iff host_nets_ok[OF assms] candidates_ok by blast
qed

section \<open>Deriving the addresses from a block\<close>

lemma add_address_Inr: "add_address w k = Inr v \<Longrightarrow> v = w + word_of_nat k"
  by (simp add: add_address_def split: if_split_asm)

lemma vm_outside_small_blocks:
  assumes "net_ok n" "net_prefix n \<le> 32" "30 < net_prefix n"
  shows "\<not> in_net (net_address n + 2) n"
proof
  assume "in_net (net_address n + 2) n"
  have p: "net_prefix n = 31 \<or> net_prefix n = 32" using assms by linarith
  have low: "net_address n AND netmask (net_prefix n) = net_address n" using assms(1) by (simp add: net_ok_def)
  have "(net_address n + 2) AND netmask (net_prefix n) = net_address n + 2"
  proof (cases "net_prefix n = 31")
    case True
    then have "net_address n AND 1 = 0" using low unfolding net_low by simp
    then have "(net_address n + 2) AND 1 = 0" by (simp add: and_one_eq mod_2_eq_odd)
    then show ?thesis using True unfolding net_low by simp
  qed (use p in \<open>simp add: netmask_def\<close>)
  then show False using \<open>in_net (net_address n + 2) n\<close> by (simp add: in_net_def)
qed

lemma parse_net_prefix:
  assumes "parse_net s = Some n"
  shows "net_prefix n \<le> 32"
proof -
  have "p \<le> 32" if "parse_prefix t = Some p" for t p
    using that by (auto simp: parse_prefix_def find_Some_iff split: if_split_asm option.split_asm)
  then show ?thesis using assms
    by (auto simp: parse_net_def split: option.split_asm list.split_asm bind_splits)
qed

text \<open>
  The bridge gets the first address after the network address and the guest the second, printed so that they are read
  back; both belong to the block exactly when its prefix is at most 30. For a /31 or /32 the script prints a guest
  address outside the block.
\<close>

theorem derived_addresses_in_block:
  assumes "derive_cidr v6 [cidr] = Inr (vm, bridge)" "parse_net cidr = Some n" "cidr \<noteq> []"
  shows "\<exists>v b. parse_ipv4 vm = Some v \<and> bridge = print_ipv4 b @ ''/'' @ digits_of (net_prefix n) \<and>
    v = net_address n + 2 \<and> b = net_address n + 1 \<and> (in_net v n \<and> in_net b n \<longleftrightarrow> net_prefix n \<le> 30)"
proof -
  from assms have v: "vm = print_ipv4 (net_address n + 2)"
    "bridge = print_ipv4 (net_address n + 1) @ ''/'' @ digits_of (net_prefix n)"
    by (auto simp: derive_cidr_def bindR_Inr_iff dest!: add_address_Inr)
  have "in_net (net_address n + 2) n \<and> in_net (net_address n + 1) n \<longleftrightarrow> net_prefix n \<le> 30"
  proof
    show "net_prefix n \<le> 30" if "in_net (net_address n + 2) n \<and> in_net (net_address n + 1) n"
      using that vm_outside_small_blocks[OF parse_net_ok[OF assms(2)] parse_net_prefix[OF assms(2)]]
      by (meson not_le)
    show "in_net (net_address n + 2) n \<and> in_net (net_address n + 1) n" if "net_prefix n \<le> 30"
      using next_addresses[OF parse_net_ok[OF assms(2)] that] by simp
  qed
  then show ?thesis using v by (intro exI[of _ "net_address n + 2"] exI[of _ "net_address n + 1"]) simp
qed

section \<open>Witnesses\<close>

definition sample_view :: host_view where
  "sample_view =
     \<lparr>hv_addr = Inr (JList
        [JObj [(''ifname'', JStr ''lo''), (''addr_info'', JList [JObj [(''family'', JStr ''inet''), (''local'', JStr ''127.0.0.1''), (''prefixlen'', JNum 8)]])],
         JObj [(''ifname'', JStr ''eth0''), (''addr_info'', JList
           [JObj [(''family'', JStr ''inet''), (''local'', JStr ''192.168.100.7''), (''prefixlen'', JNum 22)], JObj [(''family'', JStr ''inet6'')]])]]),
      hv_route = Inl (CalledProcessError ''ip''), hv_str = (\<lambda>j. if j = JNum 8 then ''8'' else ''22''), hv_is_ipv6 = (\<lambda>t. False)\<rparr>"

lemma sample_view_nets: "host_ipv4_networks sample_view =
    Inr [\<lparr>net_address = 2130706432, net_prefix = 8\<rparr>, \<lparr>net_address = 3232261120, net_prefix = 22\<rparr>]"
  by code_simp

lemma sample_view_picks: "pick_network_main sample_view =
    Inr \<lparr>gn_public_interface = ''eth0'', gn_vm_ip = ''192.168.104.2'', gn_bridge_ip = ''192.168.104.1/24''\<rparr>"
  by code_simp

theorem picked_network_is_free_witness:
  "\<exists>nets c. host_ipv4_networks sample_view = Inr nets \<and> c \<in> set candidate_networks \<and> in_net (net_address c) c"
proof -
  obtain nets c where "host_ipv4_networks sample_view = Inr nets" "c \<in> set candidate_networks"
    using picked_network_is_free[OF sample_view_picks] by blast
  then show ?thesis using candidates_ok in_net_network by blast
qed

theorem pick_fails_only_when_full_witness:
  "pick_internal [\<lparr>net_address = 2130706432, net_prefix = 8\<rparr>, \<lparr>net_address = 3232261120, net_prefix = 22\<rparr>] \<noteq> None"
proof -
  have "\<lparr>net_address = word_of_octets 10 200 0 0, net_prefix = 24\<rparr> \<in> set candidate_networks"
    by (auto simp: candidate_networks_def)
  moreover have "\<not> overlaps \<lparr>net_address = word_of_octets 10 200 0 0, net_prefix = 24\<rparr> \<lparr>net_address = 2130706432, net_prefix = 8\<rparr>"
    "\<not> overlaps \<lparr>net_address = word_of_octets 10 200 0 0, net_prefix = 24\<rparr> \<lparr>net_address = 3232261120, net_prefix = 22\<rparr>"
    by code_simp+
  ultimately show ?thesis
    using pick_fails_only_when_full[OF sample_view_nets] overlaps_iff host_nets_ok[OF sample_view_nets] candidates_ok
    by (auto simp del: not_None_eq)
qed

theorem derived_addresses_in_block_witness:
  "derive_cidr (\<lambda>t. Inl IndexError) [''10.1.2.3/31''] = Inr (''10.1.2.4'', ''10.1.2.3/31'') \<and>
   (\<exists>v. parse_ipv4 ''10.1.2.4'' = Some v \<and> \<not> in_net v \<lparr>net_address = 167838210, net_prefix = 31\<rparr>)"
proof -
  have d: "derive_cidr (\<lambda>t. Inl IndexError) [''10.1.2.3/31''] = Inr (''10.1.2.4'', ''10.1.2.3/31'')" by code_simp
  have n: "parse_net ''10.1.2.3/31'' = Some \<lparr>net_address = 167838210, net_prefix = 31\<rparr>" by code_simp
  obtain v b where v: "parse_ipv4 ''10.1.2.4'' = Some v" "b = (167838210 :: ipv4) + 1"
    "in_net v \<lparr>net_address = 167838210, net_prefix = 31\<rparr> \<and> in_net b \<lparr>net_address = 167838210, net_prefix = 31\<rparr> \<longleftrightarrow> False"
    using derived_addresses_in_block[OF d n] by auto
  have "in_net (167838210 + 1) \<lparr>net_address = 167838210, net_prefix = 31\<rparr>" by code_simp
  then show ?thesis using d v by auto
qed

end
