(* ===== verification/Luks_Setup.thy ===== *)
theory Luks_Setup
  imports Sek8s_Prelude
begin

text \<open>
  The disk encryption helper of the benchmark guest, \<open>ansible/guest/roles/benchmark/files/luks-setup.py\<close>. A program
  is a function of the history of events; commands and questions are answered by the environment from that
  history in any way. Text shown on the terminal is left out, except that the passphrase was shown. The lemmas say what
  has happened before anything on a disk changes, and in which order it changes.
\<close>

section \<open>Programs\<close>

datatype luks_event =
    Query "string list"                         \<comment> \<open>a command that only reads\<close>
  | Change "string list" "string option"        \<comment> \<open>a command that must succeed, with its standard input\<close>
  | MakeDir string
  | ShowPassphrase
  | Confirm string bool

datatype luks_stop = Exit nat | Abort | Raised exn

record luks_env =
  le_euid :: int
  le_exists :: "luks_event list \<Rightarrow> string \<Rightarrow> bool"
  le_block :: "string \<Rightarrow> bool"
  le_symlink :: "string \<Rightarrow> bool"
  le_realpath :: "string \<Rightarrow> string"
  le_run :: "luks_event list \<Rightarrow> string list \<Rightarrow> int \<times> string"     \<comment> \<open>exit code and output\<close>
  le_confirm :: "luks_event list \<Rightarrow> string \<Rightarrow> bool"
  le_mkdir_error :: "luks_event list \<Rightarrow> exn option"
  le_passphrase :: string

type_synonym 'a luks = "luks_event list \<Rightarrow> luks_event list \<times> (luks_stop + 'a)"

definition retL :: "'a \<Rightarrow> 'a luks" where
  "retL x h = (h, Inr x)"

definition stopL :: "luks_stop \<Rightarrow> 'a luks" where
  "stopL e h = (h, Inl e)"

definition bindL :: "'a luks \<Rightarrow> ('a \<Rightarrow> 'b luks) \<Rightarrow> 'b luks" where
  "bindL m f h = (case m h of (h', Inl e) \<Rightarrow> (h', Inl e) | (h', Inr x) \<Rightarrow> f x h')"

definition query :: "luks_env \<Rightarrow> string list \<Rightarrow> (int \<times> string) luks" where
  "query env cmd h = (h @ [Query cmd], Inr (le_run env h cmd))"

text \<open>\<open>_run\<close>, and \<open>subprocess.run\<close> with \<open>check=True\<close>.\<close>

definition run_luks :: "luks_env \<Rightarrow> string list \<Rightarrow> string option \<Rightarrow> unit luks" where
  "run_luks env cmd stdin h =
     (h @ [Change cmd stdin],
      if fst (le_run env h cmd) = 0 then Inr () else Inl (Raised (CalledProcessError ''returned non-zero exit status'')))"

definition confirm :: "luks_env \<Rightarrow> string \<Rightarrow> bool luks" where
  "confirm env msg h = (h @ [Confirm msg (le_confirm env h msg)], Inr (le_confirm env h msg))"

definition make_dir :: "luks_env \<Rightarrow> string \<Rightarrow> unit luks" where
  "make_dir env path h = (h @ [MakeDir path], case le_mkdir_error env h of None \<Rightarrow> Inr () | Some e \<Rightarrow> Inl (Raised e))"

definition show_passphrase :: "unit luks" where
  "show_passphrase h = (h @ [ShowPassphrase], Inr ())"

section \<open>The device\<close>

definition by_label_path :: string where
  "by_label_path = ''/dev/disk/by-label/storage''"

text \<open>The first virtio disk that is not the configuration volume.\<close>

fun first_disk :: "luks_env \<Rightarrow> string \<Rightarrow> string list \<Rightarrow> string option" where
  "first_disk env config_dev [] = None"
| "first_disk env config_dev (dev # devs) =
     (if \<not> le_block env dev then first_disk env config_dev devs
      else if config_dev \<noteq> [] \<and> le_realpath env dev = le_realpath env config_dev then first_disk env config_dev devs
      else Some dev)"

definition find_storage_device :: "luks_env \<Rightarrow> string option luks" where
  "find_storage_device env =
     (if le_symlink env by_label_path then retL (Some (le_realpath env by_label_path))
      else
        bindL (query env [''blkid'', ''-l'', ''-o'', ''device'', ''-t'', ''LABEL=tdx-config'']) (\<lambda>(code, out).
        retL (first_disk env (strip out) [''/dev/vdb'', ''/dev/vdc'', ''/dev/vdd'', ''/dev/vde''])))"

text \<open>\<open>_require_root\<close> and \<open>_require_block_device\<close>, after the device has been found.\<close>

definition require_device :: "luks_env \<Rightarrow> string option \<Rightarrow> string luks" where
  "require_device env device =
     bindL (case device of Some d \<Rightarrow> retL (Some d) | None \<Rightarrow> find_storage_device env) (\<lambda>found.
     case found of
       None \<Rightarrow> stopL (Exit 1)
     | Some d \<Rightarrow>
         if le_euid env \<noteq> 0 then stopL (Exit 1)
         else (\<lambda>h. if \<not> le_exists env h d then (h, Inl (Exit 1)) else if \<not> le_block env d then (h, Inl (Exit 1)) else (h, Inr d)))"

definition get_mount_point :: "luks_env \<Rightarrow> string \<Rightarrow> string option luks" where
  "get_mount_point env device =
     bindL (query env [''findmnt'', ''-n'', ''-o'', ''TARGET'', ''--source'', le_realpath env device]) (\<lambda>(code, out).
     retL (if strip out = [] then None else Some (strip out)))"

definition unmount_if_needed :: "luks_env \<Rightarrow> string \<Rightarrow> unit luks" where
  "unmount_if_needed env device =
     bindL (get_mount_point env device) (\<lambda>mount.
     case mount of None \<Rightarrow> retL () | Some m \<Rightarrow> run_luks env [''umount'', m] None)"

definition get_device_uuid :: "luks_env \<Rightarrow> string \<Rightarrow> string luks" where
  "get_device_uuid env device =
     bindL (query env [''blkid'', ''-s'', ''UUID'', ''-o'', ''value'', device]) (\<lambda>(code, out).
     if code \<noteq> 0 then stopL (Raised (CalledProcessError ''returned non-zero exit status''))
     else if strip out = [] then stopL (Raised (RuntimeError ''Could not determine UUID''))
     else retL (strip out))"

definition default_mount :: string where
  "default_mount = ''/data''"

section \<open>\<open>setup\<close>\<close>

record luks_args =
  la_device :: "string option"
  la_mount_point :: "string option"
  la_label :: string
  la_dm_name :: string
  la_fs :: string
  la_yes :: bool

record luks_plan =
  lp_device :: string
  lp_mount_point :: string
  lp_label :: string
  lp_dm_name :: string
  lp_fs :: string

definition saved_question :: string where
  "saved_question = ''I have saved the passphrase and am ready to proceed''"

definition device_has_data :: "luks_env \<Rightarrow> string \<Rightarrow> bool luks" where
  "device_has_data env device = bindL (query env [''blkid'', device]) (\<lambda>(code, out). retL (strip out \<noteq> []))"

text \<open>The questions: whether existing data may go, and whether the passphrase has been saved.\<close>

definition ask_approval :: "luks_env \<Rightarrow> bool \<Rightarrow> string \<Rightarrow> unit luks" where
  "ask_approval env yes device =
     bindL (device_has_data env device) (\<lambda>has_data.
     bindL (if has_data \<and> \<not> yes then confirm env ''Continue?'' else retL True) (\<lambda>go.
     if \<not> go then stopL (Exit 0)
     else
       bindL show_passphrase (\<lambda>_.
       bindL (confirm env saved_question) (\<lambda>saved.
       if \<not> saved then stopL Abort else retL ()))))"

text \<open>Everything before the first destructive step.\<close>

definition prepare_setup :: "luks_env \<Rightarrow> luks_args \<Rightarrow> luks_plan luks" where
  "prepare_setup env args =
     bindL (require_device env (la_device args)) (\<lambda>device.
     if la_fs args \<noteq> ''xfs'' \<and> la_fs args \<noteq> ''ext4'' then stopL (Exit 1)
     else
       bindL (ask_approval env (la_yes args) device) (\<lambda>_.
       retL \<lparr>lp_device = device,
         lp_mount_point = (case la_mount_point args of None \<Rightarrow> default_mount | Some m \<Rightarrow> m), lp_label = la_label args,
         lp_dm_name = (if la_dm_name args = [] then la_label args else la_dm_name args), lp_fs = la_fs args\<rparr>))"

definition mapper_dev :: "string \<Rightarrow> string" where
  "mapper_dev dm_name = ''/dev/mapper/'' @ dm_name"

definition execute_setup :: "luks_env \<Rightarrow> luks_plan \<Rightarrow> string luks" where
  "execute_setup env p =
     bindL (unmount_if_needed env (lp_device p)) (\<lambda>_.
     bindL (run_luks env [''wipefs'', ''-a'', lp_device p] None) (\<lambda>_.
     bindL (run_luks env [''cryptsetup'', ''luksFormat'', ''--type'', ''luks2'', ''--label'', lp_label p, ''--batch-mode'',
              ''--key-file=-'', lp_device p] (Some (le_passphrase env))) (\<lambda>_.
     bindL (run_luks env [''cryptsetup'', ''luksOpen'', ''--key-file=-'', lp_device p, lp_dm_name p] (Some (le_passphrase env))) (\<lambda>_.
     bindL (if lp_fs p = ''xfs'' then run_luks env [''mkfs.xfs'', ''-L'', lp_label p, mapper_dev (lp_dm_name p)] None
            else run_luks env [''mkfs.ext4'', ''-L'', lp_label p, mapper_dev (lp_dm_name p)] None) (\<lambda>_.
     bindL (make_dir env (lp_mount_point p)) (\<lambda>_.
     bindL (run_luks env [''mount'', mapper_dev (lp_dm_name p), lp_mount_point p] None) (\<lambda>_.
     get_device_uuid env (lp_device p))))))))"

definition luks_setup :: "luks_env \<Rightarrow> luks_args \<Rightarrow> string luks" where
  "luks_setup env args = bindL (prepare_setup env args) (execute_setup env)"

section \<open>\<open>open\<close>\<close>

definition is_luks :: "luks_env \<Rightarrow> string \<Rightarrow> bool luks" where
  "is_luks env device = bindL (query env [''cryptsetup'', ''isLuks'', device]) (\<lambda>(code, out). retL (code = 0))"

definition unlock_and_mount :: "luks_env \<Rightarrow> string \<Rightarrow> string \<Rightarrow> string \<Rightarrow> string list \<Rightarrow> unit luks" where
  "unlock_and_mount env device dm mount key_args =
     bindL (\<lambda>h. if le_exists env h (mapper_dev dm) then retL () h
                else run_luks env ([''cryptsetup'', ''luksOpen'', device, dm] @ key_args) None h) (\<lambda>_.
     bindL (make_dir env mount) (\<lambda>_.
     run_luks env [''mount'', mapper_dev dm, mount] None))"

definition luks_open :: "luks_env \<Rightarrow> string option \<Rightarrow> string option \<Rightarrow> string \<Rightarrow> string \<Rightarrow> unit luks" where
  "luks_open env device mount_point dm_arg key_file =
     bindL (require_device env device) (\<lambda>d.
     bindL (is_luks env d) (\<lambda>luks.
     if \<not> luks then stopL (Exit 1)
     else unlock_and_mount env d (if dm_arg = [] then path_name d else dm_arg)
            (case mount_point of None \<Rightarrow> default_mount | Some m \<Rightarrow> m)
            (if key_file = [] then [] else [''--key-file'', key_file])))"

section \<open>Traces\<close>

definition is_change :: "luks_event \<Rightarrow> bool" where
  "is_change e = (case e of Change c i \<Rightarrow> True | _ \<Rightarrow> False)"

abbreviation changes :: "luks_event list \<Rightarrow> luks_event list" where
  "changes h \<equiv> filter is_change h"

text \<open>A program that adds to the history, whose changes are a beginning of \<open>cs\<close>, and all of \<open>cs\<close> when it returns.\<close>

definition makes :: "luks_event list \<Rightarrow> 'a luks \<Rightarrow> bool" where
  "makes cs m \<longleftrightarrow> (\<forall>h h' r. m h = (h', r) \<longrightarrow>
     prefix h h' \<and> (\<exists>done_cs. changes h' = changes h @ done_cs \<and> prefix done_cs cs \<and> (\<forall>x. r = Inr x \<longrightarrow> done_cs = cs)))"

lemma makes_bind:
  assumes "makes cs m" "\<And>x. makes ds (f x)"
  shows "makes (cs @ ds) (bindL m f)"
  unfolding makes_def
proof (intro allI impI)
  fix h h' r
  assume b: "bindL m f h = (h', r)"
  obtain h1 r1 where m: "m h = (h1, r1)" by fastforce
  obtain d1 where d1: "prefix h h1" "changes h1 = changes h @ d1" "prefix d1 cs" "\<And>x. r1 = Inr x \<Longrightarrow> d1 = cs"
    using assms(1) m unfolding makes_def by blast
  show "prefix h h' \<and> (\<exists>d. changes h' = changes h @ d \<and> prefix d (cs @ ds) \<and> (\<forall>x. r = Inr x \<longrightarrow> d = cs @ ds))"
  proof (cases r1)
    case (Inl e)
    then show ?thesis using b m d1 by (auto simp: bindL_def)
  next
    case (Inr x)
    then have "f x h1 = (h', r)" using b m by (simp add: bindL_def)
    then obtain d2 where "prefix h1 h'" "changes h' = changes h1 @ d2" "prefix d2 ds" "\<And>y. r = Inr y \<Longrightarrow> d2 = ds"
      using assms(2)[of x] unfolding makes_def by blast
    then show ?thesis using d1 Inr prefix_order.trans[of h h1 h'] by auto
  qed
qed

lemma makes_run: "makes [Change cmd i] (run_luks env cmd i)"
  by (auto simp: makes_def run_luks_def is_change_def)

lemma makes_query: "makes [] (query env cmd)"
  by (auto simp: makes_def query_def is_change_def)

lemma makes_ret: "makes [] (retL x)"
  by (auto simp: makes_def retL_def)

lemma makes_stop: "makes [] (stopL e)"
  by (auto simp: makes_def stopL_def)

lemma makes_dir: "makes [] (make_dir env p)"
  by (auto simp: makes_def make_dir_def is_change_def)

lemma makes_confirm: "makes [] (confirm env q)"
  by (auto simp: makes_def confirm_def is_change_def)

lemma makes_show: "makes [] show_passphrase"
  by (auto simp: makes_def show_passphrase_def is_change_def)

lemmas makes_basic = makes_run makes_query makes_ret makes_stop makes_dir makes_confirm makes_show

lemma makes_bind_nil: "makes [] m \<Longrightarrow> (\<And>x. makes cs (f x)) \<Longrightarrow> makes cs (bindL m f)"
  using makes_bind[of "[]" m cs f] by simp

lemma makes_bind_one: "makes [c] m \<Longrightarrow> (\<And>x. makes cs (f x)) \<Longrightarrow> makes (c # cs) (bindL m f)"
  using makes_bind[of "[c]" m cs f] by simp

lemma makes_at: "(\<And>h. makes cs (m h)) \<Longrightarrow> makes cs (\<lambda>h. m h h)"
  unfolding makes_def by blast

lemma makes_if: "(b \<Longrightarrow> makes cs m) \<Longrightarrow> (\<not> b \<Longrightarrow> makes cs n) \<Longrightarrow> makes cs (if b then m else n)"
  by simp

lemma makes_require: "makes [] (require_device env device)"
proof -
  have "makes [] (find_storage_device env)"
    unfolding find_storage_device_def by (auto intro!: makes_if makes_bind_nil makes_basic split: prod.split)
  then have found: "makes [] (case device of Some d \<Rightarrow> retL (Some d) | None \<Rightarrow> find_storage_device env)"
    by (auto intro: makes_basic split: option.split)
  show ?thesis unfolding require_device_def
    by (rule makes_bind_nil[OF found], auto split: option.split intro: makes_basic) (simp add: makes_def)
qed

lemma makes_ask: "makes [] (ask_approval env yes device)"
  unfolding ask_approval_def device_has_data_def
  by (intro makes_bind_nil) (auto intro!: makes_if makes_bind_nil makes_basic split: prod.split)

lemma makes_prepare: "makes [] (prepare_setup env args)"
  unfolding prepare_setup_def by (intro makes_bind_nil makes_require makes_if makes_ask makes_basic)

section \<open>What \<open>setup\<close> does\<close>

definition setup_steps :: "string \<Rightarrow> luks_plan \<Rightarrow> luks_event list" where
  "setup_steps passphrase p =
     [Change [''wipefs'', ''-a'', lp_device p] None,
      Change [''cryptsetup'', ''luksFormat'', ''--type'', ''luks2'', ''--label'', lp_label p, ''--batch-mode'', ''--key-file=-'', lp_device p]
        (Some passphrase),
      Change [''cryptsetup'', ''luksOpen'', ''--key-file=-'', lp_device p, lp_dm_name p] (Some passphrase),
      Change [if lp_fs p = ''xfs'' then ''mkfs.xfs'' else ''mkfs.ext4'', ''-L'', lp_label p, mapper_dev (lp_dm_name p)] None,
      Change [''mount'', mapper_dev (lp_dm_name p), lp_mount_point p] None]"

definition approved :: "luks_env \<Rightarrow> luks_args \<Rightarrow> luks_event list \<Rightarrow> luks_plan \<Rightarrow> bool" where
  "approved env args h p \<longleftrightarrow>
     le_euid env = 0 \<and> le_block env (lp_device p) \<and> (lp_fs p = ''xfs'' \<or> lp_fs p = ''ext4'') \<and>
     ShowPassphrase \<in> set h \<and> last h = Confirm saved_question True \<and>
     (la_yes args \<or> Confirm ''Continue?'' True \<in> set h \<or>
      (\<exists>h0. prefix (h0 @ [Query [''blkid'', lp_device p]]) h \<and> strip (snd (le_run env h0 [''blkid'', lp_device p])) = []))"

lemma bindL_step: "m h = (h1, Inr x) \<Longrightarrow> bindL m f h = f x h1"
  by (simp add: bindL_def)

lemma bindL_Inr:
  "bindL m f h = (h', Inr y) \<longleftrightarrow> (\<exists>h1 x. m h = (h1, Inr x) \<and> f x h1 = (h', Inr y))"
  by (auto simp: bindL_def split: prod.split sum.split)

lemma require_device_Inr:
  assumes "require_device env device h = (h', Inr d)"
  shows "le_euid env = 0 \<and> le_block env d"
proof -
  obtain h1 found where f: "(case found of None \<Rightarrow> stopL (Exit 1)
     | Some d \<Rightarrow>
         if le_euid env \<noteq> 0 then stopL (Exit 1)
         else (\<lambda>h. if \<not> le_exists env h d then (h, Inl (Exit 1)) else if \<not> le_block env d then (h, Inl (Exit 1)) else (h, Inr d))) h1
     = (h', Inr d)"
    using assms unfolding require_device_def bindL_Inr by blast
  then obtain x where x: "found = Some x" by (cases found) (simp_all add: stopL_def)
  have r: "le_euid env = 0" using f x by (cases "le_euid env = 0") (simp_all add: stopL_def)
  show ?thesis using f x r by (cases "le_exists env h1 x"; cases "le_block env x") simp_all
qed

lemma ask_approval_Inr:
  assumes "ask_approval env yes d h = (h', Inr u)"
  shows "ShowPassphrase \<in> set h' \<and> last h' = Confirm saved_question True \<and>
    (yes \<or> Confirm ''Continue?'' True \<in> set h' \<or>
     (\<exists>h0. prefix (h0 @ [Query [''blkid'', d]]) h' \<and> strip (snd (le_run env h0 [''blkid'', d])) = []))"
proof -
  define h2 where "h2 = h @ [Query [''blkid'', d]]"
  define has where "has \<longleftrightarrow> strip (snd (le_run env h [''blkid'', d])) \<noteq> []"
  have q: "device_has_data env d h = (h2, Inr has)"
    by (simp add: device_has_data_def bindL_def query_def retL_def h2_def has_def split: prod.split)
  obtain h3 go where c: "(if has \<and> \<not> yes then confirm env ''Continue?'' else retL True) h2 = (h3, Inr go)"
    and tail: "(if \<not> go then stopL (Exit 0)
       else bindL show_passphrase (\<lambda>_. bindL (confirm env saved_question) (\<lambda>saved.
         if \<not> saved then stopL Abort else retL ()))) h3 = (h', Inr u)"
    using assms unfolding ask_approval_def bindL_Inr[of "device_has_data env d"] q by (auto simp: bindL_Inr)
  have go: "go" using tail by (auto simp: stopL_def split: if_split_asm)
  have h': "h' = h3 @ [ShowPassphrase, Confirm saved_question True]"
    using tail go by (auto simp: bindL_def show_passphrase_def confirm_def stopL_def retL_def split: if_split_asm)
  have "yes \<or> Confirm ''Continue?'' True \<in> set h3 \<or> (\<not> has \<and> h3 = h2)"
    using c go by (cases "has \<and> \<not> yes") (auto simp: confirm_def retL_def)
  moreover have "prefix (h @ [Query [''blkid'', d]]) h'" if "h3 = h2" using that by (simp add: h' h2_def)
  ultimately show ?thesis unfolding h' has_def by auto
qed

lemma prepare_approved:
  assumes "prepare_setup env args h = (h', Inr p)"
  shows "approved env args h' p"
proof -
  obtain h1 d where d: "require_device env (la_device args) h = (h1, Inr d)"
    and rest: "(if la_fs args \<noteq> ''xfs'' \<and> la_fs args \<noteq> ''ext4'' then stopL (Exit 1)
      else bindL (ask_approval env (la_yes args) d) (\<lambda>_. retL \<lparr>lp_device = d,
         lp_mount_point = (case la_mount_point args of None \<Rightarrow> default_mount | Some m \<Rightarrow> m), lp_label = la_label args,
         lp_dm_name = (if la_dm_name args = [] then la_label args else la_dm_name args), lp_fs = la_fs args\<rparr>)) h1 = (h', Inr p)"
    using assms unfolding prepare_setup_def bindL_Inr[of "require_device env (la_device args)"] by blast
  have fs: "la_fs args = ''xfs'' \<or> la_fs args = ''ext4''"
  proof (rule ccontr)
    assume "\<not> (la_fs args = ''xfs'' \<or> la_fs args = ''ext4'')"
    then show False using rest by (simp add: stopL_def)
  qed
  then obtain u where a: "ask_approval env (la_yes args) d h1 = (h', Inr u)" and p: "lp_device p = d" "lp_fs p = la_fs args"
    using rest by (auto simp: bindL_Inr retL_def simp del: char.inject)
  show ?thesis using require_device_Inr[OF d] fs p ask_approval_Inr[OF a] unfolding approved_def by simp
qed

lemma makes_steps:
  "makes (setup_steps (le_passphrase env) p)
     (bindL (run_luks env [''wipefs'', ''-a'', lp_device p] None) (\<lambda>_.
     bindL (run_luks env [''cryptsetup'', ''luksFormat'', ''--type'', ''luks2'', ''--label'', lp_label p, ''--batch-mode'',
              ''--key-file=-'', lp_device p] (Some (le_passphrase env))) (\<lambda>_.
     bindL (run_luks env [''cryptsetup'', ''luksOpen'', ''--key-file=-'', lp_device p, lp_dm_name p] (Some (le_passphrase env))) (\<lambda>_.
     bindL (if lp_fs p = ''xfs'' then run_luks env [''mkfs.xfs'', ''-L'', lp_label p, mapper_dev (lp_dm_name p)] None
            else run_luks env [''mkfs.ext4'', ''-L'', lp_label p, mapper_dev (lp_dm_name p)] None) (\<lambda>_.
     bindL (make_dir env (lp_mount_point p)) (\<lambda>_.
     bindL (run_luks env [''mount'', mapper_dev (lp_dm_name p), lp_mount_point p] None) (\<lambda>_.
     get_device_uuid env (lp_device p))))))))"
proof -
  have uuid: "makes [] (get_device_uuid env (lp_device p))"
    unfolding get_device_uuid_def by (auto intro!: makes_bind_nil makes_if makes_basic split: prod.split)
  have fs: "makes [Change [if lp_fs p = ''xfs'' then ''mkfs.xfs'' else ''mkfs.ext4'', ''-L'', lp_label p, mapper_dev (lp_dm_name p)] None]
     (if lp_fs p = ''xfs'' then run_luks env [''mkfs.xfs'', ''-L'', lp_label p, mapper_dev (lp_dm_name p)] None
      else run_luks env [''mkfs.ext4'', ''-L'', lp_label p, mapper_dev (lp_dm_name p)] None)"
    by (simp add: makes_run)
  show ?thesis unfolding setup_steps_def
    by (intro makes_bind_one makes_run fs makes_bind_nil[OF makes_dir] uuid)
qed

lemma makes_get_mount: "makes [] (get_mount_point env d)"
  unfolding get_mount_point_def by (auto intro!: makes_bind_nil makes_basic split: prod.split)

lemma unmount_changes:
  assumes "unmount_if_needed env d h = (h', r)"
  shows "prefix h h' \<and> (\<exists>um. changes h' = changes h @ um \<and> (um = [] \<or> (\<exists>m. um = [Change [''umount'', m] None])))"
proof -
  obtain h1 r1 where g: "get_mount_point env d h = (h1, r1)" by fastforce
  have h1: "prefix h h1" "changes h1 = changes h" using makes_get_mount[of env d] g unfolding makes_def by fastforce+
  show ?thesis
  proof (cases r1)
    case (Inl e)
    then show ?thesis using assms g h1 by (auto simp: unmount_if_needed_def bindL_def)
  next
    case (Inr mount)
    then show ?thesis using assms g h1
      by (cases mount) (auto simp: unmount_if_needed_def bindL_def retL_def run_luks_def is_change_def)
  qed
qed

lemma execute_changes:
  assumes "execute_setup env p h = (h', r)"
  shows "prefix h h' \<and> (\<exists>um part. changes h' = changes h @ um @ part \<and> (um = [] \<or> (\<exists>m. um = [Change [''umount'', m] None])) \<and>
    prefix part (setup_steps (le_passphrase env) p) \<and> (\<forall>uuid. r = Inr uuid \<longrightarrow> part = setup_steps (le_passphrase env) p))"
proof -
  obtain h1 r1 where u: "unmount_if_needed env (lp_device p) h = (h1, r1)" by fastforce
  obtain um where um: "prefix h h1" "changes h1 = changes h @ um" "um = [] \<or> (\<exists>m. um = [Change [''umount'', m] None])"
    using unmount_changes[OF u] by blast
  show ?thesis
  proof (cases r1)
    case (Inl e)
    then have "h' = h1" "r = Inl e" using assms u by (auto simp: execute_setup_def bindL_def)
    then show ?thesis using um by (intro conjI exI[of _ um] exI[of _ "[]"]) simp_all
  next
    case (Inr x)
    obtain part where "prefix h1 h'" "changes h' = changes h1 @ part" "prefix part (setup_steps (le_passphrase env) p)"
      "\<forall>uuid. r = Inr uuid \<longrightarrow> part = setup_steps (le_passphrase env) p"
      using makes_steps[of env p] assms u Inr unfolding makes_def execute_setup_def bindL_def[of "unmount_if_needed env (lp_device p)"]
      by (simp only: prod.case sum.case) blast
    then show ?thesis using um prefix_order.trans[of h h1 h'] by (intro conjI exI[of _ um] exI[of _ part]) simp_all
  qed
qed

text \<open>
  C30: Nothing on a disk changes unless the caller is root, the device is a block device and the filesystem is supported,
  the passphrase has been shown, the user has answered that it is saved, and existing data was either
  absent, or given up by a confirmation or by \<open>--yes\<close>. From there on, after an unmount if there is one, the changes are a
  beginning of the five steps in their order, and all of them when the command succeeds; the passphrase is handed over only
  on the standard input of the two cryptsetup commands.
\<close>

theorem setup_changes_only_after_approval:
  assumes "luks_setup env args [] = (h', r)"
  shows "changes h' = [] \<or>
    (\<exists>p before after um part. h' = before @ after \<and> changes before = [] \<and> approved env args before p \<and>
       changes after = um @ part \<and> (um = [] \<or> (\<exists>m. um = [Change [''umount'', m] None])) \<and>
       prefix part (setup_steps (le_passphrase env) p) \<and> (\<forall>uuid. r = Inr uuid \<longrightarrow> part = setup_steps (le_passphrase env) p))"
proof -
  obtain h1 r1 where p1: "prepare_setup env args [] = (h1, r1)" by fastforce
  have h1: "changes h1 = []" using makes_prepare[of env args] p1 unfolding makes_def by fastforce
  show ?thesis
  proof (cases r1)
    case (Inl e)
    then show ?thesis using assms p1 h1 by (auto simp: luks_setup_def bindL_def)
  next
    case (Inr p)
    then have e: "execute_setup env p h1 = (h', r)" using assms p1 by (simp add: luks_setup_def bindL_def)
    then obtain after where after: "h' = h1 @ after" using execute_changes prefixE by metis
    have "approved env args h1 p" using prepare_approved p1 Inr by blast
    moreover obtain um part where "changes after = um @ part" "um = [] \<or> (\<exists>m. um = [Change [''umount'', m] None])"
      "prefix part (setup_steps (le_passphrase env) p)" "\<forall>uuid. r = Inr uuid \<longrightarrow> part = setup_steps (le_passphrase env) p"
      using execute_changes[OF e] after by auto
    ultimately show ?thesis using after h1 by blast
  qed
qed

section \<open>What \<open>open\<close> does\<close>

lemma unlock_changes:
  assumes "unlock_and_mount env d dm mount key h = (h', r)"
  shows "prefix h h' \<and> (\<exists>part. changes h' = changes h @ part \<and>
    (prefix part [Change ([''cryptsetup'', ''luksOpen'', d, dm] @ key) None, Change [''mount'', mapper_dev dm, mount] None] \<or>
     prefix part [Change [''mount'', mapper_dev dm, mount] None]))"
proof -
  define tail_prog where "tail_prog = bindL (make_dir env mount) (\<lambda>_. run_luks env [''mount'', mapper_dev dm, mount] None)"
  have m: "makes [Change [''mount'', mapper_dev dm, mount] None] tail_prog"
    unfolding tail_prog_def by (intro makes_bind_nil makes_dir makes_run)
  define op where "op = (\<lambda>h. if le_exists env h (mapper_dev dm) then retL () h
    else run_luks env ([''cryptsetup'', ''luksOpen'', d, dm] @ key) None h)"
  have u: "bindL op (\<lambda>_. tail_prog) h = (h', r)" using assms by (simp only: unlock_and_mount_def tail_prog_def op_def)
  show ?thesis
  proof (cases "le_exists env h (mapper_dev dm)")
    case True
    then have "op h = (h, Inr ())" by (simp add: op_def retL_def)
    then have "tail_prog h = (h', r)" using u bindL_step[where m = op and f = "\<lambda>_. tail_prog"] by simp
    then show ?thesis using m unfolding makes_def by blast
  next
    case False
    then have "op h = run_luks env ([''cryptsetup'', ''luksOpen'', d, dm] @ key) None h" by (simp add: op_def)
    then have "bindL (run_luks env ([''cryptsetup'', ''luksOpen'', d, dm] @ key) None) (\<lambda>_. tail_prog) h = (h', r)"
      using u unfolding bindL_def by simp
    moreover have "makes [Change ([''cryptsetup'', ''luksOpen'', d, dm] @ key) None, Change [''mount'', mapper_dev dm, mount] None]
        (bindL (run_luks env ([''cryptsetup'', ''luksOpen'', d, dm] @ key) None) (\<lambda>_. tail_prog))"
      by (intro makes_bind_one makes_run m)
    ultimately show ?thesis unfolding makes_def by blast
  qed
qed

text \<open>
  \<open>open\<close> never formats: the only changes are opening the container, when its name is not mapped yet, and mounting it, and
  only after cryptsetup has recognised the device.
\<close>

theorem open_only_unlocks_and_mounts:
  assumes "luks_open env device mount_point dm_arg key_file [] = (h', r)" "changes h' \<noteq> []"
  shows "\<exists>d dm mount key h0. prefix (h0 @ [Query [''cryptsetup'', ''isLuks'', d]]) h' \<and>
    fst (le_run env h0 [''cryptsetup'', ''isLuks'', d]) = 0 \<and> le_euid env = 0 \<and>
    (prefix (changes h') [Change ([''cryptsetup'', ''luksOpen'', d, dm] @ key) None, Change [''mount'', mapper_dev dm, mount] None] \<or>
     prefix (changes h') [Change [''mount'', mapper_dev dm, mount] None])"
proof -
  obtain h1 r1 where q: "require_device env device [] = (h1, r1)" by fastforce
  have h1: "changes h1 = []" using makes_require[of env device] q unfolding makes_def by fastforce
  obtain d where d: "r1 = Inr d" using assms q h1 by (cases r1) (auto simp: luks_open_def bindL_def)
  define h2 where "h2 = h1 @ [Query [''cryptsetup'', ''isLuks'', d]]"
  have l: "is_luks env d h1 = (h2, Inr (fst (le_run env h1 [''cryptsetup'', ''isLuks'', d]) = 0))"
    by (simp add: is_luks_def bindL_def query_def retL_def h2_def split: prod.split)
  have c2: "changes h2 = []" using h1 by (simp add: h2_def is_change_def)
  define dm where "dm = (if dm_arg = [] then path_name d else dm_arg)"
  define mount where "mount = (case mount_point of None \<Rightarrow> default_mount | Some m \<Rightarrow> m)"
  define key where "key = (if key_file = [] then [] else [''--key-file'', key_file])"
  have o: "(if fst (le_run env h1 [''cryptsetup'', ''isLuks'', d]) \<noteq> 0 then stopL (Exit 1) else unlock_and_mount env d dm mount key) h2 = (h', r)"
    using assms(1) unfolding luks_open_def bindL_step[where m = "require_device env device", OF q[unfolded d]]
      bindL_step[where m = "is_luks env d", OF l] dm_def[symmetric] mount_def[symmetric] key_def[symmetric] .
  have luks: "fst (le_run env h1 [''cryptsetup'', ''isLuks'', d]) = 0"
    using o assms(2) c2 by (cases "fst (le_run env h1 [''cryptsetup'', ''isLuks'', d]) = 0") (auto simp: stopL_def)
  then have "unlock_and_mount env d dm mount key h2 = (h', r)" using o by simp
  from unlock_changes[OF this] c2 assms(2) show ?thesis
    using luks require_device_Inr q d unfolding h2_def by (metis append_Nil)
qed

section \<open>Witnesses\<close>

definition sample_luks :: luks_env where
  "sample_luks = \<lparr>le_euid = 0, le_exists = \<lambda>h p. p = ''/dev/vdb'', le_block = \<lambda>p. p = ''/dev/vdb'', le_symlink = \<lambda>p. False,
     le_realpath = \<lambda>p. p, le_run = \<lambda>h cmd. (0, if hd cmd = ''findmnt'' then ''/mnt'' else ''x''),
     le_confirm = \<lambda>h q. True, le_mkdir_error = \<lambda>h. None, le_passphrase = ''secret''\<rparr>"

definition sample_luks_args :: luks_args where
  "sample_luks_args = \<lparr>la_device = None, la_mount_point = None, la_label = ''storage'', la_dm_name = [], la_fs = ''xfs'', la_yes = False\<rparr>"

lemma sample_luks_runs:
  "snd (luks_setup sample_luks sample_luks_args []) = Inr ''x''"
  "hd (changes (fst (luks_setup sample_luks sample_luks_args []))) = Change [''umount'', ''/mnt''] None"
  "length (changes (fst (luks_setup sample_luks sample_luks_args []))) = 6"
  "changes (fst (luks_open sample_luks None None [] [] [])) =
     [Change [''cryptsetup'', ''luksOpen'', ''/dev/vdb'', ''vdb''] None, Change [''mount'', ''/dev/mapper/vdb'', ''/data''] None]"
  by code_simp+

theorem setup_changes_only_after_approval_witness:
  "\<exists>p before after. fst (luks_setup sample_luks sample_luks_args []) = before @ after \<and> changes before = [] \<and>
     approved sample_luks sample_luks_args before p"
proof -
  have "changes (fst (luks_setup sample_luks sample_luks_args [])) \<noteq> []" using sample_luks_runs(3) by auto
  then show ?thesis
    using setup_changes_only_after_approval[OF surjective_pairing, of sample_luks sample_luks_args] by blast
qed

theorem open_only_unlocks_and_mounts_witness:
  "\<exists>d h0. prefix (h0 @ [Query [''cryptsetup'', ''isLuks'', d]]) (fst (luks_open sample_luks None None [] [] []))"
proof -
  have "changes (fst (luks_open sample_luks None None [] [] [])) \<noteq> []" by (simp add: sample_luks_runs(4))
  from open_only_unlocks_and_mounts[OF surjective_pairing this] show ?thesis by blast
qed

end
