(* ===== verification/Benchmark_Volume.thy ===== *)
theory Benchmark_Volume
  imports Config_Volume
begin

text \<open>
  The configuration volume in the benchmark image, \<open>ansible/guest/roles/benchmark/files/process-config.py\<close>: hostname and network
  only, with checks of its own. The file system and its failures are those of \<open>Config_Volume\<close>. The lemmas compare its checks with
  the ones of the production script and say what it applies.
\<close>

section \<open>Validation\<close>

definition bench_validate_hostname :: "string \<Rightarrow> file_verdict" where
  "bench_validate_hostname raw =
     (let hostname = strip raw in
      if 63 < length hostname then (False, ''too long (max 63 chars)'')
      else if hostname = [] \<or> \<not> list_all hostname_char hostname then (False, ''contains invalid characters'')
      else if startswith hostname ''-'' \<or> endswith hostname ''-'' then (False, ''cannot start or end with hyphen'')
      else (True, ''valid''))"

fun bench_check_interfaces :: "(string \<times> json) list \<Rightarrow> file_verdict" where
  "bench_check_interfaces [] = (True, ''valid'')"
| "bench_check_interfaces ((iface, settings) # rest) =
     (if \<not> is_mapping settings then (False, ''settings for '' @ iface @ '' must be a dict'')
      else if \<not> interface_ok settings then (False, iface @ '' must have addresses or DHCP'')
      else bench_check_interfaces rest)"

definition bench_validate_network :: "(string \<Rightarrow> json option) \<Rightarrow> string \<Rightarrow> file_verdict res" where
  "bench_validate_network yaml_load raw =
     (case yaml_load raw of
        None \<Rightarrow> Inr (False, ''invalid YAML'')
      | Some content \<Rightarrow>
          if \<not> is_mapping content then Inr (False, ''must be a dictionary'')
          else
            bindR (py_get content ''network'' (JObj [])) (\<lambda>config.
            bindR (py_get config ''version'' JNull) (\<lambda>version.
            if version \<noteq> JNum 2 then Inr (False, ''must have version: 2'')
            else
              bindR (py_in ''ethernets'' config) (\<lambda>present.
              if \<not> present then Inr (False, ''must have 'ethernets' section'')
              else
                bindR (py_get config ''ethernets'' JNull) (\<lambda>ethernets.
                case ethernets of
                  JObj kvs \<Rightarrow> Inr (bench_check_interfaces kvs)
                | _ \<Rightarrow> Inl (AttributeError ''items''))))))"

section \<open>Applying\<close>

text \<open>The mode is set, the owner is left.\<close>

definition bench_write_file :: "vol_env \<Rightarrow> string \<Rightarrow> string \<Rightarrow> nat \<Rightarrow> disk \<Rightarrow> disk \<times> bool" where
  "bench_write_file env content path mode d =
     (case ve_write_failure env path of
        Some BeforeWriting \<Rightarrow> (d, False)
      | Some AfterWriting \<Rightarrow> (put_content path content d, False)
      | None \<Rightarrow> (AList.update path (the (map_of (put_content path content d) path)\<lparr>vf_mode := mode\<rparr>) d, True))"

definition bench_input :: "vol_env \<Rightarrow> disk \<Rightarrow> (string \<times> string) option res" where
  "bench_input env d =
     (if \<not> is_file d hostname_file \<or> \<not> is_file d network_file then Inr None
      else
        (case read_valid env d bench_validate_hostname hostname_file of
           None \<Rightarrow> Inr None
         | Some hostname \<Rightarrow>
             (case read_config_file env d network_file of
                None \<Rightarrow> Inr None
              | Some network \<Rightarrow>
                  bindR (bench_validate_network (ve_yaml_load env) network) (\<lambda>verdict.
                  Inr (if fst verdict then Some (hostname, network) else None)))))"

definition bench_write_targets :: "vol_env \<Rightarrow> string \<Rightarrow> string \<Rightarrow> disk \<Rightarrow> disk \<times> bool" where
  "bench_write_targets env hostname network d =
     (case bench_write_file env (hostname @ [newline]) hostname_target 420 d of
        (d1, False) \<Rightarrow> (d1, False)
      | (d1, True) \<Rightarrow>
          (case bench_write_file env network network_target 384 d1 of
             (d2, False) \<Rightarrow> (d2, False)
           | (d2, True) \<Rightarrow>
               (if ve_write_failure env kernel_hostname = Some BeforeWriting then d2
                else put_content kernel_hostname hostname d2, True)))"

definition bench_apply_config :: "vol_env \<Rightarrow> disk \<Rightarrow> disk \<times> bool res" where
  "bench_apply_config env d =
     (if \<not> ve_mounted env then (d, Inr False)
      else
        (case clear_netplan_directory env d of
           (d1, False) \<Rightarrow> (d1, Inr False)
         | (d1, True) \<Rightarrow>
             (case bench_input env d1 of
                Inl e \<Rightarrow> (d1, Inl e)
              | Inr None \<Rightarrow> (d1, Inr False)
              | Inr (Some (hostname, network)) \<Rightarrow>
                  (case bench_write_targets env hostname network d1 of (d2, b) \<Rightarrow> (d2, Inr b)))))"

text \<open>The exit code; an exception that escapes ends the script with 1.\<close>

definition bench_main :: "vol_env \<Rightarrow> disk \<Rightarrow> disk \<times> nat" where
  "bench_main env d =
     (if ve_euid env \<noteq> 0 then (d, 1)
      else (case bench_apply_config env d of (d', r) \<Rightarrow> (d', if r = Inr True then 0 else 1)))"

section \<open>The checks of the two scripts\<close>

lemma bench_hostname_same: "fst (bench_validate_hostname raw) = fst (validate_hostname raw)"
  by (simp add: bench_validate_hostname_def validate_hostname_def Let_def)

lemma bench_interfaces_ok: "fst (bench_check_interfaces es) \<longleftrightarrow> list_all (\<lambda>(i, s). interface_ok s) es"
  by (induction es rule: bench_check_interfaces.induct) (auto dest: interface_ok_mapping)

lemma bench_network_ok: "(\<exists>msg. bench_validate_network yl raw = Inr (True, msg)) \<longleftrightarrow> network_ok yl raw"
proof
  assume "network_ok yl raw"
  then show "\<exists>msg. bench_validate_network yl raw = Inr (True, msg)"
    by (rule network_okE) (auto simp: bench_validate_network_def is_mapping_def bench_interfaces_ok prod_eq_iff)
next
  assume "\<exists>msg. bench_validate_network yl raw = Inr (True, msg)"
  then obtain msg where v: "bench_validate_network yl raw = Inr (True, msg)" by blast
  then obtain content where c: "yl raw = Some (JObj content)"
    unfolding bench_validate_network_def is_mapping_def by (auto split: option.split_asm json.split_asm)
  with v obtain config where n: "map_of content ''network'' = Some (JObj config)" and ver: "map_of config ''version'' = Some (JNum 2)"
    unfolding bench_validate_network_def is_mapping_def
    by (auto simp: bindR_Inr_iff py_get_Inr_iff split: option.split_asm if_split_asm)
  with v c obtain es where "map_of config ''ethernets'' = Some (JObj es)" "bench_check_interfaces es = (True, msg)"
    unfolding bench_validate_network_def is_mapping_def
    by (auto simp: bindR_Inr_iff split: option.split_asm if_split_asm json.split_asm)
  then show "network_ok yl raw" using c n ver bench_interfaces_ok[of es] by (simp add: network_ok_def)
qed

text \<open>
  C33: The two scripts accept the same hostnames and the same network configurations; they differ in the messages, and in how they fail
  on a document without the expected sections.
\<close>

theorem scripts_accept_the_same:
  shows "(fst (bench_validate_hostname raw) \<longleftrightarrow> fst (validate_hostname raw)) \<and>
    ((\<exists>msg. bench_validate_network yaml_load doc = Inr (True, msg)) \<longleftrightarrow>
     (\<exists>msg. validate_network_config yaml_load doc = Inr (True, msg)))"
proof -
  have "(\<exists>msg. validate_network_config yaml_load doc = Inr (True, msg)) \<longleftrightarrow> network_ok yaml_load doc"
    using network_validated network_accepted by metis
  then show ?thesis by (simp add: bench_hostname_same bench_network_ok)
qed

section \<open>What is applied\<close>

definition bench_input_ok :: "vol_env \<Rightarrow> disk \<Rightarrow> string \<Rightarrow> string \<Rightarrow> bool" where
  "bench_input_ok env d hostname network \<longleftrightarrow>
     from_volume d hostname_file hostname \<and> hostname_ok hostname \<and>
     from_volume d network_file network \<and> network_ok (ve_yaml_load env) network"

lemma bench_input_valid:
  assumes "bench_input env d = Inr (Some (hostname, network))"
  shows "bench_input_ok env d hostname network"
proof -
  from assms have h: "read_valid env d bench_validate_hostname hostname_file = Some hostname"
    and n: "read_config_file env d network_file = Some network"
    and v: "\<exists>msg. bench_validate_network (ve_yaml_load env) network = Inr (True, msg)"
    unfolding bench_input_def by (auto simp: bindR_Inr_iff split: if_split_asm option.split_asm)
  have "hostname_ok hostname"
    using read_valid_Some[OF h] bench_hostname_same hostname_validated by metis
  then show ?thesis using read_valid_Some[OF h] read_config_Some[OF n] v by (simp add: bench_input_ok_def bench_network_ok)
qed

definition has_content :: "disk \<Rightarrow> string \<Rightarrow> string \<Rightarrow> nat \<Rightarrow> bool" where
  "has_content d path content mode \<longleftrightarrow>
     map_option (\<lambda>f. (vf_content f, vf_mode f)) (map_of d path) = Some (content, mode)"

lemma bench_write_other: "bench_write_file env content path mode d = (d', b) \<Longrightarrow> q \<noteq> path \<Longrightarrow> map_of d' q = map_of d q"
  by (auto simp: bench_write_file_def map_of_put_content update_conv' split: option.split_asm write_failure.split_asm)

lemma bench_write_True: "bench_write_file env content path mode d = (d', True) \<Longrightarrow> has_content d' path content mode"
  by (auto simp: bench_write_file_def has_content_def map_of_put_content update_conv' split: option.splits write_failure.split_asm)

lemma bench_targets_other:
  assumes "bench_write_targets env h n d = (d', b)" "q \<noteq> hostname_target" "q \<noteq> network_target" "q \<noteq> kernel_hostname"
  shows "map_of d' q = map_of d q"
proof -
  obtain d1 b1 where d1: "bench_write_file env (h @ [newline]) hostname_target 420 d = (d1, b1)" by fastforce
  obtain d2 b2 where d2: "bench_write_file env n network_target 384 d1 = (d2, b2)" by fastforce
  have "map_of d1 q = map_of d q" "map_of d2 q = map_of d1 q"
    using bench_write_other[OF d1] bench_write_other[OF d2] assms(2,3) by simp_all
  then show ?thesis using assms(1,4) d1 d2 unfolding bench_write_targets_def
    by (cases b1; cases b2) (auto simp: map_of_put_content split: if_split_asm)
qed

lemma bench_targets_True:
  assumes "bench_write_targets env h n d = (d', True)"
  shows "has_content d' hostname_target (h @ [newline]) 420 \<and> has_content d' network_target n 384"
proof -
  from assms obtain d1 d2 where d1: "bench_write_file env (h @ [newline]) hostname_target 420 d = (d1, True)"
    and d2: "bench_write_file env n network_target 384 d1 = (d2, True)"
    and d': "d' = d2 \<or> d' = put_content kernel_hostname h d2"
    unfolding bench_write_targets_def by (auto split: prod.split_asm bool.split_asm)
  have ne: "hostname_target \<noteq> network_target" "hostname_target \<noteq> kernel_hostname" "network_target \<noteq> kernel_hostname"
    using target_paths by simp_all
  have "has_content d2 hostname_target (h @ [newline]) 420" "has_content d2 network_target n 384"
    using bench_write_True[OF d1] bench_write_True[OF d2] bench_write_other[OF d2 ne(1)] by (simp_all add: has_content_def)
  then show ?thesis using d' ne by (auto simp: has_content_def map_of_put_content)
qed

text \<open>
  The benchmark script touches a file outside the netplan directory only after both inputs have been validated, and then only
  the hostname and the kernel's hostname; when it exits with 0 the two targets hold the validated contents.
\<close>

theorem benchmark_applies_the_volume:
  assumes "bench_apply_config env d = (d', r)"
  shows "(\<forall>q. map_of d' q \<noteq> map_of d q \<longrightarrow> in_netplan q \<or>
      (q \<in> {hostname_target, kernel_hostname} \<and> (\<exists>h n. bench_input_ok env d h n))) \<and>
    (r = Inr True \<longrightarrow> (\<exists>h n. bench_input_ok env d h n \<and>
      has_content d' hostname_target (h @ [newline]) 420 \<and> has_content d' network_target n 384))"
proof (cases "ve_mounted env")
  case False
  then have "d' = d" "r = Inr False" using assms by (auto simp: bench_apply_config_def)
  then show ?thesis by simp
next
  case True
  obtain d1 b where d1: "clear_netplan_directory env d = (d1, b)" by fastforce
  show ?thesis
  proof (cases "\<exists>h n. b \<and> bench_input env d1 = Inr (Some (h, n))")
    case False
    then have "d' = d1 \<and> r \<noteq> Inr True" using assms True d1
      by (cases b) (auto simp: bench_apply_config_def split: sum.split_asm option.split_asm)
    then show ?thesis using clear_other[OF d1] by metis
  next
    case b: True
    then obtain h n where hn: "b" "bench_input env d1 = Inr (Some (h, n))" by blast
    obtain b2 where w: "bench_write_targets env h n d1 = (d', b2)" "r = Inr b2"
      using assms True d1 hn by (auto simp: bench_apply_config_def split: prod.split_asm)
    have ok: "bench_input_ok env d h n"
      using bench_input_valid[OF hn(2)] by (simp add: bench_input_ok_def from_volume_clear[OF d1])
    have "in_netplan q \<or> q \<in> {hostname_target, kernel_hostname}" if "map_of d' q \<noteq> map_of d q" for q
      using that bench_targets_other[OF w(1), of q] clear_other[OF d1, of q] config_paths by fastforce
    then show ?thesis using ok w bench_targets_True by blast
  qed
qed

section \<open>Witness\<close>

theorem benchmark_applies_the_volume_witness:
  "\<exists>h n. bench_input_ok sample_env sample_disk h n \<and>
     has_content (fst (bench_apply_config sample_env sample_disk)) hostname_target (h @ [newline]) 420"
proof -
  have "snd (bench_apply_config sample_env sample_disk) = Inr True" by code_simp
  then show ?thesis
    using benchmark_applies_the_volume[OF surjective_pairing, of sample_env sample_disk] by blast
qed

end
