(* ===== verification/Host_Scripts.thy ===== *)
theory Host_Scripts
  imports Command_Output
begin

text \<open>
  What the set-up scripts of the host share: programs that run commands and look at the file system. A program is a
  function of the history of what it has done; the host answers every question from that history in any way, so commands may have any
  effect. \<open>Checked\<close> commands end the program when they fail. Shared by \<open>Gpu_Tools\<close>, \<open>Host_Setup\<close> and \<open>Host_Tune\<close>.
\<close>

section \<open>Programs\<close>

datatype host_event =
    Ran "string list"                    \<comment> \<open>a command whose exit code the program looks at, or ignores\<close>
  | Checked "string list"                \<comment> \<open>a command that must exit with 0\<close>
  | CheckedIn string "string list"       \<comment> \<open>the same with a working directory\<close>
  | Piped "string list" string           \<comment> \<open>the same with a text as its input\<close>
  | Wrote string string                  \<comment> \<open>\<open>sudo tee path\<close>: path and content\<close>
  | Linked string string                 \<comment> \<open>\<open>os.symlink(src, dst)\<close>\<close>
  | Unlinked string
  | SetEnv string string

record host_env =
  he_run :: "host_event list \<Rightarrow> string list \<Rightarrow> (int \<times> string) res"   \<comment> \<open>exit code and output; no start, time out\<close>
  he_run_in :: "host_event list \<Rightarrow> string \<Rightarrow> string list \<Rightarrow> (int \<times> string) res"
  he_pipe :: "host_event list \<Rightarrow> string list \<Rightarrow> string \<Rightarrow> (int \<times> string) res"
  he_tee :: "host_event list \<Rightarrow> string \<Rightarrow> exn option"
  he_file :: "host_event list \<Rightarrow> string \<Rightarrow> string res option"         \<comment> \<open>\<open>None\<close>: no such file\<close>
  he_listdir :: "host_event list \<Rightarrow> string \<Rightarrow> string list option"
  he_exists :: "host_event list \<Rightarrow> string \<Rightarrow> bool"
  he_isdir :: "host_event list \<Rightarrow> string \<Rightarrow> bool"
  he_islink :: "host_event list \<Rightarrow> string \<Rightarrow> bool"
  he_lexists :: "host_event list \<Rightarrow> string \<Rightarrow> bool"
  he_executable :: "host_event list \<Rightarrow> string \<Rightarrow> bool"
  he_glob :: "host_event list \<Rightarrow> string \<Rightarrow> string list"
  he_link_error :: "host_event list \<Rightarrow> string \<Rightarrow> exn option"
  he_unlink_error :: "host_event list \<Rightarrow> string \<Rightarrow> exn option"
  he_euid :: int
  he_getenv :: "string \<Rightarrow> string option"
  he_python :: "nat \<times> nat"
  he_scripts_dir :: string

type_synonym 'a host = "host_event list \<Rightarrow> host_event list \<times> 'a res"

definition retH :: "'a \<Rightarrow> 'a host" where
  "retH x h = (h, Inr x)"

definition failH :: "exn \<Rightarrow> 'a host" where
  "failH e h = (h, Inl e)"

definition bindH :: "'a host \<Rightarrow> ('a \<Rightarrow> 'b host) \<Rightarrow> 'b host" where
  "bindH m f h = (case m h of (h', Inl e) \<Rightarrow> (h', Inl e) | (h', Inr x) \<Rightarrow> f x h')"

text \<open>A look at the host, without an effect.\<close>

definition look :: "(host_event list \<Rightarrow> 'a) \<Rightarrow> 'a host" where
  "look f h = (h, Inr (f h))"

definition lookR :: "(host_event list \<Rightarrow> 'a res) \<Rightarrow> 'a host" where
  "lookR f h = (h, f h)"

definition run :: "host_env \<Rightarrow> string list \<Rightarrow> (int \<times> string) host" where
  "run env cmd h = (h @ [Ran cmd], he_run env h cmd)"

text \<open>\<open>check=True\<close>.\<close>

definition exit_0 :: "(int \<times> string) res \<Rightarrow> string res" where
  "exit_0 r = (case r of
     Inl e \<Rightarrow> Inl e
   | Inr (code, out) \<Rightarrow> if code = 0 then Inr out else Inl (CalledProcessError ''returned non-zero exit status''))"

definition checked :: "host_env \<Rightarrow> string list \<Rightarrow> unit host" where
  "checked env cmd h =
     (h @ [Checked cmd], case exit_0 (he_run env h cmd) of Inl e \<Rightarrow> Inl e | Inr out \<Rightarrow> Inr ())"

definition checked_in :: "host_env \<Rightarrow> string \<Rightarrow> string list \<Rightarrow> unit host" where
  "checked_in env dir cmd h =
     (h @ [CheckedIn dir cmd], case exit_0 (he_run_in env h dir cmd) of Inl e \<Rightarrow> Inl e | Inr out \<Rightarrow> Inr ())"

definition piped :: "host_env \<Rightarrow> string list \<Rightarrow> string \<Rightarrow> string host" where
  "piped env cmd input h = (h @ [Piped cmd input], exit_0 (he_pipe env h cmd input))"

definition write_system_file :: "host_env \<Rightarrow> string \<Rightarrow> string \<Rightarrow> unit host" where
  "write_system_file env path content h =
     (h @ [Wrote path content], case he_tee env h path of None \<Rightarrow> Inr () | Some e \<Rightarrow> Inl e)"

text \<open>\<open>open(path).read()\<close>.\<close>

definition read_file :: "host_env \<Rightarrow> string \<Rightarrow> string host" where
  "read_file env path =
     lookR (\<lambda>h. case he_file env h path of None \<Rightarrow> Inl (OSError 2 ''No such file or directory'') | Some r \<Rightarrow> r)"

text \<open>\<open>except (TimeoutExpired, OSError)\<close> around one program.\<close>

definition or_unavailable :: "'a host \<Rightarrow> 'a \<Rightarrow> 'a host" where
  "or_unavailable m d h =
     (case m h of (h', Inl TimeoutError) \<Rightarrow> (h', Inr d) | (h', Inl (OSError n t)) \<Rightarrow> (h', Inr d) | r \<Rightarrow> r)"

text \<open>\<open>os.symlink\<close>, \<open>os.remove\<close>, \<open>os.environ[k] = v\<close>.\<close>

definition symlink :: "host_env \<Rightarrow> string \<Rightarrow> string \<Rightarrow> unit host" where
  "symlink env src dst h = (h @ [Linked src dst], case he_link_error env h dst of None \<Rightarrow> Inr () | Some e \<Rightarrow> Inl e)"

definition remove_link :: "host_env \<Rightarrow> string \<Rightarrow> unit host" where
  "remove_link env p h = (h @ [Unlinked p], case he_unlink_error env h p of None \<Rightarrow> Inr () | Some e \<Rightarrow> Inl e)"

definition setenv :: "string \<Rightarrow> string \<Rightarrow> unit host" where
  "setenv k v h = (h @ [SetEnv k v], Inr ())"

fun for_each :: "('a \<Rightarrow> unit host) \<Rightarrow> 'a list \<Rightarrow> unit host" where
  "for_each f [] = retH ()"
| "for_each f (x # xs) = bindH (f x) (\<lambda>_. for_each f xs)"

section \<open>What a program adds to the history\<close>

text \<open>
  \<open>emits es m\<close>: when \<open>m\<close> returns, the events \<open>es\<close> are among those it added, in this order.
\<close>

definition emits :: "host_event list \<Rightarrow> 'a host \<Rightarrow> bool" where
  "emits es m \<longleftrightarrow> (\<forall>h h' x. m h = (h', Inr x) \<longrightarrow> (\<exists>new. h' = h @ new \<and> subseq es new))"

text \<open>
  \<open>strict env m\<close>: a checked command or a write that fails is the last event of \<open>m\<close>, which then raises.
\<close>

abbreviation isr :: "'a + 'b \<Rightarrow> bool" where "isr r \<equiv> \<not> isl r"

definition event_ok :: "host_env \<Rightarrow> host_event list \<Rightarrow> host_event \<Rightarrow> bool" where
  "event_ok env h e =
     (case e of
        Checked cmd \<Rightarrow> isr (exit_0 (he_run env h cmd))
      | CheckedIn dir cmd \<Rightarrow> isr (exit_0 (he_run_in env h dir cmd))
      | Piped cmd input \<Rightarrow> isr (exit_0 (he_pipe env h cmd input))
      | Wrote path content \<Rightarrow> he_tee env h path = None
      | Linked src dst \<Rightarrow> he_link_error env h dst = None
      | Unlinked p \<Rightarrow> he_unlink_error env h p = None
      | _ \<Rightarrow> True)"

fun all_ok :: "host_env \<Rightarrow> host_event list \<Rightarrow> host_event list \<Rightarrow> bool" where
  "all_ok env h [] = True"
| "all_ok env h (e # es) = (event_ok env h e \<and> all_ok env (h @ [e]) es)"

definition strict :: "host_env \<Rightarrow> 'a host \<Rightarrow> bool" where
  "strict env m \<longleftrightarrow>
     (\<forall>h h' r. m h = (h', r) \<longrightarrow>
        (\<exists>new. h' = h @ new \<and> all_ok env h (butlast new) \<and> (\<forall>x. r = Inr x \<longrightarrow> all_ok env h new)))"

lemma strictD:
  assumes "strict env m" "m h = (h', r)"
  shows "\<exists>new. h' = h @ new \<and> all_ok env h (butlast new) \<and> (\<forall>x. r = Inr x \<longrightarrow> all_ok env h new)"
  using assms(1)[unfolded strict_def, rule_format, OF assms(2)] by simp

lemma bindH_step: "m h = (h1, Inr x) \<Longrightarrow> bindH m f h = f x h1"
  by (simp add: bindH_def)

lemma bindH_Inr: "bindH m f h = (h', Inr y) \<longleftrightarrow> (\<exists>h1 x. m h = (h1, Inr x) \<and> f x h1 = (h', Inr y))"
  by (auto simp: bindH_def split: prod.split sum.split)

lemma all_ok_append: "all_ok env h (es @ fs) \<longleftrightarrow> all_ok env h es \<and> all_ok env (h @ es) fs"
  by (induction es arbitrary: h) auto

lemma all_ok_butlast: "all_ok env h es \<Longrightarrow> all_ok env h (butlast es)"
  by (cases es rule: rev_cases) (auto simp: all_ok_append)

lemma emits_bind:
  assumes "emits es m" "\<And>x. emits fs (f x)"
  shows "emits (es @ fs) (bindH m f)"
  unfolding emits_def bindH_Inr
proof (intro allI impI, elim exE conjE)
  fix h h' y h1 x
  assume m: "m h = (h1, Inr x)" and f: "f x h1 = (h', Inr y)"
  obtain n1 where n1: "h1 = h @ n1" "subseq es n1" using assms(1) m unfolding emits_def by blast
  obtain n2 where n2: "h' = h1 @ n2" "subseq fs n2" using assms(2) f unfolding emits_def by blast
  show "\<exists>new. h' = h @ new \<and> subseq (es @ fs) new"
    using n1 n2 by (intro exI[of _ "n1 @ n2"]) (simp add: list_emb_append_mono)
qed

lemma emits_weaken: "emits es m \<Longrightarrow> subseq fs es \<Longrightarrow> emits fs m"
  unfolding emits_def by (meson subseq_order.trans)

lemma emits_checked: "emits [Checked cmd] (checked env cmd)"
  by (auto simp: emits_def checked_def)

lemma emits_write: "emits [Wrote p c] (write_system_file env p c)"
  by (auto simp: emits_def write_system_file_def)

lemma strict_bind:
  assumes "strict env m" "\<And>x. strict env (f x)"
  shows "strict env (bindH m f)"
  unfolding strict_def
proof (intro allI impI)
  fix h h' r
  assume b: "bindH m f h = (h', r)"
  obtain h1 r1 where m: "m h = (h1, r1)" by fastforce
  obtain n1 where n1: "h1 = h @ n1" "all_ok env h (butlast n1)" "\<forall>x. r1 = Inr x \<longrightarrow> all_ok env h n1"
    using assms(1)[unfolded strict_def, rule_format, OF m] by blast
  show "\<exists>new. h' = h @ new \<and> all_ok env h (butlast new) \<and> (\<forall>x. r = Inr x \<longrightarrow> all_ok env h new)"
  proof (cases r1)
    case (Inl e)
    then show ?thesis using b m n1 by (auto simp: bindH_def)
  next
    case (Inr x)
    then have f: "f x h1 = (h', r)" using b m by (simp add: bindH_def)
    obtain n2 where n2: "h' = h1 @ n2" "all_ok env h1 (butlast n2)" "\<forall>y. r = Inr y \<longrightarrow> all_ok env h1 n2"
      using assms(2)[of x, unfolded strict_def, rule_format, OF f] by blast
    show ?thesis using n1 n2 Inr
      by (intro exI[of _ "n1 @ n2"]) (auto simp: all_ok_append butlast_append)
  qed
qed

lemma strict_one:
  assumes "\<And>h. fst (m h) = h @ [e]" "\<And>h x. snd (m h) = Inr x \<Longrightarrow> event_ok env h e"
  shows "strict env m"
  unfolding strict_def
proof (intro allI impI)
  fix h h' r
  assume "m h = (h', r)"
  then show "\<exists>new. h' = h @ new \<and> all_ok env h (butlast new) \<and> (\<forall>x. r = Inr x \<longrightarrow> all_ok env h new)"
    using assms(1)[of h] assms(2)[of h] by (intro exI[of _ "[e]"]) auto
qed

lemma strict_checked: "strict env (checked env cmd)"
  by (rule strict_one[where e = "Checked cmd"]) (auto simp: checked_def event_ok_def split: sum.split_asm)

lemma strict_checked_in: "strict env (checked_in env dir cmd)"
  by (rule strict_one[where e = "CheckedIn dir cmd"]) (auto simp: checked_in_def event_ok_def split: sum.split_asm)

lemma strict_piped: "strict env (piped env cmd input)"
  by (rule strict_one[where e = "Piped cmd input"]) (auto simp: piped_def event_ok_def)

lemma strict_write: "strict env (write_system_file env p c)"
  by (rule strict_one[where e = "Wrote p c"]) (auto simp: write_system_file_def event_ok_def split: option.split_asm)

lemma strict_run: "strict env (run env cmd)"
  by (rule strict_one[where e = "Ran cmd"]) (auto simp: run_def event_ok_def)

lemma strict_symlink: "strict env (symlink env s d)"
  by (rule strict_one[where e = "Linked s d"]) (auto simp: symlink_def event_ok_def split: option.split_asm)

lemma strict_remove_link: "strict env (remove_link env p)"
  by (rule strict_one[where e = "Unlinked p"]) (auto simp: remove_link_def event_ok_def split: option.split_asm)

lemma strict_setenv: "strict env (setenv k v)"
  by (rule strict_one[where e = "SetEnv k v"]) (auto simp: setenv_def event_ok_def)

lemma strict_ret: "strict env (retH x)"
  by (auto simp: strict_def retH_def)

lemma strict_fail: "strict env (failH e)"
  by (auto simp: strict_def failH_def)

lemma strict_look: "strict env (look f)"
  by (auto simp: strict_def look_def)

lemma strict_lookR: "strict env (lookR f)"
  by (auto simp: strict_def lookR_def)

lemma strict_read: "strict env (read_file env p)"
  by (simp add: read_file_def strict_lookR)

lemma strict_if: "(b \<Longrightarrow> strict env m) \<Longrightarrow> (\<not> b \<Longrightarrow> strict env n) \<Longrightarrow> strict env (if b then m else n)"
  by simp

lemma strict_for_each: "(\<And>x. strict env (f x)) \<Longrightarrow> strict env (for_each f xs)"
  by (induction xs) (auto intro: strict_ret strict_bind)

lemma strict_query: "strict env (or_unavailable (run env cmd) d)"
  by (rule strict_one[where e = "Ran cmd"]) (simp_all add: or_unavailable_def run_def event_ok_def split: sum.split exn.split)

lemma strict_case: "(\<And>a b. strict env (f a b)) \<Longrightarrow> strict env (case p of (a, b) \<Rightarrow> f a b)"
  by (cases p) simp

lemmas strict_rules = strict_case strict_bind strict_checked strict_checked_in strict_piped strict_write strict_run strict_ret strict_fail strict_look strict_lookR
  strict_symlink strict_remove_link strict_setenv strict_read strict_if strict_for_each strict_query

text \<open>\<open>reads m\<close>: \<open>m\<close> only runs commands it may ignore the failure of.\<close>

definition reads :: "'a host \<Rightarrow> bool" where
  "reads m \<longleftrightarrow> (\<forall>h h' r. m h = (h', r) \<longrightarrow> (\<exists>cs. h' = h @ map Ran cs))"

lemma reads_run: "reads (run env cmd)"
  unfolding reads_def run_def by (auto intro: exI[of _ "[cmd]"])

lemma reads_ret: "reads (retH x)" and reads_fail: "reads (failH e)" and reads_look: "reads (look f)" and reads_lookR: "reads (lookR g)"
  unfolding reads_def retH_def failH_def look_def lookR_def by (auto intro: exI[of _ "[]"])

lemma reads_bind:
  assumes "reads m" "\<And>x. reads (f x)"
  shows "reads (bindH m f)"
  unfolding reads_def
proof (intro allI impI)
  fix h h' r
  assume b: "bindH m f h = (h', r)"
  obtain h1 r1 where m: "m h = (h1, r1)" by fastforce
  obtain cs where cs: "h1 = h @ map Ran cs" using assms(1)[unfolded reads_def, rule_format, OF m] by blast
  show "\<exists>cs. h' = h @ map Ran cs"
  proof (cases r1)
    case (Inl e)
    then show ?thesis using b m cs by (auto simp: bindH_def)
  next
    case (Inr x)
    then have f: "f x h1 = (h', r)" using b m by (simp add: bindH_def)
    obtain ds where "h' = h1 @ map Ran ds" using assms(2)[of x, unfolded reads_def, rule_format, OF f] by blast
    then show ?thesis using cs by (intro exI[of _ "cs @ ds"]) simp
  qed
qed

lemma fst_or_unavailable: "fst (or_unavailable m d h) = fst (m h)"
  by (cases "m h"; cases "snd (m h)") (auto simp: or_unavailable_def split: exn.split)

lemma reads_or_unavailable: "reads m \<Longrightarrow> reads (or_unavailable m d)"
  unfolding reads_def using fst_or_unavailable[of m d] by (metis fst_conv prod.collapse)

lemma reads_if: "(b \<Longrightarrow> reads m) \<Longrightarrow> (\<not> b \<Longrightarrow> reads n) \<Longrightarrow> reads (if b then m else n)"
  by simp

lemma reads_case: "(\<And>a b. reads (f a b)) \<Longrightarrow> reads (case p of (a, b) \<Rightarrow> f a b)"
  by (cases p) simp

lemmas reads_rules = reads_case reads_run reads_ret reads_fail reads_look reads_lookR reads_bind reads_or_unavailable reads_if

lemma all_ok_Ran: "all_ok env h (map Ran cs)"
  by (induction cs arbitrary: h) (auto simp: event_ok_def)

lemma strict_reads: "reads m \<Longrightarrow> strict env m"
  unfolding strict_def reads_def by (metis all_ok_Ran all_ok_butlast)

lemma strict_extends: "strict env m \<Longrightarrow> m h = (h', r) \<Longrightarrow> \<exists>new. h' = h @ new"
  unfolding strict_def by blast

lemma strict_prefix: "strict env m \<Longrightarrow> m h = (h', r) \<Longrightarrow> prefix h h'"
  using strict_extends[of env m h h' r] by auto

lemma emits_nil: "strict env m \<Longrightarrow> emits [] m"
  unfolding emits_def by (meson strict_extends list_emb_Nil)

section \<open>Successful runs\<close>

lemma checked_Inr: "checked env cmd h = (h', Inr u) \<longleftrightarrow> h' = h @ [Checked cmd] \<and> (\<exists>out. he_run env h cmd = Inr (0, out))"
  by (auto simp: checked_def exit_0_def split: sum.split prod.split if_split)

lemma checked_in_Inr:
  "checked_in env dir cmd h = (h', Inr u) \<longleftrightarrow> h' = h @ [CheckedIn dir cmd] \<and> (\<exists>out. he_run_in env h dir cmd = Inr (0, out))"
  by (auto simp: checked_in_def exit_0_def split: sum.split prod.split if_split)

lemma piped_Inr:
  "piped env cmd input h = (h', Inr out) \<longleftrightarrow> h' = h @ [Piped cmd input] \<and> he_pipe env h cmd input = Inr (0, out)"
  by (auto simp: piped_def exit_0_def split: sum.split prod.split if_split)

lemma write_Inr: "write_system_file env p c h = (h', Inr u) \<longleftrightarrow> h' = h @ [Wrote p c] \<and> he_tee env h p = None"
  by (auto simp: write_system_file_def split: option.split)

lemma run_Inr: "run env cmd h = (h', Inr x) \<longleftrightarrow> h' = h @ [Ran cmd] \<and> he_run env h cmd = Inr x"
  by (auto simp: run_def)

lemma look_Inr: "look f h = (h', Inr x) \<longleftrightarrow> h' = h \<and> x = f h"
  by (auto simp: look_def)

lemma lookR_Inr: "lookR f h = (h', Inr x) \<longleftrightarrow> h' = h \<and> f h = Inr x"
  by (auto simp: lookR_def)

lemma ret_Inr: "retH y h = (h', Inr x) \<longleftrightarrow> h' = h \<and> x = y"
  by (auto simp: retH_def)

lemma fail_Inr: "failH e h = (h', Inr x) \<longleftrightarrow> False"
  by (simp add: failH_def)

lemma or_unavailable_Inr:
  "x \<noteq> d \<Longrightarrow> or_unavailable m d h = (h', Inr x) \<longleftrightarrow> m h = (h', Inr x)"
  by (auto simp: or_unavailable_def split: prod.split sum.split exn.split)

lemma bindH_InrE:
  assumes "bindH m f h = (h', Inr y)"
  obtains h1 x where "m h = (h1, Inr x)" "f x h1 = (h', Inr y)"
  using assms unfolding bindH_Inr by blast

lemmas host_Inr = bindH_Inr checked_Inr checked_in_Inr piped_Inr write_Inr run_Inr look_Inr lookR_Inr ret_Inr fail_Inr

end
