(* ===== verification/Gpu_Tools.thy ===== *)
theory Gpu_Tools
  imports Host_Scripts
begin

text \<open>
  The installer of the GPU administration tool, \<open>host-tools/scripts/chutes/guest/gpu/tools.py\<close>, as a program over the host of
  \<open>Host_Scripts\<close>. The lemmas say when it leaves the host alone and what has been tested when it returns.
\<close>

definition gpu_cli :: string where
  "gpu_cli = ''nvidia-gpu-tools''"

definition cli_healthy :: "host_env \<Rightarrow> bool host" where
  "cli_healthy env =
     bindH (run env [''which'', gpu_cli]) (\<lambda>(code, out).
     if code \<noteq> 0 then retH False
     else or_unavailable (bindH (run env [gpu_cli, ''--help'']) (\<lambda>(code, out). retH (code = 0))) False)"

text \<open>The first line \<open>version = X.Y...\<close> decides.\<close>

fun version_matches :: "string \<Rightarrow> string list \<Rightarrow> bool" where
  "version_matches target [] = False"
| "version_matches target (line # rest) =
     (case split_once (CHR ''='') line of (key, val) \<Rightarrow>
        if strip key = ''version'' then strip val = target \<or> startswith (strip val) (target @ ''.'')
        else version_matches target rest)"

definition venv_matches_system_python :: "host_env \<Rightarrow> string \<Rightarrow> bool host" where
  "venv_matches_system_python env venv_dir =
     lookR (\<lambda>h. case he_file env h (venv_dir @ ''/pyvenv.cfg'') of
         None \<Rightarrow> Inr False
       | Some (Inl (OSError n m)) \<Rightarrow> Inr False
       | Some (Inl e) \<Rightarrow> Inl e
       | Some (Inr content) \<Rightarrow>
           Inr (version_matches (digits_of (fst (he_python env)) @ ''.'' @ digits_of (snd (he_python env))) (splitlines content)))"

definition tools_dir :: "host_env \<Rightarrow> string" where
  "tools_dir env = he_scripts_dir env @ ''/gpu-tools''"

definition venv_dir :: "host_env \<Rightarrow> string" where "venv_dir env = tools_dir env @ ''/venv''"
definition venv_python :: "host_env \<Rightarrow> string" where "venv_python env = venv_dir env @ ''/bin/python''"
definition venv_pip :: "host_env \<Rightarrow> string" where "venv_pip env = venv_dir env @ ''/bin/pip''"
definition cli_in_venv :: "host_env \<Rightarrow> string" where "cli_in_venv env = venv_dir env @ ''/bin/'' @ gpu_cli"
definition cli_symlink :: string where "cli_symlink = ''/usr/local/bin/'' @ gpu_cli"

text \<open>\<open>which python3\<close> and \<open>python3 -m venv --help\<close> have to succeed.\<close>

definition require_command :: "host_env \<Rightarrow> string list \<Rightarrow> string \<Rightarrow> unit host" where
  "require_command env cmd msg =
     bindH (run env cmd) (\<lambda>(code, out). if code \<noteq> 0 then failH (RuntimeError msg) else retH ())"

definition create_venv :: "host_env \<Rightarrow> unit host" where
  "create_venv env h =
     (case checked env [''sudo'', ''python3'', ''-m'', ''venv'', venv_dir env] h of
        (h', Inl (CalledProcessError m)) \<Rightarrow> (h', Inl (RuntimeError ''Failed to create virtual environment''))
      | r \<Rightarrow> r)"

definition find_wheel :: "host_env \<Rightarrow> string host" where
  "find_wheel env =
     lookR (\<lambda>h. case he_listdir env h (tools_dir env) of
         None \<Rightarrow> Inl (OSError 2 ''GPU tools directory not found'')
       | Some fs \<Rightarrow>
           (case filter (\<lambda>f. endswith f ''.whl'') fs of
              [] \<Rightarrow> Inl (OSError 2 ''No bundled GPU tools wheel found'')
            | f # _ \<Rightarrow> Inr (tools_dir env @ ''/'' @ f)))"

definition remove_tree :: "host_env \<Rightarrow> string \<Rightarrow> unit host" where
  "remove_tree env path = checked env [''sudo'', ''rm'', ''-rf'', path]"

definition ensurepip :: "host_env \<Rightarrow> string list" where
  "ensurepip env = [''sudo'', venv_python env, ''-m'', ''ensurepip'', ''--upgrade'']"

text \<open>A stale or missing environment is rebuilt; pip is bootstrapped, and if that fails the environment is rebuilt once.\<close>

definition prepare_venv :: "host_env \<Rightarrow> unit host" where
  "prepare_venv env =
     bindH (look (\<lambda>h. he_exists env h (venv_dir env))) (\<lambda>present.
     bindH (if present then bindH (venv_matches_system_python env (venv_dir env)) (\<lambda>b. retH (\<not> b)) else retH False) (\<lambda>stale.
     bindH (if stale then remove_tree env (venv_dir env) else retH ()) (\<lambda>_.
     bindH (look (\<lambda>h. he_exists env h (venv_dir env))) (\<lambda>present.
     if present then retH () else create_venv env))))"

definition bootstrap_pip :: "host_env \<Rightarrow> unit host" where
  "bootstrap_pip env =
     bindH (look (\<lambda>h. he_exists env h (venv_pip env))) (\<lambda>has_pip.
     if has_pip then retH ()
     else
       bindH (run env (ensurepip env)) (\<lambda>(code, out).
       if code = 0 then retH ()
       else
         bindH (remove_tree env (venv_dir env)) (\<lambda>_.
         bindH (create_venv env) (\<lambda>_.
         bindH (look (\<lambda>h. he_exists env h (venv_pip env))) (\<lambda>has_pip.
         if has_pip then retH () else checked env (ensurepip env))))))"

definition replace_symlink :: "host_env \<Rightarrow> unit host" where
  "replace_symlink env =
     bindH (look (\<lambda>h. he_lexists env h cli_symlink)) (\<lambda>present.
     bindH (if \<not> present then retH ()
            else bindH (look (\<lambda>h. he_islink env h cli_symlink)) (\<lambda>link.
                 if link then checked env [''sudo'', ''rm'', cli_symlink]
                 else failH (RuntimeError ''Cannot create symlink''))) (\<lambda>_.
     checked env [''sudo'', ''ln'', ''-s'', cli_in_venv env, cli_symlink]))"

definition test_cli :: "host_env \<Rightarrow> unit host" where
  "test_cli env =
     bindH (look (\<lambda>h. he_exists env h (cli_in_venv env))) (\<lambda>present.
     if \<not> present then failH (RuntimeError ''nvidia-gpu-tools CLI not found in venv after installation.'')
     else
       bindH (run env [cli_in_venv env, ''--help'']) (\<lambda>(code, out).
       if code \<noteq> 0 then failH (RuntimeError ''nvidia-gpu-tools CLI entry point is broken.'') else retH ()))"

definition install_gpu_tools :: "host_env \<Rightarrow> string host" where
  "install_gpu_tools env =
     bindH (require_command env [''which'', ''python3''] ''python3 is not available.'') (\<lambda>_.
     bindH (require_command env [''python3'', ''-m'', ''venv'', ''--help''] ''The python3-venv package is not installed.'') (\<lambda>_.
     bindH (find_wheel env) (\<lambda>wheel.
     bindH (prepare_venv env) (\<lambda>_.
     bindH (bootstrap_pip env) (\<lambda>_.
     bindH (checked env [''sudo'', venv_pip env, ''install'', ''--quiet'', ''--upgrade'', wheel]) (\<lambda>_.
     bindH (test_cli env) (\<lambda>_.
     bindH (replace_symlink env) (\<lambda>_.
     bindH (run env [''which'', gpu_cli]) (\<lambda>(code, out).
     if code = 0 then retH gpu_cli
     else failH (RuntimeError ''nvidia-gpu-tools installation succeeded but CLI not found in PATH.''))))))))))"

definition ensure_gpu_tools_available :: "host_env \<Rightarrow> string host" where
  "ensure_gpu_tools_available env =
     bindH (cli_healthy env) (\<lambda>healthy. if healthy then retH gpu_cli else install_gpu_tools env)"

section \<open>The installer stops at the first failure\<close>

lemma reads_healthy: "reads (cli_healthy env)"
  unfolding cli_healthy_def by (intro reads_rules)

lemma strict_create: "strict env (create_venv env)"
  unfolding create_venv_def
  by (rule strict_one[where e = "Checked [''sudo'', ''python3'', ''-m'', ''venv'', venv_dir env]"])
     (auto simp: checked_def event_ok_def split: sum.split_asm sum.split exn.split_asm exn.split)

lemma strict_require: "strict env (require_command env cmd msg)"
  unfolding require_command_def by (intro strict_rules)

lemma strict_test: "strict env (test_cli env)"
  unfolding test_cli_def by (intro strict_rules)

lemma strict_prepare: "strict env (prepare_venv env)"
  unfolding prepare_venv_def remove_tree_def venv_matches_system_python_def
  by (intro strict_rules strict_create)

lemma strict_bootstrap: "strict env (bootstrap_pip env)"
  unfolding bootstrap_pip_def remove_tree_def
  by (intro strict_rules strict_create)

lemma strict_link: "strict env (replace_symlink env)"
  unfolding replace_symlink_def by (intro strict_rules)

lemma strict_install: "strict env (install_gpu_tools env)"
  unfolding install_gpu_tools_def find_wheel_def
  by (intro strict_rules strict_require strict_prepare strict_bootstrap strict_test strict_link)

text \<open>
  A command of the installer that must succeed and does not is the last thing that happens, and the installer then
  raises; when it returns, all of them have succeeded.
\<close>

theorem installer_stops_at_first_failure:
  assumes "ensure_gpu_tools_available env h = (h', r)"
  shows "\<exists>new. h' = h @ new \<and> all_ok env h (butlast new) \<and> (\<forall>x. r = Inr x \<longrightarrow> all_ok env h new)"
proof -
  have "strict env (ensure_gpu_tools_available env)"
    unfolding ensure_gpu_tools_available_def
    by (intro strict_bind strict_reads[OF reads_healthy] strict_if strict_ret strict_install)
  from strictD[OF this assms] show ?thesis .
qed

section \<open>What has been tested\<close>

definition link_command :: "host_env \<Rightarrow> host_event" where
  "link_command env = Checked [''sudo'', ''ln'', ''-s'', cli_in_venv env, cli_symlink]"

definition unlink_command :: host_event where
  "unlink_command = Checked [''sudo'', ''rm'', cli_symlink]"

lemma test_Inr:
  assumes "test_cli env h = (h', Inr u)"
  shows "\<exists>out. he_run env h [cli_in_venv env, ''--help''] = Inr (0, out)"
    and "h' = h @ [Ran [cli_in_venv env, ''--help'']]"
  using assms unfolding test_cli_def by (auto simp: host_Inr split: if_split_asm)

lemma replace_Inr:
  assumes "replace_symlink env h = (h', Inr u)"
  shows "(he_lexists env h cli_symlink \<longrightarrow> he_islink env h cli_symlink) \<and>
         h' = h @ (if he_lexists env h cli_symlink then [unlink_command] else []) @ [link_command env]"
  using assms unfolding replace_symlink_def unlink_command_def link_command_def by (auto simp: host_Inr split: if_split_asm)

lemma install_Inr:
  assumes "install_gpu_tools env h = (h', Inr x)"
  shows "\<exists>h1 u h2. x = gpu_cli \<and> prefix h h1 \<and> test_cli env h1 = (h1 @ [Ran [cli_in_venv env, ''--help'']], Inr u) \<and>
           replace_symlink env (h1 @ [Ran [cli_in_venv env, ''--help'']]) = (h2, Inr u) \<and>
           h' = h2 @ [Ran [''which'', gpu_cli]] \<and> (\<exists>out. he_run env h2 [''which'', gpu_cli] = Inr (0, out))"
  using assms unfolding install_gpu_tools_def find_wheel_def
proof (elim bindH_InrE)
  fix a1 a2 a3 a4 a5 a6 a7 h2 h9 w u1 u2 u4 u5 u6 u7 u8 c
  assume a:
    "require_command env [''which'', ''python3''] ''python3 is not available.'' h = (a1, Inr u1)"
    "require_command env [''python3'', ''-m'', ''venv'', ''--help''] ''The python3-venv package is not installed.'' a1 = (a2, Inr u2)"
    "lookR (\<lambda>h. case he_listdir env h (tools_dir env) of None \<Rightarrow> Inl (OSError 2 ''GPU tools directory not found'')
       | Some fs \<Rightarrow> (case filter (\<lambda>f. endswith f ''.whl'') fs of
              [] \<Rightarrow> Inl (OSError 2 ''No bundled GPU tools wheel found'') | f # _ \<Rightarrow> Inr (tools_dir env @ ''/'' @ f))) a2 = (a3, Inr w)"
    "prepare_venv env a3 = (a4, Inr u4)" "bootstrap_pip env a4 = (a5, Inr u5)"
    "checked env [''sudo'', venv_pip env, ''install'', ''--quiet'', ''--upgrade'', w] a5 = (a6, Inr u6)"
    "test_cli env a6 = (a7, Inr u7)" "replace_symlink env a7 = (h2, Inr u8)"
    "run env [''which'', gpu_cli] h2 = (h9, Inr c)"
    "(case c of (code, out) \<Rightarrow> if code = 0 then retH gpu_cli
       else failH (RuntimeError ''nvidia-gpu-tools installation succeeded but CLI not found in PATH.'')) h9 = (h', Inr x)"
  have "prefix h a6"
    using strict_prefix[OF strict_require a(1)] strict_prefix[OF strict_require a(2)] strict_prefix[OF strict_lookR a(3)]
      strict_prefix[OF strict_prepare a(4)] strict_prefix[OF strict_bootstrap a(5)] strict_prefix[OF strict_checked a(6)]
    by (meson prefix_order.trans)
  moreover have "x = gpu_cli \<and> h' = h2 @ [Ran [''which'', gpu_cli]] \<and> (\<exists>out. he_run env h2 [''which'', gpu_cli] = Inr (0, out))"
    using a(9,10) by (cases c) (auto simp: run_Inr ret_Inr fail_Inr split: if_split_asm)
  ultimately show ?thesis using a(7,8) unfolding test_Inr(2)[OF a(7)] by auto
qed

lemma healthy_Inr:
  assumes "cli_healthy env h = (h', Inr True)"
  shows "h' = h @ [Ran [''which'', gpu_cli], Ran [gpu_cli, ''--help'']] \<and>
         (\<exists>out. he_run env (h @ [Ran [''which'', gpu_cli]]) [gpu_cli, ''--help''] = Inr (0, out))"
  using assms unfolding cli_healthy_def
  by (auto simp: host_Inr or_unavailable_Inr split: if_split_asm)

text \<open>
  The command name is only returned after it has worked: either the installed tool answered \<open>--help\<close> and nothing
  but the two probes was run, or the tool in the environment answered \<open>--help\<close>, the link to it was then made (removing
  what was there only when that was a link) and \<open>which\<close> finds it.
\<close>

theorem returned_tools_have_worked:
  assumes "ensure_gpu_tools_available env h = (h', Inr x)"
  shows "x = gpu_cli \<and>
    (h' = h @ [Ran [''which'', gpu_cli], Ran [gpu_cli, ''--help'']] \<and>
       (\<exists>out. he_run env (h @ [Ran [''which'', gpu_cli]]) [gpu_cli, ''--help''] = Inr (0, out))
     \<or> (\<exists>h1 h2 out out'. prefix h h1 \<and> he_run env h1 [cli_in_venv env, ''--help''] = Inr (0, out) \<and>
          (he_lexists env (h1 @ [Ran [cli_in_venv env, ''--help'']]) cli_symlink \<longrightarrow>
             he_islink env (h1 @ [Ran [cli_in_venv env, ''--help'']]) cli_symlink) \<and>
          h2 = h1 @ [Ran [cli_in_venv env, ''--help'']] @
                 (if he_lexists env (h1 @ [Ran [cli_in_venv env, ''--help'']]) cli_symlink then [unlink_command] else []) @
                 [link_command env] \<and>
          h' = h2 @ [Ran [''which'', gpu_cli]] \<and> he_run env h2 [''which'', gpu_cli] = Inr (0, out')))"
proof (cases "snd (cli_healthy env h) = Inr True")
  case True
  obtain h1 where h1: "cli_healthy env h = (h1, Inr True)" using True by (cases "cli_healthy env h") simp
  have "h1 = h @ [Ran [''which'', gpu_cli], Ran [gpu_cli, ''--help'']] \<and>
       (\<exists>out. he_run env (h @ [Ran [''which'', gpu_cli]]) [gpu_cli, ''--help''] = Inr (0, out))"
    by (rule healthy_Inr[OF h1])
  moreover have "h' = h1 \<and> x = gpu_cli" using assms h1 unfolding ensure_gpu_tools_available_def by (auto simp: host_Inr)
  ultimately show ?thesis by simp
next
  case False
  obtain h0 where h0: "cli_healthy env h = (h0, Inr False)" "install_gpu_tools env h0 = (h', Inr x)"
    using assms False unfolding ensure_gpu_tools_available_def by (auto simp: host_Inr split: if_split_asm)
  obtain h1 u h2 out' where i: "x = gpu_cli" "prefix h0 h1" "test_cli env h1 = (h1 @ [Ran [cli_in_venv env, ''--help'']], Inr u)"
    "replace_symlink env (h1 @ [Ran [cli_in_venv env, ''--help'']]) = (h2, Inr u)"
    "h' = h2 @ [Ran [''which'', gpu_cli]]" "he_run env h2 [''which'', gpu_cli] = Inr (0, out')"
    using install_Inr[OF h0(2)] by blast
  have p: "prefix h h1"
    using strict_prefix[OF strict_reads[OF reads_healthy] h0(1)] i(2) by (rule prefix_order.trans)
  obtain out where t: "he_run env h1 [cli_in_venv env, ''--help''] = Inr (0, out)" using test_Inr(1)[OF i(3)] by blast
  note r = replace_Inr[OF i(4)]
  show ?thesis
    by (intro conjI[OF i(1)] disjI2, rule exI[of _ h1], rule exI[of _ h2], rule exI[of _ out], rule exI[of _ out'])
      (intro conjI p t i(5,6) conjunct1[OF r], simp only: conjunct2[OF r] append_assoc)
qed

section \<open>Witnesses\<close>

text \<open>A host on which every command succeeds, except that the tool is found only once it is linked.\<close>

definition fresh_host :: host_env where
  "fresh_host =
     \<lparr>he_run = (\<lambda>h cmd. if cmd = [''which'', gpu_cli] \<and> length h \<le> 2 then Inr (1, '''') else Inr (0, '''')),
      he_run_in = (\<lambda>h d cmd. Inr (0, '''')), he_pipe = (\<lambda>h cmd i. Inr (0, i)),
      he_tee = (\<lambda>h p. None), he_file = (\<lambda>h p. None),
      he_listdir = (\<lambda>h p. Some [''README'', ''tools-1.whl'']),
      he_exists = (\<lambda>h p. h \<noteq> [] \<and> endswith p gpu_cli), he_isdir = (\<lambda>h p. False), he_islink = (\<lambda>h p. True),
      he_lexists = (\<lambda>h p. True), he_executable = (\<lambda>h p. True), he_glob = (\<lambda>h p. []),
      he_link_error = (\<lambda>h p. None), he_unlink_error = (\<lambda>h p. None), he_euid = 0,
      he_getenv = (\<lambda>k. None), he_python = (3, 14), he_scripts_dir = ''/s''\<rparr>"

lemma fresh_host_run: "snd (ensure_gpu_tools_available fresh_host []) = Inr gpu_cli"
  by code_simp

lemma fresh_host_length: "length (fst (ensure_gpu_tools_available fresh_host [])) \<noteq> 2"
  by code_simp

theorem returned_tools_have_worked_witness:
  "\<exists>h1 out. he_run fresh_host h1 [cli_in_venv fresh_host, ''--help''] = Inr (0, out) \<and>
      fst (ensure_gpu_tools_available fresh_host []) =
        h1 @ [Ran [cli_in_venv fresh_host, ''--help''], unlink_command, link_command fresh_host, Ran [''which'', gpu_cli]]"
proof -
  have e: "ensure_gpu_tools_available fresh_host [] = (fst (ensure_gpu_tools_available fresh_host []), Inr gpu_cli)"
    using fresh_host_run by (metis prod.collapse)
  have n: "fst (ensure_gpu_tools_available fresh_host []) \<noteq> [] @ [Ran [''which'', gpu_cli], Ran [gpu_cli, ''--help'']]"
    using fresh_host_length by auto
  have l: "he_lexists fresh_host h1 cli_symlink" for h1 by (simp add: fresh_host_def)
  show ?thesis using returned_tools_have_worked[OF e] n l by auto
qed

theorem installer_stops_at_first_failure_witness:
  "\<exists>new. fst (ensure_gpu_tools_available fresh_host []) = [] @ new \<and> all_ok fresh_host [] new"
proof -
  have e: "ensure_gpu_tools_available fresh_host [] = (fst (ensure_gpu_tools_available fresh_host []), Inr gpu_cli)"
    using fresh_host_run by (metis prod.collapse)
  show ?thesis using installer_stops_at_first_failure[OF e] by blast
qed

end
