(* ===== verification/Host_Setup.thy ===== *)
theory Host_Setup
  imports Gpu_Tools
begin

text \<open>
  The set-up of a host, \<open>host-tools/scripts/chutes/host/profiles.py\<close> and \<open>setup.py\<close>, as a program over the host of
  \<open>Host_Scripts\<close>; the patches of configuration files are functions on texts. A locale says what a patch of a
  setting that is written on a line of its own guarantees; it is interpreted on the port of QGS and on the rail
  policy of Fabric Manager.
\<close>

section \<open>Profiles\<close>

record ppa =
  ppa_team :: string
  ppa_name :: string
  ppa_signing_key :: string
  ppa_pin_priority :: nat
  ppa_suite :: "string option"

definition ppa_uri :: "ppa \<Rightarrow> string" where
  "ppa_uri p = ''ppa:'' @ ppa_team p @ ''/'' @ ppa_name p"

record apt_repo =
  repo_name :: string
  repo_uri :: string
  repo_suite :: string
  repo_components :: string
  repo_signing_key_url :: string
  repo_pin_priority :: nat

record host_profile =
  hp_name :: string
  hp_codename :: string
  hp_ppas :: "ppa list"
  hp_repos :: "apt_repo list"
  hp_kernel_package :: string
  hp_packages :: "string list"
  hp_grub_additions :: "string list"

text \<open>The defaults of the base class.\<close>

definition default_host_profile :: host_profile where
  "default_host_profile = \<lparr>hp_name = [], hp_codename = [], hp_ppas = [], hp_repos = [], hp_kernel_package = [], hp_packages = [],
     hp_grub_additions = [''nohibernate'']\<rparr>"

definition intel_repo :: "string \<Rightarrow> apt_repo" where
  "intel_repo suite = \<lparr>repo_name = ''intel-sgx'', repo_uri = ''https://download.01.org/intel-sgx/sgx_repo/ubuntu/'',
     repo_suite = suite, repo_components = ''main'',
     repo_signing_key_url = ''https://download.01.org/intel-sgx/sgx_repo/ubuntu/intel-sgx-deb.key'', repo_pin_priority = 4000\<rparr>"

definition tdx_cmdline :: "string list" where
  "tdx_cmdline = [''nohibernate'', ''kvm_intel.tdx=1'', ''modprobe.blacklist=nouveau'']"

definition ubuntu2510_profile :: host_profile where
  "ubuntu2510_profile = default_host_profile\<lparr>hp_name := ''25.10'', hp_codename := ''questing'', hp_repos := [intel_repo ''noble''],
     hp_kernel_package := ''linux-image-generic'',
     hp_packages := [''qemu-system-x86'', ''sgx-dcap-pccs'', ''tdx-qgs'', ''libsgx-dcap-default-qpl'', ''sgx-ra-service'',
       ''sgx-pck-id-retrieval-tool''],
     hp_grub_additions := tdx_cmdline\<rparr>"

definition ubuntu2604_profile :: host_profile where
  "ubuntu2604_profile = default_host_profile\<lparr>hp_name := ''26.04'', hp_codename := ''resolute'', hp_ppas := [], hp_repos := [intel_repo ''resolute''],
     hp_kernel_package := ''linux-image-generic'',
     hp_packages := [''qemu-system-x86'', ''ovmf-inteltdx'', ''sgx-dcap-pccs'', ''tdx-qgs'', ''libsgx-dcap-default-qpl'',
       ''sgx-ra-service'', ''sgx-pck-id-retrieval-tool''],
     hp_grub_additions := tdx_cmdline\<rparr>"

definition host_profiles :: "(string \<times> host_profile) list" where
  "host_profiles = [(''25.10'', ubuntu2510_profile), (''26.04'', ubuntu2604_profile)]"

definition detect_ubuntu_version :: "host_env \<Rightarrow> string host" where
  "detect_ubuntu_version env =
     bindH (run env [''lsb_release'', ''-rs'']) (\<lambda>(code, out).
     if code \<noteq> 0 then failH (RuntimeError ''Failed to detect Ubuntu version via lsb_release.'') else retH (strip out))"

definition resolve_host_profile :: "host_env \<Rightarrow> string option \<Rightarrow> host_profile host" where
  "resolve_host_profile env version =
     bindH (case version of Some v \<Rightarrow> retH v | None \<Rightarrow> detect_ubuntu_version env) (\<lambda>v.
     case map_of host_profiles v of
       None \<Rightarrow> failH (ValueError ''Unsupported Ubuntu version'')
     | Some p \<Rightarrow> retH p)"

section \<open>Package sources\<close>

definition lines_text :: "string list \<Rightarrow> string" where
  "lines_text ls = concat (map (\<lambda>l. l @ [newline]) ls)"

definition sources_text :: "string \<Rightarrow> string \<Rightarrow> string \<Rightarrow> string \<Rightarrow> string" where
  "sources_text uri suite components keyring =
     lines_text [''Types: deb'', ''URIs: '' @ uri, ''Suites: '' @ suite, ''Components: '' @ components, ''Signed-By: '' @ keyring]"

definition pin_text :: "string \<Rightarrow> nat \<Rightarrow> string" where
  "pin_text pin priority = lines_text [''Package: *'', ''Pin: '' @ pin, ''Pin-Priority: '' @ digits_of priority]"

definition make_keyrings :: "host_env \<Rightarrow> unit host" where
  "make_keyrings env = checked env [''sudo'', ''mkdir'', ''-p'', ''/etc/apt/keyrings'']"

definition fetch_key :: "host_env \<Rightarrow> string \<Rightarrow> string \<Rightarrow> unit host" where
  "fetch_key env dest url = checked env [''sudo'', ''curl'', ''-fsSL'', ''-o'', dest, url]"

definition add_repo :: "host_env \<Rightarrow> apt_repo \<Rightarrow> unit host" where
  "add_repo env r =
     (let keyring = ''/etc/apt/keyrings/'' @ repo_name r @ ''.asc'' in
      bindH (make_keyrings env) (\<lambda>_.
      bindH (fetch_key env keyring (repo_signing_key_url r)) (\<lambda>_.
      bindH (write_system_file env (''/etc/apt/sources.list.d/'' @ repo_name r @ ''.sources'')
               (sources_text (repo_uri r) (repo_suite r) (repo_components r) keyring)) (\<lambda>_.
      write_system_file env (''/etc/apt/preferences.d/'' @ repo_name r @ ''-pin-'' @ digits_of (repo_pin_priority r))
        (pin_text ''origin download.01.org'' (repo_pin_priority r))))))"

definition remove_stale_ppa_sources :: "host_env \<Rightarrow> ppa \<Rightarrow> unit host" where
  "remove_stale_ppa_sources env p =
     bindH (look (\<lambda>h. he_glob env h (''/etc/apt/sources.list.d/*'' @ ppa_team p @ ''*'' @ ppa_name p @ ''*''))) (\<lambda>paths.
     for_each (\<lambda>path. checked env [''sudo'', ''rm'', ''-f'', path]) paths)"

definition fetch_signing_key :: "host_env \<Rightarrow> string \<Rightarrow> string \<Rightarrow> unit host" where
  "fetch_signing_key env fingerprint dest =
     fetch_key env dest (''https://keyserver.ubuntu.com/pks/lookup?op=get&search=0x'' @ fingerprint)"

definition add_ppa_manual :: "host_env \<Rightarrow> ppa \<Rightarrow> string \<Rightarrow> unit host" where
  "add_ppa_manual env p suite =
     (let keyring = ''/etc/apt/keyrings/kobuk-'' @ ppa_team p @ ''-'' @ ppa_name p @ ''.asc'' in
      bindH (remove_stale_ppa_sources env p) (\<lambda>_.
      bindH (make_keyrings env) (\<lambda>_.
      bindH (fetch_signing_key env (ppa_signing_key p) keyring) (\<lambda>_.
      write_system_file env (''/etc/apt/sources.list.d/kobuk-'' @ ppa_team p @ ''-'' @ ppa_name p @ ''.sources'')
        (sources_text (''https://ppa.launchpadcontent.net/'' @ ppa_team p @ ''/'' @ ppa_name p @ ''/ubuntu/'') suite ''main'' keyring)))))"

text \<open>An empty suite is as good as none.\<close>

definition given_suite :: "ppa \<Rightarrow> string option" where
  "given_suite p = (case ppa_suite p of None \<Rightarrow> None | Some s \<Rightarrow> if s = [] then None else Some s)"

definition double_quote :: char where "double_quote = CHR 0x22"

definition add_ppa :: "host_env \<Rightarrow> string \<Rightarrow> ppa \<Rightarrow> unit host" where
  "add_ppa env codename p =
     (let suite = (case given_suite p of None \<Rightarrow> codename | Some s \<Rightarrow> s);
          distro_id = ''LP-PPA-'' @ ppa_team p @ ''-'' @ ppa_name p in
      bindH (case given_suite p of
               Some s \<Rightarrow> add_ppa_manual env p suite
             | None \<Rightarrow> checked env [''sudo'', ''add-apt-repository'', ''-y'', ppa_uri p]) (\<lambda>_.
      bindH (write_system_file env
               (''/etc/apt/preferences.d/kobuk-tdx-'' @ ppa_team p @ ''-'' @ ppa_name p @ ''-pin-'' @ digits_of (ppa_pin_priority p))
               (pin_text (''release o='' @ distro_id) (ppa_pin_priority p))) (\<lambda>_.
      write_system_file env (''/etc/apt/apt.conf.d/99unattended-upgrades-kobuk-'' @ ppa_name p)
        (lines_text [''Unattended-Upgrade::Allowed-Origins {'',
           ''  '' @ [double_quote] @ distro_id @ '':'' @ suite @ [double_quote] @ '';'', ''};'',
           ''Unattended-Upgrade::Allow-downgrade '' @ [double_quote] @ ''true'' @ [double_quote] @ '';'']))))"

section \<open>The kernel\<close>

definition image_prefix :: string where "image_prefix = ''linux-image-''"

definition version_token :: "string \<Rightarrow> string" where
  "version_token s = takeWhile (\<lambda>c. c \<noteq> CHR '','' \<and> \<not> is_space c) s"

text \<open>\<open>.*linux-image-([^,\s]+)\<close>: the last one on the line.\<close>

fun last_image :: "string \<Rightarrow> string option" where
  "last_image [] = None"
| "last_image (c # cs) =
     (case last_image cs of
        Some v \<Rightarrow> Some v
      | None \<Rightarrow>
          (let token = version_token (drop (length image_prefix) (c # cs)) in
           if startswith (c # cs) image_prefix \<and> token \<noteq> [] then Some token else None))"

fun find_depends :: "string \<Rightarrow> string option" where
  "find_depends [] = None"
| "find_depends (c # cs) =
     (case (if startswith (c # cs) ''Depends:'' then last_image (takeWhile (\<lambda>x. x \<noteq> newline) (drop 8 (c # cs))) else None) of
        Some v \<Rightarrow> Some v
      | None \<Rightarrow> find_depends cs)"

definition get_kernel_version :: "host_env \<Rightarrow> string \<Rightarrow> string host" where
  "get_kernel_version env pkg =
     bindH (run env [''apt'', ''show'', pkg]) (\<lambda>(code, out).
     case find_depends out of
       None \<Rightarrow> failH (RuntimeError ''Could not determine kernel version'')
     | Some v \<Rightarrow> retH v)"

text \<open>The first line of what awk prints, and the second field between single quotes.\<close>

definition grub_cfg :: string where "grub_cfg = ''/boot/grub/grub.cfg''"

definition first_menu_line :: "host_env \<Rightarrow> string \<Rightarrow> string host" where
  "first_menu_line env pattern =
     bindH (run env [''awk'', ''/'' @ pattern @ ''/{print $(NF-1)}'', grub_cfg]) (\<lambda>(code, out).
     retH (fst (split_once newline (strip out))))"

definition quoted_field :: "host_env \<Rightarrow> string \<Rightarrow> string host" where
  "quoted_field env line = bindH (piped env [''cut'', ''-d'' @ [CHR 0x27], ''-f2''] line) (\<lambda>out. retH (strip out))"

definition grub_set_kernel :: "host_env \<Rightarrow> string \<Rightarrow> unit host" where
  "grub_set_kernel env version =
     bindH (first_menu_line env ''Advanced options for Ubuntu'') (\<lambda>mid_line.
     bindH (if mid_line = [] then retH [] else quoted_field env mid_line) (\<lambda>mid.
     bindH (first_menu_line env (''with Linux '' @ version)) (\<lambda>kid_line.
     if kid_line = [] then failH (RuntimeError ''Could not find kernel in grub.cfg menu entries'')
     else
       bindH (quoted_field env kid_line) (\<lambda>kid.
       if kid = [] then failH (RuntimeError ''Could not parse grub menu id for kernel'')
       else
         bindH (write_system_file env ''/etc/default/grub.d/99-tdx-kernel.cfg'' (lines_text [''GRUB_DEFAULT=saved'', ''GRUB_SAVEDEFAULT=true''])) (\<lambda>_.
         bindH (checked env [''sudo'', ''grub-editenv'', ''/boot/grub/grubenv'', ''set'',
                  ''saved_entry='' @ (if mid = [] then kid else mid @ ''>'' @ kid)]) (\<lambda>_.
         checked env [''sudo'', ''update-grub'']))))))"

section \<open>The kernel command line\<close>

definition cmdline_start :: string where
  "cmdline_start = ''GRUB_CMDLINE_LINUX='' @ [double_quote]"

text \<open>Every text between \<open>GRUB_CMDLINE_LINUX="\<close> and the next quote gets the parameter at its end.\<close>

function grub_add :: "string \<Rightarrow> string \<Rightarrow> string" where
  "grub_add param [] = []"
| "grub_add param (c # cs) =
     (if startswith (c # cs) cmdline_start
      then let r = drop (length cmdline_start) (c # cs) in
           cmdline_start @ takeWhile (\<lambda>x. x \<noteq> double_quote) r @ '' '' @ param @
             grub_add param (dropWhile (\<lambda>x. x \<noteq> double_quote) r)
      else c # grub_add param cs)"
  by pat_completeness auto

termination
  by (relation "measure (length \<circ> snd)")
     (auto simp: cmdline_start_def less_Suc_eq_le intro: le_trans[OF length_dropWhile_le])

fun grub_add_missing :: "string list \<Rightarrow> string \<times> bool \<Rightarrow> string \<times> bool" where
  "grub_add_missing [] (content, modified) = (content, modified)"
| "grub_add_missing (p # ps) (content, modified) =
     (if contains content p then grub_add_missing ps (content, modified)
      else grub_add_missing ps (grub_add p content, True))"

definition grub_file :: string where "grub_file = ''/etc/default/grub''"

definition grub_update_cmdline :: "host_env \<Rightarrow> string list \<Rightarrow> unit host" where
  "grub_update_cmdline env additions =
     bindH (read_file env grub_file) (\<lambda>content.
     case grub_add_missing additions (content, False) of (updated, modified) \<Rightarrow>
       if \<not> modified then retH ()
       else
         bindH (write_system_file env grub_file updated) (\<lambda>_.
         bindH (checked env [''sudo'', ''update-grub'']) (\<lambda>_.
         checked env [''sudo'', ''grub-install'', ''--no-nvram''])))"

section \<open>Settings on a line of their own\<close>

text \<open>
  \<open>re.sub(p, rep, s, flags=re.MULTILINE)\<close> for a pattern \<open>^...$\<close> that ends with \<open>.*$\<close>: \<open>m\<close> is what is left of a text at the start
  of which \<open>p\<close> matches; \<open>bol\<close> says whether a line starts here.
\<close>

function sub_lines :: "(string \<Rightarrow> string option) \<Rightarrow> string \<Rightarrow> bool \<Rightarrow> string \<Rightarrow> string" where
  "sub_lines m rep bol [] = []"
| "sub_lines m rep bol (c # cs) =
     (case (if bol then m (c # cs) else None) of
        Some rest \<Rightarrow> if length rest \<le> length cs then rep @ sub_lines m rep False rest else c # sub_lines m rep (c = newline) cs
      | None \<Rightarrow> c # sub_lines m rep (c = newline) cs)"
  by pat_completeness auto

termination
  by (relation "measure (\<lambda>(m, rep, bol, s). length s)") auto

text \<open>\<open>word\s*=.*$\<close>.\<close>

definition match_setting :: "string \<Rightarrow> string \<Rightarrow> string option" where
  "match_setting w s =
     (if startswith s w then
        (case dropWhile is_space (drop (length w) s) of
           [] \<Rightarrow> None
         | c # rest \<Rightarrow> if c = CHR ''='' then Some (dropWhile (\<lambda>x. x \<noteq> newline) rest) else None)
      else None)"

text \<open>\<open>^#?\s*port\s*=.*$\<close>; the white space may span lines.\<close>

definition match_port :: "string \<Rightarrow> string option" where
  "match_port s = match_setting ''port'' (dropWhile is_space (if startswith s ''#'' then tl s else s))"

definition rail_policy :: string where "rail_policy = ''PARTITION_RAIL_POLICY''"
definition rail_symmetric :: string where "rail_symmetric = rail_policy @ ''=symmetric''"
definition vsock_port :: string where "vsock_port = ''port = 4050''"

definition qgs_text :: "string \<Rightarrow> string" where
  "qgs_text s = sub_lines match_port vsock_port True s"

definition rstrip :: "string \<Rightarrow> string" where
  "rstrip s = rev (dropWhile is_space (rev s))"

definition fm_text :: "string \<Rightarrow> string" where
  "fm_text s =
     (if contains s rail_policy then sub_lines (match_setting rail_policy) rail_symmetric True s
      else rstrip s @ [newline] @ rail_symmetric @ [newline])"

text \<open>\<open>"use_secure_cert"\s*:\s*true\<close>, anywhere.\<close>

definition secure_key :: string where
  "secure_key = [double_quote] @ ''use_secure_cert'' @ [double_quote]"

definition match_secure :: "string \<Rightarrow> string option" where
  "match_secure s =
     (if startswith s secure_key then
        (case dropWhile is_space (drop (length secure_key) s) of
           [] \<Rightarrow> None
         | c # rest \<Rightarrow>
             (let v = dropWhile is_space rest in
              if c = CHR '':'' \<and> startswith v ''true'' then Some (drop 4 v) else None))
      else None)"

function qcnl_text :: "string \<Rightarrow> string" where
  "qcnl_text [] = []"
| "qcnl_text (c # cs) =
     (case match_secure (c # cs) of
        Some rest \<Rightarrow> if length rest \<le> length cs then secure_key @ '': false'' @ qcnl_text rest else c # qcnl_text cs
      | None \<Rightarrow> c # qcnl_text cs)"
  by pat_completeness auto

termination
  by (relation "measure length") auto

section \<open>Configuration files and drivers\<close>

text \<open>A file that is missing is left alone; one that the patch does not change is not written.\<close>

definition patch_file :: "host_env \<Rightarrow> string \<Rightarrow> (string \<Rightarrow> string) \<Rightarrow> unit host \<Rightarrow> unit host" where
  "patch_file env path f after =
     bindH (look (\<lambda>h. he_exists env h path)) (\<lambda>present.
     if \<not> present then retH ()
     else
       bindH (read_file env path) (\<lambda>original.
       if f original = original then retH ()
       else bindH (write_system_file env path (f original)) (\<lambda>_. after)))"

definition configure_qcnl :: "host_env \<Rightarrow> unit host" where
  "configure_qcnl env = patch_file env ''/etc/sgx_default_qcnl.conf'' qcnl_text (retH ())"

definition configure_qgs_vsock :: "host_env \<Rightarrow> unit host" where
  "configure_qgs_vsock env =
     patch_file env ''/etc/qgs.conf'' qgs_text (checked env [''sudo'', ''systemctl'', ''restart'', ''qgsd''])"

text \<open>A file with a fixed content is written unless it has it already.\<close>

definition ensure_file :: "host_env \<Rightarrow> string \<Rightarrow> string \<Rightarrow> unit host \<Rightarrow> unit host" where
  "ensure_file env path content after =
     bindH (look (\<lambda>h. he_exists env h path)) (\<lambda>present.
     bindH (if present then bindH (read_file env path) (\<lambda>c. retH (c = content)) else retH False) (\<lambda>current.
     if current then retH () else bindH (write_system_file env path content) (\<lambda>_. after)))"

definition blacklist_path :: string where "blacklist_path = ''/etc/modprobe.d/blacklist-gpu-host.conf''"

definition blacklist_text :: string where
  "blacklist_text = lines_text [''# GPU drivers must not load on VFIO passthrough hosts.'',
     ''# GPUs are configured via nvidia-gpu-tools and bound to vfio-pci at launch.'',
     ''blacklist nouveau'', ''blacklist nova_core'', ''blacklist nvidiafb'', ''blacklist nvidia'', ''blacklist nvidia_drm'',
     ''blacklist nvidia_modeset'', ''blacklist nvidia_uvm'', ''options nouveau modeset=0'']"

text \<open>The first word of every line but the heading; a line without one raises.\<close>

definition loaded_modules :: "string \<Rightarrow> string list res" where
  "loaded_modules out = mapM (\<lambda>l. case words l of [] \<Rightarrow> Inl IndexError | w # _ \<Rightarrow> Inr w) (drop 1 (splitlines out))"

definition blacklist_gpu_drivers :: "host_env \<Rightarrow> unit host" where
  "blacklist_gpu_drivers env =
     bindH (ensure_file env blacklist_path blacklist_text (checked env [''sudo'', ''update-initramfs'', ''-u''])) (\<lambda>_.
     bindH (run env [''lsmod'']) (\<lambda>(code, out).
     bindH (lookR (\<lambda>h. loaded_modules out)) (\<lambda>loaded.
     for_each (\<lambda>m. if m \<in> set loaded then bindH (run env [''sudo'', ''rmmod'', m]) (\<lambda>_. retH ()) else retH ())
       [''nouveau'', ''nova_core'', ''nvidiafb''])))"

section \<open>Fabric Manager\<close>

definition blackwell_ids :: "string list" where "blackwell_ids = [''10de:2901'', ''10de:3182'']"

definition detect_blackwell_hgx_gpus :: "host_env \<Rightarrow> bool host" where
  "detect_blackwell_hgx_gpus env =
     or_unavailable
       (bindH (run env [''lspci'', ''-Dnn'']) (\<lambda>(code, out).
        retH (list_ex (\<lambda>l. list_ex (\<lambda>i. contains l i) blackwell_ids) (splitlines out)))) False"

definition fm_pkg :: string where "fm_pkg = ''nvidia-fabricmanager-595''"
definition fm_pkg_pinned :: string where "fm_pkg_pinned = fm_pkg @ ''=595.71.05-0ubuntu0.26.04.1''"

text \<open>Other Fabric Manager packages that are installed; \<open>None\<close>: a line has no second word (\<open>IndexError\<close>).\<close>

fun stale_packages :: "string list \<Rightarrow> string list option" where
  "stale_packages [] = Some []"
| "stale_packages (l # ls) =
     (if \<not> startswith l ''ii'' then stale_packages ls
      else
        (case words l of
           _ # w # _ \<Rightarrow>
             if startswith w ''nvidia-fabricmanager'' \<and> w \<noteq> fm_pkg then map_option (Cons w) (stale_packages ls)
             else stale_packages ls
         | _ \<Rightarrow> None))"

definition dpkg_format :: string where
  "dpkg_format = ''${db:Status-Abbrev} ${Package}'' @ [newline]"

definition refuse_stale_fm :: "host_env \<Rightarrow> unit host" where
  "refuse_stale_fm env =
     bindH (or_unavailable (bindH (run env [''dpkg-query'', ''-W'', ''-f'', dpkg_format]) (\<lambda>(code, out).
              retH (stale_packages (splitlines out)))) None) (\<lambda>stale.
     case stale of
       Some (w # ws) \<Rightarrow> failH (RuntimeError ''Mismatched Fabric Manager package(s) installed'')
     | _ \<Rightarrow> retH ())"

definition start_fabric_manager :: "host_env \<Rightarrow> unit host" where
  "start_fabric_manager env =
     bindH (run env [''systemctl'', ''is-active'', ''--quiet'', ''nvidia-fabricmanager'']) (\<lambda>(code, out).
     bindH (checked env [''sudo'', ''systemctl'', ''enable'', ''nvidia-fabricmanager'']) (\<lambda>_.
     checked env [''sudo'', ''systemctl'', if code = 0 then ''restart'' else ''start'', ''nvidia-fabricmanager'']))"

definition setup_host_fabric_manager :: "host_env \<Rightarrow> unit host" where
  "setup_host_fabric_manager env =
     bindH (detect_blackwell_hgx_gpus env) (\<lambda>found.
     if \<not> found then retH ()
     else
       bindH (ensure_file env ''/etc/modules-load.d/ib_umad.conf''
                (lines_text [''# Required for B200/B300 Fabric Manager CX7 bridge communication'', ''ib_umad'']) (retH ())) (\<lambda>_.
       bindH (run env [''sudo'', ''modprobe'', ''ib_umad'']) (\<lambda>_.
       bindH (refuse_stale_fm env) (\<lambda>_.
       bindH (checked env [''apt'', ''install'', ''--yes'', ''--allow-downgrades'', fm_pkg_pinned, ''nvlsm'', ''libibumad3'', ''infiniband-diags'']) (\<lambda>_.
       bindH (patch_file env ''/usr/share/nvidia/nvswitch/fabricmanager.cfg'' fm_text (retH ())) (\<lambda>_.
       start_fabric_manager env))))))"

section \<open>Users, links and the whole set-up\<close>

definition add_user_to_kvm :: "host_env \<Rightarrow> unit host" where
  "add_user_to_kvm env =
     (let set_var = (\<lambda>k. case he_getenv env k of None \<Rightarrow> [] | Some v \<Rightarrow> v);
          user = (if set_var ''SUDO_USER'' \<noteq> [] then set_var ''SUDO_USER'' else set_var ''USER'') in
      if user = [] \<or> user = ''root'' then retH () else checked env [''sudo'', ''usermod'', ''-aG'', ''kvm'', user])"

definition pccs_dir :: string where "pccs_dir = ''/opt/intel/sgx-dcap-pccs''"

definition ensure_pccs_node_modules :: "host_env \<Rightarrow> unit host" where
  "ensure_pccs_node_modules env =
     bindH (look (\<lambda>h. he_isdir env h (pccs_dir @ ''/node_modules''))) (\<lambda>present.
     if present then retH ()
     else
       bindH (look (\<lambda>h. he_exists env h (pccs_dir @ ''/package.json''))) (\<lambda>installed.
       if \<not> installed then retH () else checked_in env pccs_dir [''npm'', ''install'', ''--prefer-offline'']))"

definition link_tool :: "host_env \<Rightarrow> string \<Rightarrow> string \<Rightarrow> unit host" where
  "link_tool env bin tool =
     (let src = bin @ ''/'' @ tool; dst = ''/usr/local/bin/'' @ tool in
      bindH (look (\<lambda>h. he_executable env h src)) (\<lambda>executable.
      if \<not> executable then retH ()
      else
        bindH (look (\<lambda>h. he_lexists env h dst)) (\<lambda>present.
        if \<not> present then symlink env src dst
        else
          bindH (look (\<lambda>h. he_islink env h dst)) (\<lambda>link.
          if link then bindH (remove_link env dst) (\<lambda>_. symlink env src dst) else retH ()))))"

definition bin_dir :: "host_env \<Rightarrow> string" where
  "bin_dir env = fst (rsplit_once (CHR ''/'') (he_scripts_dir env)) @ ''/bin''"

definition symlink_host_bin_tools :: "host_env \<Rightarrow> unit host" where
  "symlink_host_bin_tools env =
     bindH (look (\<lambda>h. he_isdir env h (bin_dir env))) (\<lambda>present.
     if \<not> present then retH ()
     else
       bindH (lookR (\<lambda>h. case he_listdir env h (bin_dir env) of
                 None \<Rightarrow> Inl (OSError 2 ''No such file or directory'') | Some fs \<Rightarrow> Inr fs)) (\<lambda>tools.
       for_each (link_tool env (bin_dir env)) tools))"

definition require_root :: "host_env \<Rightarrow> unit host" where
  "require_root env = (if he_euid env \<noteq> 0 then failH (OtherException ''SystemExit(1)'') else retH ())"

definition install_dependencies :: "host_env \<Rightarrow> unit host" where
  "install_dependencies env =
     bindH (require_root env) (\<lambda>_.
     bindH (symlink_host_bin_tools env) (\<lambda>_.
     bindH (ensure_gpu_tools_available env) (\<lambda>_. retH ())))"

definition add_sources :: "host_env \<Rightarrow> host_profile \<Rightarrow> unit host" where
  "add_sources env p =
     bindH (if hp_ppas p = [] then retH ()
            else
              bindH (checked env [''apt'', ''update'']) (\<lambda>_.
              bindH (checked env [''apt'', ''install'', ''--yes'', ''software-properties-common'', ''gawk'']) (\<lambda>_.
              for_each (add_ppa env (hp_codename p)) (hp_ppas p)))) (\<lambda>_.
     for_each (add_repo env) (hp_repos p))"

definition apt_install :: "string list \<Rightarrow> string list" where
  "apt_install pkgs = [''apt'', ''install'', ''--yes'', ''--allow-downgrades''] @ pkgs"

definition install_kernel :: "host_env \<Rightarrow> host_profile \<Rightarrow> string host" where
  "install_kernel env p =
     bindH (checked env [''apt'', ''update'']) (\<lambda>_.
     bindH (checked env (apt_install (hp_kernel_package p # hp_packages p))) (\<lambda>_.
     bindH (get_kernel_version env (hp_kernel_package p)) (\<lambda>version.
     bindH (run env (apt_install [''linux-modules-extra-'' @ version])) (\<lambda>_. retH version))))"

definition setup_host :: "host_env \<Rightarrow> host_profile \<Rightarrow> bool \<Rightarrow> unit host" where
  "setup_host env p noninteractive =
     bindH (require_root env) (\<lambda>_.
     bindH (if noninteractive then setenv ''DEBIAN_FRONTEND'' ''noninteractive'' else retH ()) (\<lambda>_.
     bindH (add_sources env p) (\<lambda>_.
     bindH (install_kernel env p) (\<lambda>version.
     bindH (if noninteractive then ensure_pccs_node_modules env else retH ()) (\<lambda>_.
     bindH (grub_set_kernel env version) (\<lambda>_.
     bindH (grub_update_cmdline env (hp_grub_additions p)) (\<lambda>_.
     bindH (blacklist_gpu_drivers env) (\<lambda>_.
     bindH (setup_host_fabric_manager env) (\<lambda>_.
     bindH (configure_qgs_vsock env) (\<lambda>_.
     bindH (configure_qcnl env) (\<lambda>_.
     bindH (add_user_to_kvm env) (\<lambda>_.
     install_dependencies env))))))))))))"

section \<open>The set-up stops at the first failure\<close>

lemma strict_option: "(x = None \<Longrightarrow> strict env m) \<Longrightarrow> (\<And>y. x = Some y \<Longrightarrow> strict env (f y)) \<Longrightarrow>
    strict env (case x of None \<Rightarrow> m | Some y \<Rightarrow> f y)"
  by (cases x) auto

lemma strict_list: "strict env m \<Longrightarrow> (\<And>y ys. strict env (f y ys)) \<Longrightarrow> strict env (case x of [] \<Rightarrow> m | y # ys \<Rightarrow> f y ys)"
  by (cases x) auto

lemmas setup_rules = strict_option strict_list strict_rules

lemma strict_add_ppa: "strict env (add_ppa env c p)"
  unfolding add_ppa_def add_ppa_manual_def make_keyrings_def fetch_key_def fetch_signing_key_def remove_stale_ppa_sources_def Let_def
  by (intro setup_rules)

lemma strict_add_repo: "strict env (add_repo env r)"
  unfolding add_repo_def make_keyrings_def fetch_key_def Let_def by (intro setup_rules)

lemma strict_sources: "strict env (add_sources env p)"
  unfolding add_sources_def by (intro setup_rules strict_add_ppa strict_add_repo)

lemma strict_kernel: "strict env (install_kernel env p)"
  unfolding install_kernel_def get_kernel_version_def by (intro setup_rules)

lemma strict_grub: "strict env (grub_set_kernel env v)" "strict env (grub_update_cmdline env ps)"
  unfolding grub_set_kernel_def first_menu_line_def quoted_field_def grub_update_cmdline_def by (intro setup_rules)+

lemma strict_ensure: "strict env m \<Longrightarrow> strict env (ensure_file env p c m)"
  unfolding ensure_file_def by (intro setup_rules)

lemma strict_patch: "strict env m \<Longrightarrow> strict env (patch_file env p f m)"
  unfolding patch_file_def by (intro setup_rules)

lemma strict_blacklist: "strict env (blacklist_gpu_drivers env)"
  unfolding blacklist_gpu_drivers_def by (intro setup_rules strict_ensure)

lemma strict_detect: "strict env (detect_blackwell_hgx_gpus env)"
  unfolding detect_blackwell_hgx_gpus_def by (intro strict_reads reads_rules)

lemma strict_refuse: "strict env (refuse_stale_fm env)"
  unfolding refuse_stale_fm_def by (intro strict_bind[OF strict_reads] reads_rules setup_rules)

lemma strict_fabric: "strict env (setup_host_fabric_manager env)"
  unfolding setup_host_fabric_manager_def start_fabric_manager_def
  by (intro strict_detect strict_refuse strict_ensure strict_patch setup_rules)

lemma strict_patches: "strict env (configure_qcnl env)" "strict env (configure_qgs_vsock env)"
  unfolding configure_qcnl_def configure_qgs_vsock_def by (intro strict_patch setup_rules)+

lemma strict_user: "strict env (add_user_to_kvm env)" "strict env (ensure_pccs_node_modules env)"
  unfolding add_user_to_kvm_def ensure_pccs_node_modules_def Let_def by (intro setup_rules)+

lemma strict_gpu_tools: "strict env (ensure_gpu_tools_available env)"
  unfolding ensure_gpu_tools_available_def
  by (intro strict_bind strict_reads[OF reads_healthy] strict_if strict_ret strict_install)

lemma strict_dependencies: "strict env (install_dependencies env)"
  unfolding install_dependencies_def require_root_def symlink_host_bin_tools_def link_tool_def Let_def
  by (intro setup_rules strict_gpu_tools)

lemma strict_setup: "strict env (setup_host env p b)"
  unfolding setup_host_def require_root_def
  by (intro strict_sources strict_kernel strict_grub strict_blacklist strict_fabric strict_patches strict_user
        strict_dependencies setup_rules)

section \<open>The command line is complete after one update\<close>

lemma split_on_nonsep: "c \<noteq> d \<Longrightarrow> split_on d (c # x) = (c # hd (split_on d x)) # tl (split_on d x)"
  by (cases "split_on d x") auto

lemma split_on_prefix_nonsep: "d \<notin> set w \<Longrightarrow> split_on d (w @ x) = (w @ hd (split_on d x)) # tl (split_on d x)"
  by (induction w) (auto simp: split_on_nonsep)

lemma hd_split_sep: "x = [] \<or> hd x = d \<Longrightarrow> hd (split_on d x) = []"
  by (cases x) auto

lemma grub_add_hd: "x = [] \<or> hd x = double_quote \<Longrightarrow> grub_add p x = [] \<or> hd (grub_add p x) = double_quote"
  by (cases x) (auto simp: cmdline_start_def double_quote_def)

lemma list_all2_hd_tl: "list_all2 P xs ys \<Longrightarrow> xs \<noteq> [] \<Longrightarrow> P (hd xs) (hd ys) \<and> list_all2 P (tl xs) (tl ys)"
  by (cases xs; cases ys) auto

text \<open>Between the quotes, texts only grow at their end.\<close>

lemma grub_add_segments:
  assumes "double_quote \<notin> set p"
  shows "list_all2 prefix (split_on double_quote s) (split_on double_quote (grub_add p s))"
  using assms
proof (induction p s rule: grub_add.induct)
  case (2 p c cs)
  show ?case
  proof (cases "startswith (c # cs) cmdline_start")
    case False
    then have "list_all2 prefix (split_on double_quote cs) (split_on double_quote (grub_add p cs))" using 2 by simp
    then show ?thesis using False
      by (cases "split_on double_quote cs"; cases "split_on double_quote (grub_add p cs)") auto
  next
    case True
    define r where "r = drop (length cmdline_start) (c # cs)"
    define rest where "rest = dropWhile (\<lambda>x. x \<noteq> double_quote) r"
    define w where "w = takeWhile (\<lambda>x. x \<noteq> double_quote) r"
    have r: "r = w @ rest" by (simp add: w_def rest_def)
    have s: "c # cs = ''GRUB_CMDLINE_LINUX='' @ double_quote # w @ rest"
      using True r unfolding r_def cmdline_start_def by (auto simp: prefix_def)
    have g: "grub_add p (c # cs) = ''GRUB_CMDLINE_LINUX='' @ double_quote # (w @ '' '' @ p) @ grub_add p rest"
      using True by (simp add: Let_def r_def rest_def w_def cmdline_start_def)
    have ih: "list_all2 prefix (split_on double_quote rest) (split_on double_quote (grub_add p rest))"
      using 2(1)[OF True r_def] 2(3) by (simp add: rest_def)
    have w: "double_quote \<notin> set w" by (auto simp: w_def dest: set_takeWhileD)
    have e: "rest = [] \<or> hd rest = double_quote" unfolding rest_def using hd_dropWhile[of "\<lambda>x. x \<noteq> double_quote" r] by blast
    have wp: "double_quote \<notin> set (w @ '' '' @ p)" using w 2(3) by (auto simp: double_quote_def)
    have n: "split_on double_quote ''GRUB_CMDLINE_LINUX='' = [''GRUB_CMDLINE_LINUX='']" by code_simp
    have ls: "split_on double_quote (c # cs) = ''GRUB_CMDLINE_LINUX='' # w # tl (split_on double_quote rest)"
      unfolding s split_on_append_sep n split_on_prefix_nonsep[OF w] hd_split_sep[OF e] by simp
    have lg: "split_on double_quote (grub_add p (c # cs)) = ''GRUB_CMDLINE_LINUX='' # (w @ '' '' @ p) # tl (split_on double_quote (grub_add p rest))"
      unfolding g split_on_append_sep n split_on_prefix_nonsep[OF wp] hd_split_sep[OF grub_add_hd[OF e]] by simp
    show ?thesis unfolding ls lg using list_all2_hd_tl[OF ih split_on_not_Nil] by simp
  qed
qed simp

lemma contains_Cons: "contains s w \<Longrightarrow> contains (c # s) w"
  by (simp add: sublist_Cons_right)

lemma split_on_grow: "w \<in> set (split_on d a) \<Longrightarrow> \<exists>w' \<in> set (split_on d (c # a)). sublist w w'"
proof (cases "c = d")
  case False
  assume "w \<in> set (split_on d a)"
  then have "w = hd (split_on d a) \<or> w \<in> set (tl (split_on d a))" by (cases "split_on d a") auto
  then show ?thesis
    using False by (auto simp: split_on_nonsep simp del: split_on.simps intro: contains_Cons)
qed auto

lemma sublist_in_segment:
  assumes "d \<notin> set q" "sublist q s"
  shows "\<exists>w \<in> set (split_on d s). sublist q w"
proof -
  obtain a b where "s = a @ q @ b" using assms(2) unfolding sublist_def by blast
  moreover have "\<exists>w \<in> set (split_on d (a @ q @ b)). sublist q w"
  proof (induction a)
    case Nil
    show ?case by (simp add: split_on_prefix_nonsep[OF assms(1)])
  next
    case (Cons c a)
    then show ?case using split_on_grow[of _ d "a @ q @ b" c] by (metis append_Cons sublist_order.order.trans)
  qed
  ultimately show ?thesis by simp
qed

lemma segment_is_sublist: "w \<in> set (split_on d s) \<Longrightarrow> sublist w s"
proof (induction s arbitrary: w)
  case (Cons c s)
  show ?case
  proof (cases "c = d")
    case True
    then show ?thesis using Cons by (auto intro: contains_Cons)
  next
    case False
    then have w: "w = c # hd (split_on d s) \<or> w \<in> set (tl (split_on d s))"
      using Cons.prems by (simp add: split_on_nonsep del: split_on.simps)
    have "prefix (hd (split_on d s)) s" by (simp add: hd_split_on takeWhile_is_prefix)
    then have "prefix (c # hd (split_on d s)) (c # s)" by simp
    then show ?thesis using w Cons.IH
      by (auto intro: contains_Cons prefix_imp_sublist dest: list.set_sel(2)[OF split_on_not_Nil])
  qed
qed simp

lemma segments_keep:
  assumes "list_all2 prefix (split_on d s) (split_on d t)" "d \<notin> set q" "contains s q"
  shows "contains t q"
proof -
  obtain w where w: "w \<in> set (split_on d s)" "sublist q w" using sublist_in_segment[OF assms(2,3)] by blast
  obtain w' where w': "w' \<in> set (split_on d t)" "prefix w w'" using assms(1) w(1) unfolding list_all2_conv_all_nth in_set_conv_nth by metis
  show ?thesis
    using w(2) prefix_imp_sublist[OF w'(2)] segment_is_sublist[OF w'(1)] by (meson sublist_order.order.trans)
qed

lemma grub_add_present:
  assumes "contains s cmdline_start"
  shows "contains (grub_add p s) p \<and> contains (grub_add p s) cmdline_start"
  using assms
proof (induction p s rule: grub_add.induct)
  case (2 p c cs)
  show ?case
  proof (cases "startswith (c # cs) cmdline_start")
    case False
    then have "contains cs cmdline_start" using 2(3) by (auto simp: sublist_Cons_right)
    then show ?thesis using 2(2) False by (auto intro: contains_Cons)
  next
    case True
    then obtain x y where "grub_add p (c # cs) = cmdline_start @ x @ p @ y"
      by (simp add: Let_def) (metis append.assoc append_Cons append_Nil)
    then show ?thesis by (metis append_Nil append.assoc sublist_appendI)
  qed
qed (simp add: cmdline_start_def)

lemma segments_trans:
  "list_all2 prefix (split_on d a) (split_on d b) \<Longrightarrow> list_all2 prefix (split_on d b) (split_on d c) \<Longrightarrow>
   list_all2 prefix (split_on d a) (split_on d c)"
  by (rule list_all2_trans[where ?P1.0 = prefix and ?P2.0 = prefix]) (auto intro: prefix_order.trans)

lemma add_missing_keeps:
  assumes "list_all (\<lambda>p. double_quote \<notin> set p) ps"
  shows "list_all2 prefix (split_on double_quote c) (split_on double_quote (fst (grub_add_missing ps (c, b))))"
  using assms
proof (induction ps arbitrary: c b)
  case (Cons p ps)
  then show ?case using segments_trans[OF grub_add_segments[of p c]] by auto
qed (simp add: list.rel_refl)

lemma add_missing_complete:
  assumes "list_all (\<lambda>p. double_quote \<notin> set p) ps" "contains c cmdline_start"
  shows "list_all (\<lambda>p. contains (fst (grub_add_missing ps (c, b))) p) ps"
  using assms
proof (induction ps arbitrary: c b)
  case (Cons p ps)
  let ?c = "if contains c p then c else grub_add p c"
  let ?b = "if contains c p then b else True"
  have e: "grub_add_missing (p # ps) (c, b) = grub_add_missing ps (?c, ?b)" by simp
  have "contains ?c p" "contains ?c cmdline_start" using grub_add_present[OF Cons.prems(2)] Cons.prems(2) by auto
  then show ?case unfolding e using Cons segments_keep[OF add_missing_keeps[of ps ?c ?b]] by simp
qed simp

lemma add_missing_nothing: "list_all (\<lambda>p. contains c p) ps \<Longrightarrow> grub_add_missing ps (c, b) = (c, b)"
  by (induction ps) auto

text \<open>
  C29: For a text that has a \<open>GRUB_CMDLINE_LINUX="\<close> and parameters without double quotes, one update leaves a text that holds
  every parameter and that a second update does not change; nothing that was written between two
  quotes is lost, it only grows at its end.
\<close>

theorem cmdline_complete_after_update:
  assumes "contains content cmdline_start" "list_all (\<lambda>p. double_quote \<notin> set p) ps"
    "grub_add_missing ps (content, False) = (updated, b)"
  shows "list_all (\<lambda>p. contains updated p) ps \<and> grub_add_missing ps (updated, False) = (updated, False) \<and>
    list_all2 prefix (split_on double_quote content) (split_on double_quote updated)"
  using add_missing_complete[OF assms(2,1), of False] add_missing_keeps[OF assms(2), of content False] assms(3)
    add_missing_nothing[of updated ps False] by simp

text \<open>Without such a line, here because the value is in single quotes, the file is rewritten as it was and nothing is added.\<close>

theorem cmdline_without_the_line:
  "(let c = ''GRUB_CMDLINE_LINUX='' @ [CHR 0x27] @ ''quiet'' @ [CHR 0x27, newline] in
    grub_add_missing tdx_cmdline (c, False) = (c, True) \<and> list_all (\<lambda>p. \<not> contains c p) tdx_cmdline)"
  by code_simp

section \<open>Settings on a line of their own: what a patch leaves\<close>

locale line_setting =
  fixes m :: "string \<Rightarrow> string option" and rep :: string
  assumes grow: "m w \<noteq> None \<Longrightarrow> m (w @ x) \<noteq> None"
    and no_text: "m [] = None"
    and to_end: "m s = Some r \<Longrightarrow> (r = [] \<or> hd r = newline) \<and> length r < length s"
    and one_line: "newline \<notin> set rep"
begin

text \<open>The lines that begin in the text.\<close>

abbreviation lines_of :: "bool \<Rightarrow> string \<Rightarrow> string list" where
  "lines_of bol s \<equiv> (if bol then split_on newline s else tl (split_on newline s))"

lemma sub_no_bol_hd: "hd (split_on newline (sub_lines m rep False s)) = hd (split_on newline s)"
proof (induction s)
  case (Cons c s)
  then show ?case by (cases "c = newline") (auto simp: split_on_nonsep simp del: split_on.simps, simp)
qed simp

lemma lines_after_match:
  assumes "r = [] \<or> hd r = newline"
  shows "split_on newline (rep @ sub_lines m rep False r) =
    rep # (if r = [] then [] else split_on newline (sub_lines m rep True (tl r)))"
  using assms one_line by (cases r) (simp_all add: split_on_prefix_nonsep)

lemma no_other_setting:
  "list_all (\<lambda>l. m l = None \<or> l = rep) (lines_of bol (sub_lines m rep bol s)) \<and>
   (sub_lines m rep bol s = s \<or> rep \<in> set (lines_of bol (sub_lines m rep bol s)))"
proof (induction s arbitrary: bol rule: length_induct)
  case (1 s)
  show ?case
  proof (cases s)
    case Nil
    then show ?thesis by (simp add: no_text)
  next
    case (Cons c cs)
    show ?thesis
    proof (cases "if bol then m s else None")
      case (Some r)
      then have b: bol and ms: "m s = Some r" by (auto split: if_split_asm)
      note e = to_end[OF ms]
      have sub: "sub_lines m rep bol s = rep @ sub_lines m rep False r" using b ms e Cons by simp
      have "list_all (\<lambda>l. m l = None \<or> l = rep) (if r = [] then [] else split_on newline (sub_lines m rep True (tl r)))"
      proof (cases r)
        case (Cons x r')
        have "length r' < length s" using e Cons by simp
        from "1.IH"[rule_format, OF this, of True] show ?thesis using Cons by simp
      qed simp
      then show ?thesis using b unfolding sub lines_after_match[OF conjunct1[OF e]] by simp
    next
      case None
      have sub: "sub_lines m rep bol s = c # sub_lines m rep (c = newline) cs" using None Cons by (cases bol) simp_all
      have "length cs < length s" using Cons by simp
      note ih = "1.IH"[rule_format, OF this, of "c = newline"]
      show ?thesis
      proof (cases "c = newline")
        case True
        then show ?thesis using ih no_text Cons unfolding sub by auto
      next
        case False
        let ?L = "split_on newline (sub_lines m rep False cs)"
        have L: "split_on newline (sub_lines m rep bol s) = (c # hd ?L) # tl ?L"
          using False unfolding sub by (simp add: split_on_nonsep del: split_on.simps)
        have "m (c # hd ?L) = None" if bol
        proof (rule ccontr)
          assume n: "m (c # hd ?L) \<noteq> None"
          have "c # hd ?L = takeWhile (\<lambda>x. x \<noteq> newline) s" using False Cons sub_no_bol_hd[of cs] by (simp add: hd_split_on)
          then have "m s \<noteq> None" using grow[OF n, of "dropWhile (\<lambda>x. x \<noteq> newline) s"] by (simp add: takeWhile_dropWhile_id)
          then show False using None that by simp
        qed
        moreover have "sub_lines m rep bol s = s" if "sub_lines m rep False cs = cs"
          using sub False that Cons by (simp only: refl if_False)
        ultimately show ?thesis using ih False unfolding L by (cases bol) auto
      qed
    qed
  qed
qed

end

lemma dropWhile_nonempty: "dropWhile P w = c # r \<Longrightarrow> dropWhile P (w @ x) = c # r @ x"
  by (induction w) auto

lemma match_setting_grow: "match_setting k w \<noteq> None \<Longrightarrow> match_setting k (w @ x) \<noteq> None"
proof -
  assume a: "match_setting k w \<noteq> None"
  then have p: "startswith w k" by (simp add: match_setting_def split: if_split_asm)
  then have d: "drop (length k) (w @ x) = drop (length k) w @ x" by (auto dest: prefix_length_le)
  obtain c r where c: "dropWhile is_space (drop (length k) w) = c # r" "c = CHR ''=''"
    using a by (auto simp: match_setting_def split: if_split_asm list.split_asm)
  have "startswith (w @ x) k" using p by (auto simp: prefix_def)
  then show ?thesis using dropWhile_nonempty[OF c(1)] c(2) d by (simp add: match_setting_def)
qed

lemma match_setting_end:
  assumes "match_setting k s = Some r"
  shows "(r = [] \<or> hd r = newline) \<and> length r < length s"
proof -
  obtain c t where t: "dropWhile is_space (drop (length k) s) = c # t" "r = dropWhile (\<lambda>x. x \<noteq> newline) t"
    using assms by (auto simp: match_setting_def split: if_split_asm list.split_asm)
  have "length (c # t) \<le> length (drop (length k) s)" unfolding t(1)[symmetric] by (rule length_dropWhile_le)
  moreover have "length r \<le> length t" unfolding t(2) by (rule length_dropWhile_le)
  ultimately have "length r < length s" by simp
  moreover have "r = [] \<or> hd r = newline" unfolding t(2) using hd_dropWhile[of "\<lambda>x. x \<noteq> newline" t] by blast
  ultimately show ?thesis by simp
qed

interpretation policy_line: line_setting "match_setting rail_policy" rail_symmetric
proof
  show "match_setting rail_policy [] = None" "newline \<notin> set rail_symmetric" by code_simp+
qed (fact match_setting_grow, fact match_setting_end)

lemma match_port_grow: "match_port w \<noteq> None \<Longrightarrow> match_port (w @ x) \<noteq> None"
proof -
  define u where "u = (\<lambda>w. if startswith w ''#'' then tl w else w :: string)"
  have p: "match_port w = match_setting ''port'' (dropWhile is_space (u w))" for w by (simp add: match_port_def u_def)
  assume a: "match_port w \<noteq> None"
  then obtain c r where c: "dropWhile is_space (u w) = c # r"
    by (cases "dropWhile is_space (u w)") (auto simp: p match_setting_def)
  then have "w \<noteq> []" by (auto simp: u_def)
  then have "u (w @ x) = u w @ x" by (cases w) (auto simp: u_def)
  then have "dropWhile is_space (u (w @ x)) = dropWhile is_space (u w) @ x" using dropWhile_nonempty[OF c] c by simp
  then show ?thesis using a match_setting_grow by (simp add: p)
qed

lemma match_port_end:
  assumes "match_port s = Some r"
  shows "(r = [] \<or> hd r = newline) \<and> length r < length s"
proof -
  let ?u = "if startswith s ''#'' then tl s else s"
  have "(r = [] \<or> hd r = newline) \<and> length r < length (dropWhile is_space ?u)"
    using match_setting_end assms unfolding match_port_def by blast
  moreover have "length (dropWhile is_space ?u) \<le> length s"
    using length_dropWhile_le[of is_space ?u] by (auto split: if_split_asm intro: le_trans)
  ultimately show ?thesis by linarith
qed

interpretation port_line: line_setting match_port vsock_port
proof
  show "match_port [] = None" "newline \<notin> set vsock_port" by code_simp+
qed (fact match_port_grow, fact match_port_end)

text \<open>
  After the patch of the QGS configuration every line that sets the port, in a comment or not, is exactly
  \<open>port = 4050\<close>, and there is one unless the text did not change.
\<close>

theorem qgs_listens_on_vsock:
  "list_all (\<lambda>l. match_port l = None \<or> l = vsock_port) (split_on newline (qgs_text s)) \<and>
   (qgs_text s = s \<or> vsock_port \<in> set (split_on newline (qgs_text s)))"
  using port_line.no_other_setting[of True s] by (simp add: qgs_text_def)

text \<open>
  The white space of the pattern spans lines: a second run finds an empty line before the setting, removes it and
  restarts the service again.
\<close>

theorem qgs_second_run_changes_the_file:
  "(let s = ''# QGS'' @ [newline, newline] @ ''#port = 4050'' @ [newline] in
    qgs_text s = ''# QGS'' @ [newline, newline] @ vsock_port @ [newline] \<and>
    qgs_text (qgs_text s) = ''# QGS'' @ [newline] @ vsock_port @ [newline])"
  by code_simp

lemma rstrip_prefix: "prefix (rstrip s) s"
proof -
  have "suffix (dropWhile is_space (rev s)) (rev s)" by (rule suffix_dropWhile)
  then show ?thesis by (simp add: rstrip_def suffix_to_prefix)
qed

text \<open>
  After the patch of the configuration of Fabric Manager every line that sets the rail policy sets it to symmetric, and
  there is one unless the text did not change.
\<close>

theorem rail_policy_is_symmetric:
  "list_all (\<lambda>l. match_setting rail_policy l = None \<or> l = rail_symmetric) (split_on newline (fm_text s)) \<and>
   (fm_text s = s \<or> rail_symmetric \<in> set (split_on newline (fm_text s)))"
proof (cases "contains s rail_policy")
  case True
  then show ?thesis using policy_line.no_other_setting[of True s] by (simp add: fm_text_def)
next
  case False
  have "newline \<notin> set rail_symmetric" by code_simp
  then have lines: "split_on newline (fm_text s) = split_on newline (rstrip s) @ [rail_symmetric, []]"
    using False split_on_append_sep[of newline "rstrip s" "rail_symmetric @ [newline]"]
      split_on_append_sep[of newline rail_symmetric "[]"] by (simp add: fm_text_def)
  have "match_setting rail_policy l = None" if "l \<in> set (split_on newline (rstrip s))" for l
  proof (rule ccontr)
    assume "match_setting rail_policy l \<noteq> None"
    then have "contains l rail_policy" by (auto simp: match_setting_def prefix_imp_sublist split: if_split_asm)
    moreover have "contains (rstrip s) l" using that by (rule segment_is_sublist)
    moreover have "contains s (rstrip s)" by (rule prefix_imp_sublist) (rule rstrip_prefix)
    ultimately show False using False by (meson sublist_order.order.trans)
  qed
  moreover have "match_setting rail_policy [] = None" by code_simp
  ultimately show ?thesis unfolding lines by (simp add: list_all_iff)
qed

text \<open>A commented entry counts as configured.\<close>

theorem commented_policy_is_kept:
  "(let s = ''# PARTITION_RAIL_POLICY=greedy'' @ [newline] in fm_text s = s)"
  by code_simp

section \<open>The set-up as a whole\<close>

definition install_events :: "host_profile \<Rightarrow> host_event list" where
  "install_events p = [Checked [''apt'', ''update''], Checked (apt_install (hp_kernel_package p # hp_packages p))]"

lemma kernel_Inr:
  assumes "install_kernel env p h = (h', Inr v)"
  shows "\<exists>code out. he_run env (h @ install_events p) [''apt'', ''show'', hp_kernel_package p] = Inr (code, out) \<and>
           find_depends out = Some v \<and> prefix (h @ install_events p) h'"
  using assms unfolding install_kernel_def get_kernel_version_def install_events_def
  by (fastforce simp: host_Inr split: option.split_asm)

definition awk_command :: "string \<Rightarrow> string list" where
  "awk_command pattern = [''awk'', ''/'' @ pattern @ ''/{print $(NF-1)}'', grub_cfg]"

definition cut_command :: "string list" where
  "cut_command = [''cut'', ''-d'' @ [CHR 0x27], ''-f2'']"

definition boot_events :: "string \<Rightarrow> host_event list" where
  "boot_events entry =
     [Wrote ''/etc/default/grub.d/99-tdx-kernel.cfg'' (lines_text [''GRUB_DEFAULT=saved'', ''GRUB_SAVEDEFAULT=true'']),
      Checked [''sudo'', ''grub-editenv'', ''/boot/grub/grubenv'', ''set'', ''saved_entry='' @ entry],
      Checked [''sudo'', ''update-grub'']]"

lemma menu_Inr: "first_menu_line env pattern h = (h', Inr l) \<longleftrightarrow>
    h' = h @ [Ran (awk_command pattern)] \<and>
    (\<exists>code out. he_run env h (awk_command pattern) = Inr (code, out) \<and> l = fst (split_once newline (strip out)))"
  by (auto simp: first_menu_line_def awk_command_def host_Inr)

lemma field_Inr: "quoted_field env line h = (h', Inr f) \<longleftrightarrow>
    h' = h @ [Piped cut_command line] \<and> (\<exists>out. he_pipe env h cut_command line = Inr (0, out) \<and> f = strip out)"
  by (auto simp: quoted_field_def cut_command_def host_Inr)

text \<open>
  \<open>menu_id env pattern h h' found\<close>: from \<open>h\<close> to \<open>h'\<close> the grub menu was searched for the pattern; what was found is the second
  quoted field of the first line that awk printed, or nothing where it printed nothing.
\<close>

definition menu_id :: "host_env \<Rightarrow> string \<Rightarrow> host_event list \<Rightarrow> host_event list \<Rightarrow> string \<Rightarrow> bool" where
  "menu_id env pattern h h' found \<longleftrightarrow>
     (\<exists>code out line. he_run env h (awk_command pattern) = Inr (code, out) \<and> line = fst (split_once newline (strip out)) \<and>
        (if line = [] then found = [] \<and> h' = h @ [Ran (awk_command pattern)]
         else \<exists>field. he_pipe env (h @ [Ran (awk_command pattern)]) cut_command line = Inr (0, field) \<and> found = strip field \<and>
           h' = h @ [Ran (awk_command pattern), Piped cut_command line]))"

text \<open>
  \<open>boots env v h h'\<close>: from \<open>h\<close> to \<open>h'\<close> the submenu and the entry of kernel \<open>v\<close> were looked up and the entry, in the
  submenu if there is one, was made the default.
\<close>

definition boots :: "host_env \<Rightarrow> string \<Rightarrow> host_event list \<Rightarrow> host_event list \<Rightarrow> bool" where
  "boots env v h h' \<longleftrightarrow>
     (\<exists>h1 h2 mid kid. menu_id env ''Advanced options for Ubuntu'' h h1 mid \<and> menu_id env (''with Linux '' @ v) h1 h2 kid \<and> kid \<noteq> [] \<and>
        h' = h2 @ boot_events (if mid = [] then kid else mid @ ''>'' @ kid))"

lemma menu_idI:
  assumes "first_menu_line env pattern h = (h1, Inr line)" "(if line = [] then retH [] else quoted_field env line) h1 = (h2, Inr found)"
  shows "menu_id env pattern h h2 found"
proof -
  obtain code out where m: "he_run env h (awk_command pattern) = Inr (code, out)" "line = fst (split_once newline (strip out))"
    "h1 = h @ [Ran (awk_command pattern)]"
    using assms(1) by (auto simp: menu_Inr)
  have "if line = [] then found = [] \<and> h2 = h @ [Ran (awk_command pattern)]
         else \<exists>field. he_pipe env (h @ [Ran (awk_command pattern)]) cut_command line = Inr (0, field) \<and> found = strip field \<and>
           h2 = h @ [Ran (awk_command pattern), Piped cut_command line]"
    using assms(2) unfolding m(3) by (cases "line = []") (simp_all add: field_Inr ret_Inr)
  with m(1,2) show ?thesis unfolding menu_id_def by blast
qed

lemma grub_boots:
  assumes "grub_set_kernel env v h = (h', Inr u)"
  shows "boots env v h h'"
  using assms unfolding grub_set_kernel_def
proof (elim bindH_InrE)
  fix h1 l h2 mid h3 line
  assume s: "first_menu_line env ''Advanced options for Ubuntu'' h = (h1, Inr l)"
    "(if l = [] then retH [] else quoted_field env l) h1 = (h2, Inr mid)"
    "first_menu_line env (''with Linux '' @ v) h2 = (h3, Inr line)"
    "(if line = [] then failH (RuntimeError ''Could not find kernel in grub.cfg menu entries'')
      else bindH (quoted_field env line) (\<lambda>kid.
        if kid = [] then failH (RuntimeError ''Could not parse grub menu id for kernel'')
        else bindH (write_system_file env ''/etc/default/grub.d/99-tdx-kernel.cfg'' (lines_text [''GRUB_DEFAULT=saved'', ''GRUB_SAVEDEFAULT=true''])) (\<lambda>_.
             bindH (checked env [''sudo'', ''grub-editenv'', ''/boot/grub/grubenv'', ''set'',
                ''saved_entry='' @ (if mid = [] then kid else mid @ ''>'' @ kid)]) (\<lambda>_.
             checked env [''sudo'', ''update-grub''])))) h3 = (h', Inr u)"
  have ln: "line \<noteq> []" using s(4) by (auto simp: fail_Inr)
  obtain kid h4 where kid: "quoted_field env line h3 = (h4, Inr kid)" "kid \<noteq> []"
    "h' = h4 @ boot_events (if mid = [] then kid else mid @ ''>'' @ kid)"
    using s(4) ln by (auto simp: host_Inr field_Inr boot_events_def split: if_split_asm)
  have "menu_id env ''Advanced options for Ubuntu'' h h2 mid" by (rule menu_idI[OF s(1,2)])
  moreover have "menu_id env (''with Linux '' @ v) h2 h4 kid" using menu_idI[OF s(3), of h4 kid] ln kid(1) by simp
  ultimately show ?thesis unfolding boots_def using kid(2,3) by blast
qed

text \<open>
  C32: A set-up that returns has installed the packages of the profile, read the version of the installed kernel from
  apt, and then saved the menu entry of just that version as the default: the identifiers of the entry and, where the menu has one,
  of the submenu are what awk and cut find in the grub menu.
\<close>

theorem setup_boots_the_installed_kernel:
  assumes "setup_host env p b h = (h', Inr u)"
  shows "\<exists>h1 code out v h2 h3. prefix h h1 \<and>
    he_run env (h1 @ install_events p) [''apt'', ''show'', hp_kernel_package p] = Inr (code, out) \<and> find_depends out = Some v \<and>
    prefix (h1 @ install_events p) h2 \<and> boots env v h2 h3 \<and> prefix h3 h'"
  using assms unfolding setup_host_def
proof (elim bindH_InrE)
  fix a1 a2 a3 a4 a5 a6 a7 a8 a9 a10 a11 a12 v x1 x2 x3 x5 x6 x7 x8 x9 x10 x11 x12
  assume s: "require_root env h = (a1, Inr x1)"
    "(if b then setenv ''DEBIAN_FRONTEND'' ''noninteractive'' else retH ()) a1 = (a2, Inr x2)"
    "add_sources env p a2 = (a3, Inr x3)" "install_kernel env p a3 = (a4, Inr v)"
    "(if b then ensure_pccs_node_modules env else retH ()) a4 = (a5, Inr x5)"
    "grub_set_kernel env v a5 = (a6, Inr x6)" "grub_update_cmdline env (hp_grub_additions p) a6 = (a7, Inr x7)"
    "blacklist_gpu_drivers env a7 = (a8, Inr x8)" "setup_host_fabric_manager env a8 = (a9, Inr x9)"
    "configure_qgs_vsock env a9 = (a10, Inr x10)" "configure_qcnl env a10 = (a11, Inr x11)"
    "add_user_to_kvm env a11 = (a12, Inr x12)" "install_dependencies env a12 = (h', Inr u)"
  have before: "prefix h a3"
  proof -
    have q: "strict env (require_root env)" "strict env (if b then setenv ''DEBIAN_FRONTEND'' ''noninteractive'' else retH ())"
      unfolding require_root_def by (intro strict_if strict_setenv strict_ret strict_fail)+
    note strict_prefix[OF q(1) s(1)]
    also note strict_prefix[OF q(2) s(2)]
    also note strict_prefix[OF strict_sources s(3)]
    finally show ?thesis .
  qed
  have q: "strict env (if b then ensure_pccs_node_modules env else retH ())" by (intro strict_if strict_user strict_ret)
  note pccs = strict_prefix[OF q s(5)]
  have after: "prefix a6 h'"
  proof -
    note strict_prefix[OF strict_grub(2) s(7)]
    also note strict_prefix[OF strict_blacklist s(8)]
    also note strict_prefix[OF strict_fabric s(9)]
    also note strict_prefix[OF strict_patches(2) s(10)]
    also note strict_prefix[OF strict_patches(1) s(11)]
    also note strict_prefix[OF strict_user(1) s(12)]
    also note strict_prefix[OF strict_dependencies s(13)]
    finally show ?thesis .
  qed
  obtain code out where k: "he_run env (a3 @ install_events p) [''apt'', ''show'', hp_kernel_package p] = Inr (code, out)"
    "find_depends out = Some v" "prefix (a3 @ install_events p) a4"
    using kernel_Inr[OF s(4)] by blast
  show ?thesis
    by (rule exI[of _ a3], rule exI[of _ code], rule exI[of _ out], rule exI[of _ v], rule exI[of _ a5], rule exI[of _ a6])
      (intro conjI before k(1,2) prefix_order.trans[OF k(3) pccs] grub_boots[OF s(6)] after)
qed

section \<open>Witnesses\<close>

definition quiet_grub :: string where
  "quiet_grub = ''GRUB_TIMEOUT=0'' @ [newline] @ cmdline_start @ ''quiet'' @ [double_quote, newline]"

lemma quiet_grub_facts:
  "contains quiet_grub cmdline_start" "list_all (\<lambda>p. double_quote \<notin> set p) tdx_cmdline"
  by code_simp+

theorem cmdline_complete_after_update_witness:
  "list_all (\<lambda>p. contains (fst (grub_add_missing tdx_cmdline (quiet_grub, False))) p) tdx_cmdline"
  using cmdline_complete_after_update[OF quiet_grub_facts prod.collapse[symmetric]] by simp

text \<open>A host on which every command prints the same and succeeds, and a small profile.\<close>

definition ready_host :: host_env where
  "ready_host = fresh_host\<lparr>he_run := (\<lambda>h cmd. Inr (0, ''Depends: linux-image-6'')), he_pipe := (\<lambda>h cmd i. Inr (0, ''k6'')),
     he_file := (\<lambda>h p. Some (Inr [])), he_exists := (\<lambda>h p. False)\<rparr>"

definition small_profile :: host_profile where
  "small_profile = default_host_profile\<lparr>hp_kernel_package := ''linux-image-generic'', hp_grub_additions := []\<rparr>"

lemma ready_host_runs: "snd (setup_host ready_host small_profile False []) = Inr ()"
  by code_simp

theorem setup_boots_the_installed_kernel_witness:
  "\<exists>v h2 h3. boots ready_host v h2 h3 \<and> prefix h3 (fst (setup_host ready_host small_profile False []))"
proof -
  have "setup_host ready_host small_profile False [] = (fst (setup_host ready_host small_profile False []), Inr ())"
    using ready_host_runs by (metis prod.collapse)
  from setup_boots_the_installed_kernel[OF this] show ?thesis by blast
qed

end
