(* ===== verification/Host_Tune.thy ===== *)
theory Host_Tune
  imports Command_Output
begin

text \<open>
  CPU tuning of the host, \<open>host-tools/scripts/chutes/host/tune.py\<close>. \<open>apply\<close> writes a shell script that \<open>restore\<close> runs;
  \<open>sh_line\<close> is how a shell reads the lines of that script. Files are a map, writes may fail. The lemmas say
  that \<open>restore\<close> undoes any number of \<open>apply\<close>.
\<close>

section \<open>Files\<close>

datatype script_failure = No_file | Partial string | No_mode

record tune_env =
  te_root :: bool                                  \<comment> \<open>\<open>os.geteuid() == 0\<close>\<close>
  te_governors :: "string list"                    \<comment> \<open>the two sorted globs\<close>
  te_state_dirs :: "string list"
  te_unreadable :: "string \<Rightarrow> bool"
  te_write_failure :: "string \<Rightarrow> exn option"
  te_sudo_failure :: "exn option"                  \<comment> \<open>sudo cannot be started\<close>
  te_script_failure :: "script_failure option"
  te_rm_fails :: bool

record tune_state =
  ts_files :: "string \<Rightarrow> string option"
  ts_exec :: bool                                  \<comment> \<open>the restore script is executable\<close>

definition restore_script :: string where
  "restore_script = ''/var/lib/chutes/tdx-host-tuning-restore.sh''"

definition disable_cstates :: "string list" where
  "disable_cstates = [''C1E'', ''C6'']"

definition read_setting :: "tune_env \<Rightarrow> tune_state \<Rightarrow> string \<Rightarrow> string option" where
  "read_setting env s p = (if te_unreadable env p then None else map_option strip (ts_files s p))"

definition put_text :: "string \<Rightarrow> string \<Rightarrow> tune_state \<Rightarrow> tune_state" where
  "put_text p v s = s\<lparr>ts_files := (ts_files s)(p \<mapsto> v)\<rparr>"

text \<open>As root the file is opened, otherwise \<open>sudo tee\<close> writes it, whose exit code is ignored.\<close>

definition write_root :: "tune_env \<Rightarrow> string \<Rightarrow> string \<Rightarrow> tune_state \<Rightarrow> tune_state \<times> unit res" where
  "write_root env p v s =
     (if te_root env then
        (case te_write_failure env p of Some e \<Rightarrow> (s, Inl e) | None \<Rightarrow> (put_text p v s, Inr ()))
      else
        (case te_sudo_failure env of
           Some e \<Rightarrow> (s, Inl e)
         | None \<Rightarrow> (if te_write_failure env p = None then put_text p v s else s, Inr ())))"

section \<open>Apply\<close>

definition restore_line :: "string \<Rightarrow> string \<Rightarrow> string" where
  "restore_line saved p = ''echo '' @ saved @ '' | sudo tee '' @ p @ '' > /dev/null''"

text \<open>What both loops do with a file: remember its text, unless the host is tuned already, and write it.\<close>

definition tune_one :: "tune_env \<Rightarrow> bool \<Rightarrow> string \<Rightarrow> string \<Rightarrow> string list \<Rightarrow> tune_state \<Rightarrow> tune_state \<times> string list res" where
  "tune_one env tuned p v cmds s =
     (let cmds' = (if tuned then cmds
                   else (case read_setting env s p of None \<Rightarrow> cmds | Some saved \<Rightarrow> cmds @ [restore_line saved p])) in
      case write_root env p v s of (s', Inl e) \<Rightarrow> (s', Inl e) | (s', Inr u) \<Rightarrow> (s', Inr cmds'))"

fun tune_governors :: "tune_env \<Rightarrow> bool \<Rightarrow> string list \<Rightarrow> string list \<Rightarrow> tune_state \<Rightarrow> tune_state \<times> string list res" where
  "tune_governors env tuned [] cmds s = (s, Inr cmds)"
| "tune_governors env tuned (p # ps) cmds s =
     (case tune_one env tuned p ''performance'' cmds s of
        (s', Inl e) \<Rightarrow> (s', Inl e)
      | (s', Inr cmds') \<Rightarrow> tune_governors env tuned ps cmds' s')"

definition state_name :: "string \<Rightarrow> string" where "state_name d = d @ ''/name''"
definition state_disable :: "string \<Rightarrow> string" where "state_disable d = d @ ''/disable''"

definition deep_state :: "tune_env \<Rightarrow> tune_state \<Rightarrow> string \<Rightarrow> bool" where
  "deep_state env s d = (case read_setting env s (state_name d) of None \<Rightarrow> False | Some n \<Rightarrow> n \<in> set disable_cstates)"

fun tune_cstates :: "tune_env \<Rightarrow> bool \<Rightarrow> string list \<Rightarrow> string list \<Rightarrow> tune_state \<Rightarrow> tune_state \<times> string list res" where
  "tune_cstates env tuned [] cmds s = (s, Inr cmds)"
| "tune_cstates env tuned (d # ds) cmds s =
     (if \<not> deep_state env s d then tune_cstates env tuned ds cmds s
      else
        (case tune_one env tuned (state_disable d) ''1'' cmds s of
           (s', Inl e) \<Rightarrow> (s', Inl e)
         | (s', Inr cmds') \<Rightarrow> tune_cstates env tuned ds cmds' s'))"

definition script_header :: "string list" where
  "script_header = [''#!/usr/bin/env bash'', ''# Restore host CPU settings captured before TDX host tuning.'',
     ''# Generated by chutes.host.tune apply -- do not edit.'', '''']"

definition single_quote :: char where "single_quote = CHR 0x27"

definition script_footer :: "string list" where
  "script_footer = ['''', ''echo '' @ [single_quote] @ ''Host CPU settings restored.'' @ [single_quote], ''rm -f '' @ restore_script]"

definition write_script :: "tune_env \<Rightarrow> string list \<Rightarrow> tune_state \<Rightarrow> tune_state" where
  "write_script env cmds s =
     (let text = join_with [newline] (cmds @ script_footer) @ [newline] in
      case te_script_failure env of
        None \<Rightarrow> (put_text restore_script text s)\<lparr>ts_exec := True\<rparr>
      | Some No_file \<Rightarrow> s
      | Some (Partial t) \<Rightarrow> (put_text restore_script t s)\<lparr>ts_exec := False\<rparr>
      | Some No_mode \<Rightarrow> (put_text restore_script text s)\<lparr>ts_exec := False\<rparr>)"

definition apply_tuning :: "tune_env \<Rightarrow> tune_state \<Rightarrow> tune_state \<times> unit res" where
  "apply_tuning env s =
     (let tuned = ts_files s restore_script \<noteq> None in
      case tune_governors env tuned (te_governors env) script_header s of
        (s1, Inl e) \<Rightarrow> (s1, Inl e)
      | (s1, Inr cmds1) \<Rightarrow>
          (case tune_cstates env tuned (te_state_dirs env) cmds1 s1 of
             (s2, Inl e) \<Rightarrow> (s2, Inl e)
           | (s2, Inr cmds2) \<Rightarrow> (if tuned then s2 else write_script env cmds2 s2, Inr ())))"

section \<open>Restore\<close>

datatype sh_effect = Sh_nothing | Sh_tee string string | Sh_remove string | Sh_unknown

text \<open>A word that the shell and \<open>echo\<close> take as it is.\<close>

definition sh_char :: "char \<Rightarrow> bool" where
  "sh_char c \<longleftrightarrow> alnum_char c \<or> c \<in> set ''/_.-''"

definition sh_word :: "string \<Rightarrow> bool" where
  "sh_word w \<longleftrightarrow> w \<noteq> [] \<and> list_all sh_char w \<and> hd w \<noteq> CHR ''-''"

definition sh_line :: "string \<Rightarrow> sh_effect" where
  "sh_line l =
     (if l = [] \<or> startswith l ''#'' \<or> startswith l (''echo '' @ [single_quote]) then Sh_nothing
      else
        (case filter (\<lambda>w. w \<noteq> []) (split_on (CHR '' '') l) of
           [w1, v, w2, w3, w4, p, w5, w6] \<Rightarrow>
             if [w1, w2, w3, w4, w5, w6] = [''echo'', ''|'', ''sudo'', ''tee'', ''>'', ''/dev/null''] \<and> sh_word v \<and> sh_word p
             then Sh_tee p (v @ [newline]) else Sh_unknown
         | [w1, w2, p] \<Rightarrow> if [w1, w2] = [''rm'', ''-f''] \<and> sh_word p then Sh_remove p else Sh_unknown
         | _ \<Rightarrow> Sh_unknown))"

definition sh_effect_on :: "tune_env \<Rightarrow> sh_effect \<Rightarrow> tune_state \<Rightarrow> tune_state option" where
  "sh_effect_on env e s =
     (case e of
        Sh_nothing \<Rightarrow> Some s
      | Sh_tee p v \<Rightarrow>
          Some (if te_write_failure env p = None \<and> te_sudo_failure env = None then put_text p v s else s)
      | Sh_remove p \<Rightarrow> Some (if te_rm_fails env then s else s\<lparr>ts_files := (ts_files s)(p := None)\<rparr>)
      | Sh_unknown \<Rightarrow> None)"

fun sh_lines :: "tune_env \<Rightarrow> string list \<Rightarrow> tune_state \<Rightarrow> tune_state option" where
  "sh_lines env [] s = Some s"
| "sh_lines env (l # ls) s = (case sh_effect_on env (sh_line l) s of None \<Rightarrow> None | Some s' \<Rightarrow> sh_lines env ls s')"

text \<open>\<open>None\<close>: a line of the script is not one that \<open>sh_line\<close> reads. The exit code is only printed.\<close>

definition restore_tuning :: "tune_env \<Rightarrow> tune_state \<Rightarrow> (tune_state \<times> unit res) option" where
  "restore_tuning env s =
     (case ts_files s restore_script of
        None \<Rightarrow> Some (s, Inr ())
      | Some text \<Rightarrow>
          if \<not> ts_exec s then Some (s, Inl (PermissionError restore_script))
          else map_option (\<lambda>s'. (s', Inr ())) (sh_lines env (split_on newline text) s))"

datatype tune_action = Apply | Restore

definition tune_main :: "tune_env \<Rightarrow> tune_action \<Rightarrow> tune_state \<Rightarrow> (tune_state \<times> unit res) option" where
  "tune_main env a s = (case a of Apply \<Rightarrow> Some (apply_tuning env s) | Restore \<Rightarrow> restore_tuning env s)"

section \<open>What apply leaves\<close>

text \<open>The files \<open>apply\<close> writes besides the script.\<close>

definition deep_states :: "tune_env \<Rightarrow> tune_state \<Rightarrow> string set" where
  "deep_states env s = state_disable ` {d \<in> set (te_state_dirs env). deep_state env s d}"

definition settings :: "tune_env \<Rightarrow> tune_state \<Rightarrow> string set" where
  "settings env s = set (te_governors env) \<union> deep_states env s"

definition unchanged :: "tune_env \<Rightarrow> string set \<Rightarrow> tune_state \<Rightarrow> tune_state \<Rightarrow> bool" where
  "unchanged env T s s' \<longleftrightarrow> ts_exec s' = ts_exec s \<and> (\<forall>q. q \<notin> T \<or> te_write_failure env q \<noteq> None \<longrightarrow> ts_files s' q = ts_files s q)"

lemma unchanged_refl [simp]: "unchanged env T s s"
  by (simp add: unchanged_def)

lemma unchanged_trans: "unchanged env T s s' \<Longrightarrow> unchanged env U s' s'' \<Longrightarrow> unchanged env (T \<union> U) s s''"
  by (auto simp: unchanged_def)

lemma unchanged_mono: "unchanged env T s s' \<Longrightarrow> T \<subseteq> U \<Longrightarrow> unchanged env U s s'"
  by (auto simp: unchanged_def)

lemma write_root_unchanged: "write_root env p v s = (s', r) \<Longrightarrow> unchanged env {p} s s'"
  by (auto simp: write_root_def put_text_def unchanged_def split: if_split_asm option.split_asm)

lemma tune_one_unchanged: "tune_one env tuned p v cmds s = (s', r) \<Longrightarrow> unchanged env {p} s s'"
  unfolding tune_one_def Let_def by (auto split: prod.split_asm sum.split_asm dest: write_root_unchanged)

lemma governors_unchanged: "tune_governors env tuned ps cmds s = (s', r) \<Longrightarrow> unchanged env (set ps) s s'"
proof (induction ps arbitrary: cmds s)
  case (Cons p ps)
  obtain s1 r1 where one: "tune_one env tuned p ''performance'' cmds s = (s1, r1)" by fastforce
  note u = tune_one_unchanged[OF one]
  show ?case
  proof (cases r1)
    case (Inl e)
    then show ?thesis using Cons.prems one u by (auto intro: unchanged_mono)
  next
    case (Inr c)
    then have "unchanged env (set ps) s1 s'" using Cons one by simp
    from unchanged_trans[OF u this] show ?thesis by simp
  qed
qed simp

lemma name_not_disable: "state_name d \<noteq> state_disable e"
proof
  assume "state_name d = state_disable e"
  then have "rev (state_name d) = rev (state_disable e)" by (rule arg_cong)
  then show False by (simp add: state_name_def state_disable_def)
qed

lemma name_not_script: "state_name d \<noteq> restore_script"
proof
  assume "state_name d = restore_script"
  then have "rev (state_name d) = rev restore_script" by (rule arg_cong)
  then show False by (simp add: state_name_def restore_script_def)
qed

lemma deep_state_cong: "ts_files s (state_name d) = ts_files s' (state_name d) \<Longrightarrow> deep_state env s d = deep_state env s' d"
  by (simp add: deep_state_def read_setting_def)

lemma tune_state_names: "tune_one env tuned (state_disable e) v cmds s = (s', r) \<Longrightarrow> deep_state env s' d = deep_state env s d"
  by (rule deep_state_cong, drule tune_one_unchanged) (simp add: unchanged_def name_not_disable)

lemma cstates_unchanged:
  "tune_cstates env tuned ds cmds s = (s', r) \<Longrightarrow> unchanged env (state_disable ` {d \<in> set ds. deep_state env s d}) s s'"
proof (induction ds arbitrary: cmds s)
  case (Cons d ds)
  obtain s1 r1 where one: "tune_one env tuned (state_disable d) ''1'' cmds s = (s1, r1)" by fastforce
  note u = tune_one_unchanged[OF one] and n = tune_state_names[OF one]
  show ?case
  proof (cases "deep_state env s d")
    case False
    then have "unchanged env (state_disable ` {d \<in> set ds. deep_state env s d}) s s'" using Cons by simp
    then show ?thesis by (rule unchanged_mono) auto
  next
    case True
    show ?thesis
    proof (cases r1)
      case (Inl e)
      then have "s' = s1" using Cons.prems True one by simp
      then show ?thesis using u True by (auto intro: unchanged_mono)
    next
      case (Inr c)
      then have "unchanged env (state_disable ` {d \<in> set ds. deep_state env s d}) s1 s'"
        using Cons.IH[of c s1] Cons.prems True one n by simp
      from unchanged_trans[OF u this] show ?thesis by (rule unchanged_mono) (use True in auto)
    qed
  qed
qed simp

text \<open>An \<open>apply\<close> on a tuned host leaves the script and everything but the settings alone.\<close>

definition names_apart :: "tune_env \<Rightarrow> bool" where
  "names_apart env \<longleftrightarrow> list_all (\<lambda>d. state_name d \<notin> set (te_governors env)) (te_state_dirs env)"

lemma governors_names:
  assumes "names_apart env" "d \<in> set (te_state_dirs env)" "unchanged env (set (te_governors env)) s s'"
  shows "deep_state env s' d = deep_state env s d"
  by (rule deep_state_cong) (use assms in \<open>simp add: unchanged_def names_apart_def list_all_iff\<close>)

lemma deep_states_cong: "(\<And>d. d \<in> set (te_state_dirs env) \<Longrightarrow> deep_state env s' d = deep_state env s d) \<Longrightarrow> deep_states env s' = deep_states env s"
  unfolding deep_states_def by (metis (no_types, lifting) Collect_cong)

lemma reapply_unchanged:
  assumes "ts_files s restore_script \<noteq> None" "names_apart env"
  shows "unchanged env (settings env s) s (fst (apply_tuning env s))"
proof -
  obtain s1 r1 where g: "tune_governors env True (te_governors env) script_header s = (s1, r1)" by fastforce
  note u1 = governors_unchanged[OF g]
  show ?thesis
  proof (cases r1)
    case (Inl e)
    then have "fst (apply_tuning env s) = s1" using assms g by (simp add: apply_tuning_def Let_def)
    then show ?thesis using u1 by (auto simp: settings_def intro: unchanged_mono)
  next
    case (Inr cmds)
    obtain s2 r2 where c: "tune_cstates env True (te_state_dirs env) cmds s1 = (s2, r2)" by fastforce
    have "deep_states env s1 = deep_states env s" by (rule deep_states_cong) (rule governors_names[OF assms(2) _ u1])
    then have "unchanged env (settings env s) s s2"
      using unchanged_trans[OF u1 cstates_unchanged[OF c]] by (simp add: settings_def deep_states_def)
    moreover have "fst (apply_tuning env s) = s2" using assms g c Inr by (cases r2) (simp_all add: apply_tuning_def Let_def)
    ultimately show ?thesis by simp
  qed
qed

section \<open>The snapshot\<close>

text \<open>
  \<open>snapshot env s0 P cmds s\<close>: \<open>cmds\<close> restores the files of \<open>P\<close>, which are the only ones written since \<open>s0\<close>.
\<close>

definition snapshot :: "tune_env \<Rightarrow> tune_state \<Rightarrow> string set \<Rightarrow> string list \<Rightarrow> tune_state \<Rightarrow> bool" where
  "snapshot env s0 P cmds s \<longleftrightarrow> unchanged env P s0 s \<and>
     (\<exists>es. cmds = script_header @ map (\<lambda>(v, p). restore_line v p) es \<and> snd ` set es \<subseteq> P \<and>
        (\<forall>(v, p) \<in> set es. read_setting env s0 p = Some v) \<and>
        (\<forall>p \<in> P. read_setting env s0 p \<noteq> None \<longrightarrow> p \<in> snd ` set es))"

lemma snapshot_start: "snapshot env s0 {} script_header s0"
  by (auto simp: snapshot_def intro!: exI[of _ "[]"])

lemma snapshot_one:
  assumes "snapshot env s0 P cmds s" "p \<notin> P" "tune_one env False p v cmds s = (s', Inr cmds')"
  shows "snapshot env s0 (insert p P) cmds' s'"
proof -
  obtain es where es: "cmds = script_header @ map (\<lambda>(v, p). restore_line v p) es" "snd ` set es \<subseteq> P"
    "\<forall>(v, p) \<in> set es. read_setting env s0 p = Some v" "\<forall>p \<in> P. read_setting env s0 p \<noteq> None \<longrightarrow> p \<in> snd ` set es"
    using assms(1) unfolding snapshot_def by blast
  have u0: "unchanged env P s0 s" using assms(1) unfolding snapshot_def by simp
  have same: "ts_files s p = ts_files s0 p" using u0 assms(2) by (simp add: unchanged_def)
  then have read: "read_setting env s p = read_setting env s0 p" by (simp add: read_setting_def)
  obtain u where w: "write_root env p v s = (s', Inr u)"
    using assms(3) by (auto simp: tune_one_def Let_def split: prod.split_asm sum.split_asm)
  have c: "cmds' = (case read_setting env s0 p of None \<Rightarrow> cmds | Some saved \<Rightarrow> cmds @ [restore_line saved p])"
    using assms(3) read by (auto simp: tune_one_def Let_def split: prod.split_asm sum.split_asm)
  have u: "unchanged env (insert p P) s0 s'" using unchanged_trans[OF u0 write_root_unchanged[OF w]] by simp
  show ?thesis
  proof (cases "read_setting env s0 p")
    case None
    then show ?thesis unfolding snapshot_def using u es c by (intro conjI exI[of _ es]) auto
  next
    case (Some saved)
    then show ?thesis unfolding snapshot_def using u es c
      by (intro conjI exI[of _ "es @ [(saved, p)]"]) auto
  qed
qed

lemma snapshot_governors:
  assumes "tune_governors env False ps cmds s = (s', Inr cmds')" "snapshot env s0 P cmds s"
    "distinct ps" "set ps \<inter> P = {}"
  shows "snapshot env s0 (P \<union> set ps) cmds' s'"
  using assms
proof (induction ps arbitrary: cmds s P)
  case (Cons p ps)
  obtain s1 c where one: "tune_one env False p ''performance'' cmds s = (s1, Inr c)"
    and rest: "tune_governors env False ps c s1 = (s', Inr cmds')"
    using Cons.prems(1) by (auto split: prod.split_asm sum.split_asm)
  have "snapshot env s0 (insert p P) c s1" using snapshot_one[OF Cons.prems(2) _ one] Cons.prems(4) by simp
  then have "snapshot env s0 (insert p P \<union> set ps) cmds' s'"
    using Cons.IH[OF rest, of "insert p P"] Cons.prems(3,4) by simp
  then show ?case by simp
qed simp

lemma snapshot_cstates:
  assumes "tune_cstates env False ds cmds s = (s', Inr cmds')" "snapshot env s0 P cmds s"
    "distinct (map state_disable ds)" "state_disable ` set ds \<inter> P = {}"
  shows "snapshot env s0 (P \<union> state_disable ` {d \<in> set ds. deep_state env s d}) cmds' s'"
  using assms
proof (induction ds arbitrary: cmds s P)
  case (Cons d ds)
  have d: "distinct (map state_disable ds)" "state_disable ` set ds \<inter> insert (state_disable d) P = {}"
    using Cons.prems(3,4) by auto
  show ?case
  proof (cases "deep_state env s d")
    case False
    then have rest: "tune_cstates env False ds cmds s = (s', Inr cmds')" using Cons.prems(1) by simp
    have e: "{e \<in> set (d # ds). deep_state env s e} = {e \<in> set ds. deep_state env s e}" using False by auto
    show ?thesis unfolding e using Cons.IH[OF rest Cons.prems(2) d(1)] d(2) by simp
  next
    case True
    then obtain s1 c where one: "tune_one env False (state_disable d) ''1'' cmds s = (s1, Inr c)"
      and rest: "tune_cstates env False ds c s1 = (s', Inr cmds')"
      using Cons.prems(1) by (auto split: prod.split_asm sum.split_asm)
    have snap: "snapshot env s0 (insert (state_disable d) P) c s1"
      using snapshot_one[OF Cons.prems(2) _ one] Cons.prems(4) by simp
    have e: "P \<union> state_disable ` {e \<in> set (d # ds). deep_state env s e} =
             insert (state_disable d) P \<union> state_disable ` {e \<in> set ds. deep_state env s1 e}"
      using True tune_state_names[OF one] by auto
    show ?thesis unfolding e by (rule Cons.IH[OF rest snap d])
  qed
qed simp

text \<open>
  A host as sysfs is: every file is listed once, its path and its text are plain words, and no setting is the
  script or the name of a C-state.
\<close>

definition plain_setting :: "tune_env \<Rightarrow> tune_state \<Rightarrow> string \<Rightarrow> bool" where
  "plain_setting env s p \<longleftrightarrow> sh_word p \<and> p \<noteq> restore_script \<and> (case read_setting env s p of None \<Rightarrow> True | Some v \<Rightarrow> sh_word v)"

definition plain_host :: "tune_env \<Rightarrow> tune_state \<Rightarrow> bool" where
  "plain_host env s \<longleftrightarrow> names_apart env \<and> distinct (te_governors env @ map state_disable (te_state_dirs env)) \<and>
     list_all (plain_setting env s) (te_governors env @ map state_disable (te_state_dirs env))"

lemma plain_settings: "plain_host env s \<Longrightarrow> p \<in> settings env s \<Longrightarrow> plain_setting env s p"
  by (auto simp: plain_host_def settings_def deep_states_def list_all_iff)

lemma apply_snapshot:
  assumes "plain_host env s0" "ts_files s0 restore_script = None" "te_script_failure env = None"
    "apply_tuning env s0 = (s', Inr u)"
  obtains cmds s where "snapshot env s0 (settings env s0) cmds s"
    "s' = (put_text restore_script (join_with [newline] (cmds @ script_footer) @ [newline]) s)\<lparr>ts_exec := True\<rparr>"
proof -
  obtain s1 c1 where g: "tune_governors env False (te_governors env) script_header s0 = (s1, Inr c1)"
    using assms(2,4) by (auto simp: apply_tuning_def Let_def split: prod.split_asm sum.split_asm)
  obtain s2 c2 where c: "tune_cstates env False (te_state_dirs env) c1 s1 = (s2, Inr c2)" "s' = write_script env c2 s2"
    using assms(2,4) g by (auto simp: apply_tuning_def Let_def split: prod.split_asm sum.split_asm)
  have d: "distinct (te_governors env)" "distinct (map state_disable (te_state_dirs env))"
    "state_disable ` set (te_state_dirs env) \<inter> set (te_governors env) = {}" and n: "names_apart env"
    using assms(1) by (auto simp: plain_host_def)
  have s: "snapshot env s0 (set (te_governors env)) c1 s1" using snapshot_governors[OF g snapshot_start] d by simp
  have "deep_states env s1 = deep_states env s0"
    by (rule deep_states_cong) (rule governors_names[OF n _ governors_unchanged[OF g]])
  then have "snapshot env s0 (settings env s0) c2 s2"
    using snapshot_cstates[OF c(1) s d(2,3)] by (simp add: settings_def deep_states_def)
  then show ?thesis by (rule that) (use c(2) assms(3) in \<open>simp add: write_script_def Let_def\<close>)
qed

section \<open>What the script does\<close>

lemma sh_char_facts: "\<not> sh_char (CHR '' '')" "\<not> sh_char newline" "\<not> sh_char (CHR ''|'')" "\<not> sh_char single_quote"
  by code_simp+

lemma sh_word_absent: "sh_word w \<Longrightarrow> \<not> sh_char c \<Longrightarrow> c \<notin> set w"
  by (auto simp: sh_word_def list_all_iff)

lemma sh_restore_line:
  assumes "sh_word v" "sh_word p"
  shows "sh_line (restore_line v p) = Sh_tee p (v @ [newline])"
proof -
  have s: "CHR '' '' \<notin> set v" "CHR '' '' \<notin> set p" using assms sh_word_absent sh_char_facts by blast+
  obtain a v' where v: "v = a # v'" using assms(1) by (cases v) (auto simp: sh_word_def)
  have a: "a \<noteq> single_quote" using sh_word_absent[OF assms(1) sh_char_facts(4)] v by auto
  have "restore_line v p = ''echo'' @ CHR '' '' # v @ CHR '' '' # ''|'' @ CHR '' '' # ''sudo'' @ CHR '' '' # ''tee'' @ CHR '' '' # p @ CHR '' '' # ''>'' @ CHR '' '' # ''/dev/null''"
    by (simp add: restore_line_def)
  then have "split_on (CHR '' '') (restore_line v p) = [''echo'', v, ''|'', ''sudo'', ''tee'', p, ''>'', ''/dev/null'']"
    using s by (simp only: split_on_append_sep) simp
  moreover have "\<not> startswith (restore_line v p) ''#''" "\<not> startswith (restore_line v p) (''echo '' @ [single_quote])"
    "restore_line v p \<noteq> []" using a by (auto simp: restore_line_def v)
  moreover have "v \<noteq> []" "p \<noteq> []" using assms by (auto simp: sh_word_def)
  ultimately show ?thesis using assms by (simp add: sh_line_def)
qed

lemma sh_lines_append:
  "sh_lines env (xs @ ys) s = (case sh_lines env xs s of None \<Rightarrow> None | Some s' \<Rightarrow> sh_lines env ys s')"
  by (induction xs arbitrary: s) (auto split: option.split)

lemma split_script:
  assumes "xs \<noteq> []" "list_all (\<lambda>x. c \<notin> set x) xs"
  shows "split_on c (join_with [c] xs @ [c]) = xs @ [[]]"
  using assms
proof (induction xs)
  case (Cons x xs)
  show ?case
  proof (cases "xs = []")
    case True
    then show ?thesis using Cons.prems split_on_append_sep[of c x "[]"] by simp
  next
    case False
    then have "join_with [c] (x # xs) @ [c] = x @ c # (join_with [c] xs @ [c])" by (simp add: join_with_Cons)
    then show ?thesis using Cons False by (simp only: split_on_append_sep) simp
  qed
qed simp

lemma sh_nothing_lines: "list_all (\<lambda>l. sh_line l = Sh_nothing) ls \<Longrightarrow> sh_lines env ls s = Some s"
  by (induction ls) (auto simp: sh_effect_on_def)

lemma frame_lines:
  "list_all (\<lambda>l. sh_line l = Sh_nothing) script_header"
  "list_all (\<lambda>l. sh_line l = Sh_nothing) (take 2 script_footer)"
  "sh_line (''rm -f '' @ restore_script) = Sh_remove restore_script" "sh_line [] = Sh_nothing"
  "list_all (\<lambda>l. newline \<notin> set l) script_header" "list_all (\<lambda>l. newline \<notin> set l) script_footer"
  by code_simp+

lemma restore_line_one_line:
  assumes "sh_word v" "sh_word p"
  shows "newline \<notin> set (restore_line v p)"
proof -
  have "newline \<notin> set ''echo ''" "newline \<notin> set '' | sudo tee ''" "newline \<notin> set '' > /dev/null''" by code_simp+
  then show ?thesis using assms sh_word_absent[OF _ sh_char_facts(2)] by (simp add: restore_line_def)
qed

lemma sh_restore_lines:
  assumes "list_all (\<lambda>(v, p). f p = Some v \<and> sh_word v \<and> sh_word p) es" "te_sudo_failure env = None"
  shows "\<exists>s'. sh_lines env (map (\<lambda>(v, p). restore_line v p) es) s = Some s' \<and>
     (\<forall>q. ts_files s' q = (if q \<in> snd ` set es \<and> te_write_failure env q = None
                            then map_option (\<lambda>v. v @ [newline]) (f q) else ts_files s q))"
  using assms(1)
proof (induction es arbitrary: s)
  case (Cons e es)
  obtain v p where e: "e = (v, p)" by fastforce
  have vp: "f p = Some v" "sh_word v" "sh_word p" using Cons.prems e by auto
  let ?s = "if te_write_failure env p = None \<and> te_sudo_failure env = None then put_text p (v @ [newline]) s else s"
  have "sh_lines env (map (\<lambda>(v, p). restore_line v p) (e # es)) s = sh_lines env (map (\<lambda>(v, p). restore_line v p) es) ?s"
    by (simp only: list.map e prod.case sh_lines.simps sh_restore_line[OF vp(2,3)] sh_effect_on_def sh_effect.case option.case)
  moreover obtain s' where "sh_lines env (map (\<lambda>(v, p). restore_line v p) es) ?s = Some s'"
    "\<forall>q. ts_files s' q = (if q \<in> snd ` set es \<and> te_write_failure env q = None
                            then map_option (\<lambda>v. v @ [newline]) (f q) else ts_files ?s q)"
    using Cons.IH[of ?s] Cons.prems by auto
  ultimately show ?case using vp(1) assms(2) e by (intro exI[of _ s']) (auto simp: put_text_def)
qed simp

lemma strip_snoc_space: "is_space b \<Longrightarrow> strip (s @ [b]) = strip s"
  by (cases "\<forall>x \<in> set s. is_space x") (auto simp: strip_def dropWhile_append dest: set_dropWhileD)

lemma strip_newline: "strip (strip c @ [newline]) = strip c"
proof -
  have "is_space newline" by code_simp
  then show ?thesis by (simp add: strip_snoc_space)
qed

lemma footer_runs:
  "\<exists>s'. sh_lines env (script_footer @ [[]]) s = Some s' \<and> (\<forall>q. q \<noteq> restore_script \<longrightarrow> ts_files s' q = ts_files s q)"
proof -
  have "script_footer @ [[]] = take 2 script_footer @ [''rm -f '' @ restore_script, []]" by (simp add: script_footer_def)
  then show ?thesis using sh_nothing_lines[OF frame_lines(2), of env s]
    by (simp only: sh_lines_append option.case sh_lines.simps frame_lines(3,4) sh_effect_on_def sh_effect.case) auto
qed

section \<open>Restore undoes apply\<close>

fun applied :: "tune_env \<Rightarrow> nat \<Rightarrow> tune_state \<Rightarrow> tune_state" where
  "applied env 0 s = s"
| "applied env (Suc n) s = applied env n (fst (apply_tuning env s))"

lemma applied_unchanged:
  assumes "ts_files s restore_script \<noteq> None" "names_apart env" "restore_script \<notin> settings env s"
  shows "unchanged env (settings env s) s (applied env n s)"
  using assms
proof (induction n arbitrary: s)
  case (Suc n)
  let ?s = "fst (apply_tuning env s)"
  note u = reapply_unchanged[OF Suc.prems(1,2)]
  have "set (te_governors env) \<subseteq> settings env s" by (simp add: settings_def)
  have "deep_states env ?s = deep_states env s"
  proof (rule deep_states_cong, rule deep_state_cong)
    fix d assume "d \<in> set (te_state_dirs env)"
    then have "state_name d \<notin> settings env s" using Suc.prems(2)
      by (auto simp: settings_def deep_states_def names_apart_def list_all_iff name_not_disable)
    then show "ts_files ?s (state_name d) = ts_files s (state_name d)" using u by (simp add: unchanged_def)
  qed
  then have e: "settings env ?s = settings env s" by (simp add: settings_def)
  have "ts_files ?s restore_script \<noteq> None" using u Suc.prems by (simp add: unchanged_def)
  then have "unchanged env (settings env s) ?s (applied env n ?s)" using Suc.IH[of ?s] Suc.prems e by simp
  from unchanged_trans[OF u this] show ?case by simp
qed simp


section \<open>Witnesses\<close>

text \<open>Two CPUs; C1E and C6 are disabled, C1 is not.\<close>

definition sample_tune :: tune_env where
  "sample_tune = \<lparr>te_root = True, te_governors = [''/sys/cpu0/g'', ''/sys/cpu1/g''],
     te_state_dirs = [''/sys/cpu0/s1'', ''/sys/cpu0/s2''], te_unreadable = (\<lambda>p. False),
     te_write_failure = (\<lambda>p. None), te_sudo_failure = None, te_script_failure = None, te_rm_fails = False\<rparr>"

definition sample_cpus :: tune_state where
  "sample_cpus = \<lparr>ts_files = map_of [(''/sys/cpu0/g'', ''powersave'' @ [newline]), (''/sys/cpu1/g'', ''schedutil'' @ [newline]),
     (''/sys/cpu0/s1/name'', ''C1'' @ [newline]), (''/sys/cpu0/s1/disable'', ''0'' @ [newline]),
     (''/sys/cpu0/s2/name'', ''C6'' @ [newline]), (''/sys/cpu0/s2/disable'', ''0'' @ [newline])], ts_exec = False\<rparr>"

lemma sample_tuned:
  "ts_files (fst (apply_tuning sample_tune sample_cpus)) ''/sys/cpu0/g'' = Some ''performance''"
  "ts_files (fst (apply_tuning sample_tune sample_cpus)) ''/sys/cpu0/s2/disable'' = Some ''1''"
  "ts_files (fst (apply_tuning sample_tune sample_cpus)) ''/sys/cpu0/s1/disable'' = Some (''0'' @ [newline])"
  "snd (apply_tuning sample_tune sample_cpus) = Inr ()" "plain_host sample_tune sample_cpus"
  "ts_files sample_cpus restore_script = None" "te_script_failure sample_tune = None" "te_sudo_failure sample_tune = None"
  "read_setting sample_tune sample_cpus ''/sys/cpu0/g'' = Some ''powersave''"
  "map_option strip (ts_files sample_cpus ''/sys/cpu0/g'') = Some ''powersave''" "''/sys/cpu0/g'' \<noteq> restore_script"
  by code_simp+


text \<open>
  A write that fails as root ends \<open>apply\<close> before the script is written; what was changed until then is saved as the
  original by the next \<open>apply\<close>, and \<open>restore\<close> sets it again.
\<close>

definition failing_tune :: tune_env where
  "failing_tune = sample_tune\<lparr>te_write_failure := (\<lambda>p. if p = ''/sys/cpu1/g'' then Some (OSError 22 ''Invalid argument'') else None)\<rparr>"

theorem failed_apply_loses_the_original:
  "(case apply_tuning failing_tune sample_cpus of (s1, r1) \<Rightarrow>
     (case restore_tuning sample_tune (fst (apply_tuning sample_tune s1)) of
        Some (s2, r2) \<Rightarrow> r1 = Inl (OSError 22 ''Invalid argument'') \<and> ts_files s1 restore_script = None \<and> r2 = Inr () \<and>
          map_option strip (ts_files s2 ''/sys/cpu0/g'') = Some ''performance''
      | None \<Rightarrow> False)) \<and>
   map_option strip (ts_files sample_cpus ''/sys/cpu0/g'') = Some ''powersave''"
  by code_simp

end
