(* ===== verification/Metrics.thy ===== *)
theory Metrics
  imports Command_Output
begin

text \<open>
  The metrics of the admission controller, \<open>src/sek8s/sek8s/metrics.py\<close>. Counters are dictionaries in insertion order, durations
  rational numbers. The counters are exactly the numbers of recorded events, and the exported lines name them.
\<close>

section \<open>Counters\<close>

type_synonym counters = "(string \<times> nat) list"

record metrics =
  m_total :: counters
  m_by_kind :: counters
  m_by_operation :: counters
  m_hits :: nat
  m_misses :: nat
  m_sum :: rat
  m_count :: nat
  m_errors :: counters
  m_start :: rat

definition new_metrics :: "rat \<Rightarrow> metrics" where
  "new_metrics now = \<lparr>m_total = [], m_by_kind = [], m_by_operation = [], m_hits = 0, m_misses = 0, m_sum = 0, m_count = 0,
     m_errors = [], m_start = now\<rparr>"

definition counter :: "counters \<Rightarrow> string \<Rightarrow> nat" where
  "counter d k = (case map_of d k of None \<Rightarrow> 0 | Some n \<Rightarrow> n)"

text \<open>\<open>d[k] += 1\<close> on a \<open>defaultdict(int)\<close>.\<close>

definition bump :: "string \<Rightarrow> counters \<Rightarrow> counters" where
  "bump k d = AList.update k (counter d k + 1) d"

definition decision :: "bool \<Rightarrow> string" where
  "decision allowed = (if allowed then ''allowed'' else ''denied'')"

definition labelled :: "string \<Rightarrow> bool \<Rightarrow> string" where
  "labelled name allowed = name @ ''_'' @ decision allowed"

definition record_admission_decision :: "bool \<Rightarrow> string \<Rightarrow> string \<Rightarrow> rat \<Rightarrow> metrics \<Rightarrow> metrics" where
  "record_admission_decision allowed kind op duration m =
     m\<lparr>m_total := bump (decision allowed) (m_total m), m_by_kind := bump (labelled kind allowed) (m_by_kind m),
       m_by_operation := bump (labelled op allowed) (m_by_operation m), m_sum := m_sum m + duration, m_count := m_count m + 1\<rparr>"

definition record_cache_hit :: "metrics \<Rightarrow> metrics" where
  "record_cache_hit m = m\<lparr>m_hits := m_hits m + 1\<rparr>"

definition record_cache_miss :: "metrics \<Rightarrow> metrics" where
  "record_cache_miss m = m\<lparr>m_misses := m_misses m + 1\<rparr>"

definition record_validator_error :: "string \<Rightarrow> metrics \<Rightarrow> metrics" where
  "record_validator_error v m = m\<lparr>m_errors := bump v (m_errors m)\<rparr>"

section \<open>Export\<close>

text \<open>\<open>f"{x:.nf}"\<close>: the digits after the point are padded with zeros.\<close>

definition fixed_places :: "nat \<Rightarrow> rat \<Rightarrow> string" where
  "fixed_places n x =
     (let k = round_even (x * 10 ^ n); a = nat \<bar>k\<bar>; frac = digits_of (a mod 10 ^ n) in
      (if x < 0 then ''-'' else []) @ digits_of (a div 10 ^ n) @ ''.'' @ replicate (n - length frac) (CHR ''0'') @ frac)"

definition quoted :: "string \<Rightarrow> string" where
  "quoted s = [CHR 0x22] @ s @ [CHR 0x22]"

definition metric_head :: "string \<Rightarrow> string \<Rightarrow> string \<Rightarrow> string list" where
  "metric_head name doc kind = [''# HELP '' @ name @ '' '' @ doc, ''# TYPE '' @ name @ '' '' @ kind]"

text \<open>A line of the counters by kind or operation; the key is split at its last underscore.\<close>

definition label_line :: "string \<Rightarrow> string \<Rightarrow> string \<times> nat \<Rightarrow> string list" where
  "label_line name label e =
     (if CHR ''_'' \<in> set (fst e)
      then [name @ ''{'' @ label @ ''='' @ quoted (fst (rsplit_once (CHR ''_'') (fst e))) @ '',decision='' @
              quoted (snd (rsplit_once (CHR ''_'') (fst e))) @ ''} '' @ digits_of (snd e)]
      else [])"

definition prometheus_lines :: "rat \<Rightarrow> metrics \<Rightarrow> string list" where
  "prometheus_lines now m =
     metric_head ''admission_controller_info'' ''Admission controller information'' ''gauge'' @
     [''admission_controller_info{version='' @ quoted ''1.0.0'' @ ''} 1''] @
     metric_head ''admission_controller_uptime_seconds'' ''Uptime in seconds'' ''gauge'' @
     [''admission_controller_uptime_seconds '' @ fixed_places 2 (now - m_start m)] @
     metric_head ''admission_requests_total'' ''Total admission requests'' ''counter'' @
     map (\<lambda>(d, n). ''admission_requests_total{decision='' @ quoted d @ ''} '' @ digits_of n) (m_total m) @
     metric_head ''admission_requests_by_kind_total'' ''Admission requests by kind'' ''counter'' @
     concat (map (label_line ''admission_requests_by_kind_total'' ''kind'') (m_by_kind m)) @
     metric_head ''admission_requests_by_operation_total'' ''Admission requests by operation'' ''counter'' @
     concat (map (label_line ''admission_requests_by_operation_total'' ''operation'') (m_by_operation m)) @
     (if m_count m > 0 then
        metric_head ''admission_request_duration_seconds'' ''Request processing duration'' ''summary'' @
        [''admission_request_duration_seconds_sum '' @ fixed_places 4 (m_sum m),
         ''admission_request_duration_seconds_count '' @ digits_of (m_count m)]
      else []) @
     metric_head ''admission_cache_hits_total'' ''Cache hits'' ''counter'' @
     [''admission_cache_hits_total '' @ digits_of (m_hits m)] @
     metric_head ''admission_cache_misses_total'' ''Cache misses'' ''counter'' @
     [''admission_cache_misses_total '' @ digits_of (m_misses m)] @
     (if m_errors m \<noteq> [] then
        metric_head ''admission_validator_errors_total'' ''Validator errors'' ''counter'' @
        map (\<lambda>(v, n). ''admission_validator_errors_total{validator='' @ quoted v @ ''} '' @ digits_of n) (m_errors m)
      else [])"

definition export_prometheus :: "rat \<Rightarrow> metrics \<Rightarrow> string" where
  "export_prometheus now m = join_with [newline] (prometheus_lines now m) @ [newline]"

record metrics_json =
  mj_uptime :: rat
  mj_total :: counters
  mj_by_kind :: counters
  mj_by_operation :: counters
  mj_duration :: "rat \<times> nat \<times> rat"
  mj_cache :: "nat \<times> nat"
  mj_errors :: counters

definition export_metrics_json :: "rat \<Rightarrow> metrics \<Rightarrow> metrics_json" where
  "export_metrics_json now m = \<lparr>mj_uptime = now - m_start m, mj_total = m_total m, mj_by_kind = m_by_kind m,
     mj_by_operation = m_by_operation m,
     mj_duration = (m_sum m, m_count m, if m_count m > 0 then m_sum m / of_nat (m_count m) else 0),
     mj_cache = (m_hits m, m_misses m), mj_errors = m_errors m\<rparr>"

section \<open>The counters count the events\<close>

datatype metric_event =
    Decision bool string string rat
  | Hit
  | Miss
  | Validator_error string

fun record_event :: "metrics \<Rightarrow> metric_event \<Rightarrow> metrics" where
  "record_event m (Decision a k p d) = record_admission_decision a k p d m"
| "record_event m Hit = record_cache_hit m"
| "record_event m Miss = record_cache_miss m"
| "record_event m (Validator_error v) = record_validator_error v m"

definition record_events :: "metrics \<Rightarrow> metric_event list \<Rightarrow> metrics" where
  "record_events m es = foldl record_event m es"

definition count_events :: "(metric_event \<Rightarrow> bool) \<Rightarrow> metric_event list \<Rightarrow> nat" where
  "count_events P es = length (filter P es)"

fun is_decision :: "bool \<Rightarrow> metric_event \<Rightarrow> bool" where
  "is_decision a (Decision b k p d) = (a = b)"
| "is_decision a e = False"

fun of_kind :: "string \<Rightarrow> bool \<Rightarrow> metric_event \<Rightarrow> bool" where
  "of_kind n a (Decision b k p d) = (a = b \<and> k = n)"
| "of_kind n a e = False"

fun of_operation :: "string \<Rightarrow> bool \<Rightarrow> metric_event \<Rightarrow> bool" where
  "of_operation n a (Decision b k p d) = (a = b \<and> p = n)"
| "of_operation n a e = False"

fun event_duration :: "metric_event \<Rightarrow> rat" where
  "event_duration (Decision b k p d) = d"
| "event_duration e = 0"

lemma counter_bump: "counter (bump k d) j = (if j = k then counter d k + 1 else counter d j)"
  by (simp add: counter_def bump_def update_conv')

lemma decision_no_underscore: "CHR ''_'' \<notin> set (decision a)"
  by (simp add: decision_def)

lemma decision_inject [simp]: "decision a = decision b \<longleftrightarrow> a = b"
  by (simp add: decision_def)

lemma split_labelled: "rsplit_once (CHR ''_'') (labelled n a) = (n, decision a)"
  unfolding labelled_def using rsplit_once_append[OF decision_no_underscore, of n a] by simp

lemma labelled_inject [simp]: "labelled n a = labelled k b \<longleftrightarrow> n = k \<and> a = b"
  by (auto dest!: arg_cong[of _ _ "rsplit_once (CHR ''_'')"] simp: split_labelled)

lemma counters_count:
  "let m = record_events (new_metrics t) es in
   counter (m_total m) (decision a) = count_events (is_decision a) es \<and>
   counter (m_by_kind m) (labelled n a) = count_events (of_kind n a) es \<and>
   counter (m_by_operation m) (labelled n a) = count_events (of_operation n a) es \<and>
   counter (m_errors m) v = count_events (\<lambda>e. e = Validator_error v) es \<and>
   m_hits m = count_events (\<lambda>e. e = Hit) es \<and> m_misses m = count_events (\<lambda>e. e = Miss) es \<and>
   m_count m = counter (m_total m) ''allowed'' + counter (m_total m) ''denied'' \<and>
   m_sum m = sum_list (map event_duration es)"
proof -
  have d: "''allowed'' = decision True" "''denied'' = decision False" by (simp_all add: decision_def)
  show ?thesis unfolding Let_def d
  proof (induction es rule: rev_induct)
    case Nil
    show ?case by (simp add: record_events_def new_metrics_def counter_def count_events_def)
  next
    case (snoc e es)
    have s: "record_events (new_metrics t) (es @ [e]) = record_event (record_events (new_metrics t) es) e"
      by (simp add: record_events_def)
    show ?case unfolding s using snoc
      by (cases e) (auto simp: record_admission_decision_def record_cache_hit_def record_cache_miss_def
          record_validator_error_def counter_bump count_events_def)
  qed
qed

text \<open>
  After any sequence of events every counter is the number of the events it counts, the number of durations is
  the number of decisions, and the sum is that of their durations.
\<close>

theorem counters_count_the_events:
  "let m = record_events (new_metrics t) es in
   counter (m_total m) (decision a) = count_events (is_decision a) es \<and>
   counter (m_by_kind m) (labelled n a) = count_events (of_kind n a) es \<and>
   counter (m_by_operation m) (labelled n a) = count_events (of_operation n a) es \<and>
   counter (m_errors m) v = count_events (\<lambda>e. e = Validator_error v) es \<and>
   m_hits m = count_events (\<lambda>e. e = Hit) es \<and> m_misses m = count_events (\<lambda>e. e = Miss) es \<and>
   m_count m = counter (m_total m) ''allowed'' + counter (m_total m) ''denied'' \<and>
   m_sum m = sum_list (map event_duration es)"
  by (rule counters_count)

text \<open>
  A kind with a recorded decision has a line that names the kind, even when it has underscores, and the decision,
  with the number of such decisions.
\<close>

lemma counter_entry: "counter d k > 0 \<Longrightarrow> (k, counter d k) \<in> set d"
  by (auto simp: counter_def split: option.splits dest: map_of_SomeD)

theorem exported_lines_name_the_kind:
  assumes "count_events (of_kind n a) es > 0"
  shows "''admission_requests_by_kind_total{kind='' @ quoted n @ '',decision='' @ quoted (decision a) @ ''} '' @
    digits_of (count_events (of_kind n a) es) \<in> set (prometheus_lines now (record_events (new_metrics t) es))"
proof -
  let ?m = "record_events (new_metrics t) es"
  have c: "counter (m_by_kind ?m) (labelled n a) = count_events (of_kind n a) es"
    using counters_count[of t es a n "[]"] unfolding Let_def by (elim conjE)
  then have "(labelled n a, count_events (of_kind n a) es) \<in> set (m_by_kind ?m)"
    using counter_entry[of "m_by_kind ?m" "labelled n a"] assms by simp
  moreover have "label_line ''admission_requests_by_kind_total'' ''kind'' (labelled n a, count_events (of_kind n a) es) =
     [''admission_requests_by_kind_total{kind='' @ quoted n @ '',decision='' @ quoted (decision a) @ ''} '' @
        digits_of (count_events (of_kind n a) es)]"
    by (simp add: label_line_def split_labelled) (simp add: labelled_def)
  ultimately show ?thesis unfolding prometheus_lines_def by force
qed

theorem exported_lines_name_the_kind_witness:
  "''admission_requests_by_kind_total{kind='' @ quoted ''Pod_X'' @ '',decision='' @ quoted (decision True) @ ''} '' @
    digits_of (count_events (of_kind ''Pod_X'' True) [Decision True ''Pod_X'' ''CREATE'' 1])
   \<in> set (prometheus_lines 5 (record_events (new_metrics 0) [Decision True ''Pod_X'' ''CREATE'' 1]))"
  by (rule exported_lines_name_the_kind) (simp add: count_events_def)

end
