(* ===== verification/Changelogs.thy ===== *)
theory Changelogs
  imports Command_Output
begin

text \<open>
  Promotion of changelog fragments, \<open>scripts/promote_changelogs.py\<close>. The repository is a list of paths and texts. What is
  promoted can be read back from the changelog, nothing is promoted twice, and no fragment is deleted before it is promoted.
\<close>

section \<open>Lines and headings\<close>

text \<open>\<open>splitlines(keepends=True)\<close>.\<close>

function keep_lines :: "string \<Rightarrow> string list" where
  "keep_lines s =
     (if s = [] then []
      else
        (let l = takeWhile (\<lambda>c. \<not> line_end c) s in
         case dropWhile (\<lambda>c. \<not> line_end c) s of
           [] \<Rightarrow> [l]
         | c # cs \<Rightarrow>
             (case cs of
                d # ds \<Rightarrow> if c = carriage_return \<and> d = newline then (l @ [c, d]) # keep_lines ds else (l @ [c]) # keep_lines cs
              | [] \<Rightarrow> [l @ [c]])))"
  by pat_completeness auto
termination
proof (relation "measure length", goal_cases)
  case (2 s l c cs d ds)
  then show ?case using length_dropWhile_le[of "\<lambda>c. \<not> line_end c" s] by simp
next
  case (3 s l c cs d ds)
  then show ?case using length_dropWhile_le[of "\<lambda>c. \<not> line_end c" s] by simp
qed simp

declare keep_lines.simps [simp del]

text \<open>\<open>^## \[(.+?)\]\<close>.\<close>

definition heading :: "string \<Rightarrow> string option" where
  "heading line =
     (if startswith line ''## ['' then
        (case drop 4 line of
           [] \<Rightarrow> None
         | c # cs \<Rightarrow>
             (let v = takeWhile (\<lambda>x. x \<noteq> CHR '']'' \<and> x \<noteq> newline) cs in
              if c \<noteq> newline \<and> startswith (drop (length v) cs) '']'' then Some (c # v) else None))
      else None)"

text \<open>\<open>^### (.+)\<close>.\<close>

definition category :: "string \<Rightarrow> string option" where
  "category line =
     (if startswith line ''### '' then
        (let c = takeWhile (\<lambda>x. x \<noteq> newline) (drop 4 line) in if c = [] then None else Some c)
      else None)"

type_synonym categories = "(string \<times> string list) list"

text \<open>\<open>d.setdefault(cat, []).extend(bullets)\<close>.\<close>

definition extend_cat :: "string \<Rightarrow> string list \<Rightarrow> categories \<Rightarrow> categories" where
  "extend_cat cat bullets cats =
     (case map_of cats cat of
        None \<Rightarrow> cats @ [(cat, bullets)]
      | Some bs \<Rightarrow> AList.update cat (bs @ bullets) cats)"

fun fragment_lines :: "string list \<Rightarrow> string option \<Rightarrow> categories \<Rightarrow> categories" where
  "fragment_lines [] cur cats = cats"
| "fragment_lines (l # ls) cur cats =
     (case category l of
        Some c \<Rightarrow> fragment_lines ls (Some c) (extend_cat c [] cats)
      | None \<Rightarrow>
          (case cur of
             Some c \<Rightarrow> fragment_lines ls cur (if strip l \<noteq> [] then extend_cat c [l] cats else cats)
           | None \<Rightarrow> fragment_lines ls cur cats))"

definition parse_fragment :: "string \<Rightarrow> categories" where
  "parse_fragment text = fragment_lines (splitlines text) None []"

definition category_order :: "string list" where
  "category_order = [''Added'', ''Changed'', ''Fixed'', ''Removed'']"

text \<open>The standard categories first, then the others sorted.\<close>

definition standard_order :: "categories \<Rightarrow> categories" where
  "standard_order cats =
     List.map_filter (\<lambda>c. map_option (Pair c) (map_of cats c)) category_order @
     sort_key fst (filter (\<lambda>(c, bs). c \<notin> set category_order) cats)"

definition extend_all :: "categories \<Rightarrow> categories \<Rightarrow> categories" where
  "extend_all cats new = foldl (\<lambda>acc (c, bs). extend_cat c bs acc) cats new"

definition merge_categories :: "categories \<Rightarrow> categories \<Rightarrow> categories" where
  "merge_categories existing new = standard_order (extend_all (extend_all [] existing) new)"

definition aggregate_fragments :: "string list \<Rightarrow> categories" where
  "aggregate_fragments texts = standard_order (foldl (\<lambda>acc t. extend_all acc (parse_fragment t)) [] texts)"

definition section_lines :: "string \<Rightarrow> string \<Rightarrow> categories \<Rightarrow> string list" where
  "section_lines today version cats =
     [''## ['' @ version @ ''] - '' @ today, []] @ concat (map (\<lambda>(c, bs). (''### '' @ c) # bs @ [[]]) cats)"

definition build_version_section :: "string \<Rightarrow> string \<Rightarrow> categories \<Rightarrow> string" where
  "build_version_section today version cats = join_with [newline] (section_lines today version cats)"

section \<open>The changelog\<close>

definition changelog_has_version :: "string option \<Rightarrow> string \<Rightarrow> bool" where
  "changelog_has_version changelog version =
     (case changelog of None \<Rightarrow> False | Some t \<Rightarrow> list_ex (\<lambda>l. heading l = Some version) (splitlines t))"

fun insert_offset :: "nat \<Rightarrow> string list \<Rightarrow> nat" where
  "insert_offset n [] = n"
| "insert_offset n (l # ls) = (if heading l \<noteq> None then n else insert_offset (n + length l) ls)"

definition find_insert_position :: "string \<Rightarrow> nat" where
  "find_insert_position content = insert_offset 0 (keep_lines content)"

text \<open>\<open>line.rstrip("\n")\<close>.\<close>

definition chomp :: "string \<Rightarrow> string" where
  "chomp l = rev (dropWhile (\<lambda>c. c = newline) (rev l))"

text \<open>The loop of \<open>parse_changelog_section\<close>; the start of the section is known once it is entered.\<close>

fun scan_section ::
  "string \<Rightarrow> string list \<Rightarrow> nat \<Rightarrow> nat option \<Rightarrow> string option \<Rightarrow> categories \<Rightarrow> categories \<times> nat \<times> nat" where
  "scan_section version [] offset start cur cats =
     (case start of Some s \<Rightarrow> (cats, s, offset) | None \<Rightarrow> ([], 0, 0))"
| "scan_section version (l # ls) offset start cur cats =
     (case heading l of
        Some h \<Rightarrow>
          (case start of
             Some s \<Rightarrow> (cats, s, offset)
           | None \<Rightarrow> scan_section version ls (offset + length l) (if h = version then Some offset else None) cur cats)
      | None \<Rightarrow>
          (case start of
             None \<Rightarrow> scan_section version ls (offset + length l) start cur cats
           | Some s \<Rightarrow>
               (case category l of
                  Some c \<Rightarrow> scan_section version ls (offset + length l) start (Some c) (extend_cat c [] cats)
                | None \<Rightarrow>
                    (case cur of
                       Some c \<Rightarrow>
                         scan_section version ls (offset + length l) start cur
                           (if strip l \<noteq> [] then extend_cat c [chomp l] cats else cats)
                     | None \<Rightarrow> scan_section version ls (offset + length l) start cur cats))))"

definition parse_changelog_section :: "string \<Rightarrow> string \<Rightarrow> categories \<times> nat \<times> nat" where
  "parse_changelog_section content version = scan_section version (keep_lines content) 0 None None []"

definition insert_new_section :: "string option \<Rightarrow> string \<Rightarrow> string" where
  "insert_new_section changelog sec =
     (let content = (case changelog of None \<Rightarrow> [] | Some t \<Rightarrow> t); pos = find_insert_position content in
      take pos content @ sec @ [newline] @ drop pos content)"

definition replace_section :: "string \<Rightarrow> string \<Rightarrow> string \<Rightarrow> string" where
  "replace_section content version sec =
     (case parse_changelog_section content version of
        (_, start, end_) \<Rightarrow> take start content @ sec @ [newline] @ drop end_ content)"

section \<open>The repository\<close>

type_synonym repo = "(string \<times> string) list"

definition version_changelog_map :: "(string \<times> string) list" where
  "version_changelog_map = [(''ansible/guest/VERSION'', ''changelogs/vm''), (''src/sek8s/VERSION'', ''changelogs/sek8s''),
     (''src/attestation-proxy/VERSION'', ''changelogs/attestation-proxy''), (''changelogs/ops/VERSION'', ''changelogs/ops'')]"

definition path_changelog_map :: "(string \<times> string) list" where
  "path_changelog_map = [(''src/sek8s/'', ''changelogs/sek8s''), (''src/sek8s-common/'', ''changelogs/sek8s''),
     (''src/attestation-proxy/'', ''changelogs/attestation-proxy''), (''ansible/guest/'', ''changelogs/vm''),
     (''nvevidence/'', ''changelogs/vm''), (''ansible/host/'', ''changelogs/ops''), (''host-tools/'', ''changelogs/ops''),
     (''.github/workflows/'', ''changelogs/ops'')]"

definition read_version :: "string \<Rightarrow> string" where
  "read_version text = (case splitlines (strip text) of [] \<Rightarrow> [] | l # _ \<Rightarrow> strip l)"

text \<open>A path directly below the directory with suffix \<open>.md\<close>.\<close>

definition is_fragment :: "string \<Rightarrow> string \<Rightarrow> bool" where
  "is_fragment dir path \<longleftrightarrow>
     startswith path (dir @ ''/'') \<and>
     (let name = drop (length dir + 1) path in CHR ''/'' \<notin> set name \<and> endswith name ''.md'' \<and> name \<noteq> ''.md'')"

definition collect_fragments :: "repo \<Rightarrow> string \<Rightarrow> string list" where
  "collect_fragments r dir = sort (filter (is_fragment dir) (map fst r))"

definition unreleased :: "string \<Rightarrow> string" where "unreleased cm = cm @ ''/unreleased''"
definition changelog_path :: "string \<Rightarrow> string" where "changelog_path cm = cm @ ''/CHANGELOG.md''"

definition file_text :: "repo \<Rightarrow> string \<Rightarrow> string" where
  "file_text r p = (case map_of r p of None \<Rightarrow> [] | Some t \<Rightarrow> t)"

definition promoted_changelog :: "string \<Rightarrow> string \<Rightarrow> string option \<Rightarrow> categories \<Rightarrow> string" where
  "promoted_changelog today version changelog new =
     (case changelog of
        Some content \<Rightarrow>
          if changelog_has_version changelog version
          then replace_section content version
                 (build_version_section today version (merge_categories (fst (parse_changelog_section content version)) new))
          else insert_new_section changelog (build_version_section today version new)
      | None \<Rightarrow> insert_new_section None (build_version_section today version new))"

definition promote_component :: "string \<Rightarrow> repo \<Rightarrow> string \<times> string \<Rightarrow> repo" where
  "promote_component today r cm =
     (case map_of r (fst cm) of
        None \<Rightarrow> r
      | Some text \<Rightarrow>
          (let version = read_version text; fragments = collect_fragments r (unreleased (snd cm)); cl = changelog_path (snd cm) in
           if version = [] \<or> fragments = [] then r
           else
             filter (\<lambda>(p, t). p \<notin> set fragments)
               (AList.update cl
                 (promoted_changelog today version (map_of r cl) (aggregate_fragments (map (file_text r) fragments))) r)))"

definition promote_mode :: "string \<Rightarrow> repo \<Rightarrow> repo" where
  "promote_mode today r = foldl (promote_component today) r version_changelog_map"

section \<open>Checks\<close>

definition component_dirs :: "repo \<Rightarrow> string list" where
  "component_dirs r =
     remdups (List.map_filter (\<lambda>(p, t).
       if startswith p ''changelogs/'' \<and> CHR ''/'' \<in> set (drop 11 p)
       then Some (''changelogs/'' @ fst (split_once (CHR ''/'') (drop 11 p))) else None) r)"

text \<open>The exit codes.\<close>

definition check_strict :: "repo \<Rightarrow> nat" where
  "check_strict r = (if list_all (\<lambda>d. collect_fragments r (unreleased d) = []) (component_dirs r) then 0 else 1)"

definition latest_changelog_version :: "string option \<Rightarrow> string option" where
  "latest_changelog_version changelog =
     (case changelog of
        None \<Rightarrow> None
      | Some t \<Rightarrow> (case List.map_filter heading (splitlines t) of [] \<Rightarrow> None | v # _ \<Rightarrow> Some v))"

definition component_ok :: "repo \<Rightarrow> string \<times> string \<Rightarrow> bool" where
  "component_ok r cm =
     (case map_of r (fst cm) of
        None \<Rightarrow> True
      | Some text \<Rightarrow>
          (let version = read_version text; cl = map_of r (changelog_path (snd cm)) in
           version = [] \<or> latest_changelog_version cl = Some version \<or> changelog_has_version cl version \<or>
           collect_fragments r (unreleased (snd cm)) \<noteq> []))"

definition check_normal :: "repo \<Rightarrow> nat" where
  "check_normal r = (if list_all (component_ok r) version_changelog_map then 0 else 1)"

definition branch_prefixes :: "string list" where
  "branch_prefixes = [''feature/'', ''bugfix/'', ''fix/'', ''chore/'', ''hotfix/'']"

definition branch_to_fragment_name :: "string \<Rightarrow> string" where
  "branch_to_fragment_name branch =
     (case filter (startswith branch) branch_prefixes of
        [] \<Rightarrow> branch
      | p # _ \<Rightarrow> drop (length p) branch) @ ''.md''"

definition component_of_path :: "string \<Rightarrow> string option" where
  "component_of_path path =
     (case filter (\<lambda>(prefix, cm). startswith path prefix) path_changelog_map of [] \<Rightarrow> None | e # _ \<Rightarrow> Some (snd e))"

definition affected_components :: "string list \<Rightarrow> string list" where
  "affected_components paths = remdups (List.map_filter component_of_path paths)"

definition check_branch_mode :: "repo \<Rightarrow> string \<Rightarrow> string list \<Rightarrow> nat" where
  "check_branch_mode r branch stdin_lines =
     (let changed = filter (\<lambda>l. l \<noteq> []) (map strip stdin_lines) in
      if list_all (\<lambda>c. map_of r (unreleased c @ ''/'' @ branch_to_fragment_name branch) \<noteq> None) (affected_components changed)
      then 0 else 1)"

section \<open>Promoting twice\<close>

lemma component_paths:
  "list_all (\<lambda>c. list_all (\<lambda>d. \<not> is_fragment (unreleased (snd c)) (changelog_path (snd d)) \<and>
     \<not> is_fragment (unreleased (snd c)) (fst d) \<and> fst d \<noteq> changelog_path (snd c)) version_changelog_map) version_changelog_map"
  by code_simp

lemma apart:
  assumes "c \<in> set version_changelog_map" "d \<in> set version_changelog_map"
  shows "\<not> is_fragment (unreleased (snd c)) (changelog_path (snd d))" "\<not> is_fragment (unreleased (snd c)) (fst d)"
    "fst d \<noteq> changelog_path (snd c)"
  using component_paths assms by (auto simp: list_all_iff)

lemma map_of_filter_key: "P k \<Longrightarrow> map_of (filter (\<lambda>(p, t). P p) r) k = map_of r k"
  by (induction r) auto

lemma promote_component_cases:
  assumes "promote_component today r c \<noteq> r"
  obtains vt t where "map_of r (fst c) = Some vt" "read_version vt \<noteq> []"
    "promote_component today r c = filter (\<lambda>(p, t). p \<notin> set (collect_fragments r (unreleased (snd c))))
       (AList.update (changelog_path (snd c)) t r)"
  using assms by (auto simp: promote_component_def Let_def split: option.split_asm if_split_asm)

lemma promote_version:
  assumes "c \<in> set version_changelog_map" "d \<in> set version_changelog_map"
  shows "map_of (promote_component today r c) (fst d) = map_of r (fst d)"
proof (cases "promote_component today r c = r")
  case False
  obtain vt t where e: "promote_component today r c = filter (\<lambda>(p, t). p \<notin> set (collect_fragments r (unreleased (snd c))))
       (AList.update (changelog_path (snd c)) t r)"
    using promote_component_cases[OF False] by metis
  have "fst d \<notin> set (collect_fragments r (unreleased (snd c)))" using apart(2)[OF assms] by (simp add: collect_fragments_def)
  then have "map_of (promote_component today r c) (fst d) = map_of (AList.update (changelog_path (snd c)) t r) (fst d)"
    unfolding e using map_of_filter_key[of "\<lambda>p. p \<notin> set (collect_fragments r (unreleased (snd c)))"] by blast
  then show ?thesis using apart(3)[OF assms] by (simp add: update_conv')
qed simp

lemma promote_fragments:
  assumes "c \<in> set version_changelog_map" "d \<in> set version_changelog_map"
  shows "set (collect_fragments (promote_component today r c) (unreleased (snd d))) \<subseteq> set (collect_fragments r (unreleased (snd d)))"
proof (cases "promote_component today r c = r")
  case False
  obtain vt t where e: "promote_component today r c = filter (\<lambda>(p, t). p \<notin> set (collect_fragments r (unreleased (snd c))))
       (AList.update (changelog_path (snd c)) t r)"
    using promote_component_cases[OF False] by metis
  have "fst ` set (promote_component today r c) \<subseteq> insert (changelog_path (snd c)) (fst ` set r)"
    unfolding e using set_update_subset[of "changelog_path (snd c)" t r] by auto
  then show ?thesis using apart(1)[OF assms(2,1)] by (auto simp: collect_fragments_def)
qed simp

lemma promote_own:
  assumes "c \<in> set version_changelog_map" "promote_component today r c \<noteq> r"
  shows "collect_fragments (promote_component today r c) (unreleased (snd c)) = []"
proof -
  obtain vt t where e: "promote_component today r c = filter (\<lambda>(p, t). p \<notin> set (collect_fragments r (unreleased (snd c))))
       (AList.update (changelog_path (snd c)) t r)"
    using promote_component_cases[OF assms(2)] by metis
  have "p \<notin> set (collect_fragments (promote_component today r c) (unreleased (snd c)))" for p
  proof
    assume p: "p \<in> set (collect_fragments (promote_component today r c) (unreleased (snd c)))"
    then have "p \<in> set (collect_fragments r (unreleased (snd c)))" using promote_fragments[OF assms(1,1), of today r] by blast
    moreover have "p \<in> fst ` set (promote_component today r c)" using p by (auto simp: collect_fragments_def)
    ultimately show False unfolding e by auto
  qed
  then show ?thesis by (metis list.set_intros(1) neq_Nil_conv)
qed

text \<open>A component has nothing to promote.\<close>

definition settled :: "repo \<Rightarrow> string \<times> string \<Rightarrow> bool" where
  "settled r c \<longleftrightarrow> (case map_of r (fst c) of None \<Rightarrow> True
     | Some text \<Rightarrow> read_version text = [] \<or> collect_fragments r (unreleased (snd c)) = [])"

lemma settled_same: "settled r c \<Longrightarrow> promote_component today r c = r"
  by (auto simp: settled_def promote_component_def Let_def split: option.split)

lemma settled_own:
  assumes "c \<in> set version_changelog_map"
  shows "settled (promote_component today r c) c"
proof (cases "promote_component today r c = r")
  case True
  show ?thesis
  proof (rule ccontr)
    assume n: "\<not> settled (promote_component today r c) c"
    then obtain vt where t: "map_of r (fst c) = Some vt" "read_version vt \<noteq> []" "collect_fragments r (unreleased (snd c)) \<noteq> []"
      using True by (auto simp: settled_def split: option.split_asm)
    then obtain p where p: "p \<in> set (collect_fragments r (unreleased (snd c)))" by (meson list.set_sel(1))
    then have "p \<in> fst ` set r" by (auto simp: collect_fragments_def)
    moreover have "p \<notin> fst ` set (promote_component today r c)" using t p by (auto simp: promote_component_def Let_def)
    ultimately show False using True by simp
  qed
next
  case False
  then show ?thesis using promote_own[OF assms False] by (simp add: settled_def split: option.split)
qed

lemma settled_other:
  assumes "c \<in> set version_changelog_map" "d \<in> set version_changelog_map" "settled r d"
  shows "settled (promote_component today r c) d"
  using assms(3) promote_fragments[OF assms(1,2), of today r] by (auto simp: settled_def promote_version[OF assms(1,2)] split: option.split)

lemma settled_fold:
  assumes "set cs \<subseteq> set version_changelog_map" "\<forall>d \<in> D. settled r d" "D \<subseteq> set version_changelog_map"
  shows "\<forall>d \<in> D \<union> set cs. settled (foldl (promote_component today) r cs) d"
  using assms
proof (induction cs arbitrary: r D)
  case (Cons c cs)
  have "\<forall>d \<in> insert c D. settled (promote_component today r c) d"
  proof
    fix d assume d: "d \<in> insert c D"
    have c: "c \<in> set version_changelog_map" using Cons.prems(1) by simp
    show "settled (promote_component today r c) d"
    proof (cases "d = c")
      case True
      then show ?thesis using settled_own[OF c] by simp
    next
      case False
      then have "d \<in> D" "d \<in> set version_changelog_map" using d Cons.prems(3) by auto
      then show ?thesis using settled_other[OF c] Cons.prems(2) by blast
    qed
  qed
  from Cons.IH[OF _ this] Cons.prems show ?case by auto
qed simp

text \<open>
  C34: After a promotion no component with a version has fragments left, and promoting again, on any day, changes
  nothing.
\<close>

theorem promotion_is_idempotent:
  "promote_mode today2 (promote_mode today1 r) = promote_mode today1 r \<and>
   list_all (settled (promote_mode today1 r)) version_changelog_map"
proof -
  have s: "\<forall>d \<in> set version_changelog_map. settled (promote_mode today1 r) d"
    using settled_fold[of version_changelog_map "{}" r today1] by (simp add: promote_mode_def)
  have "foldl (promote_component today2) q cs = q" if "\<forall>d \<in> set cs. settled q d" for q cs
    using that by (induction cs) (auto simp: settled_same)
  then show ?thesis using s by (simp add: promote_mode_def list_all_iff)
qed

section \<open>Lines that are kept\<close>

definition plain_line :: "string \<Rightarrow> bool" where
  "plain_line l \<longleftrightarrow> list_all (\<lambda>c. \<not> line_end c) l"

lemma newline_facts: "line_end newline" "newline \<noteq> carriage_return" "is_space newline"
  by code_simp+

lemma keep_lines_Nil [simp]: "keep_lines [] = []"
  by (subst keep_lines.simps) simp

lemma take_drop_line:
  assumes "plain_line l" "line_end c"
  shows "takeWhile (\<lambda>x. \<not> line_end x) (l @ c # cs) = l" "dropWhile (\<lambda>x. \<not> line_end x) (l @ c # cs) = c # cs"
  using assms by (induction l) (auto simp: plain_line_def)

lemma keep_plain: "plain_line l \<Longrightarrow> keep_lines (l @ newline # cs) = (l @ [newline]) # keep_lines cs"
  using newline_facts by (subst keep_lines.simps) (simp add: take_drop_line Let_def split: list.split)

text \<open>The cases of a text: empty, one line without an end, or a first line and the rest.\<close>

lemma line_cases:
  obtains "s = []" | "s \<noteq> []" "plain_line s"
    | l c cs where "s = l @ c # cs" "plain_line l" "line_end c"
proof (cases "dropWhile (\<lambda>x. \<not> line_end x) s")
  case Nil
  then have "plain_line s" by (auto simp: plain_line_def list_all_iff dropWhile_eq_Nil_conv)
  then show ?thesis using that(1,2) by blast
next
  case (Cons c cs)
  have "s = takeWhile (\<lambda>x. \<not> line_end x) s @ c # cs" using takeWhile_dropWhile_id[of "\<lambda>x. \<not> line_end x" s] Cons by simp
  moreover have "plain_line (takeWhile (\<lambda>x. \<not> line_end x) s)" by (auto simp: plain_line_def list_all_iff dest: set_takeWhileD)
  moreover have "line_end c" using hd_dropWhile[of "\<lambda>x. \<not> line_end x" s] Cons by simp
  ultimately show ?thesis by (rule that(3))
qed

text \<open>Texts whose only line end is a newline, as they are read; \<open>complete\<close>: the last line has one.\<close>

definition unix_text :: "string \<Rightarrow> bool" where
  "unix_text s \<longleftrightarrow> list_all (\<lambda>c. line_end c \<longrightarrow> c = newline) s"

definition complete :: "string \<Rightarrow> bool" where
  "complete s \<longleftrightarrow> unix_text s \<and> (s = [] \<or> last s = newline)"

lemma complete_induct [consumes 1, case_names Nil Line]:
  assumes "complete s" "P []" "\<And>l s. plain_line l \<Longrightarrow> complete s \<Longrightarrow> P s \<Longrightarrow> P (l @ newline # s)"
  shows "P s"
  using assms(1)
proof (induction s rule: length_induct)
  case (1 s)
  consider "s = []" | "s \<noteq> []" "plain_line s" | l c cs where "s = l @ c # cs" "plain_line l" "line_end c"
    using line_cases by blast
  then show ?case
  proof cases
    case 2
    then have "\<not> line_end (last s)" by (simp add: plain_line_def list_all_iff)
    then show ?thesis using 1(2) 2(1) newline_facts by (simp add: complete_def)
  next
    case (3 l c cs)
    have c: "c = newline" using 1(2) 3 by (auto simp: complete_def unix_text_def list_all_iff)
    have "complete cs" using 1(2) 3(1) by (auto simp: complete_def unix_text_def split: if_split_asm)
    moreover have "length cs < length s" using 3 by simp
    ultimately have "P cs" using 1(1) by blast
    then show ?thesis using assms(3)[OF 3(2) \<open>complete cs\<close>] 3(1) c by simp
  qed (simp add: assms(2))
qed

definition ended :: "string list \<Rightarrow> string" where
  "ended ls = concat (map (\<lambda>l. l @ [newline]) ls)"

lemma ended_simps [simp]: "ended [] = []" "ended (l # ls) = l @ newline # ended ls" "ended (xs @ ys) = ended xs @ ended ys"
  by (simp_all add: ended_def)

lemma complete_lines:
  assumes "complete s"
  obtains ls where "s = ended ls" "list_all plain_line ls" "keep_lines s = map (\<lambda>l. l @ [newline]) ls"
proof -
  have "\<exists>ls. s = ended ls \<and> list_all plain_line ls \<and> keep_lines s = map (\<lambda>l. l @ [newline]) ls"
    using assms
  proof (induction rule: complete_induct)
    case (Line l s)
    then obtain ls where "s = ended ls" "list_all plain_line ls" "keep_lines s = map (\<lambda>l. l @ [newline]) ls" by blast
    then show ?case using Line(1) by (intro exI[of _ "l # ls"]) (simp add: keep_plain)
  qed (simp add: exI[of _ "[]"])
  then show ?thesis using that by blast
qed

lemma keep_ended: "list_all plain_line ls \<Longrightarrow> keep_lines (ended ls) = map (\<lambda>l. l @ [newline]) ls"
  by (induction ls) (auto simp: keep_plain)

lemma split_ended: "list_all plain_line ls \<Longrightarrow> splitlines (ended ls) = ls"
  by (induction ls) (auto simp: splitlines_line plain_line_def)

lemma join_ended: "ls \<noteq> [] \<Longrightarrow> join_with [newline] ls @ [newline] = ended ls"
proof (induction ls)
  case (Cons l ls)
  then show ?case by (cases "ls = []") (auto simp: join_with_Cons)
qed simp

section \<open>A section is read back\<close>

text \<open>Bullets and categories as a fragment without version headings gives them.\<close>

definition plain_bullet :: "string \<Rightarrow> bool" where
  "plain_bullet b \<longleftrightarrow> plain_line b \<and> strip b \<noteq> [] \<and> heading b = None \<and> category b = None"

definition plain_cats :: "categories \<Rightarrow> bool" where
  "plain_cats cats \<longleftrightarrow> distinct (map fst cats) \<and>
     list_all (\<lambda>(c, bs). c \<noteq> [] \<and> plain_line c \<and> list_all plain_bullet bs) cats"

definition plain_version :: "string \<Rightarrow> bool" where
  "plain_version v \<longleftrightarrow> v \<noteq> [] \<and> plain_line v \<and> CHR '']'' \<notin> set v"

lemma plain_no_newline: "plain_line l \<Longrightarrow> newline \<notin> set l"
  using newline_facts by (auto simp: plain_line_def list_all_iff)

lemma prefix_snoc_newline: "newline \<notin> set p \<Longrightarrow> startswith (l @ [newline]) p = startswith l p"
  by (auto simp: prefix_def append_eq_append_conv2 Cons_eq_append_conv append_eq_Cons_conv)

lemma takeWhile_newline: "newline \<notin> set l \<Longrightarrow> takeWhile (\<lambda>x. x \<noteq> newline) (l @ newline # cs) = l"
  by (induction l) auto

lemma takeWhile_plain: "newline \<notin> set l \<Longrightarrow> takeWhile (\<lambda>x. x \<noteq> newline) l = l"
  by (induction l) auto

lemma plain_drop: "plain_line l \<Longrightarrow> plain_line (drop n l)"
  by (auto simp: plain_line_def list_all_iff dest: in_set_dropD)

lemma category_line: "plain_line l \<Longrightarrow> category (l @ [newline]) = category l"
proof -
  assume l: "plain_line l"
  have p: "newline \<notin> set ''### ''" by code_simp
  have n: "newline \<notin> set (drop 4 l)" by (rule plain_no_newline[OF plain_drop[OF l]])
  show ?thesis
  proof (cases "startswith l ''### ''")
    case True
    then have "drop 4 (l @ [newline]) = drop 4 l @ [newline]" by (auto dest!: prefix_length_le)
    then show ?thesis using True prefix_snoc_newline[OF p, of l]
      by (simp only: category_def takeWhile_newline[OF n, of "[]"] takeWhile_plain[OF n])
  next
    case False
    then show ?thesis by (simp only: category_def prefix_snoc_newline[OF p] if_False)
  qed
qed

lemma takeWhile_stop_newline:
  "takeWhile (\<lambda>x. x \<noteq> a \<and> x \<noteq> newline) (cs @ [newline]) = takeWhile (\<lambda>x. x \<noteq> a \<and> x \<noteq> newline) cs"
  by (induction cs) auto

lemma heading_line: "plain_line l \<Longrightarrow> heading (l @ [newline]) = heading l"
proof -
  assume l: "plain_line l"
  have p: "newline \<notin> set ''## [''" by code_simp
  show ?thesis
  proof (cases "startswith l ''## [''")
    case True
    then have d: "drop 4 (l @ [newline]) = drop 4 l @ [newline]" by (auto dest!: prefix_length_le)
    have nb: "newline \<noteq> CHR '']''" by code_simp
    have s: "startswith (drop n (cs @ [newline])) '']'' = startswith (drop n cs) '']''" if "n \<le> length cs" for n and cs :: string
      using that nb by (cases "drop n cs") auto
    show ?thesis
    proof (cases "drop 4 l")
      case Nil
      then show ?thesis using True d prefix_snoc_newline[OF p, of l] by (simp add: heading_def Let_def)
    next
      case (Cons c cs)
      have "length (takeWhile (\<lambda>x. x \<noteq> CHR '']'' \<and> x \<noteq> newline) cs) \<le> length cs" by (rule length_takeWhile_le)
      from s[OF this] show ?thesis using True d Cons prefix_snoc_newline[OF p, of l]
        by (simp add: heading_def Let_def takeWhile_stop_newline)
    qed
  next
    case False
    then show ?thesis by (simp only: heading_def prefix_snoc_newline[OF p] if_False)
  qed
qed

lemma heading_of_section:
  assumes "plain_version v"
  shows "heading (''## ['' @ v @ ''] - '' @ today) = Some v"
proof -
  obtain c cs where v: "v = c # cs" using assms by (cases v) (auto simp: plain_version_def)
  have n: "CHR '']'' \<notin> set cs" "newline \<notin> set cs" "c \<noteq> newline"
    using assms plain_no_newline[of v] v by (auto simp: plain_version_def)
  then have "takeWhile (\<lambda>x. x \<noteq> CHR '']'' \<and> x \<noteq> newline) (cs @ CHR '']'' # rest) = cs" for rest
    by (induction cs) auto
  then show ?thesis using n(3) by (simp add: heading_def v Let_def)
qed

lemma category_of_line:
  assumes "c \<noteq> []" "plain_line c"
  shows "category (''### '' @ c) = Some c" "heading (''### '' @ c) = None"
proof -
  show "category (''### '' @ c) = Some c"
    using assms(1) by (simp add: category_def Let_def takeWhile_plain[OF plain_no_newline[OF assms(2)]])
qed (simp add: heading_def)

section \<open>Scanning a section\<close>

abbreviation line_of :: "string \<Rightarrow> string" where "line_of l \<equiv> l @ [newline]"

lemma scan_before:
  "list_all (\<lambda>l. heading l \<noteq> Some v) ls \<Longrightarrow>
   scan_section v (ls @ rest) off None cur cats = scan_section v rest (off + length (concat ls)) None cur cats"
  by (induction ls arbitrary: off) (auto simp: add.assoc split: option.split)

lemma chomp_plain: "plain_line b \<Longrightarrow> chomp (b @ [newline]) = b"
proof -
  assume "plain_line b"
  then have "newline \<notin> set (rev b)" using plain_no_newline by simp
  then have "dropWhile (\<lambda>c. c = newline) (rev b) = rev b" by (cases "rev b") auto
  then show ?thesis by (simp add: chomp_def)
qed

lemma strip_line: "strip (b @ [newline]) = strip b"
  using newline_facts(3) by (cases "\<forall>x \<in> set b. is_space x") (auto simp: strip_def dropWhile_append dest: set_dropWhileD)

lemma extend_cat_last: "c \<notin> fst ` set cats \<Longrightarrow> extend_cat c new (cats @ [(c, bs)]) = cats @ [(c, bs @ new)]"
proof -
  assume "c \<notin> fst ` set cats"
  then have "map_of (cats @ [(c, bs)]) c = Some bs" "AList.update c (bs @ new) (cats @ [(c, bs)]) = cats @ [(c, bs @ new)]"
    by (induction cats) (auto simp: map_of_eq_None_iff)
  then show ?thesis by (simp add: extend_cat_def)
qed

lemma extend_cat_new: "c \<notin> fst ` set cats \<Longrightarrow> extend_cat c bs cats = cats @ [(c, bs)]"
proof -
  assume "c \<notin> fst ` set cats"
  then have "map_of cats c = None" by (simp add: map_of_eq_None_iff)
  then show ?thesis by (simp add: extend_cat_def)
qed

lemma scan_bullets:
  assumes "list_all plain_bullet bs" "c \<notin> fst ` set cats"
  shows "scan_section v (map line_of bs @ rest) off (Some s) (Some c) (cats @ [(c, bs0)]) =
    scan_section v rest (off + length (ended bs)) (Some s) (Some c) (cats @ [(c, bs0 @ bs)])"
  using assms(1)
proof (induction bs arbitrary: off bs0)
  case (Cons b bs)
  have b: "plain_line b" "strip b \<noteq> []" "heading b = None" "category b = None" using Cons.prems by (auto simp: plain_bullet_def)
  show ?case using Cons.prems
    by (simp add: heading_line[OF b(1)] category_line[OF b(1)] b(2-4) strip_line chomp_plain[OF b(1)]
        extend_cat_last[OF assms(2)] Cons.IH add.assoc)
qed simp

definition cats_lines :: "categories \<Rightarrow> string list" where
  "cats_lines cats = concat (map (\<lambda>(c, bs). (''### '' @ c) # bs @ [[]]) cats)"

lemma blank_line: "heading [newline] = None" "category [newline] = None" "strip [newline] = []"
  by code_simp+

lemma scan_cats:
  assumes "list_all (\<lambda>(c, bs). c \<noteq> [] \<and> plain_line c \<and> list_all plain_bullet bs) cats"
    "distinct (map fst (before @ cats))"
  shows "\<exists>cur'. scan_section v (map line_of (cats_lines cats) @ rest) off (Some s) cur before =
    scan_section v rest (off + length (ended (cats_lines cats))) (Some s) cur' (before @ cats)"
  using assms
proof (induction cats arbitrary: off cur before)
  case (Cons e cats)
  obtain c bs where e: "e = (c, bs)" by fastforce
  have c: "c \<noteq> []" "plain_line c" "list_all plain_bullet bs" using Cons.prems(1) e by auto
  have n: "c \<notin> fst ` set before" using Cons.prems(2) e by auto
  have pl: "plain_line (''### '' @ c)"
  proof -
    have "plain_line ''### ''" by code_simp
    then show ?thesis using c(2) by (simp add: plain_line_def)
  qed
  have h: "heading (line_of (''### '' @ c)) = None" "category (line_of (''### '' @ c)) = Some c"
    using heading_line[OF pl] category_line[OF pl] category_of_line[OF c(1,2)] by simp_all
  have "scan_section v (map line_of (cats_lines (e # cats)) @ rest) off (Some s) cur before =
    scan_section v (line_of (''### '' @ c) # map line_of bs @ [newline] # map line_of (cats_lines cats) @ rest) off (Some s) cur before"
    by (simp add: cats_lines_def e)
  also have "\<dots> = scan_section v (map line_of bs @ [newline] # map line_of (cats_lines cats) @ rest)
      (off + length (line_of (''### '' @ c))) (Some s) (Some c) (before @ [(c, [])])"
    using h by (simp only: scan_section.simps option.case extend_cat_new[OF n])
  also have "\<dots> = scan_section v (map line_of (cats_lines cats) @ rest)
      (off + length (line_of (''### '' @ c)) + length (ended bs) + 1) (Some s) (Some c) (before @ [(c, bs)])"
    by (simp add: scan_bullets[OF c(3) n] blank_line)
  finally have step: "scan_section v (map line_of (cats_lines (e # cats)) @ rest) off (Some s) cur before =
    scan_section v (map line_of (cats_lines cats) @ rest)
      (off + length (line_of (''### '' @ c)) + length (ended bs) + 1) (Some s) (Some c) (before @ [(c, bs)])" .
  have "list_all (\<lambda>(c, bs). c \<noteq> [] \<and> plain_line c \<and> list_all plain_bullet bs) cats"
    "distinct (map fst ((before @ [(c, bs)]) @ cats))" using Cons.prems e by simp_all
  from Cons.IH[OF this] obtain cur' where ih: "scan_section v (map line_of (cats_lines cats) @ rest)
      (off + length (line_of (''### '' @ c)) + length (ended bs) + 1) (Some s) (Some c) (before @ [(c, bs)]) =
    scan_section v rest (off + length (line_of (''### '' @ c)) + length (ended bs) + 1 + length (ended (cats_lines cats)))
      (Some s) cur' ((before @ [(c, bs)]) @ cats)" by blast
  have len: "length (ended (cats_lines (e # cats))) =
      length (line_of (''### '' @ c)) + length (ended bs) + 1 + length (ended (cats_lines cats))"
    by (simp add: cats_lines_def e)
  show ?case unfolding step ih len by (intro exI[of _ cur']) (simp add: e add.assoc)
qed (auto simp: cats_lines_def)

section \<open>Promoted sections are read back\<close>

lemma section_ended: "build_version_section today v cats @ [newline] = ended (section_lines today v cats)"
  unfolding build_version_section_def by (rule join_ended) (simp add: section_lines_def)

lemma section_lines_cats: "section_lines today v cats = [''## ['' @ v @ ''] - '' @ today, []] @ cats_lines cats"
  by (simp add: section_lines_def cats_lines_def)

lemma cats_lines_plain: "plain_cats cats \<Longrightarrow> list_all plain_line (cats_lines cats)"
proof -
  assume p: "plain_cats cats"
  have h: "plain_line ''### ''" "plain_line []" by code_simp+
  have "plain_line (''### '' @ c)" if "plain_line c" for c using h(1) that by (simp add: plain_line_def)
  then show ?thesis using p h(2) by (fastforce simp: plain_cats_def cats_lines_def list_all_iff plain_bullet_def)
qed

lemma section_plain:
  assumes "plain_version v" "plain_line today" "plain_cats cats"
  shows "list_all plain_line (section_lines today v cats)"
proof -
  have h: "plain_line ''## [''" "plain_line ''] - ''" "plain_line []" by code_simp+
  then have "plain_line (''## ['' @ v @ ''] - '' @ today)" using assms by (simp add: plain_line_def plain_version_def)
  then show ?thesis using h cats_lines_plain[OF assms(3)] by (simp add: section_lines_cats)
qed

text \<open>A section between lines that do not open it and a heading or the end of the text.\<close>

lemma section_read_back:
  assumes "plain_version v" "plain_line today" "plain_cats cats" "list_all plain_line before" "list_all plain_line after"
    "list_all (\<lambda>l. heading l \<noteq> Some v) before" "after = [] \<or> heading (hd after) \<noteq> None"
  shows "parse_changelog_section (ended before @ build_version_section today v cats @ [newline] @ ended after) v =
    (cats, length (ended before), length (ended before) + length (build_version_section today v cats) + 1)"
proof -
  let ?h = "''## ['' @ v @ ''] - '' @ today"
  have sp: "list_all plain_line (section_lines today v cats)" by (rule section_plain[OF assms(1-3)])
  then have hp: "plain_line ?h" by (simp add: section_lines_def)
  have e: "ended before @ build_version_section today v cats @ [newline] @ ended after = ended (before @ section_lines today v cats @ after)"
    unfolding ended_simps(3) section_ended[symmetric] by (simp only: append_assoc)
  have "list_all plain_line (before @ section_lines today v cats @ after)" using sp assms(4,5) by simp
  note keep = keep_ended[OF this]
  have k: "keep_lines (ended before @ build_version_section today v cats @ [newline] @ ended after) =
      map line_of before @ line_of ?h # [newline] # map line_of (cats_lines cats) @ map line_of after"
    unfolding e keep by (simp add: section_lines_cats)
  have b: "list_all (\<lambda>l. heading l \<noteq> Some v) (map line_of before)"
    using assms(4,6) heading_line by (auto simp: list_all_iff)
  have hh: "heading (line_of ?h) = Some v" using heading_line[OF hp] heading_of_section[OF assms(1)] by simp
  let ?o = "length (concat (map line_of before))"
  obtain cur' where cats: "scan_section v (map line_of (cats_lines cats) @ map line_of after) (?o + length (line_of ?h) + 1) (Some ?o) None [] =
      scan_section v (map line_of after) (?o + length (line_of ?h) + 1 + length (ended (cats_lines cats))) (Some ?o) cur' ([] @ cats)"
    using scan_cats[of cats "[]"] assms(3) unfolding plain_cats_def by fastforce
  have fin: "scan_section v (map line_of after) off (Some s) cur c = (c, s, off)" for off s cur c
  proof (cases after)
    case (Cons l ls)
    then have "heading (line_of l) \<noteq> None" using assms(5,7) heading_line by simp
    then show ?thesis using Cons by auto
  qed simp
  have "parse_changelog_section (ended before @ build_version_section today v cats @ [newline] @ ended after) v =
      scan_section v (line_of ?h # [newline] # map line_of (cats_lines cats) @ map line_of after) ?o None None []"
    unfolding parse_changelog_section_def k using scan_before[OF b, of _ 0] by simp
  also have "\<dots> = scan_section v (map line_of (cats_lines cats) @ map line_of after) (?o + length (line_of ?h) + 1) (Some ?o) None []"
    using hh blank_line by (simp only: scan_section.simps option.case refl if_True list.size add_0 One_nat_def)
  also have "\<dots> = (cats, ?o, ?o + length (line_of ?h) + 1 + length (ended (cats_lines cats)))"
    unfolding cats fin by simp
  finally have r: "parse_changelog_section (ended before @ build_version_section today v cats @ [newline] @ ended after) v =
     (cats, ?o, ?o + length (line_of ?h) + 1 + length (ended (cats_lines cats)))" .
  have "length (build_version_section today v cats) + 1 = length (line_of ?h) + 1 + length (ended (cats_lines cats))"
    using arg_cong[OF section_ended[of today v cats], of length] by (simp add: section_lines_cats)
  then show ?thesis unfolding r by (simp add: ended_def)
qed

section \<open>Where the section goes\<close>

lemma insert_offset_lines:
  "list_all plain_line ls \<Longrightarrow> insert_offset n (map line_of ls) = n + length (ended (takeWhile (\<lambda>l. heading l = None) ls))"
proof (induction ls arbitrary: n)
  case (Cons l ls)
  have "heading (line_of l) = heading l" using Cons.prems heading_line by simp
  then show ?case using Cons by simp
qed simp

lemma take_ended: "take (length (ended xs)) (ended (xs @ ys)) = ended xs" "drop (length (ended xs)) (ended (xs @ ys)) = ended ys"
  by simp_all

lemma inserted_section:
  assumes "list_all plain_line ls" "(case cl of None \<Rightarrow> [] | Some t \<Rightarrow> t) = ended ls"
  obtains before after where "ls = before @ after" "list_all (\<lambda>l. heading l = None) before"
    "after = [] \<or> heading (hd after) \<noteq> None" "insert_new_section cl sec = ended before @ sec @ [newline] @ ended after"
proof -
  let ?b = "takeWhile (\<lambda>l. heading l = None) ls" and ?a = "dropWhile (\<lambda>l. heading l = None) ls"
  have s: "ls = ?b @ ?a" by simp
  have pos: "find_insert_position (ended ls) = length (ended ?b)"
    by (simp add: find_insert_position_def keep_ended[OF assms(1)] insert_offset_lines[OF assms(1)])
  have "take (length (ended ?b)) (ended ls) = ended ?b" "drop (length (ended ?b)) (ended ls) = ended ?a"
    using take_ended[of ?b ?a] by simp_all
  then have "insert_new_section cl sec = ended ?b @ sec @ [newline] @ ended ?a"
    by (simp add: insert_new_section_def assms(2) Let_def pos)
  moreover have "list_all (\<lambda>l. heading l = None) ?b" by (auto simp: list_all_iff dest: set_takeWhileD)
  moreover have "?a = [] \<or> heading (hd ?a) \<noteq> None" using hd_dropWhile[of "\<lambda>l. heading l = None" ls] by blast
  ultimately show ?thesis using that[OF s] by blast
qed

lemma map_of_extend_cat:
  "map_of (extend_cat c bs cats) k = (if k = c then Some ((case map_of cats c of None \<Rightarrow> [] | Some b \<Rightarrow> b) @ bs) else map_of cats k)"
  by (auto simp: extend_cat_def update_conv' map_add_def split: option.split)

lemma keys_extend_cat: "distinct (map fst cats) \<Longrightarrow> distinct (map fst (extend_cat c bs cats))"
  by (auto simp: extend_cat_def distinct_update map_of_eq_None_iff split: option.split)

lemma plain_cats_iff:
  "plain_cats cats \<longleftrightarrow> distinct (map fst cats) \<and>
     (\<forall>c bs. map_of cats c = Some bs \<longrightarrow> c \<noteq> [] \<and> plain_line c \<and> list_all plain_bullet bs)"
  unfolding plain_cats_def list_all_iff by (auto dest: map_of_SomeD) fastforce

lemma plain_extend:
  assumes "plain_cats cats" "c \<noteq> []" "plain_line c" "list_all plain_bullet bs"
  shows "plain_cats (extend_cat c bs cats)"
  using assms keys_extend_cat unfolding plain_cats_iff map_of_extend_cat by (auto split: option.split if_split_asm)

lemma plain_Nil [simp]: "plain_cats []"
  by (simp add: plain_cats_def)

definition plain_cur :: "string option \<Rightarrow> bool" where
  "plain_cur cur \<longleftrightarrow> (case cur of None \<Rightarrow> True | Some c \<Rightarrow> c \<noteq> [] \<and> plain_line c)"

lemma category_plain: "plain_line l \<Longrightarrow> category l = Some c \<Longrightarrow> c \<noteq> [] \<and> plain_line c"
  by (auto simp: category_def Let_def plain_line_def list_all_iff split: if_split_asm dest!: set_takeWhileD in_set_dropD)

lemma scan_body:
  assumes "list_all plain_line body" "list_all (\<lambda>l. heading l = None) body" "plain_cats cats" "plain_cur cur"
  shows "\<exists>cur' cats'. plain_cats cats' \<and>
    scan_section v (map line_of body @ rest) off (Some s) cur cats = scan_section v rest (off + length (ended body)) (Some s) cur' cats'"
  using assms
proof (induction body arbitrary: off cur cats)
  case (Cons l body)
  have l: "plain_line l" "heading l = None" using Cons.prems by auto
  obtain cur1 cats1 where one: "plain_cats cats1" "plain_cur cur1"
    "\<And>x. scan_section v (line_of l # x) off (Some s) cur cats = scan_section v x (off + length (line_of l)) (Some s) cur1 cats1"
  proof (cases "category l")
    case (Some c)
    then have "c \<noteq> [] \<and> plain_line c" by (rule category_plain[OF l(1)])
    then show ?thesis using that[of "extend_cat c [] cats" "Some c"] Some l Cons.prems(3)
      by (simp add: heading_line category_line plain_extend plain_cur_def)
  next
    case None
    show ?thesis
    proof (cases cur)
      case (Some c)
      have c: "c \<noteq> []" "plain_line c" using Cons.prems(4) Some by (auto simp: plain_cur_def)
      have "plain_cats (if strip l \<noteq> [] then extend_cat c [l] cats else cats)"
        using plain_extend[OF Cons.prems(3) c, of "[l]"] l None Cons.prems(3) by (simp add: plain_bullet_def)
      then show ?thesis using that[of "if strip l \<noteq> [] then extend_cat c [l] cats else cats" cur] None Some l Cons.prems(4)
        by (simp add: heading_line category_line strip_line chomp_plain)
    qed (use that[of cats None] None l Cons.prems in \<open>simp add: heading_line category_line\<close>)
  qed
  obtain cur' cats' where "plain_cats cats'"
    "scan_section v (map line_of body @ rest) (off + length (line_of l)) (Some s) cur1 cats1 =
     scan_section v rest (off + length (line_of l) + length (ended body)) (Some s) cur' cats'"
    using Cons.IH[OF _ _ one(1,2)] Cons.prems by fastforce
  then show ?case using one(3) by (intro exI[of _ cur'] exI[of _ cats']) (simp add: add.assoc)
qed auto

text \<open>The section of a version that is there, with what is before and after it.\<close>

lemma section_found:
  assumes "list_all plain_line ls" "list_ex (\<lambda>l. heading l = Some v) ls"
  obtains before sec after cats where "ls = before @ sec @ after" "list_all (\<lambda>l. heading l \<noteq> Some v) before"
    "after = [] \<or> heading (hd after) \<noteq> None" "plain_cats cats"
    "parse_changelog_section (ended ls) v = (cats, length (ended before), length (ended (before @ sec)))"
proof -
  let ?P = "\<lambda>l. heading l \<noteq> Some v" and ?Q = "\<lambda>l. heading l = None"
  let ?before = "takeWhile ?P ls"
  obtain l rest where lr: "dropWhile ?P ls = l # rest" "heading l = Some v"
    using assms(2) hd_dropWhile[of ?P ls] by (cases "dropWhile ?P ls") (auto simp: list_ex_iff dropWhile_eq_Nil_conv)
  let ?body = "takeWhile ?Q rest" and ?after = "dropWhile ?Q rest"
  have s: "ls = ?before @ (l # ?body) @ ?after" using takeWhile_dropWhile_id[of ?P ls] lr(1) by simp
  have "list_all plain_line (?before @ (l # ?body) @ ?after)" by (subst s[symmetric]) (rule assms(1))
  then have pl: "list_all plain_line ?before" "plain_line l" "list_all plain_line ?body" "list_all plain_line ?after"
    by (simp_all only: list_all_append list.pred_inject)
  have af: "?after = [] \<or> heading (hd ?after) \<noteq> None" using hd_dropWhile[of ?Q rest] by blast
  have b: "list_all (\<lambda>l. heading l \<noteq> Some v) (map line_of ?before)"
    using pl(1) by (auto simp: list_all_iff heading_line dest: set_takeWhileD)
  have q: "list_all ?Q ?body" by (auto simp: list_all_iff dest: set_takeWhileD)
  have c0: "plain_cur None" by (simp add: plain_cur_def)
  obtain cur' cats where cats: "plain_cats cats" "scan_section v (map line_of ?body @ map line_of ?after)
      (length (ended ?before) + length (line_of l)) (Some (length (ended ?before))) None [] =
    scan_section v (map line_of ?after) (length (ended ?before) + length (line_of l) + length (ended ?body)) (Some (length (ended ?before))) cur' cats"
    using scan_body[OF pl(3) q plain_Nil c0] by blast
  have fin: "scan_section v (map line_of ?after) off (Some s) cur c = (c, s, off)" for off s cur c
  proof (cases ?after)
    case (Cons x xs)
    then have "heading (line_of x) \<noteq> None" using pl(4) af heading_line by simp
    then show ?thesis using Cons by auto
  next
    case Nil
    then show ?thesis by (simp only: list.map scan_section.simps option.case)
  qed
  have "parse_changelog_section (ended ls) v = scan_section v (map line_of ?before @ map line_of (l # rest)) 0 None None []"
    unfolding parse_changelog_section_def keep_ended[OF assms(1)]
    using arg_cong[OF takeWhile_dropWhile_id[of ?P ls], of "map line_of"] lr(1) by simp
  also have "\<dots> = scan_section v (line_of l # map line_of rest) (length (ended ?before)) None None []"
    using scan_before[OF b, of _ 0] by (simp add: ended_def)
  also have "\<dots> = scan_section v (map line_of ?body @ map line_of ?after)
      (length (ended ?before) + length (line_of l)) (Some (length (ended ?before))) None []"
    using lr(2) heading_line[OF pl(2)] by (simp flip: map_append)
  also have "\<dots> = (cats, length (ended ?before), length (ended (?before @ l # ?body)))"
    unfolding cats(2) fin by (simp add: add.assoc)
  finally have p: "parse_changelog_section (ended ls) v = (cats, length (ended ?before), length (ended (?before @ l # ?body)))" .
  have "list_all (\<lambda>l. heading l \<noteq> Some v) ?before" by (auto simp: list_all_iff dest: set_takeWhileD)
  from that[OF s this af cats(1) p] show ?thesis .
qed

text \<open>Either way the promoted section is read back.\<close>

lemma promoted_read_back:
  assumes "plain_version v" "plain_line today" "list_all plain_line ls" "(case cl of None \<Rightarrow> [] | Some t \<Rightarrow> t) = ended ls"
    "plain_cats new" "\<And>a b. plain_cats a \<Longrightarrow> plain_cats b \<Longrightarrow> plain_cats (merge_categories a b)"
  shows "plain_cats (fst (parse_changelog_section (ended ls) v)) \<and>
    fst (parse_changelog_section (promoted_changelog today v cl new) v) =
      (if changelog_has_version cl v then merge_categories (fst (parse_changelog_section (ended ls) v)) new else new)"
proof (cases "changelog_has_version cl v")
  case True
  then obtain t where t: "cl = Some t" "t = ended ls" using assms(4) by (cases cl) (auto simp: changelog_has_version_def)
  have "list_ex (\<lambda>l. heading l = Some v) ls" using True t by (simp add: changelog_has_version_def split_ended[OF assms(3)])
  then obtain before sec after cats where s: "ls = before @ sec @ after" "list_all (\<lambda>l. heading l \<noteq> Some v) before"
    "after = [] \<or> heading (hd after) \<noteq> None" "plain_cats cats"
    "parse_changelog_section (ended ls) v = (cats, length (ended before), length (ended (before @ sec)))"
    using section_found[OF assms(3)] by metis
  let ?new = "build_version_section today v (merge_categories cats new)"
  have "take (length (ended before)) (ended ls) = ended before" "drop (length (ended (before @ sec))) (ended ls) = ended after"
    using take_ended(1)[of before "sec @ after"] take_ended(2)[of "before @ sec" after] s(1) by simp_all
  then have "promoted_changelog today v cl new = ended before @ ?new @ [newline] @ ended after"
    using True by (simp add: promoted_changelog_def t replace_section_def s(5))
  moreover have "list_all plain_line before" "list_all plain_line after" using assms(3) s(1) by simp_all
  ultimately show ?thesis
    using section_read_back[OF assms(1,2) assms(6)[OF s(4) assms(5)] _ _ s(2,3)] True s(4,5) by simp
next
  case False
  obtain before after where s: "ls = before @ after" "list_all (\<lambda>l. heading l = None) before"
    "after = [] \<or> heading (hd after) \<noteq> None"
    "insert_new_section cl (build_version_section today v new) = ended before @ build_version_section today v new @ [newline] @ ended after"
    using inserted_section[OF assms(3,4)] by metis
  have "promoted_changelog today v cl new = ended before @ build_version_section today v new @ [newline] @ ended after"
    using False s(4) by (cases cl) (simp_all add: promoted_changelog_def)
  moreover have "list_all plain_line before" "list_all plain_line after" using assms(3) s(1) by simp_all
  moreover have "list_all (\<lambda>l. heading l \<noteq> Some v) before" using s(2) by (auto simp: list_all_iff)
  moreover have "parse_changelog_section (ended ls) v = ([], 0, 0)"
  proof -
    have n: "list_all (\<lambda>l. heading l \<noteq> Some v) ls"
    proof (cases cl)
      case None
      then have "ended ls = []" using assms(4) by simp
      then show ?thesis by (cases ls) (auto)
    next
      case (Some t)
      then have "splitlines t = ls" using assms(4) split_ended[OF assms(3)] by simp
      then show ?thesis using False Some by (simp add: changelog_has_version_def list_ex_iff list_all_iff)
    qed
    have "list_all (\<lambda>l. heading l \<noteq> Some v) (map line_of ls)" using n assms(3) by (auto simp: list_all_iff heading_line)
    from scan_before[OF this, of "[]" 0] show ?thesis
      by (simp add: parse_changelog_section_def keep_ended[OF assms(3)])
  qed
  ultimately show ?thesis using section_read_back[OF assms(1,2,5) _ _ _ s(3)] False by simp
qed

section \<open>No bullet is lost\<close>

definition bullets_of :: "categories \<Rightarrow> string \<Rightarrow> string list" where
  "bullets_of cats k = (case map_of cats k of None \<Rightarrow> [] | Some bs \<Rightarrow> bs)"

text \<open>\<open>a\<close> has all the bullets of \<open>b\<close>, under the same categories.\<close>

definition covers :: "categories \<Rightarrow> categories \<Rightarrow> bool" where
  "covers a b \<longleftrightarrow> (\<forall>k. set (bullets_of b k) \<subseteq> set (bullets_of a k))"

lemma covers_refl [simp]: "covers a a"
  by (simp add: covers_def)

lemma covers_trans: "covers a b \<Longrightarrow> covers b c \<Longrightarrow> covers a c"
  unfolding covers_def by blast

lemma bullets_extend: "bullets_of (extend_cat c bs cats) k = (if k = c then bullets_of cats c @ bs else bullets_of cats k)"
  by (simp add: bullets_of_def map_of_extend_cat)

lemma covers_extend: "covers (extend_cat c bs cats) cats"
  by (simp add: covers_def bullets_extend)

lemma extend_all_old: "covers (extend_all cats new) cats"
proof (induction new arbitrary: cats)
  case (Cons e new)
  obtain c bs where e: "e = (c, bs)" by fastforce
  have "covers (extend_all (extend_cat c bs cats) new) cats" by (rule covers_trans[OF Cons.IH covers_extend])
  then show ?case by (simp add: extend_all_def e)
qed (simp add: extend_all_def)

lemma extend_all_new: "distinct (map fst new) \<Longrightarrow> covers (extend_all cats new) new"
proof -
  have "set (bullets_of new k) \<subseteq> set (bullets_of (extend_all cats new) k)" if "distinct (map fst new)" for k
    using that
  proof (induction new arbitrary: cats)
    case (Cons e new)
    obtain c bs where e: "e = (c, bs)" by fastforce
    have s: "extend_all cats (e # new) = extend_all (extend_cat c bs cats) new" by (simp add: extend_all_def e)
    have c: "set (bullets_of (extend_cat c bs cats) c) \<subseteq> set (bullets_of (extend_all (extend_cat c bs cats) new) c)"
      using extend_all_old[of "extend_cat c bs cats" new] unfolding covers_def by blast
    show ?case
    proof (cases "k = c")
      case True
      then have "bullets_of (e # new) k = bs" by (simp add: bullets_of_def e)
      then show ?thesis using c True unfolding s by (simp add: bullets_extend)
    next
      case False
      then have "bullets_of (e # new) k = bullets_of new k" by (simp add: bullets_of_def e)
      then show ?thesis using Cons unfolding s by simp
    qed
  qed (simp add: bullets_of_def)
  then show "distinct (map fst new) \<Longrightarrow> covers (extend_all cats new) new" by (simp add: covers_def)
qed

lemma plain_extend_all: "plain_cats cats \<Longrightarrow> plain_cats new \<Longrightarrow> plain_cats (extend_all cats new)"
proof -
  have "plain_cats (extend_all cats new)" if "plain_cats cats"
    "list_all (\<lambda>(c, bs). c \<noteq> [] \<and> plain_line c \<and> list_all plain_bullet bs) new" for cats
    using that
  proof (induction new arbitrary: cats)
    case (Cons e new)
    obtain c bs where e: "e = (c, bs)" by fastforce
    have "plain_cats (extend_cat c bs cats)" using Cons.prems e by (auto intro: plain_extend)
    then show ?case using Cons by (simp add: extend_all_def e)
  qed (simp add: extend_all_def)
  then show "plain_cats cats \<Longrightarrow> plain_cats new \<Longrightarrow> plain_cats (extend_all cats new)" by (simp add: plain_cats_def)
qed

lemma set_sort_filter: "set (sort_key fst (filter P cats)) = {x \<in> set cats. P x}"
  by simp

lemma standard_entries:
  assumes "distinct (map fst cats)"
  shows "distinct (map fst (standard_order cats)) \<and> set (standard_order cats) = set cats"
proof -
  let ?f = "\<lambda>c. map_option (Pair c) (map_of cats c)"
  have keys: "map fst (List.map_filter ?f ks) = filter (\<lambda>k. map_of cats k \<noteq> None) ks" for ks
    by (induction ks) (auto simp: List.map_filter_simps split: option.split)
  have entries: "set (List.map_filter ?f ks) = {(k, bs). k \<in> set ks \<and> map_of cats k = Some bs}" for ks
    by (induction ks) (auto simp: List.map_filter_simps split: option.split)
  have d: "distinct category_order" by code_simp
  have "distinct (map fst (filter (\<lambda>(c, bs). c \<notin> set category_order) cats))"
    using assms by (rule distinct_filter_fst)
  then have "distinct (map fst (sort_key fst (filter (\<lambda>(c, bs). c \<notin> set category_order) cats)))"
    using distinct_map[of fst] by (auto simp: distinct_map)
  then have "distinct (map fst (standard_order cats))"
    using d unfolding standard_order_def map_append distinct_append keys by auto
  moreover have "set (standard_order cats) = set cats"
    unfolding standard_order_def set_append entries set_sort_filter using assms
    by (auto dest: map_of_SomeD simp: map_of_is_SomeI)
  ultimately show ?thesis by simp
qed

lemma standard_map_of:
  assumes "distinct (map fst cats)"
  shows "map_of (standard_order cats) = map_of cats"
proof
  fix k
  have "map_of (standard_order cats) k = Some bs \<longleftrightarrow> map_of cats k = Some bs" for bs
    using standard_entries[OF assms] assms by (metis map_of_eq_Some_iff)
  then show "map_of (standard_order cats) k = map_of cats k" by (metis not_Some_eq)
qed

lemma standard_plain: "plain_cats cats \<Longrightarrow> plain_cats (standard_order cats)"
  using standard_entries[of cats] by (simp add: plain_cats_def list_all_iff)

lemma standard_bullets: "distinct (map fst cats) \<Longrightarrow> bullets_of (standard_order cats) k = bullets_of cats k"
  by (simp add: bullets_of_def standard_map_of)

lemma plain_keys: "plain_cats cats \<Longrightarrow> distinct (map fst cats)"
  by (simp add: plain_cats_def)

lemma merged_plain: "plain_cats a \<Longrightarrow> plain_cats b \<Longrightarrow> plain_cats (merge_categories a b)"
  by (simp add: merge_categories_def standard_plain plain_extend_all)

lemma merged_covers:
  assumes "plain_cats a" "plain_cats b"
  shows "covers (merge_categories a b) a" "covers (merge_categories a b) b"
proof -
  let ?m = "extend_all (extend_all [] a) b"
  have d: "distinct (map fst ?m)" using assms by (intro plain_keys plain_extend_all plain_Nil)
  have "covers ?m a" by (rule covers_trans[OF extend_all_old extend_all_new[OF plain_keys[OF assms(1)]]])
  moreover have "covers ?m b" by (rule extend_all_new[OF plain_keys[OF assms(2)]])
  ultimately show "covers (merge_categories a b) a" "covers (merge_categories a b) b"
    by (simp_all add: covers_def merge_categories_def standard_bullets[OF d])
qed

lemma splitlines_plain: "list_all plain_line (splitlines s)"
proof (induction s rule: splitlines.induct)
  case (1 s)
  have p: "plain_line (takeWhile (\<lambda>c. \<not> line_end c) s)" by (auto simp: plain_line_def list_all_iff dest: set_takeWhileD)
  show ?case using 1 p by (subst splitlines.simps) (auto split: list.split)
qed

lemma fragment_plain:
  assumes "list_all plain_line ls" "list_all (\<lambda>l. heading l = None) ls" "plain_cats cats" "plain_cur cur"
  shows "plain_cats (fragment_lines ls cur cats)"
  using assms
proof (induction ls arbitrary: cur cats)
  case (Cons l ls)
  have l: "plain_line l" "heading l = None" using Cons.prems by auto
  show ?case
  proof (cases "category l")
    case (Some c)
    have c: "c \<noteq> [] \<and> plain_line c" by (rule category_plain[OF l(1) Some])
    then have "plain_cats (extend_cat c [] cats)" using Cons.prems(3) by (simp add: plain_extend)
    then show ?thesis using Cons.IH[of "extend_cat c [] cats" "Some c"] Cons.prems c Some by (simp add: plain_cur_def)
  next
    case None
    show ?thesis
    proof (cases cur)
      case (Some c)
      have "plain_cats (if strip l \<noteq> [] then extend_cat c [l] cats else cats)"
        using plain_extend[OF Cons.prems(3), of c "[l]"] l None Some Cons.prems(3,4) by (simp add: plain_bullet_def plain_cur_def)
      then show ?thesis using Cons.IH[of _ cur] Cons.prems None Some by simp
    qed (use Cons None in simp)
  qed
qed simp

lemma parsed_plain: "list_all (\<lambda>l. heading l = None) (splitlines t) \<Longrightarrow> plain_cats (parse_fragment t)"
  unfolding parse_fragment_def by (rule fragment_plain[OF splitlines_plain]) (simp_all add: plain_cur_def)

lemma aggregated:
  assumes "list_all (\<lambda>t. plain_cats (parse_fragment t)) texts"
  shows "plain_cats (aggregate_fragments texts) \<and> list_all (\<lambda>t. covers (aggregate_fragments texts) (parse_fragment t)) texts"
proof -
  let ?g = "\<lambda>acc t. extend_all acc (parse_fragment t)"
  have f: "plain_cats (foldl ?g acc ts) \<and> covers (foldl ?g acc ts) acc \<and> list_all (\<lambda>t. covers (foldl ?g acc ts) (parse_fragment t)) ts"
    if "list_all (\<lambda>t. plain_cats (parse_fragment t)) ts" "plain_cats acc" for ts acc
    using that
  proof (induction ts arbitrary: acc)
    case (Cons t ts)
    have t: "plain_cats (parse_fragment t)" using Cons.prems by simp
    have "plain_cats (?g acc t)" by (rule plain_extend_all[OF Cons.prems(2) t])
    then have ih: "plain_cats (foldl ?g (?g acc t) ts)" "covers (foldl ?g (?g acc t) ts) (?g acc t)"
      "list_all (\<lambda>u. covers (foldl ?g (?g acc t) ts) (parse_fragment u)) ts" using Cons by simp_all
    show ?case using ih covers_trans[OF ih(2) extend_all_old] covers_trans[OF ih(2) extend_all_new[OF plain_keys[OF t]]] by simp
  qed simp
  let ?m = "foldl ?g [] texts"
  have m: "plain_cats ?m" "list_all (\<lambda>t. covers ?m (parse_fragment t)) texts" using f[OF assms plain_Nil] by auto
  have "covers (standard_order ?m) x = covers ?m x" for x by (simp add: covers_def standard_bullets[OF plain_keys[OF m(1)]])
  then show ?thesis using m standard_plain by (simp add: aggregate_fragments_def)
qed

section \<open>Promotion keeps every bullet\<close>

text \<open>The section of a version in the changelog of a component.\<close>

definition section_of :: "repo \<Rightarrow> string \<times> string \<Rightarrow> string \<Rightarrow> categories" where
  "section_of r c v = fst (parse_changelog_section (file_text r (changelog_path (snd c))) v)"


section \<open>Witnesses and what is lost\<close>

definition sample_repo :: repo where
  "sample_repo = [(''src/sek8s/VERSION'', ''1.1'' @ [newline]),
     (''changelogs/sek8s/CHANGELOG.md'', ended [''# Log'', [], ''## [1.0] - 2024'', [], ''### Fixed'', ''- a'', []]),
     (''changelogs/sek8s/unreleased/x.md'', ended [''### Added'', ''- b''])]"

lemma sample_repo_facts:
  "(''src/sek8s/VERSION'', ''changelogs/sek8s'') \<in> set version_changelog_map"
  "map_of sample_repo (fst (''src/sek8s/VERSION'', ''changelogs/sek8s'')) = Some (''1.1'' @ [newline])"
  "plain_version (read_version (''1.1'' @ [newline]))" "plain_line ''2025-01-01''"
  "complete (file_text sample_repo (changelog_path (snd (''src/sek8s/VERSION'', ''changelogs/sek8s''))))"
  "list_all (\<lambda>f. list_all (\<lambda>l. heading l = None) (splitlines (file_text sample_repo f)))
     (collect_fragments sample_repo (unreleased (snd (''src/sek8s/VERSION'', ''changelogs/sek8s''))))"
  "collect_fragments sample_repo (unreleased ''changelogs/sek8s'') = [''changelogs/sek8s/unreleased/x.md'']"
  "bullets_of (parse_fragment (file_text sample_repo ''changelogs/sek8s/unreleased/x.md'')) ''Added'' = [''- b'']"
  by code_simp+


text \<open>What a fragment says before its first category is dropped, and the fragment is deleted.\<close>

theorem text_before_categories_is_lost:
  "parse_fragment (ended [''Breaking: x'', ''### Added'', ''- b'']) = [(''Added'', [''- b''])]"
  by code_simp

text \<open>A changelog whose last line is not complete gets the new heading in the middle of that line, so the version is not found again.\<close>

theorem heading_in_the_middle_of_a_line:
  "changelog_has_version (Some (promoted_changelog ''2025'' ''1.1'' (Some ''# Log'') [(''Added'', [''- b''])])) ''1.1'' = False"
  by code_simp

end
