(* ===== verification/Version_Sync.thy ===== *)
theory Version_Sync
  imports Changelogs
begin

text \<open>
  \<open>scripts/sync_pyproject_versions.py\<close>: the version of a package is copied from its \<open>VERSION\<close> file into the
  \<open>[tool.poetry]\<close> section of its \<open>pyproject.toml\<close>. A package is the pair of the two texts, if they exist.
\<close>

section \<open>Reading\<close>

definition quote_char :: "char \<Rightarrow> bool" where
  "quote_char c \<longleftrightarrow> c = CHR 0x22 \<or> c = CHR 0x27"

definition drop_quote :: "string \<Rightarrow> string" where
  "drop_quote s = (case s of [] \<Rightarrow> [] | c # cs \<Rightarrow> if quote_char c then cs else s)"

text \<open>\<open>^version\s*=\s*["']?([^"']*)["']?\s*$\<close>, the group.\<close>

definition version_pattern :: "string \<Rightarrow> string option" where
  "version_pattern s =
     (if startswith s ''version'' then
        (case dropWhile is_space (drop 7 s) of
           [] \<Rightarrow> None
         | c # rest \<Rightarrow>
             (let r = drop_quote (dropWhile is_space rest); v = takeWhile (\<lambda>x. \<not> quote_char x) r in
              if c = CHR ''='' \<and> list_all is_space (drop_quote (dropWhile (\<lambda>x. \<not> quote_char x) r)) then Some v else None))
      else None)"

definition get_version_from_file :: "string \<Rightarrow> string" where
  "get_version_from_file content = (case splitlines (strip content) of [] \<Rightarrow> [] | l # _ \<Rightarrow> strip l)"

definition poetry_head :: string where "poetry_head = ''[tool.poetry]''"

fun find_version :: "bool \<Rightarrow> string list \<Rightarrow> string" where
  "find_version inside [] = []"
| "find_version inside (l # ls) =
     (let s = strip l in
      if s = poetry_head then find_version True ls
      else if inside \<and> startswith s ''['' then []
      else if inside then (case version_pattern s of Some v \<Rightarrow> v | None \<Rightarrow> find_version inside ls)
      else find_version inside ls)"

definition get_pyproject_version :: "string \<Rightarrow> string" where
  "get_pyproject_version content = find_version False (splitlines content)"

record package =
  pk_version :: "string option"
  pk_pyproject :: "string option"

definition check_pyproject :: "package \<Rightarrow> bool" where
  "check_pyproject p =
     (case (pk_version p, pk_pyproject p) of
        (Some vt, Some content) \<Rightarrow>
          (let v = get_version_from_file vt in v = [] \<or> get_pyproject_version content = v)
      | _ \<Rightarrow> True)"

section \<open>Writing\<close>

definition version_line :: "string \<Rightarrow> string" where
  "version_line v = ''version = '' @ [CHR 0x22] @ v @ [CHR 0x22]"

definition rstripped :: "string \<Rightarrow> string" where
  "rstripped s = rev (dropWhile is_space (rev s))"

text \<open>The lines with their ends, and whether one changed.\<close>

fun sync_lines :: "bool \<Rightarrow> string \<Rightarrow> string list \<Rightarrow> string list \<times> bool" where
  "sync_lines inside v [] = ([], False)"
| "sync_lines inside v (l # ls) =
     (let s = strip l; inside' = (if s = poetry_head then True else if inside \<and> startswith s ''['' then False else inside);
          new = version_line v @ [newline]; differs = inside' \<and> version_pattern s \<noteq> None \<and> rstripped l \<noteq> rstripped new in
      case sync_lines inside' v ls of (rest, changed) \<Rightarrow> ((if differs then new else l) # rest, differs \<or> changed))"

definition sync_pyproject :: "package \<Rightarrow> package \<times> bool" where
  "sync_pyproject p =
     (case (pk_version p, pk_pyproject p) of
        (Some vt, Some content) \<Rightarrow>
          (let v = get_version_from_file vt in
           if v = [] then (p, False)
           else
             (case sync_lines False v (keep_lines content) of
                (ls, changed) \<Rightarrow> (if changed then p\<lparr>pk_pyproject := Some (concat ls)\<rparr> else p, changed)))
      | _ \<Rightarrow> (p, False))"

text \<open>Exit code of \<open>--check\<close>, and the packages after a run without it.\<close>

definition sync_check :: "(string \<times> package) list \<Rightarrow> nat" where
  "sync_check ps = (if list_all (\<lambda>(n, p). check_pyproject p) ps then 0 else 1)"

definition sync_all :: "(string \<times> package) list \<Rightarrow> (string \<times> package) list \<times> nat" where
  "sync_all ps = (map (\<lambda>(n, p). (n, fst (sync_pyproject p))) ps, 0)"

section \<open>A synchronised package passes the check\<close>

text \<open>The section has a version line before the next section begins.\<close>

fun has_version_line :: "bool \<Rightarrow> string list \<Rightarrow> bool" where
  "has_version_line inside [] = False"
| "has_version_line inside (l # ls) =
     (let s = strip l in
      if s = poetry_head then has_version_line True ls
      else if inside \<and> startswith s ''['' then False
      else if inside then version_pattern s \<noteq> None \<or> has_version_line inside ls
      else has_version_line inside ls)"

lemma poetry_facts: "startswith poetry_head ''[''" "version_pattern poetry_head = None"
  by code_simp+

lemma pattern_start: "version_pattern s \<noteq> None \<Longrightarrow> startswith s ''version''"
  by (auto simp: version_pattern_def split: if_split_asm)

lemma version_line_pattern:
  assumes "list_all (\<lambda>c. \<not> quote_char c) v"
  shows "version_pattern (version_line v) = Some v"
proof -
  have s: "is_space (CHR '' '')" "\<not> is_space (CHR ''='')" "\<not> is_space (CHR 0x22)" "quote_char (CHR 0x22)" by code_simp+
  have t: "takeWhile (\<lambda>x. \<not> quote_char x) (v @ [CHR 0x22]) = v" "dropWhile (\<lambda>x. \<not> quote_char x) (v @ [CHR 0x22]) = [CHR 0x22]"
    using assms s(4) by (induction v) auto
  show ?thesis using s t by (simp add: version_pattern_def version_line_def drop_quote_def Let_def)
qed

lemma strip_version_line: "strip (version_line v) = version_line v"
proof -
  have "\<not> is_space (CHR ''v'')" "\<not> is_space (CHR 0x22)" by code_simp+
  then show ?thesis by (intro strip_fixed) (simp_all add: version_line_def)
qed

lemma strip_rstripped: "strip s = dropWhile is_space (rstripped s)"
proof (cases "\<forall>x \<in> set s. is_space x")
  case True
  then have "dropWhile is_space s = []" "dropWhile is_space (rev s) = []" by (simp_all add: dropWhile_eq_Nil_conv)
  then show ?thesis by (simp only: strip_def rstripped_def rev.simps dropWhile.simps)
next
  case False
  let ?a = "takeWhile is_space s" and ?t = "dropWhile is_space s"
  have t: "?t \<noteq> []" "\<not> is_space (hd ?t)" using False hd_dropWhile[of is_space s] by (auto simp: dropWhile_eq_Nil_conv)
  have rs: "rev s = rev ?t @ rev ?a" by (metis rev_append takeWhile_dropWhile_id)
  have y: "hd ?t \<in> set (rev ?t)" using hd_in_set[OF t(1)] by simp
  have "dropWhile is_space (rev s) = dropWhile is_space (rev ?t) @ rev ?a"
    unfolding rs using dropWhile_append1[of "hd ?t" "rev ?t" is_space] y t(2) by simp
  then have r: "rstripped s = ?a @ rstripped ?t" by (simp add: rstripped_def)
  obtain x xs where x: "?t = x # xs" "\<not> is_space x" using t by (cases ?t) auto
  have "rstripped (x # xs) = x # rstripped xs"
    using x(2) by (cases "\<forall>y \<in> set xs. is_space y") (auto simp: rstripped_def dropWhile_append)
  then have "dropWhile is_space (rstripped ?t) = rstripped ?t" using x by simp
  moreover have "dropWhile is_space (?a @ rstripped ?t) = dropWhile is_space (rstripped ?t)"
    by (rule dropWhile_append2) (auto dest: set_takeWhileD)
  ultimately show ?thesis unfolding r by (simp add: strip_def rstripped_def)
qed

lemma rstripped_strip: "rstripped l = rstripped (version_line v @ [newline]) \<Longrightarrow> strip l = version_line v"
proof -
  assume "rstripped l = rstripped (version_line v @ [newline])"
  then have "strip l = strip (version_line v @ [newline])" by (simp add: strip_rstripped)
  then show ?thesis by (simp add: strip_line strip_version_line)
qed

lemma version_line_plainly: "version_line v \<noteq> poetry_head" "\<not> startswith (version_line v) ''[''"
  by (simp_all add: version_line_def poetry_head_def)

lemma sync_finds:
  assumes "has_version_line b ls" "list_all (\<lambda>c. \<not> quote_char c) v"
  shows "find_version b (fst (sync_lines b v ls)) = v"
  using assms(1)
proof (induction ls arbitrary: b)
  case (Cons l ls)
  let ?s = "strip l"
  consider "?s = poetry_head" | "?s \<noteq> poetry_head" "b" "\<not> startswith ?s ''[''" "version_pattern ?s \<noteq> None"
    | "?s \<noteq> poetry_head" "b" "\<not> startswith ?s ''[''" "version_pattern ?s = None" | "?s \<noteq> poetry_head" "\<not> b"
    using Cons.prems by (auto simp: Let_def split: if_split_asm)
  then show ?case
  proof cases
    case 1
    have "fst (sync_lines b v (l # ls)) = l # fst (sync_lines True v ls)"
      using 1 poetry_facts(2) by (simp add: Let_def split: prod.split)
    then show ?thesis using 1 Cons by (simp add: Let_def)
  next
    case 2
    have "\<exists>l'. fst (sync_lines b v (l # ls)) = l' # fst (sync_lines True v ls) \<and> strip l' = version_line v"
    proof (cases "rstripped l = rstripped (version_line v @ [newline])")
      case True
      then show ?thesis using 2 rstripped_strip[OF True] by (simp add: Let_def split: prod.split)
    next
      case False
      then show ?thesis using 2 strip_line[of "version_line v"] strip_version_line by (simp add: Let_def split: prod.split)
    qed
    then obtain l' where "fst (sync_lines b v (l # ls)) = l' # fst (sync_lines True v ls)" "strip l' = version_line v" by blast
    then show ?thesis using 2 version_line_plainly version_line_pattern[OF assms(2)] by (simp add: Let_def)
  next
    case 3
    then have "fst (sync_lines b v (l # ls)) = l # fst (sync_lines True v ls)" by (simp add: Let_def split: prod.split)
    then show ?thesis using 3 Cons by (simp add: Let_def)
  next
    case 4
    then have "fst (sync_lines b v (l # ls)) = l # fst (sync_lines False v ls)" by (simp add: Let_def split: prod.split)
    then show ?thesis using 4 Cons by (simp add: Let_def)
  qed
qed simp

lemma sync_unchanged: "\<not> snd (sync_lines b v ls) \<Longrightarrow> fst (sync_lines b v ls) = ls"
  by (induction ls arbitrary: b) (auto simp: Let_def split: prod.splits if_splits, (metis fst_conv snd_conv)+)

lemma sync_step:
  "sync_lines b v (l # ls) =
     (let b' = (if strip l = poetry_head then True else if b \<and> startswith (strip l) ''['' then False else b);
          d = (b' \<and> version_pattern (strip l) \<noteq> None \<and> rstripped l \<noteq> rstripped (version_line v @ [newline])) in
      ((if d then version_line v @ [newline] else l) # fst (sync_lines b' v ls), d \<or> snd (sync_lines b' v ls)))"
  by (simp add: Let_def split: prod.split)

lemma sync_new_line: "snd (sync_lines True v ((version_line v @ [newline]) # ls)) = snd (sync_lines True v ls)"
  unfolding sync_step Let_def by (simp add: strip_line strip_version_line version_line_plainly)

lemma sync_twice: "\<not> snd (sync_lines b v (fst (sync_lines b v ls)))"
proof (induction ls arbitrary: b)
  case (Cons l ls)
  let ?s = "strip l"
  define b' where "b' = (if ?s = poetry_head then True else if b \<and> startswith ?s ''['' then False else b)"
  define d where "d = (b' \<and> version_pattern ?s \<noteq> None \<and> rstripped l \<noteq> rstripped (version_line v @ [newline]))"
  have f: "fst (sync_lines b v (l # ls)) = (if d then version_line v @ [newline] else l) # fst (sync_lines b' v ls)"
    unfolding sync_step Let_def b'_def[symmetric] d_def[symmetric] by simp
  have ih: "\<not> snd (sync_lines b' v (fst (sync_lines b' v ls)))" by (rule Cons)
  show ?case
  proof (cases d)
    case True
    then have "startswith ?s ''version''" using pattern_start unfolding d_def by blast
    then have "?s \<noteq> poetry_head" "\<not> startswith ?s ''[''" by (auto simp: poetry_head_def prefix_def)
    then have "b = True" "b' = True" using True unfolding d_def b'_def by (auto split: if_split_asm)
    then show ?thesis unfolding f using True ih sync_new_line by simp
  next
    case False
    have "snd (sync_lines b v (l # xs)) = (d \<or> snd (sync_lines b' v xs))" for xs
      unfolding sync_step Let_def b'_def[symmetric] d_def[symmetric] by simp
    then show ?thesis unfolding f using False ih by simp
  qed
qed simp

lemma sync_plain:
  assumes "list_all plain_line xs" "plain_line v"
  shows "\<exists>ys. list_all plain_line ys \<and> fst (sync_lines b v (map line_of xs)) = map line_of ys"
  using assms(1)
proof (induction xs arbitrary: b)
  case (Cons x xs)
  have p: "plain_line (version_line v)"
  proof -
    have "plain_line ''version = ''" "\<not> line_end (CHR 0x22)" by code_simp+
    then show ?thesis using assms(2) by (simp add: version_line_def plain_line_def)
  qed
  obtain b' d where f: "fst (sync_lines b v (map line_of (x # xs))) =
      (if d then line_of (version_line v) else line_of x) # fst (sync_lines b' v (map line_of xs))"
    unfolding list.map sync_step Let_def by (metis fst_conv)
  obtain ys where ys: "list_all plain_line ys" "fst (sync_lines b' v (map line_of xs)) = map line_of ys" using Cons by auto
  show ?case unfolding f ys(2) using p ys(1) Cons.prems
    by (intro exI[of _ "(if d then version_line v else x) # ys"]) simp
qed simp

lemma find_lines: "find_version b (map line_of ls) = find_version b ls" "has_version_line b (map line_of ls) = has_version_line b ls"
  by (induction ls arbitrary: b) (auto simp: strip_line Let_def split: option.split)

text \<open>
  With a version line in the section, and a version without quotes, a synchronised package passes the check,
  and synchronising it again changes nothing.
\<close>

theorem synced_package_passes_check:
  assumes "pk_version p = Some vt" "pk_pyproject p = Some content" "complete content"
    "has_version_line False (splitlines content)" "list_all (\<lambda>c. \<not> quote_char c) (get_version_from_file vt)"
  shows "check_pyproject (fst (sync_pyproject p)) \<and> sync_pyproject (fst (sync_pyproject p)) = (fst (sync_pyproject p), False)"
proof (cases "get_version_from_file vt = []")
  case True
  then show ?thesis using assms(1,2) by (simp add: sync_pyproject_def check_pyproject_def Let_def)
next
  case False
  let ?v = "get_version_from_file vt"
  obtain ls where ls: "content = ended ls" "list_all plain_line ls" "keep_lines content = map line_of ls"
    using complete_lines[OF assms(3)] by metis
  have pv: "plain_line ?v" 
  proof -
    have "plain_line l" if "l \<in> set (splitlines s)" for l s using splitlines_plain that by (auto simp: list_all_iff)
    moreover have "set (strip l) \<subseteq> set l" for l by (auto simp: strip_def dest!: set_dropWhileD)
    ultimately show ?thesis unfolding get_version_from_file_def plain_line_def list_all_iff
      by (auto split: list.split) (metis list.set_intros(1) subsetD)
  qed
  let ?r = "sync_lines False ?v (map line_of ls)"
  obtain ys where ys: "list_all plain_line ys" "fst ?r = map line_of ys" using sync_plain[OF ls(2) pv] by blast
  let ?t = "ended ys"
  have t: "concat (fst ?r) = ?t" by (simp add: ys(2) ended_def)
  have content: "pk_version (fst (sync_pyproject p)) = Some vt" "pk_pyproject (fst (sync_pyproject p)) = Some ?t"
  proof -
    have "\<not> snd ?r \<Longrightarrow> ?t = content"
      using sync_unchanged[of False ?v "map line_of ls"] t ls(1) by (simp add: ended_def)
    then show "pk_version (fst (sync_pyproject p)) = Some vt" "pk_pyproject (fst (sync_pyproject p)) = Some ?t"
      using assms(1,2) False t ls(3) by (auto simp: sync_pyproject_def Let_def split: prod.split)
  qed
  have "has_version_line False (map line_of ls)" using assms(4) ls(1) by (simp add: find_lines split_ended[OF ls(2)])
  from sync_finds[OF this assms(5)] have "get_pyproject_version ?t = ?v"
    by (simp add: ys(2) find_lines get_pyproject_version_def split_ended[OF ys(1)])
  moreover have "\<not> snd (sync_lines False ?v (keep_lines ?t))"
    using sync_twice[of False ?v "map line_of ls"] by (simp add: ys(2) keep_ended[OF ys(1)])
  ultimately show ?thesis using content False
    by (auto simp: check_pyproject_def sync_pyproject_def Let_def split: prod.split)
qed

text \<open>Without a version line nothing is changed, and the check goes on failing.\<close>

theorem sync_cannot_add_the_version:
  "(let p = \<lparr>pk_version = Some ''1.2'', pk_pyproject = Some (ended [poetry_head, ''name = x''])\<rparr> in
    sync_pyproject p = (p, False) \<and> \<not> check_pyproject p)"
  by code_simp

definition sample_package :: package where
  "sample_package = \<lparr>pk_version = Some (''1.2'' @ [newline]), pk_pyproject = Some (ended [poetry_head, ''version = 1.1'', ''[x]''])\<rparr>"

lemma sample_package_facts:
  "pk_version sample_package = Some (''1.2'' @ [newline])"
  "pk_pyproject sample_package = Some (ended [poetry_head, ''version = 1.1'', ''[x]''])"
  "complete (ended [poetry_head, ''version = 1.1'', ''[x]''])"
  "has_version_line False (splitlines (ended [poetry_head, ''version = 1.1'', ''[x]'']))"
  "list_all (\<lambda>c. \<not> quote_char c) (get_version_from_file (''1.2'' @ [newline]))"
  by code_simp+

theorem synced_package_passes_check_witness:
  "\<not> check_pyproject sample_package \<and> check_pyproject (fst (sync_pyproject sample_package))"
proof -
  have "\<not> check_pyproject sample_package" by code_simp
  then show ?thesis using synced_package_passes_check[OF sample_package_facts] by simp
qed

end
