(* ===== verification/Quote_Tool.thy ===== *)
theory Quote_Tool
  imports Request_Signing "HOL-Library.Word"
begin

text \<open>
  The attestation tool of the benchmark guest, \<open>ansible/guest/roles/benchmark/files/attest.py\<close>: the binary layout of a TDX
  quote, the printed measurements and the two commands. A quote is a list of bytes. The quote generator, Intel's
  verification library and NVIDIA's attestation service are parameters; progress messages are left out. The printed
  measurements determine the measured part of the quote, and the tool passes only what both verifications passed.
\<close>

section \<open>The layout of a quote\<close>

type_synonym quote_byte = "8 word"

text \<open>Name, offset and size of the fields.\<close>

definition quote_fields :: "(string \<times> nat \<times> nat) list" where
  "quote_fields =
     [(''tee_tcb_svn'', 48, 16), (''mrseam'', 64, 48), (''mrsignerseam'', 112, 48), (''seam_attributes'', 160, 8),
      (''td_attributes'', 168, 8), (''xfam'', 176, 8), (''mrtd'', 184, 48), (''mrconfigid'', 232, 48),
      (''mrowner'', 280, 48), (''mrownerconfig'', 328, 48), (''rtmr0'', 376, 48), (''rtmr1'', 424, 48),
      (''rtmr2'', 472, 48), (''rtmr3'', 520, 48), (''report_data'', 568, 64)]"

definition min_quote_len :: nat where
  "min_quote_len = 632"

text \<open>\<open>struct.unpack_from("<H", ...)\<close> and \<open>"<I"\<close>: little endian.\<close>

fun little_endian :: "quote_byte list \<Rightarrow> nat" where
  "little_endian [] = 0"
| "little_endian (b # bs) = unat b + 256 * little_endian bs"

definition slice_bytes :: "nat \<Rightarrow> nat \<Rightarrow> quote_byte list \<Rightarrow> quote_byte list" where
  "slice_bytes off sz data = take sz (drop off data)"

definition bytes_hex :: "quote_byte list \<Rightarrow> string" where
  "bytes_hex bs = to_hex (map unat bs)"

text \<open>\<open>hex(n)\<close>.\<close>

fun lower_hex :: "nat \<Rightarrow> string" where
  "lower_hex n = (if n < 16 then [] else lower_hex (n div 16)) @ [hex_digit_char (n mod 16)]"

declare lower_hex.simps [simp del]

record parsed_quote =
  pq_version :: nat
  pq_tee_type :: string
  pq_fields :: "(string \<times> string) list"

text \<open>The dash of the message is not a character of the model.\<close>

definition parse_quote :: "quote_byte list \<Rightarrow> parsed_quote res" where
  "parse_quote data =
     (if length data < min_quote_len
      then Inl (ValueError (''Quote is '' @ digits_of (length data) @ '' bytes - expected at least '' @ digits_of min_quote_len @
             ''. Is this a valid TDX v4 quote?''))
      else Inr \<lparr>pq_version = little_endian (slice_bytes 0 2 data), pq_tee_type = ''0x'' @ lower_hex (little_endian (slice_bytes 4 4 data)),
        pq_fields = map (\<lambda>(name, off, sz). (name, bytes_hex (slice_bytes off sz data))) quote_fields\<rparr>)"

section \<open>Printing\<close>

definition field_value :: "parsed_quote \<Rightarrow> string \<Rightarrow> string" where
  "field_value p name = (case map_of (pq_fields p) name of Some v \<Rightarrow> v | None \<Rightarrow> [])"

definition quote_rows :: "parsed_quote \<Rightarrow> (string \<times> string) list" where
  "quote_rows p =
     [(''Quote version'', digits_of (pq_version p)), (''TEE type'', pq_tee_type p), (''MRTD'', field_value p ''mrtd''),
      (''RTMR0'', field_value p ''rtmr0''), (''RTMR1'', field_value p ''rtmr1''), (''RTMR2'', field_value p ''rtmr2''),
      (''RTMR3'', field_value p ''rtmr3''), (''MRSEAM'', field_value p ''mrseam''), (''MRSIGNERSEAM'', field_value p ''mrsignerseam''),
      (''TEE TCB SVN'', field_value p ''tee_tcb_svn''), (''SEAM attributes'', field_value p ''seam_attributes''),
      (''TD attributes'', field_value p ''td_attributes''), (''XFAM'', field_value p ''xfam''),
      (''MRCONFIGID'', field_value p ''mrconfigid''), (''MROWNER'', field_value p ''mrowner''),
      (''MROWNERCONFIG'', field_value p ''mrownerconfig''), (''Report data'', field_value p ''report_data'')]"

text \<open>\<open>f"{label:<{w}}"\<close>.\<close>

definition pad_right :: "nat \<Rightarrow> string \<Rightarrow> string" where
  "pad_right w s = s @ replicate (w - length s) (CHR '' '')"

definition table_lines :: "parsed_quote \<Rightarrow> string list" where
  "table_lines p =
     (let rows = quote_rows p; w = Max (set (map (length \<circ> fst) rows)) + 2; sep = replicate (w + 98) (CHR ''='') in
      [[], sep, ''  TDX Measurements'', sep] @ map (\<lambda>(label, v). ''  '' @ pad_right w label @ v) rows @ [sep, []])"

definition quote_json :: "parsed_quote \<Rightarrow> json" where
  "quote_json p =
     JObj ([(''quote_version'', JNum (of_nat (pq_version p))), (''tee_type'', JStr (pq_tee_type p))] @
       map (\<lambda>(n, v). (n, JStr v)) (pq_fields p))"

section \<open>The commands\<close>

record quote_env =
  qe_generator_exists :: bool
  qe_tmp_name :: string
  qe_run :: "string list \<Rightarrow> (int \<times> string) res"    \<comment> \<open>exit code and standard error; raises on a timeout\<close>
  qe_output :: "quote_byte list res option"                 \<comment> \<open>the file it left, whose reading may raise\<close>
  qe_save :: "string \<Rightarrow> quote_byte list \<Rightarrow> unit res"
  qe_verify :: "quote_byte list \<Rightarrow> string res"            \<comment> \<open>\<open>get_collateral_and_verify\<close>\<close>
  qe_token :: string                                  \<comment> \<open>\<open>secrets.token_hex(32)\<close>\<close>
  qe_attest_gpu :: "string \<Rightarrow> string \<Rightarrow> bool res"   \<comment> \<open>name and nonce\<close>

definition quote_generator :: string where
  "quote_generator = ''/usr/bin/tdx-quote-generator''"

definition generate_quote :: "quote_env \<Rightarrow> quote_byte list res" where
  "generate_quote env =
     (if \<not> qe_generator_exists env
      then Inl (RuntimeError (quote_generator @ '' not found - is libtdx-attest installed?''))
      else
        bindR (qe_run env [quote_generator, ''--output'', qe_tmp_name env]) (\<lambda>(code, err).
        if code \<noteq> 0
        then Inl (RuntimeError (''tdx-quote-generator failed (exit '' @ str_int code @ ''):'' @ [newline] @ err))
        else (case qe_output env of
                None \<Rightarrow> Inl (RuntimeError ''tdx-quote-generator did not produce output file'')
              | Some r \<Rightarrow> r)))"

text \<open>What a command leaves behind, in order, and its exit code, unless an exception leaves it.\<close>

datatype quote_output =
    Saved string "quote_byte list"
  | Table "string list"
  | Shown_json json

definition show_quote :: "bool \<Rightarrow> parsed_quote \<Rightarrow> quote_output" where
  "show_quote json_out p = (if json_out then Shown_json (quote_json p) else Table (table_lines p))"

definition dump_quote :: "quote_env \<Rightarrow> string option \<Rightarrow> bool \<Rightarrow> quote_output list \<times> int res" where
  "dump_quote env out json_out =
     (case generate_quote env of
        Inl e \<Rightarrow> ([], Inr 1)
      | Inr data \<Rightarrow>
          (case (case out of None \<Rightarrow> Inr [] | Some path \<Rightarrow> bindR (qe_save env path data) (\<lambda>u. Inr [Saved path data])) of
             Inl e \<Rightarrow> ([], Inl e)
           | Inr saved \<Rightarrow>
               (case parse_quote data of
                  Inl e \<Rightarrow> (saved, Inr 1)
                | Inr p \<Rightarrow> (saved @ [show_quote json_out p], Inr 0))))"

record check_result =
  cr_passed :: bool
  cr_report :: "string option"
  cr_error :: "string option"

definition verify_tdx :: "quote_env \<Rightarrow> quote_byte list \<Rightarrow> check_result" where
  "verify_tdx env data =
     (case qe_verify env data of
        Inr report \<Rightarrow> \<lparr>cr_passed = True, cr_report = Some report, cr_error = None\<rparr>
      | Inl e \<Rightarrow> \<lparr>cr_passed = False, cr_report = None, cr_error = Some (exn_str e)\<rparr>)"

definition verify_gpu :: "quote_env \<Rightarrow> string \<Rightarrow> check_result" where
  "verify_gpu env name =
     (case qe_attest_gpu env name (qe_token env) of
        Inr passed \<Rightarrow> \<lparr>cr_passed = passed, cr_report = None, cr_error = None\<rparr>
      | Inl e \<Rightarrow> \<lparr>cr_passed = False, cr_report = None, cr_error = Some (exn_str e)\<rparr>)"

definition check_json :: "check_result \<Rightarrow> json" where
  "check_json r =
     JObj ([(''passed'', JBool (cr_passed r))] @
       (case cr_report r of Some t \<Rightarrow> [(''report'', JStr t)] | None \<Rightarrow> []) @
       (case cr_error r of Some t \<Rightarrow> [(''error'', JStr t)] | None \<Rightarrow> []))"

definition verify_quote :: "quote_env \<Rightarrow> string \<Rightarrow> bool \<Rightarrow> quote_output list \<times> int" where
  "verify_quote env name json_out =
     (case bindR (generate_quote env) (\<lambda>data. bindR (parse_quote data) (\<lambda>p. Inr (data, p))) of
        Inl e \<Rightarrow> ([], 1)
      | Inr (data, p) \<Rightarrow>
          (let tdx = verify_tdx env data; gpu = verify_gpu env name in
           ((if json_out
             then [Shown_json (JObj [(''measurements'', quote_json p), (''tdx'', check_json tdx), (''gpu'', check_json gpu)])]
             else [Table (table_lines p)]),
            if cr_passed tdx \<and> cr_passed gpu then 0 else 1)))"

section \<open>The fields cover the report\<close>

lemma take_drop_chain: "take a (drop n xs) @ take b (drop (n + a) xs) = take (a + b) (drop n xs)"
  by (simp add: take_add add.commute)

text \<open>Each field begins where the one before ends.\<close>

fun consecutive :: "nat \<Rightarrow> (string \<times> nat \<times> nat) list \<Rightarrow> nat option" where
  "consecutive n [] = Some n"
| "consecutive n ((name, off, sz) # fs) = (if off = n then consecutive (n + sz) fs else None)"

lemma fields_cover: "consecutive 48 quote_fields = Some min_quote_len" "distinct (map fst quote_fields)"
  by (code_simp, code_simp)

lemma fields_concat:
  assumes "consecutive n fs = Some m"
  shows "n \<le> m \<and> concat (map (\<lambda>(name, off, sz). slice_bytes off sz data) fs) = take (m - n) (drop n data)"
  using assms
proof (induction fs arbitrary: n)
  case (Cons f fs)
  obtain name off sz where f: "f = (name, off, sz)" by (cases f) auto
  have c: "off = n" "consecutive (n + sz) fs = Some m" using Cons.prems by (auto simp: f split: if_split_asm)
  have ih: "n + sz \<le> m" "concat (map (\<lambda>(name, off, sz). slice_bytes off sz data) fs) = take (m - (n + sz)) (drop (n + sz) data)"
    using Cons.IH[OF c(2)] by auto
  then have "m - n = sz + (m - (n + sz))" by simp
  then show ?case using ih c(1) take_drop_chain[of sz n data "m - (n + sz)"] by (simp add: f slice_bytes_def)
qed simp

lemma bytes_hex_back: "from_hex (bytes_hex bs) = Inr (map unat bs)"
proof -
  have "unat b < 256" for b :: quote_byte using unsigned_less[of b] by simp
  then show ?thesis unfolding bytes_hex_def by (intro from_to_hex) simp
qed

lemma map_unat_inject: "map unat (xs :: quote_byte list) = map unat ys \<longleftrightarrow> xs = ys"
  by (rule inj_map_eq_map) (simp add: inj_on_def word_unat_eq_iff)

lemma bytes_hex_inject: "bytes_hex xs = bytes_hex ys \<longleftrightarrow> xs = ys"
proof
  assume "bytes_hex xs = bytes_hex ys"
  then have "(Inr (map unat xs) :: nat list res) = Inr (map unat ys)" by (simp only: bytes_hex_back[symmetric])
  then show "xs = ys" by (simp only: sum.inject map_unat_inject)
qed simp

lemma bytes_hex_length: "length (bytes_hex bs) = 2 * length bs"
  by (induction bs) (simp_all add: bytes_hex_def to_hex_def)

lemma field_inside: "(name, off, sz) \<in> set quote_fields \<Longrightarrow> off + sz \<le> 632"
proof -
  have "list_all (\<lambda>(name, off, sz). off + sz \<le> 632) quote_fields" by code_simp
  then show "(name, off, sz) \<in> set quote_fields \<Longrightarrow> off + sz \<le> 632" by (auto simp: list_all_iff)
qed

lemma parse_quote_fields:
  "parse_quote data = Inr p \<Longrightarrow> min_quote_len \<le> length data \<and>
     pq_fields p = map (\<lambda>(name, off, sz). (name, bytes_hex (slice_bytes off sz data))) quote_fields"
  by (auto simp: parse_quote_def split: if_split_asm)

lemma same_fields_same_slices:
  "map (\<lambda>(name, off, sz). (name, bytes_hex (slice_bytes off sz d1))) fs =
   map (\<lambda>(name, off, sz). (name, bytes_hex (slice_bytes off sz d2))) fs \<Longrightarrow>
   map (\<lambda>(name, off, sz). slice_bytes off sz d1) fs = map (\<lambda>(name, off, sz). slice_bytes off sz d2) fs"
  by (induction fs) (auto simp: bytes_hex_inject)

text \<open>
  C28: Every quote of at least 632 bytes is parsed, every other one is refused; all measurements are present under
  their names and have two hexadecimal digits for each byte of the field.
\<close>

theorem parsed_quotes_are_typed:
  "(case parse_quote data of
      Inl e \<Rightarrow> length data < 632
    | Inr p \<Rightarrow> 632 \<le> length data \<and>
        list_all2 (\<lambda>(name, off, sz) (name', v). name' = name \<and> length v = 2 * sz \<and> from_hex v = Inr (map unat (take sz (drop off data))))
          quote_fields (pq_fields p))"
proof (cases "parse_quote data")
  case (Inl e)
  then show ?thesis by (auto simp: parse_quote_def min_quote_len_def split: if_split_asm)
next
  case (Inr p)
  have p: "632 \<le> length data" "pq_fields p = map (\<lambda>(name, off, sz). (name, bytes_hex (slice_bytes off sz data))) quote_fields"
    using parse_quote_fields[OF Inr] by (simp_all add: min_quote_len_def)
  have "off + sz \<le> length data" if "(name, off, sz) \<in> set quote_fields" for name off sz
    using field_inside[OF that] p(1) by simp
  then have "length (take sz (drop off data)) = sz" if "(name, off, sz) \<in> set quote_fields" for name off sz
    using that by fastforce
  then have "list_all2 (\<lambda>(name, off, sz) (name', v). name' = name \<and> length v = 2 * sz \<and>
      from_hex v = Inr (map unat (take sz (drop off data)))) quote_fields (pq_fields p)"
    unfolding p(2) list_all2_map2 by (intro list.rel_refl_strong) (auto simp: bytes_hex_length bytes_hex_back slice_bytes_def)
  then show ?thesis using Inr p(1) by simp
qed

text \<open>
  C37: Two quotes with the same measurements are equal in every byte that is measured, from the version of the security
  module to the report data: comparing what the tool prints is comparing the reports.
\<close>

theorem measurements_determine_the_report:
  assumes "parse_quote d1 = Inr p1" "parse_quote d2 = Inr p2" "pq_fields p1 = pq_fields p2"
  shows "take 584 (drop 48 d1) = take 584 (drop 48 d2)"
proof -
  have s: "map (\<lambda>(name, off, sz). slice_bytes off sz d1) quote_fields = map (\<lambda>(name, off, sz). slice_bytes off sz d2) quote_fields"
    using assms(3) unfolding conjunct2[OF parse_quote_fields[OF assms(1)]] conjunct2[OF parse_quote_fields[OF assms(2)]]
    by (rule same_fields_same_slices)
  have "take 584 (drop 48 d) = concat (map (\<lambda>(name, off, sz). slice_bytes off sz d) quote_fields)" for d
    using fields_concat[OF fields_cover(1), of d] by (simp add: min_quote_len_def)
  then show ?thesis by (simp only: s)
qed

definition sample_quote :: "quote_byte list" where
  "sample_quote = replicate 632 7"

lemma sample_quote_length: "length sample_quote = 632"
  by (simp only: sample_quote_def length_replicate)

lemma sample_quote_fields:
  "\<exists>p. parse_quote (sample_quote @ bs) = Inr p \<and>
     pq_fields p = map (\<lambda>(name, off, sz). (name, bytes_hex (slice_bytes off sz sample_quote))) quote_fields"
proof -
  have "slice_bytes off sz (sample_quote @ bs) = slice_bytes off sz sample_quote" if "(name, off, sz) \<in> set quote_fields" for name off sz
    using field_inside[OF that] by (simp add: slice_bytes_def sample_quote_length)
  then show ?thesis by (auto simp: parse_quote_def min_quote_len_def sample_quote_length)
qed

theorem measurements_determine_the_report_witness:
  "take 584 (drop 48 (sample_quote @ [1])) = take 584 (drop 48 (sample_quote @ [2]))"
proof -
  obtain p1 p2 where p: "parse_quote (sample_quote @ [1]) = Inr p1" "parse_quote (sample_quote @ [2]) = Inr p2" "pq_fields p1 = pq_fields p2"
    using sample_quote_fields[of "[1]"] sample_quote_fields[of "[2]"] by metis
  show ?thesis by (rule measurements_determine_the_report[OF p])
qed

text \<open>
  \<open>verify\<close> ends with 0 exactly when the generator worked, its quote has a report, Intel's library accepted this quote, and
  NVIDIA's service accepted evidence over the fresh nonce; with \<open>--json\<close> the verdicts that are shown are these.
\<close>

theorem verify_passes_exactly:
  "snd (verify_quote env name json_out) = 0 \<longleftrightarrow>
   (\<exists>data err report. qe_generator_exists env \<and> qe_run env [quote_generator, ''--output'', qe_tmp_name env] = Inr (0, err) \<and>
      qe_output env = Some (Inr data) \<and> 632 \<le> length data \<and> qe_verify env data = Inr report \<and>
      qe_attest_gpu env name (qe_token env) = Inr True)"
proof -
  have g: "generate_quote env = Inr data \<longleftrightarrow> qe_generator_exists env \<and>
      (\<exists>err. qe_run env [quote_generator, ''--output'', qe_tmp_name env] = Inr (0, err)) \<and> qe_output env = Some (Inr data)" for data
    by (auto simp: generate_quote_def bindR_Inr_iff split: if_split_asm option.splits)
  have p: "(\<exists>p. parse_quote data = Inr p) \<longleftrightarrow> 632 \<le> length data" for data
    by (simp add: parse_quote_def min_quote_len_def)
  have "snd (verify_quote env name json_out) = 0 \<longleftrightarrow>
      (\<exists>data. generate_quote env = Inr data \<and> (\<exists>p. parse_quote data = Inr p) \<and> cr_passed (verify_tdx env data) \<and> cr_passed (verify_gpu env name))"
    by (cases "generate_quote env"; cases "parse_quote (projr (generate_quote env))") (auto simp: verify_quote_def Let_def)
  moreover have t: "cr_passed (verify_tdx env data) \<longleftrightarrow> (\<exists>report. qe_verify env data = Inr report)" for data
    by (simp add: verify_tdx_def split: sum.split)
  moreover have u: "cr_passed (verify_gpu env name) \<longleftrightarrow> qe_attest_gpu env name (qe_token env) = Inr True"
    by (simp add: verify_gpu_def split: sum.split)
  ultimately show ?thesis unfolding g p t u by blast
qed

text \<open>The generator is run without a nonce, and no check looks at the report data: an old quote passes.\<close>

definition replay_env :: "quote_byte list \<Rightarrow> quote_env" where
  "replay_env old = \<lparr>qe_generator_exists = True, qe_tmp_name = ''q'', qe_run = (\<lambda>cmd. Inr (0, [])), qe_output = Some (Inr old),
     qe_save = (\<lambda>p d. Inr ()), qe_verify = (\<lambda>d. Inr ''ok''), qe_token = ''n'', qe_attest_gpu = (\<lambda>n k. Inr True)\<rparr>"

theorem old_quote_passes: "snd (verify_quote (replay_env sample_quote) ''vm'' True) = 0"
proof -
  have "\<exists>p. parse_quote sample_quote = Inr p" using sample_quote_fields[of "[]"] by auto
  then show ?thesis
    by (auto simp: verify_quote_def replay_env_def generate_quote_def verify_tdx_def verify_gpu_def Let_def)
qed

end
