(* ===== verification/Guest_Launcher.thy ===== *)
theory Guest_Launcher
  imports Post_Launch
begin

text \<open>
  The program around \<open>launch_vm\<close>, \<open>host-tools/scripts/chutes/guest/__main__.py\<close>: the virtual machine that may still run is asked
  to stop, then QEMU is started and its threads are pinned. The process table, the PID file and QEMU are parameters;
  messages are left out. Exit code 0 means that QEMU was started with the planned command and has answered 0, or that only a
  clean-up was asked for.
\<close>

section \<open>Stopping the machine that runs\<close>

record launcher_env =
  ln_pid_file :: "string res"                      \<comment> \<open>reading the PID file\<close>
  ln_kill :: "int \<Rightarrow> unit res"
  ln_remove_pid_file :: "unit res"
  ln_firmware_path :: "string \<Rightarrow> string"
  ln_qemu :: "string list \<Rightarrow> int res"           \<comment> \<open>the exit code of the command; raises when it cannot start\<close>
  ln_threads :: "string list \<Rightarrow> thread_env"      \<comment> \<open>what the host shows of the QEMU started by the command\<close>

datatype launcher_event =
    Terminated int
  | Waited nat
  | Removed_pid_file
  | Started "string list"
  | Pinned pins

text \<open>\<open>FileNotFoundError\<close> is the \<open>OSError\<close> of number 2.\<close>

fun file_not_found :: "exn \<Rightarrow> bool" where
  "file_not_found (OSError n m) = (n = 2)"
| "file_not_found e = False"

definition stop_steps :: "launcher_env \<Rightarrow> launcher_event list \<times> unit res" where
  "stop_steps env =
     (case ln_pid_file env of
        Inl e \<Rightarrow> ([], Inl e)
      | Inr t \<Rightarrow>
          (case py_int (strip t) of
             None \<Rightarrow> ([], Inl (ValueError ''invalid literal for int() with base 10''))
           | Some pid \<Rightarrow>
               (case ln_kill env pid of
                  Inl e \<Rightarrow> ([], Inl e)
                | Inr u \<Rightarrow>
                    (case ln_remove_pid_file env of
                       Inl e \<Rightarrow> ([Terminated pid, Waited 3], Inl e)
                     | Inr v \<Rightarrow> ([Terminated pid, Waited 3, Removed_pid_file], Inr ())))))"

definition stop_existing_vm :: "launcher_env \<Rightarrow> launcher_event list \<times> unit res" where
  "stop_existing_vm env =
     (case stop_steps env of
        (evs, Inl e) \<Rightarrow> (evs, if file_not_found e then Inr () else Inl e)
      | (evs, Inr u) \<Rightarrow> (evs, Inr ()))"

section \<open>The launch\<close>

text \<open>The number of vCPUs of a launch: \<open>DEFAULT_VCPUS\<close> without a profile.\<close>

definition launch_profile :: "host_env \<Rightarrow> launch_args \<Rightarrow> gpu_profile option res" where
  "launch_profile h la = (if la_pass_gpus la then bindR (detect_profile h) (\<lambda>p. Inr (Some p)) else Inr None)"

definition pin_after_launch :: "launcher_env \<Rightarrow> host_env \<Rightarrow> launch_args \<Rightarrow> string list \<Rightarrow> launcher_event list \<times> unit res" where
  "pin_after_launch env h la cmd =
     (case launch_profile h la of
        Inr (Some p) \<Rightarrow>
          if \<not> la_foreground la \<and> use_numa_topology h (enable_numa_topology p) \<and> enable_post_launch_tuning p
          then (case apply_post_launch_tuning (ln_threads env cmd) (nat (vcpus p)) (host_numa_nodes h) True of
                  (ps, r) \<Rightarrow> ([Pinned ps], r))
          else ([], Inr ())
      | _ \<Rightarrow> ([], Inr ()))"

definition launch_vm :: "launcher_env \<Rightarrow> host_env \<Rightarrow> host_env \<Rightarrow> preparation \<Rightarrow> launch_args \<Rightarrow> launcher_event list \<times> int res" where
  "launch_vm env h h_vfs prepare_devices la =
     (case launch_plan h h_vfs prepare_devices (ln_firmware_path env) la of
        Inl e \<Rightarrow> ([], Inl e)
      | Inr (Refused n) \<Rightarrow> ([], Inr n)
      | Inr (Launch cmd) \<Rightarrow>
          (case ln_qemu env cmd of
             Inl e \<Rightarrow> ([], Inl e)
           | Inr code \<Rightarrow>
               if code \<noteq> 0 then ([Started cmd], Inr code)
               else
                 (case pin_after_launch env h la cmd of
                    (evs, Inl e) \<Rightarrow> (Started cmd # evs, Inl e)
                  | (evs, Inr u) \<Rightarrow> (Started cmd # evs, Inr 0))))"

text \<open>\<open>main\<close>, with the option \<open>--clean\<close>; every exception of the stop is ignored.\<close>

definition launcher_main ::
  "launcher_env \<Rightarrow> host_env \<Rightarrow> host_env \<Rightarrow> preparation \<Rightarrow> bool \<Rightarrow> string option \<Rightarrow> launch_args \<Rightarrow> launcher_event list \<times> int res" where
  "launcher_main env h h_vfs prepare_devices clean img_arg la =
     (let stopped = fst (stop_existing_vm env) in
      if clean then (stopped, Inr 0)
      else if \<not> present img_arg then (stopped, Inr 1)
      else (case launch_vm env h h_vfs prepare_devices (la\<lparr>la_image := the img_arg\<rparr>) of
              (evs, r) \<Rightarrow> (stopped @ evs, r)))"

section \<open>What an exit code means\<close>

text \<open>The commands of QEMU that were started.\<close>

definition started_commands :: "launcher_event list \<Rightarrow> string list list" where
  "started_commands evs = List.map_filter (\<lambda>e. case e of Started cmd \<Rightarrow> Some cmd | _ \<Rightarrow> None) evs"

lemma started_append: "started_commands (xs @ ys) = started_commands xs @ started_commands ys"
  by (simp add: started_commands_def map_filter_def)

lemma stop_starts_nothing: "started_commands (fst (stop_existing_vm env)) = []"
  by (auto simp: stop_existing_vm_def stop_steps_def started_commands_def map_filter_def split: sum.split option.split)

lemma pin_starts_nothing: "started_commands (fst (pin_after_launch env h la cmd)) = []"
  by (auto simp: pin_after_launch_def started_commands_def map_filter_def split: sum.split option.split prod.split)

lemma started_Cons: "started_commands (Started cmd # evs) = cmd # started_commands evs"
  by (simp add: started_commands_def map_filter_def)

lemma launch_vm_started:
  "\<exists>plan. launch_plan h h_vfs prep (ln_firmware_path env) la = plan \<and>
     started_commands (fst (launch_vm env h h_vfs prep la)) =
       (case plan of Inr (Launch cmd) \<Rightarrow> (case ln_qemu env cmd of Inr code \<Rightarrow> [cmd] | Inl e \<Rightarrow> []) | _ \<Rightarrow> [])"
proof -
  have n: "started_commands [] = []" by (simp add: started_commands_def map_filter_def)
  have s: "started_commands evs = []" if "pin_after_launch env h la cmd = (evs, r)" for cmd evs r
    using pin_starts_nothing[of env h la cmd] that by simp
  show ?thesis
    by (intro exI[of _ "launch_plan h h_vfs prep (ln_firmware_path env) la"])
       (auto simp: launch_vm_def n started_Cons dest: s split: sum.split launch_outcome.split prod.split)
qed

lemma launch_vm_zero:
  "snd (launch_vm env h h_vfs prep la) = Inr 0 \<Longrightarrow>
   launch_plan h h_vfs prep (ln_firmware_path env) la = Inr (Refused 0) \<or>
   (\<exists>cmd. launch_plan h h_vfs prep (ln_firmware_path env) la = Inr (Launch cmd) \<and> ln_qemu env cmd = Inr 0 \<and>
      snd (pin_after_launch env h la cmd) = Inr ())"
  by (auto simp: launch_vm_def split: sum.split_asm launch_outcome.split_asm prod.split_asm if_split_asm)

lemma refusals: "launch_plan h h_vfs prep fw la = Inr (Refused n) \<Longrightarrow> n = 1"
  by (auto simp: launch_plan_def bindR_Inr_iff Let_def split: if_split_asm)

text \<open>
  C40: An exit code 0 of a launch means that there was an image, that exactly one QEMU was started, with the planned command for
  this image, after the old machine was asked to stop, that it answered 0 and that the pinning, where the profile wants it, raised nothing.
\<close>

theorem launcher_success_started_one_vm:
  assumes "launcher_main env h h_vfs prep False img_arg la = (evs, Inr 0)"
  shows "\<exists>img cmd more. img_arg = Some img \<and> img \<noteq> [] \<and>
     launch_plan h h_vfs prep (ln_firmware_path env) (la\<lparr>la_image := img\<rparr>) = Inr (Launch cmd) \<and> ln_qemu env cmd = Inr 0 \<and>
     evs = fst (stop_existing_vm env) @ Started cmd # more \<and> started_commands evs = [cmd] \<and>
     pin_after_launch env h (la\<lparr>la_image := img\<rparr>) cmd = (more, Inr ())"
proof -
  obtain img where img: "img_arg = Some img" "img \<noteq> []"
    using assms by (auto simp: launcher_main_def present_def split: if_split_asm option.split_asm list.split_asm)
  then have p: "present img_arg" by (auto simp: present_def split: list.split)
  let ?la = "la\<lparr>la_image := img\<rparr>"
  have e: "evs = fst (stop_existing_vm env) @ fst (launch_vm env h h_vfs prep ?la)" "snd (launch_vm env h h_vfs prep ?la) = Inr 0"
    using assms p img by (auto simp: launcher_main_def Let_def split: prod.split_asm)
  from launch_vm_zero[OF e(2)] refusals obtain cmd where c: "launch_plan h h_vfs prep (ln_firmware_path env) ?la = Inr (Launch cmd)"
    "ln_qemu env cmd = Inr 0" "snd (pin_after_launch env h ?la cmd) = Inr ()" by fastforce
  then obtain more where m: "pin_after_launch env h ?la cmd = (more, Inr ())" by (metis prod.collapse)
  then have l: "fst (launch_vm env h h_vfs prep ?la) = Started cmd # more" using c by (simp add: launch_vm_def)
  have "started_commands evs = [cmd]"
    using pin_starts_nothing[of env h ?la cmd] m unfolding e(1) l started_append stop_starts_nothing started_Cons by simp
  then show ?thesis using img c m e(1) l by auto
qed

text \<open>A launch that is refused or raises before QEMU, and a clean-up, start nothing.\<close>

lemma launcher_starts_at_most_one: "length (started_commands (fst (launcher_main env h h_vfs prep clean img_arg la))) \<le> 1"
proof -
  have "length (started_commands (fst (launch_vm env h h_vfs prep la))) \<le> 1" for la
    using launch_vm_started[of h h_vfs prep env la] by (auto split: sum.split launch_outcome.split)
  then show ?thesis using stop_starts_nothing[of env]
    by (auto simp: launcher_main_def Let_def started_append split: prod.split) (metis fst_conv)
qed

definition sample_launcher :: launcher_env where
  "sample_launcher = \<lparr>ln_pid_file = Inr ''42'', ln_kill = (\<lambda>p. Inr ()), ln_remove_pid_file = Inr (), ln_firmware_path = id,
     ln_qemu = (\<lambda>cmd. Inr 0), ln_threads = (\<lambda>cmd. sample_threads\<lparr>te_alive := (\<lambda>pid. False)\<rparr>)\<rparr>"

lemma sample_stop: "fst (stop_existing_vm sample_launcher) = [Terminated 42, Waited 3, Removed_pid_file]"
  by code_simp

theorem launcher_success_started_one_vm_witness:
  "\<exists>cmd more. fst (launcher_main sample_launcher (sample_host 8) (sample_host 8) (\<lambda>_ _ _ _. Inr ()) False (Some ''i.raw'') sample_launch) =
     [Terminated 42, Waited 3, Removed_pid_file, Started cmd] @ more"
proof -
  let ?m = "launcher_main sample_launcher (sample_host 8) (sample_host 8) (\<lambda>_ _ _ _. Inr ()) False (Some ''i.raw'') sample_launch"
  obtain cmd where "launch_plan (sample_host 8) (sample_host 8) (\<lambda>_ _ _ _. Inr ()) id sample_launch = Inr (Launch cmd)"
    using sample_launch_runs[of "\<lambda>_ _ _ _. Inr ()"] by blast
  moreover have "find_qemu_pid (ln_threads sample_launcher cmd) = None"
    by (auto simp: find_qemu_pid_def sample_launcher_def split: option.split)
  then have "snd (pin_after_launch sample_launcher (sample_host 8) sample_launch cmd) = Inr ()"
    by (auto simp: pin_after_launch_def apply_post_launch_tuning_def split: sum.split option.split)
  moreover have "sample_launch\<lparr>la_image := ''i.raw''\<rparr> = sample_launch" by (simp add: sample_launch_def)
  ultimately have "snd ?m = Inr 0"
    by (auto simp: launcher_main_def present_def launch_vm_def sample_launcher_def split: prod.split sum.split)
  then have "?m = (fst ?m, Inr 0)" by (metis prod.collapse)
  from launcher_success_started_one_vm[OF this] show ?thesis unfolding sample_stop by auto
qed

text \<open>The PID file of a process that is gone is never removed: the signal raises first, and the exception is ignored.\<close>

theorem stale_pid_file_stays:
  "let env = sample_launcher\<lparr>ln_kill := (\<lambda>p. Inl (OSError 3 ''No such process''))\<rparr> in
   launcher_main env h h_vfs prep True img_arg la = ([], Inr 0)"
  by (simp add: launcher_main_def stop_existing_vm_def stop_steps_def sample_launcher_def Let_def split: option.split)

end
