(* ===== verification/Download_Report.thy ===== *)
theory Download_Report
  imports Cache_Safety Command_Output
begin

text \<open>
  What a running download reports: size, percentage, rate and remaining time of \<open>HuggingFaceSnapshot\<close>
  (\<open>src/src/sek8s/sek8s/system_manager/cache/manager.py\<close>), and the texts of the subprocess (\<open>download.py\<close>). The numbers that each
  property computes are those of the snapshot; the query of an address does not reach a notice, but it reaches the error.
\<close>

section \<open>Progress\<close>

text \<open>\<open>_du_size\<close>: the outcome of \<open>du -sb\<close> is its exit code and standard output, or an exception.\<close>

definition du_size :: "(int \<times> string) res \<Rightarrow> int option" where
  "du_size outcome =
     (case outcome of
        Inl e \<Rightarrow> None
      | Inr (code, out) \<Rightarrow>
          if code \<noteq> 0 then None
          else (case words (hd (split_on newline (strip out))) of [] \<Rightarrow> None | w # ws \<Rightarrow> py_int w))"

definition size_bytes :: "disk \<Rightarrow> hf_snapshot \<Rightarrow> int option" where
  "size_bytes disk s =
     (if \<not> hub_exists disk s then None
      else (case dir_of disk s of
              None \<Rightarrow> None
            | Some d \<Rightarrow> (case cd_scan d of Inl e \<Rightarrow> None | Inr info \<Rightarrow> Some (si_size_on_disk info))))"

definition percent_complete :: "disk \<Rightarrow> hf_snapshot \<Rightarrow> rat option" where
  "percent_complete disk s =
     (case hs_download s of
        None \<Rightarrow> None
      | Some dl \<Rightarrow>
          (case dl_total_bytes dl of
             None \<Rightarrow> None
           | Some t \<Rightarrow>
               if \<not> is_in_progress s \<or> t \<le> 0 then None
               else (case size_bytes disk s of
                       Some n \<Rightarrow> Some (min 100 (max 0 (100 * of_int n / of_int t)))
                     | None \<Rightarrow> None)))"

text \<open>The clock is read at \<open>now\<close>.\<close>

definition download_rate :: "time \<Rightarrow> disk \<Rightarrow> hf_snapshot \<Rightarrow> rat option" where
  "download_rate now disk s =
     (case hs_download s of
        None \<Rightarrow> None
      | Some dl \<Rightarrow>
          (let elapsed = now - dl_started_at dl in
           if \<not> is_in_progress s \<or> elapsed \<le> 0 then None
           else (case size_bytes disk s of
                   None \<Rightarrow> None
                 | Some n \<Rightarrow>
                     (let downloaded = n - dl_initial_bytes dl in
                      if downloaded \<le> 0 then None else Some (of_int downloaded / elapsed)))))"

definition eta_seconds :: "time \<Rightarrow> disk \<Rightarrow> hf_snapshot \<Rightarrow> rat option" where
  "eta_seconds now disk s =
     (case (download_rate now disk s, hs_download s) of
        (Some rate, Some dl) \<Rightarrow>
          (if rate \<le> 0 then None
           else (case dl_total_bytes dl of
                   None \<Rightarrow> None
                 | Some t \<Rightarrow>
                     (let remaining = t - (case size_bytes disk s of Some n \<Rightarrow> n | None \<Rightarrow> 0) in
                      if remaining \<le> 0 then Some 0 else Some (of_int remaining / rate))))
      | _ \<Rightarrow> None)"

lemma rate_positive: "0 < elapsed \<Longrightarrow> 0 < downloaded \<Longrightarrow> 0 < (of_int downloaded / elapsed :: rat)"
  by (intro divide_pos_pos) simp_all

lemma rate_nonpos: "s < now \<Longrightarrow> (of_int n - of_int i) / (now - s) \<le> (0 :: rat) \<Longrightarrow> n \<le> i"
proof (rule ccontr)
  assume a: "s < now" "(of_int n - of_int i) / (now - s) \<le> (0 :: rat)" "\<not> n \<le> i"
  then have "0 < (of_int (n - i) / (now - s) :: rat)" by (intro rate_positive) simp_all
  then show False using a(2) unfolding of_int_diff by (rule order.strict_trans2[THEN less_irrefl[THEN notE]])
qed

lemma eta_nonneg: "0 < elapsed \<Longrightarrow> 0 < downloaded \<Longrightarrow> 0 < remaining \<Longrightarrow>
   0 \<le> (of_int remaining / (of_int downloaded / elapsed) :: rat)"
  by (intro divide_nonneg_pos rate_positive) simp_all

lemma snapshot_progress:
  assumes "scan_hub env disk s = (s', n, repo_id, revision, last_acc)" "hs_download s' = Some dl" "dl_total_bytes dl = Some t"
    "is_in_progress s'" "0 < t" "n \<noteq> 0"
  shows "sn_percent_complete (snd (take_snapshot env disk s)) = fst (progress (ce_monotonic env) dl t n) \<and>
     sn_download_rate (snd (take_snapshot env disk s)) = fst (snd (progress (ce_monotonic env) dl t n)) \<and>
     sn_eta_seconds (snd (take_snapshot env disk s)) = snd (snd (progress (ce_monotonic env) dl t n))"
  using assms by (simp add: take_snapshot_def split: prod.split)

lemma property_progress:
  assumes "hs_download s = Some dl" "dl_total_bytes dl = Some t" "is_in_progress s" "0 < t" "size_bytes disk s = Some n"
  shows "progress now dl t n = (percent_complete disk s, download_rate now disk s, eta_seconds now disk s)"
  using assms rate_nonpos[of "dl_started_at dl" now n "dl_initial_bytes dl"]
  by (auto simp: progress_def percent_complete_def download_rate_def eta_seconds_def Let_def not_le)

lemma scan_keeps_download: "scan_hub env disk s = (s', r) \<Longrightarrow> hs_download s' = hs_download s"
  by (auto simp: scan_hub_def Let_def split: option.split_asm if_split_asm sum.split_asm prod.split_asm)

text \<open>
  While a download of known size runs and has left something on the disk, the snapshot that scans the size the properties see
  reports exactly their percentage, rate and remaining time; the percentage is between 0 and 100 and the rest is not negative.
\<close>

theorem progress_properties_agree:
  assumes "hs_download s = Some dl" "dl_total_bytes dl = Some t" "is_in_progress s" "0 < t" "size_bytes disk s = Some n" "n \<noteq> 0"
    "fst (snd (scan_hub env disk s)) = n"
  shows "let sn = snd (take_snapshot env disk s) in
     sn_percent_complete sn = percent_complete disk s \<and>
     sn_download_rate sn = download_rate (ce_monotonic env) disk s \<and>
     sn_eta_seconds sn = eta_seconds (ce_monotonic env) disk s \<and>
     pred_option (\<lambda>p. 0 \<le> p \<and> p \<le> 100) (sn_percent_complete sn) \<and>
     pred_option (\<lambda>r. 0 < r) (sn_download_rate sn) \<and> pred_option (\<lambda>e. 0 \<le> e) (sn_eta_seconds sn)"
proof -
  obtain s' repo_id revision last_acc where r: "scan_hub env disk s = (s', n, repo_id, revision, last_acc)"
    using assms(7) by (metis prod.collapse)
  have d: "hs_download s' = Some dl" "is_in_progress s'" using scan_keeps_download[OF r] assms(1,3) by (simp_all add: is_in_progress_def)
  have b: "pred_option (\<lambda>p. 0 \<le> p \<and> p \<le> 100) (fst (progress (ce_monotonic env) dl t n))"
    "pred_option (\<lambda>r. 0 < r) (fst (snd (progress (ce_monotonic env) dl t n)))"
    "pred_option (\<lambda>e. 0 \<le> e) (snd (snd (progress (ce_monotonic env) dl t n)))"
    using rate_positive[of "ce_monotonic env - dl_started_at dl" "n - dl_initial_bytes dl"]
      eta_nonneg[of "ce_monotonic env - dl_started_at dl" "n - dl_initial_bytes dl" "t - n"]
    by (simp_all add: progress_def Let_def)
  show ?thesis unfolding Let_def
    using snapshot_progress[OF r d(1) assms(2) d(2) assms(4,6)] property_progress[OF assms(1-5), of "ce_monotonic env"] b by simp
qed

section \<open>Addresses in messages\<close>

definition url_char :: "char \<Rightarrow> bool" where
  "url_char c \<longleftrightarrow> \<not> is_space c \<and> c \<noteq> CHR 0x22 \<and> c \<noteq> CHR 0x27"

definition url_scheme :: "string \<Rightarrow> nat option" where
  "url_scheme s = (if startswith s ''http://'' then Some 7 else if startswith s ''https://'' then Some 8 else None)"

text \<open>\<open>(https?://[^\s'"]+?)\?[^\s'"]*\<close> at the beginning of a text: the group and the length of the match.\<close>

definition url_match :: "string \<Rightarrow> (string \<times> nat) option" where
  "url_match s =
     (case url_scheme s of
        None \<Rightarrow> None
      | Some n \<Rightarrow>
          (case takeWhile url_char (drop n s) of
             [] \<Rightarrow> None
           | c # cs \<Rightarrow>
               if CHR ''?'' \<in> set cs then Some (take n s @ c # takeWhile (\<lambda>x. x \<noteq> CHR ''?'') cs, n + length (c # cs)) else None))"

lemma url_match_length: "url_match s = Some (g, k) \<Longrightarrow> 0 < k"
  by (auto simp: url_match_def split: option.split_asm list.split_asm if_split_asm)

lemma url_match_shorter: "url_match s = Some (g, k) \<Longrightarrow> length s - k < length s"
proof -
  assume m: "url_match s = Some (g, k)"
  then have "s \<noteq> []" by (auto simp: url_match_def url_scheme_def)
  then show ?thesis using url_match_length[OF m] by simp
qed

function redact_urls :: "string \<Rightarrow> string" where
  "redact_urls s =
     (case url_match s of
        Some (g, k) \<Rightarrow> g @ ''?<redacted>'' @ redact_urls (drop k s)
      | None \<Rightarrow> (case s of [] \<Rightarrow> [] | c # cs \<Rightarrow> c # redact_urls cs))"
  by pat_completeness auto
termination
  by (relation "measure length") (auto dest: url_match_shorter)

declare redact_urls.simps [simp del]

lemma takeWhile_ends: "\<forall>c \<in> set q. P c \<Longrightarrow> rest = [] \<or> \<not> P (hd rest) \<Longrightarrow> takeWhile P (q @ rest) = q"
  by (cases rest) (simp_all add: takeWhile_append2)

text \<open>A match that begins before the address or with it: it ends where the query ends, or before the address.\<close>

lemma url_match_query:
  assumes x: "x = sch @ u @ ''?''" "sch \<in> {''http://'', ''https://''}" "u \<noteq> []" "\<forall>c \<in> set u. url_char c"
    and q: "\<forall>c \<in> set q. url_char c" and rest: "rest = [] \<or> \<not> url_char (hd rest)"
  shows "url_match (pre @ x @ q @ rest) =
    (case url_scheme (pre @ x) of
       None \<Rightarrow> None
     | Some n \<Rightarrow>
         (let y = drop n (pre @ x) in
          if list_all url_char y
          then Some (take n (pre @ x) @ hd y # takeWhile (\<lambda>c. c \<noteq> CHR ''?'') (tl y), length pre + length x + length q)
          else url_match (pre @ x)))"
proof -
  let ?s = "pre @ x @ q @ rest"
  have lx: "9 \<le> length x" using x by (cases u) auto
  have sch: "url_scheme ?s = url_scheme (pre @ x)"
  proof -
    have "prefix p ?s \<longleftrightarrow> prefix p (pre @ x)" if "length p \<le> 8" for p
    proof
      assume "prefix p ?s"
      moreover have "prefix (pre @ x) ?s" by (rule prefixI[of _ _ "q @ rest"]) (simp only: append_assoc)
      moreover have "length p \<le> length (pre @ x)" using that lx by (simp only: length_append)
      ultimately show "prefix p (pre @ x)" by (rule prefix_length_prefix)
    next
      assume "prefix p (pre @ x)"
      then show "prefix p ?s" using prefix_prefix[of p "pre @ x" "q @ rest"] by (simp only: append_assoc)
    qed
    then show ?thesis by (simp add: url_scheme_def)
  qed
  show ?thesis
  proof (cases "url_scheme (pre @ x)")
    case None
    then show ?thesis using sch by (simp add: url_match_def)
  next
    case (Some n)
    then have n: "n \<le> 8" by (auto simp: url_scheme_def split: if_split_asm)
    define y where "y = drop n (pre @ x)"
    have l: "length y = length pre + length x - n" by (simp only: y_def length_drop length_append)
    have two: "2 \<le> length pre + length x - n"
    proof (cases pre)
      case Nil
      then have "n \<le> length sch" using Some x(1,2) by (auto simp: url_scheme_def split: if_split_asm)
      moreover have "length sch + 2 \<le> length x" using x(1,3) by (cases u) simp_all
      ultimately show ?thesis using Nil by simp
    next
      case (Cons c cs)
      then show ?thesis using lx n by simp
    qed
    have "last (pre @ x) = CHR ''?''" using x(1) by simp
    then have "last y = CHR ''?''" unfolding y_def using lx n by (subst last_drop) simp_all
    then have y: "y \<noteq> []" "last y = CHR ''?''" "2 \<le> length y" "length y = length pre + length x - n"
      using l two by auto
    have d: "drop n ?s = y @ q @ rest" "take n ?s = take n (pre @ x)" using lx n by (simp_all add: y_def)
    obtain c cs where c: "y = c # cs" "cs \<noteq> []" "last cs = CHR ''?''" using y by (cases y; cases "tl y") auto
    then have m: "CHR ''?'' \<in> set cs" by (metis last_in_set)
    show ?thesis
    proof (cases "list_all url_char y")
      case True
      then have "takeWhile url_char (y @ q @ rest) = c # cs @ q"
        using takeWhile_ends[of "y @ q" url_char rest] q rest c(1) by (auto simp: list_all_iff)
      moreover have "takeWhile (\<lambda>c. c \<noteq> CHR ''?'') (cs @ q) = takeWhile (\<lambda>c. c \<noteq> CHR ''?'') cs"
        using m by (metis (mono_tags, lifting) takeWhile_append1)
      ultimately have "url_match ?s = Some (take n (pre @ x) @ c # takeWhile (\<lambda>c. c \<noteq> CHR ''?'') cs, n + length (c # cs @ q))"
        using m unfolding url_match_def sch Some option.case d by simp
      moreover have "n + length (c # cs @ q) = length pre + length x + length q"
        using y(4) c(1) lx n by simp
      ultimately show ?thesis using True c(1) unfolding Some option.case y_def[symmetric] Let_def by simp
    next
      case False
      then obtain a where "a \<in> set y" "\<not> url_char a" by (auto simp: list_all_iff)
      then have "takeWhile url_char (y @ q @ rest) = takeWhile url_char y" by (rule takeWhile_append1)
      then have "url_match ?s = url_match (pre @ x)"
        unfolding url_match_def sch Some option.case d y_def[symmetric] by simp
      then show ?thesis using False unfolding Some option.case y_def[symmetric] Let_def by simp
    qed
  qed
qed

text \<open>
  The text of a notice is the same whatever the query of an address in it is: after any text, up to the next white space
  or quote.
\<close>

lemma redact_query:
  assumes x: "x = sch @ u @ ''?''" "sch \<in> {''http://'', ''https://''}" "u \<noteq> []" "\<forall>c \<in> set u. url_char c"
    and q: "\<forall>c \<in> set q1. url_char c" "\<forall>c \<in> set q2. url_char c" and rest: "rest = [] \<or> \<not> url_char (hd rest)"
  shows "redact_urls (pre @ x @ q1 @ rest) = redact_urls (pre @ x @ q2 @ rest)"
proof (induction "length pre" arbitrary: pre rule: less_induct)
  case less
  have m: "url_match (pre @ x @ q @ rest) =
    (case url_scheme (pre @ x) of
       None \<Rightarrow> None
     | Some n \<Rightarrow>
         (let y = drop n (pre @ x) in
          if list_all url_char y
          then Some (take n (pre @ x) @ hd y # takeWhile (\<lambda>c. c \<noteq> CHR ''?'') (tl y), length pre + length x + length q)
          else url_match (pre @ x)))" if "q = q1 \<or> q = q2" for q
    using that q url_match_query[OF x _ rest, of q pre] by blast
  have xc: "list_all url_char x"
  proof -
    have "list_all url_char ''http://''" "list_all url_char ''https://''" "url_char (CHR ''?'')" by code_simp+
    then show ?thesis using x by (auto simp: list_all_iff)
  qed
  have step: "redact_urls (pre @ x @ q @ rest) = hd pre # redact_urls (tl pre @ x @ q @ rest)"
    if "url_match (pre @ x @ q @ rest) = None" "pre \<noteq> []" for q
    using that by (subst redact_urls.simps) (cases pre; simp)
  have xn: "url_match (x @ q @ rest) \<noteq> None" if "q = q1 \<or> q = q2" for q
  proof -
    have "url_scheme x = Some (length sch)" "list_all url_char (drop (length sch) x)" using x xc by (auto simp: url_scheme_def list_all_iff)
    then show ?thesis using that q url_match_query[OF x _ rest, of q "[]"] by (auto simp: Let_def)
  qed
  show ?case
  proof (cases "url_scheme (pre @ x)")
    case None
    then have n: "url_match (pre @ x @ q @ rest) = None" if "q = q1 \<or> q = q2" for q using m[OF that] by simp
    then have "pre \<noteq> []" using xn[of q1] by auto
    then show ?thesis using step[OF n] less[of "tl pre"] by simp
  next
    case (Some n)
    let ?y = "drop n (pre @ x)"
    show ?thesis
    proof (cases "list_all url_char ?y")
      case True
      have "redact_urls (pre @ x @ q @ rest) = take n (pre @ x) @ hd ?y # takeWhile (\<lambda>c. c \<noteq> CHR ''?'') (tl ?y) @ ''?<redacted>'' @ redact_urls rest"
        if "q = q1 \<or> q = q2" for q
      proof -
        have "url_match (pre @ x @ q @ rest) = Some (take n (pre @ x) @ hd ?y # takeWhile (\<lambda>c. c \<noteq> CHR ''?'') (tl ?y),
            length pre + length x + length q)"
          by (simp only: m[OF that] Some option.case Let_def if_P[OF True])
        then show ?thesis by (subst redact_urls.simps) simp
      qed
      then show ?thesis by simp
    next
      case False
      have mm: "url_match (pre @ x @ q @ rest) = url_match (pre @ x)" if "q = q1 \<or> q = q2" for q
        by (simp only: m[OF that] Some option.case Let_def if_not_P[OF False])
      show ?thesis
      proof (cases "url_match (pre @ x)")
        case None
        then have n: "url_match (pre @ x @ q @ rest) = None" if "q = q1 \<or> q = q2" for q using mm[OF that] by simp
        then have "pre \<noteq> []" using xn[of q1] by auto
        then show ?thesis using step[OF n] less[of "tl pre"] by simp
      next
        case (Some gk)
        obtain g k where gk: "gk = (g, k)" by (cases gk) auto
        have k: "k = n + length (takeWhile url_char ?y)"
          using Some gk \<open>url_scheme (pre @ x) = Some n\<close> by (auto simp: url_match_def split: list.split_asm if_split_asm)
        have "n \<le> length pre"
        proof (rule ccontr)
          assume "\<not> n \<le> length pre"
          then have "?y = drop (n - length pre) x" by simp
          then have "set ?y \<subseteq> set x" by (simp add: set_drop_subset)
          then show False using False xc by (auto simp: list_all_iff)
        qed
        then have y: "?y = drop n pre @ x" by simp
        then obtain a where a: "a \<in> set (drop n pre)" "\<not> url_char a" using False xc by (auto simp: list_all_iff)
        then have "takeWhile url_char ?y = takeWhile url_char (drop n pre)" unfolding y by (rule takeWhile_append1)
        then have "k \<le> length pre" using k \<open>n \<le> length pre\<close> length_takeWhile_le[of url_char "drop n pre"] by simp
        moreover have "0 < k" using url_match_length Some gk by blast
        ultimately have "redact_urls (pre @ x @ q @ rest) = g @ ''?<redacted>'' @ redact_urls (drop k pre @ x @ q @ rest)"
          if "q = q1 \<or> q = q2" for q
          using mm[OF that] Some gk by (subst redact_urls.simps) simp
        moreover have "length (drop k pre) < length pre" using \<open>0 < k\<close> \<open>k \<le> length pre\<close> by simp
        ultimately show ?thesis using less[of "drop k pre"] by simp
      qed
    qed
  qed
qed

section \<open>The error output of the subprocess\<close>

definition retry_notice :: "nat \<Rightarrow> string \<Rightarrow> string" where
  "retry_notice attempt exc =
     ''[download] Transient download failure (attempt '' @ digits_of attempt @ ''/5), retrying in '' @
     digits_of (download_retry_base_delay * 2 ^ (attempt - 1)) @ ''s: '' @ redact_urls exc @ [newline]"

text \<open>
  The notices of the failures before the last, and then, when the download fails, what \<open>traceback.print_exc\<close> prints of the last
  exception; that is a parameter.
\<close>

definition subprocess_stderr :: "(string \<Rightarrow> string) \<Rightarrow> string list \<Rightarrow> string option \<Rightarrow> string" where
  "subprocess_stderr print_exc failures final =
     concat (map (\<lambda>(i, exc). retry_notice i exc) (List.enumerate 1 failures)) @ (case final of Some exc \<Rightarrow> print_exc exc | None \<Rightarrow> [])"

text \<open>
  The notices of the retries do not depend on the query of an address in a message.
\<close>

theorem notices_hide_queries:
  assumes "sch = ''http://'' \<or> sch = ''https://''" "u \<noteq> []" "list_all url_char u" "list_all url_char q1" "list_all url_char q2"
    "rest = [] \<or> \<not> url_char (hd rest)"
  shows "subprocess_stderr print_exc (before @ [pre @ sch @ u @ ''?'' @ q1 @ rest] @ later) final =
     subprocess_stderr print_exc (before @ [pre @ sch @ u @ ''?'' @ q2 @ rest] @ later) final"
proof -
  have "redact_urls (pre @ (sch @ u @ ''?'') @ q1 @ rest) = redact_urls (pre @ (sch @ u @ ''?'') @ q2 @ rest)"
    using assms by (intro redact_query[OF refl]) (auto simp: list_all_iff)
  then show ?thesis by (simp add: subprocess_stderr_def enumerate_append_eq retry_notice_def)
qed

theorem notices_hide_queries_witness:
  "subprocess_stderr id [''403 for https://h/f?X-Amz-Signature=abc (x)''] None =
   subprocess_stderr id [''403 for https://h/f?X-Amz-Signature=xyz (x)''] None"
proof -
  have "list_all url_char ''X-Amz-Signature=abc''" "list_all url_char ''X-Amz-Signature=xyz''" "list_all url_char ''h/f''"
    "\<not> url_char (hd '' (x)'')"
    by code_simp+
  then show ?thesis
    using notices_hide_queries[of "''https://''" "''h/f''" "''X-Amz-Signature=abc''" "''X-Amz-Signature=xyz''" "'' (x)''" id "[]" "''403 for ''" "[]" None]
    by simp
qed

text \<open>
  The last failure is printed with its traceback as it is: the query is part of the error that the parent logs and reports.
\<close>

theorem last_failure_shows_the_query:
  "let print_exc = (\<lambda>m. ''HfHubHTTPError: '' @ m @ [newline]);
       d = start_finish 1 (subprocess_stderr print_exc [] (Some ''403 for https://h/f?X-Amz-Signature=abc'')) (start_spawn (new_download None 0 0)) in
   download_error d = Some ''HfHubHTTPError: 403 for https://h/f?X-Amz-Signature=abc''"
  by code_simp

definition sample_progress :: hf_snapshot where
  "sample_progress = (new_snapshot ''c'' False)\<lparr>hs_download := Some (start_spawn (new_download (Some 200) 0 0))\<rparr>"

definition sample_progress_disk :: disk where
  "sample_progress_disk = [(''c'', sample_dir\<lparr>cd_scan := Inr \<lparr>si_size_on_disk = 50, si_repos = []\<rparr>\<rparr>)]"

definition sample_progress_env :: cache_env where
  "sample_progress_env = sample_cache_env\<lparr>ce_du := (\<lambda>_. Some 50)\<rparr>"

lemma sample_progress_facts:
  "hs_download sample_progress = Some (start_spawn (new_download (Some 200) 0 0))"
  "dl_total_bytes (start_spawn (new_download (Some 200) 0 0)) = Some 200"
  "is_in_progress sample_progress" "(0 :: int) < 200" "size_bytes sample_progress_disk sample_progress = Some 50" "(50 :: int) \<noteq> 0"
  "fst (snd (scan_hub sample_progress_env sample_progress_disk sample_progress)) = 50"
  "percent_complete sample_progress_disk sample_progress = Some 25"
  by (simp_all add: sample_progress_def new_snapshot_def dl_defs is_in_progress_def is_running_def size_bytes_def hub_exists_def dir_of_def
      sample_progress_disk_def sample_dir_def scan_hub_def sample_progress_env_def sample_cache_env_def scan_result_of_def percent_complete_def Let_def)

theorem progress_properties_agree_witness:
  "sn_percent_complete (snd (take_snapshot sample_progress_env sample_progress_disk sample_progress)) = Some 25"
  using progress_properties_agree[OF sample_progress_facts(1-7)] sample_progress_facts(8) unfolding Let_def by simp

end
