(* ===== verification/Service_Settings.thy ===== *)
theory Service_Settings
  imports Admission_Config Request_Signing Command_Output
begin

text \<open>
  The settings of the services in \<open>src/src/sek8s/sek8s/config.py\<close> beside those of \<open>Admission_Config\<close>: the classes with their defaults, the
  validators of fields, and the credentials of the miner, which are read once. The reading of environment variables and the
  conversions of pydantic are parameters.
\<close>

section \<open>Classes\<close>

record attestation_service_config =
  as_hostname :: "string option"

record system_manager_config =
  sm_require_tls :: bool

record cache_config =
  cc_cache_base :: string
  cc_validator_base_url :: string

record image_settings =
  ic_allowed_registries :: "string list"
  ic_cosign_public_key_path :: string
  ic_pull_timeout_seconds :: rat
  ic_default_org :: string

datatype opa_log_level = Log_debug | Log_info | Log_warn | Log_error

record opa_config =
  oc_binary_path :: string
  oc_log_level :: opa_log_level
  oc_decision_logs :: bool

definition default_system_manager_config :: system_manager_config where
  "default_system_manager_config = \<lparr>sm_require_tls = False\<rparr>"

definition default_cache_config :: cache_config where
  "default_cache_config = \<lparr>cc_cache_base = ''/var/snap/cache'', cc_validator_base_url = ''https://api.chutes.ai''\<rparr>"

definition default_image_settings :: image_settings where
  "default_image_settings = \<lparr>ic_allowed_registries = [''localhost:30500'', ''127.0.0.1:30500''],
     ic_cosign_public_key_path = ''/etc/admission-controller/cosign/cosign.pub'', ic_pull_timeout_seconds = 1200,
     ic_default_org = ''chutes''\<rparr>"

text \<open>The bounds of the field.\<close>

definition pull_timeout_ok :: "image_settings \<Rightarrow> bool" where
  "pull_timeout_ok c \<longleftrightarrow> 0 < ic_pull_timeout_seconds c \<and> ic_pull_timeout_seconds c \<le> 3600"

definition default_opa_config :: opa_config where
  "default_opa_config = \<lparr>oc_binary_path = ''/usr/local/bin/opa'', oc_log_level = Log_info, oc_decision_logs = False\<rparr>"

section \<open>Validators of fields\<close>

text \<open>\<open>str(x)\<close> of a JSON value that is no text is a parameter.\<close>

definition json_str :: "(json \<Rightarrow> string) \<Rightarrow> json \<Rightarrow> string" where
  "json_str show_json v = (case v of JStr s \<Rightarrow> s | _ \<Rightarrow> show_json v)"

definition listed_registries :: "(json \<Rightarrow> string) \<Rightarrow> json list \<Rightarrow> string list" where
  "listed_registries show_json xs = map (\<lambda>x. strip (json_str show_json x)) (filter truthy xs)"

definition parse_allowed_registries :: "(string \<Rightarrow> json res) \<Rightarrow> (json \<Rightarrow> string) \<Rightarrow> json \<Rightarrow> string list" where
  "parse_allowed_registries json_loads show_json v =
     (case v of
        JList xs \<Rightarrow> listed_registries show_json xs
      | JStr s \<Rightarrow>
          (case json_loads s of
             Inr (JList xs) \<Rightarrow> listed_registries show_json xs
           | _ \<Rightarrow> filter (\<lambda>x. x \<noteq> []) (map strip (split_on (CHR '','') s)))
      | _ \<Rightarrow> [])"

text \<open>\<open>NamespacePolicy(**policy)\<close>; the conversion of other values than \<open>True\<close> and \<open>False\<close> is a parameter.\<close>

definition policy_mode :: "json \<Rightarrow> enforcement res" where
  "policy_mode v =
     (if v = JStr ''enforce'' then Inr Enforce
      else if v = JStr ''warn'' then Inr Warn
      else if v = JStr ''monitor'' then Inr Monitor
      else Inl (ValueError ''Input should be enforce, warn or monitor''))"

definition policy_of_dict :: "(json \<Rightarrow> bool res) \<Rightarrow> (string \<times> json) list \<Rightarrow> namespace_policy res" where
  "policy_of_dict to_bool kvs =
     bindR (case map_of kvs ''mode'' of None \<Rightarrow> Inr Enforce | Some v \<Rightarrow> policy_mode v) (\<lambda>m.
     bindR (case map_of kvs ''exempt'' of None \<Rightarrow> Inr False | Some (JBool b) \<Rightarrow> Inr b | Some v \<Rightarrow> to_bool v) (\<lambda>e.
     Inr \<lparr>np_mode = m, np_exempt = e\<rparr>))"

text \<open>What is no dictionary is passed on, and does not have the type of the field.\<close>

definition parse_namespace_policies :: "(json \<Rightarrow> bool res) \<Rightarrow> json \<Rightarrow> (string \<times> namespace_policy) list res" where
  "parse_namespace_policies to_bool v =
     (case v of
        JObj kvs \<Rightarrow>
          mapM (\<lambda>(ns, policy). case policy of
                  JObj kvs \<Rightarrow> bindR (policy_of_dict to_bool kvs) (\<lambda>p. Inr (ns, p))
                | _ \<Rightarrow> Inl (ValueError ''Input should be a valid dictionary or instance of NamespacePolicy'')) kvs
      | _ \<Rightarrow> Inl (ValueError ''Input should be a valid dictionary''))"

definition validate_tls_path :: "(string \<Rightarrow> bool) \<Rightarrow> string option \<Rightarrow> string option res" where
  "validate_tls_path path_exists v =
     (case v of
        None \<Rightarrow> Inr None
      | Some p \<Rightarrow> if path_exists p then Inr (Some p) else Inl (ValueError (''TLS path does not exist: '' @ p)))"

text \<open>The path, and whether the directory was made.\<close>

definition validate_policy_path :: "(string \<Rightarrow> bool) \<Rightarrow> (string \<Rightarrow> unit res) \<Rightarrow> string \<Rightarrow> (string \<times> bool) res" where
  "validate_policy_path path_exists make_dirs v =
     (if path_exists v then Inr (v, False) else bindR (make_dirs v) (\<lambda>u. Inr (v, True)))"

text \<open>Items of a list that are no dictionaries are left out without an error.\<close>

definition parse_registry_configs :: "((string \<times> json) list \<Rightarrow> registry_config res) \<Rightarrow> json \<Rightarrow> registry_config list res" where
  "parse_registry_configs make_config v =
     (case v of
        JList xs \<Rightarrow> mapM make_config (List.map_filter (\<lambda>x. case x of JObj kvs \<Rightarrow> Some kvs | _ \<Rightarrow> None) xs)
      | _ \<Rightarrow> Inl (ValueError ''Input should be a valid list''))"

text \<open>The policies as \<open>export_json\<close> prints them.\<close>

definition mode_text :: "enforcement \<Rightarrow> string" where
  "mode_text m = (case m of Enforce \<Rightarrow> ''enforce'' | Warn \<Rightarrow> ''warn'' | Monitor \<Rightarrow> ''monitor'')"

definition export_policies :: "(string \<times> namespace_policy) list \<Rightarrow> json" where
  "export_policies ps =
     JObj (map (\<lambda>(ns, p). (ns, JObj [(''mode'', JStr (mode_text (np_mode p))), (''exempt'', JBool (np_exempt p))])) ps)"

section \<open>Credentials of the miner\<close>

record chutes_validator =
  cv_hotkey :: string
  cv_registry :: string
  cv_api :: string
  cv_socket :: string

text \<open>The class with its two private attributes.\<close>

record 's miner_settings = miner_config +
  ms_validators_json :: "string option"
  ms_validators :: "chutes_validator list"
  ms_keypair :: "'s option"

definition text_field :: "(string \<times> json) list \<Rightarrow> string \<Rightarrow> string res" where
  "text_field kvs k = (case map_of kvs k of Some (JStr s) \<Rightarrow> Inr s | _ \<Rightarrow> Inl (ValueError ''Field required''))"

definition validator_of_item :: "json \<Rightarrow> chutes_validator res" where
  "validator_of_item v =
     (case v of
        JObj kvs \<Rightarrow>
          bindR (text_field kvs ''hotkey'') (\<lambda>h. bindR (text_field kvs ''registry'') (\<lambda>r.
          bindR (text_field kvs ''api'') (\<lambda>a. bindR (text_field kvs ''socket'') (\<lambda>s.
          Inr \<lparr>cv_hotkey = h, cv_registry = r, cv_api = a, cv_socket = s\<rparr>))))
      | _ \<Rightarrow> Inl (TypeError ''argument after ** must be a mapping''))"

definition supported_items :: "json \<Rightarrow> json list res" where
  "supported_items data =
     (case data of
        JObj kvs \<Rightarrow> (case map_of kvs ''supported'' of None \<Rightarrow> Inl (KeyError ''supported'') | Some v \<Rightarrow> py_iter v)
      | JStr s \<Rightarrow> Inl (TypeError ''string indices must be integers'')
      | JList xs \<Rightarrow> Inl (TypeError ''list indices must be integers or slices, not str'')
      | _ \<Rightarrow> Inl (TypeError ''object is not subscriptable''))"

definition miner_validators :: "(string \<Rightarrow> json res) \<Rightarrow> 's miner_settings \<Rightarrow> 's miner_settings \<times> chutes_validator list res" where
  "miner_validators json_loads st =
     (if ms_validators st \<noteq> [] then (st, Inr (ms_validators st))
      else
        (case ms_validators_json st of
           None \<Rightarrow> (st, Inl (ValueError ''VALIDATORS env var must be set''))
         | Some t \<Rightarrow>
             (case bindR (json_loads t) (\<lambda>data. bindR (supported_items data) (mapM validator_of_item)) of
                Inl e \<Rightarrow> (st, Inl e)
              | Inr vs \<Rightarrow> (st\<lparr>ms_validators := vs\<rparr>, Inr vs))))"

definition miner_keypair :: "'s signer \<Rightarrow> 's miner_settings \<Rightarrow> 's miner_settings \<times> 's res" where
  "miner_keypair S st =
     (case ms_keypair st of
        Some k \<Rightarrow> (st, Inr k)
      | None \<Rightarrow>
          (case create_from_seed S (mc_miner_seed st) of
             Inl e \<Rightarrow> (st, Inl e)
           | Inr k \<Rightarrow> (st\<lparr>ms_keypair := Some k\<rparr>, Inr k)))"

section \<open>What the settings mean\<close>

text \<open>The defaults are within the bounds of the fields.\<close>

lemma default_timeout_ok: "pull_timeout_ok default_image_settings"
  by (simp add: pull_timeout_ok_def default_image_settings_def)

lemma filter_nonempty_strips: "\<forall>w \<in> set ws. strip w = w \<and> w \<noteq> [] \<Longrightarrow> filter (\<lambda>x. x \<noteq> []) (map strip ws) = ws"
  by (induction ws) auto

lemma split_joined:
  "ws \<noteq> [] \<Longrightarrow> \<forall>w \<in> set ws. c \<notin> set w \<Longrightarrow> split_on c (join_with [c] ws) = ws"
proof (induction ws)
  case (Cons w ws)
  show ?case
  proof (cases ws)
    case (Cons v vs)
    then have "split_on c (join_with [c] (w # ws)) = split_on c w @ split_on c (join_with [c] ws)"
      by (simp add: split_on_append_sep)
    then show ?thesis using Cons Cons.IH Cons.prems(2) local.Cons by simp
  qed (use Cons.prems in simp)
qed simp

text \<open>
  Registries without commas and white space around them are read back from the text that lists them, unless the text
  happens to be a JSON list; a text never gives an empty registry.
\<close>

theorem listed_registries_round_trip:
  assumes "rs \<noteq> []" "list_all (\<lambda>r. r \<noteq> [] \<and> strip r = r \<and> CHR '','' \<notin> set r) rs"
    "case json_loads (join_with '','' rs) of Inr (JList xs) \<Rightarrow> False | _ \<Rightarrow> True"
  shows "parse_allowed_registries json_loads show_json (JStr (join_with '','' rs)) = rs"
proof -
  have "split_on (CHR '','') (join_with '','' rs) = rs" using assms(1,2) by (intro split_joined) (auto simp: list_all_iff)
  moreover have "filter (\<lambda>x. x \<noteq> []) (map strip rs) = rs" using assms(2) by (intro filter_nonempty_strips) (auto simp: list_all_iff)
  moreover have "json_loads (join_with '','' rs) \<noteq> Inr (JList xs)" for xs using assms(3) by auto
  ultimately show ?thesis by (auto simp: parse_allowed_registries_def split: sum.split json.split)
qed

theorem listed_registries_round_trip_witness:
  "parse_allowed_registries (\<lambda>t. Inl JSONDecodeError) (\<lambda>v. []) (JStr ''a:5000,b'') = [''a:5000'', ''b'']"
proof -
  have "list_all (\<lambda>r. r \<noteq> [] \<and> strip r = r \<and> CHR '','' \<notin> set r) [''a:5000'', ''b'']" by code_simp
  from listed_registries_round_trip[OF _ this, of "\<lambda>t. Inl JSONDecodeError" "\<lambda>v. []"] show ?thesis by simp
qed

text \<open>
  The exported policies are read back as they are, and a parsed policy is what \<open>get_namespace_policy\<close> answers for its
  namespace.
\<close>

lemma policy_read_back:
  "policy_of_dict to_bool [(''mode'', JStr (mode_text (np_mode p))), (''exempt'', JBool (np_exempt p))] = Inr p"
  by (cases p; cases "np_mode p") (auto simp: policy_of_dict_def policy_mode_def mode_text_def)

theorem exported_policies_are_read_back:
  "parse_namespace_policies to_bool (export_policies ps) = Inr ps"
proof -
  have "mapM (\<lambda>(ns, policy). case policy of
          JObj kvs \<Rightarrow> bindR (policy_of_dict to_bool kvs) (\<lambda>p. Inr (ns, p))
        | _ \<Rightarrow> Inl (ValueError ''Input should be a valid dictionary or instance of NamespacePolicy''))
      (map (\<lambda>(ns, p). (ns, JObj [(''mode'', JStr (mode_text (np_mode p))), (''exempt'', JBool (np_exempt p))])) ps) = Inr ps"
    by (induction ps) (auto simp: policy_read_back)
  then show ?thesis by (simp add: parse_namespace_policies_def export_policies_def)
qed

text \<open>
  The validators are those of the setting, are read at most once, and asking again gives the same answer; so does asking
  for the key pair.
\<close>

theorem validators_are_read_once:
  "(case miner_validators json_loads st of (st', r) \<Rightarrow> miner_validators json_loads st' = (st', r)) \<and>
   (case miner_keypair S st of (st', r) \<Rightarrow> miner_keypair S st' = (st', r)) \<and>
   (case miner_validators json_loads st of (st', r) \<Rightarrow>
      (case r of Inl e \<Rightarrow> st' = st | Inr vs \<Rightarrow> vs = [] \<or> (\<forall>loads2 text2. snd (miner_validators loads2 (st'\<lparr>ms_validators_json := text2\<rparr>)) = Inr vs)))"
  by (auto simp: miner_validators_def miner_keypair_def split: option.split sum.split)

text \<open>A key pair is made from the seed alone.\<close>

theorem key_pair_without_address:
  "snd (miner_keypair S (st\<lparr>mc_miner_ss58 := None, ms_keypair := None\<rparr>)) = create_from_seed S (mc_miner_seed st)"
  by (simp add: miner_keypair_def split: sum.split)

text \<open>A blank in a JSON list is an empty registry; in a text it is left out.\<close>

theorem blank_registry_in_a_list:
  "parse_allowed_registries loads sh (JList [JStr '' '', JStr ''a'']) = [[], ''a'']"
  "parse_allowed_registries (\<lambda>t. Inl JSONDecodeError) sh (JStr '' ,a'') = [''a'']"
proof -
  have "strip '' '' = []" "strip ''a'' = ''a''" "map strip (split_on (CHR '','') '' ,a'') = [[], ''a'']" by code_simp+
  then show "parse_allowed_registries loads sh (JList [JStr '' '', JStr ''a'']) = [[], ''a'']"
    "parse_allowed_registries (\<lambda>t. Inl JSONDecodeError) sh (JStr '' ,a'') = [''a'']"
    by (simp_all add: parse_allowed_registries_def listed_registries_def json_str_def)
qed

end
