(* ===== verification/Proxy_Resources.thy ===== *)
theory Proxy_Resources
  imports Sek8s_Prelude
begin

text \<open>
  The HTTP clients that both servers of the attestation proxy share, \<open>SharedProxyResources\<close> of
  \<open>src/src/attestation-proxy/attestation_proxy/service.py\<close>. Both operations hold the lock, so they are steps. A client is a number; the
  list of the open ones is the state of the network. Whether creating or closing a client raises is up to the environment.
  No client is ever lost while it is open, and a clean-up that returns leaves none.
\<close>

section \<open>Operations\<close>

record resources =
  rs_unix :: "nat option"
  rs_http :: "nat option"
  rs_initialized :: bool
  rs_open :: "nat list"
  rs_next :: nat

definition new_resources :: resources where
  "new_resources = \<lparr>rs_unix = None, rs_http = None, rs_initialized = False, rs_open = [], rs_next = 0\<rparr>"

definition create_client :: "resources \<Rightarrow> resources" where
  "create_client st = st\<lparr>rs_open := rs_open st @ [rs_next st], rs_next := rs_next st + 1\<rparr>"

text \<open>An error of the first client leaves the function, one of the second is only logged.\<close>

definition initialize_clients :: "exn option \<Rightarrow> exn option \<Rightarrow> resources \<Rightarrow> resources \<times> unit res" where
  "initialize_clients http_error unix_error st =
     (if rs_initialized st then (st, Inr ())
      else
        (case http_error of
           Some e \<Rightarrow> (st, Inl e)
         | None \<Rightarrow>
             (let st1 = (create_client st)\<lparr>rs_http := Some (rs_next st)\<rparr>;
                  st2 = (case unix_error of Some e \<Rightarrow> st1 | None \<Rightarrow> (create_client st1)\<lparr>rs_unix := Some (rs_next st1)\<rparr>) in
              (st2\<lparr>rs_initialized := True\<rparr>, Inr ()))))"

text \<open>A client whose closing raises stays open.\<close>

definition close_client :: "nat option \<Rightarrow> exn option \<Rightarrow> resources \<Rightarrow> resources \<times> unit res" where
  "close_client client error st =
     (case client of
        None \<Rightarrow> (st, Inr ())
      | Some c \<Rightarrow> (case error of Some e \<Rightarrow> (st, Inl e) | None \<Rightarrow> (st\<lparr>rs_open := filter (\<lambda>d. d \<noteq> c) (rs_open st)\<rparr>, Inr ())))"

definition cleanup_clients :: "exn option \<Rightarrow> exn option \<Rightarrow> resources \<Rightarrow> resources \<times> unit res" where
  "cleanup_clients unix_error http_error st =
     (if \<not> rs_initialized st then (st, Inr ())
      else
        (case close_client (rs_unix st) unix_error st of
           (st1, Inl e) \<Rightarrow> (st1, Inl e)
         | (st1, Inr u) \<Rightarrow>
             (case close_client (rs_http st1) http_error st1 of
                (st2, Inl e) \<Rightarrow> (st2, Inl e)
              | (st2, Inr v) \<Rightarrow> (st2\<lparr>rs_initialized := False\<rparr>, Inr ()))))"

text \<open>\<open>is_valid_socket\<close>: the answer of \<open>os.path.exists\<close>, and what \<open>os.stat\<close> says of the type.\<close>

definition is_valid_socket :: "bool \<Rightarrow> bool res \<Rightarrow> bool" where
  "is_valid_socket exists is_socket = (exists \<and> (case is_socket of Inr b \<Rightarrow> b | Inl e \<Rightarrow> False))"

section \<open>Interleavings\<close>

text \<open>The servers call the operations in any order and number.\<close>

inductive resource_step :: "resources \<Rightarrow> resources \<Rightarrow> bool" where
  initialize: "resource_step st (fst (initialize_clients http_error unix_error st))"
| cleanup: "resource_step st (fst (cleanup_clients unix_error http_error st))"

inductive_cases resource_stepE: "resource_step st st'"

abbreviation resource_steps :: "resources \<Rightarrow> resources \<Rightarrow> bool" where
  "resource_steps \<equiv> resource_step\<^sup>*\<^sup>*"

definition clients_inv :: "resources \<Rightarrow> bool" where
  "clients_inv st \<longleftrightarrow> set (rs_open st) \<subseteq> set_option (rs_unix st) \<union> set_option (rs_http st) \<and>
     (\<not> rs_initialized st \<longrightarrow> rs_open st = [])"

lemma clients_inv_initialize: "clients_inv st \<Longrightarrow> clients_inv (fst (initialize_clients http_error unix_error st))"
  by (auto simp: clients_inv_def initialize_clients_def create_client_def Let_def split: option.split)

lemma close_client_inv:
  assumes "close_client c e st = (st', r)" "clients_inv st" "c = rs_unix st \<or> c = rs_http st"
  shows "set (rs_open st') \<subseteq> set (rs_open st)" "rs_unix st' = rs_unix st" "rs_http st' = rs_http st"
    "rs_initialized st' = rs_initialized st" "r = Inr () \<Longrightarrow> set (rs_open st') \<inter> set_option c = {}"
  using assms by (auto simp: close_client_def split: option.split_asm)

lemma clients_inv_cleanup: "clients_inv st \<Longrightarrow> clients_inv (fst (cleanup_clients unix_error http_error st))"
proof -
  assume i: "clients_inv st"
  obtain st1 r1 where a: "close_client (rs_unix st) unix_error st = (st1, r1)" by (metis prod.collapse)
  note c1 = close_client_inv[OF a i, simplified]
  obtain st2 r2 where b: "close_client (rs_http st1) http_error st1 = (st2, r2)" by (metis prod.collapse)
  have keep: "clients_inv st1" if "rs_initialized st" using i c1 that by (auto simp: clients_inv_def)
  show ?thesis
  proof (cases "rs_initialized st \<and> r1 = Inr ()")
    case True
    note c2 = close_client_inv[OF b keep, simplified]
    have "set (rs_open st2) \<subseteq> set_option (rs_unix st) \<union> set_option (rs_http st)"
      using i c1 c2(1) True by (auto simp: clients_inv_def)
    moreover have "rs_open st2 = []" if "r2 = Inr ()"
    proof -
      have "set (rs_open st2) \<inter> (set_option (rs_unix st) \<union> set_option (rs_http st)) = {}"
        using c1 c2 True that by fastforce
      then show ?thesis using \<open>set (rs_open st2) \<subseteq> _\<close> by (cases "rs_open st2") auto
    qed
    ultimately show ?thesis using True a b c1 c2
      by (auto simp: cleanup_clients_def clients_inv_def split: sum.split)
  next
    case False
    then show ?thesis using i a keep by (auto simp: cleanup_clients_def split: sum.split)
  qed
qed

lemma clients_inv_steps: "resource_steps st st' \<Longrightarrow> clients_inv st \<Longrightarrow> clients_inv st'"
  by (induction rule: rtranclp_induct) (auto elim!: resource_stepE simp: clients_inv_initialize clients_inv_cleanup)

lemma new_resources_inv: "clients_inv new_resources"
  by (simp add: clients_inv_def new_resources_def)

text \<open>
  In every state that the servers can reach, an open client is one of the two of the object, and before the first and after a
  completed clean-up there is none; starting twice opens nothing more.
\<close>

theorem clients_are_never_lost:
  assumes "resource_steps new_resources st"
  shows "set (rs_open st) \<subseteq> set_option (rs_unix st) \<union> set_option (rs_http st) \<and>
     (rs_initialized st \<or> rs_open st = []) \<and>
     (case cleanup_clients e1 e2 st of (st', r) \<Rightarrow> r \<noteq> Inr () \<or> rs_open st' = []) \<and>
     (case initialize_clients e3 e4 st of (st', r) \<Rightarrow> r \<noteq> Inr () \<or> initialize_clients e5 e6 st' = (st', Inr ()))"
proof -
  have i: "clients_inv st" using clients_inv_steps[OF assms new_resources_inv] .
  have "rs_open st' = []" if "cleanup_clients e1 e2 st = (st', Inr ())" for st'
  proof -
    have "clients_inv st'" using clients_inv_cleanup[OF i, of e1 e2] that by simp
    moreover have "\<not> rs_initialized st'" using that
      by (auto simp: cleanup_clients_def split: if_split_asm prod.split_asm sum.split_asm)
    ultimately show ?thesis by (simp add: clients_inv_def)
  qed
  moreover have "initialize_clients e5 e6 st' = (st', Inr ())" if "initialize_clients e3 e4 st = (st', Inr ())" for st'
    using that by (auto simp: initialize_clients_def Let_def split: if_split_asm option.split_asm)
  ultimately show ?thesis using i by (auto simp: clients_inv_def split: prod.split)
qed

theorem clients_are_never_lost_witness:
  "set (rs_open (fst (initialize_clients None None new_resources))) \<subseteq> {0, 1}"
proof -
  have "resource_steps new_resources (fst (initialize_clients None None new_resources))"
    by (rule r_into_rtranclp) (rule resource_step.initialize)
  from clients_are_never_lost[OF this, of None None None None None None]
  show ?thesis by (simp add: initialize_clients_def create_client_def new_resources_def Let_def)
qed

end
