(* ===== verification/Spec2Isabelle.thy ===== *)
theory Spec2Isabelle
  imports Admission_Controller Auth Pci_Addresses Device_Preparation Post_Launch Cache_Safety Attestation_Proxy
    Image_Manager Request_Signing System_Status Attestation_Service Config_Volume
    Nv_Evidence Guest_Config Guest_Network Luks_Setup Benchmark_Volume Host_Setup Host_Tune
    Metrics Version_Sync Quote_Tool Guest_Launcher Download_Report Service_Settings Proxy_Resources
begin

text \<open>
  A verification library for sek8s, the software of a confidential virtual machine that runs GPU
  workloads ("chutes") under Kubernetes, and of the host that starts it. Paths below are relative to
  \<open>src/\<close>.

  \<^bold>\<open>The program and its parts\<close>

  Inside the guest, an admission controller decides which pods may run and pins their images; a system
  manager keeps a cache of model files; an attestation proxy lets validators reach the attestation
  service and the workloads. All of them authenticate requests with the same signature scheme. On the
  host, a launcher finds out what hardware there is, decides whether a measured configuration exists
  for it, and builds the QEMU command.

  \<^item> \<open>Sek8s_Prelude\<close>: Python exceptions as values (\<open>'a res\<close>), strings, JSON, dictionaries.
  \<^item> \<open>Image_Refs\<close>: \<open>src/sek8s/sek8s/image_utils.py\<close>, image references. The two parsers agree on the
    registry; printing and parsing are inverse.
  \<^item> \<open>Admission_Config\<close>: \<open>src/sek8s/sek8s/config.py\<close>, registries, namespaces and the cosign settings,
    with the lookup of the entry that applies to an image.
  \<^item> \<open>Service_Settings\<close>: the settings of the other services in the same file, their validators and the credentials of the miner.
  \<^item> \<open>Validators\<close>: \<open>validators/base.py\<close>, \<open>registry.py\<close>, \<open>opa.py\<close>. The registry validator admits exactly
    the allow-listed images; the OPA validator fails closed.
  \<^item> \<open>Cosign_Client\<close>, \<open>Cosign_Validator\<close>, \<open>Cosign_Safety\<close>: \<open>clients/cosign.py\<close>, \<open>validators/cosign.py\<close>.
    A verification is two steps, before and after the external process, so that concurrent
    verifications interleave; the locale of verdict caches is interpreted on both caches, and the
    invariant says why an image served from a cache or a digest written into a pod is justified.
  \<^item> \<open>Admission_Controller\<close>: \<open>services/admission_controller.py\<close>, the validating, mutating and
    authorization webhooks, composed of the validators; what an admitted pod in namespace chutes has
    passed.
  \<^item> \<open>Auth\<close>: \<open>src/sek8s-common/sek8s_common/\<close>, signatures on requests, server settings and transport.
  \<^item> \<open>Gpu_Profiles\<close>, \<open>Host_Detection\<close>: \<open>host-tools/scripts/chutes/guest/gpu/\<close>, \<open>guest/detection.py\<close>,
    \<open>guest/verify.py\<close>. What the host reports (sysfs, lspci, tools) is a record; a host is READY only
    with a registered measurement for its live topology.
  \<^item> \<open>Qemu_Launch\<close>, \<open>Pci_Addresses\<close>: \<open>guest/qemu.py\<close>, \<open>guest/passthrough.py\<close>, \<open>guest/__main__.py\<close>, the
    command line, its PCI addresses, and the launch decision. The topology fingerprint is an
    abstraction of the host: equal fingerprints give the same guest-visible PCI topology.
  \<^item> \<open>Device_Preparation\<close>: \<open>guest/vfio.py\<close> and the preparation of \<open>guest/passthrough.py\<close>, as programs
    over a kernel that answers each operation from the history in any way. A prepared device is bound,
    modes are set before binding, the polling loops end, and a launch names only devices that were prepared.
  \<^item> \<open>Guest_Launcher\<close>: the rest of \<open>guest/__main__.py\<close>. Exit code 0 of a launch means that exactly one QEMU was started, with the
    planned command, and has answered 0.
  \<^item> \<open>Post_Launch\<close>: \<open>guest/post_launch.py\<close>, which thread of QEMU is pinned to which CPU.
  \<^item> \<open>Cache_Verify\<close>, \<open>Cache_Download\<close>, \<open>Cache_Manager\<close>, \<open>Cache_Router\<close>, \<open>Cache_Safety\<close>:
    \<open>src/sek8s/sek8s/system_manager/cache/\<close>. Verification against the validator's manifest, the
    download subprocess as the list of states of the directory it may be killed in, the process and
    its coroutine as a step relation, reconciliation, cleanup and the HTTP routes.
  \<^item> \<open>Download_Report\<close>: progress and error texts of a download. What the single properties compute is what the
    snapshot reports; the query of an address does not reach the notices of the retries.
  \<^item> \<open>Proxy_Resources\<close>: the HTTP clients both servers of the attestation proxy share; no open client is lost.
  \<^item> \<open>Attestation_Proxy\<close>: \<open>src/attestation-proxy/attestation_proxy/\<close>, both servers; a locale states
    what any call to a backend guarantees, and is interpreted on one attempt, on the retries around
    it and on both request handlers.

  \<^item> \<open>Image_Manager\<close>: \<open>src/sek8s/sek8s/system_manager/images/\<close>. Pulls are tasks that wait for cosign and for
    the helper program; requests and answers interleave. What is pulled was verified, and the helper
    only gets plain arguments.
  \<^item> \<open>System_Status\<close>: \<open>src/sek8s/sek8s/system_manager/status/\<close>. An answer comes with the commands that were run for it:
    which ones each request can run, the shutdown and the log stream included, how much they return, what counts as healthy; \<open>Command_Output\<close> holds what both need to read text.
  \<^item> \<open>Attestation_Service\<close>: \<open>src/sek8s/sek8s/services/attestation.py\<close> and \<open>providers/\<close>. What a quote binds and whose
    evidence is returned; \<open>Uuid_Text\<close> and \<open>Base64\<close> hold the two text formats.
  \<^item> \<open>Nv_Evidence\<close>: \<open>nvevidence/chutes_nvevidence/\<close>, the tool the attestation service runs; composed with it, which
    nonces can be attested at all.
  \<^item> \<open>Guest_Config\<close>: \<open>host-tools/scripts/chutes/guest/config.py\<close>. A shell that evaluates the printed assignments assigns exactly
    the settings; the shell's reading of quotes is a definition of its own.
  \<^item> \<open>Guest_Network\<close>: \<open>ansible/host/roles/chutes_vm_config/files/\<close>, IPv4 networks over 32-bit words. The picked block shares no address
    with a network of the host.
  \<^item> \<open>Config_Volume\<close>: \<open>ansible/guest/roles/config/files/process-config.py\<close>. The file system is a map whose operations
    may fail; nothing is applied before the volume is validated, and then exactly the volume.
  \<^item> \<open>Benchmark_Volume\<close>: \<open>ansible/guest/roles/benchmark/files/process-config.py\<close>, the same task in the benchmark guest,
    over the same file system. Both scripts accept the same volumes.
  \<^item> \<open>Quote_Tool\<close>: \<open>ansible/guest/roles/benchmark/files/attest.py\<close>. The printed measurements determine the report; the tool
    passes only what both verifications passed.
  \<^item> \<open>Luks_Setup\<close>: \<open>ansible/guest/roles/benchmark/files/luks-setup.py\<close>. A program over commands, questions and what is shown; the
    disk is only changed after the user approved.
  \<^item> \<open>Host_Scripts\<close>: what the scripts of the host share, programs over a host that answers from the history;
    the rules for what a program adds to it. \<open>Gpu_Tools\<close>: \<open>host-tools/scripts/chutes/guest/gpu/tools.py\<close>, the installer of the GPU tool.
    \<open>Host_Setup\<close>: \<open>host/profiles.py\<close>, \<open>host/setup.py\<close>, the set-up of a host, in which a checked command that fails is the last one; which
    kernel it makes the default; the texts it patches are functions with their own guarantees.
  \<^item> \<open>Host_Tune\<close>: \<open>host-tools/scripts/chutes/host/tune.py\<close>. A shell that runs the restore script brings back every setting.
  \<^item> \<open>Metrics\<close>: \<open>src/sek8s/sek8s/metrics.py\<close>. The counters are the numbers of the recorded events.
  \<^item> \<open>Changelogs\<close>, \<open>Version_Sync\<close>: \<open>scripts/promote_changelogs.py\<close>, \<open>scripts/sync_pyproject_versions.py\<close>, the release scripts as
    functions from texts to texts. A promotion can be repeated and keeps every bullet of a changelog whose lines are complete; a synchronised package passes its check.
  \<^item> \<open>Request_Signing\<close>: \<open>src/sek8s/sek8s/services/util.py\<close>, the client side of \<open>Auth\<close>: what is signed there is
    accepted here.

  \<^bold>\<open>State and effects\<close>

  Objects are records and are passed and returned; dictionaries are association lists in insertion
  order. Exceptions are values of \<open>exn\<close> and every raise is a branch. Time is an argument. What the code
  calls outside the repository (cosign, OPA, httpx, Hugging Face, the kernel's files, key pairs and hashes)
  is a parameter of the definitions, gathered in one record per component; hypotheses about it are
  named in the theorems and have witnesses.

  \<^bold>\<open>Bounds\<close>

  No definition takes fuel. Every loop of the modelled code runs over a list or counts to a constant,
  except the three loops of the device preparation that poll until a deadline: they are partial
  functions into \<open>option\<close>, and \<open>preparation_returns\<close> says that they end when the clock runs.
  Retries are bounded by the constants of the source (five downloads, two tries of a proxied request
  at each of two levels). Integers are Python's, unbounded; floats that only hold times and sizes are
  rational numbers. Characters are code points below 256.

  \<^bold>\<open>Not modelled\<close>

  Log lines, file modes and process start-up are left out. The two download benchmarks under
  \<open>host-tools/util/\<close> only measure and print.
\<close>

end
